(* ===== verification/Prelude.thy ===== *)
theory Prelude
  imports Main "HOL-Library.Char_ord" "HOL-Library.List_Lexorder" "HOL-Library.Sublist"
begin

text \<open>
  What every component shares: Go's value conventions (byte strings, signed 64-bit integers,
  instants and durations in nanoseconds, results as sums) and the generic lemmas on lists,
  options and maps that the component theories use.

  A Go \<^verbatim>\<open>string\<close> or \<^verbatim>\<open>[]byte\<close> is a list of bytes, here HOL's \<open>string\<close>. A function that returns
  \<^verbatim>\<open>(T, error)\<close> returns \<open>error + T\<close>: \<open>Inl\<close> the error, \<open>Inr\<close> the value. A possibly nil pointer is
  an \<open>option\<close>.
\<close>

named_theorems go_simps \<open>unfolding rules of the model's small definitions\<close>
named_theorems go_splits \<open>case splits for results\<close>

type_synonym bytes = string

text \<open>An instant is nanoseconds since the Unix epoch, a duration a number of nanoseconds.\<close>

type_synonym instant = int
type_synonym duration = int

abbreviation (input) Ok :: "'a \<Rightarrow> 'e + 'a" where "Ok \<equiv> Inr"
abbreviation (input) Err :: "'e \<Rightarrow> 'e + 'a" where "Err \<equiv> Inl"

definition is_ok :: "'e + 'a \<Rightarrow> bool" where
  "is_ok r = (case r of Inl _ \<Rightarrow> False | Inr _ \<Rightarrow> True)"

lemma is_ok_simps [simp]: "is_ok (Inl e) = False" "is_ok (Inr a) = True"
  by (simp_all add: is_ok_def)

lemma is_okE: "is_ok r \<Longrightarrow> (\<And>a. r = Inr a \<Longrightarrow> P) \<Longrightarrow> P"
  by (cases r) simp_all

section \<open>Signed 64-bit integers\<close>

text \<open>
  Go's \<^verbatim>\<open>int64\<close> arithmetic wraps around. A model value is an \<open>int\<close>; \<open>i64\<close> brings the result of an
  addition back into the range of the type.
\<close>

definition i64 :: "int \<Rightarrow> int" where
  "i64 x = (x + 2 ^ 63) mod 2 ^ 64 - 2 ^ 63"

definition in_i64 :: "int \<Rightarrow> bool" where
  "in_i64 x \<longleftrightarrow> - (2 ^ 63) \<le> x \<and> x < 2 ^ 63"

lemma i64_id: "in_i64 x \<Longrightarrow> i64 x = x"
  by (simp add: i64_def in_i64_def)

lemma i64_range: "in_i64 (i64 x)"
proof -
  have "0 \<le> (x + 2 ^ 63) mod 2 ^ 64" and "(x + 2 ^ 63) mod 2 ^ 64 < (2 :: int) ^ 64"
    by simp_all
  then show ?thesis by (simp add: i64_def in_i64_def)
qed

lemma i64_wraps_high:
  assumes "2 ^ 63 \<le> x" "x < 2 ^ 63 + 2 ^ 62"
  shows "i64 x = x - 2 ^ 64"
proof -
  have "x + 2 ^ 63 = (x - 2 ^ 63) + 2 ^ 64" by simp
  then have "(x + 2 ^ 63) mod 2 ^ 64 = (x - 2 ^ 63) mod (2 ^ 64 :: int)"
    by (metis mod_add_self2)
  also have "\<dots> = x - 2 ^ 63"
    using assms by (intro mod_pos_pos_trivial) simp_all
  finally show ?thesis by (simp add: i64_def)
qed

section \<open>Time\<close>

abbreviation second :: duration where "second \<equiv> 1000000000"

text \<open>\<^verbatim>\<open>time.Time.Unix\<close>: whole seconds, rounded towards the past.\<close>

definition unix :: "instant \<Rightarrow> int" where
  "unix t = t div 1000000000"

text \<open>The zero value of \<^verbatim>\<open>time.Time\<close>, 1 January of year 1, which \<^verbatim>\<open>IsZero\<close> tests.\<close>

definition zero_time :: instant where
  "zero_time = - 62135596800 * 1000000000"

lemma unix_mono: "s \<le> t \<Longrightarrow> unix s \<le> unix t"
  by (simp add: unix_def zdiv_mono1)

lemma unix_add_seconds [simp]: "unix (t + k * 1000000000) = unix t + k"
  by (simp add: unix_def)

section \<open>Lists and maps\<close>

lemma find_None_iff_all: "List.find P xs = None \<longleftrightarrow> (\<forall>x \<in> set xs. \<not> P x)"
  by (auto simp: find_None_iff)

lemma find_SomeD: "List.find P xs = Some x \<Longrightarrow> x \<in> set xs \<and> P x"
  by (auto simp: find_Some_iff in_set_conv_nth)

lemma map_of_distinct_in:
  "distinct (map fst xs) \<Longrightarrow> (k, v) \<in> set xs \<Longrightarrow> map_of xs k = Some v"
  by simp

lemma map_of_SomeE:
  assumes "map_of xs k = Some v"
  obtains "(k, v) \<in> set xs" "k \<in> fst ` set xs"
proof -
  from assms have "(k, v) \<in> set xs" by (rule map_of_SomeD)
  moreover from this have "k \<in> fst ` set xs" by (rule rev_image_eqI) simp
  ultimately show ?thesis by (rule that)
qed

lemma hd_filter_find: "filter P xs \<noteq> [] \<Longrightarrow> List.find P xs = Some (hd (filter P xs))"
  by (induction xs) auto

lemma filter_eq_singleton: "distinct xs \<Longrightarrow> j \<in> set xs \<Longrightarrow> filter (\<lambda>k. k = j) xs = [j]"
  by (induction xs) (auto simp: filter_empty_conv)

lemma distinct_filter_unique:
  assumes "\<And>i j. i < length xs \<Longrightarrow> j < length xs \<Longrightarrow> P (xs ! i) \<Longrightarrow> P (xs ! j) \<Longrightarrow>
    xs ! i = xs ! j \<Longrightarrow> i = j"
  shows "distinct (filter P xs)"
  using assms
proof (induction xs)
  case (Cons x xs)
  have "distinct (filter P xs)"
    using Cons.prems[of "Suc i" "Suc j" for i j] by (intro Cons.IH) auto
  moreover have "x \<notin> set xs" if "P x"
    using Cons.prems[of 0 "Suc i" for i] that by (auto simp: in_set_conv_nth)
  ultimately show ?case by simp
qed simp

lemma singleton_by_set:
  assumes "distinct xs" "x \<in> set xs" "\<And>y. y \<in> set xs \<Longrightarrow> y = x"
  shows "xs = [x]"
proof (cases xs)
  case (Cons y ys)
  then have "y = x" using assms(3)[of y] by simp
  moreover have "ys = []"
  proof (cases ys)
    case zs: (Cons z zs)
    with Cons assms(1) have "z \<noteq> y" by auto
    with assms(3)[of z] Cons zs \<open>y = x\<close> show ?thesis by simp
  qed simp
  ultimately show ?thesis using Cons by simp
qed (use assms in simp)

end
