(* ===== verification/Go_Strings.thy ===== *)
theory Go_Strings
  imports Prelude
begin

text \<open>
  The functions of Go's \<^verbatim>\<open>strings\<close>, \<^verbatim>\<open>unicode\<close> and \<^verbatim>\<open>encoding/hex\<close> packages that the program calls,
  on byte strings. White space is \<^verbatim>\<open>unicode.IsSpace\<close>: the UTF-8 encodings of its code points are
  listed byte by byte, so \<^verbatim>\<open>TrimSpace\<close> and \<^verbatim>\<open>Fields\<close> are exact on every input, valid UTF-8 or not
  (a lead byte never occurs inside another rune, so matching at each byte position agrees with
  decoding rune by rune).

  The lemmas give the round trip the scope handling rests on: splitting a joined list of
  space-free words gives the words back.
\<close>

section \<open>White space\<close>

definition space_encodings :: "bytes list" where
  "space_encodings =
    [[CHR 0x20], [CHR 0x09], [CHR 0x0A], [CHR 0x0B], [CHR 0x0C], [CHR 0x0D],
     [CHR 0xC2, CHR 0x85], [CHR 0xC2, CHR 0xA0],
     [CHR 0xE1, CHR 0x9A, CHR 0x80],
     [CHR 0xE2, CHR 0x80, CHR 0x80], [CHR 0xE2, CHR 0x80, CHR 0x81],
     [CHR 0xE2, CHR 0x80, CHR 0x82], [CHR 0xE2, CHR 0x80, CHR 0x83],
     [CHR 0xE2, CHR 0x80, CHR 0x84], [CHR 0xE2, CHR 0x80, CHR 0x85],
     [CHR 0xE2, CHR 0x80, CHR 0x86], [CHR 0xE2, CHR 0x80, CHR 0x87],
     [CHR 0xE2, CHR 0x80, CHR 0x88], [CHR 0xE2, CHR 0x80, CHR 0x89],
     [CHR 0xE2, CHR 0x80, CHR 0x8A],
     [CHR 0xE2, CHR 0x80, CHR 0xA8], [CHR 0xE2, CHR 0x80, CHR 0xA9],
     [CHR 0xE2, CHR 0x80, CHR 0xAF], [CHR 0xE2, CHR 0x81, CHR 0x9F],
     [CHR 0xE3, CHR 0x80, CHR 0x80]]"

text \<open>Remove one white-space rune from the front, if there is one.\<close>

definition strip_any :: "bytes list \<Rightarrow> bytes \<Rightarrow> bytes option" where
  "strip_any encs s =
    (case List.find (\<lambda>p. p \<noteq> [] \<and> prefix p s) encs of
       None \<Rightarrow> None
     | Some p \<Rightarrow> Some (drop (length p) s))"

definition strip_space :: "bytes \<Rightarrow> bytes option" where
  "strip_space = strip_any space_encodings"

lemma strip_any_None_iff:
  "strip_any encs s = None \<longleftrightarrow> (\<forall>p \<in> set encs. p = [] \<or> \<not> prefix p s)"
  by (auto simp: strip_any_def find_None_iff_all split: option.splits dest!: find_SomeD)

lemma strip_any_shorter: "strip_any encs s = Some t \<Longrightarrow> length t < length s"
  by (auto simp: strip_any_def prefix_def split: option.splits dest!: find_SomeD)

lemma strip_space_shorter [simp]: "strip_space s = Some t \<Longrightarrow> length t < length s"
  by (simp add: strip_space_def strip_any_shorter)

lemma strip_space_Nil [simp]: "strip_space [] = None"
  by (simp add: strip_space_def strip_any_None_iff)

lemma strip_space_blank [simp]: "strip_space (CHR '' '' # s) = Some s"
  by (simp add: strip_space_def strip_any_def space_encodings_def)

lemma strip_space_prefixD: "strip_space (s @ t) = None \<Longrightarrow> strip_space s = None"
  by (auto simp: strip_space_def strip_any_None_iff)

lemma blank_only_first: "p \<in> set space_encodings \<Longrightarrow> CHR '' '' \<notin> set (tl p)"
  by (auto simp: space_encodings_def)

text \<open>No white-space rune straddles the end of a word and the blank after it.\<close>

lemma strip_space_before_blank:
  assumes "strip_space u = None" "u \<noteq> []"
  shows "strip_space (u @ CHR '' '' # r) = None"
proof -
  have "\<not> prefix p (u @ CHR '' '' # r)" if p: "p \<in> set space_encodings" "p \<noteq> []" for p
  proof
    assume "prefix p (u @ CHR '' '' # r)"
    moreover have "\<not> prefix p u"
      using assms(1) p by (auto simp: strip_space_def strip_any_None_iff)
    ultimately obtain q where q: "p = u @ q" "prefix q (CHR '' '' # r)" "q \<noteq> []"
      by (auto simp: prefix_append)
    then obtain q' where "p = u @ CHR '' '' # q'"
      by (auto simp: prefix_Cons)
    with \<open>u \<noteq> []\<close> have "CHR '' '' \<in> set (tl p)" by (cases u) simp_all
    with blank_only_first[OF p(1)] show False by simp
  qed
  then show ?thesis by (auto simp: strip_space_def strip_any_None_iff)
qed

section \<open>TrimSpace\<close>

function trim_with :: "bytes list \<Rightarrow> bytes \<Rightarrow> bytes" where
  "trim_with encs s = (case strip_any encs s of None \<Rightarrow> s | Some t \<Rightarrow> trim_with encs t)"
  by pat_completeness auto
termination
  by (relation "measure (\<lambda>(encs, s). length s)") (auto dest: strip_any_shorter)

declare trim_with.simps [simp del]

definition TrimSpace :: "bytes \<Rightarrow> bytes" where
  "TrimSpace s =
    rev (trim_with (map rev space_encodings) (rev (trim_with space_encodings s)))"

text \<open>\<^verbatim>\<open>strings.TrimSpace(s) == ""\<close>, the emptiness test the handlers use.\<close>

definition is_blank :: "bytes \<Rightarrow> bool" where
  "is_blank s \<longleftrightarrow> TrimSpace s = []"

lemma trim_with_None: "strip_any encs s = None \<Longrightarrow> trim_with encs s = s"
  by (subst trim_with.simps) simp

lemma trim_with_length: "length (trim_with encs s) \<le> length s"
proof (induction encs s rule: trim_with.induct)
  case (1 encs s)
  then show ?case
    by (subst trim_with.simps)
      (auto split: option.splits dest: strip_any_shorter intro: order_trans[OF _ less_imp_le])
qed

lemma trim_with_Nil [simp]: "trim_with encs [] = []"
  using trim_with_length[of encs "[]"] by simp

lemma TrimSpace_Nil [simp]: "TrimSpace [] = []"
  by (simp add: TrimSpace_def)

lemma is_blank_Nil [simp]: "is_blank []"
  by (simp add: is_blank_def)

lemma trim_with_empty:
  "trim_with encs t = [] \<Longrightarrow> \<exists>ps. set ps \<subseteq> set encs \<and> t = concat ps"
proof (induction encs t rule: trim_with.induct)
  case (1 encs s)
  show ?case
  proof (cases "strip_any encs s")
    case None
    with 1(2) have "s = []" by (simp add: trim_with_None)
    then show ?thesis by (intro exI[of _ "[]"]) simp
  next
    case (Some t)
    then have "trim_with encs t = []" using 1(2) by (subst (asm) trim_with.simps) simp
    with 1(1)[OF Some] obtain ps where ps: "set ps \<subseteq> set encs" "t = concat ps" by blast
    from Some obtain p where "p \<in> set encs" "prefix p s" "t = drop (length p) s"
      by (auto simp: strip_any_def split: option.splits dest!: find_SomeD)
    with ps show ?thesis
      by (intro exI[of _ "p # ps"]) (auto simp: prefix_def)
  qed
qed

text \<open>A string that does not begin with white space is not blank.\<close>

lemma not_blankI:
  assumes "strip_space s = None" "s \<noteq> []"
  shows "\<not> is_blank s"
proof
  assume "is_blank s"
  then have "trim_with (map rev space_encodings) (rev s) = []"
    using assms(1) by (simp add: is_blank_def TrimSpace_def trim_with_None strip_space_def)
  then obtain ps where ps: "set ps \<subseteq> rev ` set space_encodings" "rev s = concat ps"
    using trim_with_empty by fastforce
  then have "s = concat (map rev (rev ps))"
    by (metis rev_concat rev_map rev_rev_ident)
  moreover from ps have "set (map rev (rev ps)) \<subseteq> set space_encodings" by auto
  ultimately obtain qs where qs: "set qs \<subseteq> set space_encodings" "s = concat qs" by blast
  then obtain q qs' where q: "qs = q # qs'" using assms(2) by (cases qs) auto
  then have "prefix q s" "q \<in> set space_encodings" using qs by auto
  moreover have "[] \<notin> set space_encodings" by (simp add: space_encodings_def)
  ultimately show False using assms(1) by (auto simp: strip_space_def strip_any_None_iff)
qed

lemma strip_any_plain:
  assumes "set t \<inter> set (concat encs) = {}"
  shows "strip_any encs t = None"
proof -
  have "p = [] \<or> \<not> prefix p t" if p: "p \<in> set encs" for p
  proof (cases p)
    case (Cons a p')
    with p have "a \<in> set (concat encs)" by (auto intro: bexI[of _ p])
    with assms have "a \<notin> set t" by blast
    then show ?thesis using Cons by (auto simp: prefix_def)
  qed simp
  then show ?thesis by (simp add: strip_any_None_iff)
qed

lemma TrimSpace_plain:
  assumes "set s \<inter> set (concat space_encodings) = {}"
  shows "TrimSpace s = s"
proof -
  have "set (concat (map rev space_encodings)) = set (concat space_encodings)" by simp
  then show ?thesis
    using strip_any_plain[OF assms] strip_any_plain[of "rev s" "map rev space_encodings"] assms
    by (simp add: TrimSpace_def trim_with_None del: set_concat)
qed

lemma not_blank_nonempty: "\<not> is_blank s \<Longrightarrow> s \<noteq> []"
  by auto

section \<open>Fields\<close>

function fields_from :: "bytes \<Rightarrow> bytes \<Rightarrow> bytes list" where
  "fields_from cur s =
    (case strip_space s of
       Some t \<Rightarrow> (if cur = [] then fields_from [] t else cur # fields_from [] t)
     | None \<Rightarrow>
         (case s of
            [] \<Rightarrow> (if cur = [] then [] else [cur])
          | c # cs \<Rightarrow> fields_from (cur @ [c]) cs))"
  by pat_completeness auto
termination
  by (relation "measure (\<lambda>(cur, s). length s)") auto

declare fields_from.simps [simp del]

definition Fields :: "bytes \<Rightarrow> bytes list" where
  "Fields s = fields_from [] s"

text \<open>No white-space rune starts inside the word.\<close>

definition no_space :: "bytes \<Rightarrow> bool" where
  "no_space t \<longleftrightarrow> (\<forall>k < length t. strip_space (drop k t) = None)"

definition is_word :: "bytes \<Rightarrow> bool" where
  "is_word t \<longleftrightarrow> t \<noteq> [] \<and> no_space t"

lemma no_space_Nil [simp]: "no_space []"
  by (simp add: no_space_def)

lemma no_space_Cons: "no_space (c # t) \<longleftrightarrow> strip_space (c # t) = None \<and> no_space t"
  by (auto simp: no_space_def less_Suc_eq_0_disj)

lemma no_space_code [code]:
  "no_space [] \<longleftrightarrow> True" "no_space (c # t) \<longleftrightarrow> strip_space (c # t) = None \<and> no_space t"
  by (simp_all add: no_space_Cons)

lemma fields_from_word:
  "no_space t \<Longrightarrow>
    fields_from cur (t @ CHR '' '' # r) =
      (if cur @ t = [] then fields_from [] r else (cur @ t) # fields_from [] r)"
proof (induction t arbitrary: cur)
  case Nil
  then show ?case by (subst fields_from.simps) simp
next
  case (Cons c t)
  then have "strip_space ((c # t) @ CHR '' '' # r) = None"
    by (intro strip_space_before_blank) (simp_all add: no_space_Cons)
  then have "fields_from cur ((c # t) @ CHR '' '' # r) =
      fields_from (cur @ [c]) (t @ CHR '' '' # r)"
    by (subst fields_from.simps) simp
  with Cons show ?case by (simp add: no_space_Cons)
qed

lemma fields_from_last:
  "no_space t \<Longrightarrow> fields_from cur t = (if cur @ t = [] then [] else [cur @ t])"
proof (induction t arbitrary: cur)
  case Nil
  then show ?case by (subst fields_from.simps) simp
next
  case (Cons c t)
  then have "fields_from cur (c # t) = fields_from (cur @ [c]) t"
    by (subst fields_from.simps) (simp add: no_space_Cons)
  with Cons show ?case by (simp add: no_space_Cons)
qed

fun strings_Join :: "bytes \<Rightarrow> bytes list \<Rightarrow> bytes" where
  "strings_Join sep [] = []"
| "strings_Join sep [x] = x"
| "strings_Join sep (x # y # r) = x @ sep @ strings_Join sep (y # r)"

lemma Fields_Join: "(\<forall>t \<in> set ts. is_word t) \<Longrightarrow> Fields (strings_Join '' '' ts) = ts"
proof (induction ts rule: induct_list012)
  case 1
  then show ?case by (simp add: Fields_def fields_from_last)
next
  case (2 x)
  then show ?case by (simp add: Fields_def fields_from_last is_word_def)
next
  case (3 x y ts)
  then show ?case
    using fields_from_word[of x "[]" "strings_Join '' '' (y # ts)"]
    by (simp add: Fields_def is_word_def)
qed

text \<open>Every field is a word.\<close>

lemma fields_from_words:
  "(\<forall>k < length cur. strip_space (drop k cur @ s) = None) \<Longrightarrow>
    \<forall>t \<in> set (fields_from cur s). is_word t"
proof (induction cur s rule: fields_from.induct)
  case (1 cur s)
  have word: "is_word cur" if "cur \<noteq> []"
    using that 1 by (auto simp: is_word_def no_space_def intro: strip_space_prefixD)
  show ?case
  proof (cases "strip_space s")
    case (Some t)
    then show ?thesis using 1(2,3)[OF Some] word
      by (subst fields_from.simps) auto
  next
    case None
    show ?thesis
    proof (cases s)
      case Nil
      then show ?thesis using word by (subst fields_from.simps) auto
    next
      case (Cons c cs)
      have "\<forall>k < length (cur @ [c]). strip_space (drop k (cur @ [c]) @ cs) = None"
        using 1(4) None Cons by (auto simp: less_Suc_eq)
      from 1(1)[OF None Cons this] show ?thesis
        using None Cons by (subst fields_from.simps) simp
    qed
  qed
qed

lemma Fields_words: "t \<in> set (Fields s) \<Longrightarrow> is_word t"
  using fields_from_words[of "[]" s] by (simp add: Fields_def)

lemma Fields_Nil [simp]: "Fields [] = []"
  by (simp add: Fields_def fields_from_last)

section \<open>Case folding, searching and splitting\<close>

definition ascii_lower :: "char \<Rightarrow> char" where
  "ascii_lower c =
    (if 65 \<le> (of_char c :: nat) \<and> (of_char c :: nat) \<le> 90
     then char_of ((of_char c :: nat) + 32) else c)"

text \<open>
  \<^verbatim>\<open>strings.EqualFold(s, t)\<close> for an ASCII \<open>t\<close>, the only use in the program. Under simple folding two
  runes outside ASCII are equal to ASCII letters: U+017F (long s) and U+212A (Kelvin sign).
\<close>

fun fold_ascii :: "bytes \<Rightarrow> bytes" where
  "fold_ascii [] = []"
| "fold_ascii (c # s) =
    (if c = CHR 0xC5 \<and> prefix [CHR 0xBF] s then CHR ''s'' # fold_ascii (drop 1 s)
     else if c = CHR 0xE2 \<and> prefix [CHR 0x84, CHR 0xAA] s then CHR ''k'' # fold_ascii (drop 2 s)
     else ascii_lower c # fold_ascii s)"

definition EqualFold :: "bytes \<Rightarrow> bytes \<Rightarrow> bool" where
  "EqualFold s t \<longleftrightarrow> fold_ascii s = fold_ascii t"

primrec strings_Contains :: "bytes \<Rightarrow> bytes \<Rightarrow> bool" where
  "strings_Contains [] pat \<longleftrightarrow> prefix pat []"
| "strings_Contains (c # s) pat \<longleftrightarrow> prefix pat (c # s) \<or> strings_Contains s pat"

fun split_on :: "char \<Rightarrow> bytes \<Rightarrow> bytes list" where
  "split_on c [] = [[]]"
| "split_on c (x # xs) =
    (if x = c then [] # split_on c xs
     else (case split_on c xs of [] \<Rightarrow> [[x]] | h # t \<Rightarrow> (x # h) # t))"

lemma split_on_nonempty [simp]: "split_on c s \<noteq> []"
  by (cases s) (auto split: list.splits)

lemma split_on_no_sep: "c \<notin> set s \<Longrightarrow> split_on c s = [s]"
  by (induction s) auto

lemma split_on_append: "c \<notin> set s \<Longrightarrow> split_on c (s @ c # t) = s # split_on c t"
  by (induction s) auto

text \<open>\<^verbatim>\<open>strings.Cut(s, sep)\<close> for a one-byte separator: before, after, found.\<close>

definition strings_Cut :: "char \<Rightarrow> bytes \<Rightarrow> bytes \<times> bytes \<times> bool" where
  "strings_Cut c s =
    (if c \<in> set s then (takeWhile (\<lambda>x. x \<noteq> c) s, tl (dropWhile (\<lambda>x. x \<noteq> c) s), True)
     else (s, [], False))"

lemma split_on_terminated:
  "\<forall>l \<in> set ls. c \<notin> set l \<Longrightarrow> split_on c (concat (map (\<lambda>l. l @ [c]) ls)) = ls @ [[]]"
  by (induction ls) (simp_all add: split_on_append)

section \<open>Hexadecimal text\<close>

definition hex_digit :: "nat \<Rightarrow> char" where
  "hex_digit n = ''0123456789abcdef'' ! (n mod 16)"

definition hex_encode :: "bytes \<Rightarrow> bytes" where
  "hex_encode s = concat (map (\<lambda>c. [hex_digit (of_char c div 16), hex_digit (of_char c)]) s)"

lemma length_hex_encode [simp]: "length (hex_encode s) = 2 * length s"
  by (induction s) (simp_all add: hex_encode_def)

end
