(* ===== verification/Scopes.thy ===== *)
theory Scopes
  imports Go_Strings "HOL-Library.Multiset"
begin

text \<open>
  The scope sets of \<^verbatim>\<open>internal/token/claims.go\<close>: splitting an OAuth scope string, subset,
  intersection and copy, and joining a set back with \<^verbatim>\<open>sortStrings\<close>, the in-place insertion sort
  written out with its index loop.

  Go iterates a map in an unspecified order. \<open>join_scopes_in\<close> takes the order of the iteration
  as its argument, and \<open>join_scopes_order\<close> shows that the result does not depend on it.
\<close>

type_synonym scopes = "bytes set"

definition ScopeSet :: "bytes \<Rightarrow> scopes" where
  "ScopeSet scope = set (Fields scope)"

definition Subset :: "scopes \<Rightarrow> scopes \<Rightarrow> bool" where
  "Subset want have_set \<longleftrightarrow> (\<forall>s \<in> want. s \<in> have_set)"

definition Intersect :: "scopes \<Rightarrow> scopes \<Rightarrow> scopes" where
  "Intersect a b = {s \<in> a. s \<in> b}"

definition CopySet :: "scopes \<Rightarrow> scopes" where
  "CopySet s = s"

section \<open>sortStrings\<close>

text \<open>The inner loop: \<open>s[j]\<close> sinks to the left while it is smaller than its neighbour.\<close>

primrec sift :: "nat \<Rightarrow> bytes list \<Rightarrow> bytes list" where
  "sift 0 s = s"
| "sift (Suc j) s =
    (if s ! Suc j < s ! j then sift j (s[Suc j := s ! j, j := s ! Suc j]) else s)"

definition sortStrings :: "bytes list \<Rightarrow> bytes list" where
  "sortStrings s = fold sift [1..<length s] s"

lemma sift_insert: "sorted xs \<Longrightarrow> sift (length xs) (xs @ x # zs) = sort (xs @ [x]) @ zs"
proof (induction xs arbitrary: zs rule: rev_induct)
  case Nil
  then show ?case by simp
next
  case (snoc y xs)
  from snoc.prems have xs: "sorted xs" and le: "\<forall>z \<in> set xs. z \<le> y"
    by (simp_all add: sorted_append)
  show ?case
  proof (cases "x < y")
    case True
    have "sift (length (xs @ [y])) ((xs @ [y]) @ x # zs) = sift (length xs) (xs @ x # y # zs)"
      using True by (simp add: nth_append list_update_append)
    also have "\<dots> = sort (xs @ [x]) @ y # zs" by (rule snoc.IH[OF xs])
    also have "sort ((xs @ [y]) @ [x]) = sort (xs @ [x]) @ [y]"
      by (rule properties_for_sort) (use True le in \<open>auto simp: sorted_append\<close>)
    ultimately show ?thesis by simp
  next
    case False
    then have "sort ((xs @ [y]) @ [x]) = (xs @ [y]) @ [x]"
      by (intro properties_for_sort) (use xs le in \<open>auto simp: sorted_append intro: order_trans\<close>)
    with False show ?thesis by (simp add: nth_append)
  qed
qed

lemma sift_rounds:
  "k < length s \<Longrightarrow> fold sift [1..<Suc k] s = sort (take (Suc k) s) @ drop (Suc k) s"
proof (induction k)
  case 0
  then show ?case by (cases s) simp_all
next
  case (Suc k)
  then have "fold sift [1..<Suc (Suc k)] s
      = sift (Suc k) (sort (take (Suc k) s) @ s ! Suc k # drop (Suc (Suc k)) s)"
    by (simp add: Cons_nth_drop_Suc)
  also have "\<dots> = sort (sort (take (Suc k) s) @ [s ! Suc k]) @ drop (Suc (Suc k)) s"
    using sift_insert[of "sort (take (Suc k) s)" "s ! Suc k" "drop (Suc (Suc k)) s"] Suc.prems
    by simp
  also have "sort (sort (take (Suc k) s) @ [s ! Suc k]) = sort (take (Suc (Suc k)) s)"
    by (rule properties_for_sort) (use Suc.prems in \<open>simp_all add: take_Suc_conv_app_nth[of "Suc k"]\<close>)
  finally show ?case .
qed

lemma sortStrings_sort [simp]: "sortStrings s = sort s"
proof (cases s)
  case Nil
  then show ?thesis by (simp add: sortStrings_def)
next
  case (Cons x xs)
  then show ?thesis using sift_rounds[of "length xs" s] by (simp add: sortStrings_def)
qed

section \<open>Joining\<close>

definition join_scopes_in :: "bytes list \<Rightarrow> bytes" where
  "join_scopes_in parts =
    (if parts = [] then [] else strings_Join '' '' (sortStrings parts))"

definition JoinScopes :: "scopes \<Rightarrow> bytes" where
  "JoinScopes s = join_scopes_in (sorted_list_of_set s)"

lemma sort_sorted_list_of_set [simp]: "sort (sorted_list_of_set s) = sorted_list_of_set s"
  by (rule sorted_sort_id) simp

lemma JoinScopes_Nil [simp]: "JoinScopes {} = []"
  by (simp add: JoinScopes_def join_scopes_in_def)

lemma join_scopes_order:
  assumes "distinct parts"
  shows "join_scopes_in parts = JoinScopes (set parts)"
proof -
  have "sort parts = sorted_list_of_set (set parts)"
    using assms by (simp add: sorted_list_of_set_sort_remdups distinct_remdups_id)
  then show ?thesis by (auto simp: JoinScopes_def join_scopes_in_def)
qed

lemma finite_ScopeSet [simp]: "finite (ScopeSet s)"
  by (simp add: ScopeSet_def)

lemma ScopeSet_Nil [simp]: "ScopeSet [] = {}"
  by (simp add: ScopeSet_def)

lemma ScopeSet_words: "t \<in> ScopeSet s \<Longrightarrow> is_word t"
  by (simp add: ScopeSet_def Fields_words)

lemma ScopeSet_JoinScopes:
  assumes "finite s" "\<forall>t \<in> s. is_word t"
  shows "ScopeSet (JoinScopes s) = s"
proof (cases "s = {}")
  case True
  then show ?thesis by (simp add: JoinScopes_def join_scopes_in_def)
next
  case False
  have "Fields (strings_Join '' '' (sorted_list_of_set s)) = sorted_list_of_set s"
    by (rule Fields_Join) (use assms in simp)
  with False assms(1) show ?thesis
    by (simp add: JoinScopes_def join_scopes_in_def ScopeSet_def)
qed

lemma JoinScopes_ScopeSet: "ScopeSet (JoinScopes (ScopeSet s)) = ScopeSet s"
  by (rule ScopeSet_JoinScopes) (simp_all add: ScopeSet_words)

lemma Subset_iff [simp]: "Subset a b \<longleftrightarrow> a \<subseteq> b"
  by (auto simp: Subset_def)

lemma Intersect_Int [simp]: "Intersect a b = a \<inter> b"
  by (auto simp: Intersect_def)

lemma CopySet_id [simp]: "CopySet s = s"
  by (simp add: CopySet_def)

lemma JoinScopes_empty_iff:
  "finite s \<Longrightarrow> (\<forall>t \<in> s. is_word t) \<Longrightarrow> JoinScopes s = [] \<longleftrightarrow> s = {}"
  by (metis JoinScopes_Nil ScopeSet_JoinScopes ScopeSet_Nil)

text \<open>The words of a joined list of word lists, as \<^verbatim>\<open>ScopeSet(strings.Join(max, " "))\<close> reads it.\<close>

lemma ScopeSet_Join_words:
  "(\<forall>t \<in> set ts. is_word t) \<Longrightarrow> ScopeSet (strings_Join '' '' ts) = set ts"
  by (simp add: ScopeSet_def Fields_Join)

end
