(* ===== verification/Claims.thy ===== *)
theory Claims
  imports Go_Strings
begin

text \<open>
  \<^verbatim>\<open>internal/token/claims.go\<close>: the JWT payload, the actor objects of RFC 8693, audiences, and the
  validity checks on time, issuer, audience and subject.

  Every check that returns only an error is an \<open>option\<close>: \<open>None\<close> is Go's \<^verbatim>\<open>nil\<close>. Seconds are
  \<^verbatim>\<open>int64\<close>, so the additions of the clock skew wrap around as in the code (\<^const>\<open>i64\<close>). The lemmas show
  the acceptance window of \<^verbatim>\<open>ValidateTime\<close> and that \<^verbatim>\<open>ReplayUntil\<close> is exactly its last second, and
  how the chain functions compose: appending the current actor to the chain is what makes the hop
  list grow by one.
\<close>

datatype token_error =
    Token_ErrAudience | Token_ErrExpired | Token_ErrNotYetValid | Token_ErrMissingSubject
  | Token_ErrMissingIssuer | Token_ErrIssuerMismatch | Token_ErrMultiAudience | Token_ErrMissingTxn
  | Token_ErrInvalidToken | Token_ErrAlgNone | Token_ErrAlgConfusion | Token_ErrUnknownKey
  | Token_ErrBadSignature | Token_ErrUnsupportedAlg | Token_ErrUnsupportedCurve
  | Token_ErrThumbprint | Token_ErrMissingPrivateKey | Token_ErrInvalidKey

section \<open>Data\<close>

datatype actor = Actor (act_iss: bytes) (act_sub: bytes) (act_act: "actor option")

record confirmation =
  cnf_jkt :: bytes

type_synonym audience = "bytes list"

record claims =
  c_iss :: bytes
  c_sub :: bytes
  c_aud :: audience
  c_exp :: int
  c_nbf :: int
  c_iat :: int
  c_jti :: bytes
  c_txn :: bytes
  c_act :: "actor option"
  c_actchain :: "actor list"
  c_scope :: bytes
  c_purp :: bytes
  c_cnf :: "confirmation option"

definition ConfirmJKT :: "claims \<Rightarrow> bytes" where
  "ConfirmJKT c = (case c_cnf c of None \<Rightarrow> [] | Some cnf \<Rightarrow> cnf_jkt cnf)"

section \<open>Audience\<close>

definition aud_Single :: "audience \<Rightarrow> bytes option" where
  "aud_Single a =
    (case a of
       [x] \<Rightarrow> (if x = [] then None else Some x)
     | _ \<Rightarrow> None)"

primrec aud_Contains :: "audience \<Rightarrow> bytes \<Rightarrow> bool" where
  "aud_Contains [] x \<longleftrightarrow> False"
| "aud_Contains (v # a) x \<longleftrightarrow> (if v = x then True else aud_Contains a x)"

definition SingleAudience :: "bytes \<Rightarrow> token_error + audience" where
  "SingleAudience aud = (if aud = [] then Inl Token_ErrMultiAudience else Inr [aud])"

lemma aud_Contains_iff [simp]: "aud_Contains a x \<longleftrightarrow> x \<in> set a"
  by (induction a) auto

lemma aud_Single_Some_iff [simp]: "aud_Single a = Some x \<longleftrightarrow> a = [x] \<and> x \<noteq> []"
  by (auto simp: aud_Single_def split: list.splits)

lemma aud_Single_SingleAudience: "SingleAudience x = Inr a \<Longrightarrow> aud_Single a = Some x"
  by (auto simp: SingleAudience_def split: if_splits)

section \<open>Time\<close>

definition ClockSkew :: duration where
  "ClockSkew = 30 * 1000000000"

text \<open>The clock skew in whole seconds, as \<^verbatim>\<open>ClockSkew/time.Second\<close> and \<^verbatim>\<open>skew.Seconds()\<close> read it.\<close>

definition skew_seconds :: "duration \<Rightarrow> int" where
  "skew_seconds d = d div 1000000000"

definition ReplayUntil :: "int \<Rightarrow> int" where
  "ReplayUntil ex = (if ex \<le> 0 then 0 else i64 (ex + skew_seconds ClockSkew))"

definition KeyRetirementWait :: "duration \<Rightarrow> duration" where
  "KeyRetirementWait ttl = (if ttl \<le> 0 then 120 * 1000000000 else ttl) + ClockSkew"

definition ValidateTime :: "claims \<Rightarrow> instant \<Rightarrow> duration \<Rightarrow> token_error option" where
  "ValidateTime c now skew =
    (let skew' = (if skew \<le> 0 then ClockSkew else skew) in
     if c_exp c = 0 \<or> unix now > i64 (c_exp c + skew_seconds skew') then Some Token_ErrExpired
     else if c_nbf c > 0 \<and> i64 (unix now + skew_seconds skew') < c_nbf c
       then Some Token_ErrNotYetValid
     else None)"

lemma skew_seconds_ClockSkew [simp]: "skew_seconds ClockSkew = 30"
  by (simp add: skew_seconds_def ClockSkew_def)

lemma ValidateTime_default:
  "ValidateTime c now 0 =
    (if c_exp c = 0 \<or> unix now > i64 (c_exp c + 30) then Some Token_ErrExpired
     else if c_nbf c > 0 \<and> i64 (unix now + 30) < c_nbf c then Some Token_ErrNotYetValid
     else None)"
  by (simp add: ValidateTime_def)

text \<open>The replay horizon is the last second at which the token is still accepted.\<close>

lemma ReplayUntil_pos: "0 < ex \<Longrightarrow> ReplayUntil ex = i64 (ex + 30)"
  by (simp add: ReplayUntil_def)

lemma ReplayUntil_covers:
  assumes "ValidateTime c now 0 = None" and "0 < c_exp c"
  shows "unix now \<le> ReplayUntil (c_exp c)"
  using assms by (simp add: ValidateTime_default ReplayUntil_pos split: if_splits)

lemma ReplayUntil_exact:
  assumes "0 < c_exp c"
  shows "ValidateTime c now 0 = Some Token_ErrExpired \<longleftrightarrow> ReplayUntil (c_exp c) < unix now"
  using assms by (auto simp: ValidateTime_default ReplayUntil_pos split: if_splits)

text \<open>An expiry so large that adding the skew overflows is expired, not eternal.\<close>

lemma ValidateTime_overflow:
  assumes "2 ^ 63 - 30 \<le> c_exp c" "c_exp c < 2 ^ 63" "0 \<le> now"
  shows "ValidateTime c now 0 = Some Token_ErrExpired"
proof -
  have "i64 (c_exp c + 30) = c_exp c + 30 - 2 ^ 64"
    by (rule i64_wraps_high) (use assms in simp_all)
  then have "i64 (c_exp c + 30) < 0" using assms by simp
  moreover have "0 \<le> unix now"
    using assms(3) by (simp add: unix_def pos_imp_zdiv_nonneg_iff)
  ultimately show ?thesis by (simp add: ValidateTime_default)
qed

lemma KeyRetirementWait_outlives:
  "0 < ttl \<Longrightarrow> KeyRetirementWait ttl = ttl + ClockSkew"
  by (simp add: KeyRetirementWait_def)

section \<open>Issuer, audience, subject\<close>

definition ValidateIssuer :: "claims \<Rightarrow> bytes \<Rightarrow> token_error option" where
  "ValidateIssuer c want =
    (if c_iss c = [] then Some Token_ErrMissingIssuer
     else if want \<noteq> [] \<and> c_iss c \<noteq> want then Some Token_ErrIssuerMismatch
     else None)"

definition ValidateAudience :: "claims \<Rightarrow> bytes \<Rightarrow> token_error option" where
  "ValidateAudience c want =
    (if want = [] then Some Token_ErrAudience
     else if \<not> aud_Contains (c_aud c) want then Some Token_ErrAudience
     else None)"

definition ValidateSubject :: "claims \<Rightarrow> token_error option" where
  "ValidateSubject c = (if is_blank (c_sub c) then Some Token_ErrMissingSubject else None)"

lemma ValidateIssuer_None:
  "ValidateIssuer c want = None \<longleftrightarrow> c_iss c \<noteq> [] \<and> (want = [] \<or> c_iss c = want)"
  by (simp add: ValidateIssuer_def)

lemma ValidateAudience_None:
  "ValidateAudience c want = None \<longleftrightarrow> want \<noteq> [] \<and> want \<in> set (c_aud c)"
  by (simp add: ValidateAudience_def)

lemma ValidateSubject_None: "ValidateSubject c = None \<longleftrightarrow> \<not> is_blank (c_sub c)"
  by (simp add: ValidateSubject_def)

lemmas validate_None = ValidateIssuer_None ValidateAudience_None ValidateSubject_None

section \<open>Actor chains\<close>

definition act_subs :: "actor list \<Rightarrow> bytes list" where
  "act_subs as = filter (\<lambda>s. s \<noteq> []) (map act_sub as)"

definition ActorSubs :: "claims \<Rightarrow> bytes list" where
  "ActorSubs c =
    act_subs (c_actchain c) @
    (case c_act c of
       None \<Rightarrow> []
     | Some a \<Rightarrow> (if act_sub a \<noteq> [] then [act_sub a] else []))"

definition Depth :: "claims \<Rightarrow> nat" where
  "Depth c = length (ActorSubs c)"

definition NestedAct :: "bytes \<Rightarrow> bytes \<Rightarrow> actor option \<Rightarrow> actor" where
  "NestedAct iss currentSub incoming = Actor iss currentSub incoming"

definition AppendChain :: "claims \<Rightarrow> actor list" where
  "AppendChain incoming =
    c_actchain incoming @
    (case c_act incoming of
       None \<Rightarrow> []
     | Some a \<Rightarrow> (if act_sub a \<noteq> [] then [Actor (act_iss a) (act_sub a) None] else []))"

text \<open>The subjects of the nested \<^verbatim>\<open>act\<close> object, current actor first.\<close>

fun nested_subs :: "actor option \<Rightarrow> bytes list" where
  "nested_subs None = []"
| "nested_subs (Some (Actor i s a)) = s # nested_subs a"

lemma act_subs_append [simp]: "act_subs (xs @ ys) = act_subs xs @ act_subs ys"
  by (simp add: act_subs_def)

lemma act_subs_Nil [simp]: "act_subs [] = []"
  by (simp add: act_subs_def)

lemma act_subs_Cons [simp]:
  "act_subs (a # as) = (if act_sub a \<noteq> [] then act_sub a # act_subs as else act_subs as)"
  by (simp add: act_subs_def)

text \<open>The flat chain of the next hop lists every hop of the incoming token.\<close>

lemma act_subs_AppendChain: "act_subs (AppendChain c) = ActorSubs c"
  by (auto simp: AppendChain_def ActorSubs_def split: option.splits)

lemma ActorSubs_next:
  assumes "c_actchain c' = AppendChain c" "c_act c' = Some (NestedAct iss agent inc)"
    and "agent \<noteq> []"
  shows "ActorSubs c' = ActorSubs c @ [agent]"
  using assms
  by (auto simp: ActorSubs_def[of c'] act_subs_AppendChain NestedAct_def)

lemma length_AppendChain:
  "length (AppendChain c) =
    length (c_actchain c) + (case c_act c of None \<Rightarrow> 0 | Some a \<Rightarrow> (if act_sub a \<noteq> [] then 1 else 0))"
  by (auto simp: AppendChain_def split: option.splits)

lemma Depth_le: "Depth c \<le> length (AppendChain c)"
  by (simp add: Depth_def act_subs_def flip: act_subs_AppendChain)

text \<open>Flattening drops the nesting, so chain entries stay flat.\<close>

lemma AppendChain_flat:
  "(\<forall>a \<in> set (c_actchain c). act_act a = None) \<Longrightarrow> \<forall>a \<in> set (AppendChain c). act_act a = None"
  by (auto simp: AppendChain_def split: option.splits)

lemma AppendChain_named:
  "(\<forall>a \<in> set (c_actchain c). act_sub a \<noteq> []) \<Longrightarrow> \<forall>a \<in> set (AppendChain c). act_sub a \<noteq> []"
  by (auto simp: AppendChain_def split: option.splits)

end
