(* ===== verification/Base64.thy ===== *)
theory Base64
  imports Go_Strings
begin

text \<open>
  \<^verbatim>\<open>base64.RawURLEncoding\<close> as \<^verbatim>\<open>token.B64Encode\<close> and \<^verbatim>\<open>token.B64Decode\<close> use it: the URL-safe alphabet, no
  padding, three bytes to four digits. Go's decoder skips carriage returns and newlines and does
  not check the unused low bits of the last digit, so several texts decode to the same bytes;
  the model keeps both leniencies. Encoding followed by decoding is the identity, and encoded text
  never contains a dot, which is what makes the compact JWS split unambiguous.
\<close>

definition b64_char :: "nat \<Rightarrow> char" where
  "b64_char n =
    (if n < 26 then char_of (65 + n)
     else if n < 52 then char_of (97 + (n - 26))
     else if n < 62 then char_of (48 + (n - 52))
     else if n = 62 then CHR ''-'' else CHR ''_'')"

definition b64_value :: "char \<Rightarrow> nat option" where
  "b64_value c =
    (let n = of_char c in
     if 65 \<le> n \<and> n \<le> 90 then Some (n - 65)
     else if 97 \<le> n \<and> n \<le> 122 then Some (n - 97 + 26)
     else if 48 \<le> n \<and> n \<le> 57 then Some (n - 48 + 52)
     else if c = CHR ''-'' then Some 62
     else if c = CHR ''_'' then Some 63
     else None)"

fun b64_digits :: "nat list \<Rightarrow> nat list" where
  "b64_digits [] = []"
| "b64_digits [a] = [a div 4, a mod 4 * 16]"
| "b64_digits [a, b] = [a div 4, a mod 4 * 16 + b div 16, b mod 16 * 4]"
| "b64_digits (a # b # c # r) =
    [a div 4, a mod 4 * 16 + b div 16, b mod 16 * 4 + c div 64, c mod 64] @ b64_digits r"

fun b64_bytes :: "nat list \<Rightarrow> nat list option" where
  "b64_bytes [] = Some []"
| "b64_bytes [w] = None"
| "b64_bytes [w, x] = Some [w * 4 + x div 16]"
| "b64_bytes [w, x, y] = Some [w * 4 + x div 16, x mod 16 * 16 + y div 4]"
| "b64_bytes (w # x # y # z # r) =
    (case b64_bytes r of
       None \<Rightarrow> None
     | Some bs \<Rightarrow> Some ([w * 4 + x div 16, x mod 16 * 16 + y div 4, y mod 4 * 64 + z] @ bs))"

primrec b64_values :: "bytes \<Rightarrow> nat list option" where
  "b64_values [] = Some []"
| "b64_values (c # s) =
    (case b64_value c of
       None \<Rightarrow> None
     | Some v \<Rightarrow> (case b64_values s of None \<Rightarrow> None | Some vs \<Rightarrow> Some (v # vs)))"

definition B64Encode :: "bytes \<Rightarrow> bytes" where
  "B64Encode b = map b64_char (b64_digits (map of_char b))"

definition B64Decode :: "bytes \<Rightarrow> bytes option" where
  "B64Decode s =
    (case b64_values (filter (\<lambda>c. c \<noteq> CHR 0x0A \<and> c \<noteq> CHR 0x0D) s) of
       None \<Rightarrow> None
     | Some vs \<Rightarrow> (case b64_bytes vs of None \<Rightarrow> None | Some ns \<Rightarrow> Some (map char_of ns)))"

section \<open>Digits\<close>

lemma b64_value_char: "n < 64 \<Longrightarrow> b64_value (b64_char n) = Some n"
  by (auto simp: b64_value_def b64_char_def Let_def)

lemma b64_char_plain:
  "n < 64 \<Longrightarrow> b64_char n \<noteq> CHR 0x0A \<and> b64_char n \<noteq> CHR 0x0D \<and> b64_char n \<noteq> CHR ''.''"
proof -
  assume "n < 64"
  then have "b64_value (b64_char n) = Some n" by (rule b64_value_char)
  moreover have "b64_value (CHR 0x0A) = None" "b64_value (CHR 0x0D) = None"
    "b64_value (CHR ''.'') = None"
    by (simp_all add: b64_value_def Let_def)
  ultimately show ?thesis by (metis option.distinct(1))
qed

lemma b64_digits_small: "(\<forall>a \<in> set as. a < 256) \<Longrightarrow> \<forall>d \<in> set (b64_digits as). d < 64"
  by (induction as rule: b64_digits.induct) auto

lemma digit_split: "(y :: nat) < k \<Longrightarrow> (x * k + y) div k = x \<and> (x * k + y) mod k = y"
  by (auto simp: div_mult2_eq)

lemma b64_quantum:
  assumes "(a :: nat) < 256" "b < 256" "c < 256"
  shows "a div 4 * 4 + (a mod 4 * 16 + b div 16) div 16 = a"
    and "(a mod 4 * 16 + b div 16) mod 16 * 16 + (b mod 16 * 4 + c div 64) div 4 = b"
    and "(b mod 16 * 4 + c div 64) mod 4 * 64 + c mod 64 = c"
proof -
  have b: "b div 16 < 16" and c: "c div 64 < 4" using assms by auto
  note ab = digit_split[OF b, of "a mod 4"] and bc = digit_split[OF c, of "b mod 16"]
  show "a div 4 * 4 + (a mod 4 * 16 + b div 16) div 16 = a" using ab by simp
  show "(a mod 4 * 16 + b div 16) mod 16 * 16 + (b mod 16 * 4 + c div 64) div 4 = b"
    using ab bc by simp
  show "(b mod 16 * 4 + c div 64) mod 4 * 64 + c mod 64 = c" using bc by simp
qed

lemma b64_bytes_digits: "(\<forall>a \<in> set as. a < 256) \<Longrightarrow> b64_bytes (b64_digits as) = Some as"
proof (induction as rule: b64_digits.induct)
  case 1
  then show ?case by simp
next
  case (2 a)
  then show ?case by simp
next
  case (3 a b)
  then show ?case using b64_quantum[of a b 0] by simp
next
  case (4 a b c r)
  then have "a < 256" "b < 256" "c < 256" and r: "b64_bytes (b64_digits r) = Some r"
    by simp_all
  note q = b64_quantum[OF this(1-3)]
  show ?case
    by (simp only: b64_digits.simps b64_bytes.simps append.simps r option.case q)
qed

lemma b64_values_chars: "(\<forall>d \<in> set ds. d < 64) \<Longrightarrow> b64_values (map b64_char ds) = Some ds"
  by (induction ds) (simp_all add: b64_value_char)

section \<open>Round trip\<close>

lemma codes_small: "\<forall>a \<in> set (map (of_char :: char \<Rightarrow> nat) b). a < 256"
  by auto

lemma B64Encode_plain:
  "c \<in> set (B64Encode b) \<Longrightarrow> c \<noteq> CHR 0x0A \<and> c \<noteq> CHR 0x0D \<and> c \<noteq> CHR ''.''"
proof -
  assume "c \<in> set (B64Encode b)"
  then obtain d where d: "d \<in> set (b64_digits (map of_char b))" "c = b64_char d"
    unfolding B64Encode_def set_map by blast
  from b64_digits_small[OF codes_small] d(1) have "d < 64" by (rule bspec)
  then show ?thesis unfolding d(2) by (rule b64_char_plain)
qed

lemma B64Decode_Encode [simp]: "B64Decode (B64Encode b) = Some b"
proof -
  have "filter (\<lambda>c. c \<noteq> CHR 0x0A \<and> c \<noteq> CHR 0x0D) (B64Encode b) = B64Encode b"
    by (rule filter_True) (simp add: B64Encode_plain)
  moreover have "b64_values (B64Encode b) = Some (b64_digits (map of_char b))"
    unfolding B64Encode_def by (rule b64_values_chars) (rule b64_digits_small[OF codes_small])
  moreover have "b64_bytes (b64_digits (map of_char b)) = Some (map of_char b)"
    by (rule b64_bytes_digits[OF codes_small])
  ultimately show ?thesis by (simp add: B64Decode_def comp_def)
qed

lemma b64_not_space: "list_all (\<lambda>c. b64_value c = None) (concat space_encodings)" "CHR ''.'' \<notin> set (concat space_encodings)"
  by code_simp+

lemma B64Encode_no_space: "set (B64Encode b) \<inter> set (concat space_encodings) = {}"
proof -
  have "b64_value c \<noteq> None" if "c \<in> set (B64Encode b)" for c
  proof -
    from that obtain d where d: "d \<in> set (b64_digits (map of_char b))" "c = b64_char d"
      unfolding B64Encode_def set_map by blast
    from b64_digits_small[OF codes_small] d(1) have "d < 64" by (rule bspec)
    then show ?thesis by (simp add: d(2) b64_value_char)
  qed
  moreover have "b64_value c = None" if "c \<in> set (concat space_encodings)" for c
    using that b64_not_space(1) unfolding list_all_iff by blast
  ultimately show ?thesis by blast
qed

lemma B64Encode_inj: "B64Encode a = B64Encode b \<Longrightarrow> a = b"
  by (metis B64Decode_Encode option.inject)

lemma B64Encode_no_dot [simp]: "CHR ''.'' \<notin> set (B64Encode b)"
  using B64Encode_plain[of "CHR ''.''" b] by argo

lemma B64Encode_Nil_iff [simp]: "B64Encode b = [] \<longleftrightarrow> b = []"
  by (cases "map (of_char :: char \<Rightarrow> nat) b" rule: b64_digits.cases) (auto simp: B64Encode_def)

lemma B64Encode_Nil [simp]: "B64Encode [] = []"
  by (simp add: B64Encode_def)

end
