(* ===== verification/Jws.thy ===== *)
theory Jws
  imports Claims Base64
begin

text \<open>
  \<^verbatim>\<open>internal/token/jws.go\<close>: compact JWS signing and verification, key selection, JWK thumbprints and
  the merging of key sets.

  The cryptographic primitives and the JSON text codec of the standard library are parameters: the
  records \<open>crypto\<close> and \<open>token_env\<close> name each function the code calls. What the code relies on is
  stated where it is used (\<open>ed25519_laws\<close>, \<open>codec_ok\<close>); everything else, the split of the
  compact form, the order of the checks, base64, key selection and the algorithm match, is the
  code's own and is modelled in full.

  The lemmas show that a verified token was signed by a key of the set under the algorithm of that
  key's type, that \<^verbatim>\<open>alg=none\<close> in any spelling is refused, and that a freshly signed token verifies.
\<close>

section \<open>Data\<close>

record header =
  h_alg :: bytes
  h_typ :: bytes
  h_kid :: bytes

record jwk =
  k_kid :: bytes
  k_kty :: bytes
  k_use :: bytes
  k_alg :: bytes
  k_crv :: bytes
  k_x :: bytes
  k_y :: bytes
  k_n :: bytes
  k_e :: bytes
  k_sub :: bytes

type_synonym jwks = "jwk list"

definition empty_jwk :: jwk where
  "empty_jwk = \<lparr>k_kid = [], k_kty = [], k_use = [], k_alg = [], k_crv = [],
                 k_x = [], k_y = [], k_n = [], k_e = [], k_sub = []\<rparr>"

definition PublicEqual :: "jwk \<Rightarrow> jwk \<Rightarrow> bool" where
  "PublicEqual j r \<longleftrightarrow>
    k_kid j = k_kid r \<and> k_kty j = k_kty r \<and> k_use j = k_use r \<and> k_alg j = k_alg r \<and>
    k_crv j = k_crv r \<and> k_x j = k_x r \<and> k_y j = k_y r \<and> k_n j = k_n r \<and> k_e j = k_e r \<and>
    k_sub j = k_sub r"

lemma PublicEqual_iff [simp]: "PublicEqual j r \<longleftrightarrow> j = r"
  by (cases j; cases r) (auto simp: PublicEqual_def)

text \<open>The primitives of \<^verbatim>\<open>crypto/*\<close> and \<^verbatim>\<open>math/big\<close>'s curve check that the code calls.\<close>

record crypto =
  ed25519_Public :: "bytes \<Rightarrow> bytes"
  ed25519_Sign :: "bytes \<Rightarrow> bytes \<Rightarrow> bytes"
  ed25519_Verify :: "bytes \<Rightarrow> bytes \<Rightarrow> bytes \<Rightarrow> bool"
  p256_IsOnCurve :: "nat \<Rightarrow> nat \<Rightarrow> bool"
  ecdsa_Verify :: "nat \<Rightarrow> nat \<Rightarrow> bytes \<Rightarrow> nat \<Rightarrow> nat \<Rightarrow> bool"
  rsa_VerifyPKCS1v15 :: "nat \<Rightarrow> int \<Rightarrow> bytes \<Rightarrow> bytes \<Rightarrow> bool"
  sha256_Sum :: "bytes \<Rightarrow> bytes"

text \<open>The JSON texts the token package writes and reads.\<close>

record token_env = crypto +
  Marshal_header :: "header \<Rightarrow> bytes"
  Unmarshal_header :: "bytes \<Rightarrow> header option"
  Marshal_claims :: "claims \<Rightarrow> bytes"
  Unmarshal_claims :: "bytes \<Rightarrow> claims option"
  Encode_members :: "(bytes \<times> bytes) list \<Rightarrow> bytes"

section \<open>Signing\<close>

text \<open>A signer: the seed of its Ed25519 key, the key id and the bound subject.\<close>

record signer =
  sg_seed :: bytes
  sg_kid :: bytes
  sg_sub :: bytes

definition NewSigner :: "bytes \<Rightarrow> bytes \<Rightarrow> signer" where
  "NewSigner seed kid = \<lparr>sg_seed = seed, sg_kid = kid, sg_sub = []\<rparr>"

definition signer_PublicJWK :: "('a crypto_scheme) \<Rightarrow> signer \<Rightarrow> jwk" where
  "signer_PublicJWK E s =
    \<lparr>k_kid = sg_kid s, k_kty = ''OKP'', k_use = ''sig'', k_alg = ''EdDSA'', k_crv = ''Ed25519'',
     k_x = B64Encode (ed25519_Public E (sg_seed s)), k_y = [], k_n = [], k_e = [],
     k_sub = sg_sub s\<rparr>"

definition signer_JWKS :: "('a crypto_scheme) \<Rightarrow> signer \<Rightarrow> jwks" where
  "signer_JWKS E s = [signer_PublicJWK E s]"

definition signer_Sign :: "('a crypto_scheme) \<Rightarrow> signer \<Rightarrow> bytes \<Rightarrow> bytes \<Rightarrow> bytes" where
  "signer_Sign E s hdr payload =
    (let input = B64Encode hdr @ ''.'' @ B64Encode payload;
         sig = ed25519_Sign E (sg_seed s) input
     in input @ ''.'' @ B64Encode sig)"

definition signer_SignClaims :: "('a token_env_scheme) \<Rightarrow> signer \<Rightarrow> claims \<Rightarrow> bytes" where
  "signer_SignClaims E s c =
    signer_Sign E s
      (Marshal_header E \<lparr>h_alg = ''EdDSA'', h_typ = ''JWT'', h_kid = sg_kid s\<rparr>)
      (Marshal_claims E c)"

section \<open>Parsing without verification\<close>

definition ParseUnverified ::
  "('a token_env_scheme) \<Rightarrow> bytes \<Rightarrow> token_error + (header \<times> claims \<times> bytes)" where
  "ParseUnverified E raw =
    (case split_on CHR ''.'' raw of
       [p0, p1, p2] \<Rightarrow>
         if p0 = [] \<or> p1 = [] then Inl Token_ErrInvalidToken
         else (case B64Decode p0 of
           None \<Rightarrow> Inl Token_ErrInvalidToken
         | Some hb \<Rightarrow> (case B64Decode p1 of
             None \<Rightarrow> Inl Token_ErrInvalidToken
           | Some pb \<Rightarrow> (case Unmarshal_header E hb of
               None \<Rightarrow> Inl Token_ErrInvalidToken
             | Some h \<Rightarrow> (case Unmarshal_claims E pb of
                 None \<Rightarrow> Inl Token_ErrInvalidToken
               | Some c \<Rightarrow> Inr (h, c, p0 @ ''.'' @ p1)))))
     | _ \<Rightarrow> Inl Token_ErrInvalidToken)"

section \<open>Key selection and public keys\<close>

definition key_matches :: "bytes \<Rightarrow> bytes \<Rightarrow> jwk \<Rightarrow> bool" where
  "key_matches kid alg k \<longleftrightarrow>
    \<not> (kid \<noteq> [] \<and> k_kid k \<noteq> kid) \<and> \<not> (k_alg k \<noteq> [] \<and> k_alg k \<noteq> alg)"

definition selectKey :: "jwks \<Rightarrow> bytes \<Rightarrow> bytes \<Rightarrow> token_error + jwk" where
  "selectKey keys kid alg =
    (let matched = filter (key_matches kid alg) keys in
     if kid = [] \<and> length matched \<noteq> 1 then
       (case keys of [k] \<Rightarrow> Inr k | _ \<Rightarrow> Inl Token_ErrUnknownKey)
     else (case matched of [] \<Rightarrow> Inl Token_ErrUnknownKey | k # _ \<Rightarrow> Inr k))"

definition matchAlg :: "bytes \<Rightarrow> jwk \<Rightarrow> token_error option" where
  "matchAlg alg j =
    (if alg = ''EdDSA'' then
       (if k_kty j \<noteq> ''OKP'' \<or> k_crv j \<noteq> ''Ed25519'' then Some Token_ErrAlgConfusion
        else if k_alg j \<noteq> [] \<and> k_alg j \<noteq> ''EdDSA'' then Some Token_ErrAlgConfusion
        else None)
     else if alg = ''ES256'' then
       (if k_kty j \<noteq> ''EC'' \<or> (k_crv j \<noteq> [] \<and> k_crv j \<noteq> ''P-256'') then Some Token_ErrAlgConfusion
        else if k_alg j \<noteq> [] \<and> k_alg j \<noteq> ''ES256'' then Some Token_ErrAlgConfusion
        else None)
     else if alg = ''RS256'' then
       (if k_kty j \<noteq> ''RSA'' then Some Token_ErrAlgConfusion
        else if k_alg j \<noteq> [] \<and> k_alg j \<noteq> ''RS256'' then Some Token_ErrAlgConfusion
        else None)
     else Some Token_ErrUnsupportedAlg)"

text \<open>\<^verbatim>\<open>big.Int.SetBytes\<close>: big-endian unsigned.\<close>

definition SetBytes :: "bytes \<Rightarrow> nat" where
  "SetBytes b = foldl (\<lambda>n c. n * 256 + of_char c) 0 b"

definition jwk_ed25519 :: "jwk \<Rightarrow> token_error + bytes" where
  "jwk_ed25519 j =
    (case B64Decode (k_x j) of
       None \<Rightarrow> Inl Token_ErrInvalidKey
     | Some raw \<Rightarrow> if length raw \<noteq> 32 then Inl Token_ErrInvalidKey else Inr raw)"

definition jwk_ecdsaP256 :: "('a crypto_scheme) \<Rightarrow> jwk \<Rightarrow> token_error + (nat \<times> nat)" where
  "jwk_ecdsaP256 E j =
    (if k_crv j \<noteq> [] \<and> k_crv j \<noteq> ''P-256'' then Inl Token_ErrUnsupportedCurve
     else (case B64Decode (k_x j) of
       None \<Rightarrow> Inl Token_ErrInvalidKey
     | Some xb \<Rightarrow> (case B64Decode (k_y j) of
         None \<Rightarrow> Inl Token_ErrInvalidKey
       | Some yb \<Rightarrow>
           (let x = SetBytes xb; y = SetBytes yb in
            if \<not> p256_IsOnCurve E x y then Inl Token_ErrInvalidKey else Inr (x, y)))))"

definition jwk_rsaPub :: "jwk \<Rightarrow> token_error + (nat \<times> int)" where
  "jwk_rsaPub j =
    (case B64Decode (k_n j) of
       None \<Rightarrow> Inl Token_ErrInvalidKey
     | Some nb \<Rightarrow> (case B64Decode (k_e j) of
         None \<Rightarrow> Inl Token_ErrInvalidKey
       | Some eb \<Rightarrow>
           (let e = i64 (int (SetBytes eb)) in
            if e < 3 then Inl Token_ErrInvalidKey else Inr (SetBytes nb, e))))"

definition verifySig ::
  "('a crypto_scheme) \<Rightarrow> bytes \<Rightarrow> jwk \<Rightarrow> bytes \<Rightarrow> bytes \<Rightarrow> token_error option" where
  "verifySig E alg j signing sig =
    (if alg = ''EdDSA'' then
       (case jwk_ed25519 j of
          Inl e \<Rightarrow> Some e
        | Inr pub \<Rightarrow> if ed25519_Verify E pub signing sig then None else Some Token_ErrBadSignature)
     else if alg = ''ES256'' then
       (case jwk_ecdsaP256 E j of
          Inl e \<Rightarrow> Some e
        | Inr (x, y) \<Rightarrow>
            if length sig \<noteq> 64 then Some Token_ErrBadSignature
            else if ecdsa_Verify E x y (sha256_Sum E signing)
                      (SetBytes (take 32 sig)) (SetBytes (drop 32 sig)) then None
            else Some Token_ErrBadSignature)
     else if alg = ''RS256'' then
       (case jwk_rsaPub j of
          Inl e \<Rightarrow> Some e
        | Inr (n, e) \<Rightarrow>
            if rsa_VerifyPKCS1v15 E n e (sha256_Sum E signing) sig then None
            else Some Token_ErrBadSignature)
     else Some Token_ErrUnsupportedAlg)"

section \<open>Verification\<close>

definition VerifyKey ::
  "('a token_env_scheme) \<Rightarrow> bytes \<Rightarrow> jwks \<Rightarrow> token_error + (header \<times> claims \<times> jwk)" where
  "VerifyKey E raw keys =
    (case split_on CHR ''.'' raw of
       [p0, p1, p2] \<Rightarrow>
         if p0 = [] \<or> p1 = [] then Inl Token_ErrInvalidToken
         else (case B64Decode p0 of
           None \<Rightarrow> Inl Token_ErrInvalidToken
         | Some hb \<Rightarrow> (case Unmarshal_header E hb of
             None \<Rightarrow> Inl Token_ErrInvalidToken
           | Some h \<Rightarrow>
               if h_alg h = [] \<or> EqualFold (h_alg h) ''none'' then Inl Token_ErrAlgNone
               else if p2 = [] then Inl Token_ErrInvalidToken
               else (case selectKey keys (h_kid h) (h_alg h) of
                 Inl e \<Rightarrow> Inl e
               | Inr j \<Rightarrow> (case matchAlg (h_alg h) j of
                   Some e \<Rightarrow> Inl e
                 | None \<Rightarrow> (case B64Decode p2 of
                     None \<Rightarrow> Inl Token_ErrBadSignature
                   | Some sig \<Rightarrow> (case verifySig E (h_alg h) j (p0 @ ''.'' @ p1) sig of
                       Some e \<Rightarrow> Inl e
                     | None \<Rightarrow> (case B64Decode p1 of
                         None \<Rightarrow> Inl Token_ErrInvalidToken
                       | Some pb \<Rightarrow> (case Unmarshal_claims E pb of
                           None \<Rightarrow> Inl Token_ErrInvalidToken
                         | Some c \<Rightarrow> Inr (h, c, j)))))))))
     | _ \<Rightarrow> Inl Token_ErrInvalidToken)"

definition jws_Verify ::
  "('a token_env_scheme) \<Rightarrow> bytes \<Rightarrow> jwks \<Rightarrow> token_error + (header \<times> claims)" where
  "jws_Verify E raw keys =
    (case VerifyKey E raw keys of Inl e \<Rightarrow> Inl e | Inr (h, c, j) \<Rightarrow> Inr (h, c))"

section \<open>Thumbprints and key sets\<close>

definition thumbprintMembers :: "jwk \<Rightarrow> token_error + (bytes \<times> bytes) list" where
  "thumbprintMembers j =
    (if k_kty j = ''OKP'' then
       (if k_crv j = [] \<or> k_x j = [] then Inl Token_ErrThumbprint
        else Inr [(''crv'', k_crv j), (''kty'', ''OKP''), (''x'', k_x j)])
     else if k_kty j = ''EC'' then
       (if k_crv j = [] \<or> k_x j = [] \<or> k_y j = [] then Inl Token_ErrThumbprint
        else Inr [(''crv'', k_crv j), (''kty'', ''EC''), (''x'', k_x j), (''y'', k_y j)])
     else if k_kty j = ''RSA'' then
       (if k_n j = [] \<or> k_e j = [] then Inl Token_ErrThumbprint
        else Inr [(''e'', k_e j), (''kty'', ''RSA''), (''n'', k_n j)])
     else Inl Token_ErrThumbprint)"

definition Thumbprint :: "('a token_env_scheme) \<Rightarrow> jwk \<Rightarrow> token_error + bytes" where
  "Thumbprint E j =
    (case thumbprintMembers j of
       Inl e \<Rightarrow> Inl e
     | Inr ms \<Rightarrow> Inr (B64Encode (sha256_Sum E (TrimSpace (Encode_members E ms)))))"

definition PublicMembers :: "jwk \<Rightarrow> jwk" where
  "PublicMembers j =
    (if k_kty j = ''OKP'' then empty_jwk\<lparr>k_kty := ''OKP'', k_crv := k_crv j, k_x := k_x j\<rparr>
     else if k_kty j = ''EC'' then
       empty_jwk\<lparr>k_kty := ''EC'', k_crv := k_crv j, k_x := k_x j, k_y := k_y j\<rparr>
     else if k_kty j = ''RSA'' then empty_jwk\<lparr>k_kty := ''RSA'', k_n := k_n j, k_e := k_e j\<rparr>
     else empty_jwk\<lparr>k_kty := k_kty j\<rparr>)"

definition merge_key ::
  "jwk \<Rightarrow> (bytes \<rightharpoonup> nat) \<times> jwk list \<Rightarrow> (bytes \<rightharpoonup> nat) \<times> jwk list" where
  "merge_key k st =
    (case st of (idx, out) \<Rightarrow>
       if k_kid k \<noteq> [] then
         (case idx (k_kid k) of
            Some i \<Rightarrow> (idx, out[i := k])
          | None \<Rightarrow> (idx(k_kid k \<mapsto> length out), out @ [k]))
       else (idx, out @ [k]))"

definition MergeJWKS :: "jwks list \<Rightarrow> jwks" where
  "MergeJWKS sets = snd (fold merge_key (concat sets) (Map.empty, []))"

section \<open>What a verified token guarantees\<close>

lemma selectKey_InrD:
  assumes "selectKey keys kid alg = Inr j"
  shows "j \<in> set keys \<and> (kid \<noteq> [] \<longrightarrow> k_kid j = kid)"
proof -
  have in_matched: "hd (filter (key_matches kid alg) keys) \<in> {k \<in> set keys. key_matches kid alg k}"
    if "filter (key_matches kid alg) keys \<noteq> []"
    using that by (metis list.set_sel(1) mem_Collect_eq set_filter)
  show ?thesis
  proof (cases "kid = [] \<and> length (filter (key_matches kid alg) keys) \<noteq> 1")
    case True
    with assms show ?thesis by (auto simp: selectKey_def split: list.splits)
  next
    case False
    with assms have "filter (key_matches kid alg) keys \<noteq> []"
      and "j = hd (filter (key_matches kid alg) keys)"
      by (auto simp: selectKey_def Let_def split: list.splits if_splits)
    with in_matched show ?thesis by (auto simp: key_matches_def)
  qed
qed

lemma selectKey_by_kid:
  assumes "kid \<noteq> []" "distinct (map k_kid keys)" "j \<in> set keys" "k_kid j = kid"
    and "k_alg j = [] \<or> k_alg j = alg"
  shows "selectKey keys kid alg = Inr j"
proof -
  have sel: "key_matches kid alg k \<longleftrightarrow> k = j" if "k \<in> set keys" for k
    using that assms by (auto simp: key_matches_def distinct_map dest: inj_onD)
  have "filter (key_matches kid alg) keys = filter (\<lambda>k. k = j) keys"
    by (rule filter_cong) (simp_all add: sel)
  moreover have "filter (\<lambda>k. k = j) keys = [j]"
    using assms(2,3) by (intro filter_eq_singleton) (auto simp: distinct_map)
  ultimately show ?thesis using assms(1) by (simp add: selectKey_def Let_def)
qed

lemma matchAlg_None_iff:
  "matchAlg alg j = None \<longleftrightarrow>
    (alg = ''EdDSA'' \<and> k_kty j = ''OKP'' \<and> k_crv j = ''Ed25519'' \<and> k_alg j \<in> {[], ''EdDSA''}) \<or>
    (alg = ''ES256'' \<and> k_kty j = ''EC'' \<and> k_crv j \<in> {[], ''P-256''} \<and> k_alg j \<in> {[], ''ES256''}) \<or>
    (alg = ''RS256'' \<and> k_kty j = ''RSA'' \<and> k_alg j \<in> {[], ''RS256''})"
  by (auto simp: matchAlg_def)

text \<open>The parts of a compact JWS that verified, and every check it passed.\<close>

definition signed_as ::
  "('a token_env_scheme) \<Rightarrow> bytes \<Rightarrow> jwks \<Rightarrow> header \<Rightarrow> claims \<Rightarrow> jwk \<Rightarrow> bool" where
  "signed_as E raw keys h c j \<longleftrightarrow>
    (\<exists>p0 p1 p2 hb pb sig.
       split_on CHR ''.'' raw = [p0, p1, p2] \<and> p0 \<noteq> [] \<and> p1 \<noteq> [] \<and> p2 \<noteq> [] \<and>
       B64Decode p0 = Some hb \<and> Unmarshal_header E hb = Some h \<and>
       h_alg h \<noteq> [] \<and> \<not> EqualFold (h_alg h) ''none'' \<and>
       selectKey keys (h_kid h) (h_alg h) = Inr j \<and> matchAlg (h_alg h) j = None \<and>
       B64Decode p2 = Some sig \<and> verifySig E (h_alg h) j (p0 @ ''.'' @ p1) sig = None \<and>
       B64Decode p1 = Some pb \<and> Unmarshal_claims E pb = Some c)"

lemma VerifyKey_Inr_iff: "VerifyKey E raw keys = Inr (h, c, j) \<longleftrightarrow> signed_as E raw keys h c j"
proof (cases "\<exists>p0 p1 p2. split_on CHR ''.'' raw = [p0, p1, p2]")
  case True
  then obtain p0 p1 p2 where "split_on CHR ''.'' raw = [p0, p1, p2]" by blast
  then show ?thesis
    by (auto simp: VerifyKey_def signed_as_def split: option.splits sum.splits if_splits)
next
  case False
  then have "VerifyKey E raw keys = Inl Token_ErrInvalidToken"
    by (auto simp: VerifyKey_def split: list.splits)
  with False show ?thesis by (auto simp: signed_as_def)
qed

lemma jws_Verify_Inr_iff:
  "jws_Verify E raw keys = Inr (h, c) \<longleftrightarrow> (\<exists>j. signed_as E raw keys h c j)"
  unfolding jws_Verify_def VerifyKey_Inr_iff[symmetric] by (auto split: sum.splits)

lemma jws_VerifyI: "VerifyKey E raw keys = Inr (h, c, j) \<Longrightarrow> jws_Verify E raw keys = Inr (h, c)"
  by (simp add: jws_Verify_def)

lemma signed_as_key:
  "signed_as E raw keys h c j \<Longrightarrow> j \<in> set keys \<and> (h_kid h \<noteq> [] \<longrightarrow> k_kid j = h_kid h)"
  by (auto simp: signed_as_def dest: selectKey_InrD)

lemma signed_as_alg: "signed_as E raw keys h c j \<Longrightarrow> matchAlg (h_alg h) j = None"
  by (auto simp: signed_as_def)

lemma signed_as_functional:
  "signed_as E raw keys h c j \<Longrightarrow> signed_as E raw keys h' c' j' \<Longrightarrow> h' = h \<and> c' = c \<and> j' = j"
  by (metis VerifyKey_Inr_iff Inr_inject prod.inject)

lemma VerifyKey_no_keys [simp]: "VerifyKey E raw [] \<noteq> Inr r"
  by (cases r) (auto simp: VerifyKey_Inr_iff dest!: signed_as_key)

text \<open>The header and claims that unverified parsing reports are those verification decides on.\<close>

lemma signed_as_ParseUnverified:
  "signed_as E raw keys h c j \<Longrightarrow> \<exists>b. ParseUnverified E raw = Inr (h, c, b)"
  by (auto simp: signed_as_def ParseUnverified_def)

section \<open>Signing then verifying\<close>

text \<open>The documented behaviour of \<^verbatim>\<open>crypto/ed25519\<close> for one key.\<close>

definition ed25519_laws :: "('a crypto_scheme) \<Rightarrow> bytes \<Rightarrow> bool" where
  "ed25519_laws E seed \<longleftrightarrow>
    length (ed25519_Public E seed) = 32 \<and>
    (\<forall>m. ed25519_Sign E seed m \<noteq> [] \<and>
         ed25519_Verify E (ed25519_Public E seed) m (ed25519_Sign E seed m))"

text \<open>The JSON codec reads back what it wrote, for this header and these claims.\<close>

definition codec_ok :: "('a token_env_scheme) \<Rightarrow> header \<Rightarrow> claims \<Rightarrow> bool" where
  "codec_ok E h c \<longleftrightarrow>
    Marshal_header E h \<noteq> [] \<and> Unmarshal_header E (Marshal_header E h) = Some h \<and>
    Marshal_claims E c \<noteq> [] \<and> Unmarshal_claims E (Marshal_claims E c) = Some c"

lemma split_compact:
  "split_on CHR ''.'' (B64Encode a @ ''.'' @ B64Encode b @ ''.'' @ B64Encode c)
    = [B64Encode a, B64Encode b, B64Encode c]"
  by (simp add: split_on_append split_on_no_sep)

lemma split_on_ConsD:
  "split_on c s = h # t \<Longrightarrow>
    c \<notin> set h \<and> (if t = [] then s = h else \<exists>s'. s = h @ c # s' \<and> split_on c s' = t)"
proof (induction s arbitrary: h)
  case (Cons x s)
  show ?case
  proof (cases "x = c")
    case True
    with Cons.prems show ?thesis by auto
  next
    case False
    then obtain h' where h: "split_on c s = h' # t" "h = x # h'"
      using Cons.prems by (auto split: list.splits)
    from Cons.IH[OF h(1)] False h(2) show ?thesis by (auto split: if_splits)
  qed
qed simp

lemma split_on_three:
  "split_on c s = [a, b, d] \<longleftrightarrow> s = a @ [c] @ b @ [c] @ d \<and> c \<notin> set a \<union> set b \<union> set d"
proof
  assume l: "split_on c s = [a, b, d]"
  from split_on_ConsD[OF l] have "c \<notin> set a \<and> (\<exists>s'. s = a @ c # s' \<and> split_on c s' = [b, d])"
    by simp
  then obtain s1 where 1: "s = a @ c # s1" "split_on c s1 = [b, d]" "c \<notin> set a" by blast
  from split_on_ConsD[OF 1(2)] have "c \<notin> set b \<and> (\<exists>s'. s1 = b @ c # s' \<and> split_on c s' = [d])"
    by simp
  then obtain s2 where 2: "s1 = b @ c # s2" "split_on c s2 = [d]" "c \<notin> set b" by blast
  from split_on_ConsD[OF 2(2)] have "s2 = d \<and> c \<notin> set d" by simp
  with 1 2 show "s = a @ [c] @ b @ [c] @ d \<and> c \<notin> set a \<union> set b \<union> set d" by simp
next
  assume "s = a @ [c] @ b @ [c] @ d \<and> c \<notin> set a \<union> set b \<union> set d"
  then show "split_on c s = [a, b, d]" by (simp add: split_on_append split_on_no_sep)
qed

lemma sign_verify:
  assumes laws: "ed25519_laws E (sg_seed s)"
    and codec: "codec_ok E \<lparr>h_alg = ''EdDSA'', h_typ = ''JWT'', h_kid = sg_kid s\<rparr> c"
    and sel: "selectKey keys (sg_kid s) ''EdDSA'' = Inr (signer_PublicJWK E s)"
  shows "signed_as E (signer_SignClaims E s c) keys
           \<lparr>h_alg = ''EdDSA'', h_typ = ''JWT'', h_kid = sg_kid s\<rparr> c (signer_PublicJWK E s)"
proof -
  let ?h = "\<lparr>h_alg = ''EdDSA'', h_typ = ''JWT'', h_kid = sg_kid s\<rparr>"
  let ?p0 = "B64Encode (Marshal_header E ?h)" and ?p1 = "B64Encode (Marshal_claims E c)"
  let ?sig = "ed25519_Sign E (sg_seed s) (?p0 @ ''.'' @ ?p1)"
  have raw: "signer_SignClaims E s c = ?p0 @ ''.'' @ ?p1 @ ''.'' @ B64Encode ?sig"
    by (simp add: signer_SignClaims_def signer_Sign_def Let_def)
  have fold: "\<not> EqualFold ''EdDSA'' ''none''"
    by (simp add: EqualFold_def ascii_lower_def)
  have vs: "verifySig E ''EdDSA'' (signer_PublicJWK E s) (?p0 @ ''.'' @ ?p1) ?sig = None"
    using laws by (simp add: verifySig_def jwk_ed25519_def signer_PublicJWK_def ed25519_laws_def)
  have ma: "matchAlg ''EdDSA'' (signer_PublicJWK E s) = None"
    by (simp add: matchAlg_def signer_PublicJWK_def)
  show ?thesis
    unfolding signed_as_def raw split_compact
    using codec laws sel fold vs ma by (simp add: codec_ok_def ed25519_laws_def)
qed

lemma sign_VerifyKey:
  assumes "ed25519_laws E (sg_seed s)"
    and "codec_ok E \<lparr>h_alg = ''EdDSA'', h_typ = ''JWT'', h_kid = sg_kid s\<rparr> c"
    and "sg_kid s \<noteq> []" "distinct (map k_kid keys)" "signer_PublicJWK E s \<in> set keys"
  shows "VerifyKey E (signer_SignClaims E s c) keys
    = Inr (\<lparr>h_alg = ''EdDSA'', h_typ = ''JWT'', h_kid = sg_kid s\<rparr>, c, signer_PublicJWK E s)"
proof -
  have "selectKey keys (sg_kid s) ''EdDSA'' = Inr (signer_PublicJWK E s)"
    by (rule selectKey_by_kid) (use assms(3-5) in \<open>simp_all add: signer_PublicJWK_def\<close>)
  then show ?thesis unfolding VerifyKey_Inr_iff by (rule sign_verify[OF assms(1,2)])
qed

lemma signed_header:
  assumes "ed25519_laws E (sg_seed s)"
    and "codec_ok E \<lparr>h_alg = ''EdDSA'', h_typ = ''JWT'', h_kid = sg_kid s\<rparr> c" "sg_kid s \<noteq> []"
    and "VerifyKey E (signer_SignClaims E s c) keys = Inr (h, c', j)"
  shows "h = \<lparr>h_alg = ''EdDSA'', h_typ = ''JWT'', h_kid = sg_kid s\<rparr> \<and> c' = c \<and> j \<in> set keys \<and>
    k_kid j = sg_kid s"
proof -
  have "VerifyKey E (signer_SignClaims E s c) [signer_PublicJWK E s]
    = Inr (\<lparr>h_alg = ''EdDSA'', h_typ = ''JWT'', h_kid = sg_kid s\<rparr>, c, signer_PublicJWK E s)"
    by (rule sign_VerifyKey) (use assms(1-3) in simp_all)
  then have "h = \<lparr>h_alg = ''EdDSA'', h_typ = ''JWT'', h_kid = sg_kid s\<rparr> \<and> c' = c"
    using assms(4) unfolding VerifyKey_Inr_iff
    by (auto dest!: signed_as_ParseUnverified)
  with assms(3,4) show ?thesis by (auto simp: VerifyKey_Inr_iff dest!: signed_as_key)
qed

section \<open>Thumbprints and merged sets\<close>

lemma Thumbprint_PublicMembers: "Thumbprint E (PublicMembers j) = Thumbprint E j"
  by (simp add: Thumbprint_def thumbprintMembers_def PublicMembers_def empty_jwk_def)

lemma Thumbprint_nonempty:
  "Thumbprint E j = Inr t \<Longrightarrow> (\<And>m. sha256_Sum E m \<noteq> []) \<Longrightarrow> t \<noteq> []"
  by (auto simp: Thumbprint_def split: sum.splits)

text \<open>
  The merge keeps an index from key id to position. The invariant: the index points at the entry
  with that id, and covers every non-empty id of the output.
\<close>

definition merge_inv :: "(bytes \<rightharpoonup> nat) \<times> jwk list \<Rightarrow> bool" where
  "merge_inv st =
    (case st of (idx, out) \<Rightarrow>
       (\<forall>kid i. idx kid = Some i \<longleftrightarrow> kid \<noteq> [] \<and> i < length out \<and> k_kid (out ! i) = kid))"

lemma merge_key_inv:
  assumes "merge_inv st"
  shows "merge_inv (merge_key k st)"
proof (cases st)
  case (Pair idx out)
  with assms have inv: "idx kid = Some i \<longleftrightarrow> kid \<noteq> [] \<and> i < length out \<and> k_kid (out ! i) = kid"
    for kid i by (simp add: merge_inv_def)
  consider (anon) "k_kid k = []" | (old) i where "k_kid k \<noteq> []" "idx (k_kid k) = Some i"
    | (new) "k_kid k \<noteq> []" "idx (k_kid k) = None" by fastforce
  then show ?thesis
  proof cases
    case anon
    with inv Pair show ?thesis
      by (auto simp: merge_inv_def merge_key_def nth_append less_Suc_eq)
  next
    case (old i)
    then have "merge_key k st = (idx, out[i := k])" by (simp add: merge_key_def Pair)
    moreover from old inv[of "k_kid k" i] have "i < length out" "k_kid (out ! i) = k_kid k"
      by simp_all
    ultimately show ?thesis using inv by (auto simp: merge_inv_def nth_list_update)
  next
    case new
    then have "k_kid (out ! i) \<noteq> k_kid k" if "i < length out" for i
      using inv[of "k_kid k" i] that by simp
    moreover have "merge_key k st = (idx(k_kid k \<mapsto> length out), out @ [k])"
      using new by (simp add: merge_key_def Pair)
    ultimately show ?thesis using new(1) inv
      by (auto simp: merge_inv_def nth_append less_Suc_eq)
  qed
qed

lemma fold_merge_inv: "merge_inv st \<Longrightarrow> merge_inv (fold merge_key ks st)"
  by (induction ks arbitrary: st) (simp_all add: merge_key_inv)

lemma merge_inv_start: "merge_inv (Map.empty, [])"
  by (simp add: merge_inv_def)

lemma merge_inv_unique:
  assumes "merge_inv (idx, out)" "i < length out" "j < length out"
    and "k_kid (out ! i) = k_kid (out ! j)" "k_kid (out ! i) \<noteq> []"
  shows "i = j"
proof -
  from assms have "idx (k_kid (out ! i)) = Some i" "idx (k_kid (out ! i)) = Some j"
    by (auto simp: merge_inv_def)
  then show ?thesis by simp
qed

lemma merge_key_last:
  assumes "merge_inv st" "k_kid k \<noteq> []"
  shows "k \<in> set (snd (merge_key k st))"
  using assms
  by (cases st) (auto simp: merge_key_def merge_inv_def set_update_memI split: option.splits)

lemma merge_key_other:
  assumes "merge_inv st" "k_kid k' \<noteq> k_kid k" "k \<in> set (snd st)"
  shows "k \<in> set (snd (merge_key k' st))"
proof (cases st)
  case (Pair idx out)
  from assms(3) Pair obtain i where i: "i < length out" "out ! i = k"
    by (auto simp: in_set_conv_nth)
  show ?thesis
  proof (cases "idx (k_kid k')")
    case None
    then show ?thesis using Pair assms(3) by (auto simp: merge_key_def)
  next
    case (Some j)
    with assms(1) Pair have "k_kid (out ! j) = k_kid k'" by (auto simp: merge_inv_def)
    with i assms(2) have "i \<noteq> j" by auto
    with i have "k \<in> set (out[j := k'])" by (metis length_list_update nth_list_update_neq nth_mem)
    then show ?thesis using Pair Some assms(3) by (auto simp: merge_key_def)
  qed
qed

lemma fold_merge_other:
  "merge_inv st \<Longrightarrow> k \<in> set (snd st) \<Longrightarrow> (\<forall>k' \<in> set ks. k_kid k' \<noteq> k_kid k) \<Longrightarrow>
    k \<in> set (snd (fold merge_key ks st))"
  by (induction ks arbitrary: st) (simp_all add: merge_key_inv merge_key_other)

lemma merge_inv_same_kid:
  assumes "merge_inv st" "k \<in> set (snd st)" "k' \<in> set (snd st)" "k_kid k = k_kid k'" "k_kid k \<noteq> []"
  shows "k = k'"
proof -
  from assms(2) obtain i where i: "i < length (snd st)" "snd st ! i = k"
    by (auto simp: in_set_conv_nth)
  from assms(3) obtain j where j: "j < length (snd st)" "snd st ! j = k'"
    by (auto simp: in_set_conv_nth)
  have "merge_inv (fst st, snd st)" using assms(1) by simp
  moreover have "k_kid (snd st ! i) = k_kid (snd st ! j)" unfolding i j by (rule assms(4))
  moreover have "k_kid (snd st ! i) \<noteq> []" unfolding i by (rule assms(5))
  ultimately have "i = j" using i(1) j(1) merge_inv_unique by blast
  with i j show ?thesis by simp
qed

lemma merge_key_sub: "set (snd (merge_key k st)) \<subseteq> insert k (set (snd st))"
  by (auto simp: merge_key_def split: prod.splits option.splits if_splits
      dest: set_update_subset_insert[THEN subsetD])

lemma fold_merge_sub: "set (snd (fold merge_key ks st)) \<subseteq> set ks \<union> set (snd st)"
proof (induction ks arbitrary: st)
  case (Cons k ks)
  then show ?case using merge_key_sub[of k st] by fastforce
qed simp

section \<open>A concrete instance of the parameters\<close>

text \<open>
  A keyed checksum in the place of Ed25519 and a table in the place of the JSON codec: the laws the
  theorems assume of the parameters hold of it, so they can be applied to concrete inputs. A header
  that begins with d is that of a proof of possession, a payload that begins with p its payload.
\<close>

definition example_claims :: claims where
  "example_claims =
    \<lparr>c_iss = ''sts'', c_sub = ''alice'', c_aud = [''agent://a''], c_exp = 1000, c_nbf = 0, c_iat = 0,
     c_jti = ''jti-1'', c_txn = ''txn-1'', c_act = None, c_actchain = [], c_scope = ''read'',
     c_purp = [], c_cnf = None\<rparr>"

definition example_env :: "claims list \<Rightarrow> token_env" where
  "example_env cs =
    \<lparr>ed25519_Public = (\<lambda>seed. take 32 (seed @ replicate 32 CHR 0x00)),
     ed25519_Sign = (\<lambda>seed m. CHR ''s'' # take 32 (seed @ replicate 32 CHR 0x00) @ m),
     ed25519_Verify = (\<lambda>pub m sig. sig = CHR ''s'' # pub @ m),
     p256_IsOnCurve = (\<lambda>x y. False),
     ecdsa_Verify = (\<lambda>x y h r s. False),
     rsa_VerifyPKCS1v15 = (\<lambda>n e h s. False),
     sha256_Sum = (\<lambda>m. CHR ''h'' # m),
     Marshal_header = (\<lambda>h. CHR ''h'' # h_kid h),
     Unmarshal_header = (\<lambda>b. case b of [] \<Rightarrow> None
       | t # kid \<Rightarrow> Some (if t = CHR ''d'' then \<lparr>h_alg = ''EdDSA'', h_typ = ''dpop+jwt'', h_kid = []\<rparr>
           else \<lparr>h_alg = ''EdDSA'', h_typ = ''JWT'', h_kid = kid\<rparr>)),
     Marshal_claims = (\<lambda>c. CHR ''c'' # replicate (length (takeWhile (\<lambda>d. d \<noteq> c) cs)) CHR ''x''),
     Unmarshal_claims = (\<lambda>b. if b \<noteq> [] \<and> hd b = CHR ''p'' then Some example_claims
       else if 0 < length b \<and> length b \<le> length cs then Some (cs ! (length b - 1)) else None),
     Encode_members = concat \<circ> map (\<lambda>(k, v). k @ ''='' @ v @ ''.'')\<rparr>"

lemma example_ed25519 [simp]: "ed25519_laws (example_env cs) seed"
  by (simp add: ed25519_laws_def example_env_def)

lemma example_codec [simp]:
  assumes "c \<in> set cs"
  shows "codec_ok (example_env cs) \<lparr>h_alg = ''EdDSA'', h_typ = ''JWT'', h_kid = kid\<rparr> c"
proof -
  let ?n = "length (takeWhile (\<lambda>d. d \<noteq> c) cs)"
  from assms obtain xs ys where cs: "cs = xs @ c # ys" "c \<notin> set xs"
    using split_list_first by fastforce
  then have "takeWhile (\<lambda>d. d \<noteq> c) cs = xs"
    by (subst cs(1), subst takeWhile_append2) (use cs(2) in auto)
  with cs have "?n < length cs" "cs ! ?n = c" by simp_all
  then show ?thesis by (simp add: codec_ok_def example_env_def Suc_le_eq)
qed

definition example_signer :: signer where
  "example_signer = \<lparr>sg_seed = replicate 32 CHR ''s'', sg_kid = ''k1'', sg_sub = []\<rparr>"

lemma example_verifies:
  "VerifyKey (example_env [example_claims])
     (signer_SignClaims (example_env [example_claims]) example_signer example_claims)
     [signer_PublicJWK (example_env [example_claims]) example_signer]
   = Inr (\<lparr>h_alg = ''EdDSA'', h_typ = ''JWT'', h_kid = sg_kid example_signer\<rparr>, example_claims,
          signer_PublicJWK (example_env [example_claims]) example_signer)"
  by (rule sign_VerifyKey) (simp_all add: example_signer_def)

section \<open>Properties\<close>

text \<open>Which signature a token must carry, said without the code's order of steps: the key that is meant, and
  what its type asks of the signature.

  With a key id the key meant is the first of the set that has this id and does not name another algorithm.
  Without one it is the only key that does not name another algorithm, or the only key there is.\<close>

definition key_meant :: "jwks \<Rightarrow> bytes \<Rightarrow> bytes \<Rightarrow> jwk \<Rightarrow> bool" where
  "key_meant keys kid alg j \<longleftrightarrow>
    (if kid \<noteq> [] then
       \<exists>pre post. keys = pre @ j # post \<and> k_kid j = kid \<and> k_alg j \<in> {[], alg} \<and>
         (\<forall>k \<in> set pre. k_kid k = kid \<longrightarrow> k_alg k \<notin> {[], alg})
     else keys = [j] \<or>
       (\<exists>pre post. keys = pre @ j # post \<and> k_alg j \<in> {[], alg} \<and> (\<forall>k \<in> set pre \<union> set post. k_alg k \<notin> {[], alg})))"

definition signature_good :: "('a crypto_scheme) \<Rightarrow> bytes \<Rightarrow> jwk \<Rightarrow> bytes \<Rightarrow> bytes \<Rightarrow> bool" where
  "signature_good E alg j m sig \<longleftrightarrow>
    k_alg j \<in> {[], alg} \<and>
    (alg = ''EdDSA'' \<and> k_kty j = ''OKP'' \<and> k_crv j = ''Ed25519'' \<and>
       (\<exists>pub. B64Decode (k_x j) = Some pub \<and> length pub = 32 \<and> ed25519_Verify E pub m sig) \<or>
     alg = ''ES256'' \<and> k_kty j = ''EC'' \<and> k_crv j \<in> {[], ''P-256''} \<and> length sig = 64 \<and>
       (\<exists>x y. B64Decode (k_x j) = Some x \<and> B64Decode (k_y j) = Some y \<and> p256_IsOnCurve E (SetBytes x) (SetBytes y) \<and>
         ecdsa_Verify E (SetBytes x) (SetBytes y) (sha256_Sum E m) (SetBytes (take 32 sig)) (SetBytes (drop 32 sig))) \<or>
     alg = ''RS256'' \<and> k_kty j = ''RSA'' \<and>
       (\<exists>n e. B64Decode (k_n j) = Some n \<and> B64Decode (k_e j) = Some e \<and> i64 (int (SetBytes e)) \<ge> 3 \<and>
         rsa_VerifyPKCS1v15 E (SetBytes n) (i64 (int (SetBytes e))) (sha256_Sum E m) sig))"

lemma filter_single:
  "filter P xs = [x] \<longleftrightarrow> (\<exists>pre post. xs = pre @ x # post \<and> P x \<and> (\<forall>y \<in> set pre \<union> set post. \<not> P y))"
  unfolding filter_eq_Cons_iff eq_commute[of "[]"] filter_empty_conv by auto

lemma selectKey_meant: "selectKey keys kid alg = Inr j \<longleftrightarrow> key_meant keys kid alg j"
proof (cases "kid = []")
  case True
  then have "key_matches kid alg = (\<lambda>k. k_alg k \<in> {[], alg})" by (auto simp: key_matches_def)
  then have f: "filter (key_matches kid alg) keys = [j] \<longleftrightarrow>
      (\<exists>pre post. keys = pre @ j # post \<and> k_alg j \<in> {[], alg} \<and> (\<forall>k \<in> set pre \<union> set post. k_alg k \<notin> {[], alg}))"
    by (simp only: filter_single)
  have "selectKey keys kid alg = Inr j \<longleftrightarrow> keys = [j] \<or> filter (key_matches kid alg) keys = [j]"
  proof (cases "\<exists>k. filter (key_matches kid alg) keys = [k]")
    case one: True
    then obtain k where k: "filter (key_matches kid alg) keys = [k]" by blast
    moreover have "keys = [j] \<Longrightarrow> k = j" using k by (auto split: if_splits)
    ultimately show ?thesis using True by (auto simp: selectKey_def)
  next
    case False
    then have "length (filter (key_matches kid alg) keys) \<noteq> 1" by (auto simp: length_Suc_conv)
    with True False show ?thesis by (auto simp: selectKey_def Let_def split: list.splits)
  qed
  then show ?thesis unfolding f using True by (simp only: key_meant_def if_False not_True_eq_False simp_thms)
next
  case False
  then have m: "key_matches kid alg = (\<lambda>k. k_kid k = kid \<and> k_alg k \<in> {[], alg})" by (auto simp: key_matches_def)
  have "selectKey keys kid alg = Inr j \<longleftrightarrow> (\<exists>ks. filter (key_matches kid alg) keys = j # ks)"
    using False by (auto simp: selectKey_def Let_def split: list.splits)
  also have "\<dots> \<longleftrightarrow> key_meant keys kid alg j"
    unfolding filter_eq_Cons_iff m key_meant_def if_P[OF False] by blast
  finally show ?thesis .
qed

lemma key_meant_unique: "key_meant keys kid alg j \<Longrightarrow> {k. key_meant keys kid alg k} = {j}"
  by (auto simp flip: selectKey_meant)

lemma jwk_keys_Inr:
  "jwk_ed25519 j = Inr pub \<longleftrightarrow> B64Decode (k_x j) = Some pub \<and> length pub = 32"
  "jwk_ecdsaP256 E j = Inr (x, y) \<longleftrightarrow> k_crv j \<in> {[], ''P-256''} \<and>
    (\<exists>xb yb. B64Decode (k_x j) = Some xb \<and> B64Decode (k_y j) = Some yb \<and> p256_IsOnCurve E (SetBytes xb) (SetBytes yb) \<and>
       x = SetBytes xb \<and> y = SetBytes yb)"
  "jwk_rsaPub j = Inr (n, e) \<longleftrightarrow>
    (\<exists>nb eb. B64Decode (k_n j) = Some nb \<and> B64Decode (k_e j) = Some eb \<and> i64 (int (SetBytes eb)) \<ge> 3 \<and>
       n = SetBytes nb \<and> e = i64 (int (SetBytes eb)))"
  by (auto simp: jwk_ed25519_def jwk_ecdsaP256_def jwk_rsaPub_def Let_def not_less split: option.split)

lemma verifySig_None:
  "verifySig E ''EdDSA'' j m sig = None \<longleftrightarrow> (\<exists>pub. jwk_ed25519 j = Inr pub \<and> ed25519_Verify E pub m sig)"
  "verifySig E ''ES256'' j m sig = None \<longleftrightarrow> length sig = 64 \<and> (\<exists>x y. jwk_ecdsaP256 E j = Inr (x, y) \<and>
     ecdsa_Verify E x y (sha256_Sum E m) (SetBytes (take 32 sig)) (SetBytes (drop 32 sig)))"
  "verifySig E ''RS256'' j m sig = None \<longleftrightarrow> (\<exists>n e. jwk_rsaPub j = Inr (n, e) \<and>
     rsa_VerifyPKCS1v15 E n e (sha256_Sum E m) sig)"
  by (auto simp: verifySig_def split: sum.split)

lemma signature_good_iff: "signature_good E alg j m sig \<longleftrightarrow> matchAlg alg j = None \<and> verifySig E alg j m sig = None"
proof -
  consider "alg = ''EdDSA''" | "alg = ''ES256''" | "alg = ''RS256''" | "alg \<notin> {''EdDSA'', ''ES256'', ''RS256''}" by blast
  then show ?thesis
  proof cases
    case 1
    then show ?thesis by (simp add: matchAlg_None_iff signature_good_def verifySig_None jwk_keys_Inr) blast
  next
    case 2
    then show ?thesis by (simp add: matchAlg_None_iff signature_good_def verifySig_None jwk_keys_Inr) blast
  next
    case 3
    then show ?thesis by (simp add: matchAlg_None_iff signature_good_def verifySig_None jwk_keys_Inr) blast
  next
    case 4
    then show ?thesis by (simp add: matchAlg_None_iff signature_good_def)
  qed
qed

lemma signature_good_alg: "signature_good E alg j m sig \<Longrightarrow> alg \<noteq> [] \<and> \<not> EqualFold alg ''none''"
proof -
  have "\<not> EqualFold ''EdDSA'' ''none''" "\<not> EqualFold ''ES256'' ''none''" "\<not> EqualFold ''RS256'' ''none''" by code_simp+
  then show "signature_good E alg j m sig \<Longrightarrow> alg \<noteq> [] \<and> \<not> EqualFold alg ''none''"
    by (auto simp: signature_good_def)
qed

lemma jws_Verify_good:
  "jws_Verify E raw keys = Inr (h, c) \<longleftrightarrow>
    (\<exists>p0 p1 p2 hb pb sig j. split_on CHR ''.'' raw = [p0, p1, p2] \<and> p0 \<noteq> [] \<and> p1 \<noteq> [] \<and> p2 \<noteq> [] \<and>
       B64Decode p0 = Some hb \<and> Unmarshal_header E hb = Some h \<and> B64Decode p1 = Some pb \<and> Unmarshal_claims E pb = Some c \<and>
       key_meant keys (h_kid h) (h_alg h) j \<and> B64Decode p2 = Some sig \<and> signature_good E (h_alg h) j (p0 @ ''.'' @ p1) sig)"
  (is "?l \<longleftrightarrow> ?r")
proof
  assume ?l
  then obtain j where "signed_as E raw keys h c j" unfolding jws_Verify_Inr_iff by blast
  then show ?r unfolding signed_as_def signature_good_iff selectKey_meant by blast
next
  assume ?r
  then obtain p0 p1 p2 hb pb sig j where r: "split_on CHR ''.'' raw = [p0, p1, p2]" "p0 \<noteq> []" "p1 \<noteq> []" "p2 \<noteq> []"
    "B64Decode p0 = Some hb" "Unmarshal_header E hb = Some h" "B64Decode p1 = Some pb" "Unmarshal_claims E pb = Some c"
    "selectKey keys (h_kid h) (h_alg h) = Inr j" "B64Decode p2 = Some sig" "signature_good E (h_alg h) j (p0 @ ''.'' @ p1) sig"
    unfolding selectKey_meant by blast
  with signature_good_alg[OF r(11)] have "signed_as E raw keys h c j"
    unfolding signed_as_def signature_good_iff by blast
  then show ?l unfolding jws_Verify_Inr_iff by blast
qed

text \<open>C22: What verification accepts. \<^verbatim>\<open>token.Verify\<close> answers a header and claims exactly for the compact tokens of
  three parts, the first two of which carry them, whose third part is a signature over the first two that is
  good under the one key of the set that the header means. The algorithm is the one that the type of this
  key admits: EdDSA for an Ed25519 key, ES256 for a point of P-256 with a signature of 64 bytes, RS256 for an
  RSA key with an exponent of three or more. No other pairing, no unsigned token and no key of another id
  passes, and no good token is refused.\<close>

theorem verified_is_signed:
  "jws_Verify E raw keys = Inr (h, c) \<longleftrightarrow>
    (\<exists>j p0 p1 p2 hb pb sig.
       raw = p0 @ ''.'' @ p1 @ ''.'' @ p2 \<and> CHR ''.'' \<notin> set p0 \<union> set p1 \<union> set p2 \<and>
       p0 \<noteq> [] \<and> p1 \<noteq> [] \<and> p2 \<noteq> [] \<and>
       B64Decode p0 = Some hb \<and> Unmarshal_header E hb = Some h \<and>
       B64Decode p1 = Some pb \<and> Unmarshal_claims E pb = Some c \<and>
       {k. key_meant keys (h_kid h) (h_alg h) k} = {j} \<and>
       B64Decode p2 = Some sig \<and> signature_good E (h_alg h) j (p0 @ ''.'' @ p1) sig)"
proof -
  have key: "{k. key_meant keys kid alg k} = {j} \<longleftrightarrow> key_meant keys kid alg j" for kid alg j
    using key_meant_unique[of keys kid alg j] by blast
  show ?thesis unfolding jws_Verify_good key split_on_three by blast
qed

text \<open>No algorithm confusion: whatever the header says, the key that verified the token is a
  member of the key set with the requested key id, and the algorithm is EdDSA for an Ed25519 key,
  ES256 for a P-256 key or RS256 for an RSA key, never another pairing and never unsigned.\<close>

theorem no_alg_confusion:
  assumes "VerifyKey E raw keys = Inr (h, c, j)"
  shows "j \<in> set keys \<and> (h_kid h \<noteq> [] \<longrightarrow> k_kid j = h_kid h) \<and>
    (h_alg h, k_kty j) \<in> {(''EdDSA'', ''OKP''), (''ES256'', ''EC''), (''RS256'', ''RSA'')} \<and>
    (k_alg j = [] \<or> k_alg j = h_alg h)"
proof -
  from assms have s: "signed_as E raw keys h c j" by (simp add: VerifyKey_Inr_iff)
  from signed_as_alg[OF s] have "matchAlg (h_alg h) j = None" .
  then show ?thesis using signed_as_key[OF s]
    by (auto simp: matchAlg_def split: if_splits)
qed

theorem no_alg_confusion_witness:
  "(''EdDSA'', k_kty (signer_PublicJWK (example_env [example_claims]) example_signer))
    \<in> {(''EdDSA'', ''OKP''), (''ES256'', ''EC''), (''RS256'', ''RSA'')}"
  using no_alg_confusion[OF example_verifies] by simp

text \<open>A token signed with a key verifies against every key set in which that key is the one
  selected by its id, and verification returns the signed claims. The Ed25519 pair and the JSON
  codec are parameters with their documented round-trip laws.\<close>

theorem signed_then_verified:
  assumes "ed25519_laws E (sg_seed s)"
    and "codec_ok E \<lparr>h_alg = ''EdDSA'', h_typ = ''JWT'', h_kid = sg_kid s\<rparr> c"
    and "sg_kid s \<noteq> []" "distinct (map k_kid keys)" "signer_PublicJWK E s \<in> set keys"
  shows "VerifyKey E (signer_SignClaims E s c) keys
    = Inr (\<lparr>h_alg = ''EdDSA'', h_typ = ''JWT'', h_kid = sg_kid s\<rparr>, c, signer_PublicJWK E s)"
  by (rule sign_VerifyKey) fact+

theorem signed_then_verified_witness:
  "VerifyKey (example_env [example_claims])
     (signer_SignClaims (example_env [example_claims]) example_signer example_claims)
     [signer_PublicJWK (example_env [example_claims]) example_signer]
   = Inr (\<lparr>h_alg = ''EdDSA'', h_typ = ''JWT'', h_kid = ''k1''\<rparr>, example_claims,
          signer_PublicJWK (example_env [example_claims]) example_signer)"
  using signed_then_verified[of "example_env [example_claims]" example_signer example_claims
      "[signer_PublicJWK (example_env [example_claims]) example_signer]"]
  by (simp add: example_signer_def)

text \<open>Merging key sets keeps, for each key id, exactly one key, the last one given, keeps every
  key without an id, and adds no key of its own.\<close>

theorem MergeJWKS_last_wins:
  "set (MergeJWKS sets) \<subseteq> set (concat sets) \<and>
   (concat sets = pre @ k # post \<and> k_kid k \<noteq> [] \<and> k_kid k \<notin> k_kid ` set post \<longrightarrow>
     filter (\<lambda>j. k_kid j = k_kid k) (MergeJWKS sets) = [k])"
proof -
  let ?st = "fold merge_key (concat sets) (Map.empty, [])"
  have inv: "merge_inv ?st" by (rule fold_merge_inv[OF merge_inv_start])
  have "filter (\<lambda>j. k_kid j = k_kid k) (snd ?st) = [k]"
    if c: "concat sets = pre @ k # post" and ne: "k_kid k \<noteq> []" and last: "k_kid k \<notin> k_kid ` set post"
  proof -
    have "merge_inv (fold merge_key pre (Map.empty, []))" by (rule fold_merge_inv[OF merge_inv_start])
    then have "merge_inv (merge_key k (fold merge_key pre (Map.empty, [])))"
      "k \<in> set (snd (merge_key k (fold merge_key pre (Map.empty, []))))"
      by (simp_all add: merge_key_inv merge_key_last ne)
    then have "k \<in> set (snd ?st)" unfolding c using last
      by (auto intro!: fold_merge_other simp: image_iff)
    moreover have "distinct (filter (\<lambda>j. k_kid j = k_kid k) (snd ?st))"
      using inv ne
      by (intro distinct_filter_unique) (rule merge_inv_unique[of "fst ?st" "snd ?st"], simp_all)
    ultimately show ?thesis using merge_inv_same_kid[OF inv] ne
      by (intro singleton_by_set) auto
  qed
  moreover have "set (snd ?st) \<subseteq> set (concat sets)" using fold_merge_sub[of "concat sets" "(Map.empty, [])"] by simp
  ultimately show ?thesis unfolding MergeJWKS_def by blast
qed

theorem MergeJWKS_last_wins_witness:
  "filter (\<lambda>j. k_kid j = ''k'')
     (MergeJWKS [[empty_jwk\<lparr>k_kid := ''k'', k_x := ''old''\<rparr>], [empty_jwk\<lparr>k_kid := ''k'', k_x := ''new''\<rparr>]])
   = [empty_jwk\<lparr>k_kid := ''k'', k_x := ''new''\<rparr>]"
  using MergeJWKS_last_wins[of
      "[[empty_jwk\<lparr>k_kid := ''k'', k_x := ''old''\<rparr>], [empty_jwk\<lparr>k_kid := ''k'', k_x := ''new''\<rparr>]]"
      "[empty_jwk\<lparr>k_kid := ''k'', k_x := ''old''\<rparr>]" "empty_jwk\<lparr>k_kid := ''k'', k_x := ''new''\<rparr>" "[]"]
  by simp

end
