(* ===== verification/Keyring.thy ===== *)
theory Keyring
  imports Jws
begin

text \<open>
  \<^verbatim>\<open>internal/token/keys.go\<close> and \<^verbatim>\<open>internal/token/keyring.go\<close>: key files, signers built from them, and
  the rotatable signing ring of the STS with its rules for replacing one ring by the next.

  A Go map is an association list in the order of one iteration over it; the ring's invariant
  \<open>ring_wf\<close> makes the keys distinct. The lemmas show that a replacement either keeps the old ring
  untouched or installs a ring in which every kid published before and after names the same key
  and whose active kid was published before (preload, then activate).
\<close>

section \<open>Key files\<close>

record keyfile =
  kf_kid :: bytes
  kf_alg :: bytes
  kf_kty :: bytes
  kf_crv :: bytes
  kf_x :: bytes
  kf_d :: bytes
  kf_issuer :: bytes
  kf_sub :: bytes

text \<open>\<^verbatim>\<open>GenerateEd25519\<close> with the 32 random seed bytes as its argument.\<close>

definition GenerateEd25519 :: "('a crypto_scheme) \<Rightarrow> bytes \<Rightarrow> bytes \<Rightarrow> keyfile" where
  "GenerateEd25519 E seed kid =
    \<lparr>kf_kid = kid, kf_alg = ''EdDSA'', kf_kty = ''OKP'', kf_crv = ''Ed25519'',
     kf_x = B64Encode (ed25519_Public E seed), kf_d = B64Encode seed,
     kf_issuer = [], kf_sub = []\<rparr>"

definition keyfile_PublicJWK :: "keyfile \<Rightarrow> jwk" where
  "keyfile_PublicJWK k =
    \<lparr>k_kid = kf_kid k, k_kty = kf_kty k, k_use = ''sig'', k_alg = kf_alg k, k_crv = kf_crv k,
     k_x = kf_x k, k_y = [], k_n = [], k_e = [], k_sub = kf_sub k\<rparr>"

definition keyfile_PublicJWKS :: "keyfile \<Rightarrow> jwks" where
  "keyfile_PublicJWKS k = [keyfile_PublicJWK k]"

text \<open>\<^verbatim>\<open>PrivateKey\<close> returns the seed from which \<^verbatim>\<open>ed25519.NewKeyFromSeed\<close> derives the key.\<close>

definition keyfile_PrivateKey :: "keyfile \<Rightarrow> token_error + bytes" where
  "keyfile_PrivateKey k =
    (if kf_d k = [] then Inl Token_ErrMissingPrivateKey
     else (case B64Decode (kf_d k) of
       None \<Rightarrow> Inl Token_ErrInvalidKey
     | Some seed \<Rightarrow> if length seed \<noteq> 32 then Inl Token_ErrInvalidKey else Inr seed))"

definition keyfile_PublicKey :: "keyfile \<Rightarrow> token_error + bytes" where
  "keyfile_PublicKey k =
    (case B64Decode (kf_x k) of
       None \<Rightarrow> Inl Token_ErrInvalidKey
     | Some raw \<Rightarrow> if length raw \<noteq> 32 then Inl Token_ErrInvalidKey else Inr raw)"

definition SignerFromKeyFile :: "keyfile \<Rightarrow> token_error + signer" where
  "SignerFromKeyFile k =
    (case keyfile_PrivateKey k of
       Inl e \<Rightarrow> Inl e
     | Inr priv \<Rightarrow> Inr ((NewSigner priv (kf_kid k))\<lparr>sg_sub := kf_sub k\<rparr>))"

lemma SignerFromKeyFile_kid: "SignerFromKeyFile k = Inr s \<Longrightarrow> sg_kid s = kf_kid k"
  by (auto simp: SignerFromKeyFile_def NewSigner_def split: sum.splits)

lemma SignerFromKeyFile_Generate:
  "length seed = 32 \<Longrightarrow>
    SignerFromKeyFile (GenerateEd25519 E seed kid) = Inr \<lparr>sg_seed = seed, sg_kid = kid, sg_sub = []\<rparr>"
  by (auto simp: SignerFromKeyFile_def keyfile_PrivateKey_def GenerateEd25519_def NewSigner_def)

text \<open>The published JWK of a generated key file is the one its signer publishes.\<close>

lemma keyfile_PublicJWK_Generate:
  "keyfile_PublicJWK (GenerateEd25519 E seed kid) =
    signer_PublicJWK E \<lparr>sg_seed = seed, sg_kid = kid, sg_sub = []\<rparr>"
  by (simp add: keyfile_PublicJWK_def GenerateEd25519_def signer_PublicJWK_def)

section \<open>The ring\<close>

text \<open>\<open>kr_byKID\<close> is \<open>None\<close> for the nil map of a ring that was never filled.\<close>

record keyring =
  kr_activeKID :: bytes
  kr_byKID :: "(bytes \<times> signer) list option"

definition empty_keyring :: keyring where
  "empty_keyring = \<lparr>kr_activeKID = [], kr_byKID = None\<rparr>"

definition ring_lookup :: "keyring \<Rightarrow> bytes \<Rightarrow> signer option" where
  "ring_lookup k kid = (case kr_byKID k of None \<Rightarrow> None | Some by_kid \<Rightarrow> map_of by_kid kid)"

text \<open>The active key first, then the others in iteration order.\<close>

definition jwksFrom :: "('a crypto_scheme) \<Rightarrow> bytes \<Rightarrow> (bytes \<times> signer) list \<Rightarrow> jwks" where
  "jwksFrom E active by_kid =
    (case map_of by_kid active of None \<Rightarrow> [] | Some s \<Rightarrow> [signer_PublicJWK E s]) @
    map (\<lambda>(kid, s). signer_PublicJWK E s) (filter (\<lambda>(kid, s). kid \<noteq> active) by_kid)"

definition keyring_ActiveKID :: "keyring option \<Rightarrow> bytes" where
  "keyring_ActiveKID kr = (case kr of None \<Rightarrow> [] | Some k \<Rightarrow> kr_activeKID k)"

definition keyring_HasKID :: "keyring option \<Rightarrow> bytes \<Rightarrow> bool" where
  "keyring_HasKID kr kid =
    (case kr of
       None \<Rightarrow> False
     | Some k \<Rightarrow> if kid = [] then False else ring_lookup k kid \<noteq> None)"

definition keyring_JWKS :: "('a crypto_scheme) \<Rightarrow> keyring option \<Rightarrow> jwks" where
  "keyring_JWKS E kr =
    (case kr of
       None \<Rightarrow> []
     | Some k \<Rightarrow>
         jwksFrom E (kr_activeKID k) (case kr_byKID k of None \<Rightarrow> [] | Some by_kid \<Rightarrow> by_kid))"

definition keyring_SignClaims ::
  "('a token_env_scheme) \<Rightarrow> keyring option \<Rightarrow> claims \<Rightarrow> token_error + bytes" where
  "keyring_SignClaims E kr c =
    (case kr of
       None \<Rightarrow> Inl Token_ErrMissingPrivateKey
     | Some k \<Rightarrow>
         (case ring_lookup k (kr_activeKID k) of
            None \<Rightarrow> Inl Token_ErrMissingPrivateKey
          | Some s \<Rightarrow> Inr (signer_SignClaims E s c)))"

section \<open>Replacing the ring\<close>

text \<open>The loop of \<^verbatim>\<open>Replace\<close> that builds the next map; a nil pointer is \<open>None\<close>.\<close>

fun build_ring ::
  "(bytes \<times> signer) list \<Rightarrow> keyfile option list \<Rightarrow> token_error + (bytes \<times> signer) list" where
  "build_ring nxt [] = Inr nxt"
| "build_ring nxt (None # fs) = Inl Token_ErrInvalidKey"
| "build_ring nxt (Some f # fs) =
    (if kf_kid f = [] then Inl Token_ErrInvalidKey
     else if map_of nxt (kf_kid f) \<noteq> None then Inl Token_ErrInvalidKey
     else (case SignerFromKeyFile f of
       Inl e \<Rightarrow> Inl e
     | Inr s \<Rightarrow> build_ring (nxt @ [(kf_kid f, s)]) fs))"

definition jwks_by_kid :: "jwks \<Rightarrow> bytes \<rightharpoonup> jwk" where
  "jwks_by_kid keys = foldl (\<lambda>m j. m(k_kid j \<mapsto> j)) Map.empty keys"

fun stable_from :: "(bytes \<rightharpoonup> jwk) \<Rightarrow> jwks \<Rightarrow> token_error option" where
  "stable_from byNext [] = None"
| "stable_from byNext (j # js) =
    (case byNext (k_kid j) of
       None \<Rightarrow> stable_from byNext js
     | Some n \<Rightarrow> if \<not> PublicEqual j n then Some Token_ErrInvalidKey else stable_from byNext js)"

definition publicMaterialStable :: "jwks \<Rightarrow> jwks \<Rightarrow> token_error option" where
  "publicMaterialStable prev nxt = stable_from (jwks_by_kid nxt) prev"

definition AllowActivation ::
  "('a crypto_scheme) \<Rightarrow> keyring option \<Rightarrow> keyring option \<Rightarrow> token_error option" where
  "AllowActivation E prev nxt =
    (if nxt = None \<or> keyring_ActiveKID nxt = [] then Some Token_ErrInvalidKey
     else if prev = None \<or> keyring_ActiveKID prev = [] then None
     else if keyring_ActiveKID nxt \<noteq> keyring_ActiveKID prev \<and>
             \<not> keyring_HasKID prev (keyring_ActiveKID nxt) then Some Token_ErrUnknownKey
     else publicMaterialStable (keyring_JWKS E prev) (keyring_JWKS E nxt))"

text \<open>The check of \<^verbatim>\<open>Replace\<close> against the ring it would replace, made only when there is one.\<close>

definition replace_check ::
  "('a crypto_scheme) \<Rightarrow> keyring \<Rightarrow> bytes \<Rightarrow> (bytes \<times> signer) list \<Rightarrow> token_error option" where
  "replace_check E k activeKID nxt =
    (case kr_byKID k of
       None \<Rightarrow> None
     | Some by_kid \<Rightarrow>
         (case publicMaterialStable (jwksFrom E (kr_activeKID k) by_kid) (jwksFrom E activeKID nxt) of
            Some e \<Rightarrow> Some e
          | None \<Rightarrow>
              if kr_activeKID k \<noteq> [] \<and> activeKID \<noteq> kr_activeKID k
              then (if map_of by_kid activeKID = None then Some Token_ErrUnknownKey else None)
              else None))"

text \<open>\<^verbatim>\<open>Replace\<close> on a non-nil ring: the error, if any, and the ring afterwards.\<close>

definition keyring_Replace ::
  "('a crypto_scheme) \<Rightarrow> keyring \<Rightarrow> bytes \<Rightarrow> keyfile option list \<Rightarrow> token_error option \<times> keyring" where
  "keyring_Replace E k activeKID keys =
    (if keys = [] then (Some Token_ErrInvalidKey, k)
     else if activeKID = [] then (Some Token_ErrInvalidKey, k)
     else (case build_ring [] keys of
       Inl e \<Rightarrow> (Some e, k)
     | Inr nxt \<Rightarrow>
         if map_of nxt activeKID = None then (Some Token_ErrUnknownKey, k)
         else (case replace_check E k activeKID nxt of
               Some e \<Rightarrow> (Some e, k)
             | None \<Rightarrow> (None, k\<lparr>kr_activeKID := activeKID, kr_byKID := Some nxt\<rparr>))))"

definition NewKeyring ::
  "('a crypto_scheme) \<Rightarrow> bytes \<Rightarrow> keyfile option list \<Rightarrow> token_error + keyring" where
  "NewKeyring E activeKID keys =
    (case keyring_Replace E empty_keyring activeKID keys of
       (Some e, _) \<Rightarrow> Inl e
     | (None, k) \<Rightarrow> Inr k)"

section \<open>Invariant of the ring\<close>

definition alist_wf :: "(bytes \<times> signer) list \<Rightarrow> bool" where
  "alist_wf al \<longleftrightarrow> distinct (map fst al) \<and> (\<forall>(kid, s) \<in> set al. kid \<noteq> [] \<and> sg_kid s = kid)"

definition ring_wf :: "keyring \<Rightarrow> bool" where
  "ring_wf k \<longleftrightarrow>
    (case kr_byKID k of
       None \<Rightarrow> kr_activeKID k = []
     | Some by_kid \<Rightarrow> alist_wf by_kid \<and> kr_activeKID k \<in> fst ` set by_kid)"

lemma ring_wf_empty [simp]: "ring_wf empty_keyring"
  by (simp add: ring_wf_def empty_keyring_def)

lemma build_ring_wf: "build_ring nxt fs = Inr r \<Longrightarrow> alist_wf nxt \<Longrightarrow> alist_wf r"
  by (induction nxt fs rule: build_ring.induct)
    (auto simp: alist_wf_def map_of_eq_None_iff split: if_splits sum.splits
      dest: SignerFromKeyFile_kid)

lemma keyring_Replace_cases:
  obtains (kept) e where "keyring_Replace E k a ks = (Some e, k)"
  | (installed) nxt where "keyring_Replace E k a ks
        = (None, k\<lparr>kr_activeKID := a, kr_byKID := Some nxt\<rparr>)"
      "build_ring [] ks = Inr nxt" "ks \<noteq> []" "a \<noteq> []" "a \<in> fst ` set nxt"
      "replace_check E k a nxt = None"
proof (cases "ks = [] \<or> a = []")
  case True
  then show ?thesis by (intro kept) (auto simp: keyring_Replace_def)
next
  case False
  show ?thesis
  proof (cases "build_ring [] ks")
    case (Inl e)
    with False show ?thesis by (intro kept[of e]) (simp add: keyring_Replace_def)
  next
    case (Inr nxt)
    show ?thesis
    proof (cases "map_of nxt a = None \<or> replace_check E k a nxt \<noteq> None")
      case True
      with False Inr have "\<exists>e. keyring_Replace E k a ks = (Some e, k)"
        by (auto simp: keyring_Replace_def)
      then show ?thesis using kept by blast
    next
      case ok: False
      with False Inr have "keyring_Replace E k a ks
          = (None, k\<lparr>kr_activeKID := a, kr_byKID := Some nxt\<rparr>)"
        by (auto simp: keyring_Replace_def)
      moreover from ok have "a \<in> fst ` set nxt" by (simp add: map_of_eq_None_iff)
      ultimately show ?thesis using installed False Inr ok by blast
    qed
  qed
qed

lemma keyring_Replace_wf:
  assumes "ring_wf k"
  shows "ring_wf (snd (keyring_Replace E k a ks))"
proof (cases rule: keyring_Replace_cases[of E k a ks])
  case (kept e)
  with assms show ?thesis by simp
next
  case (installed nxt)
  moreover have "alist_wf nxt"
    using build_ring_wf[OF installed(2)] by (simp add: alist_wf_def)
  ultimately show ?thesis by (simp add: ring_wf_def)
qed

lemma keyring_Replace_error: "keyring_Replace E k a ks = (Some e, k') \<Longrightarrow> k' = k"
  by (cases rule: keyring_Replace_cases[of E k a ks]) auto

lemma NewKeyring_wf: "NewKeyring E a ks = Inr k \<Longrightarrow> ring_wf k"
  using keyring_Replace_wf[of empty_keyring E a ks]
  by (auto simp: NewKeyring_def split: prod.splits option.splits)

section \<open>The published key set\<close>

lemma keyring_JWKS_set:
  assumes "alist_wf al"
  shows "set (jwksFrom E a al) = (\<lambda>(kid, s). signer_PublicJWK E s) ` set al"
proof -
  have look: "map_of al a = Some s \<longleftrightarrow> (a, s) \<in> set al" for s
    using assms by (auto simp: alist_wf_def dest: map_of_SomeD)
  let ?pub = "\<lambda>(kid, s). signer_PublicJWK E s"
  have act: "set (case map_of al a of None \<Rightarrow> [] | Some s \<Rightarrow> [signer_PublicJWK E s])
      = ?pub ` {p \<in> set al. fst p = a}"
  proof (cases "map_of al a")
    case None
    then have "a \<notin> fst ` set al" by (simp add: map_of_eq_None_iff)
    then have "{p \<in> set al. fst p = a} = {}" by force
    with None show ?thesis by simp
  next
    case (Some s)
    then have "(a, x) \<in> set al \<longleftrightarrow> x = s" for x using look[of x] by auto
    note uniq = this
    have "p \<in> set al \<and> fst p = a \<longleftrightarrow> p = (a, s)" for p
    proof (cases p)
      case (Pair k x)
      with uniq[of x] show ?thesis by auto
    qed
    then have "{p \<in> set al. fst p = a} = {(a, s)}" by simp
    with Some show ?thesis by simp
  qed
  have "set al = {p \<in> set al. fst p = a} \<union> {p \<in> set al. case p of (kid, s) \<Rightarrow> kid \<noteq> a}"
    by auto
  then have "?pub ` set al = ?pub ` {p \<in> set al. fst p = a}
      \<union> ?pub ` {p \<in> set al. case p of (kid, s) \<Rightarrow> kid \<noteq> a}"
    by (metis image_Un)
  then show ?thesis by (simp add: jwksFrom_def act)
qed

lemma k_kid_signer [simp]: "k_kid (signer_PublicJWK E s) = sg_kid s"
  by (simp add: signer_PublicJWK_def)

lemma jwksFrom_kids_distinct:
  assumes "alist_wf al"
  shows "distinct (map k_kid (jwksFrom E a al))"
proof -
  have kid: "sg_kid s = kid" if "(kid, s) \<in> set al" for kid s
    using assms that by (auto simp: alist_wf_def)
  have "map k_kid (map (\<lambda>(kid, s). signer_PublicJWK E s) (filter (\<lambda>(kid, s). kid \<noteq> a) al))
      = map fst (filter (\<lambda>(kid, s). kid \<noteq> a) al)"
    by (auto simp: kid)
  moreover have "distinct (map fst (filter (\<lambda>(kid, s). kid \<noteq> a) al))"
    using assms by (simp add: alist_wf_def distinct_map_filter)
  moreover have "a \<notin> set (map fst (filter (\<lambda>(kid, s). kid \<noteq> a) al))" by auto
  moreover have "sg_kid s = a" if "map_of al a = Some s" for s
    using kid[OF map_of_SomeD[OF that]] by simp
  ultimately show ?thesis
    by (auto simp: jwksFrom_def split: option.splits simp del: map_map)
qed

lemma ring_lookup_kid:
  assumes "ring_wf k" "ring_lookup k kid = Some s"
  shows "sg_kid s = kid" and "kid \<noteq> []"
  using assms
  by (auto simp: ring_wf_def ring_lookup_def alist_wf_def dest: map_of_SomeD split: option.splits)

lemma keyring_JWKS_iff:
  assumes "ring_wf k"
  shows "j \<in> set (keyring_JWKS E (Some k)) \<longleftrightarrow>
    (\<exists>kid s. ring_lookup k kid = Some s \<and> j = signer_PublicJWK E s)"
proof (cases "kr_byKID k")
  case None
  then show ?thesis by (simp add: keyring_JWKS_def jwksFrom_def ring_lookup_def)
next
  case (Some al)
  with assms have wf: "alist_wf al" by (simp add: ring_wf_def)
  then have look: "(kid, s) \<in> set al \<longleftrightarrow> ring_lookup k kid = Some s" for kid s
    using Some by (simp add: ring_lookup_def alist_wf_def)
  have "set (keyring_JWKS E (Some k)) = (\<lambda>(kid, s). signer_PublicJWK E s) ` set al"
    using Some keyring_JWKS_set[OF wf] by (simp add: keyring_JWKS_def)
  then show ?thesis by (force simp: look image_iff)
qed

lemma keyring_JWKS_distinct: "ring_wf k \<Longrightarrow> distinct (map k_kid (keyring_JWKS E (Some k)))"
  by (cases "kr_byKID k")
    (simp_all add: ring_wf_def keyring_JWKS_def jwksFrom_kids_distinct, simp add: jwksFrom_def)

lemma foldl_by_kid:
  "distinct (map k_kid keys) \<Longrightarrow>
    foldl (\<lambda>m j. m(k_kid j \<mapsto> j)) m keys kid =
      (case List.find (\<lambda>j. k_kid j = kid) keys of Some j \<Rightarrow> Some j | None \<Rightarrow> m kid)"
proof (induction keys arbitrary: m)
  case (Cons j js)
  have "List.find (\<lambda>i. k_kid i = k_kid j) js = None"
    using Cons.prems by (simp add: find_None_iff_all) (metis image_eqI)
  with Cons show ?case by (auto split: option.splits)
qed simp

lemma jwks_by_kid_iff:
  assumes "distinct (map k_kid keys)"
  shows "jwks_by_kid keys kid = Some n \<longleftrightarrow> n \<in> set keys \<and> k_kid n = kid"
proof -
  have eq: "jwks_by_kid keys kid = List.find (\<lambda>j. k_kid j = kid) keys"
    by (simp add: jwks_by_kid_def foldl_by_kid[OF assms] split: option.split)
  have fnd: "List.find (\<lambda>j. k_kid j = kid) keys = Some n" if n: "n \<in> set keys" "k_kid n = kid"
  proof (cases "List.find (\<lambda>j. k_kid j = kid) keys")
    case None
    with n show ?thesis by (simp add: find_None_iff_all)
  next
    case (Some m)
    then have "m \<in> set keys" "k_kid m = kid" by (auto dest: find_SomeD)
    with assms n have "m = n" by (auto simp: distinct_map dest: inj_onD)
    with Some show ?thesis by simp
  qed
  show ?thesis unfolding eq
  proof
    assume "List.find (\<lambda>j. k_kid j = kid) keys = Some n"
    then show "n \<in> set keys \<and> k_kid n = kid" by (rule find_SomeD)
  next
    assume "n \<in> set keys \<and> k_kid n = kid"
    then show "List.find (\<lambda>j. k_kid j = kid) keys = Some n" using fnd by simp
  qed
qed

lemma stable_from_None:
  "stable_from m prev = None \<longleftrightarrow> (\<forall>j \<in> set prev. \<forall>n. m (k_kid j) = Some n \<longrightarrow> n = j)"
  by (induction prev) (auto split: option.splits)

lemma publicMaterialStable_None:
  assumes "distinct (map k_kid nxt)"
  shows "publicMaterialStable prev nxt = None \<longleftrightarrow>
    (\<forall>j \<in> set prev. \<forall>n \<in> set nxt. k_kid n = k_kid j \<longrightarrow> n = j)"
  by (auto simp: publicMaterialStable_def stable_from_None jwks_by_kid_iff[OF assms])

section \<open>Rotation\<close>

text \<open>A published kid names one key: two rings agree on the public half of a kid they share.\<close>

definition rings_agree :: "('a crypto_scheme) \<Rightarrow> keyring \<Rightarrow> keyring \<Rightarrow> bool" where
  "rings_agree E k k' \<longleftrightarrow>
    (\<forall>kid s s'. ring_lookup k kid = Some s \<longrightarrow> ring_lookup k' kid = Some s' \<longrightarrow>
       signer_PublicJWK E s' = signer_PublicJWK E s)"

lemma stable_rings_agree:
  assumes "ring_wf k" "ring_wf k'"
  shows "publicMaterialStable (keyring_JWKS E (Some k)) (keyring_JWKS E (Some k')) = None
    \<longleftrightarrow> rings_agree E k k'"
proof -
  have "publicMaterialStable (keyring_JWKS E (Some k)) (keyring_JWKS E (Some k')) = None
    \<longleftrightarrow> (\<forall>kid s kid' s'. ring_lookup k kid = Some s \<longrightarrow> ring_lookup k' kid' = Some s' \<longrightarrow>
          sg_kid s' = sg_kid s \<longrightarrow> signer_PublicJWK E s' = signer_PublicJWK E s)"
    unfolding publicMaterialStable_None[OF keyring_JWKS_distinct[OF assms(2)]] Ball_def
      keyring_JWKS_iff[OF assms(1)] keyring_JWKS_iff[OF assms(2)]
    by (metis k_kid_signer)
  also have "\<dots> \<longleftrightarrow> rings_agree E k k'"
    unfolding rings_agree_def using ring_lookup_kid(1)[OF assms(1)] ring_lookup_kid(1)[OF assms(2)]
    by metis
  finally show ?thesis .
qed

text \<open>The rotation relation that \<^verbatim>\<open>Replace\<close> and \<^verbatim>\<open>AllowActivation\<close> implement.\<close>

definition may_follow :: "('a crypto_scheme) \<Rightarrow> keyring \<Rightarrow> keyring \<Rightarrow> bool" where
  "may_follow E k k' \<longleftrightarrow>
    kr_activeKID k' \<noteq> [] \<and>
    (kr_activeKID k = [] \<or>
      rings_agree E k k' \<and>
      (kr_activeKID k' = kr_activeKID k \<or> ring_lookup k (kr_activeKID k') \<noteq> None))"

lemma AllowActivation_None:
  assumes "ring_wf k" "ring_wf k'"
  shows "AllowActivation E (Some k) (Some k') = None \<longleftrightarrow> may_follow E k k'"
  unfolding may_follow_def stable_rings_agree[OF assms, symmetric]
  by (auto simp: AllowActivation_def keyring_ActiveKID_def keyring_HasKID_def)

lemma ring_wf_cases:
  assumes "ring_wf k"
  obtains (bare) "kr_byKID k = None" "kr_activeKID k = []"
  | (filled) al where "kr_byKID k = Some al" "alist_wf al" "kr_activeKID k \<noteq> []"
      "map_of al (kr_activeKID k) \<noteq> None"
proof (cases "kr_byKID k")
  case None
  with assms show ?thesis by (intro bare) (simp_all add: ring_wf_def)
next
  case (Some al)
  with assms have "alist_wf al" "kr_activeKID k \<in> fst ` set al" by (simp_all add: ring_wf_def)
  moreover from this have "kr_activeKID k \<noteq> []" by (force simp: alist_wf_def)
  ultimately show ?thesis using Some by (intro filled) (auto simp: map_of_eq_None_iff)
qed

lemma replace_check_None:
  fixes k :: keyring and nxt :: "(bytes \<times> signer) list"
  assumes "ring_wf k" "a \<noteq> []"
  defines "k' \<equiv> k\<lparr>kr_activeKID := a, kr_byKID := Some nxt\<rparr>"
  assumes "ring_wf k'"
  shows "replace_check E k a nxt = None \<longleftrightarrow> may_follow E k k'"
  using assms(1)
proof (cases rule: ring_wf_cases)
  case bare
  with assms(2) show ?thesis by (simp add: replace_check_def may_follow_def k'_def)
next
  case (filled al)
  then show ?thesis
    unfolding may_follow_def stable_rings_agree[OF assms(1,4), symmetric]
    using assms(2)
    by (auto simp: replace_check_def keyring_JWKS_def k'_def ring_lookup_def split: option.splits)
qed

lemma keyring_Replace_follows:
  assumes "ring_wf k" "keyring_Replace E k a ks = (None, k')"
  shows "may_follow E k k' \<and> kr_activeKID k' = a \<and> ring_wf k'"
proof (cases rule: keyring_Replace_cases[of E k a ks])
  case (kept e)
  with assms(2) show ?thesis by simp
next
  case (installed nxt)
  have wf: "ring_wf k'" using keyring_Replace_wf[OF assms(1), of E a ks] assms(2) by simp
  moreover from installed(1) assms(2) have "k' = k\<lparr>kr_activeKID := a, kr_byKID := Some nxt\<rparr>"
    by simp
  ultimately show ?thesis
    using replace_check_None[OF assms(1) installed(4), of nxt E] installed(6) by simp
qed

lemma NewKeyring_iff:
  "NewKeyring E a ks = Inr k \<longleftrightarrow> keyring_Replace E empty_keyring a ks = (None, k)"
  by (auto simp: NewKeyring_def split: prod.splits option.splits)

text \<open>Whether a ring can be installed depends on the current ring only through the rotation rules.\<close>

lemma keyring_Replace_None_iff:
  assumes wf: "ring_wf k"
  shows "keyring_Replace E k a ks = (None, k') \<longleftrightarrow>
    NewKeyring E a ks = Inr k' \<and> may_follow E k k'"
proof (cases "ks = [] \<or> a = [] \<or> (\<nexists>nxt. build_ring [] ks = Inr nxt)")
  case True
  then show ?thesis
    unfolding NewKeyring_iff by (auto simp: keyring_Replace_def split: sum.splits if_splits)
next
  case False
  then obtain nxt where nxt: "build_ring [] ks = Inr nxt" by blast
  let ?k' = "\<lparr>kr_activeKID = a, kr_byKID = Some nxt\<rparr>"
  have k'_eq: "k0\<lparr>kr_activeKID := a, kr_byKID := Some nxt\<rparr> = ?k'" for k0 :: keyring
    by simp
  show ?thesis
  proof (cases "map_of nxt a")
    case None
    with False nxt show ?thesis unfolding NewKeyring_iff by (simp add: keyring_Replace_def)
  next
    case (Some s)
    have "alist_wf nxt" using build_ring_wf[OF nxt] by (simp add: alist_wf_def)
    moreover have "a \<in> fst ` set nxt" using Some by (rule map_of_SomeE)
    ultimately have wf': "ring_wf ?k'" by (simp add: ring_wf_def)
    have ring: "keyring_Replace E k0 a ks = (None, k') \<longleftrightarrow>
        k' = ?k' \<and> replace_check E k0 a nxt = None" for k0
      using False nxt Some by (auto simp: keyring_Replace_def k'_eq split: option.splits)
    have chk: "replace_check E k0 a nxt = None \<longleftrightarrow> may_follow E k0 ?k'" if "ring_wf k0" for k0
      using replace_check_None[of k0 a nxt E] that False wf' by (simp add: k'_eq)
    have "may_follow E empty_keyring ?k'"
      using False by (simp add: may_follow_def empty_keyring_def)
    then show ?thesis unfolding NewKeyring_iff
      by (auto simp: ring chk[OF wf] chk[OF ring_wf_empty])
  qed
qed

text \<open>What a ring signs, another ring's published set verifies, if it has the same public key.\<close>

lemma keyring_verifies:
  assumes "ring_wf k'" "ring_lookup k' (sg_kid s) = Some s'"
    and "signer_PublicJWK E s' = signer_PublicJWK E s"
    and "ed25519_laws E (sg_seed s)"
    and "codec_ok E \<lparr>h_alg = ''EdDSA'', h_typ = ''JWT'', h_kid = sg_kid s\<rparr> c"
  shows "VerifyKey E (signer_SignClaims E s c) (keyring_JWKS E (Some k'))
    = Inr (\<lparr>h_alg = ''EdDSA'', h_typ = ''JWT'', h_kid = sg_kid s\<rparr>, c, signer_PublicJWK E s)"
proof (rule sign_VerifyKey)
  show "sg_kid s \<noteq> []" using ring_lookup_kid(2)[OF assms(1,2)] .
  show "signer_PublicJWK E s \<in> set (keyring_JWKS E (Some k'))"
    unfolding keyring_JWKS_iff[OF assms(1)] using assms(2,3) by metis
qed (use assms keyring_JWKS_distinct in auto)

lemma keyring_active_some:
  "ring_wf k \<Longrightarrow> kr_activeKID k \<noteq> [] \<Longrightarrow> ring_lookup k (kr_activeKID k) \<noteq> None"
  by (erule ring_wf_cases) (simp_all add: ring_lookup_def)

lemma keyring_SignClaims_active:
  assumes "ring_wf k" "kr_activeKID k \<noteq> []"
  obtains s where "ring_lookup k (kr_activeKID k) = Some s" "sg_kid s = kr_activeKID k"
    "\<And>c. keyring_SignClaims E (Some k) c = Inr (signer_SignClaims E s c)"
proof -
  obtain s where s: "ring_lookup k (kr_activeKID k) = Some s"
    using assms(1) by (cases rule: ring_wf_cases) (use assms(2) in \<open>auto simp: ring_lookup_def\<close>)
  then have "keyring_SignClaims E (Some k) c = Inr (signer_SignClaims E s c)" for c
    by (simp add: keyring_SignClaims_def)
  with s ring_lookup_kid(1)[OF assms(1) s] that show ?thesis by blast
qed

text \<open>A ring verifies what it signed.\<close>

lemma keyring_sign_verifies:
  assumes "ring_wf k" "keyring_SignClaims E (Some k) c = Inr raw"
    and "ed25519_laws E (sg_seed (the (ring_lookup k (kr_activeKID k))))"
    and "codec_ok E \<lparr>h_alg = ''EdDSA'', h_typ = ''JWT'', h_kid = kr_activeKID k\<rparr> c"
  shows "\<exists>h. jws_Verify E raw (keyring_JWKS E (Some k)) = Inr (h, c)"
proof -
  from assms(2) obtain s where s: "ring_lookup k (kr_activeKID k) = Some s" "raw = signer_SignClaims E s c"
    by (auto simp: keyring_SignClaims_def split: option.splits)
  note kid = ring_lookup_kid(1)[OF assms(1) s(1)]
  have "VerifyKey E raw (keyring_JWKS E (Some k))
      = Inr (\<lparr>h_alg = ''EdDSA'', h_typ = ''JWT'', h_kid = sg_kid s\<rparr>, c, signer_PublicJWK E s)"
    unfolding s(2) by (rule keyring_verifies[of k s s]) (use assms s kid in simp_all)
  then show ?thesis by (blast intro: jws_VerifyI)
qed

section \<open>Rings of generated keys\<close>

lemma kf_kid_Generate [simp]: "kf_kid (GenerateEd25519 E seed kid) = kid"
  by (simp add: GenerateEd25519_def)

lemma build_ring_Generate:
  "length seed = 32 \<Longrightarrow> kid \<noteq> [] \<Longrightarrow> map_of nxt kid = None \<Longrightarrow>
    build_ring nxt (Some (GenerateEd25519 E seed kid) # fs) =
    build_ring (nxt @ [(kid, \<lparr>sg_seed = seed, sg_kid = kid, sg_sub = []\<rparr>)]) fs"
  by (simp add: SignerFromKeyFile_Generate)

definition example_key :: "claims list \<Rightarrow> char \<Rightarrow> bytes \<Rightarrow> keyfile option" where
  "example_key cs c kid = Some (GenerateEd25519 (example_env cs) (replicate 32 c) kid)"

definition example_ring :: "char list \<Rightarrow> bytes list \<Rightarrow> (bytes \<times> signer) list" where
  "example_ring seeds kids =
    map (\<lambda>(c, kid). (kid, \<lparr>sg_seed = replicate 32 c, sg_kid = kid, sg_sub = []\<rparr>)) (zip seeds kids)"

lemma example_build [simp]:
  "build_ring [] [example_key cs c ''k1''] = Inr (example_ring [c] [''k1''])"
  "build_ring [] [example_key cs c ''k1'', example_key cs d ''k2'']
    = Inr (example_ring [c, d] [''k1'', ''k2''])"
  by (simp_all add: example_key_def example_ring_def build_ring_Generate del: build_ring.simps(3))

lemma example_boot [simp]:
  "keyring_Replace E empty_keyring ''k1'' [example_key cs c ''k1'']
    = (None, \<lparr>kr_activeKID = ''k1'', kr_byKID = Some (example_ring [c] [''k1''])\<rparr>)"
  "keyring_Replace E empty_keyring ''k1'' [example_key cs c ''k1'', example_key cs d ''k2'']
    = (None, \<lparr>kr_activeKID = ''k1'', kr_byKID = Some (example_ring [c, d] [''k1'', ''k2''])\<rparr>)"
  by (simp_all add: keyring_Replace_def example_ring_def replace_check_def empty_keyring_def)

lemma example_ring_wf [simp]:
  "ring_wf \<lparr>kr_activeKID = ''k1'', kr_byKID = Some (example_ring [c] [''k1''])\<rparr>"
  "ring_wf \<lparr>kr_activeKID = ''k1'', kr_byKID = Some (example_ring [c, d] [''k1'', ''k2''])\<rparr>"
  by (simp_all add: ring_wf_def alist_wf_def example_ring_def)

lemma example_replace:
  "keyring_Replace E \<lparr>kr_activeKID = ''k1'', kr_byKID = Some (example_ring [c, d] [''k1'', ''k2''])\<rparr>
     ''k2'' [example_key cs c ''k1'', example_key cs d ''k2'']
    = (None, \<lparr>kr_activeKID = ''k2'', kr_byKID = Some (example_ring [c, d] [''k1'', ''k2''])\<rparr>)"
  by (simp add: keyring_Replace_def replace_check_def publicMaterialStable_def jwks_by_kid_def)
    (simp add: example_ring_def jwksFrom_def)

section \<open>Properties\<close>

text \<open>C26: Replacing the signing ring is all or nothing. On any error the ring is the one before. On
  success the new ring is well formed, its active kid has a key, every kid that stays published
  keeps its public key, and a new active kid was already published (preload, then activate).\<close>

theorem Replace_rotates_or_keeps:
  assumes "ring_wf k"
  shows "case keyring_Replace E k a ks of
      (Some e, k') \<Rightarrow> k' = k
    | (None, k') \<Rightarrow> ring_wf k' \<and> kr_activeKID k' = a \<and> ring_lookup k' a \<noteq> None \<and>
        (kr_activeKID k \<noteq> [] \<longrightarrow>
          (a = kr_activeKID k \<or> ring_lookup k a \<noteq> None) \<and>
          (\<forall>kid s s'. ring_lookup k kid = Some s \<and> ring_lookup k' kid = Some s' \<longrightarrow>
             signer_PublicJWK E s' = signer_PublicJWK E s))"
proof (cases "keyring_Replace E k a ks")
  case (Pair r k')
  show ?thesis
  proof (cases r)
    case (Some e)
    with Pair show ?thesis using keyring_Replace_error by auto
  next
    case None
    with Pair have ok: "keyring_Replace E k a ks = (None, k')" by simp
    note follows = keyring_Replace_follows[OF assms ok]
    then have "kr_activeKID k' \<noteq> []" by (auto simp: may_follow_def)
    then have "ring_lookup k' a \<noteq> None"
      using keyring_active_some[of k'] follows by auto
    with follows show ?thesis unfolding Pair None
      by (auto simp: may_follow_def rings_agree_def)
  qed
qed

theorem Replace_rotates_or_keeps_witness:
  "fst (keyring_Replace (example_env [])
     \<lparr>kr_activeKID = ''k1'', kr_byKID = Some (example_ring ''ab'' [''k1'', ''k2''])\<rparr>
     ''k2'' [example_key [] CHR ''a'' ''k1'', example_key [] CHR ''b'' ''k2'']) = None \<and>
   (case keyring_Replace (example_env [])
     \<lparr>kr_activeKID = ''k1'', kr_byKID = Some (example_ring ''ab'' [''k1'', ''k2''])\<rparr>
     ''k2'' [example_key [] CHR ''a'' ''k1'', example_key [] CHR ''b'' ''k2''] of
      (Some e, k') \<Rightarrow> False
    | (None, k') \<Rightarrow> ring_wf k' \<and> kr_activeKID k' = ''k2'' \<and> ring_lookup k' ''k2'' \<noteq> None)"
  using Replace_rotates_or_keeps[where k = "\<lparr>kr_activeKID = ''k1'', kr_byKID = Some (example_ring ''ab'' [''k1'', ''k2''])\<rparr>"
      and E = "example_env []" and a = "''k2''"
      and ks = "[example_key [] CHR ''a'' ''k1'', example_key [] CHR ''b'' ''k2'']"]
  by (simp add: example_replace)

text \<open>The two guards of a rotation agree: on a well-formed ring, \<^verbatim>\<open>Replace\<close> installs a ring exactly
  when the ring could be built on its own and \<^verbatim>\<open>AllowActivation\<close>, the guard of the STS, permits it
  to follow the current one.\<close>

theorem Replace_agrees_AllowActivation:
  assumes "ring_wf k"
  shows "keyring_Replace E k a ks = (None, k') \<longleftrightarrow>
    NewKeyring E a ks = Inr k' \<and> AllowActivation E (Some k) (Some k') = None"
  using keyring_Replace_None_iff[OF assms] AllowActivation_None[OF assms] NewKeyring_wf by metis

theorem Replace_agrees_AllowActivation_witness:
  "AllowActivation (example_env [])
     (Some \<lparr>kr_activeKID = ''k1'', kr_byKID = Some (example_ring ''ab'' [''k1'', ''k2''])\<rparr>)
     (Some \<lparr>kr_activeKID = ''k2'', kr_byKID = Some (example_ring ''ab'' [''k1'', ''k2''])\<rparr>) = None"
  using Replace_agrees_AllowActivation[where k = "\<lparr>kr_activeKID = ''k1'', kr_byKID = Some (example_ring ''ab'' [''k1'', ''k2''])\<rparr>"
      and E = "example_env []" and a = "''k2''"
      and ks = "[example_key [] CHR ''a'' ''k1'', example_key [] CHR ''b'' ''k2'']"
      and k' = "\<lparr>kr_activeKID = ''k2'', kr_byKID = Some (example_ring ''ab'' [''k1'', ''k2''])\<rparr>"]
  by (simp add: example_replace)

text \<open>Rotation does not break tokens in flight. If the key that was active before a successful
  replacement stays published, a token it signed verifies against the new key set, and a token the
  new ring signs already verifies against the key set published before, so caches of it stay good.\<close>

theorem rotation_overlap:
  assumes "ring_wf k" "kr_activeKID k \<noteq> []" "keyring_Replace E k a ks = (None, k')"
    and "ring_lookup k' (kr_activeKID k) \<noteq> None"
    and "\<forall>seed. ed25519_laws E seed"
    and "\<forall>kid. codec_ok E \<lparr>h_alg = ''EdDSA'', h_typ = ''JWT'', h_kid = kid\<rparr> c"
  shows "(\<exists>tok h. keyring_SignClaims E (Some k) c = Inr tok \<and>
            jws_Verify E tok (keyring_JWKS E (Some k')) = Inr (h, c)) \<and>
         (\<exists>tok h. keyring_SignClaims E (Some k') c = Inr tok \<and>
            jws_Verify E tok (keyring_JWKS E (Some k)) = Inr (h, c))"
proof -
  from keyring_Replace_follows[OF assms(1,3)]
  have wf': "ring_wf k'" and ne: "kr_activeKID k' \<noteq> []" and agree: "rings_agree E k k'"
    and act: "kr_activeKID k' = kr_activeKID k \<or> ring_lookup k (kr_activeKID k') \<noteq> None"
    using assms(2) by (auto simp: may_follow_def)
  obtain s where s: "ring_lookup k (kr_activeKID k) = Some s" "sg_kid s = kr_activeKID k"
    "\<And>c. keyring_SignClaims E (Some k) c = Inr (signer_SignClaims E s c)"
    using keyring_SignClaims_active[where E = E, OF assms(1,2)] by blast
  obtain t where t: "ring_lookup k' (kr_activeKID k') = Some t" "sg_kid t = kr_activeKID k'"
    "\<And>c. keyring_SignClaims E (Some k') c = Inr (signer_SignClaims E t c)"
    using keyring_SignClaims_active[where E = E, OF wf' ne] by blast
  obtain s' where s': "ring_lookup k' (sg_kid s) = Some s'" using assms(4) s(2) by auto
  obtain t' where t': "ring_lookup k (sg_kid t) = Some t'" using act s(1) t(2) by auto
  have "signer_PublicJWK E s' = signer_PublicJWK E s" "signer_PublicJWK E t' = signer_PublicJWK E t"
    using agree s(1,2) s' t(1,2) t' unfolding rings_agree_def by metis+
  note pub = this
  have "jws_Verify E (signer_SignClaims E s c) (keyring_JWKS E (Some k'))
      = Inr (\<lparr>h_alg = ''EdDSA'', h_typ = ''JWT'', h_kid = sg_kid s\<rparr>, c)"
    by (rule jws_VerifyI[OF keyring_verifies[OF wf' s' pub(1)]]) (use assms(5,6) in auto)
  moreover have "jws_Verify E (signer_SignClaims E t c) (keyring_JWKS E (Some k))
      = Inr (\<lparr>h_alg = ''EdDSA'', h_typ = ''JWT'', h_kid = sg_kid t\<rparr>, c)"
    by (rule jws_VerifyI[OF keyring_verifies[OF assms(1) t' pub(2)]]) (use assms(5,6) in auto)
  ultimately show ?thesis using s(3) t(3) by blast
qed

theorem rotation_overlap_witness:
  "\<exists>tok h. keyring_SignClaims (example_env [example_claims])
      (Some \<lparr>kr_activeKID = ''k2'', kr_byKID = Some (example_ring ''ab'' [''k1'', ''k2''])\<rparr>) example_claims
      = Inr tok \<and>
    jws_Verify (example_env [example_claims]) tok (keyring_JWKS (example_env [example_claims])
      (Some \<lparr>kr_activeKID = ''k1'', kr_byKID = Some (example_ring ''ab'' [''k1'', ''k2''])\<rparr>))
      = Inr (h, example_claims)"
proof -
  have "ring_lookup \<lparr>kr_activeKID = ''k2'', kr_byKID = Some (example_ring ''ab'' [''k1'', ''k2''])\<rparr> ''k1''
      \<noteq> None" by (simp add: ring_lookup_def example_ring_def)
  then show ?thesis
    using rotation_overlap[where k = "\<lparr>kr_activeKID = ''k1'', kr_byKID = Some (example_ring ''ab'' [''k1'', ''k2''])\<rparr>"
        and E = "example_env [example_claims]" and a = "''k2''"
        and ks = "[example_key [example_claims] CHR ''a'' ''k1'', example_key [example_claims] CHR ''b'' ''k2'']"
        and k' = "\<lparr>kr_activeKID = ''k2'', kr_byKID = Some (example_ring ''ab'' [''k1'', ''k2''])\<rparr>"
        and c = example_claims]
    by (simp add: example_replace)
qed

text \<open>A kid is protected only while it stays published. Once a replacement has dropped it, the next
  replacement can publish the same kid with another key, and a token of the old key that is still
  within its lifetime no longer selects its own key.\<close>

theorem kid_reused_after_removal:
  assumes "length s0 = 32" "length s1 = 32" "length s2 = 32"
    and "a \<noteq> []" "kid \<noteq> []" "kid \<noteq> a" "ed25519_Public E s1 \<noteq> ed25519_Public E s2"
  shows "\<exists>k1 k2 k3 old new.
    keyring_Replace E empty_keyring a
      [Some (GenerateEd25519 E s0 a), Some (GenerateEd25519 E s1 kid)] = (None, k1) \<and>
    keyring_Replace E k1 a [Some (GenerateEd25519 E s0 a)] = (None, k2) \<and>
    keyring_Replace E k2 a
      [Some (GenerateEd25519 E s0 a), Some (GenerateEd25519 E s2 kid)] = (None, k3) \<and>
    ring_lookup k1 kid = Some old \<and> ring_lookup k3 kid = Some new \<and>
    signer_PublicJWK E old \<noteq> signer_PublicJWK E new"
proof -
  let ?s = "\<lambda>s kid. \<lparr>sg_seed = s, sg_kid = kid, sg_sub = []\<rparr>"
  let ?r = "\<lambda>al. \<lparr>kr_activeKID = a, kr_byKID = Some al\<rparr>"
  have ne: "signer_PublicJWK E (?s s1 kid) \<noteq> signer_PublicJWK E (?s s2 kid)"
    using assms(7) B64Encode_inj by (auto simp: signer_PublicJWK_def dest: injD)
  have "keyring_Replace E empty_keyring a
      [Some (GenerateEd25519 E s0 a), Some (GenerateEd25519 E s1 kid)]
      = (None, ?r [(a, ?s s0 a), (kid, ?s s1 kid)])"
    using assms by (simp add: keyring_Replace_def replace_check_def empty_keyring_def
        SignerFromKeyFile_Generate)
  moreover have "keyring_Replace E (?r [(a, ?s s0 a), (kid, ?s s1 kid)]) a [Some (GenerateEd25519 E s0 a)]
      = (None, ?r [(a, ?s s0 a)])"
    using assms by (simp add: keyring_Replace_def replace_check_def publicMaterialStable_def
        jwks_by_kid_def jwksFrom_def SignerFromKeyFile_Generate)
  moreover have "keyring_Replace E (?r [(a, ?s s0 a)]) a
      [Some (GenerateEd25519 E s0 a), Some (GenerateEd25519 E s2 kid)]
      = (None, ?r [(a, ?s s0 a), (kid, ?s s2 kid)])"
    using assms by (simp add: keyring_Replace_def replace_check_def publicMaterialStable_def
        jwks_by_kid_def jwksFrom_def SignerFromKeyFile_Generate)
  moreover have "ring_lookup (?r [(a, ?s s0 a), (kid, ?s s1 kid)]) kid = Some (?s s1 kid)"
    "ring_lookup (?r [(a, ?s s0 a), (kid, ?s s2 kid)]) kid = Some (?s s2 kid)"
    using assms by (simp_all add: ring_lookup_def)
  ultimately show ?thesis using ne by blast
qed

theorem kid_reused_after_removal_witness:
  "\<exists>k1 k2 k3 old new.
    keyring_Replace (example_env []) empty_keyring ''a''
      [Some (GenerateEd25519 (example_env []) (replicate 32 CHR ''0'') ''a''),
       Some (GenerateEd25519 (example_env []) (replicate 32 CHR ''1'') ''k'')] = (None, k1) \<and>
    keyring_Replace (example_env []) k1 ''a''
      [Some (GenerateEd25519 (example_env []) (replicate 32 CHR ''0'') ''a'')] = (None, k2) \<and>
    keyring_Replace (example_env []) k2 ''a''
      [Some (GenerateEd25519 (example_env []) (replicate 32 CHR ''0'') ''a''),
       Some (GenerateEd25519 (example_env []) (replicate 32 CHR ''2'') ''k'')] = (None, k3) \<and>
    ring_lookup k1 ''k'' = Some old \<and> ring_lookup k3 ''k'' = Some new \<and>
    signer_PublicJWK (example_env []) old \<noteq> signer_PublicJWK (example_env []) new"
  by (rule kid_reused_after_removal) (simp_all add: example_env_def)

end
