(* ===== verification/Registry.thy ===== *)
theory Registry
  imports Go_Strings
begin

text \<open>
  \<^verbatim>\<open>internal/registry/registry.go\<close>: the registry of agents, its validation when it is loaded and the
  authorization of an agent on a workload for an audience at an instant.

  \<^verbatim>\<open>time.Parse(time.RFC3339, s)\<close> is the parameter \<open>P\<close>, \<open>None\<close> its error. The Go map \<^verbatim>\<open>byID\<close> is a map.
  The lemmas give the exact condition under which a document loads and the exact table of
  \<^verbatim>\<open>Authorize\<close>, error by error.
\<close>

datatype registry_error =
    Registry_ErrUnknownField | Registry_ErrInvalid | Registry_ErrDuplicateAgent
  | Registry_ErrEmptyID | Registry_ErrMaxDepth | Registry_ErrInvertedWindow
  | Registry_ErrTrailingJSON | Registry_ErrAgentNotFound | Registry_ErrNotAuthorized
  | Registry_ErrAudienceNotAllowed | Registry_ErrNotYetValid | Registry_ErrExpired

type_synonym parse_time = "bytes \<Rightarrow> instant option"

record agent =
  ag_ID :: bytes
  ag_Workloads :: "bytes list"
  ag_Audiences :: "bytes list"
  ag_MaxScopes :: "bytes list"
  ag_MaxDepth :: int
  ag_CreatedAt :: bytes
  ag_Expiry :: bytes

record registry_file =
  rf_Version :: int
  rf_Agents :: "agent list"

record registry =
  rg_Version :: int
  rg_byID :: "bytes \<rightharpoonup> agent"
  rg_Agents :: "agent list"

section \<open>Loading\<close>

definition parseTime :: "parse_time \<Rightarrow> bytes \<Rightarrow> instant option" where
  "parseTime P s = (if s = [] then Some zero_time else P s)"

definition validateAgent :: "parse_time \<Rightarrow> agent \<Rightarrow> registry_error option" where
  "validateAgent P a =
    (if is_blank (ag_ID a) then Some Registry_ErrEmptyID
     else if \<not> strings_Contains (ag_ID a) ''://'' then Some Registry_ErrInvalid
     else if ag_MaxDepth a < 1 then Some Registry_ErrMaxDepth
     else if ag_Workloads a = [] then Some Registry_ErrInvalid
     else if List.find is_blank (ag_Workloads a) \<noteq> None then Some Registry_ErrInvalid
     else if ag_Audiences a = [] then Some Registry_ErrInvalid
     else (case parseTime P (ag_CreatedAt a) of
       None \<Rightarrow> Some Registry_ErrInvalid
     | Some created \<Rightarrow> (case parseTime P (ag_Expiry a) of
         None \<Rightarrow> Some Registry_ErrInvalid
       | Some ex \<Rightarrow>
           if created \<noteq> zero_time \<and> ex \<noteq> zero_time \<and> \<not> ex > created
           then Some Registry_ErrInvertedWindow else None)))"

text \<open>The loop of \<^verbatim>\<open>New\<close> over the agents of the document.\<close>

fun index_agents :: "parse_time \<Rightarrow> registry \<Rightarrow> agent list \<Rightarrow> registry_error + registry" where
  "index_agents P r [] = Inr r"
| "index_agents P r (a # as) =
    (case validateAgent P a of
       Some e \<Rightarrow> Inl e
     | None \<Rightarrow>
         if rg_byID r (ag_ID a) \<noteq> None then Inl Registry_ErrDuplicateAgent
         else index_agents P
           (r\<lparr>rg_byID := (rg_byID r)(ag_ID a \<mapsto> a), rg_Agents := rg_Agents r @ [a]\<rparr>) as)"

definition registry_New :: "parse_time \<Rightarrow> registry_file \<Rightarrow> registry_error + registry" where
  "registry_New P f =
    (if rf_Version f \<noteq> 1 then Inl Registry_ErrInvalid
     else if rf_Agents f = [] then Inl Registry_ErrInvalid
     else index_agents P
       \<lparr>rg_Version = rf_Version f, rg_byID = Map.empty, rg_Agents = []\<rparr> (rf_Agents f))"

section \<open>Authorization\<close>

definition registry_Get :: "registry \<Rightarrow> bytes \<Rightarrow> agent option" where
  "registry_Get r aid = rg_byID r aid"

primrec contains :: "bytes list \<Rightarrow> bytes \<Rightarrow> bool" where
  "contains [] v \<longleftrightarrow> False"
| "contains (s # ss) v \<longleftrightarrow> (if s = v then True else contains ss v)"

definition ValidateAt :: "parse_time \<Rightarrow> agent \<Rightarrow> instant \<Rightarrow> registry_error option" where
  "ValidateAt P a now =
    (let not_before =
       (if ag_CreatedAt a \<noteq> [] then
          (case P (ag_CreatedAt a) of
             None \<Rightarrow> Some Registry_ErrInvalid
           | Some t \<Rightarrow> if now < t then Some Registry_ErrNotYetValid else None)
        else None)
     in case not_before of
       Some e \<Rightarrow> Some e
     | None \<Rightarrow>
         if ag_Expiry a \<noteq> [] then
           (case P (ag_Expiry a) of
              None \<Rightarrow> Some Registry_ErrInvalid
            | Some t \<Rightarrow> if \<not> now < t then Some Registry_ErrExpired else None)
         else None)"

definition Authorize ::
  "parse_time \<Rightarrow> registry \<Rightarrow> bytes \<Rightarrow> bytes \<Rightarrow> bytes \<Rightarrow> instant \<Rightarrow> registry_error + agent" where
  "Authorize P r agentID workload aud now =
    (case rg_byID r agentID of
       None \<Rightarrow> Inl Registry_ErrAgentNotFound
     | Some a \<Rightarrow>
         (case ValidateAt P a now of
            Some e \<Rightarrow> Inl e
          | None \<Rightarrow>
              if \<not> contains (ag_Workloads a) workload then Inl Registry_ErrNotAuthorized
              else if aud \<noteq> [] \<and> \<not> contains (ag_Audiences a) aud
                then Inl Registry_ErrAudienceNotAllowed
              else Inr a))"

section \<open>Lemmas\<close>

lemma contains_iff [simp]: "contains ss v \<longleftrightarrow> v \<in> set ss"
  by (induction ss) auto

text \<open>What \<^verbatim>\<open>validateAgent\<close> accepts.\<close>

definition agent_ok :: "parse_time \<Rightarrow> agent \<Rightarrow> bool" where
  "agent_ok P a \<longleftrightarrow>
    \<not> is_blank (ag_ID a) \<and> strings_Contains (ag_ID a) ''://'' \<and> 1 \<le> ag_MaxDepth a \<and>
    ag_Workloads a \<noteq> [] \<and> (\<forall>w \<in> set (ag_Workloads a). \<not> is_blank w) \<and> ag_Audiences a \<noteq> [] \<and>
    (\<exists>created ex. parseTime P (ag_CreatedAt a) = Some created \<and> parseTime P (ag_Expiry a) = Some ex \<and>
       (created = zero_time \<or> ex = zero_time \<or> created < ex))"

lemma validateAgent_None: "validateAgent P a = None \<longleftrightarrow> agent_ok P a"
  by (auto simp: validateAgent_def agent_ok_def find_None_iff_all split: option.splits)

definition by_ids :: "agent list \<Rightarrow> bytes \<rightharpoonup> agent" where
  "by_ids as = map_of (map (\<lambda>a. (ag_ID a, a)) as)"

lemma by_ids_Nil [simp]: "by_ids [] = Map.empty"
  by (simp add: by_ids_def)

lemma by_ids_Cons: "by_ids (a # as) = (by_ids as)(ag_ID a \<mapsto> a)"
  by (auto simp: by_ids_def)

lemma by_ids_None: "i \<notin> ag_ID ` set as \<Longrightarrow> by_ids as i = None"
  by (force simp: by_ids_def map_of_eq_None_iff)

lemma by_ids_SomeD: "by_ids as i = Some a \<Longrightarrow> a \<in> set as \<and> ag_ID a = i"
  by (auto simp: by_ids_def dest: map_of_SomeD)

lemma by_ids_distinct: "distinct (map ag_ID as) \<Longrightarrow> a \<in> set as \<Longrightarrow> by_ids as (ag_ID a) = Some a"
proof (induction as)
  case (Cons b as)
  show ?case
  proof (cases "a = b")
    case False
    with Cons.prems have "a \<in> set as" by simp
    then have "ag_ID a \<in> ag_ID ` set as" by (rule imageI)
    with Cons.prems have "ag_ID a \<noteq> ag_ID b" by auto
    with Cons \<open>a \<in> set as\<close> show ?thesis by (simp add: by_ids_Cons)
  qed (simp add: by_ids_Cons)
qed simp

lemma index_agents_Inr:
  "index_agents P r as = Inr r' \<longleftrightarrow>
    (\<forall>a \<in> set as. agent_ok P a) \<and> distinct (map ag_ID as) \<and>
    (\<forall>a \<in> set as. rg_byID r (ag_ID a) = None) \<and>
    r' = r\<lparr>rg_byID := rg_byID r ++ by_ids as, rg_Agents := rg_Agents r @ as\<rparr>"
proof (induction as arbitrary: r)
  case Nil
  then show ?case by auto
next
  case (Cons a as)
  let ?r = "r\<lparr>rg_byID := (rg_byID r)(ag_ID a \<mapsto> a), rg_Agents := rg_Agents r @ [a]\<rparr>"
  show ?case
  proof (cases "agent_ok P a \<and> rg_byID r (ag_ID a) = None")
    case False
    then show ?thesis
      by (cases "validateAgent P a") (auto simp: validateAgent_None[symmetric])
  next
    case True
    then have "validateAgent P a = None" by (simp only: validateAgent_None)
    then have step: "index_agents P r (a # as) = index_agents P ?r as" using True by simp
    have maps: "(rg_byID r)(ag_ID a \<mapsto> a) ++ by_ids as = rg_byID r ++ by_ids (a # as)"
      if "ag_ID a \<notin> ag_ID ` set as"
      using by_ids_None[OF that] by (auto simp: by_ids_Cons map_add_def fun_eq_iff split: option.split)
    show ?thesis
    proof (cases "ag_ID a \<in> ag_ID ` set as")
      case dup: True
      then have "\<not> (\<forall>b \<in> set as. rg_byID ?r (ag_ID b) = None)" by force
      with dup show ?thesis unfolding step Cons.IH by simp
    next
      case new: False
      then have "\<forall>b \<in> set as. ag_ID b \<noteq> ag_ID a" by (metis image_eqI)
      then have "(\<forall>b \<in> set as. rg_byID ?r (ag_ID b) = None)
          \<longleftrightarrow> (\<forall>b \<in> set as. rg_byID r (ag_ID b) = None)"
        by simp
      with new True maps[OF new] show ?thesis unfolding step Cons.IH by simp
    qed
  qed
qed

lemma registry_New_Inr:
  "registry_New P f = Inr r \<longleftrightarrow>
    rf_Version f = 1 \<and> rf_Agents f \<noteq> [] \<and> (\<forall>a \<in> set (rf_Agents f). agent_ok P a) \<and>
    distinct (map ag_ID (rf_Agents f)) \<and>
    r = \<lparr>rg_Version = 1, rg_byID = by_ids (rf_Agents f),
         rg_Agents = rf_Agents f\<rparr>"
  by (auto simp: registry_New_def index_agents_Inr)

lemma ValidateAt_None:
  "ValidateAt P a now = None \<longleftrightarrow>
    (ag_CreatedAt a = [] \<or> (\<exists>t. P (ag_CreatedAt a) = Some t \<and> t \<le> now)) \<and>
    (ag_Expiry a = [] \<or> (\<exists>t. P (ag_Expiry a) = Some t \<and> now < t))"
  by (auto simp: ValidateAt_def Let_def split: option.splits)

text \<open>An agent that was loaded has parsable dates, so at authorization they never fail.\<close>

lemma ValidateAt_loaded:
  assumes "agent_ok P a"
  shows "ValidateAt P a now \<in> {None, Some Registry_ErrNotYetValid, Some Registry_ErrExpired}"
  using assms by (auto simp: agent_ok_def parseTime_def ValidateAt_def Let_def split: if_splits)

lemma Authorize_Inr:
  "Authorize P r i w aud now = Inr a \<longleftrightarrow>
    rg_byID r i = Some a \<and> ValidateAt P a now = None \<and> w \<in> set (ag_Workloads a) \<and>
    (aud = [] \<or> aud \<in> set (ag_Audiences a))"
  by (auto simp: Authorize_def split: option.splits)

lemma registry_Get_loaded:
  assumes "registry_New P f = Inr r"
  shows "registry_Get r i = Some a \<longleftrightarrow> a \<in> set (rf_Agents f) \<and> ag_ID a = i"
proof -
  from assms have "distinct (map ag_ID (rf_Agents f))" "rg_byID r = by_ids (rf_Agents f)"
    by (simp_all add: registry_New_Inr)
  then show ?thesis unfolding registry_Get_def by (metis by_ids_SomeD by_ids_distinct)
qed

section \<open>Properties\<close>

text \<open>A registry document loads exactly when its version is 1, it has agents, their ids are
  distinct and every agent is valid (a non-blank URI id, depth at least 1, workloads none of them
  blank, audiences, parsable dates that are not inverted), and then the registry finds exactly the
  agents of the document by their ids.\<close>

theorem registry_New_loads:
  "(\<exists>r. registry_New P f = Inr r \<and>
      (\<forall>i a. registry_Get r i = Some a \<longleftrightarrow> a \<in> set (rf_Agents f) \<and> ag_ID a = i)) \<longleftrightarrow>
   rf_Version f = 1 \<and> rf_Agents f \<noteq> [] \<and> distinct (map ag_ID (rf_Agents f)) \<and>
   list_all (agent_ok P) (rf_Agents f)"
  using registry_Get_loaded by (auto simp: registry_New_Inr list_all_iff)

definition example_agent :: agent where
  "example_agent =
    \<lparr>ag_ID = ''agent://a'', ag_Workloads = [''wl-1''], ag_Audiences = [''agent://b''],
     ag_MaxScopes = [''read'', ''write''], ag_MaxDepth = 2, ag_CreatedAt = [], ag_Expiry = ''2030''\<rparr>"

definition example_time :: parse_time where
  "example_time s = (if s = ''2030'' then Some 1893456000000000000 else None)"

lemma example_agent_valid: "validateAgent example_time example_agent = None"
  by code_simp

text \<open>The answer of an authorization, error by error and in the order of the checks: an unknown
  agent, a date window not begun or over, a workload that is not listed, an audience that is not
  allowed; otherwise the registered agent. Of a loaded registry there is no other error.\<close>

theorem Authorize_table:
  assumes "registry_New P f = Inr r"
  shows "Authorize P r i w aud now =
    (case registry_Get r i of
       None \<Rightarrow> Inl Registry_ErrAgentNotFound
     | Some a \<Rightarrow>
         if ag_CreatedAt a \<noteq> [] \<and> now < the (P (ag_CreatedAt a)) then Inl Registry_ErrNotYetValid
         else if ag_Expiry a \<noteq> [] \<and> the (P (ag_Expiry a)) \<le> now then Inl Registry_ErrExpired
         else if w \<notin> set (ag_Workloads a) then Inl Registry_ErrNotAuthorized
         else if aud \<noteq> [] \<and> aud \<notin> set (ag_Audiences a) then Inl Registry_ErrAudienceNotAllowed
         else Inr a)"
proof (cases "rg_byID r i")
  case None
  then show ?thesis by (simp add: Authorize_def registry_Get_def)
next
  case (Some a)
  with assms have "a \<in> set (rf_Agents f)" by (auto simp: registry_New_Inr dest: by_ids_SomeD)
  with assms have "agent_ok P a" by (simp add: registry_New_Inr)
  with Some show ?thesis
    by (auto simp: Authorize_def registry_Get_def ValidateAt_def agent_ok_def parseTime_def Let_def
        split: if_splits)
qed

theorem Authorize_table_witness:
  "Authorize example_time
     \<lparr>rg_Version = 1, rg_byID = [''agent://a'' \<mapsto> example_agent], rg_Agents = [example_agent]\<rparr>
     ''agent://a'' ''wl-1'' ''agent://b'' 0 = Inr example_agent"
proof -
  have "registry_New example_time \<lparr>rf_Version = 1, rf_Agents = [example_agent]\<rparr>
    = Inr \<lparr>rg_Version = 1, rg_byID = [''agent://a'' \<mapsto> example_agent], rg_Agents = [example_agent]\<rparr>"
    by (simp add: registry_New_Inr by_ids_Cons example_agent_valid flip: validateAgent_None)
      (simp add: example_agent_def)
  from Authorize_table[OF this, of "''agent://a''" "''wl-1''" "''agent://b''" 0] show ?thesis
    by (simp add: registry_Get_def example_agent_def example_time_def)
qed

end
