(* ===== verification/Denylist.thy ===== *)
theory Denylist
  imports Go_Strings
begin

text \<open>
  \<^verbatim>\<open>internal/denylist/denylist.go\<close>: the denied agents, workloads and principals, their validation when
  a document is loaded and the checks of the STS (\<^verbatim>\<open>DenyExchange\<close>) and of the gateway (\<^verbatim>\<open>DenyChain\<close>).

  A nil \<^verbatim>\<open>*List\<close> is \<open>None\<close>, which denies nothing. \<^verbatim>\<open>url.Parse\<close> is the parameter \<open>U\<close>: the scheme and
  the host of the parsed URL, or \<open>None\<close> on its error. The lemmas show that a loaded list denies
  exactly the ids of its document, in the order of the checks.
\<close>

datatype denylist_error =
    Denylist_ErrInvalid | Denylist_ErrTrailing | Denylist_ErrUnknown | Denylist_ErrDuplicate
  | Denylist_ErrEmptyID

definition ReasonAgentDenied :: bytes where "ReasonAgentDenied = ''agent_denied''"
definition ReasonWorkloadDenied :: bytes where "ReasonWorkloadDenied = ''workload_denied''"
definition ReasonPrincipalDenied :: bytes where "ReasonPrincipalDenied = ''principal_denied''"
definition ReasonUnavailable :: bytes where "ReasonUnavailable = ''denylist_unavailable''"

type_synonym parse_url = "bytes \<Rightarrow> (bytes \<times> bytes) option"

record denylist_file =
  df_Version :: int
  df_Agents :: "bytes list"
  df_Workloads :: "bytes list"
  df_Principals :: "bytes list"

record denylist =
  dl_agents :: "bytes set"
  dl_workloads :: "bytes set"
  dl_principals :: "bytes set"

section \<open>Loading\<close>

definition identityID :: "bytes \<Rightarrow> denylist_error option" where
  "identityID i = (if i = [] then Some Denylist_ErrEmptyID
    else if \<not> no_space i then Some Denylist_ErrEmptyID else None)"

definition identityURI :: "parse_url \<Rightarrow> bytes \<Rightarrow> denylist_error option" where
  "identityURI U i =
    (case U i of
       None \<Rightarrow> Some Denylist_ErrInvalid
     | Some (scheme, host) \<Rightarrow> if scheme = [] \<or> host = [] then Some Denylist_ErrInvalid else None)"

fun indexURI :: "parse_url \<Rightarrow> bytes set \<Rightarrow> bytes list \<Rightarrow> denylist_error + bytes set" where
  "indexURI U dst [] = Inr dst"
| "indexURI U dst (i # ids) =
    (if identityID i \<noteq> None then Inl Denylist_ErrEmptyID
     else if identityURI U i \<noteq> None then Inl Denylist_ErrInvalid
     else if i \<in> dst then Inl Denylist_ErrDuplicate
     else indexURI U (insert i dst) ids)"

fun indexExact :: "bytes set \<Rightarrow> bytes list \<Rightarrow> denylist_error + bytes set" where
  "indexExact dst [] = Inr dst"
| "indexExact dst (i # ids) =
    (if identityID i \<noteq> None then Inl Denylist_ErrEmptyID
     else if i \<in> dst then Inl Denylist_ErrDuplicate
     else indexExact (insert i dst) ids)"

definition denylist_New :: "parse_url \<Rightarrow> denylist_file \<Rightarrow> denylist_error + denylist" where
  "denylist_New U f =
    (if df_Version f \<noteq> 1 then Inl Denylist_ErrInvalid
     else (case indexURI U {} (df_Agents f) of
       Inl e \<Rightarrow> Inl e
     | Inr ags \<Rightarrow> (case indexURI U {} (df_Workloads f) of
         Inl e \<Rightarrow> Inl e
       | Inr wls \<Rightarrow> (case indexExact {} (df_Principals f) of
           Inl e \<Rightarrow> Inl e
         | Inr prs \<Rightarrow> Inr \<lparr>dl_agents = ags, dl_workloads = wls, dl_principals = prs\<rparr>))))"

section \<open>Checks\<close>

definition dl_has :: "bytes set \<Rightarrow> bytes \<Rightarrow> bool" where
  "dl_has m i \<longleftrightarrow> (if i = [] then False else i \<in> m)"

definition HasAgent :: "denylist option \<Rightarrow> bytes \<Rightarrow> bool" where
  "HasAgent d i \<longleftrightarrow> (case d of None \<Rightarrow> False | Some l \<Rightarrow> dl_has (dl_agents l) i)"

definition HasWorkload :: "denylist option \<Rightarrow> bytes \<Rightarrow> bool" where
  "HasWorkload d i \<longleftrightarrow> (case d of None \<Rightarrow> False | Some l \<Rightarrow> dl_has (dl_workloads l) i)"

definition HasPrincipal :: "denylist option \<Rightarrow> bytes \<Rightarrow> bool" where
  "HasPrincipal d i \<longleftrightarrow> (case d of None \<Rightarrow> False | Some l \<Rightarrow> dl_has (dl_principals l) i)"

definition DenyExchange :: "denylist option \<Rightarrow> bytes \<Rightarrow> bytes \<Rightarrow> bytes \<Rightarrow> bytes" where
  "DenyExchange d agentID workload prin =
    (if d = None then []
     else if HasAgent d agentID then ReasonAgentDenied
     else if HasWorkload d workload then ReasonWorkloadDenied
     else if HasPrincipal d prin then ReasonPrincipalDenied
     else [])"

text \<open>The loop over the hops, from position \<open>i\<close>; position 0 is the principal's.\<close>

fun deny_hops :: "denylist option \<Rightarrow> nat \<Rightarrow> bytes list \<Rightarrow> bytes" where
  "deny_hops d i [] = []"
| "deny_hops d i (h # hops) =
    (if h = [] \<or> i = 0 then deny_hops d (Suc i) hops
     else if HasAgent d h then ReasonAgentDenied
     else deny_hops d (Suc i) hops)"

definition DenyChain :: "denylist option \<Rightarrow> bytes \<Rightarrow> bytes \<Rightarrow> bytes list \<Rightarrow> bytes" where
  "DenyChain d prin acting hops =
    (if d = None then []
     else if HasPrincipal d prin then ReasonPrincipalDenied
     else if HasAgent d acting then ReasonAgentDenied
     else deny_hops d 0 hops)"

section \<open>Lemmas\<close>

lemma has_None [simp]:
  "\<not> HasAgent None i" "\<not> HasWorkload None i" "\<not> HasPrincipal None i"
  by (simp_all add: HasAgent_def HasWorkload_def HasPrincipal_def)

lemma deny_hops_Suc:
  "deny_hops d (Suc i) hops = (if \<exists>h \<in> set hops. HasAgent d h then ReasonAgentDenied else [])"
proof -
  have "\<not> HasAgent d []" by (simp add: HasAgent_def dl_has_def split: option.split)
  then show ?thesis by (induction hops arbitrary: i) auto
qed

lemma deny_hops_0:
  "deny_hops d 0 hops = (if \<exists>h \<in> set (tl hops). HasAgent d h then ReasonAgentDenied else [])"
  by (cases hops) (simp_all add: deny_hops_Suc)

definition uri_id :: "parse_url \<Rightarrow> bytes \<Rightarrow> bool" where
  "uri_id U i \<longleftrightarrow> is_word i \<and> (\<exists>s h. U i = Some (s, h) \<and> s \<noteq> [] \<and> h \<noteq> [])"

lemma identityID_None: "identityID i = None \<longleftrightarrow> is_word i"
  by (simp add: identityID_def is_word_def)

lemma identityURI_None: "identityURI U i = None \<longleftrightarrow> (\<exists>s h. U i = Some (s, h) \<and> s \<noteq> [] \<and> h \<noteq> [])"
  by (auto simp: identityURI_def split: option.splits)

lemma indexURI_Inr:
  "indexURI U dst ids = Inr m \<longleftrightarrow>
    list_all (uri_id U) ids \<and> distinct ids \<and> set ids \<inter> dst = {} \<and> m = dst \<union> set ids"
proof (induction ids arbitrary: dst)
  case (Cons i ids)
  have "identityID i = None \<and> identityURI U i = None \<longleftrightarrow> uri_id U i"
    by (simp add: identityID_None identityURI_None uri_id_def)
  with Cons show ?case by auto
qed auto

lemma indexExact_Inr:
  "indexExact dst ids = Inr m \<longleftrightarrow>
    list_all is_word ids \<and> distinct ids \<and> set ids \<inter> dst = {} \<and> m = dst \<union> set ids"
  by (induction ids arbitrary: dst) (auto simp: identityID_None[symmetric])

lemma denylist_New_Inr:
  "denylist_New U f = Inr d \<longleftrightarrow>
    df_Version f = 1 \<and> list_all (uri_id U) (df_Agents f) \<and> distinct (df_Agents f) \<and>
    list_all (uri_id U) (df_Workloads f) \<and> distinct (df_Workloads f) \<and>
    list_all is_word (df_Principals f) \<and> distinct (df_Principals f) \<and>
    d = \<lparr>dl_agents = set (df_Agents f), dl_workloads = set (df_Workloads f),
         dl_principals = set (df_Principals f)\<rparr>"
proof -
  have "df_Version f = 1 \<Longrightarrow> denylist_New U f = Inr d \<longleftrightarrow>
    (\<exists>ags wls prs. indexURI U {} (df_Agents f) = Inr ags \<and> indexURI U {} (df_Workloads f) = Inr wls \<and>
      indexExact {} (df_Principals f) = Inr prs \<and>
      d = \<lparr>dl_agents = ags, dl_workloads = wls, dl_principals = prs\<rparr>)"
    by (auto simp: denylist_New_def split: sum.splits)
  moreover have "df_Version f \<noteq> 1 \<Longrightarrow> denylist_New U f = Inl Denylist_ErrInvalid"
    by (simp add: denylist_New_def)
  ultimately show ?thesis by (cases "df_Version f = 1") (auto simp: indexURI_Inr indexExact_Inr)
qed

lemma denylist_has:
  assumes "denylist_New U f = Inr d"
  shows "HasAgent (Some d) i \<longleftrightarrow> i \<in> set (df_Agents f)"
    and "HasWorkload (Some d) i \<longleftrightarrow> i \<in> set (df_Workloads f)"
    and "HasPrincipal (Some d) i \<longleftrightarrow> i \<in> set (df_Principals f)"
  using assms
  by (auto simp: denylist_New_Inr HasAgent_def HasWorkload_def HasPrincipal_def dl_has_def
      list_all_iff uri_id_def is_word_def)

section \<open>Properties\<close>

text \<open>A denylist that was loaded denies exactly what its document lists: an exchange is refused for
  the agent first, then the workload, then the principal, and a presented chain for its principal,
  its acting agent or any later hop in an agent's position; the first hop is the principal's
  position and is never taken for an agent. Without a denylist nothing is denied.\<close>

theorem denylist_exact:
  assumes "denylist_New U f = Inr d"
  shows "DenyExchange (Some d) a w p =
      (if a \<in> set (df_Agents f) then ReasonAgentDenied
       else if w \<in> set (df_Workloads f) then ReasonWorkloadDenied
       else if p \<in> set (df_Principals f) then ReasonPrincipalDenied else []) \<and>
    DenyChain (Some d) p a hops =
      (if p \<in> set (df_Principals f) then ReasonPrincipalDenied
       else if a \<in> set (df_Agents f) \<or> set (tl hops) \<inter> set (df_Agents f) \<noteq> {} then ReasonAgentDenied
       else []) \<and>
    DenyExchange None a w p = [] \<and> DenyChain None p a hops = []"
  by (auto simp: DenyExchange_def DenyChain_def deny_hops_0 denylist_has[OF assms])

theorem denylist_exact_witness:
  "DenyChain (Some \<lparr>dl_agents = {''agent://bad''}, dl_workloads = {}, dl_principals = {''eve''}\<rparr>)
     ''alice'' ''agent://a'' [''alice'', ''agent://bad''] = ReasonAgentDenied"
proof -
  have "no_space ''agent://bad''" "no_space ''eve''" by code_simp+
  then have "denylist_New (\<lambda>_. Some (''agent'', ''h''))
      \<lparr>df_Version = 1, df_Agents = [''agent://bad''], df_Workloads = [], df_Principals = [''eve'']\<rparr>
    = Inr \<lparr>dl_agents = {''agent://bad''}, dl_workloads = {}, dl_principals = {''eve''}\<rparr>"
    by (simp add: denylist_New_Inr uri_id_def is_word_def)
  from denylist_exact[OF this, of "''agent://a''" "[]" "''alice''" "[''alice'', ''agent://bad'']"]
  show ?thesis by simp
qed

end
