(* ===== verification/Attest.thy ===== *)
theory Attest
  imports Jws
begin

text \<open>
  \<^verbatim>\<open>internal/attest/attest.go\<close>: the workload attestors, which turn an actor token into the identity of
  the workload that presents it.

  The interface \<^verbatim>\<open>WorkloadAttestor\<close> has three implementations, the constructors of \<open>attestor\<close>. A clock
  field is the reading of the clock at the call, \<open>None\<close> for the nil function; \<^verbatim>\<open>KeysFn\<close> is likewise the
  result of its call, an error text or a key set.

  The locale \<open>attestor_contract\<close> states what the STS relies on: an attested identity is the subject of
  a token signed under a configured key, and a possessed key thumbprint is that of a key bound to the
  workload. It is interpreted on the attestors of the code.
\<close>

datatype attest_error = Attest_ErrUnattested | Attest_ErrAudience | Attest_ErrExpired

record workload_identity =
  wi_ID :: bytes
  wi_Issuer :: bytes
  wi_JTI :: bytes
  wi_PossessedJKT :: bytes

section \<open>LocalKeys\<close>

record local_keys =
  lk_Keys :: jwks
  lk_Audience :: bytes
  lk_Now :: "int option"

definition LocalKeys_keys :: "local_keys option \<Rightarrow> attest_error + jwks" where
  "LocalKeys_keys l =
    (case l of
       None \<Rightarrow> Inl Attest_ErrUnattested
     | Some k \<Rightarrow> if lk_Keys k = [] then Inl Attest_ErrUnattested else Inr (lk_Keys k))"

definition LocalKeys_Ready :: "local_keys option \<Rightarrow> attest_error option" where
  "LocalKeys_Ready l = (case LocalKeys_keys l of Inl e \<Rightarrow> Some e | Inr ks \<Rightarrow> None)"

definition LocalKeys_Attest ::
  "('a token_env_scheme) \<Rightarrow> local_keys option \<Rightarrow> bytes \<Rightarrow> attest_error + workload_identity" where
  "LocalKeys_Attest E l actorToken =
    (case LocalKeys_keys l of
       Inl e \<Rightarrow> Inl Attest_ErrUnattested
     | Inr ks \<Rightarrow> (case VerifyKey E actorToken ks of
         Inl e \<Rightarrow> Inl Attest_ErrUnattested
       | Inr (h, c, j) \<Rightarrow>
           if ValidateSubject c \<noteq> None then Inl Attest_ErrUnattested
           else if is_blank (k_sub j) \<or> k_sub j \<noteq> c_sub c then Inl Attest_ErrUnattested
           else if lk_Audience (the l) \<noteq> [] \<and> \<not> aud_Contains (c_aud c) (lk_Audience (the l))
             then Inl Attest_ErrAudience
           else if (case lk_Now (the l) of None \<Rightarrow> False | Some now \<Rightarrow> c_exp c = 0 \<or> now > c_exp c)
             then Inl Attest_ErrExpired
           else (case Thumbprint E j of
             Inl e \<Rightarrow> Inl Attest_ErrUnattested
           | Inr jkt \<Rightarrow> Inr \<lparr>wi_ID = c_sub c, wi_Issuer = c_iss c, wi_JTI = c_jti c,
                             wi_PossessedJKT = jkt\<rparr>)))"

section \<open>SPIFFEJWT\<close>

record spiffe_jwt =
  sp_Bundle :: jwks
  sp_KeysFn :: "(bytes + jwks) option"
  sp_Audience :: bytes
  sp_Issuer :: bytes
  sp_Now :: "int option"

definition SPIFFE_keys :: "spiffe_jwt option \<Rightarrow> (attest_error + bytes) + jwks" where
  "SPIFFE_keys s =
    (case s of
       None \<Rightarrow> Inl (Inl Attest_ErrUnattested)
     | Some p \<Rightarrow> (case sp_KeysFn p of
         Some (Inl e) \<Rightarrow> Inl (Inr e)
       | Some (Inr ks) \<Rightarrow> Inr ks
       | None \<Rightarrow> if sp_Bundle p = [] then Inl (Inl Attest_ErrUnattested) else Inr (sp_Bundle p)))"

definition SPIFFE_Ready :: "spiffe_jwt option \<Rightarrow> (attest_error + bytes) option" where
  "SPIFFE_Ready s = (case SPIFFE_keys s of Inl e \<Rightarrow> Some e | Inr ks \<Rightarrow> None)"

definition SPIFFE_Attest ::
  "('a token_env_scheme) \<Rightarrow> spiffe_jwt option \<Rightarrow> bytes \<Rightarrow> attest_error + workload_identity" where
  "SPIFFE_Attest E s actorToken =
    (case SPIFFE_keys s of
       Inl e \<Rightarrow> Inl Attest_ErrUnattested
     | Inr ks \<Rightarrow> (case VerifyKey E actorToken ks of
         Inl e \<Rightarrow> Inl Attest_ErrUnattested
       | Inr (h, c, j) \<Rightarrow>
           if ValidateSubject c \<noteq> None then Inl Attest_ErrUnattested
           else if \<not> prefix ''spiffe://'' (c_sub c) then Inl Attest_ErrUnattested
           else if sp_Issuer (the s) \<noteq> [] \<and> ValidateIssuer c (sp_Issuer (the s)) \<noteq> None
             then Inl Attest_ErrUnattested
           else if sp_Audience (the s) \<noteq> [] \<and> \<not> aud_Contains (c_aud c) (sp_Audience (the s))
             then Inl Attest_ErrAudience
           else if (case sp_Now (the s) of None \<Rightarrow> False | Some now \<Rightarrow> c_exp c = 0 \<or> now > c_exp c)
             then Inl Attest_ErrExpired
           else Inr \<lparr>wi_ID = c_sub c, wi_Issuer = c_iss c, wi_JTI = c_jti c, wi_PossessedJKT = []\<rparr>))"

section \<open>FirstSuccessful\<close>

datatype attestor =
    Att_LocalKeys "local_keys option" | Att_SPIFFE "spiffe_jwt option" | Att_First "attestor list"

text \<open>\<open>attest_first\<close> is the loop of \<^verbatim>\<open>FirstSuccessful\<close>, with the last error seen so far.\<close>

fun Attest ::
  "('a token_env_scheme) \<Rightarrow> attestor \<Rightarrow> bytes \<Rightarrow> attest_error + workload_identity"
and attest_first ::
  "('a token_env_scheme) \<Rightarrow> attestor list \<Rightarrow> bytes \<Rightarrow> attest_error option \<Rightarrow>
    attest_error + workload_identity" where
  "Attest E (Att_LocalKeys l) tok = LocalKeys_Attest E l tok"
| "Attest E (Att_SPIFFE s) tok = SPIFFE_Attest E s tok"
| "Attest E (Att_First as) tok = attest_first E as tok None"
| "attest_first E [] tok prv =
    (case prv of None \<Rightarrow> Inl Attest_ErrUnattested | Some e \<Rightarrow> Inl e)"
| "attest_first E (a # as) tok prv =
    (case Attest E a tok of Inr i \<Rightarrow> Inr i | Inl e \<Rightarrow> attest_first E as tok (Some e))"

text \<open>\<^verbatim>\<open>Ready\<close>: the first attestor that is not ready decides; all three kinds have the method.\<close>

fun Ready :: "attestor \<Rightarrow> (attest_error + bytes) option"
and ready_first :: "attestor list \<Rightarrow> (attest_error + bytes) option" where
  "Ready (Att_LocalKeys l) = map_option Inl (LocalKeys_Ready l)"
| "Ready (Att_SPIFFE s) = SPIFFE_Ready s"
| "Ready (Att_First as) = ready_first as"
| "ready_first [] = None"
| "ready_first (a # as) = (case Ready a of Some e \<Rightarrow> Some e | None \<Rightarrow> ready_first as)"

text \<open>The key sets an attestor trusts.\<close>

fun trusted_sets :: "attestor \<Rightarrow> jwks list" where
  "trusted_sets (Att_LocalKeys l) = (case LocalKeys_keys l of Inl e \<Rightarrow> [] | Inr ks \<Rightarrow> [ks])"
| "trusted_sets (Att_SPIFFE s) = (case SPIFFE_keys s of Inl e \<Rightarrow> [] | Inr ks \<Rightarrow> [ks])"
| "trusted_sets (Att_First as) = concat (map trusted_sets as)"

section \<open>The contract\<close>

text \<open>
  \<open>vouches E keysets tok wi\<close>: a key of one of the sets signed \<open>tok\<close>, the workload is its non-blank
  subject, and a possessed thumbprint is that of the signing key, which names the workload.
\<close>

definition vouches ::
  "('a token_env_scheme) \<Rightarrow> jwks list \<Rightarrow> bytes \<Rightarrow> workload_identity \<Rightarrow> bool" where
  "vouches E keysets tok wi \<longleftrightarrow>
    (\<exists>ks h c j. ks \<in> set keysets \<and> signed_as E tok ks h c j \<and>
       wi_ID wi = c_sub c \<and> wi_Issuer wi = c_iss c \<and> wi_JTI wi = c_jti c \<and> \<not> is_blank (c_sub c) \<and>
       (wi_PossessedJKT wi \<noteq> [] \<longrightarrow> k_sub j = c_sub c \<and> Thumbprint E j = Inr (wi_PossessedJKT wi)))"

lemma vouches_mono: "vouches E xs tok wi \<Longrightarrow> set xs \<subseteq> set ys \<Longrightarrow> vouches E ys tok wi"
  unfolding vouches_def by blast

locale attestor_contract =
  fixes env :: "'a token_env_scheme"
    and attest :: "bytes \<Rightarrow> attest_error + workload_identity"
    and sets :: "jwks list"
  assumes sound: "attest tok = Inr wi \<Longrightarrow> vouches env sets tok wi"
begin

lemma attested_not_blank: "attest tok = Inr wi \<Longrightarrow> \<not> is_blank (wi_ID wi)"
  by (drule sound) (auto simp: vouches_def)

text \<open>Two identities attested with the same possessed key set entry are the same workload.\<close>

lemma possessed_key_bound:
  assumes "attest tok = Inr wi" "wi_PossessedJKT wi \<noteq> []"
  obtains ks j where "ks \<in> set sets" "j \<in> set ks" "k_sub j = wi_ID wi"
    "Thumbprint env j = Inr (wi_PossessedJKT wi)"
  using sound[OF assms(1)] assms(2) that unfolding vouches_def
  by (metis signed_as_key)

lemma no_keys_no_identity: "\<forall>ks \<in> set sets. ks = [] \<Longrightarrow> attest tok \<noteq> Inr wi"
  by (fastforce simp: vouches_def dest!: sound signed_as_key)

end

lemma LocalKeys_vouches:
  assumes "LocalKeys_Attest E l tok = Inr wi"
  shows "vouches E (trusted_sets (Att_LocalKeys l)) tok wi"
  using assms
  by (fastforce simp: LocalKeys_Attest_def vouches_def VerifyKey_Inr_iff ValidateSubject_def
      split: sum.splits option.splits if_splits)

lemma SPIFFE_vouches:
  assumes "SPIFFE_Attest E s tok = Inr wi"
  shows "vouches E (trusted_sets (Att_SPIFFE s)) tok wi"
  using assms
  by (fastforce simp: SPIFFE_Attest_def vouches_def VerifyKey_Inr_iff ValidateSubject_def
      split: sum.splits option.splits if_splits)

lemma Attest_vouches:
  "Attest E a tok = Inr wi \<Longrightarrow> vouches E (trusted_sets a) tok wi"
  "attest_first E as tok prv = Inr wi \<Longrightarrow> vouches E (concat (map trusted_sets as)) tok wi"
proof (induction E a tok and E as tok prv rule: Attest_attest_first.induct)
  case (5 E a as tok prv)
  then show ?case by (auto split: sum.splits intro: vouches_mono)
qed (simp_all add: LocalKeys_vouches SPIFFE_vouches del: trusted_sets.simps(1,2) split: option.splits)

interpretation atts: attestor_contract E "Attest E a" "trusted_sets a" for E a
  by unfold_locales (rule Attest_vouches)

interpretation local_atts: attestor_contract E "LocalKeys_Attest E l" "trusted_sets (Att_LocalKeys l)" for E l
  by unfold_locales (rule LocalKeys_vouches)

interpretation spiffe_atts: attestor_contract E "SPIFFE_Attest E s" "trusted_sets (Att_SPIFFE s)" for E s
  by unfold_locales (rule SPIFFE_vouches)

section \<open>Properties\<close>

lemma attest_first_cases:
  "attest_first E as tok prv =
    (case filter (\<lambda>a. is_ok (Attest E a tok)) as of
       a # _ \<Rightarrow> Attest E a tok
     | [] \<Rightarrow> (if as = [] then (case prv of None \<Rightarrow> Inl Attest_ErrUnattested | Some e \<Rightarrow> Inl e)
             else Attest E (last as) tok))"
  by (induction as arbitrary: prv) (auto split: sum.splits list.splits)

text \<open>C39: An attested workload is vouched for: whatever combination of attestors is configured, the
  identity is the non-blank subject of a token whose signature verifies under one of their key sets,
  and if a possessed key is reported it is the thumbprint of the very key that signed, which is
  bound to that workload. SPIFFE identities never report one.\<close>

theorem Attest_sound:
  assumes "Attest E a tok = Inr wi"
  shows "(\<exists>ks h c j. ks \<in> set (trusted_sets a) \<and> VerifyKey E tok ks = Inr (h, c, j) \<and>
      c_sub c = wi_ID wi \<and> \<not> is_blank (wi_ID wi) \<and>
      (wi_PossessedJKT wi = [] \<or> Thumbprint E j = Inr (wi_PossessedJKT wi) \<and> k_sub j = wi_ID wi)) \<and>
    ((\<exists>s. a = Att_SPIFFE s) \<longrightarrow> wi_PossessedJKT wi = [] \<and> prefix ''spiffe://'' (wi_ID wi))"
proof -
  have "wi_PossessedJKT wi = [] \<and> prefix ''spiffe://'' (wi_ID wi)" if "a = Att_SPIFFE s" for s
    using assms that by (auto simp: SPIFFE_Attest_def split: sum.splits option.splits if_splits)
  moreover from atts.sound[OF assms] obtain ks h c j where
    "ks \<in> set (trusted_sets a)" "signed_as E tok ks h c j" "wi_ID wi = c_sub c" "\<not> is_blank (c_sub c)"
    "wi_PossessedJKT wi \<noteq> [] \<longrightarrow> k_sub j = c_sub c \<and> Thumbprint E j = Inr (wi_PossessedJKT wi)"
    unfolding vouches_def by blast
  ultimately show ?thesis unfolding VerifyKey_Inr_iff by metis
qed

text \<open>A workload key of the example, bound to its workload.\<close>

definition example_workload_key :: "bytes \<Rightarrow> signer" where
  "example_workload_key wl = \<lparr>sg_seed = replicate 32 CHR ''w'', sg_kid = ''w1'', sg_sub = wl\<rparr>"

definition example_actor_claims :: claims where
  "example_actor_claims = example_claims\<lparr>c_iss := ''wl-1'', c_sub := ''wl-1'', c_aud := [''sts'']\<rparr>"

definition example_attestor :: "claims list \<Rightarrow> attestor" where
  "example_attestor cs = Att_First [Att_SPIFFE None,
    Att_LocalKeys (Some \<lparr>lk_Keys = [signer_PublicJWK (example_env cs) (example_workload_key ''wl-1'')],
                         lk_Audience = ''sts'', lk_Now = Some 500\<rparr>)]"

definition example_jkt :: "claims list \<Rightarrow> bytes" where
  "example_jkt cs = projr (Thumbprint (example_env cs)
    (signer_PublicJWK (example_env cs) (example_workload_key ''wl-1'')))"

lemma example_thumbprint:
  "Thumbprint (example_env cs) (signer_PublicJWK (example_env cs) (example_workload_key ''wl-1''))
    = Inr (example_jkt cs)"
  by (simp add: example_jkt_def Thumbprint_def thumbprintMembers_def signer_PublicJWK_def
      example_workload_key_def example_env_def)

lemma example_attests:
  assumes "example_actor_claims \<in> set cs"
  shows "Attest (example_env cs) (example_attestor cs)
      (signer_SignClaims (example_env cs) (example_workload_key ''wl-1'') example_actor_claims)
    = Inr \<lparr>wi_ID = ''wl-1'', wi_Issuer = ''wl-1'', wi_JTI = ''jti-1'', wi_PossessedJKT = example_jkt cs\<rparr>"
proof -
  have v: "VerifyKey (example_env cs)
      (signer_SignClaims (example_env cs) (example_workload_key ''wl-1'') example_actor_claims)
      [signer_PublicJWK (example_env cs) (example_workload_key ''wl-1'')]
    = Inr (\<lparr>h_alg = ''EdDSA'', h_typ = ''JWT'', h_kid = sg_kid (example_workload_key ''wl-1'')\<rparr>,
           example_actor_claims, signer_PublicJWK (example_env cs) (example_workload_key ''wl-1''))"
    by (rule sign_VerifyKey) (simp_all add: assms example_workload_key_def)
  have "\<not> is_blank ''wl-1''" by code_simp
  then have "LocalKeys_Attest (example_env cs)
      (Some \<lparr>lk_Keys = [signer_PublicJWK (example_env cs) (example_workload_key ''wl-1'')],
             lk_Audience = ''sts'', lk_Now = Some 500\<rparr>)
      (signer_SignClaims (example_env cs) (example_workload_key ''wl-1'') example_actor_claims)
    = Inr \<lparr>wi_ID = ''wl-1'', wi_Issuer = ''wl-1'', wi_JTI = ''jti-1'', wi_PossessedJKT = example_jkt cs\<rparr>"
    by (simp add: LocalKeys_Attest_def LocalKeys_keys_def v example_thumbprint ValidateSubject_def)
      (simp add: example_actor_claims_def example_claims_def example_workload_key_def
        signer_PublicJWK_def)
  then show ?thesis
    by (simp add: example_attestor_def SPIFFE_Attest_def SPIFFE_keys_def)
qed

theorem Attest_sound_witness:
  "\<exists>h c j. VerifyKey (example_env [example_actor_claims])
      (signer_SignClaims (example_env [example_actor_claims]) (example_workload_key ''wl-1'')
        example_actor_claims)
      [signer_PublicJWK (example_env [example_actor_claims]) (example_workload_key ''wl-1'')]
      = Inr (h, c, j) \<and> c_sub c = ''wl-1''"
  using Attest_sound[OF example_attests[of "[example_actor_claims]"]]
  by (auto simp: example_attestor_def LocalKeys_keys_def SPIFFE_keys_def)

text \<open>A list of attestors answers with the first attestor that succeeds, tried in order; if none
  does, with the error of the last one, and with the error for an unattested workload if there is
  none at all.\<close>

theorem FirstSuccessful_first:
  "Attest E (Att_First as) tok =
    (case filter (\<lambda>a. is_ok (Attest E a tok)) as of
       a # _ \<Rightarrow> Attest E a tok
     | [] \<Rightarrow> (if as = [] then Inl Attest_ErrUnattested else Attest E (last as) tok))"
  by (simp add: attest_first_cases split: list.split)

end
