(* ===== verification/Guards.thy ===== *)
theory Guards
  imports Prelude
begin

text \<open>
  The interface of a single-use guard: a component with operations in time, some of which try to use
  a key and either succeed or are refused. The contract says that a success spends the key, that a
  spent key is refused, and that no operation un-spends it unless it is declared to revive it. What
  follows from the contract for whole runs is proved once here; the replay cache and the nonce cache
  interpret it.
\<close>

text \<open>The answers of a component to a sequence of operations, and its state at the end.\<close>

primrec answers :: "('s \<Rightarrow> 'op \<Rightarrow> 's \<times> bool) \<Rightarrow> 's \<Rightarrow> 'op list \<Rightarrow> bool list" where
  "answers step s [] = []"
| "answers step s (op # ops) = snd (step s op) # answers step (fst (step s op)) ops"

primrec final :: "('s \<Rightarrow> 'op \<Rightarrow> 's \<times> bool) \<Rightarrow> 's \<Rightarrow> 'op list \<Rightarrow> 's" where
  "final step s [] = s"
| "final step s (op # ops) = final step (fst (step s op)) ops"

lemma length_answers [simp]: "length (answers step s ops) = length ops"
  by (induction ops arbitrary: s) simp_all

lemma final_append [simp]: "final step s (xs @ ys) = final step (final step s xs) ys"
  by (induction xs arbitrary: s) simp_all

text \<open>How often a run used a key with success.\<close>

definition uses :: "('op \<Rightarrow> 'k option) \<Rightarrow> 'k \<Rightarrow> 'op list \<Rightarrow> bool list \<Rightarrow> nat" where
  "uses key k ops oks = length (filter (\<lambda>(op, ok). key op = Some k \<and> ok) (zip ops oks))"

lemma uses_Nil [simp]: "uses key k [] oks = 0"
  by (simp add: uses_def)

lemma uses_Cons [simp]:
  "uses key k (op # ops) (ok # oks) = (if key op = Some k \<and> ok then 1 else 0) + uses key k ops oks"
  by (simp add: uses_def)

text \<open>An operation may read the clock more than once: it starts with the first and ends with the last of
  its readings. In a run the operations do not overlap.\<close>

primrec in_order :: "('op \<Rightarrow> int) \<Rightarrow> ('op \<Rightarrow> int) \<Rightarrow> 'op list \<Rightarrow> bool" where
  "in_order starts ends [] \<longleftrightarrow> True"
| "in_order starts ends (op # ops) \<longleftrightarrow>
    starts op \<le> ends op \<and> (\<forall>x \<in> set ops. ends op \<le> starts x) \<and> in_order starts ends ops"

lemma in_order_sorted [simp]: "in_order f f ops \<longleftrightarrow> sorted (map f ops)"
  by (induction ops) auto

locale span_use =
  fixes step :: "'s \<Rightarrow> 'op \<Rightarrow> 's \<times> bool"
    and key :: "'op \<Rightarrow> 'k option"
    and starts :: "'op \<Rightarrow> int"
    and ends :: "'op \<Rightarrow> int"
    and spent :: "'s \<Rightarrow> 'k \<Rightarrow> int \<Rightarrow> bool"
    and revives :: "'op \<Rightarrow> 'k \<Rightarrow> bool"
  assumes use_spends: "key op = Some k \<Longrightarrow> snd (step s op) \<Longrightarrow> ends op \<le> t \<Longrightarrow>
      spent (fst (step s op)) k t"
    and spent_refuses: "key op = Some k \<Longrightarrow> spent s k (starts op) \<Longrightarrow> \<not> snd (step s op)"
    and spent_stays: "spent s k t \<Longrightarrow> ends op \<le> t \<Longrightarrow> \<not> revives op k \<Longrightarrow>
      spent (fst (step s op)) k t"
begin

lemma spent_no_uses:
  assumes "in_order starts ends ops" "\<forall>op \<in> set ops. t0 \<le> starts op \<and> \<not> revives op k"
    and "\<And>t. t0 \<le> t \<Longrightarrow> spent s k t"
  shows "uses key k ops (answers step s ops) = 0"
  using assms
proof (induction ops arbitrary: s t0)
  case (Cons op ops)
  have "spent s k (starts op)" using Cons.prems by simp
  then have "\<not> (key op = Some k \<and> snd (step s op))" using spent_refuses by blast
  moreover have "uses key k ops (answers step (fst (step s op)) ops) = 0"
  proof (rule Cons.IH[of "ends op"])
    show "spent (fst (step s op)) k t" if "ends op \<le> t" for t
      using spent_stays[of s k t op] Cons.prems that by auto
  qed (use Cons.prems in auto)
  ultimately show ?case by simp
qed simp

text \<open>In a run whose clock does not go back, a key that nothing revives is used at most once.\<close>

lemma used_at_most_once:
  assumes "in_order starts ends ops" "\<forall>op \<in> set ops. \<not> revives op k"
  shows "uses key k ops (answers step s ops) \<le> 1"
  using assms
proof (induction ops arbitrary: s)
  case (Cons op ops)
  show ?case
  proof (cases "key op = Some k \<and> snd (step s op)")
    case True
    then have "spent (fst (step s op)) k t" if "ends op \<le> t" for t
      using use_spends that by blast
    then have "uses key k ops (answers step (fst (step s op)) ops) = 0"
      by (intro spent_no_uses[of ops "ends op"]) (use Cons.prems in auto)
    with True show ?thesis by simp
  next
    case False
    with Cons show ?thesis by auto
  qed
qed simp

end

text \<open>The common case: one reading of the clock. What holds of spans holds of it.\<close>

locale single_use =
  fixes step :: "'s \<Rightarrow> 'op \<Rightarrow> 's \<times> bool"
    and key :: "'op \<Rightarrow> 'k option"
    and at_time :: "'op \<Rightarrow> int"
    and spent :: "'s \<Rightarrow> 'k \<Rightarrow> int \<Rightarrow> bool"
    and revives :: "'op \<Rightarrow> 'k \<Rightarrow> bool"
  assumes use_spends: "key op = Some k \<Longrightarrow> snd (step s op) \<Longrightarrow> at_time op \<le> t \<Longrightarrow>
      spent (fst (step s op)) k t"
    and spent_refuses: "key op = Some k \<Longrightarrow> spent s k (at_time op) \<Longrightarrow> \<not> snd (step s op)"
    and spent_stays: "spent s k t \<Longrightarrow> at_time op \<le> t \<Longrightarrow> \<not> revives op k \<Longrightarrow>
      spent (fst (step s op)) k t"

sublocale single_use \<subseteq> spanned: span_use step key at_time at_time spent revives
  by unfold_locales (fact use_spends, fact spent_refuses, fact spent_stays)

context single_use
begin

lemmas spent_no_uses = spanned.spent_no_uses[unfolded in_order_sorted]
lemmas used_at_most_once = spanned.used_at_most_once[unfolded in_order_sorted]

lemma spent_final:
  assumes "sorted (map at_time ops)" "\<forall>op \<in> set ops. at_time op \<le> t \<and> \<not> revives op k" "spent s k t"
  shows "spent (final step s ops) k t"
  using assms by (induction ops arbitrary: s) (auto intro: spent_stays)

text \<open>A key that was used stays spent to the end of the run and from then on.\<close>

lemma spent_after_use:
  assumes "sorted (map at_time ops)" "\<forall>op \<in> set ops. at_time op \<le> t \<and> \<not> revives op k"
    and "uses key k ops (answers step s ops) \<noteq> 0"
  shows "spent (final step s ops) k t"
  using assms
proof (induction ops arbitrary: s)
  case (Cons op ops)
  show ?case
  proof (cases "key op = Some k \<and> snd (step s op)")
    case True
    then have "spent (fst (step s op)) k t" using use_spends Cons.prems(2) by simp
    with Cons.prems show ?thesis by (simp add: spent_final)
  next
    case False
    with Cons show ?thesis by auto
  qed
qed simp

text \<open>Two runs with a break between them that loses no spent key: still at most one use.\<close>

lemma used_once_across:
  assumes "sorted (map at_time (xs @ ys))" "\<forall>op \<in> set (xs @ ys). \<not> revives op k"
    and "\<forall>op \<in> set xs. at_time op \<le> t0" "\<forall>op \<in> set ys. t0 \<le> at_time op"
    and kept: "\<And>t. t0 \<le> t \<Longrightarrow> spent (final step s xs) k t \<Longrightarrow> spent s' k t"
  shows "uses key k xs (answers step s xs) + uses key k ys (answers step s' ys) \<le> 1"
proof (cases "uses key k xs (answers step s xs) = 0")
  case True
  with used_at_most_once[of ys k s'] assms(1,2) show ?thesis by (simp add: sorted_append)
next
  case False
  have "spent s' k t" if "t0 \<le> t" for t
    using that assms(1-3) by (intro kept spent_after_use False) (auto simp: sorted_append)
  then have "uses key k ys (answers step s' ys) = 0"
    by (intro spent_no_uses[of ys t0]) (use assms in \<open>auto simp: sorted_append\<close>)
  moreover have "uses key k xs (answers step s xs) \<le> 1"
    using assms(1,2) by (intro used_at_most_once) (auto simp: sorted_append)
  ultimately show ?thesis by simp
qed

end

end
