(* ===== verification/Lines.thy ===== *)
theory Lines
  imports Go_Strings
begin

text \<open>
  Append-only logs of lines, as the replay cache and the audit logger keep them: the splitting of
  \<^verbatim>\<open>bufio.Scanner\<close>, and the outcomes of the write and the sync of one appended line.
\<close>

section \<open>Scanning\<close>

text \<open>
  \<^verbatim>\<open>bufio.Scanner\<close> with \<^verbatim>\<open>ScanLines\<close>: lines end at a newline, a carriage return before it is dropped,
  an empty rest after the last newline is no line. A line that does not fit into the 1 MiB buffer
  together with its newline is an error.
\<close>

definition dropCR :: "bytes \<Rightarrow> bytes" where
  "dropCR l = (if l \<noteq> [] \<and> last l = CHR 0x0D then butlast l else l)"

definition raw_lines :: "bytes \<Rightarrow> bytes list" where
  "raw_lines s =
    (let ls = split_on CHR 0x0A s in if last ls = [] then butlast ls else ls)"

definition max_line :: nat where "max_line = 1048576"

definition unlines :: "bytes list \<Rightarrow> bytes" where
  "unlines ls = concat (map (\<lambda>l. l @ [CHR 0x0A]) ls)"

lemma unlines_snoc [simp]: "unlines (ls @ [l]) = unlines ls @ l @ [CHR 0x0A]"
  by (simp add: unlines_def)

lemma raw_lines_unlines:
  assumes "\<forall>l \<in> set ls. CHR 0x0A \<notin> set l"
  shows "raw_lines (unlines ls) = ls"
  using split_on_terminated[OF assms] by (simp add: raw_lines_def unlines_def)

section \<open>Appending\<close>

text \<open>
  What the system does with the write and the sync of one call: \<open>io_written = Some n\<close> is a write that
  fails after \<open>n\<close> bytes.
\<close>

record io_outcome =
  io_written :: "nat option"
  io_synced :: bool

text \<open>The bytes that reach the file, and whether both calls succeeded.\<close>

definition append_bytes :: "io_outcome \<Rightarrow> bytes \<Rightarrow> bytes \<Rightarrow> bool \<times> bytes" where
  "append_bytes io log line =
    (case io_written io of
       Some n \<Rightarrow> (False, log @ take n line)
     | None \<Rightarrow> (io_synced io, log @ line))"

text \<open>A write that is not torn: complete, or nothing of it.\<close>

definition whole_write :: "io_outcome \<Rightarrow> bool" where
  "whole_write io \<longleftrightarrow> io_written io = None \<or> io_written io = Some 0"

lemma append_bytes_whole:
  "whole_write io \<Longrightarrow> append_bytes io log line \<in> {(False, log), (False, log @ line), (True, log @ line)}"
  by (auto simp: whole_write_def append_bytes_def)

lemma append_bytes_True: "append_bytes io log line = (True, log') \<Longrightarrow> log' = log @ line"
  by (auto simp: append_bytes_def split: option.splits)

end
