(* ===== verification/Replay.thy ===== *)
theory Replay
  imports Guards Claims Lines
begin

text \<open>
  \<^verbatim>\<open>internal/sts/replay.go\<close>: the cache of consumed token ids, in memory and in its append-only log.

  The state is the map \<^verbatim>\<open>seen\<close> from id to the last second the id stays consumed, and the bytes of the
  log when the cache was opened on one. The clock reading and the outcome of the two system calls
  are arguments of \<^verbatim>\<open>Consume\<close>: a write may fail after any number of bytes, which stay in the log. The
  JSON text of a record is a parameter (\<open>record_codec\<close>); the scanner's splitting of the log into
  lines is in \<^verbatim>\<open>Lines\<close>.

  The lemmas show that an id is consumed at most once for as long as it would be accepted, and that
  nothing consumed is forgotten by a restart.
\<close>

datatype replay_error =
    Replay_ErrReplay | Replay_ErrUnavailable | Replay_errEmptyJTI | Replay_ErrCorrupt | Replay_ErrIO

record replay_record =
  rr_JTI :: bytes
  rr_Until :: int

record record_codec =
  Marshal_record :: "replay_record \<Rightarrow> bytes"
  Probe_members :: "bytes \<Rightarrow> bytes list option"
  Strict_record :: "bytes \<Rightarrow> replay_record option"

record replay_cache =
  rc_seen :: "bytes \<rightharpoonup> int"
  rc_file :: "bytes option"

definition NewReplayCache :: replay_cache where
  "NewReplayCache = \<lparr>rc_seen = Map.empty, rc_file = None\<rparr>"

section \<open>Consume\<close>

definition purgeLocked :: "replay_cache \<Rightarrow> instant \<Rightarrow> replay_cache" where
  "purgeLocked c now =
    c\<lparr>rc_seen := (\<lambda>k. case rc_seen c k of
        None \<Rightarrow> None | Some until \<Rightarrow> if until < unix now then None else Some until)\<rparr>"

text \<open>The loop over the id and its aliases: is one of them still consumed?\<close>

fun replayed :: "(bytes \<rightharpoonup> int) \<Rightarrow> int \<Rightarrow> bytes list \<Rightarrow> bool" where
  "replayed seen sec [] = False"
| "replayed seen sec (k # ks) =
    (if k = [] then replayed seen sec ks
     else (case seen k of
       None \<Rightarrow> replayed seen sec ks
     | Some stored \<Rightarrow> if stored \<ge> sec then True else replayed seen sec ks))"

definition append_log ::
  "record_codec \<Rightarrow> io_outcome \<Rightarrow> bytes \<Rightarrow> replay_record \<Rightarrow> replay_error option \<times> bytes" where
  "append_log J io log r =
    (case append_bytes io log (Marshal_record J r @ [CHR 0x0A]) of
       (ok, log') \<Rightarrow> (if ok then None else Some Replay_ErrIO, log'))"

text \<open>\<^verbatim>\<open>Consume\<close> on a non-nil cache.\<close>

definition cache_Consume ::
  "record_codec \<Rightarrow> replay_cache \<Rightarrow> instant \<Rightarrow> io_outcome \<Rightarrow> bytes \<Rightarrow> int \<Rightarrow> bytes list \<Rightarrow>
    replay_error option \<times> replay_cache" where
  "cache_Consume J c now io jti ex aliases =
    (if jti = [] then (Some Replay_errEmptyJTI, c)
     else
       (let until = ReplayUntil ex; c1 = purgeLocked c now in
        if replayed (rc_seen c1) (unix now) (jti # aliases) then (Some Replay_ErrReplay, c1)
        else if until < unix now then (Some Replay_ErrReplay, c1)
        else (case rc_file c1 of
          None \<Rightarrow> (None, c1\<lparr>rc_seen := (rc_seen c1)(jti \<mapsto> until)\<rparr>)
        | Some log \<Rightarrow>
            (case append_log J io log \<lparr>rr_JTI = jti, rr_Until = until\<rparr> of
               (Some e, log') \<Rightarrow> (Some e, c1\<lparr>rc_file := Some log'\<rparr>)
             | (None, log') \<Rightarrow>
                 (None, c1\<lparr>rc_file := Some log', rc_seen := (rc_seen c1)(jti \<mapsto> until)\<rparr>)))))"

text \<open>\<^verbatim>\<open>Consume\<close> on a possibly nil cache.\<close>

definition Consume ::
  "record_codec \<Rightarrow> replay_cache option \<Rightarrow> instant \<Rightarrow> io_outcome \<Rightarrow> bytes \<Rightarrow> int \<Rightarrow> bytes list \<Rightarrow>
    replay_error option \<times> replay_cache option" where
  "Consume J c now io jti ex aliases =
    (case c of
       None \<Rightarrow> (Some Replay_ErrUnavailable, None)
     | Some rc \<Rightarrow> map_prod id Some (cache_Consume J rc now io jti ex aliases))"

section \<open>Recovery\<close>

definition decodeReplayRecord :: "record_codec \<Rightarrow> bytes \<Rightarrow> replay_error + replay_record" where
  "decodeReplayRecord J raw =
    (case Probe_members J raw of
       None \<Rightarrow> Inl Replay_ErrCorrupt
     | Some ms \<Rightarrow>
         if ''jti'' \<notin> set ms then Inl Replay_ErrCorrupt
         else if ''until'' \<notin> set ms then Inl Replay_ErrCorrupt
         else (case Strict_record J raw of
           None \<Rightarrow> Inl Replay_ErrCorrupt
         | Some r \<Rightarrow>
             if rr_JTI r = [] then Inl Replay_ErrCorrupt
             else if rr_Until r \<le> 0 then Inl Replay_ErrCorrupt
             else Inr r))"

fun recover_lines ::
  "record_codec \<Rightarrow> int \<Rightarrow> (bytes \<rightharpoonup> int) \<Rightarrow> bytes list \<Rightarrow> replay_error + (bytes \<rightharpoonup> int)" where
  "recover_lines J sec seen [] = Inr seen"
| "recover_lines J sec seen (raw # ls) =
    (if length raw \<ge> max_line then Inl Replay_ErrIO
     else (let line = dropCR raw in
       if line = [] then recover_lines J sec seen ls
       else (case decodeReplayRecord J line of
         Inl e \<Rightarrow> Inl e
       | Inr r \<Rightarrow>
           if rr_Until r < sec then recover_lines J sec seen ls
           else recover_lines J sec (seen(rr_JTI r \<mapsto> rr_Until r)) ls)))"

text \<open>\<^verbatim>\<open>OpenReplayCache\<close> on a log that could be opened and read, at the clock reading \<open>now\<close>.\<close>

definition OpenReplayCache :: "record_codec \<Rightarrow> bytes \<Rightarrow> instant \<Rightarrow> replay_error + replay_cache" where
  "OpenReplayCache J log now =
    (case recover_lines J (unix now) Map.empty (raw_lines log) of
       Inl e \<Rightarrow> Inl e
     | Inr seen \<Rightarrow> Inr \<lparr>rc_seen = seen, rc_file = Some log\<rparr>)"

section \<open>Single use\<close>

record consume_op =
  co_now :: instant
  co_io :: io_outcome
  co_jti :: bytes
  co_exp :: int
  co_aliases :: "bytes list"

definition consume_step :: "record_codec \<Rightarrow> replay_cache \<Rightarrow> consume_op \<Rightarrow> replay_cache \<times> bool" where
  "consume_step J c op =
    (let (e, c') = cache_Consume J c (co_now op) (co_io op) (co_jti op) (co_exp op) (co_aliases op)
     in (c', e = None))"

text \<open>An id with its expiry is spent at second \<open>t\<close> while it is stored or once it has run out.\<close>

definition consumed :: "replay_cache \<Rightarrow> bytes \<times> int \<Rightarrow> int \<Rightarrow> bool" where
  "consumed c k t \<longleftrightarrow>
    (\<exists>u. rc_seen c (fst k) = Some u \<and> t \<le> u) \<or> ReplayUntil (snd k) < t"

lemma purge_keeps: "rc_seen c k = Some u \<Longrightarrow> unix now \<le> u \<Longrightarrow> rc_seen (purgeLocked c now) k = Some u"
  by (simp add: purgeLocked_def)

lemma purge_only: "rc_seen (purgeLocked c now) k = Some u \<Longrightarrow> rc_seen c k = Some u \<and> unix now \<le> u"
  by (auto simp: purgeLocked_def split: option.splits if_splits)

lemma purge_file [simp]: "rc_file (purgeLocked c now) = rc_file c"
  by (simp add: purgeLocked_def)

lemma replayed_iff: "replayed seen sec ks \<longleftrightarrow> (\<exists>k \<in> set ks. k \<noteq> [] \<and> (\<exists>u. seen k = Some u \<and> sec \<le> u))"
  by (induction ks) (auto split: option.splits)

declare replayed.simps [simp del]

text \<open>What a successful \<^verbatim>\<open>Consume\<close> checked and did; a refusal leaves only purged entries behind.\<close>

lemma cache_Consume_None:
  assumes "cache_Consume J c now io jti ex al = (None, c')"
  shows "jti \<noteq> [] \<and> \<not> replayed (rc_seen (purgeLocked c now)) (unix now) (jti # al) \<and>
    unix now \<le> ReplayUntil ex \<and>
    rc_seen c' = (rc_seen (purgeLocked c now))(jti \<mapsto> ReplayUntil ex)"
  using assms
  by (auto simp: cache_Consume_def Let_def append_log_def split: if_splits option.splits prod.splits)

lemma cache_Consume_Some:
  assumes "cache_Consume J c now io jti ex al = (Some e, c')"
  shows "rc_seen c' = rc_seen c \<or> rc_seen c' = rc_seen (purgeLocked c now)"
  using assms
  by (auto simp: cache_Consume_def Let_def split: if_splits option.splits prod.splits)

lemma consume_step_cases:
  obtains (used) "snd (consume_step J c op)" "co_jti op \<noteq> []" "unix (co_now op) \<le> ReplayUntil (co_exp op)"
    "\<not> replayed (rc_seen (purgeLocked c (co_now op))) (unix (co_now op)) (co_jti op # co_aliases op)"
    "rc_seen (fst (consume_step J c op))
      = (rc_seen (purgeLocked c (co_now op)))(co_jti op \<mapsto> ReplayUntil (co_exp op))"
  | (refused) "\<not> snd (consume_step J c op)"
    "rc_seen (fst (consume_step J c op)) \<in> {rc_seen c, rc_seen (purgeLocked c (co_now op))}"
proof (cases "cache_Consume J c (co_now op) (co_io op) (co_jti op) (co_exp op) (co_aliases op)")
  case (Pair e c')
  then have st: "consume_step J c op = (c', e = None)" by (simp add: consume_step_def)
  show ?thesis
  proof (cases e)
    case None
    with Pair have "cache_Consume J c (co_now op) (co_io op) (co_jti op) (co_exp op) (co_aliases op)
        = (None, c')" by simp
    note ok = cache_Consume_None[OF this]
    show ?thesis by (rule used) (use ok st None in simp_all)
  next
    case (Some x)
    with Pair have "rc_seen c' = rc_seen c \<or> rc_seen c' = rc_seen (purgeLocked c (co_now op))"
      using cache_Consume_Some[of J c] by simp
    with Some st refused show ?thesis by auto
  qed
qed

interpretation replay_guard:
  single_use "consume_step J" "\<lambda>op. Some (co_jti op, co_exp op)" "\<lambda>op. unix (co_now op)" consumed
    "\<lambda>op k. False" for J
proof unfold_locales
  fix op :: consume_op and k s t
  assume "Some (co_jti op, co_exp op) = Some k" "snd (consume_step J s op)" "unix (co_now op) \<le> t"
  then show "consumed (fst (consume_step J s op)) k t"
    by (cases rule: consume_step_cases[of J s op]) (auto simp: consumed_def)
next
  fix op :: consume_op and k s
  assume k: "Some (co_jti op, co_exp op) = Some k" "consumed s k (unix (co_now op))"
  show "\<not> snd (consume_step J s op)"
  proof (cases rule: consume_step_cases[of J s op])
    case used
    with k show ?thesis
      by (auto simp: consumed_def replayed_iff dest: purge_keeps)
  qed
next
  fix op :: consume_op and k s t
  assume sp: "consumed s k t" "unix (co_now op) \<le> t"
  show "consumed (fst (consume_step J s op)) k t"
  proof (cases rule: consume_step_cases[of J s op])
    case used
    have "rc_seen (fst (consume_step J s op)) (fst k) = Some u"
      if u: "rc_seen s (fst k) = Some u" "t \<le> u" for u
    proof -
      have "rc_seen (purgeLocked s (co_now op)) (fst k) = Some u"
        by (rule purge_keeps) (use u sp(2) in auto)
      moreover from this have "fst k \<noteq> co_jti op"
        using used(2,4) u(2) sp(2) by (auto simp: replayed_iff)
      ultimately show ?thesis using used(5) by simp
    qed
    with sp(1) show ?thesis by (auto simp: consumed_def)
  next
    case refused
    have "rc_seen (purgeLocked s (co_now op)) (fst k) = Some u"
      if "rc_seen s (fst k) = Some u" "t \<le> u" for u
      by (rule purge_keeps) (use that sp(2) in auto)
    with refused(2) sp(1) show ?thesis by (auto simp: consumed_def)
  qed
qed

section \<open>The log\<close>

text \<open>The records of a log, or the first error.\<close>

fun line_records :: "record_codec \<Rightarrow> bytes list \<Rightarrow> replay_error + replay_record list" where
  "line_records J [] = Inr []"
| "line_records J (raw # ls) =
    (if length raw \<ge> max_line then Inl Replay_ErrIO
     else if dropCR raw = [] then line_records J ls
     else (case decodeReplayRecord J (dropCR raw) of
       Inl e \<Rightarrow> Inl e
     | Inr r \<Rightarrow> (case line_records J ls of Inl e \<Rightarrow> Inl e | Inr rs \<Rightarrow> Inr (r # rs))))"

definition note_record :: "int \<Rightarrow> replay_record \<Rightarrow> (bytes \<rightharpoonup> int) \<Rightarrow> (bytes \<rightharpoonup> int)" where
  "note_record sec r seen = (if rr_Until r < sec then seen else seen(rr_JTI r \<mapsto> rr_Until r))"

lemma recover_lines_records:
  "recover_lines J sec seen ls =
    (case line_records J ls of Inl e \<Rightarrow> Inl e | Inr rs \<Rightarrow> Inr (fold (note_record sec) rs seen))"
  by (induction ls arbitrary: seen) (auto simp: Let_def note_record_def split: sum.splits)

lemma line_records_snoc:
  "line_records J ls = Inr rs \<Longrightarrow> length raw < max_line \<Longrightarrow> dropCR raw \<noteq> [] \<Longrightarrow>
    decodeReplayRecord J (dropCR raw) = Inr r \<Longrightarrow> line_records J (ls @ [raw]) = Inr (rs @ [r])"
  by (induction ls arbitrary: rs) (auto split: sum.splits if_splits)

text \<open>Later recoveries agree with earlier ones on what has not run out by then.\<close>

lemma fold_note_record_later:
  assumes "fold (note_record sec) rs Map.empty k = Some u" "sec \<le> sec'" "sec' \<le> u"
  shows "fold (note_record sec') rs Map.empty k = Some u"
  using assms(1)
proof (induction rs rule: rev_induct)
  case (snoc r rs)
  then show ?case using assms(2,3) by (auto simp: note_record_def split: if_splits)
qed simp

definition record_ok :: "record_codec \<Rightarrow> replay_record \<Rightarrow> bool" where
  "record_ok J r \<longleftrightarrow>
    CHR 0x0A \<notin> set (Marshal_record J r) \<and> dropCR (Marshal_record J r) = Marshal_record J r \<and>
    Marshal_record J r \<noteq> [] \<and> length (Marshal_record J r) < max_line \<and>
    decodeReplayRecord J (Marshal_record J r) = Inr r"

text \<open>
  A cache on a log opened at second \<open>T\<close>: what is in memory and has not run out, a recovery of the log
  at any later second would find.
\<close>

definition log_holds :: "record_codec \<Rightarrow> int \<Rightarrow> replay_cache \<Rightarrow> bool" where
  "log_holds J T c \<longleftrightarrow>
    (\<exists>ls rs. rc_file c = Some (unlines ls) \<and> (\<forall>l \<in> set ls. CHR 0x0A \<notin> set l) \<and>
       line_records J ls = Inr rs \<and>
       (\<forall>sec k u. T \<le> sec \<longrightarrow> rc_seen c k = Some u \<longrightarrow> sec \<le> u \<longrightarrow>
          fold (note_record sec) rs Map.empty k = Some u))"

lemma Open_log_holds:
  assumes "OpenReplayCache J (unlines ls) now = Inr c" "\<forall>l \<in> set ls. CHR 0x0A \<notin> set l"
  shows "log_holds J (unix now) c"
proof -
  from assms obtain rs where rs: "line_records J ls = Inr rs"
    and c: "c = \<lparr>rc_seen = fold (note_record (unix now)) rs Map.empty, rc_file = Some (unlines ls)\<rparr>"
    by (auto simp: OpenReplayCache_def raw_lines_unlines recover_lines_records split: sum.splits)
  have "\<forall>sec k u. unix now \<le> sec \<longrightarrow> rc_seen c k = Some u \<longrightarrow> sec \<le> u \<longrightarrow>
      fold (note_record sec) rs Map.empty k = Some u"
    by (simp add: c) (metis fold_note_record_later)
  moreover have "rc_file c = Some (unlines ls)" by (simp add: c)
  ultimately show ?thesis unfolding log_holds_def using rs assms(2) by blast
qed

lemma log_holds_purge: "log_holds J T c \<Longrightarrow> log_holds J T (purgeLocked c now)"
proof -
  assume "log_holds J T c"
  then obtain ls rs where h: "rc_file c = Some (unlines ls)" "\<forall>l \<in> set ls. CHR 0x0A \<notin> set l"
      "line_records J ls = Inr rs"
    and seen: "\<forall>sec k u. T \<le> sec \<longrightarrow> rc_seen c k = Some u \<longrightarrow> sec \<le> u \<longrightarrow>
      fold (note_record sec) rs Map.empty k = Some u"
    unfolding log_holds_def by blast
  from seen have "\<forall>sec k u. T \<le> sec \<longrightarrow> rc_seen (purgeLocked c now) k = Some u \<longrightarrow> sec \<le> u \<longrightarrow>
      fold (note_record sec) rs Map.empty k = Some u"
    using purge_only by blast
  with h show "log_holds J T (purgeLocked c now)" unfolding log_holds_def purge_file by blast
qed

lemma log_holds_append:
  assumes "log_holds J T c" "record_ok J r" "rc_file c = Some log" "rc_seen c (rr_JTI r) = None"
  shows "log_holds J T (c\<lparr>rc_file := Some (log @ Marshal_record J r @ [CHR 0x0A])\<rparr>)"
    and "log_holds J T (c\<lparr>rc_file := Some (log @ Marshal_record J r @ [CHR 0x0A]),
                         rc_seen := (rc_seen c)(rr_JTI r \<mapsto> rr_Until r)\<rparr>)"
proof -
  obtain ls rs where ls: "log = unlines ls" "\<forall>l \<in> set ls. CHR 0x0A \<notin> set l" "line_records J ls = Inr rs"
    and seen: "\<forall>sec k u. T \<le> sec \<longrightarrow> rc_seen c k = Some u \<longrightarrow> sec \<le> u \<longrightarrow>
      fold (note_record sec) rs Map.empty k = Some u"
    using assms(1,3) unfolding log_holds_def by auto
  let ?ls = "ls @ [Marshal_record J r]"
  have log: "log @ Marshal_record J r @ [CHR 0x0A] = unlines ?ls" by (simp add: ls(1))
  have nl: "\<forall>l \<in> set ?ls. CHR 0x0A \<notin> set l" using ls(2) assms(2) by (simp add: record_ok_def)
  have recs: "line_records J ?ls = Inr (rs @ [r])"
    by (rule line_records_snoc[OF ls(3)]) (use assms(2) in \<open>simp_all add: record_ok_def\<close>)
  have old: "k \<noteq> rr_JTI r" if "rc_seen c k = Some u" for k u using that assms(4) by auto
  show "log_holds J T (c\<lparr>rc_file := Some (log @ Marshal_record J r @ [CHR 0x0A])\<rparr>)"
    unfolding log_holds_def log using nl recs seen old
    by (intro exI[of _ ?ls] exI[of _ "rs @ [r]"]) (simp add: note_record_def)
  show "log_holds J T (c\<lparr>rc_file := Some (log @ Marshal_record J r @ [CHR 0x0A]),
                         rc_seen := (rc_seen c)(rr_JTI r \<mapsto> rr_Until r)\<rparr>)"
    unfolding log_holds_def log using nl recs seen old
    by (intro exI[of _ ?ls] exI[of _ "rs @ [r]"]) (auto simp: note_record_def)
qed

definition writes_ok :: "record_codec \<Rightarrow> consume_op \<Rightarrow> bool" where
  "writes_ok J op \<longleftrightarrow> whole_write (co_io op) \<and>
    record_ok J \<lparr>rr_JTI = co_jti op, rr_Until = ReplayUntil (co_exp op)\<rparr>"

lemma fresh_after_purge:
  assumes "\<not> replayed (rc_seen (purgeLocked c now)) (unix now) (jti # al)" "jti \<noteq> []"
  shows "rc_seen (purgeLocked c now) jti = None"
  using assms by (cases "rc_seen (purgeLocked c now) jti") (auto simp: replayed_iff dest: purge_only)

lemma log_holds_step:
  assumes "log_holds J T c" "writes_ok J op"
  shows "log_holds J T (fst (consume_step J c op))"
proof -
  let ?c = "purgeLocked c (co_now op)" and ?r = "\<lparr>rr_JTI = co_jti op, rr_Until = ReplayUntil (co_exp op)\<rparr>"
  from assms(1) obtain log where f: "rc_file c = Some log" by (auto simp: log_holds_def)
  then have f': "rc_file ?c = Some log" by simp
  note hold = log_holds_purge[OF assms(1), of "co_now op"]
  have rec: "record_ok J ?r" using assms(2) by (simp add: writes_ok_def)
  have same: "?c\<lparr>rc_file := Some log\<rparr> = ?c" using f' by (cases ?c) simp
  show ?thesis
  proof (cases "co_jti op = [] \<or> ReplayUntil (co_exp op) < unix (co_now op) \<or>
      replayed (rc_seen ?c) (unix (co_now op)) (co_jti op # co_aliases op)")
    case True
    then have "fst (consume_step J c op) \<in> {c, ?c}"
      by (auto simp: consume_step_def cache_Consume_def Let_def)
    then show ?thesis using hold assms(1) by auto
  next
    case False
    let ?append = "append_log J (co_io op) log ?r"
    have "fst (consume_step J c op) =
        (case ?append of
           (Some e, log') \<Rightarrow> ?c\<lparr>rc_file := Some log'\<rparr>
         | (None, log') \<Rightarrow> ?c\<lparr>rc_file := Some log',
             rc_seen := (rc_seen ?c)(co_jti op \<mapsto> ReplayUntil (co_exp op))\<rparr>)"
      using False f
      by (simp add: consume_step_def cache_Consume_def Let_def case_prod_unfold
          split: option.split prod.split)
    moreover have "?append \<in> {(Some Replay_ErrIO, log),
        (Some Replay_ErrIO, log @ Marshal_record J ?r @ [CHR 0x0A]),
        (None, log @ Marshal_record J ?r @ [CHR 0x0A])}"
      using assms(2) append_bytes_whole[of "co_io op" log "Marshal_record J ?r @ [CHR 0x0A]"]
      by (auto simp: writes_ok_def append_log_def)
    moreover have "rc_seen ?c (rr_JTI ?r) = None" 
      using False fresh_after_purge[of c "co_now op" "co_jti op" "co_aliases op"] by simp
    ultimately show ?thesis using log_holds_append[OF hold rec f'] hold same by auto
  qed
qed

lemma log_holds_final:
  assumes "log_holds J T c" "\<forall>op \<in> set ops. writes_ok J op"
  shows "log_holds J T (final (consume_step J) c ops)"
  using assms by (induction ops arbitrary: c) (simp_all add: log_holds_step)

lemma reopen:
  assumes "log_holds J T c" "T \<le> unix now"
  shows "\<exists>c'. OpenReplayCache J (the (rc_file c)) now = Inr c' \<and>
    (\<forall>k t. unix now \<le> t \<longrightarrow> consumed c k t \<longrightarrow> consumed c' k t)"
proof -
  obtain ls rs where ls: "rc_file c = Some (unlines ls)" "\<forall>l \<in> set ls. CHR 0x0A \<notin> set l"
      "line_records J ls = Inr rs"
    and seen: "\<forall>sec k u. T \<le> sec \<longrightarrow> rc_seen c k = Some u \<longrightarrow> sec \<le> u \<longrightarrow>
      fold (note_record sec) rs Map.empty k = Some u"
    using assms(1) unfolding log_holds_def by auto
  let ?m = "fold (note_record (unix now)) rs Map.empty"
  have "OpenReplayCache J (the (rc_file c)) now = Inr \<lparr>rc_seen = ?m, rc_file = rc_file c\<rparr>"
    using ls by (simp add: OpenReplayCache_def raw_lines_unlines recover_lines_records)
  moreover have "?m k = Some u" if "rc_seen c k = Some u" "unix now \<le> t" "t \<le> u" for k u t
    using seen assms(2) that by auto
  ultimately show ?thesis unfolding consumed_def by fastforce
qed

section \<open>Properties\<close>

text \<open>Single use of subject tokens. In any sequence of \<^verbatim>\<open>Consume\<close> calls, by whichever callers and
  with whatever failing writes, in which the clock does not go back, one token (its id and its
  expiry) is consumed with success at most once.\<close>

theorem consumed_at_most_once:
  assumes "sorted (map (\<lambda>op. unix (co_now op)) ops)"
  shows "uses (\<lambda>op. Some (co_jti op, co_exp op)) (jti, ex) ops (answers (consume_step J) c ops) \<le> 1"
  by (rule replay_guard.used_at_most_once) (use assms in simp_all)

text \<open>The entries that have not run out at second \<open>sec\<close>.\<close>

definition live_entries :: "(bytes \<rightharpoonup> int) \<Rightarrow> int \<Rightarrow> (bytes \<rightharpoonup> int)" where
  "live_entries m sec = (\<lambda>k. if \<exists>u. m k = Some u \<and> sec \<le> u then m k else None)"

text \<open>The answer of \<^verbatim>\<open>Consume\<close> on every branch, for a cache without a log: no cache at all fails
  closed; an empty id is refused; an id is a replay while it, or an alias of it, is stored for the
  current second or later, and also when its own horizon (expiry plus skew) is over; otherwise it
  is stored through that horizon. Every refusal leaves no new entry.\<close>

theorem Consume_table:
  "Consume J None now io jti ex al = (Some Replay_ErrUnavailable, None) \<and>
   Consume J (Some \<lparr>rc_seen = m, rc_file = None\<rparr>) now io jti ex al =
    (let m' = live_entries m (unix now) in
     if jti = [] then (Some Replay_errEmptyJTI, Some \<lparr>rc_seen = m, rc_file = None\<rparr>)
     else if unix now \<le> ReplayUntil ex \<and> list_all (\<lambda>k. k = [] \<or> m' k = None) (jti # al)
       then (None, Some \<lparr>rc_seen = m'(jti \<mapsto> ReplayUntil ex), rc_file = None\<rparr>)
     else (Some Replay_ErrReplay, Some \<lparr>rc_seen = m', rc_file = None\<rparr>))"
proof -
  have purge: "purgeLocked \<lparr>rc_seen = m, rc_file = None\<rparr> now
      = \<lparr>rc_seen = live_entries m (unix now), rc_file = None\<rparr>"
    by (auto simp: purgeLocked_def live_entries_def fun_eq_iff split: option.split)
  have "replayed (live_entries m (unix now)) (unix now) ks
      \<longleftrightarrow> \<not> list_all (\<lambda>k. k = [] \<or> live_entries m (unix now) k = None) ks" for ks
    by (auto simp: replayed_iff list_all_iff live_entries_def split: if_splits)
  then show ?thesis
    by (auto simp: Consume_def cache_Consume_def purge Let_def)
qed

definition example_records :: record_codec where
  "example_records =
    \<lparr>Marshal_record = (\<lambda>r. rr_JTI r @ replicate (nat (rr_Until r)) CHR ''|''),
     Probe_members = (\<lambda>b. Some [''jti'', ''until'']),
     Strict_record = (\<lambda>b. Some \<lparr>rr_JTI = takeWhile (\<lambda>ch. ch \<noteq> CHR ''|'') b,
        rr_Until = int (length (dropWhile (\<lambda>ch. ch \<noteq> CHR ''|'') b))\<rparr>)\<rparr>"

definition example_consume :: "int \<Rightarrow> bytes \<Rightarrow> consume_op" where
  "example_consume sec jti =
    \<lparr>co_now = sec * 1000000000, co_io = \<lparr>io_written = None, io_synced = True\<rparr>, co_jti = jti,
     co_exp = 40, co_aliases = []\<rparr>"

theorem consumed_at_most_once_witness:
  "uses (\<lambda>op. Some (co_jti op, co_exp op)) (''a'', 40)
     [example_consume 5 ''a'', example_consume 70 ''a'', example_consume 71 ''a'']
     (answers (consume_step example_records) NewReplayCache
       [example_consume 5 ''a'', example_consume 70 ''a'', example_consume 71 ''a'']) \<le> 1"
  by (rule consumed_at_most_once) (simp add: example_consume_def unix_def)

text \<open>Single use survives a restart. If the log was whole when the cache was opened and no write to
  it is torn, then after any calls the log opens again, and over the calls before and after the
  restart together a token is still consumed with success at most once.\<close>

theorem consumed_once_across_restart:
  assumes "OpenReplayCache J (unlines ls) t0 = Inr c" "\<forall>l \<in> set ls. CHR 0x0A \<notin> set l"
    and "\<forall>op \<in> set (xs @ ys). writes_ok J op"
    and "sorted (map (\<lambda>op. unix (co_now op)) (xs @ ys))"
    and "\<forall>op \<in> set xs. unix (co_now op) \<le> unix t1" "unix t0 \<le> unix t1"
    and "\<forall>op \<in> set ys. unix t1 \<le> unix (co_now op)"
  shows "\<exists>c'. OpenReplayCache J (the (rc_file (final (consume_step J) c xs))) t1 = Inr c' \<and>
    uses (\<lambda>op. Some (co_jti op, co_exp op)) (jti, ex) xs (answers (consume_step J) c xs) +
    uses (\<lambda>op. Some (co_jti op, co_exp op)) (jti, ex) ys (answers (consume_step J) c' ys) \<le> 1"
proof -
  have "log_holds J (unix t0) (final (consume_step J) c xs)"
    by (intro log_holds_final Open_log_holds[OF assms(1,2)]) (use assms(3) in auto)
  from reopen[OF this assms(6)] obtain c' where
    c': "OpenReplayCache J (the (rc_file (final (consume_step J) c xs))) t1 = Inr c'"
    and kept: "\<forall>k t. unix t1 \<le> t \<longrightarrow> consumed (final (consume_step J) c xs) k t \<longrightarrow> consumed c' k t"
    by blast
  have "uses (\<lambda>op. Some (co_jti op, co_exp op)) (jti, ex) xs (answers (consume_step J) c xs) +
    uses (\<lambda>op. Some (co_jti op, co_exp op)) (jti, ex) ys (answers (consume_step J) c' ys) \<le> 1"
    by (rule replay_guard.used_once_across[where ?t0.0 = "unix t1"]) (use assms kept in auto)
  with c' show ?thesis by blast
qed

lemma example_record_ok:
  "jti \<noteq> [] \<Longrightarrow> CHR ''|'' \<notin> set jti \<Longrightarrow> CHR 0x0A \<notin> set jti \<Longrightarrow> 0 < u \<Longrightarrow>
    length jti + nat u < max_line \<Longrightarrow> record_ok example_records \<lparr>rr_JTI = jti, rr_Until = u\<rparr>"
proof -
  assume a: "jti \<noteq> []" "CHR ''|'' \<notin> set jti" "CHR 0x0A \<notin> set jti" "0 < u"
    "length jti + nat u < max_line"
  let ?m = "jti @ replicate (nat u) CHR ''|''"
  have "takeWhile (\<lambda>ch. ch \<noteq> CHR ''|'') ?m = jti"
    using a(2) by (subst takeWhile_append2) (auto simp: takeWhile_replicate)
  moreover have "dropWhile (\<lambda>ch. ch \<noteq> CHR ''|'') ?m = replicate (nat u) CHR ''|''"
    using a(2) by (subst dropWhile_append2) (auto simp: dropWhile_replicate)
  moreover have "last ?m = CHR ''|''" using a(4) by simp
  ultimately show ?thesis
    using a by (simp add: record_ok_def example_records_def decodeReplayRecord_def dropCR_def)
qed

theorem consumed_once_across_restart_witness:
  "\<exists>c'. OpenReplayCache example_records (the (rc_file (final (consume_step example_records)
        \<lparr>rc_seen = Map.empty, rc_file = Some []\<rparr> [example_consume 5 ''a'']))) 6000000000 = Inr c' \<and>
    uses (\<lambda>op. Some (co_jti op, co_exp op)) (''a'', 40) [example_consume 5 ''a'']
      (answers (consume_step example_records) \<lparr>rc_seen = Map.empty, rc_file = Some []\<rparr>
        [example_consume 5 ''a'']) +
    uses (\<lambda>op. Some (co_jti op, co_exp op)) (''a'', 40) [example_consume 7 ''a'']
      (answers (consume_step example_records) c' [example_consume 7 ''a'']) \<le> 1"
proof -
  have "writes_ok example_records (example_consume n ''a'')" for n
    by (simp add: writes_ok_def whole_write_def example_consume_def example_record_ok
        ReplayUntil_pos i64_id in_i64_def max_line_def)
  from this[of 5] this[of 7] show ?thesis
    by (intro consumed_once_across_restart[where ls = "[]" and ?t0.0 = 0])
      (simp_all add: OpenReplayCache_def unlines_def raw_lines_def example_consume_def unix_def)
qed

end
