(* ===== verification/Utf8.thy ===== *)
theory Utf8
  imports Prelude
begin

text \<open>
  Go's \<^verbatim>\<open>unicode/utf8\<close> on byte strings, as far as the program uses it: \<^verbatim>\<open>utf8.ValidString\<close> and
  \<^verbatim>\<open>strings.ToValidUTF8\<close>. A rune is decoded from the front of the string; overlong encodings,
  surrogates and code points above U+10FFFF are invalid, and an invalid position consumes one byte.
\<close>

definition byte_of :: "char \<Rightarrow> nat" where
  "byte_of c = of_char c"

definition cont :: "char \<Rightarrow> bool" where
  "cont c \<longleftrightarrow> 128 \<le> byte_of c \<and> byte_of c \<le> 191"

text \<open>The length a lead byte announces and the range of the byte after it.\<close>

definition lead :: "nat \<Rightarrow> nat \<times> nat \<times> nat" where
  "lead b =
    (if b < 128 then (1, 0, 0)
     else if b < 194 then (0, 0, 0)
     else if b < 224 then (2, 128, 191)
     else if b = 224 then (3, 160, 191)
     else if b = 237 then (3, 128, 159)
     else if b < 240 then (3, 128, 191)
     else if b = 240 then (4, 144, 191)
     else if b < 244 then (4, 128, 191)
     else if b = 244 then (4, 128, 143)
     else (0, 0, 0))"

text \<open>The length of the valid rune at the front of the string, 0 if there is none.\<close>

definition rune_len :: "bytes \<Rightarrow> nat" where
  "rune_len s =
    (if s = [] then 0
     else case lead (byte_of (s ! 0)) of (n, lo, hi) \<Rightarrow>
       if n \<le> 1 then n
       else if n \<le> length s \<and> lo \<le> byte_of (s ! 1) \<and> byte_of (s ! 1) \<le> hi \<and>
               list_all cont (take (n - 2) (drop 2 s)) then n
       else 0)"

lemma rune_len_le: "rune_len s \<le> length s"
  by (cases s) (simp_all add: rune_len_def split: prod.split)

lemma rune_len_le4: "rune_len s \<le> 4"
  by (simp add: rune_len_def lead_def)

text \<open>A valid rune at the front is decoded alike whatever follows it.\<close>

lemma rune_len_append: "rune_len s \<noteq> 0 \<Longrightarrow> rune_len (s @ t) = rune_len s"
  by (cases s) (auto simp: rune_len_def nth_append split: prod.split if_splits)

lemma rune_len_take: "rune_len s \<noteq> 0 \<Longrightarrow> rune_len s \<le> n \<Longrightarrow> rune_len (take n s) = rune_len s"
  by (auto simp: rune_len_def drop_take min_def split: prod.splits if_splits)

function ValidString :: "bytes \<Rightarrow> bool" where
  "ValidString s =
    (if s = [] then True
     else if rune_len s = 0 then False else ValidString (drop (rune_len s) s))"
  by pat_completeness auto
termination
  by (relation "measure length") auto

declare ValidString.simps [simp del]

text \<open>U+FFFD, which replaces each run of invalid bytes.\<close>

definition replacement :: bytes where
  "replacement = [CHR 0xEF, CHR 0xBF, CHR 0xBD]"

text \<open>\<open>bad\<close> tells that the byte before was invalid.\<close>

function to_valid :: "bool \<Rightarrow> bytes \<Rightarrow> bytes" where
  "to_valid bad s =
    (if s = [] then []
     else if rune_len s = 0 then (if bad then [] else replacement) @ to_valid True (tl s)
     else take (rune_len s) s @ to_valid False (drop (rune_len s) s))"
  by pat_completeness auto
termination
  by (relation "measure (\<lambda>(b, s). length s)") auto

declare to_valid.simps [simp del]

definition ToValidUTF8 :: "bytes \<Rightarrow> bytes" where
  "ToValidUTF8 s = to_valid False s"

lemma ValidString_Nil [simp]: "ValidString []"
  by (simp add: ValidString.simps)

lemma ValidString_append:
  "ValidString s \<Longrightarrow> ValidString (s @ t) \<longleftrightarrow> ValidString t"
proof (induction s rule: ValidString.induct)
  case (1 s)
  show ?case
  proof (cases "s = []")
    case False
    with 1(2) have r: "rune_len s \<noteq> 0" "ValidString (drop (rune_len s) s)"
      by (subst (asm) ValidString.simps, simp split: if_splits)+
    then have "ValidString (s @ t) = ValidString (drop (rune_len s) s @ t)"
      using False rune_len_le[of s] by (subst ValidString.simps) (simp add: rune_len_append)
    with 1(1)[OF False r(1)] r show ?thesis by simp
  qed simp
qed

lemma ValidString_rune:
  assumes "rune_len s \<noteq> 0"
  shows "ValidString (take (rune_len s) s)"
proof -
  have "rune_len (take (rune_len s) s) = rune_len s" by (rule rune_len_take[OF assms order_refl])
  then show ?thesis using assms rune_len_le[of s] by (subst ValidString.simps) simp
qed

lemma ValidString_replacement [simp]: "ValidString replacement"
  by code_simp

lemma ValidString_to_valid: "ValidString (to_valid bad s)"
proof (induction bad s rule: to_valid.induct)
  case (1 bad s)
  then show ?case
    by (subst to_valid.simps) (simp add: ValidString_append ValidString_rune)
qed

lemma ToValidUTF8_valid: "ValidString (ToValidUTF8 s)"
  by (simp add: ToValidUTF8_def ValidString_to_valid)

end
