(* ===== verification/Audit_Log.thy ===== *)
theory Audit_Log
  imports Utf8 Lines Guards "HOL-Library.Word"
begin

text \<open>
  \<^verbatim>\<open>internal/audit/logger.go\<close>: the hash-chained, append-only log of decisions.

  The logger keeps the bytes of its file (\<open>None\<close> once closed), the hash of the last record, its
  64-bit index and whether a failed write has poisoned it. SHA-256 and the JSON text of an event are
  parameters; the canonical form of an event, the chain and the recovery are the code's own. The
  current time enters as its RFC 3339 text.

  The lemmas show that every appended record verifies, that recovery resumes where the log stopped,
  and that two logs that verify and end in the same hash are equal unless SHA-256 collides.
\<close>

datatype audit_error =
    Audit_ErrUnhealthy | Audit_ErrChainBroken | Audit_ErrRecordTooLarge | Audit_ErrCorrupt | Audit_ErrIO

definition GenesisPrevHash :: bytes where
  "GenesisPrevHash = ''sha256:e3b0c44298fc1c149afbf4c8996fb92427ae41e490166ae4ba7b5b37bcd8deac''"

definition maxEventString :: nat where "maxEventString = 4096"
definition maxEventHops :: nat where "maxEventHops = 32"

record event =
  ev_Timestamp :: bytes
  ev_EventType :: bytes
  ev_ReasonCode :: bytes
  ev_Txn :: bytes
  ev_JTI :: bytes
  ev_AgentID :: bytes
  ev_Workload :: bytes
  ev_Principal :: bytes
  ev_Audience :: bytes
  ev_Scope :: bytes
  ev_Depth :: int
  ev_Hops :: "bytes list"
  ev_Hash :: bytes
  ev_PrevHash :: bytes
  ev_ChainIndex :: "64 word"

record audit_env =
  au_Sum256 :: "bytes \<Rightarrow> bytes"
  Marshal_event :: "event \<Rightarrow> bytes"
  Probe_event :: "bytes \<Rightarrow> bytes list option"
  Strict_event :: "bytes \<Rightarrow> event option"

record logger =
  lg_file :: "bytes option"
  lg_prevHash :: bytes
  lg_chainIndex :: "64 word"
  lg_poisoned :: bool

section \<open>Canonical events\<close>

function trim_valid :: "bytes \<Rightarrow> bytes" where
  "trim_valid s = (if s \<noteq> [] \<and> \<not> ValidString s then trim_valid (butlast s) else s)"
  by pat_completeness auto
termination
  by (relation "measure length") auto

declare trim_valid.simps [simp del]

definition boundEventString :: "bytes \<Rightarrow> bytes" where
  "boundEventString s =
    (let s' = (if \<not> ValidString s then ToValidUTF8 s else s) in
     if length s' \<le> maxEventString then s' else trim_valid (take maxEventString s'))"

definition canonicalizeEvent :: "event \<Rightarrow> event" where
  "canonicalizeEvent e =
    e\<lparr>ev_Timestamp := boundEventString (ev_Timestamp e),
      ev_EventType := boundEventString (ev_EventType e),
      ev_ReasonCode := boundEventString (ev_ReasonCode e),
      ev_Txn := boundEventString (ev_Txn e),
      ev_JTI := boundEventString (ev_JTI e),
      ev_AgentID := boundEventString (ev_AgentID e),
      ev_Workload := boundEventString (ev_Workload e),
      ev_Principal := boundEventString (ev_Principal e),
      ev_Audience := boundEventString (ev_Audience e),
      ev_Scope := boundEventString (ev_Scope e),
      ev_Hash := boundEventString (ev_Hash e),
      ev_PrevHash := boundEventString (ev_PrevHash e),
      ev_Hops := map boundEventString
        (if length (ev_Hops e) > maxEventHops then take maxEventHops (ev_Hops e) else ev_Hops e)\<rparr>"

definition eventCanonEqual :: "event \<Rightarrow> event \<Rightarrow> bool" where
  "eventCanonEqual a b \<longleftrightarrow>
    (if ev_Timestamp a \<noteq> ev_Timestamp b \<or> ev_EventType a \<noteq> ev_EventType b \<or>
        ev_ReasonCode a \<noteq> ev_ReasonCode b \<or> ev_Txn a \<noteq> ev_Txn b \<or> ev_JTI a \<noteq> ev_JTI b \<or>
        ev_AgentID a \<noteq> ev_AgentID b \<or> ev_Workload a \<noteq> ev_Workload b \<or>
        ev_Principal a \<noteq> ev_Principal b \<or> ev_Audience a \<noteq> ev_Audience b \<or>
        ev_Scope a \<noteq> ev_Scope b \<or> ev_Hash a \<noteq> ev_Hash b \<or> ev_PrevHash a \<noteq> ev_PrevHash b
     then False
     else if length (ev_Hops a) \<noteq> length (ev_Hops b) then False
     else list_all2 (=) (ev_Hops a) (ev_Hops b))"

definition payloadHash :: "('a audit_env_scheme) \<Rightarrow> event \<Rightarrow> bytes" where
  "payloadHash J e =
    ''sha256:'' @ hex_encode (au_Sum256 J (Marshal_event J ((canonicalizeEvent e)\<lparr>ev_Hash := []\<rparr>)))"

section \<open>Verification and recovery\<close>

definition verifyEvent :: "('a audit_env_scheme) \<Rightarrow> event \<Rightarrow> bytes \<Rightarrow> 64 word \<Rightarrow> audit_error option" where
  "verifyEvent J e prv wantIndex =
    (if ev_PrevHash e \<noteq> prv then Some Audit_ErrChainBroken
     else if ev_ChainIndex e \<noteq> wantIndex then Some Audit_ErrChainBroken
     else if \<not> eventCanonEqual e (canonicalizeEvent e) then Some Audit_ErrChainBroken
     else if ev_Hash e \<noteq> payloadHash J e then Some Audit_ErrChainBroken
     else None)"

definition required_fields :: "bytes list" where
  "required_fields =
    [''timestamp'', ''event_type'', ''reason_code'', ''hash'', ''prev_hash'', ''chain_index'']"

definition decodeAuditRecord :: "('a audit_env_scheme) \<Rightarrow> bytes \<Rightarrow> audit_error + event" where
  "decodeAuditRecord J raw =
    (case Probe_event J raw of
       None \<Rightarrow> Inl Audit_ErrCorrupt
     | Some ms \<Rightarrow>
         if list_ex (\<lambda>f. f \<notin> set ms) required_fields then Inl Audit_ErrCorrupt
         else (case Strict_event J raw of
           None \<Rightarrow> Inl Audit_ErrCorrupt
         | Some e \<Rightarrow>
             if ev_EventType e = [] \<or> ev_ReasonCode e = [] \<or> ev_Hash e = [] \<or> ev_PrevHash e = [] \<or>
                ev_ChainIndex e = 0 then Inl Audit_ErrCorrupt
             else Inr e))"

definition decodeAndVerify ::
  "('a audit_env_scheme) \<Rightarrow> bytes \<Rightarrow> bytes \<Rightarrow> 64 word \<Rightarrow> audit_error + event" where
  "decodeAndVerify J raw prv wantIndex =
    (case decodeAuditRecord J raw of
       Inl e \<Rightarrow> Inl e
     | Inr ev \<Rightarrow> (case verifyEvent J ev prv wantIndex of Some e \<Rightarrow> Inl e | None \<Rightarrow> Inr ev))"

text \<open>The loop of \<^verbatim>\<open>recover\<close>: the last event and the position in the chain.\<close>

fun recover_events ::
  "('a audit_env_scheme) \<Rightarrow> bytes \<Rightarrow> 64 word \<Rightarrow> event option \<Rightarrow> bytes list \<Rightarrow>
    audit_error + (64 word \<times> event option)" where
  "recover_events J prv index lst [] = Inr (index, lst)"
| "recover_events J prv index lst (raw # ls) =
    (if length raw \<ge> max_line then Inl Audit_ErrIO
     else if dropCR raw = [] then recover_events J prv index lst ls
     else (case decodeAndVerify J (dropCR raw) prv (index + 1) of
       Inl e \<Rightarrow> Inl e
     | Inr ev \<Rightarrow> recover_events J (ev_Hash ev) (ev_ChainIndex ev) (Some ev) ls))"

text \<open>\<^verbatim>\<open>NewLogger\<close> on a file that could be opened and read.\<close>

definition NewLogger :: "('a audit_env_scheme) \<Rightarrow> bytes \<Rightarrow> audit_error + logger" where
  "NewLogger J log =
    (case recover_events J GenesisPrevHash 0 None (raw_lines log) of
       Inl e \<Rightarrow> Inl e
     | Inr (index, lst) \<Rightarrow>
         if index = 0 then
           Inr \<lparr>lg_file = Some log, lg_prevHash = GenesisPrevHash, lg_chainIndex = 0, lg_poisoned = False\<rparr>
         else
           Inr \<lparr>lg_file = Some log, lg_prevHash = ev_Hash (the lst),
                lg_chainIndex = ev_ChainIndex (the lst), lg_poisoned = False\<rparr>)"

section \<open>Append\<close>

definition logger_Close :: "logger \<Rightarrow> logger" where
  "logger_Close l = l\<lparr>lg_file := None\<rparr>"

text \<open>The record that \<^verbatim>\<open>Append\<close> writes for an event, \<open>stamp\<close> being the formatted current time.\<close>

definition chained_event :: "('a audit_env_scheme) \<Rightarrow> logger \<Rightarrow> bytes \<Rightarrow> event \<Rightarrow> event" where
  "chained_event J l stamp e =
    (let e1 = canonicalizeEvent e;
         e2 = (if ev_Timestamp e1 = [] then e1\<lparr>ev_Timestamp := stamp\<rparr> else e1);
         e3 = e2\<lparr>ev_PrevHash := lg_prevHash l, ev_ChainIndex := lg_chainIndex l + 1\<rparr>
     in e3\<lparr>ev_Hash := payloadHash J e3\<rparr>)"

definition Append ::
  "('a audit_env_scheme) \<Rightarrow> logger \<Rightarrow> bytes \<Rightarrow> io_outcome \<Rightarrow> event \<Rightarrow> audit_error option \<times> logger" where
  "Append J l stamp io e =
    (if lg_poisoned l then (Some Audit_ErrUnhealthy, l)
     else (case lg_file l of
       None \<Rightarrow> (Some Audit_ErrUnhealthy, l)
     | Some log \<Rightarrow>
         (let ev = chained_event J l stamp e; line = Marshal_event J ev in
          if length line + 1 > max_line then (Some Audit_ErrRecordTooLarge, l)
          else (case append_bytes io log (line @ [CHR 0x0A]) of
            (False, log') \<Rightarrow> (Some Audit_ErrIO, l\<lparr>lg_file := Some log', lg_poisoned := True\<rparr>)
          | (True, log') \<Rightarrow>
              (None, l\<lparr>lg_file := Some log', lg_prevHash := ev_Hash ev,
                       lg_chainIndex := ev_ChainIndex ev\<rparr>)))))"

section \<open>Canonical events: lemmas\<close>

definition bounded_string :: "bytes \<Rightarrow> bool" where
  "bounded_string s \<longleftrightarrow> ValidString s \<and> length s \<le> maxEventString"

lemma trim_valid_valid: "ValidString (trim_valid s)"
proof (induction s rule: trim_valid.induct)
  case (1 s)
  then show ?case by (subst trim_valid.simps) auto
qed

lemma trim_valid_length: "length (trim_valid s) \<le> length s"
proof (induction s rule: trim_valid.induct)
  case (1 s)
  then show ?case by (subst trim_valid.simps) (auto intro: order_trans)
qed

lemma bounded_boundEventString [simp]: "bounded_string (boundEventString s)"
  using ToValidUTF8_valid[of s] trim_valid_valid
  by (auto simp: boundEventString_def bounded_string_def Let_def
      intro: order_trans[OF trim_valid_length])

lemma boundEventString_id [simp]: "bounded_string s \<Longrightarrow> boundEventString s = s"
  by (simp add: boundEventString_def bounded_string_def)

lemma bounded_string_iff: "boundEventString s = s \<longleftrightarrow> bounded_string s"
  by (metis boundEventString_id bounded_boundEventString)

lemma bounded_string_Nil [simp]: "bounded_string []"
  by (simp add: bounded_string_def)

definition canonical :: "event \<Rightarrow> bool" where
  "canonical e \<longleftrightarrow>
    list_all bounded_string [ev_Timestamp e, ev_EventType e, ev_ReasonCode e, ev_Txn e, ev_JTI e,
      ev_AgentID e, ev_Workload e, ev_Principal e, ev_Audience e, ev_Scope e, ev_Hash e, ev_PrevHash e] \<and>
    list_all bounded_string (ev_Hops e) \<and> length (ev_Hops e) \<le> maxEventHops"

lemma map_bound_id: "list_all bounded_string hs \<Longrightarrow> map boundEventString hs = hs"
  by (induction hs) simp_all

lemma canonicalize_canonical [simp]: "canonical (canonicalizeEvent e)"
  by (auto simp: canonical_def canonicalizeEvent_def list_all_iff min_def)

lemma canonicalize_id: "canonical e \<Longrightarrow> canonicalizeEvent e = e"
  by (cases e) (simp add: canonical_def canonicalizeEvent_def map_bound_id)

lemma canonicalize_iff: "canonicalizeEvent e = e \<longleftrightarrow> canonical e"
  by (metis canonicalize_canonical canonicalize_id)

lemma eventCanonEqual_iff: "eventCanonEqual e (canonicalizeEvent e) \<longleftrightarrow> canonical e"
proof -
  have "eventCanonEqual e (canonicalizeEvent e) \<longleftrightarrow> canonicalizeEvent e = e"
    by (cases e) (auto simp: eventCanonEqual_def canonicalizeEvent_def list.rel_eq
        dest: arg_cong[of _ _ length])
  then show ?thesis by (simp add: canonicalize_iff)
qed

lemma ValidString_ascii: "list_all (\<lambda>c. byte_of c < 128) s \<Longrightarrow> ValidString s"
  by (induction s) (simp, subst ValidString.simps, simp add: rune_len_def lead_def)

lemma hex_digit_ascii: "byte_of (hex_digit n) < 128"
proof -
  have "list_all (\<lambda>c. byte_of c < 128) ''0123456789abcdef''" by code_simp
  moreover have "n mod 16 < length ''0123456789abcdef''" by simp
  ultimately show ?thesis unfolding hex_digit_def list_all_length by blast
qed

lemma hex_encode_ascii: "list_all (\<lambda>c. byte_of c < 128) (hex_encode s)"
  by (induction s) (simp_all add: hex_encode_def hex_digit_ascii)

text \<open>The payload an event's hash covers: the event without its hash, in canonical form.\<close>

definition payload :: "('a audit_env_scheme) \<Rightarrow> event \<Rightarrow> bytes" where
  "payload J e = Marshal_event J ((canonicalizeEvent e)\<lparr>ev_Hash := []\<rparr>)"

lemma payloadHash_payload: "payloadHash J e = ''sha256:'' @ hex_encode (au_Sum256 J (payload J e))"
  by (simp add: payloadHash_def payload_def)

lemma bounded_payloadHash:
  assumes "\<And>m. length (au_Sum256 J m) \<le> 32"
  shows "bounded_string (payloadHash J e)"
proof -
  have "list_all (\<lambda>c. byte_of c < 128) ''sha256:''" by code_simp
  then have "ValidString (payloadHash J e)"
    unfolding payloadHash_def by (intro ValidString_ascii) (simp add: hex_encode_ascii)
  moreover have "length (payloadHash J e) \<le> maxEventString"
    using assms[of "payload J e"] by (simp add: payloadHash_payload maxEventString_def)
  ultimately show ?thesis by (simp add: bounded_string_def)
qed

lemma verifyEvent_None:
  "verifyEvent J e prv want = None \<longleftrightarrow>
    ev_PrevHash e = prv \<and> ev_ChainIndex e = want \<and> canonical e \<and> ev_Hash e = payloadHash J e"
  by (simp add: verifyEvent_def eventCanonEqual_iff)

lemma payload_hash_irrelevant: "canonical e \<Longrightarrow> bounded_string h \<Longrightarrow> payload J (e\<lparr>ev_Hash := h\<rparr>) = payload J e"
proof -
  assume a: "canonical e" "bounded_string h"
  then have "canonical (e\<lparr>ev_Hash := h\<rparr>)" by (simp add: canonical_def)
  with a show ?thesis by (simp add: payload_def canonicalize_id)
qed

section \<open>Appended records verify\<close>

definition logger_ok :: "logger \<Rightarrow> bool" where
  "logger_ok l \<longleftrightarrow> bounded_string (lg_prevHash l)"

lemma chained_event_verifies:
  assumes "\<And>m. length (au_Sum256 J m) \<le> 32" "bounded_string stamp" "bounded_string (lg_prevHash l)"
  shows "verifyEvent J (chained_event J l stamp e) (lg_prevHash l) (lg_chainIndex l + 1) = None"
proof -
  define e3 where "e3 = (let e1 = canonicalizeEvent e;
      e2 = (if ev_Timestamp e1 = [] then e1\<lparr>ev_Timestamp := stamp\<rparr> else e1)
    in e2\<lparr>ev_PrevHash := lg_prevHash l, ev_ChainIndex := lg_chainIndex l + 1\<rparr>)"
  have ce: "chained_event J l stamp e = e3\<lparr>ev_Hash := payloadHash J e3\<rparr>"
    by (simp add: chained_event_def e3_def Let_def)
  have "canonical (canonicalizeEvent e)" by simp
  then have can: "canonical e3"
    using assms(2,3) by (auto simp: e3_def Let_def canonical_def)
  note bnd = bounded_payloadHash[OF assms(1), of e3]
  from can bnd have "canonical (e3\<lparr>ev_Hash := payloadHash J e3\<rparr>)" by (simp add: canonical_def)
  moreover have "payloadHash J (e3\<lparr>ev_Hash := payloadHash J e3\<rparr>) = payloadHash J e3"
    using payload_hash_irrelevant[OF can bnd] by (metis payloadHash_payload)
  moreover have "ev_PrevHash e3 = lg_prevHash l" "ev_ChainIndex e3 = lg_chainIndex l + 1"
    by (simp_all add: e3_def Let_def)
  ultimately show ?thesis by (simp add: verifyEvent_None ce)
qed

section \<open>Recovery\<close>

definition head_hash :: "event option \<Rightarrow> bytes" where
  "head_hash lst = (case lst of None \<Rightarrow> GenesisPrevHash | Some e \<Rightarrow> ev_Hash e)"

definition head_index :: "event option \<Rightarrow> 64 word" where
  "head_index lst = (case lst of None \<Rightarrow> 0 | Some e \<Rightarrow> ev_ChainIndex e)"

lemma head_simps [simp]:
  "head_hash None = GenesisPrevHash" "head_hash (Some e) = ev_Hash e"
  "head_index None = 0" "head_index (Some e) = ev_ChainIndex e"
  by (simp_all add: head_hash_def head_index_def)

text \<open>The events of the lines, checked as one chain from the event before them.\<close>

fun chain_events :: "('a audit_env_scheme) \<Rightarrow> event option \<Rightarrow> bytes list \<Rightarrow> audit_error + event list" where
  "chain_events J lst [] = Inr []"
| "chain_events J lst (raw # ls) =
    (if length raw \<ge> max_line then Inl Audit_ErrIO
     else if dropCR raw = [] then chain_events J lst ls
     else (case decodeAndVerify J (dropCR raw) (head_hash lst) (head_index lst + 1) of
       Inl e \<Rightarrow> Inl e
     | Inr ev \<Rightarrow> (case chain_events J (Some ev) ls of Inl e \<Rightarrow> Inl e | Inr evs \<Rightarrow> Inr (ev # evs))))"

definition last_event :: "event option \<Rightarrow> event list \<Rightarrow> event option" where
  "last_event lst evs = (if evs = [] then lst else Some (last evs))"

lemma last_event_simps [simp]:
  "last_event lst [] = lst" "last_event lst (e # es) = last_event (Some e) es"
  "last_event lst (es @ [e]) = Some e"
  by (simp_all add: last_event_def)

lemma recover_events_chain:
  "recover_events J (head_hash lst) (head_index lst) lst ls =
    (case chain_events J lst ls of
       Inl e \<Rightarrow> Inl e
     | Inr evs \<Rightarrow> Inr (head_index (last_event lst evs), last_event lst evs))"
proof (induction ls arbitrary: lst)
  case (Cons raw ls)
  from Cons[of lst] Cons[of "Some ev" for ev] show ?case
    by (auto split: sum.splits)
qed simp

lemma chain_events_snoc:
  assumes "chain_events J lst ls = Inr evs" "length raw < max_line" "dropCR raw \<noteq> []"
    and "decodeAndVerify J (dropCR raw) (head_hash (last_event lst evs))
      (head_index (last_event lst evs) + 1) = Inr ev"
  shows "chain_events J lst (ls @ [raw]) = Inr (evs @ [ev])"
  using assms by (induction ls arbitrary: lst evs) (auto split: sum.splits if_splits)

lemma decodeAndVerify_Inr:
  "decodeAndVerify J raw prv want = Inr ev \<Longrightarrow>
    verifyEvent J ev prv want = None \<and> ev_ChainIndex ev \<noteq> 0"
  by (auto simp: decodeAndVerify_def decodeAuditRecord_def split: option.splits sum.splits if_splits)

lemma chain_events_nonzero: "chain_events J lst ls = Inr evs \<Longrightarrow> e \<in> set evs \<Longrightarrow> ev_ChainIndex e \<noteq> 0"
  by (induction ls arbitrary: lst evs)
    (auto split: sum.splits if_splits dest!: decodeAndVerify_Inr)

lemma last_event_nonzero:
  assumes "chain_events J None ls = Inr evs"
  shows "head_index (last_event None evs) = 0 \<longleftrightarrow> evs = []"
  using chain_events_nonzero[OF assms] by (auto simp: last_event_def)

text \<open>The logger that \<^verbatim>\<open>NewLogger\<close> makes of a log.\<close>

lemma NewLogger_Inr:
  assumes "\<forall>l \<in> set ls. CHR 0x0A \<notin> set l"
  shows "NewLogger J (unlines ls) = Inr lg \<longleftrightarrow>
    (\<exists>evs. chain_events J None ls = Inr evs \<and>
      lg = \<lparr>lg_file = Some (unlines ls), lg_prevHash = head_hash (last_event None evs),
            lg_chainIndex = head_index (last_event None evs), lg_poisoned = False\<rparr>)"
proof (cases "chain_events J None ls")
  case (Inl e)
  then show ?thesis using recover_events_chain[of J None ls]
    by (simp add: NewLogger_def raw_lines_unlines[OF assms])
next
  case (Inr evs)
  then show ?thesis using recover_events_chain[of J None ls] last_event_nonzero[OF Inr]
    by (auto simp: NewLogger_def raw_lines_unlines[OF assms] last_event_def)
qed

text \<open>What the JSON codec does with a canonical event.\<close>

definition event_codec :: "('a audit_env_scheme) \<Rightarrow> bool" where
  "event_codec J \<longleftrightarrow>
    (\<forall>m. length (au_Sum256 J m) \<le> 32) \<and>
    (\<forall>e. canonical e \<longrightarrow> Strict_event J (Marshal_event J e) = Some e \<and>
       (\<exists>ms. Probe_event J (Marshal_event J e) = Some ms \<and> set required_fields \<subseteq> set ms) \<and>
       Marshal_event J e \<noteq> [] \<and> CHR 0x0A \<notin> set (Marshal_event J e) \<and>
       dropCR (Marshal_event J e) = Marshal_event J e)"

definition named_event :: "event \<Rightarrow> bool" where
  "named_event e \<longleftrightarrow> boundEventString (ev_EventType e) \<noteq> [] \<and> boundEventString (ev_ReasonCode e) \<noteq> []"

lemma chained_event_named:
  "named_event e \<Longrightarrow> ev_EventType (chained_event J l stamp e) \<noteq> [] \<and>
    ev_ReasonCode (chained_event J l stamp e) \<noteq> []"
  by (simp add: named_event_def chained_event_def Let_def canonicalizeEvent_def)

lemma chained_event_decodes:
  assumes "event_codec J" "bounded_string stamp" "bounded_string (lg_prevHash l)" "named_event e"
    and "lg_prevHash l \<noteq> []" "lg_chainIndex l + 1 \<noteq> 0"
  defines "ev \<equiv> chained_event J l stamp e"
  shows "decodeAndVerify J (Marshal_event J ev) (lg_prevHash l) (lg_chainIndex l + 1) = Inr ev"
proof -
  have v: "verifyEvent J ev (lg_prevHash l) (lg_chainIndex l + 1) = None"
    unfolding ev_def by (rule chained_event_verifies) (use assms in \<open>simp_all add: event_codec_def\<close>)
  then have c: "canonical ev" "ev_PrevHash ev = lg_prevHash l" "ev_ChainIndex ev = lg_chainIndex l + 1"
    "ev_Hash ev = payloadHash J ev"
    by (simp_all add: verifyEvent_None)
  from assms(1) c(1) obtain ms where "Strict_event J (Marshal_event J ev) = Some ev"
    "Probe_event J (Marshal_event J ev) = Some ms" "set required_fields \<subseteq> set ms"
    unfolding event_codec_def by blast
  moreover from this(3) have "\<not> list_ex (\<lambda>f. f \<notin> set ms) required_fields"
    by (auto simp: list_ex_iff)
  moreover have "payloadHash J ev \<noteq> []" by (simp add: payloadHash_def)
  ultimately show ?thesis
    using v c assms(5,6) chained_event_named[OF assms(4), of J l stamp]
    by (simp add: decodeAndVerify_def decodeAuditRecord_def flip: ev_def)
qed

section \<open>Runs of the logger\<close>

record append_op =
  ao_stamp :: bytes
  ao_io :: io_outcome
  ao_event :: event

definition append_step :: "('a audit_env_scheme) \<Rightarrow> logger \<Rightarrow> append_op \<Rightarrow> logger \<times> bool" where
  "append_step J l op =
    (let (e, l') = Append J l (ao_stamp op) (ao_io op) (ao_event op) in (l', e = None))"

definition append_ok :: "append_op \<Rightarrow> bool" where
  "append_ok op \<longleftrightarrow> bounded_string (ao_stamp op) \<and> whole_write (ao_io op) \<and> named_event (ao_event op)"

text \<open>
  The log on disk verifies, and an unpoisoned logger is at its head. A poisoned one may be behind, if
  the record was written but not synced.
\<close>

definition log_agrees :: "('a audit_env_scheme) \<Rightarrow> logger \<Rightarrow> bool" where
  "log_agrees J l \<longleftrightarrow>
    (\<exists>ls evs. lg_file l = Some (unlines ls) \<and> (\<forall>x \<in> set ls. CHR 0x0A \<notin> set x) \<and>
       chain_events J None ls = Inr evs \<and>
       (\<not> lg_poisoned l \<longrightarrow> lg_prevHash l = head_hash (last_event None evs) \<and>
          lg_chainIndex l = head_index (last_event None evs)))"

definition head_ok :: "logger \<Rightarrow> bool" where
  "head_ok l \<longleftrightarrow> bounded_string (lg_prevHash l) \<and> lg_prevHash l \<noteq> []"

lemma log_agrees_append:
  assumes "event_codec J" "log_agrees J l" "head_ok l" "append_ok op" "\<not> lg_poisoned l"
    and "lg_chainIndex l + 1 \<noteq> 0" "lg_file l = Some log"
  defines "ev \<equiv> chained_event J l (ao_stamp op) (ao_event op)"
  assumes small: "length (Marshal_event J ev) + 1 \<le> max_line"
  shows "log_agrees J (l\<lparr>lg_file := Some (log @ Marshal_event J ev @ [CHR 0x0A]), lg_poisoned := True\<rparr>)"
    and "log_agrees J (l\<lparr>lg_file := Some (log @ Marshal_event J ev @ [CHR 0x0A]),
      lg_prevHash := ev_Hash ev, lg_chainIndex := ev_ChainIndex ev\<rparr>)"
proof -
  from assms(2,5,7) obtain ls evs where ls: "log = unlines ls" "\<forall>x \<in> set ls. CHR 0x0A \<notin> set x"
    "chain_events J None ls = Inr evs" "lg_prevHash l = head_hash (last_event None evs)"
    "lg_chainIndex l = head_index (last_event None evs)"
    unfolding log_agrees_def by auto
  have dec: "decodeAndVerify J (Marshal_event J ev) (lg_prevHash l) (lg_chainIndex l + 1) = Inr ev"
    unfolding ev_def using assms(1,3,4,6)
    by (intro chained_event_decodes) (simp_all add: append_ok_def head_ok_def)
  then have "canonical ev" by (auto dest!: decodeAndVerify_Inr simp: verifyEvent_None)
  with assms(1) have line: "Marshal_event J ev \<noteq> []" "CHR 0x0A \<notin> set (Marshal_event J ev)"
    "dropCR (Marshal_event J ev) = Marshal_event J ev"
    by (simp_all add: event_codec_def)
  have chain: "chain_events J None (ls @ [Marshal_event J ev]) = Inr (evs @ [ev])"
    by (rule chain_events_snoc[OF ls(3)]) (use line dec small ls(4,5) in simp_all)
  have grown: "log @ Marshal_event J ev @ [CHR 0x0A] = unlines (ls @ [Marshal_event J ev])"
    by (simp add: ls(1))
  show "log_agrees J (l\<lparr>lg_file := Some (log @ Marshal_event J ev @ [CHR 0x0A]), lg_poisoned := True\<rparr>)"
    unfolding log_agrees_def grown using chain ls(2) line(2)
    by (intro exI[of _ "ls @ [Marshal_event J ev]"] exI[of _ "evs @ [ev]"]) simp
  show "log_agrees J (l\<lparr>lg_file := Some (log @ Marshal_event J ev @ [CHR 0x0A]),
      lg_prevHash := ev_Hash ev, lg_chainIndex := ev_ChainIndex ev\<rparr>)"
    unfolding log_agrees_def grown using chain ls(2) line(2) assms(5)
    by (intro exI[of _ "ls @ [Marshal_event J ev]"] exI[of _ "evs @ [ev]"]) simp
qed

lemma append_step_cases:
  obtains (kept) "fst (append_step J l op) = l" "\<not> snd (append_step J l op)"
  | (failed) log log' where "lg_file l = Some log" "\<not> lg_poisoned l" "\<not> snd (append_step J l op)"
      "length (Marshal_event J (chained_event J l (ao_stamp op) (ao_event op))) + 1 \<le> max_line"
      "append_bytes (ao_io op) log
         (Marshal_event J (chained_event J l (ao_stamp op) (ao_event op)) @ [CHR 0x0A]) = (False, log')"
      "fst (append_step J l op) = l\<lparr>lg_file := Some log', lg_poisoned := True\<rparr>"
  | (grown) log where "lg_file l = Some log" "\<not> lg_poisoned l" "snd (append_step J l op)"
      "length (Marshal_event J (chained_event J l (ao_stamp op) (ao_event op))) + 1 \<le> max_line"
      "fst (append_step J l op) =
        l\<lparr>lg_file := Some (log @ Marshal_event J (chained_event J l (ao_stamp op) (ao_event op)) @ [CHR 0x0A]),
          lg_prevHash := ev_Hash (chained_event J l (ao_stamp op) (ao_event op)),
          lg_chainIndex := ev_ChainIndex (chained_event J l (ao_stamp op) (ao_event op))\<rparr>"
proof -
  let ?ev = "chained_event J l (ao_stamp op) (ao_event op)"
  show ?thesis
  proof (cases "lg_poisoned l \<or> lg_file l = None \<or> max_line < length (Marshal_event J ?ev) + 1")
    case True
    then have "append_step J l op = (l, False)"
      by (auto simp: append_step_def Append_def Let_def split: option.split)
    then show ?thesis using kept by simp
  next
    case False
    then obtain log where f: "lg_file l = Some log" by auto
    obtain ok log' where a: "append_bytes (ao_io op) log (Marshal_event J ?ev @ [CHR 0x0A]) = (ok, log')"
      by (cases "append_bytes (ao_io op) log (Marshal_event J ?ev @ [CHR 0x0A])")
    from False f a have st: "append_step J l op =
        (if ok then (l\<lparr>lg_file := Some log', lg_prevHash := ev_Hash ?ev, lg_chainIndex := ev_ChainIndex ?ev\<rparr>, True)
         else (l\<lparr>lg_file := Some log', lg_poisoned := True\<rparr>, False))"
      by (auto simp: append_step_def Append_def Let_def)
    show ?thesis
    proof (cases ok)
      case True
      with a have "log' = log @ Marshal_event J ?ev @ [CHR 0x0A]" using append_bytes_True by force
      with st True f False show ?thesis by (intro grown[of log]) auto
    next
      case nok: False
      with st a f False show ?thesis by (intro failed[of log log']) auto
    qed
  qed
qed

lemma chained_event_heads:
  assumes "event_codec J" "append_ok op" "head_ok l"
  shows "ev_ChainIndex (chained_event J l (ao_stamp op) (ao_event op)) = lg_chainIndex l + 1"
    and "bounded_string (ev_Hash (chained_event J l (ao_stamp op) (ao_event op)))"
    and "ev_Hash (chained_event J l (ao_stamp op) (ao_event op)) \<noteq> []"
proof -
  have "verifyEvent J (chained_event J l (ao_stamp op) (ao_event op)) (lg_prevHash l)
      (lg_chainIndex l + 1) = None"
    by (rule chained_event_verifies)
      (use assms in \<open>simp_all add: event_codec_def append_ok_def head_ok_def\<close>)
  then show "ev_ChainIndex (chained_event J l (ao_stamp op) (ao_event op)) = lg_chainIndex l + 1"
    "bounded_string (ev_Hash (chained_event J l (ao_stamp op) (ao_event op)))"
    "ev_Hash (chained_event J l (ao_stamp op) (ao_event op)) \<noteq> []"
    by (auto simp: verifyEvent_None canonical_def payloadHash_def)
qed

lemma append_step_keeps:
  assumes "event_codec J" "append_ok op" "lg_chainIndex l + 1 \<noteq> 0" "log_agrees J l \<and> head_ok l"
  shows "log_agrees J (fst (append_step J l op)) \<and> head_ok (fst (append_step J l op))"
proof (cases rule: append_step_cases[of J l op])
  case kept
  with assms(4) show ?thesis by simp
next
  case (failed log log')
  let ?line = "Marshal_event J (chained_event J l (ao_stamp op) (ao_event op)) @ [CHR 0x0A]"
  have "log' \<in> {log, log @ ?line}"
    using assms(2) failed(5) append_bytes_whole[of "ao_io op" log ?line] by (auto simp: append_ok_def)
  moreover have "log_agrees J (l\<lparr>lg_file := Some log, lg_poisoned := True\<rparr>)"
    using assms(4) failed(1) by (auto simp: log_agrees_def)
  moreover have "log_agrees J (l\<lparr>lg_file := Some (log @ ?line), lg_poisoned := True\<rparr>)"
    using log_agrees_append(1)[of J l op log] assms failed by simp
  ultimately show ?thesis using failed(6) assms(4) by (auto simp: head_ok_def)
next
  case (grown log)
  have "log_agrees J (fst (append_step J l op))"
    unfolding grown(5) using log_agrees_append(2)[of J l op log] assms grown by simp
  moreover have "head_ok (fst (append_step J l op))"
    unfolding grown(5) head_ok_def using chained_event_heads[OF assms(1,2), of l] assms(4) by simp
  ultimately show ?thesis ..
qed

lemma append_step_index:
  assumes "event_codec J" "append_ok op" "head_ok l"
  shows "lg_chainIndex (fst (append_step J l op)) \<in> {lg_chainIndex l, lg_chainIndex l + 1}"
  by (cases rule: append_step_cases[of J l op]) (use chained_event_heads[OF assms] in auto)

lemma unat_Suc_le: "unat (w + 1 :: 64 word) \<le> unat w + 1"
proof -
  have "unat (w + 1) = (unat w + 1) mod 2 ^ 64" by (simp add: unat_word_ariths)
  also have "\<dots> \<le> unat w + 1" by (rule mod_less_eq_dividend)
  finally show ?thesis .
qed

lemma index_no_wrap:
  assumes "unat (w :: 64 word) + 1 < 2 ^ 64"
  shows "w + 1 \<noteq> 0"
proof -
  have "unat (w + 1) = (unat w + 1) mod 2 ^ 64" by (simp add: unat_word_ariths)
  with assms have "unat (w + 1) = unat w + 1" by simp
  then show ?thesis by (metis Suc_eq_plus1 nat.distinct(1) unat_0)
qed

lemma append_run_keeps:
  assumes "event_codec J" "\<forall>op \<in> set ops. append_ok op"
    and "unat (lg_chainIndex l) + length ops < 2 ^ 64" "log_agrees J l \<and> head_ok l"
  shows "log_agrees J (final (append_step J) l ops) \<and> head_ok (final (append_step J) l ops)"
  using assms(2-4)
proof (induction ops arbitrary: l)
  case (Cons op ops)
  have "lg_chainIndex l + 1 \<noteq> 0"
    by (rule index_no_wrap) (use Cons.prems(2) in simp)
  then have keep: "log_agrees J (fst (append_step J l op)) \<and> head_ok (fst (append_step J l op))"
    using Cons.prems by (intro append_step_keeps[OF assms(1)]) auto
  have "unat (lg_chainIndex (fst (append_step J l op))) \<le> unat (lg_chainIndex l) + 1"
    using append_step_index[OF assms(1), of op l] Cons.prems unat_Suc_le[of "lg_chainIndex l"] by auto
  with Cons.IH[of "fst (append_step J l op)"] Cons.prems keep show ?case by simp
qed simp

lemma chain_events_verified:
  "chain_events J lst ls = Inr evs \<Longrightarrow> e \<in> set evs \<Longrightarrow> canonical e \<and> ev_Hash e = payloadHash J e"
  by (induction ls arbitrary: lst evs)
    (auto split: sum.splits if_splits dest!: decodeAndVerify_Inr simp: verifyEvent_None)

lemma bounded_Genesis: "bounded_string GenesisPrevHash"
proof -
  have "list_all (\<lambda>c. byte_of c < 128) GenesisPrevHash" by code_simp
  then show ?thesis
    by (simp add: bounded_string_def ValidString_ascii) (simp add: GenesisPrevHash_def maxEventString_def)
qed

lemma NewLogger_agrees:
  assumes "NewLogger J (unlines ls) = Inr l" "\<forall>x \<in> set ls. CHR 0x0A \<notin> set x"
  shows "log_agrees J l \<and> head_ok l"
proof -
  from assms obtain evs where evs: "chain_events J None ls = Inr evs"
    "l = \<lparr>lg_file = Some (unlines ls), lg_prevHash = head_hash (last_event None evs),
          lg_chainIndex = head_index (last_event None evs), lg_poisoned = False\<rparr>"
    by (auto simp: NewLogger_Inr)
  have "bounded_string (head_hash (last_event None evs)) \<and> head_hash (last_event None evs) \<noteq> []"
  proof (cases "evs = []")
    case True
    then show ?thesis using bounded_Genesis by (simp add: GenesisPrevHash_def)
  next
    case False
    then have "last evs \<in> set evs" by simp
    then have "canonical (last evs)" "ev_Hash (last evs) = payloadHash J (last evs)"
      using chain_events_verified[OF evs(1)] by blast+
    moreover have "payloadHash J (last evs) \<noteq> []" by (simp add: payloadHash_def)
    ultimately show ?thesis using False by (simp add: last_event_def canonical_def)
  qed
  moreover have "log_agrees J l" unfolding log_agrees_def
    using evs assms(2) by (intro exI[of _ ls] exI[of _ evs]) simp
  ultimately show ?thesis by (simp add: head_ok_def evs(2))
qed

section \<open>Tamper evidence\<close>

definition nibbles :: "bytes" where "nibbles = ''0123456789abcdef''"

lemma hex_digit_inj: "m < 16 \<Longrightarrow> n < 16 \<Longrightarrow> hex_digit m = hex_digit n \<longleftrightarrow> m = n"
proof -
  assume "m < 16" "n < 16"
  moreover have "distinct nibbles" by code_simp
  ultimately show ?thesis
    using nth_eq_iff_index_eq[of nibbles m n] by (simp add: hex_digit_def nibbles_def)
qed

lemma hex_encode_inj: "hex_encode a = hex_encode b \<Longrightarrow> a = b"
proof (induction a arbitrary: b)
  case Nil
  then show ?case by (cases b) (simp_all add: hex_encode_def)
next
  case (Cons c a)
  then obtain d b' where b: "b = d # b'" by (cases b) (simp_all add: hex_encode_def)
  let ?m = "of_char c :: nat" and ?n = "of_char d :: nat"
  have lt: "?m < 256" "?n < 256" by simp_all
  from Cons.prems b have eqs: "hex_digit (?m div 16) = hex_digit (?n div 16)"
    "hex_digit (?m mod 16) = hex_digit (?n mod 16)" "hex_encode a = hex_encode b'"
    by (simp_all add: hex_encode_def hex_digit_def)
  have "?m div 16 < 16" "?n div 16 < 16" "?m mod 16 < 16" "?n mod 16 < 16"
    using lt by (simp_all add: less_mult_imp_div_less)
  then have "?m div 16 = ?n div 16" "?m mod 16 = ?n mod 16"
    using eqs(1,2) hex_digit_inj by blast+
  then have "?m = ?n" by (metis div_mult_mod_eq)
  then have "c = d" by simp
  with Cons.IH[OF eqs(3)] b show ?case by simp
qed

text \<open>The decoded events of a log determine its lines up to JSON spelling; two chains with one head agree.\<close>

lemma payload_inj:
  assumes "event_codec J" "canonical a" "canonical b" "payload J a = payload J b" "ev_Hash a = ev_Hash b"
  shows "a = b"
proof -
  have c: "canonical (a\<lparr>ev_Hash := []\<rparr>)" "canonical (b\<lparr>ev_Hash := []\<rparr>)"
    using assms(2,3) by (simp_all add: canonical_def)
  from assms(4) have "Marshal_event J (a\<lparr>ev_Hash := []\<rparr>) = Marshal_event J (b\<lparr>ev_Hash := []\<rparr>)"
    using assms(2,3) by (simp add: payload_def canonicalize_id)
  then have "Some (a\<lparr>ev_Hash := []\<rparr>) = Some (b\<lparr>ev_Hash := []\<rparr>)"
    using c assms(1) unfolding event_codec_def by metis
  with assms(5) show ?thesis by (cases a; cases b) simp
qed

text \<open>A chain of events, read from its head: each names the one before it.\<close>

fun linked :: "('a audit_env_scheme) \<Rightarrow> event option \<Rightarrow> event list \<Rightarrow> bool" where
  "linked J lst [] \<longleftrightarrow> True"
| "linked J lst (e # es) \<longleftrightarrow>
    verifyEvent J e (head_hash lst) (head_index lst + 1) = None \<and> ev_ChainIndex e \<noteq> 0 \<and> linked J (Some e) es"

lemma chain_events_linked: "chain_events J lst ls = Inr evs \<Longrightarrow> linked J lst evs"
  by (induction ls arbitrary: lst evs)
    (auto split: sum.splits if_splits dest!: decodeAndVerify_Inr)

lemma linked_snoc:
  "linked J lst (es @ [e]) \<longleftrightarrow> linked J lst es \<and>
    verifyEvent J e (head_hash (last_event lst es)) (head_index (last_event lst es) + 1) = None \<and>
    ev_ChainIndex e \<noteq> 0"
  by (induction es arbitrary: lst) auto

lemma linked_index_nonzero: "linked J None es \<Longrightarrow> head_index (last_event None es) = 0 \<longleftrightarrow> es = []"
  by (cases es rule: rev_cases) (simp_all add: linked_snoc)

lemma linked_unique:
  assumes codec: "event_codec J"
    and "linked J None es" "linked J None fs" "inj_on (au_Sum256 J) (payload J ` (set es \<union> set fs))"
    and "head_hash (last_event None es) = head_hash (last_event None fs)"
    and "head_index (last_event None es) = head_index (last_event None fs)"
  shows "es = fs"
  using assms(2-)
proof (induction es arbitrary: fs rule: rev_induct)
  case Nil
  then show ?case using linked_index_nonzero[of J fs] by simp
next
  case (snoc e es)
  from snoc.prems have "fs \<noteq> []" using linked_index_nonzero[of J "es @ [e]"] by auto
  then obtain fs' f where fs: "fs = fs' @ [f]" by (cases fs rule: rev_cases) auto
  from snoc.prems fs have l: "linked J None es" "linked J None fs'"
    "verifyEvent J e (head_hash (last_event None es)) (head_index (last_event None es) + 1) = None"
    "verifyEvent J f (head_hash (last_event None fs')) (head_index (last_event None fs') + 1) = None"
    "ev_Hash e = ev_Hash f" "ev_ChainIndex e = ev_ChainIndex f"
    by (simp_all add: linked_snoc)
  then have "payloadHash J e = payloadHash J f" by (simp add: verifyEvent_None)
  then have "hex_encode (au_Sum256 J (payload J e)) = hex_encode (au_Sum256 J (payload J f))"
    by (simp only: payloadHash_payload append_same_eq same_append_eq)
  then have "au_Sum256 J (payload J e) = au_Sum256 J (payload J f)" by (rule hex_encode_inj)
  moreover have "payload J e \<in> payload J ` (set (es @ [e]) \<union> set fs)"
    "payload J f \<in> payload J ` (set (es @ [e]) \<union> set fs)"
    unfolding fs by (rule imageI, simp)+
  ultimately have "payload J e = payload J f" using snoc.prems(3) by (simp only: inj_on_def)
  moreover have "canonical e" "canonical f" using l(3,4) by (simp_all add: verifyEvent_None)
  ultimately have ef: "e = f" using payload_inj[OF codec] l(5) by blast
  have "es = fs'"
  proof (rule snoc.IH[OF l(1,2)])
    show "inj_on (au_Sum256 J) (payload J ` (set es \<union> set fs'))"
      by (rule inj_on_subset[OF snoc.prems(3)]) (auto simp: fs)
  qed (use l(3,4) ef in \<open>auto simp: verifyEvent_None\<close>)
  with ef fs show ?case by simp
qed

section \<open>A concrete instance of the parameters\<close>

text \<open>Bytes in unary, each closed by a comma; fields closed by a semicolon.\<close>

definition unary :: "nat \<Rightarrow> bytes" where "unary n = replicate n CHR ''x''"

definition enc_bytes :: "bytes \<Rightarrow> bytes" where
  "enc_bytes s = concat (map (\<lambda>l. l @ [CHR '','']) (map (\<lambda>c. unary (of_char c)) s))"

definition dec_bytes :: "bytes \<Rightarrow> bytes" where
  "dec_bytes t = map (\<lambda>l. char_of (length l)) (butlast (split_on CHR '','' t))"

lemma dec_enc_bytes [simp]: "dec_bytes (enc_bytes s) = s"
proof -
  have "split_on CHR '','' (enc_bytes s) = map (\<lambda>c. unary (of_char c)) s @ [[]]"
    unfolding enc_bytes_def by (rule split_on_terminated) (simp add: unary_def)
  then show ?thesis by (simp add: dec_bytes_def unary_def comp_def)
qed

lemma enc_bytes_chars: "set (enc_bytes s) \<subseteq> {CHR ''x'', CHR '',''}"
  by (auto simp: enc_bytes_def unary_def)

definition event_fields :: "event \<Rightarrow> bytes list" where
  "event_fields e =
    [ev_Timestamp e, ev_EventType e, ev_ReasonCode e, ev_Txn e, ev_JTI e, ev_AgentID e, ev_Workload e,
     ev_Principal e, ev_Audience e, ev_Scope e, ev_Hash e, ev_PrevHash e,
     unary (nat (ev_Depth e)), unary (nat (- ev_Depth e)), unary (unat (ev_ChainIndex e))] @ ev_Hops e"

definition event_of_fields :: "bytes list \<Rightarrow> event option" where
  "event_of_fields fs =
    (case fs of
       a # b # c # d # f # g # h # i # j # k # l # m # pos # neg # idx # hops \<Rightarrow>
         Some \<lparr>ev_Timestamp = a, ev_EventType = b, ev_ReasonCode = c, ev_Txn = d, ev_JTI = f,
               ev_AgentID = g, ev_Workload = h, ev_Principal = i, ev_Audience = j, ev_Scope = k,
               ev_Depth = int (length pos) - int (length neg), ev_Hops = hops, ev_Hash = l,
               ev_PrevHash = m, ev_ChainIndex = of_nat (length idx)\<rparr>
     | _ \<Rightarrow> None)"

lemma event_of_fields [simp]: "event_of_fields (event_fields e) = Some e"
  by (cases e) (simp add: event_of_fields_def event_fields_def unary_def)

definition example_marshal :: "event \<Rightarrow> bytes" where
  "example_marshal e = concat (map (\<lambda>l. l @ [CHR '';'']) (map enc_bytes (event_fields e)))"

definition example_audit :: "(bytes \<Rightarrow> bytes) \<Rightarrow> audit_env" where
  "example_audit H =
    \<lparr>au_Sum256 = H, Marshal_event = example_marshal,
     Probe_event = (\<lambda>b. Some required_fields),
     Strict_event = (\<lambda>b. event_of_fields (map dec_bytes (butlast (split_on CHR '';'' b))))\<rparr>"

lemma example_unmarshal: "map dec_bytes (butlast (split_on CHR '';'' (example_marshal e))) = event_fields e"
proof -
  have "split_on CHR '';'' (example_marshal e) = map enc_bytes (event_fields e) @ [[]]"
    unfolding example_marshal_def using enc_bytes_chars by (intro split_on_terminated) fastforce
  then show ?thesis by (simp add: comp_def)
qed

lemma example_marshal_chars: "set (example_marshal e) \<subseteq> {CHR ''x'', CHR '','', CHR '';''}"
  by (auto simp: example_marshal_def dest!: enc_bytes_chars[THEN subsetD])

lemma example_event_codec:
  assumes "\<And>m. length (H m) \<le> 32"
  shows "event_codec (example_audit H)"
proof -
  have ne: "example_marshal e \<noteq> []" for e
    by (simp add: example_marshal_def event_fields_def)
  have "set (example_marshal e) \<inter> {CHR 0x0A, CHR 0x0D} = {}" for e
    using example_marshal_chars[of e] by auto
  moreover from this have "dropCR (example_marshal e) = example_marshal e" for e
  proof -
    assume "\<And>e. set (example_marshal e) \<inter> {CHR 0x0A, CHR 0x0D} = {}"
    moreover have "last (example_marshal e) \<in> set (example_marshal e)" by (rule last_in_set[OF ne])
    ultimately have "last (example_marshal e) \<noteq> CHR 0x0D" by blast
    then show ?thesis by (simp add: dropCR_def)
  qed
  ultimately show ?thesis
    using assms ne by (auto simp: event_codec_def example_audit_def example_unmarshal)
qed

lemma Append_links:
  assumes "event_codec J" "bounded_string stamp" "named_event e"
    and "bounded_string (lg_prevHash l)" "lg_prevHash l \<noteq> []" "lg_chainIndex l + 1 \<noteq> 0"
    and "Append J l stamp io e = (None, l')"
  shows "\<exists>log line ev. ev = chained_event J l stamp e \<and> lg_file l = Some log \<and> lg_file l' = Some (log @ line @ [CHR 0x0A]) \<and>
    length line < max_line \<and>
    decodeAndVerify J line (lg_prevHash l) (lg_chainIndex l + 1) = Inr ev \<and>
    lg_prevHash l' = ev_Hash ev \<and> lg_chainIndex l' = lg_chainIndex l + 1 \<and>
    \<not> lg_poisoned l \<and> \<not> lg_poisoned l'"
proof -
  define ev where "ev = chained_event J l stamp e"
  define op where "op = \<lparr>ao_stamp = stamp, ao_io = io, ao_event = e\<rparr>"
  have dec: "decodeAndVerify J (Marshal_event J ev) (lg_prevHash l) (lg_chainIndex l + 1) = Inr ev"
    unfolding ev_def by (rule chained_event_decodes) fact+
  have idx: "ev_ChainIndex ev = lg_chainIndex l + 1"
    using decodeAndVerify_Inr[OF dec] by (simp add: verifyEvent_None)
  have st: "append_step J l op = (l', True)"
    using assms(7) by (simp add: append_step_def op_def)
  show ?thesis
  proof (cases rule: append_step_cases[of J l op])
    case (grown log)
    with st dec idx show ?thesis
      by (intro exI[of _ log] exI[of _ "Marshal_event J ev"] exI[of _ ev]) (simp add: op_def ev_def)
  qed (use st in simp_all)
qed

section \<open>Properties\<close>

text \<open>Every decision that \<^verbatim>\<open>Append\<close> reports as written is in the log as one more line, and that line
  verifies as the next link of the chain: it decodes to an event that names the previous hash and
  index and carries its own hash. A poisoned or closed logger accepts nothing more.\<close>

theorem Append_extends_chain:
  assumes "event_codec J" "bounded_string stamp" "named_event e"
    and "bounded_string (lg_prevHash l)" "lg_prevHash l \<noteq> []" "lg_chainIndex l + 1 \<noteq> 0"
    and "Append J l stamp io e = (None, l')"
  shows "\<exists>log line ev. lg_file l = Some log \<and> lg_file l' = Some (log @ line @ [CHR 0x0A]) \<and>
    length line < max_line \<and>
    decodeAndVerify J line (lg_prevHash l) (lg_chainIndex l + 1) = Inr ev \<and>
    lg_prevHash l' = ev_Hash ev \<and> lg_chainIndex l' = lg_chainIndex l + 1 \<and>
    \<not> lg_poisoned l \<and> \<not> lg_poisoned l'"
  using Append_links[OF assms] by blast

definition example_event :: event where
  "example_event =
    \<lparr>ev_Timestamp = [], ev_EventType = ''token_minted'', ev_ReasonCode = ''ok'', ev_Txn = ''t1'', ev_JTI = ''j1'',
     ev_AgentID = ''a'', ev_Workload = [], ev_Principal = [], ev_Audience = [], ev_Scope = [],
     ev_Depth = 1, ev_Hops = [''p'', ''a''], ev_Hash = [], ev_PrevHash = [], ev_ChainIndex = 0\<rparr>"

definition example_sum :: "bytes \<Rightarrow> bytes" where "example_sum m = take 32 m"

definition example_logger :: logger where
  "example_logger =
    \<lparr>lg_file = Some [], lg_prevHash = GenesisPrevHash, lg_chainIndex = 0, lg_poisoned = False\<rparr>"

lemma example_event_codec': "event_codec (example_audit example_sum)"
  by (rule example_event_codec) (simp add: example_sum_def)

lemma example_named: "named_event example_event"
proof -
  have "bounded_string ''token_minted''" "bounded_string ''ok''"
    by (simp_all add: bounded_string_def maxEventString_def) (code_simp+)
  then show ?thesis by (simp add: named_event_def example_event_def)
qed

lemma example_stamp: "bounded_string ''t''"
  by (simp add: bounded_string_def maxEventString_def) code_simp

lemma length_enc_bytes: "length (enc_bytes s) \<le> 256 * length s"
proof (induction s)
  case (Cons c s)
  have "length (enc_bytes (c # s)) = ((of_char c :: nat) + 1) + length (enc_bytes s)"
    by (simp add: enc_bytes_def unary_def)
  moreover have "of_char c < (256 :: nat)" by simp
  moreover have "length (c # s) = Suc (length s)" by simp
  ultimately show ?case using Cons by linarith
qed (simp add: enc_bytes_def)

lemma length_example_marshal:
  "length (example_marshal e) \<le> (\<Sum>f \<leftarrow> event_fields e. 256 * length f + 1)"
proof -
  have "length (concat (map (\<lambda>l. l @ [CHR '';'']) (map enc_bytes fs))) \<le> (\<Sum>f \<leftarrow> fs. 256 * length f + 1)" for fs
    by (induction fs) (simp_all add: length_enc_bytes add_mono)
  then show ?thesis by (simp add: example_marshal_def)
qed

text \<open>One append to the empty log.\<close>

lemma example_canonical: "canonical example_event"
proof -
  have "ValidString ''token_minted''" "ValidString ''ok''" "ValidString ''a''" "ValidString ''p''"
    "ValidString ''t1''" "ValidString ''j1''"
    by code_simp+
  then show ?thesis
    by (simp add: canonical_def example_event_def bounded_string_def maxEventString_def maxEventHops_def)
qed

lemma example_append:
  "\<exists>l'. Append (example_audit example_sum) example_logger ''t''
    \<lparr>io_written = None, io_synced = True\<rparr> example_event = (None, l')"
proof -
  let ?ev = "chained_event (example_audit example_sum) example_logger ''t'' example_event"
  have "length (payloadHash (example_audit example_sum) e) \<le> 71" for e
    by (simp add: payloadHash_def example_audit_def example_sum_def)
  then have "length (ev_Hash ?ev) \<le> 71" by (simp add: chained_event_def Let_def)
  moreover have "length (example_marshal ?ev) \<le> 256 * length (ev_Hash ?ev) + 30000"
    by (rule order_trans[OF length_example_marshal])
      (simp add: chained_event_def Let_def canonicalize_id[OF example_canonical] event_fields_def
        unary_def example_logger_def GenesisPrevHash_def, simp add: example_event_def)
  ultimately have "length (Marshal_event (example_audit example_sum) ?ev) + 1 \<le> max_line"
    by (simp add: example_audit_def max_line_def)
  then show ?thesis
    by (simp add: Append_def example_logger_def append_bytes_def Let_def)
qed

theorem Append_extends_chain_witness:
  "\<exists>l' line. Append (example_audit example_sum) example_logger ''t''
      \<lparr>io_written = None, io_synced = True\<rparr> example_event = (None, l') \<and>
    lg_file l' = Some (line @ [CHR 0x0A]) \<and> lg_chainIndex l' = 1"
proof -
  obtain l' where "Append (example_audit example_sum) example_logger ''t''
      \<lparr>io_written = None, io_synced = True\<rparr> example_event = (None, l')"
    using example_append by blast
  from Append_extends_chain[OF example_event_codec' example_stamp example_named _ _ _ this] this
  show ?thesis using bounded_Genesis by (auto simp: example_logger_def GenesisPrevHash_def)
qed

text \<open>The log survives restarts. From a log that opened, any sequence of appends whose writes are
  not torn leaves a log that opens again, and unless a failed write has poisoned the logger, the
  reopened logger continues at exactly the hash and index where it stopped.\<close>

theorem log_reopens:
  assumes "event_codec J" "NewLogger J (unlines ls) = Inr l" "\<forall>x \<in> set ls. CHR 0x0A \<notin> set x"
    and "\<forall>op \<in> set ops. append_ok op" "unat (lg_chainIndex l) + length ops < 2 ^ 64"
  shows "\<exists>l'. NewLogger J (the (lg_file (final (append_step J) l ops))) = Inr l' \<and>
    (lg_poisoned (final (append_step J) l ops) \<or> l' = final (append_step J) l ops)"
proof -
  let ?l = "final (append_step J) l ops"
  have "log_agrees J ?l"
    using append_run_keeps[OF assms(1,4,5)] NewLogger_agrees[OF assms(2,3)] by blast
  then obtain ls' evs where disk: "lg_file ?l = Some (unlines ls')" "\<forall>x \<in> set ls'. CHR 0x0A \<notin> set x"
    "chain_events J None ls' = Inr evs"
    and heads: "\<not> lg_poisoned ?l \<longrightarrow> lg_prevHash ?l = head_hash (last_event None evs) \<and>
          lg_chainIndex ?l = head_index (last_event None evs)"
    unfolding log_agrees_def by blast
  let ?l' = "\<lparr>lg_file = Some (unlines ls'), lg_prevHash = head_hash (last_event None evs),
            lg_chainIndex = head_index (last_event None evs), lg_poisoned = False\<rparr>"
  have "NewLogger J (the (lg_file ?l)) = Inr ?l'"
    using NewLogger_Inr[OF disk(2), of J ?l'] disk by simp
  moreover have "lg_poisoned ?l \<or> ?l' = ?l" using heads disk(1) by (cases ?l) auto
  ultimately show ?thesis by blast
qed

theorem log_reopens_witness:
  "\<exists>l'. NewLogger (example_audit example_sum) (the (lg_file (final (append_step (example_audit example_sum))
      example_logger [\<lparr>ao_stamp = ''t'', ao_io = \<lparr>io_written = None, io_synced = True\<rparr>,
                       ao_event = example_event\<rparr>]))) = Inr l'"
proof -
  have "NewLogger (example_audit example_sum) (unlines []) = Inr example_logger"
    by (simp add: NewLogger_Inr example_logger_def) (simp add: unlines_def)
  from log_reopens[OF example_event_codec' this, of "[\<lparr>ao_stamp = ''t'',
      ao_io = \<lparr>io_written = None, io_synced = True\<rparr>, ao_event = example_event\<rparr>]"]
  show ?thesis
    using example_stamp example_named
    by (auto simp: append_ok_def whole_write_def example_logger_def)
qed

text \<open>C24: The log is tamper-evident. Two logs that both open, end in the same hash and the same index
  and are made of records whose SHA-256 values do not collide hold the same events in the same
  order: no event can be dropped, added, reordered or altered without changing the head.\<close>

theorem log_tamper_evident:
  assumes "event_codec J" "\<forall>x \<in> set ls. CHR 0x0A \<notin> set x" "\<forall>x \<in> set ms. CHR 0x0A \<notin> set x"
    and "NewLogger J (unlines ls) = Inr l" "NewLogger J (unlines ms) = Inr m"
    and "lg_prevHash l = lg_prevHash m" "lg_chainIndex l = lg_chainIndex m"
    and "inj_on (au_Sum256 J) (payload J ` (set (projr (chain_events J None ls)) \<union>
      set (projr (chain_events J None ms))))"
  shows "chain_events J None ls = chain_events J None ms"
proof -
  from assms(4) obtain es where es: "chain_events J None ls = Inr es"
    "lg_prevHash l = head_hash (last_event None es)" "lg_chainIndex l = head_index (last_event None es)"
    by (auto simp: NewLogger_Inr[OF assms(2)])
  from assms(5) obtain fs where fs: "chain_events J None ms = Inr fs"
    "lg_prevHash m = head_hash (last_event None fs)" "lg_chainIndex m = head_index (last_event None fs)"
    by (auto simp: NewLogger_Inr[OF assms(3)])
  have "es = fs"
    by (rule linked_unique[OF assms(1) chain_events_linked[OF es(1)] chain_events_linked[OF fs(1)]])
      (use assms(6-8) es fs in simp_all)
  with es fs show ?thesis by simp
qed

text \<open>The record of the example, alone in a log and after an empty line.\<close>

definition example_record :: event where
  "example_record = chained_event (example_audit example_sum) example_logger ''t'' example_event"

lemma example_record_chain:
  "chain_events (example_audit example_sum) None [example_marshal example_record] = Inr [example_record]"
  "chain_events (example_audit example_sum) None [[], example_marshal example_record] = Inr [example_record]"
proof -
  let ?J = "example_audit example_sum"
  have mar: "Marshal_event ?J = example_marshal" by (simp add: example_audit_def)
  have dec: "decodeAndVerify ?J (example_marshal example_record) GenesisPrevHash 1 = Inr example_record"
    using chained_event_decodes[OF example_event_codec' example_stamp _ example_named, of example_logger]
      bounded_Genesis
    by (simp add: example_record_def mar example_logger_def) (simp add: GenesisPrevHash_def)
  have can: "canonical example_record"
    using decodeAndVerify_Inr[OF dec] by (simp add: verifyEvent_None)
  then have "dropCR (example_marshal example_record) = example_marshal example_record"
    "example_marshal example_record \<noteq> []"
    using example_event_codec' by (auto simp: event_codec_def mar)
  moreover have "length (example_marshal example_record) < max_line"
    using example_append by (auto simp: Append_def example_logger_def Let_def mar example_record_def
        split: if_splits)
  ultimately show "chain_events ?J None [example_marshal example_record] = Inr [example_record]"
    "chain_events ?J None [[], example_marshal example_record] = Inr [example_record]"
    using dec by (simp_all add: dropCR_def max_line_def)
qed

theorem log_tamper_evident_witness:
  "chain_events (example_audit example_sum) None [example_marshal example_record]
    = chain_events (example_audit example_sum) None [[], example_marshal example_record]"
proof -
  let ?l = "\<lambda>ls. \<lparr>lg_file = Some (unlines ls), lg_prevHash = ev_Hash example_record,
    lg_chainIndex = ev_ChainIndex example_record, lg_poisoned = False\<rparr>"
  have nl: "CHR 0x0A \<notin> set (example_marshal example_record)"
    using example_marshal_chars[of example_record] by auto
  show ?thesis
    by (rule log_tamper_evident[OF example_event_codec', where l = "?l [example_marshal example_record]"
          and m = "?l [[], example_marshal example_record]"])
      (use nl in \<open>simp_all add: NewLogger_Inr example_record_chain del: chain_events.simps\<close>)
qed

end
