(* ===== verification/Sts.thy ===== *)
theory Sts
  imports Scopes Keyring Registry Denylist Attest Replay Audit_Log
begin

text \<open>
  \<^verbatim>\<open>internal/sts/sts.go\<close>: the token exchange of the security token service.

  The state is the configuration with its live identity (registry, signing ring, denylist), the
  replay cache, the audit logger and the counters. One exchange takes the identity snapshot, runs
  the checks in the order of the code (\<open>exchange_checks\<close>), consumes the id of a subject token the STS
  itself issued (\<open>exchange_consume\<close>) and mints (\<open>exchange_mint\<close>); \<open>Exchange\<close> adds the audit record,
  which is written before anything is returned, and the counters.

  What a call reads from outside is an argument, \<open>call_inputs\<close>: the clock readings, the random
  bytes of the new ids and the outcomes of the system calls on the two logs. The text of an error
  in a description is the error itself (\<open>description\<close>).
\<close>

section \<open>Constants\<close>

definition GrantTokenExchange :: bytes where
  "GrantTokenExchange = ''urn:ietf:params:oauth:grant-type:token-exchange''"
definition TokenTypeJWT :: bytes where
  "TokenTypeJWT = ''urn:ietf:params:oauth:token-type:jwt''"
definition TokenTypeAccess :: bytes where
  "TokenTypeAccess = ''urn:ietf:params:oauth:token-type:access_token''"

definition ReasonOK :: bytes where "ReasonOK = ''ok''"
definition ReasonInvalidRequest :: bytes where "ReasonInvalidRequest = ''invalid_request''"
definition ReasonInvalidActorToken :: bytes where "ReasonInvalidActorToken = ''invalid_actor_token''"
definition ReasonInvalidSubjectToken :: bytes where "ReasonInvalidSubjectToken = ''invalid_subject_token''"
definition ReasonAgentNotRegistered :: bytes where "ReasonAgentNotRegistered = ''agent_not_registered''"
definition ReasonAgentNotAuthorizedOnWL :: bytes where
  "ReasonAgentNotAuthorizedOnWL = ''agent_not_authorized_on_workload''"
definition ReasonAudienceNotAllowed :: bytes where "ReasonAudienceNotAllowed = ''audience_not_allowed''"
definition ReasonScopeWidening :: bytes where "ReasonScopeWidening = ''scope_widening''"
definition ReasonDepthExceeded :: bytes where "ReasonDepthExceeded = ''depth_exceeded''"
definition ReasonExpired :: bytes where "ReasonExpired = ''expired''"
definition ReasonChainIntegrity :: bytes where "ReasonChainIntegrity = ''chain_integrity''"
definition ReasonAgentNotYetValid :: bytes where "ReasonAgentNotYetValid = ''agent_not_yet_valid''"
definition ReasonAgentExpired :: bytes where "ReasonAgentExpired = ''agent_expired''"
definition ReasonReplayedToken :: bytes where "ReasonReplayedToken = ''replayed_token''"
definition ReasonRateLimited :: bytes where "ReasonRateLimited = ''rate_limited''"
definition ReasonMissingCNF :: bytes where "ReasonMissingCNF = ''missing_cnf''"
definition ReasonInvalidDPoP :: bytes where "ReasonInvalidDPoP = ''invalid_dpop_proof''"
definition ReasonAuditFailed :: bytes where "ReasonAuditFailed = ''audit_unavailable''"

lemmas reason_defs =
  ReasonOK_def ReasonInvalidRequest_def ReasonInvalidActorToken_def ReasonInvalidSubjectToken_def
  ReasonAgentNotRegistered_def ReasonAgentNotAuthorizedOnWL_def ReasonAudienceNotAllowed_def
  ReasonScopeWidening_def ReasonDepthExceeded_def ReasonExpired_def ReasonChainIntegrity_def
  ReasonAgentNotYetValid_def ReasonAgentExpired_def ReasonReplayedToken_def ReasonRateLimited_def
  ReasonMissingCNF_def ReasonInvalidDPoP_def ReasonAuditFailed_def ReasonAgentDenied_def
  ReasonWorkloadDenied_def ReasonPrincipalDenied_def

section \<open>State\<close>

record metrics =
  mt_Minted :: int
  mt_Denied :: int
  mt_Replays :: int
  mt_Reloads :: int
  mt_ReloadFails :: int
  mt_RateLimited :: int

record sts_config =
  st_Issuer :: bytes
  st_TTL :: duration
  st_Registry :: "registry option"
  st_Signer :: "keyring option"
  st_Attestor :: "attestor option"
  st_IdPKeys :: jwks
  st_IdPIssuer :: bytes
  st_Audit :: "logger option"
  st_Replay :: "replay_cache option"
  st_Denylist :: "denylist option"
  st_Metrics :: metrics

record identity_snap =
  sn_Registry :: "registry option"
  sn_Signer :: "keyring option"
  sn_Attestor :: "attestor option"
  sn_IdPKeys :: jwks
  sn_IdPIssuer :: bytes
  sn_Denylist :: "denylist option"

text \<open>\<^verbatim>\<open>installIdentity\<close>: registry, ring and denylist under one lock, or nothing on a refused ring.\<close>

definition installIdentity ::
  "('a crypto_scheme) \<Rightarrow> sts_config \<Rightarrow> registry option \<Rightarrow> keyring option \<Rightarrow> denylist option \<Rightarrow>
    token_error option \<times> sts_config" where
  "installIdentity E c reg kr dl =
    (case (if kr \<noteq> None then AllowActivation E (st_Signer c) kr else None) of
       Some e \<Rightarrow> (Some e, c)
     | None \<Rightarrow>
         (let c1 = (if reg \<noteq> None then c\<lparr>st_Registry := reg\<rparr> else c);
              c2 = (if kr \<noteq> None then c1\<lparr>st_Signer := kr\<rparr> else c1);
              c3 = (if dl \<noteq> None then c2\<lparr>st_Denylist := dl\<rparr> else c2)
          in (None, c3)))"

definition SetRegistry :: "('a crypto_scheme) \<Rightarrow> sts_config \<Rightarrow> registry option \<Rightarrow> sts_config" where
  "SetRegistry E c r = snd (installIdentity E c r None None)"

definition ReplaceKeyring ::
  "('a crypto_scheme) \<Rightarrow> sts_config \<Rightarrow> keyring option \<Rightarrow> token_error option \<times> sts_config" where
  "ReplaceKeyring E c kr =
    (if kr = None \<or> keyring_ActiveKID kr = [] then (Some Token_ErrInvalidKey, c)
     else installIdentity E c None kr None)"

definition snapshot :: "sts_config \<Rightarrow> identity_snap" where
  "snapshot c =
    \<lparr>sn_Registry = st_Registry c, sn_Signer = st_Signer c, sn_Attestor = st_Attestor c,
     sn_IdPKeys = st_IdPKeys c, sn_IdPIssuer = st_IdPIssuer c, sn_Denylist = st_Denylist c\<rparr>"

definition sts_ttl :: "sts_config \<Rightarrow> duration" where
  "sts_ttl c = (if st_TTL c > 0 then st_TTL c else 120 * second)"

section \<open>Requests and results\<close>

record exchange_request =
  rq_GrantType :: bytes
  rq_SubjectToken :: bytes
  rq_SubjectTokenType :: bytes
  rq_ActorToken :: bytes
  rq_ActorTokenType :: bytes
  rq_Audience :: bytes
  rq_Scope :: bytes
  rq_RequestedTokenType :: bytes
  rq_AgentID :: bytes
  rq_Purp :: bytes
  rq_ConfirmJKT :: bytes

datatype description =
    Desc bytes
  | Desc_Token token_error | Desc_Attest attest_error | Desc_Registry registry_error
  | Desc_Replay replay_error

record exchange_result =
  xr_Token :: bytes
  xr_ExpiresIn :: int
  xr_Issued :: claims
  xr_ReasonCode :: bytes
  xr_Error :: bytes
  xr_ErrorDesc :: description

record exchange_outcome = exchange_result +
  oc_workload :: bytes
  oc_subjectTxn :: bytes
  oc_subjectJTI :: bytes
  oc_subjectSub :: bytes

definition no_claims :: claims where
  "no_claims =
    \<lparr>c_iss = [], c_sub = [], c_aud = [], c_exp = 0, c_nbf = 0, c_iat = 0, c_jti = [], c_txn = [],
     c_act = None, c_actchain = [], c_scope = [], c_purp = [], c_cnf = None\<rparr>"

definition deny :: "bytes \<Rightarrow> bytes \<Rightarrow> description \<Rightarrow> exchange_outcome" where
  "deny code oauthError desc =
    \<lparr>xr_Token = [], xr_ExpiresIn = 0, xr_Issued = no_claims, xr_ReasonCode = code,
     xr_Error = oauthError, xr_ErrorDesc = desc,
     oc_workload = [], oc_subjectTxn = [], oc_subjectJTI = [], oc_subjectSub = []\<rparr>"

definition withSubject :: "exchange_outcome \<Rightarrow> claims \<Rightarrow> exchange_outcome" where
  "withSubject oc sub =
    oc\<lparr>oc_subjectTxn := c_txn sub, oc_subjectJTI := c_jti sub, oc_subjectSub := c_sub sub\<rparr>"

text \<open>The readings of one call.\<close>

record call_inputs =
  in_now :: instant
  in_replay_now :: instant
  in_replay_io :: io_outcome
  in_rand_txn :: bytes
  in_rand_jti :: bytes
  in_stamp :: bytes
  in_audit_io :: io_outcome

record sts_env = token_env +
  e_time :: parse_time
  e_records :: record_codec
  e_audit :: audit_env

section \<open>The parts of the exchange\<close>

definition verifySubject ::
  "('a token_env_scheme) \<Rightarrow> bytes \<Rightarrow> bytes \<Rightarrow> identity_snap \<Rightarrow> token_error + (claims \<times> bool)" where
  "verifySubject E issuer raw snap =
    (case (if sn_Signer snap = None then Inl Token_ErrBadSignature
           else jws_Verify E raw (keyring_JWKS E (sn_Signer snap))) of
       Inr (h, c) \<Rightarrow> if c_iss c \<noteq> issuer then Inl Token_ErrIssuerMismatch else Inr (c, True)
     | Inl _ \<Rightarrow>
         (case jws_Verify E raw (sn_IdPKeys snap) of
            Inr (h, c) \<Rightarrow>
              if sn_IdPIssuer snap \<noteq> [] \<and> c_iss c \<noteq> sn_IdPIssuer snap then Inl Token_ErrIssuerMismatch
              else Inr (c, False)
          | Inl _ \<Rightarrow> Inl Token_ErrBadSignature))"

definition mapRegistryErr :: "registry_error \<Rightarrow> bytes" where
  "mapRegistryErr e =
    (case e of
       Registry_ErrAgentNotFound \<Rightarrow> ReasonAgentNotRegistered
     | Registry_ErrNotAuthorized \<Rightarrow> ReasonAgentNotAuthorizedOnWL
     | Registry_ErrAudienceNotAllowed \<Rightarrow> ReasonAudienceNotAllowed
     | Registry_ErrNotYetValid \<Rightarrow> ReasonAgentNotYetValid
     | Registry_ErrExpired \<Rightarrow> ReasonAgentExpired
     | _ \<Rightarrow> ReasonInvalidRequest)"

definition narrowScope :: "bytes \<Rightarrow> bytes \<Rightarrow> bytes list \<Rightarrow> bytes option" where
  "narrowScope requested incoming mx =
    (let ceiling0 = ScopeSet (strings_Join '' '' mx);
         ceiling = (if incoming \<noteq> [] then Intersect ceiling0 (ScopeSet incoming) else ceiling0)
     in if is_blank requested then Some (JoinScopes (CopySet ceiling))
        else if \<not> Subset (ScopeSet requested) ceiling then None
        else Some (JoinScopes (ScopeSet requested)))"

definition newID :: "bytes \<Rightarrow> bytes \<Rightarrow> bytes" where
  "newID pre rnd = pre @ ''-'' @ hex_encode rnd"

text \<open>What the checks leave for the consumption and the minting.\<close>

record prepared =
  pp_sub :: claims
  pp_fromSTS :: bool
  pp_wl :: workload_identity
  pp_scope :: bytes
  pp_chain :: "actor list"
  pp_txn :: bytes

text \<open>The checks of the request itself.\<close>

definition request_error :: "bytes \<Rightarrow> identity_snap \<Rightarrow> exchange_request \<Rightarrow> exchange_outcome option" where
  "request_error issuer snap req =
    (if sn_Signer snap = None \<or> sn_Registry snap = None \<or> sn_Attestor snap = None \<or> issuer = []
       then Some (deny ReasonInvalidRequest ''invalid_request'' (Desc ''sts not configured''))
     else if rq_GrantType req \<noteq> [] \<and> rq_GrantType req \<noteq> GrantTokenExchange
       then Some (deny ReasonInvalidRequest ''unsupported_grant_type'' (Desc ''grant_type''))
     else if is_blank (rq_SubjectToken req) \<or> is_blank (rq_ActorToken req)
       then Some (deny ReasonInvalidRequest ''invalid_request''
         (Desc ''subject_token and actor_token required''))
     else if is_blank (rq_AgentID req) \<or> is_blank (rq_Audience req)
       then Some (deny ReasonInvalidRequest ''invalid_request'' (Desc ''agent_id and audience required''))
     else if rq_RequestedTokenType req \<noteq> [] \<and> rq_RequestedTokenType req \<noteq> TokenTypeJWT \<and>
             rq_RequestedTokenType req \<noteq> TokenTypeAccess
       then Some (deny ReasonInvalidRequest ''invalid_request'' (Desc ''requested_token_type''))
     else None)"

text \<open>The checks of the calling workload and agent; \<open>vs\<close> is the result of \<^verbatim>\<open>verifySubject\<close>.\<close>

definition check_caller ::
  "('a sts_env_scheme) \<Rightarrow> identity_snap \<Rightarrow> call_inputs \<Rightarrow> exchange_request \<Rightarrow>
    token_error + (claims \<times> bool) \<Rightarrow> exchange_outcome + (workload_identity \<times> agent)" where
  "check_caller E snap i req vs =
    (let with_sub = (\<lambda>oc. case vs of Inl _ \<Rightarrow> oc | Inr (sub, _) \<Rightarrow> withSubject oc sub) in
     case Attest E (the (sn_Attestor snap)) (rq_ActorToken req) of
       Inl e \<Rightarrow> Inl (with_sub (deny ReasonInvalidActorToken ''invalid_request'' (Desc_Attest e)))
     | Inr wl \<Rightarrow>
       (case Authorize (e_time E) (the (sn_Registry snap)) (rq_AgentID req) (wi_ID wl)
               (rq_Audience req) (in_now i) of
          Inl e \<Rightarrow> Inl (with_sub (deny (mapRegistryErr e) ''access_denied'' (Desc_Registry e)))
        | Inr ag \<Rightarrow>
          if HasAgent (sn_Denylist snap) (rq_AgentID req)
            then Inl (with_sub (deny ReasonAgentDenied ''access_denied'' (Desc ''agent is denied'')))
          else if HasWorkload (sn_Denylist snap) (wi_ID wl)
            then Inl (with_sub (deny ReasonWorkloadDenied ''access_denied'' (Desc ''workload is denied'')))
          else Inr (wl, ag)))"

text \<open>The checks of the subject token, up to its consumption.\<close>

definition check_subject ::
  "denylist option \<Rightarrow> call_inputs \<Rightarrow> exchange_request \<Rightarrow> workload_identity \<Rightarrow> agent \<Rightarrow>
    claims \<Rightarrow> bool \<Rightarrow> exchange_outcome + prepared" where
  "check_subject dl i req wl ag sub fromSTS =
    (let d = (\<lambda>code oauth desc. Inl (withSubject (deny code oauth desc) sub));
         newChain = AppendChain sub;
         txn = (if \<not> fromSTS \<and> c_txn sub = [] then newID ''txn'' (in_rand_txn i) else c_txn sub)
     in case ValidateSubject sub of
       Some e \<Rightarrow> d ReasonInvalidSubjectToken ''invalid_request'' (Desc_Token e)
     | None \<Rightarrow>
       if HasPrincipal dl (c_sub sub)
         then d ReasonPrincipalDenied ''access_denied'' (Desc ''principal is denied'')
       else
       (case ValidateTime sub (in_now i) 0 of
          Some e \<Rightarrow>
            (if e = Token_ErrExpired then d ReasonExpired ''invalid_request'' (Desc_Token e)
             else d ReasonInvalidSubjectToken ''invalid_request'' (Desc_Token e))
        | None \<Rightarrow>
          if ValidateAudience sub (rq_AgentID req) \<noteq> None
            then (if fromSTS
              then d ReasonChainIntegrity ''access_denied''
                (Desc ''subject token audience must be the requesting agent'')
              else d ReasonInvalidSubjectToken ''invalid_request''
                (Desc ''user token audience must be the requesting agent''))
          else
          (case narrowScope (rq_Scope req) (c_scope sub) (ag_MaxScopes ag) of
             None \<Rightarrow> d ReasonScopeWidening ''access_denied''
               (Desc ''requested scope is not a subset of allowed scopes'')
           | Some issuedScope \<Rightarrow>
             if int (length newChain) + 1 > ag_MaxDepth ag
               then d ReasonDepthExceeded ''access_denied'' (Desc ''delegation depth exceeded'')
             else if \<not> fromSTS \<and> (c_actchain sub \<noteq> [] \<or> c_act sub \<noteq> None)
               then d ReasonChainIntegrity ''access_denied''
                 (Desc ''user token must not carry an actor chain'')
             else if fromSTS \<and> txn = []
               then d ReasonChainIntegrity ''invalid_request'' (Desc ''missing txn'')
             else Inr \<lparr>pp_sub = sub, pp_fromSTS = fromSTS, pp_wl = wl, pp_scope = issuedScope,
                       pp_chain = newChain, pp_txn = txn\<rparr>)))"

definition exchange_checks ::
  "('a sts_env_scheme) \<Rightarrow> bytes \<Rightarrow> identity_snap \<Rightarrow> call_inputs \<Rightarrow> exchange_request \<Rightarrow>
    exchange_outcome + prepared" where
  "exchange_checks E issuer snap i req =
    (case request_error issuer snap req of
       Some oc \<Rightarrow> Inl oc
     | None \<Rightarrow>
         (let vs = verifySubject E issuer (rq_SubjectToken req) snap in
          case check_caller E snap i req vs of
            Inl oc \<Rightarrow> Inl oc
          | Inr (wl, ag) \<Rightarrow>
              (case vs of
                 Inl e \<Rightarrow> Inl (deny ReasonInvalidSubjectToken ''invalid_request'' (Desc_Token e))
               | Inr (sub, fromSTS) \<Rightarrow> check_subject (sn_Denylist snap) i req wl ag sub fromSTS)))"

definition exchange_consume ::
  "('a sts_env_scheme) \<Rightarrow> replay_cache option \<Rightarrow> call_inputs \<Rightarrow> prepared \<Rightarrow>
    exchange_outcome option \<times> replay_cache option" where
  "exchange_consume E rc i p =
    (if pp_fromSTS p then
       (case Consume (e_records E) rc (in_replay_now i) (in_replay_io i)
               (c_jti (pp_sub p)) (c_exp (pp_sub p)) [] of
          (None, rc') \<Rightarrow> (None, rc')
        | (Some e, rc') \<Rightarrow>
            (if e = Replay_ErrReplay \<or> e = Replay_errEmptyJTI \<or> e = Replay_ErrUnavailable
             then (Some (withSubject (deny ReasonReplayedToken ''invalid_grant'' (Desc_Replay e))
                     (pp_sub p)), rc')
             else (Some (withSubject (deny ReasonInvalidRequest ''server_error'' (Desc_Replay e))
                     (pp_sub p)), rc')))
     else (None, rc))"

text \<open>The confirmation key of the minted token; empty if the workload possesses none.\<close>

definition confirm_key :: "exchange_request \<Rightarrow> prepared \<Rightarrow> bytes" where
  "confirm_key req p =
    (let jkt = TrimSpace (rq_ConfirmJKT req) in if jkt = [] then wi_PossessedJKT (pp_wl p) else jkt)"

definition minted_claims ::
  "bytes \<Rightarrow> duration \<Rightarrow> call_inputs \<Rightarrow> exchange_request \<Rightarrow> prepared \<Rightarrow> bytes \<Rightarrow> claims" where
  "minted_claims issuer ttl i req p jkt =
    \<lparr>c_iss = issuer, c_sub = c_sub (pp_sub p), c_aud = [rq_Audience req],
     c_exp = unix (in_now i + ttl), c_nbf = unix (in_now i), c_iat = unix (in_now i),
     c_jti = newID ''jti'' (in_rand_jti i), c_txn = pp_txn p,
     c_act = Some (NestedAct issuer (rq_AgentID req) (c_act (pp_sub p))),
     c_actchain = pp_chain p, c_scope = pp_scope p,
     c_purp = (if rq_Purp req = [] then c_purp (pp_sub p) else rq_Purp req),
     c_cnf = Some \<lparr>cnf_jkt = jkt\<rparr>\<rparr>"

definition exchange_mint ::
  "('a sts_env_scheme) \<Rightarrow> bytes \<Rightarrow> duration \<Rightarrow> keyring option \<Rightarrow> call_inputs \<Rightarrow> exchange_request \<Rightarrow>
    prepared \<Rightarrow> exchange_outcome" where
  "exchange_mint E issuer ttl signer i req p =
    (let d = (\<lambda>code oauth desc. withSubject (deny code oauth desc) (pp_sub p));
         jkt = confirm_key req p in
     if jkt = [] then d ReasonMissingCNF ''invalid_request''
       (Desc ''confirmation key must be possessed by the workload'')
     else
       (let c = minted_claims issuer ttl i req p jkt in
        case keyring_SignClaims E signer c of
          Inl e \<Rightarrow> d ReasonInvalidRequest ''server_error'' (Desc_Token e)
        | Inr raw \<Rightarrow>
            \<lparr>xr_Token = raw, xr_ExpiresIn = ttl div second, xr_Issued = c, xr_ReasonCode = ReasonOK,
             xr_Error = [], xr_ErrorDesc = Desc [], oc_workload = wi_ID (pp_wl p),
             oc_subjectTxn = [], oc_subjectJTI = [], oc_subjectSub = []\<rparr>))"

text \<open>\<^verbatim>\<open>exchange\<close>: the outcome and the replay cache afterwards.\<close>

definition exchange ::
  "('a sts_env_scheme) \<Rightarrow> sts_config \<Rightarrow> call_inputs \<Rightarrow> exchange_request \<Rightarrow>
    exchange_outcome \<times> replay_cache option" where
  "exchange E c i req =
    (let snap = snapshot c in
     case exchange_checks E (st_Issuer c) snap i req of
       Inl oc \<Rightarrow> (oc, st_Replay c)
     | Inr p \<Rightarrow>
         (case exchange_consume E (st_Replay c) i p of
            (Some oc, rc) \<Rightarrow> (oc, rc)
          | (None, rc) \<Rightarrow> (exchange_mint E (st_Issuer c) (sts_ttl c) (sn_Signer snap) i req p, rc)))"

section \<open>Exchange with its audit record\<close>

definition empty_event :: event where
  "empty_event =
    \<lparr>ev_Timestamp = [], ev_EventType = [], ev_ReasonCode = [], ev_Txn = [], ev_JTI = [],
     ev_AgentID = [], ev_Workload = [], ev_Principal = [], ev_Audience = [], ev_Scope = [],
     ev_Depth = 0, ev_Hops = [], ev_Hash = [], ev_PrevHash = [], ev_ChainIndex = 0\<rparr>"

definition exchange_event :: "exchange_request \<Rightarrow> exchange_outcome \<Rightarrow> event" where
  "exchange_event req oc =
    (let ev = empty_event\<lparr>ev_ReasonCode := xr_ReasonCode oc, ev_AgentID := rq_AgentID req,
       ev_Audience := rq_Audience req, ev_Workload := oc_workload oc\<rparr> in
     if xr_ReasonCode oc = ReasonOK then
       ev\<lparr>ev_EventType := ''token_minted'', ev_Txn := c_txn (xr_Issued oc),
          ev_JTI := c_jti (xr_Issued oc), ev_Principal := c_sub (xr_Issued oc),
          ev_Depth := int (Depth (xr_Issued oc)),
          ev_Hops := c_sub (xr_Issued oc) # ActorSubs (xr_Issued oc),
          ev_Scope := c_scope (xr_Issued oc)\<rparr>
     else
       ev\<lparr>ev_EventType := ''token_denied'', ev_Scope := rq_Scope req, ev_Txn := oc_subjectTxn oc,
          ev_JTI := oc_subjectJTI oc, ev_Principal := oc_subjectSub oc\<rparr>)"

definition count_outcome :: "exchange_outcome \<Rightarrow> metrics \<Rightarrow> metrics" where
  "count_outcome oc m =
    (if xr_ReasonCode oc = ReasonOK then m\<lparr>mt_Minted := mt_Minted m + 1\<rparr>
     else
       (let m1 = m\<lparr>mt_Denied := mt_Denied m + 1\<rparr> in
        if xr_ReasonCode oc = ReasonReplayedToken then m1\<lparr>mt_Replays := mt_Replays m1 + 1\<rparr> else m1))"

definition audit_failed :: exchange_result where
  "audit_failed =
    \<lparr>xr_Token = [], xr_ExpiresIn = 0, xr_Issued = no_claims, xr_ReasonCode = ReasonAuditFailed,
     xr_Error = ''server_error'', xr_ErrorDesc = Desc ''audit unavailable''\<rparr>"

definition Exchange ::
  "('a sts_env_scheme) \<Rightarrow> sts_config \<Rightarrow> call_inputs \<Rightarrow> exchange_request \<Rightarrow>
    exchange_result \<times> sts_config" where
  "Exchange E c i req =
    (case exchange E c i req of (oc, rc) \<Rightarrow>
       (let c1 = c\<lparr>st_Replay := rc\<rparr> in
        case st_Audit c of
          None \<Rightarrow> (exchange_result.truncate oc, c1)
        | Some l \<Rightarrow>
            (case Append (e_audit E) l (in_stamp i) (in_audit_io i) (exchange_event req oc) of
               (Some e, l') \<Rightarrow> (audit_failed, c1\<lparr>st_Audit := Some l'\<rparr>)
             | (None, l') \<Rightarrow>
                 (exchange_result.truncate oc,
                  c1\<lparr>st_Audit := Some l', st_Metrics := count_outcome oc (st_Metrics c)\<rparr>))))"

section \<open>What passing the checks means\<close>

lemma request_error_None:
  "request_error issuer snap req = None \<longleftrightarrow>
    sn_Signer snap \<noteq> None \<and> sn_Registry snap \<noteq> None \<and> sn_Attestor snap \<noteq> None \<and> issuer \<noteq> [] \<and>
    rq_GrantType req \<in> {[], GrantTokenExchange} \<and>
    \<not> is_blank (rq_SubjectToken req) \<and> \<not> is_blank (rq_ActorToken req) \<and>
    \<not> is_blank (rq_AgentID req) \<and> \<not> is_blank (rq_Audience req) \<and>
    rq_RequestedTokenType req \<in> {[], TokenTypeJWT, TokenTypeAccess}"
  by (auto simp: request_error_def)

lemma check_caller_Inr:
  "check_caller E snap i req vs = Inr (wl, ag) \<longleftrightarrow>
    Attest E (the (sn_Attestor snap)) (rq_ActorToken req) = Inr wl \<and>
    Authorize (e_time E) (the (sn_Registry snap)) (rq_AgentID req) (wi_ID wl) (rq_Audience req)
      (in_now i) = Inr ag \<and>
    \<not> HasAgent (sn_Denylist snap) (rq_AgentID req) \<and> \<not> HasWorkload (sn_Denylist snap) (wi_ID wl)"
  by (auto simp: check_caller_def Let_def split: sum.splits)

definition subject_ok ::
  "denylist option \<Rightarrow> call_inputs \<Rightarrow> exchange_request \<Rightarrow> agent \<Rightarrow> claims \<Rightarrow> bool \<Rightarrow> bool" where
  "subject_ok dl i req ag sub fromSTS \<longleftrightarrow>
    \<not> is_blank (c_sub sub) \<and> \<not> HasPrincipal dl (c_sub sub) \<and> ValidateTime sub (in_now i) 0 = None \<and>
    rq_AgentID req \<noteq> [] \<and> rq_AgentID req \<in> set (c_aud sub) \<and>
    narrowScope (rq_Scope req) (c_scope sub) (ag_MaxScopes ag) \<noteq> None \<and>
    int (length (AppendChain sub)) + 1 \<le> ag_MaxDepth ag \<and>
    (if fromSTS then c_txn sub \<noteq> [] else c_actchain sub = [] \<and> c_act sub = None)"

definition prepare ::
  "call_inputs \<Rightarrow> exchange_request \<Rightarrow> workload_identity \<Rightarrow> agent \<Rightarrow> claims \<Rightarrow> bool \<Rightarrow> prepared" where
  "prepare i req wl ag sub fromSTS =
    \<lparr>pp_sub = sub, pp_fromSTS = fromSTS, pp_wl = wl,
     pp_scope = the (narrowScope (rq_Scope req) (c_scope sub) (ag_MaxScopes ag)),
     pp_chain = AppendChain sub,
     pp_txn = (if \<not> fromSTS \<and> c_txn sub = [] then newID ''txn'' (in_rand_txn i) else c_txn sub)\<rparr>"

lemma check_subject_Inr:
  "check_subject dl i req wl ag sub fromSTS = Inr p \<longleftrightarrow>
    subject_ok dl i req ag sub fromSTS \<and> p = prepare i req wl ag sub fromSTS"
  unfolding check_subject_def Let_def subject_ok_def prepare_def
    ValidateSubject_None[symmetric]
  by (cases "ValidateSubject sub"; cases "ValidateTime sub (in_now i) 0";
      cases "narrowScope (rq_Scope req) (c_scope sub) (ag_MaxScopes ag)")
    (auto simp: ValidateAudience_None)

text \<open>An exchange gets past its checks exactly under this condition.\<close>

definition caller_ok ::
  "('a sts_env_scheme) \<Rightarrow> bytes \<Rightarrow> identity_snap \<Rightarrow> call_inputs \<Rightarrow> exchange_request \<Rightarrow>
    workload_identity \<Rightarrow> agent \<Rightarrow> bool" where
  "caller_ok E issuer snap i req wl ag \<longleftrightarrow>
    request_error issuer snap req = None \<and> (\<exists>vs. check_caller E snap i req vs = Inr (wl, ag))"

lemma check_caller_any: "check_caller E snap i req vs = Inr x \<longleftrightarrow> check_caller E snap i req vs' = Inr x"
  by (cases x) (simp only: check_caller_Inr)

lemma exchange_checks_Inr:
  "exchange_checks E issuer snap i req = Inr p \<longleftrightarrow>
    (\<exists>wl ag sub fromSTS. caller_ok E issuer snap i req wl ag \<and>
       verifySubject E issuer (rq_SubjectToken req) snap = Inr (sub, fromSTS) \<and>
       subject_ok (sn_Denylist snap) i req ag sub fromSTS \<and> p = prepare i req wl ag sub fromSTS)"
  (is "?l \<longleftrightarrow> ?r")
proof -
  let ?vs = "verifySubject E issuer (rq_SubjectToken req) snap"
  have "caller_ok E issuer snap i req wl ag \<longleftrightarrow>
      request_error issuer snap req = None \<and> check_caller E snap i req ?vs = Inr (wl, ag)" for wl ag
    unfolding caller_ok_def using check_caller_any[of E snap i req ?vs] by blast
  then show ?thesis
    by (auto simp: exchange_checks_def Let_def check_subject_Inr[symmetric]
        split: option.splits sum.splits)
qed

text \<open>A denial carries no token.\<close>

definition is_denial :: "exchange_outcome \<Rightarrow> bool" where
  "is_denial oc \<longleftrightarrow> xr_Token oc = [] \<and> xr_ReasonCode oc \<noteq> ReasonOK \<and> xr_Issued oc = no_claims"

lemma is_denial_deny: "is_denial (deny code oauth desc) \<longleftrightarrow> code \<noteq> ReasonOK"
  by (simp add: is_denial_def deny_def)

lemma is_denial_withSubject [simp]: "is_denial (withSubject oc sub) = is_denial oc"
  by (simp add: is_denial_def withSubject_def)

lemma reasons_not_ok [simp]:
  "ReasonInvalidRequest \<noteq> ReasonOK" "ReasonInvalidActorToken \<noteq> ReasonOK"
  "ReasonInvalidSubjectToken \<noteq> ReasonOK" "ReasonScopeWidening \<noteq> ReasonOK"
  "ReasonDepthExceeded \<noteq> ReasonOK" "ReasonExpired \<noteq> ReasonOK" "ReasonChainIntegrity \<noteq> ReasonOK"
  "ReasonReplayedToken \<noteq> ReasonOK" "ReasonMissingCNF \<noteq> ReasonOK" "ReasonAgentDenied \<noteq> ReasonOK"
  "ReasonWorkloadDenied \<noteq> ReasonOK" "ReasonPrincipalDenied \<noteq> ReasonOK" "ReasonAuditFailed \<noteq> ReasonOK"
  by (simp_all add: reason_defs)

lemma mapRegistryErr_not_ok [simp]: "mapRegistryErr e \<noteq> ReasonOK"
  by (cases e) (simp_all add: mapRegistryErr_def reason_defs)

lemma request_error_denial: "request_error issuer snap req = Some oc \<Longrightarrow> is_denial oc"
  by (auto simp: request_error_def is_denial_deny split: if_splits)

lemma check_caller_denial: "check_caller E snap i req vs = Inl oc \<Longrightarrow> is_denial oc"
  by (auto simp: check_caller_def Let_def is_denial_deny split: sum.splits if_splits)

lemma check_subject_denial: "check_subject dl i req wl ag sub fromSTS = Inl oc \<Longrightarrow> is_denial oc"
  by (auto simp: check_subject_def Let_def is_denial_deny split: option.splits if_splits)

lemma exchange_checks_denial: "exchange_checks E issuer snap i req = Inl oc \<Longrightarrow> is_denial oc"
  by (auto simp: exchange_checks_def Let_def is_denial_deny
      dest: request_error_denial check_caller_denial check_subject_denial
      split: option.splits sum.splits)

lemma exchange_consume_denial: "exchange_consume E rc i p = (Some oc, rc') \<Longrightarrow> is_denial oc"
  by (auto simp: exchange_consume_def is_denial_deny split: if_splits option.splits prod.splits)

lemma exchange_mint_cases:
  obtains (minted) raw where "confirm_key req p \<noteq> []"
      "keyring_SignClaims E signer (minted_claims issuer ttl i req p (confirm_key req p)) = Inr raw"
      "xr_ReasonCode (exchange_mint E issuer ttl signer i req p) = ReasonOK"
      "xr_Token (exchange_mint E issuer ttl signer i req p) = raw"
      "xr_Issued (exchange_mint E issuer ttl signer i req p) =
        minted_claims issuer ttl i req p (confirm_key req p)"
      "oc_workload (exchange_mint E issuer ttl signer i req p) = wi_ID (pp_wl p)"
  | (denied) "is_denial (exchange_mint E issuer ttl signer i req p)"
  by (cases "confirm_key req p = []";
      cases "keyring_SignClaims E signer (minted_claims issuer ttl i req p (confirm_key req p))")
    (auto simp: exchange_mint_def Let_def is_denial_deny)

section \<open>What a minted token went through\<close>

definition mints ::
  "('a sts_env_scheme) \<Rightarrow> sts_config \<Rightarrow> call_inputs \<Rightarrow> exchange_request \<Rightarrow>
    workload_identity \<Rightarrow> agent \<Rightarrow> claims \<Rightarrow> bool \<Rightarrow> claims \<Rightarrow> bytes \<Rightarrow> replay_cache option \<Rightarrow> bool" where
  "mints E c i req wl ag sub fromSTS issued raw rc \<longleftrightarrow>
    caller_ok E (st_Issuer c) (snapshot c) i req wl ag \<and>
    verifySubject E (st_Issuer c) (rq_SubjectToken req) (snapshot c) = Inr (sub, fromSTS) \<and>
    subject_ok (st_Denylist c) i req ag sub fromSTS \<and>
    (if fromSTS then Consume (e_records E) (st_Replay c) (in_replay_now i) (in_replay_io i)
        (c_jti sub) (c_exp sub) [] = (None, rc)
     else rc = st_Replay c) \<and>
    confirm_key req (prepare i req wl ag sub fromSTS) \<noteq> [] \<and>
    issued = minted_claims (st_Issuer c) (sts_ttl c) i req (prepare i req wl ag sub fromSTS)
      (confirm_key req (prepare i req wl ag sub fromSTS)) \<and>
    keyring_SignClaims E (st_Signer c) issued = Inr raw"

lemma snapshot_simps [simp]:
  "sn_Denylist (snapshot c) = st_Denylist c" "sn_Signer (snapshot c) = st_Signer c"
  "sn_Registry (snapshot c) = st_Registry c" "sn_Attestor (snapshot c) = st_Attestor c"
  "sn_IdPKeys (snapshot c) = st_IdPKeys c" "sn_IdPIssuer (snapshot c) = st_IdPIssuer c"
  by (simp_all add: snapshot_def)

lemma prepare_simps [simp]:
  "pp_sub (prepare i req wl ag sub fromSTS) = sub"
  "pp_fromSTS (prepare i req wl ag sub fromSTS) = fromSTS"
  "pp_wl (prepare i req wl ag sub fromSTS) = wl"
  "pp_chain (prepare i req wl ag sub fromSTS) = AppendChain sub"
  by (simp_all add: prepare_def)

text \<open>Every outcome is a denial or a mint.\<close>

lemma exchange_outcomes:
  assumes "exchange E c i req = (oc, rc)"
  obtains (denied) "is_denial oc"
  | (minted) wl ag sub fromSTS where "xr_ReasonCode oc = ReasonOK" "oc_workload oc = wi_ID wl"
      "mints E c i req wl ag sub fromSTS (xr_Issued oc) (xr_Token oc) rc"
proof (cases "exchange_checks E (st_Issuer c) (snapshot c) i req")
  case (Inl oc')
  with assms have "oc = oc'" by (simp add: exchange_def)
  with exchange_checks_denial[OF Inl] denied show ?thesis by simp
next
  case (Inr p)
  then obtain wl ag sub fromSTS where
    ok: "caller_ok E (st_Issuer c) (snapshot c) i req wl ag"
      "verifySubject E (st_Issuer c) (rq_SubjectToken req) (snapshot c) = Inr (sub, fromSTS)"
      "subject_ok (st_Denylist c) i req ag sub fromSTS"
    and p: "p = prepare i req wl ag sub fromSTS"
    by (auto simp: exchange_checks_Inr)
  obtain e rc' where cons: "exchange_consume E (st_Replay c) i p = (e, rc')" by fastforce
  show ?thesis
  proof (cases e)
    case (Some x)
    with assms Inr cons have "oc = x" by (simp add: exchange_def)
    with exchange_consume_denial[of E "st_Replay c" i p x rc'] cons Some denied show ?thesis by simp
  next
    case None
    with assms Inr cons have oc: "oc = exchange_mint E (st_Issuer c) (sts_ttl c) (st_Signer c) i req p"
      and rc: "rc' = rc" by (simp_all add: exchange_def)
    have used: "if fromSTS then Consume (e_records E) (st_Replay c) (in_replay_now i) (in_replay_io i)
        (c_jti sub) (c_exp sub) [] = (None, rc) else rc = st_Replay c"
      using cons None rc p by (auto simp: exchange_consume_def split: prod.splits option.splits if_splits)
    show ?thesis
    proof (cases rule: exchange_mint_cases[of req p E "st_Signer c" "st_Issuer c" "sts_ttl c" i])
      case (minted raw)
      then show ?thesis
        using that(2)[of wl ag sub fromSTS] ok used p oc by (auto simp: mints_def)
    next
      case nope: denied
      then show ?thesis using denied oc by simp
    qed
  qed
qed

lemma truncate_simps [simp]:
  "xr_ReasonCode (exchange_result.truncate oc) = xr_ReasonCode oc"
  "xr_Token (exchange_result.truncate oc) = xr_Token oc"
  "xr_Issued (exchange_result.truncate oc) = xr_Issued oc"
  by (simp_all add: exchange_result.truncate_def)

text \<open>What \<^verbatim>\<open>Exchange\<close> adds: the audit record decides whether the outcome is returned.\<close>

lemma Exchange_cases:
  assumes "exchange E c i req = (oc, rc)"
  obtains (unaudited) "st_Audit c = None"
      "Exchange E c i req = (exchange_result.truncate oc, c\<lparr>st_Replay := rc\<rparr>)"
  | (failed) l e l' where "st_Audit c = Some l"
      "Append (e_audit E) l (in_stamp i) (in_audit_io i) (exchange_event req oc) = (Some e, l')"
      "Exchange E c i req = (audit_failed, c\<lparr>st_Replay := rc, st_Audit := Some l'\<rparr>)"
  | (audited) l l' where "st_Audit c = Some l"
      "Append (e_audit E) l (in_stamp i) (in_audit_io i) (exchange_event req oc) = (None, l')"
      "Exchange E c i req = (exchange_result.truncate oc,
        c\<lparr>st_Replay := rc, st_Audit := Some l', st_Metrics := count_outcome oc (st_Metrics c)\<rparr>)"
proof (cases "st_Audit c")
  case None
  with assms unaudited show ?thesis by (simp add: Exchange_def)
next
  case (Some l)
  obtain e l' where "Append (e_audit E) l (in_stamp i) (in_audit_io i) (exchange_event req oc) = (e, l')"
    by fastforce
  with Some assms failed audited show ?thesis by (cases e) (simp_all add: Exchange_def)
qed

lemma Exchange_minted:
  assumes "Exchange E c i req = (res, c')" "xr_ReasonCode res = ReasonOK"
  obtains wl ag sub fromSTS oc where
    "mints E c i req wl ag sub fromSTS (xr_Issued res) (xr_Token res) (st_Replay c')"
    "exchange E c i req = (oc, st_Replay c')" "xr_Issued oc = xr_Issued res"
    "xr_ReasonCode oc = ReasonOK" "oc_workload oc = wi_ID wl"
proof -
  obtain oc rc where x: "exchange E c i req = (oc, rc)" by fastforce
  have "res = exchange_result.truncate oc \<and> st_Replay c' = rc"
    by (cases rule: Exchange_cases[OF x]) (use assms in \<open>auto simp: audit_failed_def\<close>)
  then have res: "xr_ReasonCode oc = ReasonOK" "xr_Issued oc = xr_Issued res" "xr_Token oc = xr_Token res"
    and rc: "st_Replay c' = rc" using assms(2) by auto
  from x show ?thesis
  proof (cases rule: exchange_outcomes)
    case denied
    with res(1) show ?thesis by (simp add: is_denial_def)
  next
    case (minted wl ag sub fromSTS)
    with res rc x that show ?thesis by simp
  qed
qed

text \<open>The claims of a mint, field by field.\<close>

lemma mints_claims:
  assumes "mints E c i req wl ag sub fromSTS issued raw rc"
  shows "c_iss issued = st_Issuer c" "c_sub issued = c_sub sub" "c_aud issued = [rq_Audience req]"
    "c_exp issued = unix (in_now i + sts_ttl c)" "c_nbf issued = unix (in_now i)"
    "c_iat issued = unix (in_now i)"
    "c_act issued = Some (NestedAct (st_Issuer c) (rq_AgentID req) (c_act sub))"
    "c_actchain issued = AppendChain sub"
    "narrowScope (rq_Scope req) (c_scope sub) (ag_MaxScopes ag) = Some (c_scope issued)"
    "c_txn issued = (if \<not> fromSTS \<and> c_txn sub = [] then newID ''txn'' (in_rand_txn i) else c_txn sub)"
    "ConfirmJKT issued \<noteq> []" "c_jti issued = newID ''jti'' (in_rand_jti i)"
  using assms
  by (auto simp: mints_def minted_claims_def prepare_def subject_ok_def ConfirmJKT_def)

lemma mints_agent:
  assumes "mints E c i req wl ag sub fromSTS issued raw rc"
  shows "rq_AgentID req \<noteq> []"
  using assms by (simp add: mints_def subject_ok_def)

lemma mints_ActorSubs:
  assumes "mints E c i req wl ag sub fromSTS issued raw rc"
  shows "ActorSubs issued = ActorSubs sub @ [rq_AgentID req]"
  by (rule ActorSubs_next[OF mints_claims(8)[OF assms] mints_claims(7)[OF assms] mints_agent[OF assms]])

text \<open>Conversely, an exchange that meets every condition mints.\<close>

lemma mints_exchange:
  assumes "mints E c i req wl ag sub fromSTS issued raw rc"
  shows "\<exists>oc. exchange E c i req = (oc, rc) \<and> xr_ReasonCode oc = ReasonOK \<and>
    xr_Issued oc = issued \<and> xr_Token oc = raw \<and> oc_workload oc = wi_ID wl"
proof -
  have p: "exchange_checks E (st_Issuer c) (snapshot c) i req = Inr (prepare i req wl ag sub fromSTS)"
    using assms by (auto simp: exchange_checks_Inr mints_def)
  have q: "exchange_consume E (st_Replay c) i (prepare i req wl ag sub fromSTS) = (None, rc)"
    using assms by (simp add: exchange_consume_def mints_def split: if_splits)
  show ?thesis
    using p q assms by (auto simp: exchange_def exchange_mint_def mints_def Let_def)
qed

lemma exchange_mints_iff:
  "(\<exists>oc. exchange E c i req = (oc, rc) \<and> xr_ReasonCode oc = ReasonOK \<and> xr_Issued oc = issued \<and>
      xr_Token oc = raw) \<longleftrightarrow>
   (\<exists>wl ag sub fromSTS. mints E c i req wl ag sub fromSTS issued raw rc)"
proof
  assume "\<exists>oc. exchange E c i req = (oc, rc) \<and> xr_ReasonCode oc = ReasonOK \<and> xr_Issued oc = issued \<and>
      xr_Token oc = raw"
  then obtain oc where oc: "exchange E c i req = (oc, rc)" "xr_ReasonCode oc = ReasonOK"
    "xr_Issued oc = issued" "xr_Token oc = raw" by blast
  from oc(1) show "\<exists>wl ag sub fromSTS. mints E c i req wl ag sub fromSTS issued raw rc"
    by (cases rule: exchange_outcomes) (use oc(2-) in \<open>auto simp: is_denial_def\<close>)
qed (use mints_exchange in blast)

text \<open>The only effect of \<^verbatim>\<open>exchange\<close> is at most one \<^verbatim>\<open>Consume\<close> on the replay cache.\<close>

definition consume_op_of :: "call_inputs \<Rightarrow> claims \<Rightarrow> consume_op" where
  "consume_op_of i sub =
    \<lparr>co_now = in_replay_now i, co_io = in_replay_io i, co_jti = c_jti sub, co_exp = c_exp sub,
     co_aliases = []\<rparr>"

lemma consume_step_of:
  "consume_step J c (consume_op_of i sub) =
    (snd (cache_Consume J c (in_replay_now i) (in_replay_io i) (c_jti sub) (c_exp sub) []),
     fst (cache_Consume J c (in_replay_now i) (in_replay_io i) (c_jti sub) (c_exp sub) []) = None)"
  by (simp add: consume_step_def consume_op_of_def case_prod_unfold Let_def)

lemma exchange_replay:
  assumes "exchange E c i req = (oc, rc)" "st_Replay c = Some s"
  shows "rc = Some s \<or> (\<exists>sub. verifySubject E (st_Issuer c) (rq_SubjectToken req) (snapshot c) = Inr (sub, True) \<and>
    rc = Some (fst (consume_step (e_records E) s (consume_op_of i sub))))"
proof (cases "exchange_checks E (st_Issuer c) (snapshot c) i req")
  case (Inl oc')
  with assms show ?thesis by (simp add: exchange_def)
next
  case (Inr p)
  then have vs: "verifySubject E (st_Issuer c) (rq_SubjectToken req) (snapshot c)
      = Inr (pp_sub p, pp_fromSTS p)"
    by (auto simp: exchange_checks_Inr)
  have "rc = snd (exchange_consume E (st_Replay c) i p)"
    using assms(1) Inr by (auto simp: exchange_def Let_def split: prod.splits option.splits)
  also have "\<dots> = (if pp_fromSTS p
      then Some (fst (consume_step (e_records E) s (consume_op_of i (pp_sub p)))) else Some s)"
    using assms(2)
    by (cases "cache_Consume (e_records E) s (in_replay_now i) (in_replay_io i)
          (c_jti (pp_sub p)) (c_exp (pp_sub p)) []")
      (auto simp: exchange_consume_def Consume_def consume_step_of split: option.split)
  finally show ?thesis using vs by auto
qed

end
