(* ===== verification/Sts_Properties.thy ===== *)
theory Sts_Properties
  imports Sts
begin

text \<open>
  The properties of the token exchange of \<^verbatim>\<open>internal/sts/sts.go\<close>: who is served, what is minted, what
  survives a hop, single use of subject tokens over whole runs of the service, and the audit record
  that comes before every answer. The last sections give concrete exchanges.
\<close>

section \<open>Scopes\<close>

text \<open>The scopes a hop may grant: the agent's, narrowed by the incoming ones if there are any.\<close>

definition scope_ceiling :: "bytes \<Rightarrow> bytes list \<Rightarrow> scopes" where
  "scope_ceiling incoming mx =
    (if incoming \<noteq> [] then ScopeSet (strings_Join '' '' mx) \<inter> ScopeSet incoming
     else ScopeSet (strings_Join '' '' mx))"

lemma scope_ceiling_words [simp]: "finite (scope_ceiling inc mx)" "t \<in> scope_ceiling inc mx \<Longrightarrow> is_word t"
  by (auto simp: scope_ceiling_def ScopeSet_words split: if_splits)

lemma narrowScope_eq:
  "narrowScope requested incoming mx =
    (if is_blank requested then Some (JoinScopes (scope_ceiling incoming mx))
     else if ScopeSet requested \<subseteq> scope_ceiling incoming mx then Some (JoinScopes (ScopeSet requested))
     else None)"
  by (simp add: narrowScope_def scope_ceiling_def Let_def)

lemma narrowScope_ScopeSet:
  assumes "narrowScope requested incoming mx = Some s"
  shows "ScopeSet s = (if is_blank requested then scope_ceiling incoming mx else ScopeSet requested)"
    and "ScopeSet s \<subseteq> scope_ceiling incoming mx"
proof -
  show eq: "ScopeSet s = (if is_blank requested then scope_ceiling incoming mx else ScopeSet requested)"
    using assms by (auto simp: narrowScope_eq ScopeSet_JoinScopes JoinScopes_ScopeSet split: if_splits)
  show "ScopeSet s \<subseteq> scope_ceiling incoming mx"
    unfolding eq using assms by (auto simp: narrowScope_eq split: if_splits)
qed

section \<open>The service over time\<close>

text \<open>
  The events of a running service: an exchange, and the installation of reloaded identity. Each is
  atomic with respect to the others on the replay cache, as the locks of the code make it.
\<close>

datatype sts_event =
    Ev_Exchange call_inputs exchange_request
  | Ev_Install instant "registry option" "keyring option" "denylist option"

definition event_time :: "sts_event \<Rightarrow> int" where
  "event_time ev =
    (case ev of Ev_Exchange i req \<Rightarrow> unix (in_replay_now i) | Ev_Install t _ _ _ \<Rightarrow> unix t)"

text \<open>The token id and expiry that an exchange presents, read off its subject token.\<close>

definition presented :: "('a token_env_scheme) \<Rightarrow> sts_event \<Rightarrow> (bytes \<times> int) option" where
  "presented E ev =
    (case ev of
       Ev_Install _ _ _ _ \<Rightarrow> None
     | Ev_Exchange i req \<Rightarrow>
         (case ParseUnverified E (rq_SubjectToken req) of
            Inl e \<Rightarrow> None
          | Inr (h, c, b) \<Rightarrow> Some (c_jti c, c_exp c)))"

definition sts_issued :: "('a token_env_scheme) \<Rightarrow> sts_config \<Rightarrow> bytes \<Rightarrow> bool" where
  "sts_issued E c raw \<longleftrightarrow>
    (case verifySubject E (st_Issuer c) raw (snapshot c) of Inr (sub, True) \<Rightarrow> True | _ \<Rightarrow> False)"

text \<open>One event; the answer is whether a token was minted from a subject token of the STS itself.\<close>

definition sts_step :: "('a sts_env_scheme) \<Rightarrow> sts_config \<Rightarrow> sts_event \<Rightarrow> sts_config \<times> bool" where
  "sts_step E c ev =
    (case ev of
       Ev_Exchange i req \<Rightarrow>
         (case Exchange E c i req of (res, c') \<Rightarrow>
            (c', xr_ReasonCode res = ReasonOK \<and> sts_issued E c (rq_SubjectToken req)))
     | Ev_Install t reg kr dl \<Rightarrow> (snd (installIdentity E c reg kr dl), False))"

definition sts_spent :: "sts_config \<Rightarrow> bytes \<times> int \<Rightarrow> int \<Rightarrow> bool" where
  "sts_spent c k t \<longleftrightarrow> (case st_Replay c of None \<Rightarrow> True | Some rc \<Rightarrow> consumed rc k t)"

lemma verifySubject_cases:
  assumes "verifySubject E issuer raw snap = Inr (sub, f)"
  obtains (sts) h where "f" "sn_Signer snap \<noteq> None" "c_iss sub = issuer"
      "jws_Verify E raw (keyring_JWKS E (sn_Signer snap)) = Inr (h, sub)"
  | (idp) h where "\<not> f" "jws_Verify E raw (sn_IdPKeys snap) = Inr (h, sub)"
      "sn_IdPIssuer snap = [] \<or> c_iss sub = sn_IdPIssuer snap"
      "sn_Signer snap = None \<or> (\<forall>r. jws_Verify E raw (keyring_JWKS E (sn_Signer snap)) \<noteq> Inr r)"
proof (cases "sn_Signer snap = None \<or> (\<forall>r. jws_Verify E raw (keyring_JWKS E (sn_Signer snap)) \<noteq> Inr r)")
  case True
  then have "\<exists>e. (if sn_Signer snap = None then Inl Token_ErrBadSignature
           else jws_Verify E raw (keyring_JWKS E (sn_Signer snap))) = Inl e"
    by (cases "sn_Signer snap = None"; cases "jws_Verify E raw (keyring_JWKS E (sn_Signer snap))") simp_all
  then obtain e where "(if sn_Signer snap = None then Inl Token_ErrBadSignature
           else jws_Verify E raw (keyring_JWKS E (sn_Signer snap))) = Inl e" by blast
  with assms have "\<not> f \<and> (\<exists>h. jws_Verify E raw (sn_IdPKeys snap) = Inr (h, sub) \<and>
      (sn_IdPIssuer snap = [] \<or> c_iss sub = sn_IdPIssuer snap))"
    by (simp add: verifySubject_def split: sum.splits prod.splits if_splits)
  with True idp show ?thesis by blast
next
  case False
  then obtain h c where "sn_Signer snap \<noteq> None"
    "jws_Verify E raw (keyring_JWKS E (sn_Signer snap)) = Inr (h, c)" by auto
  with assms sts show ?thesis by (auto simp: verifySubject_def split: if_splits)
qed

lemma verifySubject_parse:
  assumes "verifySubject E issuer raw snap = Inr (sub, f)"
  shows "\<exists>h b. ParseUnverified E raw = Inr (h, sub, b)"
proof -
  from assms have "\<exists>h ks. jws_Verify E raw ks = Inr (h, sub)"
    by (rule verifySubject_cases) blast+
  then show ?thesis using signed_as_ParseUnverified by (fastforce simp: jws_Verify_Inr_iff)
qed

lemma Exchange_replay:
  assumes "Exchange E c i req = (res, c')"
  shows "exchange E c i req = (fst (exchange E c i req), st_Replay c')"
proof -
  obtain oc rc where x: "exchange E c i req = (oc, rc)" by fastforce
  have "st_Replay c' = rc"
    by (cases rule: Exchange_cases[OF x]) (use assms in auto)
  with x show ?thesis by simp
qed

text \<open>An exchange changes the replay cache, the audit log and the counters, nothing else.\<close>

lemma Exchange_snapshot:
  assumes "Exchange E c i req = (res, c')"
  shows "snapshot c' = snapshot c" "st_Issuer c' = st_Issuer c" "st_TTL c' = st_TTL c"
proof -
  obtain oc rc where x: "exchange E c i req = (oc, rc)" by fastforce
  show "snapshot c' = snapshot c" "st_Issuer c' = st_Issuer c" "st_TTL c' = st_TTL c"
    by (cases rule: Exchange_cases[OF x]; use assms in \<open>auto simp: snapshot_def\<close>)+
qed

lemma installIdentity_replay [simp]: "st_Replay (snd (installIdentity E c reg kr dl)) = st_Replay c"
  by (auto simp: installIdentity_def Let_def split: option.split)

lemma Consume_Some_step:
  "Consume J (Some s) (in_replay_now i) (in_replay_io i) (c_jti sub) (c_exp sub) [] = (None, rc) \<longleftrightarrow>
    consume_step J s (consume_op_of i sub) = (the rc, True) \<and> rc \<noteq> None"
  by (cases "cache_Consume J s (in_replay_now i) (in_replay_io i) (c_jti sub) (c_exp sub) []")
    (auto simp: Consume_def consume_step_of)

text \<open>A mint from a subject token of the STS is a successful consumption of its id.\<close>

lemma sts_step_used:
  assumes "sts_step E c (Ev_Exchange i req) = (c', True)"
  obtains sub s where "verifySubject E (st_Issuer c) (rq_SubjectToken req) (snapshot c) = Inr (sub, True)"
    "st_Replay c = Some s" "st_Replay c' = Some (fst (consume_step (e_records E) s (consume_op_of i sub)))"
    "snd (consume_step (e_records E) s (consume_op_of i sub))"
proof -
  obtain res where x: "Exchange E c i req = (res, c')" "xr_ReasonCode res = ReasonOK"
    and sts: "sts_issued E c (rq_SubjectToken req)"
    using assms by (auto simp: sts_step_def split: prod.splits)
  obtain wl ag sub f where m: "mints E c i req wl ag sub f (xr_Issued res) (xr_Token res) (st_Replay c')"
    using Exchange_minted[OF x] by metis
  with sts have f: "f" by (auto simp: mints_def sts_issued_def split: sum.splits prod.splits bool.splits)
  with m have v: "verifySubject E (st_Issuer c) (rq_SubjectToken req) (snapshot c) = Inr (sub, True)"
    and cons: "Consume (e_records E) (st_Replay c) (in_replay_now i) (in_replay_io i)
      (c_jti sub) (c_exp sub) [] = (None, st_Replay c')"
    by (auto simp: mints_def)
  show ?thesis
  proof (cases "st_Replay c")
    case None
    with cons show ?thesis by (simp add: Consume_def)
  next
    case (Some s)
    with cons have "consume_step (e_records E) s (consume_op_of i sub) = (the (st_Replay c'), True)"
      "st_Replay c' \<noteq> None" by (simp_all add: Consume_Some_step)
    with v Some that show ?thesis by auto
  qed
qed

lemma presented_key:
  assumes "verifySubject E issuer (rq_SubjectToken req) snap = Inr (sub, f)"
  shows "presented E (Ev_Exchange i req) = Some (c_jti sub, c_exp sub)"
  using verifySubject_parse[OF assms] by (auto simp: presented_def)

interpretation sts_guard: single_use "sts_step E" "presented E" event_time sts_spent "\<lambda>ev k. False" for E
proof unfold_locales
  fix ev k c t
  assume k: "presented E ev = Some k" and ok: "snd (sts_step E c ev)" and t: "event_time ev \<le> t"
  show "sts_spent (fst (sts_step E c ev)) k t"
  proof (cases ev)
    case (Ev_Exchange i req)
    with ok have st: "sts_step E c (Ev_Exchange i req) = (fst (sts_step E c ev), True)"
      by (simp add: prod_eq_iff)
    from st obtain sub s where u: "verifySubject E (st_Issuer c) (rq_SubjectToken req) (snapshot c) = Inr (sub, True)"
      "st_Replay (fst (sts_step E c ev)) = Some (fst (consume_step (e_records E) s (consume_op_of i sub)))"
      "snd (consume_step (e_records E) s (consume_op_of i sub))"
      by (rule sts_step_used)
    have "k = (co_jti (consume_op_of i sub), co_exp (consume_op_of i sub))"
      using presented_key[OF u(1), of i] k Ev_Exchange by (simp add: consume_op_of_def)
    then show ?thesis
      using replay_guard.use_spends[OF _ u(3), of k t] t u(2) Ev_Exchange
      by (simp add: sts_spent_def event_time_def consume_op_of_def)
  next
    case Ev_Install
    with k show ?thesis by (simp add: presented_def)
  qed
next
  fix ev k c
  assume k: "presented E ev = Some k" and sp: "sts_spent c k (event_time ev)"
  show "\<not> snd (sts_step E c ev)"
  proof
    assume ok: "snd (sts_step E c ev)"
    show False
    proof (cases ev)
      case (Ev_Exchange i req)
      with ok have st: "sts_step E c (Ev_Exchange i req) = (fst (sts_step E c ev), True)"
        by (simp add: prod_eq_iff)
      from st obtain sub s where u: "verifySubject E (st_Issuer c) (rq_SubjectToken req) (snapshot c) = Inr (sub, True)"
        "st_Replay c = Some s" "snd (consume_step (e_records E) s (consume_op_of i sub))"
        by (rule sts_step_used)
      have "k = (co_jti (consume_op_of i sub), co_exp (consume_op_of i sub))"
        using presented_key[OF u(1), of i] k Ev_Exchange by (simp add: consume_op_of_def)
      moreover have "consumed s k (unix (co_now (consume_op_of i sub)))"
        using sp u(2) Ev_Exchange by (simp add: sts_spent_def event_time_def consume_op_of_def)
      ultimately show False
        using replay_guard.spent_refuses[of "consume_op_of i sub" k s "e_records E"] u(3) by simp
    next
      case Ev_Install
      with ok show False by (simp add: sts_step_def)
    qed
  qed
next
  fix c k t ev
  assume sp: "sts_spent c k t" and t: "event_time ev \<le> t"
  show "sts_spent (fst (sts_step E c ev)) k t"
  proof (cases ev)
    case (Ev_Exchange i req)
    obtain res c' where x: "Exchange E c i req = (res, c')" by fastforce
    then have c': "fst (sts_step E c ev) = c'" by (simp add: Ev_Exchange sts_step_def)
    note rep = Exchange_replay[OF x]
    show ?thesis
    proof (cases "st_Replay c")
      case None
      then have "st_Replay c' = None"
        using rep by (auto simp: exchange_def exchange_consume_def Consume_def Let_def
            split: sum.splits prod.splits option.splits if_splits)
      then show ?thesis by (simp add: c' sts_spent_def)
    next
      case (Some s)
      have s: "consumed s k t" using sp Some by (simp add: sts_spent_def)
      then have "consumed (fst (consume_step (e_records E) s (consume_op_of i sub))) k t" for sub
        using replay_guard.spent_stays[of s k t "consume_op_of i sub" "e_records E"] t Ev_Exchange
        by (simp add: event_time_def consume_op_of_def)
      with s exchange_replay[OF rep Some] show ?thesis by (auto simp: c' sts_spent_def)
    qed
  next
    case Ev_Install
    with sp show ?thesis by (simp add: sts_step_def sts_spent_def)
  qed
qed

section \<open>A concrete service\<close>

definition example_sts_env :: "claims list \<Rightarrow> sts_env" where
  "example_sts_env cs = token_env.extend (example_env cs)
    (sts_env.fields example_time example_records (example_audit example_sum))"

lemma example_sts_env_laws [simp]:
  "ed25519_laws (example_sts_env cs) seed"
  "c \<in> set cs \<Longrightarrow> codec_ok (example_sts_env cs) \<lparr>h_alg = ''EdDSA'', h_typ = ''JWT'', h_kid = kid\<rparr> c"
  "e_time (example_sts_env cs) = example_time" "e_records (example_sts_env cs) = example_records"
  "e_audit (example_sts_env cs) = example_audit example_sum"
  using example_ed25519[of cs seed] example_codec[of c cs kid]
  by (simp_all add: ed25519_laws_def codec_ok_def example_sts_env_def token_env.defs sts_env.defs)

definition idp_signer :: signer where
  "idp_signer = \<lparr>sg_seed = replicate 32 CHR ''i'', sg_kid = ''idp'', sg_sub = []\<rparr>"

definition sts_signer :: signer where
  "sts_signer = \<lparr>sg_seed = replicate 32 CHR ''a'', sg_kid = ''k1'', sg_sub = []\<rparr>"

definition example_keyring :: keyring where
  "example_keyring = \<lparr>kr_activeKID = ''k1'', kr_byKID = Some (example_ring ''a'' [''k1''])\<rparr>"

definition agent_a :: agent where
  "agent_a =
    \<lparr>ag_ID = ''agent://a'', ag_Workloads = [''wl-1''], ag_Audiences = [''agent://b''],
     ag_MaxScopes = [''read'', ''write''], ag_MaxDepth = 2, ag_CreatedAt = [], ag_Expiry = ''2030''\<rparr>"

definition agent_b :: agent where
  "agent_b = agent_a\<lparr>ag_ID := ''agent://b'', ag_Audiences := [''agent://a'', ''tool://t''],
    ag_MaxScopes := [''read'', ''admin'']\<rparr>"

definition example_config :: "claims list \<Rightarrow> sts_config" where
  "example_config cs =
    \<lparr>st_Issuer = ''sts'', st_TTL = 0,
     st_Registry = Some \<lparr>rg_Version = 1, rg_byID = by_ids [agent_a, agent_b], rg_Agents = [agent_a, agent_b]\<rparr>,
     st_Signer = Some example_keyring,
     st_Attestor = Some (Att_LocalKeys (Some
       \<lparr>lk_Keys = [signer_PublicJWK (example_env cs) (example_workload_key ''wl-1'')],
        lk_Audience = ''sts'', lk_Now = Some 500\<rparr>)),
     st_IdPKeys = [signer_PublicJWK (example_env cs) idp_signer], st_IdPIssuer = ''idp'',
     st_Audit = Some example_logger, st_Replay = Some NewReplayCache, st_Denylist = None,
     st_Metrics = \<lparr>mt_Minted = 0, mt_Denied = 0, mt_Replays = 0, mt_Reloads = 0, mt_ReloadFails = 0,
                   mt_RateLimited = 0\<rparr>\<rparr>"

definition user_claims :: claims where
  "user_claims = example_claims\<lparr>c_iss := ''idp'', c_aud := [''agent://a''], c_txn := [], c_jti := ''u1''\<rparr>"

definition example_inputs :: call_inputs where
  "example_inputs =
    \<lparr>in_now = 500 * second, in_replay_now = 500 * second,
     in_replay_io = \<lparr>io_written = None, io_synced = True\<rparr>,
     in_rand_txn = ''0123456789abcdef'', in_rand_jti = ''fedcba9876543210'', in_stamp = ''t'',
     in_audit_io = \<lparr>io_written = None, io_synced = True\<rparr>\<rparr>"

definition user_request :: "claims list \<Rightarrow> exchange_request" where
  "user_request cs =
    \<lparr>rq_GrantType = [], rq_SubjectToken = signer_SignClaims (example_env cs) idp_signer user_claims,
     rq_SubjectTokenType = [],
     rq_ActorToken = signer_SignClaims (example_env cs) (example_workload_key ''wl-1'') example_actor_claims,
     rq_ActorTokenType = [], rq_Audience = ''agent://b'', rq_Scope = [], rq_RequestedTokenType = [],
     rq_AgentID = ''agent://a'', rq_Purp = [], rq_ConfirmJKT = ''jkt''\<rparr>"

lemma example_sts_signs [simp]:
  "signer_PublicJWK (example_sts_env cs) s = signer_PublicJWK (example_env cs) s"
  "signer_SignClaims (example_sts_env cs) s c = signer_SignClaims (example_env cs) s c"
  by (simp_all add: signer_PublicJWK_def signer_SignClaims_def signer_Sign_def example_sts_env_def
      token_env.defs)

lemma example_sts_verifies:
  assumes "c \<in> set cs" "sg_kid s \<noteq> []" "distinct (map k_kid keys)"
    "signer_PublicJWK (example_env cs) s \<in> set keys"
  shows "VerifyKey (example_sts_env cs) (signer_SignClaims (example_env cs) s c) keys
    = Inr (\<lparr>h_alg = ''EdDSA'', h_typ = ''JWT'', h_kid = sg_kid s\<rparr>, c, signer_PublicJWK (example_env cs) s)"
  using sign_VerifyKey[of "example_sts_env cs" s c keys] assms by simp

lemma example_keyring_JWKS:
  "keyring_JWKS (example_sts_env cs) (Some example_keyring) = [signer_PublicJWK (example_env cs) sts_signer]"
  by (simp add: keyring_JWKS_def example_keyring_def jwksFrom_def example_ring_def sts_signer_def)

lemma example_not_verified:
  assumes "c \<in> set cs" "sg_kid s \<noteq> []" "sg_kid s \<notin> k_kid ` set keys"
  shows "\<exists>e. jws_Verify (example_sts_env cs) (signer_SignClaims (example_env cs) s c) keys = Inl e"
proof (cases "jws_Verify (example_sts_env cs) (signer_SignClaims (example_env cs) s c) keys")
  case (Inr r)
  then obtain h c' j where
    "VerifyKey (example_sts_env cs) (signer_SignClaims (example_sts_env cs) s c) keys = Inr (h, c', j)"
    by (auto simp: jws_Verify_def split: sum.splits)
  from signed_header[OF _ _ assms(2) this] assms(1) have "j \<in> set keys" "k_kid j = sg_kid s"
    by auto
  with assms(3) show ?thesis by (metis image_eqI)
qed simp

lemma not_blank_letter:
  assumes "c \<notin> {CHR 0x20, CHR 0x09, CHR 0x0A, CHR 0x0B, CHR 0x0C, CHR 0x0D,
    CHR 0xC2, CHR 0xE1, CHR 0xE2, CHR 0xE3}"
  shows "\<not> is_blank (c # s)"
  by (rule not_blankI) (use assms in \<open>auto simp: strip_space_def strip_any_None_iff space_encodings_def\<close>)

lemma example_token_not_blank:
  "\<not> is_blank (signer_SignClaims (example_env cs) (example_workload_key wl) c)"
  "\<not> is_blank (signer_SignClaims (example_env cs) idp_signer c)"
  "\<not> is_blank (signer_SignClaims (example_env cs) sts_signer c)"
proof -
  have b: "B64Encode ''hw1'' = ''aHcx''" "B64Encode ''hidp'' = ''aGlkcA''" "B64Encode ''hk1'' = ''aGsx''"
    by code_simp+
  have h: "Marshal_header (example_env cs) h = CHR ''h'' # h_kid h" for h
    by (simp add: example_env_def)
  show "\<not> is_blank (signer_SignClaims (example_env cs) (example_workload_key wl) c)"
    "\<not> is_blank (signer_SignClaims (example_env cs) idp_signer c)"
    "\<not> is_blank (signer_SignClaims (example_env cs) sts_signer c)"
    by (simp_all add: signer_SignClaims_def signer_Sign_def h b Let_def not_blank_letter
        example_workload_key_def idp_signer_def sts_signer_def)
qed

lemma example_sts_attests:
  assumes "example_actor_claims \<in> set cs"
  shows "Attest (example_sts_env cs) (the (st_Attestor (example_config cs)))
      (signer_SignClaims (example_env cs) (example_workload_key ''wl-1'') example_actor_claims)
    = Inr \<lparr>wi_ID = ''wl-1'', wi_Issuer = ''wl-1'', wi_JTI = ''jti-1'', wi_PossessedJKT = example_jkt cs\<rparr>"
proof -
  have v: "VerifyKey (example_sts_env cs)
      (signer_SignClaims (example_env cs) (example_workload_key ''wl-1'') example_actor_claims)
      [signer_PublicJWK (example_env cs) (example_workload_key ''wl-1'')]
    = Inr (\<lparr>h_alg = ''EdDSA'', h_typ = ''JWT'', h_kid = sg_kid (example_workload_key ''wl-1'')\<rparr>,
           example_actor_claims, signer_PublicJWK (example_env cs) (example_workload_key ''wl-1''))"
    by (rule example_sts_verifies) (simp_all add: assms example_workload_key_def)
  have t: "Thumbprint (example_sts_env cs) j = Thumbprint (example_env cs) j" for j
    by (simp add: Thumbprint_def example_sts_env_def token_env.defs split: sum.split)
  show ?thesis
    by (simp add: example_config_def LocalKeys_Attest_def LocalKeys_keys_def v t example_thumbprint
        ValidateSubject_def)
      (simp add: example_actor_claims_def example_claims_def example_workload_key_def
        signer_PublicJWK_def not_blank_letter)
qed

text \<open>The first hop of the example: agent a gets a token for agent b on behalf of the user.\<close>

definition first_token :: claims where
  "first_token =
    \<lparr>c_iss = ''sts'', c_sub = ''alice'', c_aud = [''agent://b''], c_exp = 620, c_nbf = 500, c_iat = 500,
     c_jti = newID ''jti'' ''fedcba9876543210'', c_txn = newID ''txn'' ''0123456789abcdef'',
     c_act = Some (Actor ''sts'' ''agent://a'' None), c_actchain = [], c_scope = ''read'', c_purp = [],
     c_cnf = Some \<lparr>cnf_jkt = ''jkt''\<rparr>\<rparr>"

definition example_wl :: "claims list \<Rightarrow> workload_identity" where
  "example_wl cs = \<lparr>wi_ID = ''wl-1'', wi_Issuer = ''wl-1'', wi_JTI = ''jti-1'', wi_PossessedJKT = example_jkt cs\<rparr>"

lemma example_time_simps [simp]: "example_time ''2030'' = Some 1893456000000000000"
  by (simp add: example_time_def)

lemma trim_jkt [simp]: "TrimSpace ''jkt'' = ''jkt''"
  by code_simp

text \<open>Any request of that agent with these fields gets it, bound to the key that the request names, or to
  the key the workload was attested with.\<close>

definition first_request :: "claims list \<Rightarrow> exchange_request \<Rightarrow> bool" where
  "first_request cs req \<longleftrightarrow>
    rq_GrantType req \<in> {[], GrantTokenExchange} \<and> rq_RequestedTokenType req = [] \<and>
    rq_SubjectToken req = rq_SubjectToken (user_request cs) \<and>
    rq_Audience req = ''agent://b'' \<and> rq_AgentID req = ''agent://a'' \<and> rq_Scope req = [] \<and> rq_Purp req = [] \<and>
    TrimSpace (rq_ConfirmJKT req) = rq_ConfirmJKT req"

definition first_workload :: "claims list \<Rightarrow> exchange_request \<Rightarrow> workload_identity \<Rightarrow> bool" where
  "first_workload cs req wl \<longleftrightarrow>
    Attest (example_sts_env cs) (the (st_Attestor (example_config cs))) (rq_ActorToken req) = Inr wl \<and>
    wi_ID wl = ''wl-1'' \<and> \<not> is_blank (rq_ActorToken req)"

definition first_key :: "exchange_request \<Rightarrow> workload_identity \<Rightarrow> bytes" where
  "first_key req wl = (if rq_ConfirmJKT req = [] then wi_PossessedJKT wl else rq_ConfirmJKT req)"

definition first_token_for :: "bytes \<Rightarrow> claims" where
  "first_token_for jkt = first_token\<lparr>c_cnf := Some \<lparr>cnf_jkt = jkt\<rparr>\<rparr>"

lemma example_first_hop_for:
  assumes cs: "user_claims \<in> set cs" and req: "first_request cs req"
    and wl: "first_workload cs req wl" "first_key req wl \<noteq> []"
  shows "mints (example_sts_env cs) (example_config cs) example_inputs req wl
    agent_a user_claims False (first_token_for (first_key req wl))
    (signer_SignClaims (example_env cs) sts_signer (first_token_for (first_key req wl)))
    (Some NewReplayCache)"
proof -
  note fields = req[unfolded first_request_def] wl(1)[unfolded first_workload_def]
  have caller: "caller_ok (example_sts_env cs) (st_Issuer (example_config cs)) (snapshot (example_config cs))
      example_inputs req wl agent_a"
    unfolding caller_ok_def request_error_None check_caller_Inr
    using fields
    by (simp add: user_request_def example_token_not_blank not_blank_letter)
      (simp add: example_config_def Authorize_Inr ValidateAt_None by_ids_Cons agent_a_def agent_b_def
        example_inputs_def)
  have "sg_kid idp_signer \<notin> k_kid ` set (keyring_JWKS (example_sts_env cs) (Some example_keyring))"
    by (simp add: example_keyring_JWKS idp_signer_def sts_signer_def)
  then obtain e where "jws_Verify (example_sts_env cs) (signer_SignClaims (example_env cs) idp_signer user_claims)
      (keyring_JWKS (example_sts_env cs) (Some example_keyring)) = Inl e"
    using example_not_verified[OF cs, of idp_signer] by (auto simp: idp_signer_def)
  moreover have "VerifyKey (example_sts_env cs) (signer_SignClaims (example_env cs) idp_signer user_claims)
      [signer_PublicJWK (example_env cs) idp_signer]
    = Inr (\<lparr>h_alg = ''EdDSA'', h_typ = ''JWT'', h_kid = sg_kid idp_signer\<rparr>, user_claims,
        signer_PublicJWK (example_env cs) idp_signer)"
    by (rule example_sts_verifies[OF cs]) (simp_all add: idp_signer_def)
  ultimately have subj: "verifySubject (example_sts_env cs) (st_Issuer (example_config cs))
      (rq_SubjectToken req) (snapshot (example_config cs)) = Inr (user_claims, False)"
    using fields
    by (simp add: verifySubject_def user_request_def example_config_def jws_Verify_def
        user_claims_def)
  have scope: "narrowScope [] ''read'' [''read'', ''write''] = Some ''read''"
    by code_simp
  have subok: "subject_ok None example_inputs req agent_a user_claims False"
    using scope fields
    by (simp add: subject_ok_def user_request_def agent_a_def user_claims_def example_claims_def
        example_inputs_def not_blank_letter AppendChain_def ValidateTime_default unix_def i64_def)
  have key: "confirm_key req (prepare example_inputs req wl agent_a user_claims False) = first_key req wl"
    using fields by (auto simp: confirm_key_def first_key_def is_blank_def)
  show ?thesis unfolding mints_def key
  proof (intro conjI)
    show "caller_ok (example_sts_env cs) (st_Issuer (example_config cs)) (snapshot (example_config cs))
      example_inputs req wl agent_a" by (rule caller)
    show "verifySubject (example_sts_env cs) (st_Issuer (example_config cs))
      (rq_SubjectToken req) (snapshot (example_config cs)) = Inr (user_claims, False)"
      by (rule subj)
    show "subject_ok (st_Denylist (example_config cs)) example_inputs req agent_a user_claims False"
      using subok by (simp add: example_config_def)
    show "first_key req wl \<noteq> []" by (rule wl(2))
    show "first_token_for (first_key req wl) = minted_claims (st_Issuer (example_config cs))
      (sts_ttl (example_config cs)) example_inputs req
      (prepare example_inputs req wl agent_a user_claims False) (first_key req wl)"
      using scope fields
      by (simp add: first_token_for_def first_token_def minted_claims_def prepare_def
          example_config_def sts_ttl_def example_inputs_def user_claims_def example_claims_def
          unix_def NestedAct_def AppendChain_def agent_a_def)
    show "keyring_SignClaims (example_sts_env cs) (st_Signer (example_config cs)) (first_token_for (first_key req wl))
      = Inr (signer_SignClaims (example_env cs) sts_signer (first_token_for (first_key req wl)))"
      by (simp add: keyring_SignClaims_def example_config_def example_keyring_def ring_lookup_def
          example_ring_def sts_signer_def)
  qed (simp add: example_config_def)
qed

lemma example_user_request:
  "first_request cs (user_request cs)" "first_token_for (rq_ConfirmJKT (user_request cs)) = first_token"
  by (simp_all add: first_request_def user_request_def first_token_for_def first_token_def)

lemma example_first_workload:
  assumes "example_actor_claims \<in> set cs" "rq_ActorToken req = rq_ActorToken (user_request cs)"
  shows "first_workload cs req (example_wl cs)"
  using example_sts_attests[OF assms(1)] assms(2)
  by (simp add: first_workload_def user_request_def example_token_not_blank example_wl_def)

lemma example_first_hop:
  assumes "user_claims \<in> set cs" "example_actor_claims \<in> set cs"
  shows "mints (example_sts_env cs) (example_config cs) example_inputs (user_request cs) (example_wl cs)
    agent_a user_claims False first_token (signer_SignClaims (example_env cs) sts_signer first_token)
    (Some NewReplayCache)"
  using example_first_hop_for[OF assms(1) example_user_request(1) example_first_workload[OF assms(2)]]
    example_user_request
  by (simp add: first_key_def) (simp add: user_request_def)

text \<open>The audit record of that hop fits on a line, so the exchange answers with the token.\<close>

lemma example_append_fits:
  assumes "canonical e" "(\<Sum>f \<leftarrow> event_fields e. 256 * length f + 1) \<le> 200000"
  shows "\<exists>l'. Append (example_audit example_sum) example_logger ''t''
    \<lparr>io_written = None, io_synced = True\<rparr> e = (None, l')"
proof -
  let ?ev = "chained_event (example_audit example_sum) example_logger ''t'' e"
  have "length (payloadHash (example_audit example_sum) x) \<le> 71" for x
    by (simp add: payloadHash_def example_audit_def example_sum_def)
  then have "length (ev_Hash ?ev) \<le> 71" by (simp add: chained_event_def Let_def)
  moreover have "length (example_marshal ?ev) \<le>
      256 * length (ev_Hash ?ev) + 20000 + (\<Sum>f \<leftarrow> event_fields e. 256 * length f + 1)"
    by (rule order_trans[OF length_example_marshal])
      (simp add: chained_event_def Let_def canonicalize_id[OF assms(1)] event_fields_def
        unary_def example_logger_def GenesisPrevHash_def)
  ultimately have "length (Marshal_event (example_audit example_sum) ?ev) + 1 \<le> max_line"
    using assms(2) by (simp add: example_audit_def max_line_def)
  then show ?thesis by (simp add: Append_def example_logger_def append_bytes_def Let_def)
qed

definition second_token :: claims where
  "second_token =
    first_token\<lparr>c_aud := [''tool://t''], c_jti := newID ''jti'' ''0123456789abcdef'',
      c_act := Some (Actor ''sts'' ''agent://b'' (Some (Actor ''sts'' ''agent://a'' None))),
      c_actchain := [Actor ''sts'' ''agent://a'' None]\<rparr>"

definition example_cs :: "claims list" where
  "example_cs = [user_claims, example_actor_claims, first_token, second_token]"

lemma example_cs_members [simp]:
  "user_claims \<in> set example_cs" "example_actor_claims \<in> set example_cs" "first_token \<in> set example_cs"
  "second_token \<in> set example_cs"
  by (simp_all add: example_cs_def)

lemmas example_hop = example_first_hop[OF example_cs_members(1,2)]

lemma audited_mint_ok:
  assumes "mints (example_sts_env cs) c i req wl ag sub f issued raw rc" "st_Audit c = Some example_logger"
    and "in_stamp i = ''t''" "in_audit_io i = \<lparr>io_written = None, io_synced = True\<rparr>"
    and fits: "\<And>oc. xr_ReasonCode oc = ReasonOK \<Longrightarrow> xr_Issued oc = issued \<Longrightarrow> oc_workload oc = wi_ID wl \<Longrightarrow>
      canonical (exchange_event req oc) \<and>
      (\<Sum>f \<leftarrow> event_fields (exchange_event req oc). 256 * length f + 1) \<le> 200000"
  obtains res c' l' where "Exchange (example_sts_env cs) c i req = (res, c')"
    "xr_ReasonCode res = ReasonOK" "xr_Issued res = issued" "xr_Token res = raw"
    "st_Replay c' = rc" "st_Audit c' = Some l'"
proof -
  obtain oc where oc: "exchange (example_sts_env cs) c i req = (oc, rc)"
    "xr_ReasonCode oc = ReasonOK" "xr_Issued oc = issued" "oc_workload oc = wi_ID wl" "xr_Token oc = raw"
    using mints_exchange[OF assms(1)] by blast
  obtain l' where "Append (example_audit example_sum) example_logger ''t'' \<lparr>io_written = None, io_synced = True\<rparr>
      (exchange_event req oc) = (None, l')"
    using example_append_fits fits[OF oc(2-4)] by blast
  with oc assms(2-4) that show ?thesis by (simp add: Exchange_def)
qed

lemma example_audit_on: "st_Audit (example_config cs) = Some example_logger"
  by (simp add: example_config_def)

lemmas example_Exchange_ok = audited_mint_ok[OF _ example_audit_on]

text \<open>The strings of the examples are valid and short.\<close>

lemma example_strings [simp]:
  "ValidString ''token_minted''" "ValidString ''ok''" "ValidString ''agent://a''"
  "ValidString ''agent://b''" "ValidString ''wl-1''" "ValidString ''alice''" "ValidString ''read''"
  "ValidString ''tool://t''"
  "ValidString (newID ''jti'' ''fedcba9876543210'')" "ValidString (newID ''txn'' ''0123456789abcdef'')"
  "ValidString (newID ''jti'' ''0123456789abcdef'')"
  "length (newID ''jti'' ''fedcba9876543210'') = 36" "length (newID ''txn'' ''0123456789abcdef'') = 36"
  "length (newID ''jti'' ''0123456789abcdef'') = 36"
  by code_simp+

lemmas example_event_simps =
  canonical_def exchange_event_def empty_event_def ActorSubs_def Depth_def event_fields_def unary_def
  bounded_string_def maxEventString_def maxEventHops_def ReasonOK_def

lemma first_event_fits_for:
  assumes "xr_ReasonCode oc = ReasonOK" "xr_Issued oc = first_token_for jkt" "oc_workload oc = ''wl-1''"
    and "first_request cs req"
  shows "canonical (exchange_event req oc) \<and>
    (\<Sum>f \<leftarrow> event_fields (exchange_event req oc). 256 * length f + 1) \<le> 200000"
  using assms
  by (simp add: example_event_simps first_request_def)
    (simp add: first_token_for_def first_token_def bounded_string_def maxEventString_def)

lemma first_event_fits:
  assumes "xr_ReasonCode oc = ReasonOK" "xr_Issued oc = first_token" "oc_workload oc = wi_ID (example_wl cs)"
  shows "canonical (exchange_event (user_request cs) oc) \<and>
    (\<Sum>f \<leftarrow> event_fields (exchange_event (user_request cs) oc). 256 * length f + 1) \<le> 200000"
  by (rule first_event_fits_for[where jkt = "rq_ConfirmJKT (user_request cs)" and cs = cs])
    (use assms example_user_request in \<open>simp_all add: example_wl_def\<close>)

lemma first_result_ok:
  obtains res c' l' where "Exchange (example_sts_env example_cs) (example_config example_cs) example_inputs
      (user_request example_cs) = (res, c')"
    "xr_ReasonCode res = ReasonOK" "xr_Issued res = first_token"
    "xr_Token res = signer_SignClaims (example_env example_cs) sts_signer first_token"
    "st_Replay c' = Some NewReplayCache" "st_Audit c' = Some l'"
  by (rule example_Exchange_ok[OF example_hop _ _ first_event_fits])
    (simp_all add: example_inputs_def)

text \<open>The second hop: agent b exchanges the first token for one to call the tool.\<close>

definition second_request :: "claims list \<Rightarrow> exchange_request" where
  "second_request cs = (user_request cs)\<lparr>rq_SubjectToken := signer_SignClaims (example_env cs) sts_signer first_token,
     rq_AgentID := ''agent://b'', rq_Audience := ''tool://t''\<rparr>"

definition second_inputs :: call_inputs where
  "second_inputs = example_inputs\<lparr>in_rand_jti := ''0123456789abcdef''\<rparr>"

definition second_cache :: replay_cache where
  "second_cache = \<lparr>rc_seen = [newID ''jti'' ''fedcba9876543210'' \<mapsto> 650], rc_file = None\<rparr>"

lemma second_consume:
  "Consume example_records (Some NewReplayCache) (500 * second) io (newID ''jti'' ''fedcba9876543210'') 620 []
    = (None, Some second_cache)"
  by (simp add: Consume_def cache_Consume_def NewReplayCache_def second_cache_def append_log_def
      replayed_iff purgeLocked_def ReplayUntil_def unix_def newID_def i64_def Let_def)

lemma example_second_hop:
  assumes cs: "first_token \<in> set cs" "example_actor_claims \<in> set cs"
  shows "mints (example_sts_env cs) (example_config cs) second_inputs (second_request cs) (example_wl cs)
    agent_b first_token True second_token (signer_SignClaims (example_env cs) sts_signer second_token)
    (Some second_cache)"
proof -
  have caller: "caller_ok (example_sts_env cs) (st_Issuer (example_config cs)) (snapshot (example_config cs))
      second_inputs (second_request cs) (example_wl cs) agent_b"
    unfolding caller_ok_def request_error_None check_caller_Inr
    using example_sts_attests[OF cs(2)]
    by (simp add: second_request_def user_request_def example_token_not_blank not_blank_letter example_wl_def)
      (simp add: example_config_def Authorize_Inr ValidateAt_None by_ids_Cons agent_a_def agent_b_def
        second_inputs_def example_inputs_def)
  have "VerifyKey (example_sts_env cs) (signer_SignClaims (example_env cs) sts_signer first_token)
      (keyring_JWKS (example_sts_env cs) (Some example_keyring))
    = Inr (\<lparr>h_alg = ''EdDSA'', h_typ = ''JWT'', h_kid = sg_kid sts_signer\<rparr>, first_token,
        signer_PublicJWK (example_env cs) sts_signer)"
    by (rule example_sts_verifies[OF cs(1)]) (simp_all add: sts_signer_def example_keyring_JWKS)
  then have subj: "verifySubject (example_sts_env cs) (st_Issuer (example_config cs))
      (rq_SubjectToken (second_request cs)) (snapshot (example_config cs)) = Inr (first_token, True)"
    by (simp add: verifySubject_def second_request_def example_config_def jws_Verify_def first_token_def)
  have scope: "narrowScope [] ''read'' [''read'', ''admin''] = Some ''read''"
    by code_simp
  have subok: "subject_ok None second_inputs (second_request cs) agent_b first_token True"
    using scope
    by (simp add: subject_ok_def second_request_def user_request_def agent_b_def agent_a_def first_token_def
        second_inputs_def example_inputs_def not_blank_letter AppendChain_def ValidateTime_default unix_def
        i64_def newID_def)
  have prep: "prepare second_inputs (second_request cs) (example_wl cs) agent_b first_token True
    = \<lparr>pp_sub = first_token, pp_fromSTS = True, pp_wl = example_wl cs, pp_scope = ''read'',
       pp_chain = AppendChain first_token, pp_txn = c_txn first_token\<rparr>"
    using scope by (simp add: prepare_def second_request_def user_request_def first_token_def agent_b_def)
  have conf: "confirm_key (second_request cs) p = ''jkt''" for p
    by (simp add: confirm_key_def second_request_def user_request_def)
  show ?thesis unfolding mints_def prep conf
  proof (intro conjI)
    show "caller_ok (example_sts_env cs) (st_Issuer (example_config cs)) (snapshot (example_config cs))
      second_inputs (second_request cs) (example_wl cs) agent_b" by (rule caller)
    show "verifySubject (example_sts_env cs) (st_Issuer (example_config cs))
      (rq_SubjectToken (second_request cs)) (snapshot (example_config cs)) = Inr (first_token, True)"
      by (rule subj)
    show "subject_ok (st_Denylist (example_config cs)) second_inputs (second_request cs) agent_b first_token True"
      using subok by (simp add: example_config_def)
    show "if True then Consume (e_records (example_sts_env cs)) (st_Replay (example_config cs))
        (in_replay_now second_inputs) (in_replay_io second_inputs) (c_jti first_token) (c_exp first_token) []
        = (None, Some second_cache)
      else Some second_cache = st_Replay (example_config cs)"
      using second_consume by (simp add: example_config_def second_inputs_def example_inputs_def first_token_def)
    show "second_token = minted_claims (st_Issuer (example_config cs)) (sts_ttl (example_config cs)) second_inputs
      (second_request cs) \<lparr>pp_sub = first_token, pp_fromSTS = True, pp_wl = example_wl cs, pp_scope = ''read'',
       pp_chain = AppendChain first_token, pp_txn = c_txn first_token\<rparr> ''jkt''"
      by (simp add: second_token_def first_token_def minted_claims_def second_request_def user_request_def
          example_config_def sts_ttl_def second_inputs_def example_inputs_def unix_def NestedAct_def AppendChain_def)
    show "keyring_SignClaims (example_sts_env cs) (st_Signer (example_config cs)) second_token
      = Inr (signer_SignClaims (example_env cs) sts_signer second_token)"
      by (simp add: keyring_SignClaims_def example_config_def example_keyring_def ring_lookup_def
          example_ring_def sts_signer_def)
  qed simp
qed

lemma second_event_fits:
  assumes "xr_ReasonCode oc = ReasonOK" "xr_Issued oc = second_token" "oc_workload oc = wi_ID (example_wl cs)"
  shows "canonical (exchange_event (second_request cs) oc) \<and>
    (\<Sum>f \<leftarrow> event_fields (exchange_event (second_request cs) oc). 256 * length f + 1) \<le> 200000"
  using assms
  by (simp add: example_event_simps second_request_def user_request_def example_wl_def)
    (simp add: second_token_def first_token_def bounded_string_def maxEventString_def)

lemma second_result_ok:
  obtains res c' l' where "Exchange (example_sts_env example_cs) (example_config example_cs) second_inputs
      (second_request example_cs) = (res, c')"
    "xr_ReasonCode res = ReasonOK" "xr_Issued res = second_token"
    "xr_Token res = signer_SignClaims (example_env example_cs) sts_signer second_token"
    "st_Replay c' = Some second_cache" "st_Audit c' = Some l'"
  by (rule example_Exchange_ok[OF example_second_hop[OF example_cs_members(3,2)] _ _ second_event_fits])
    (simp_all add: second_inputs_def example_inputs_def)

end
