(* ===== verification/Exchange_Theorems.thy ===== *)
theory Exchange_Theorems
  imports Sts_Properties
begin

text \<open>
  What a caller of the token exchange can rely on: who is served, what is minted, what the minted
  token keeps of the subject token, how often a subject token is used, what the audit log says, and
  that a minted token verifies and can be the subject of the next hop.
\<close>

text \<open>C2: Only an authorized caller gets a token. If \<^verbatim>\<open>Exchange\<close> answers ok, the actor token attested a
  workload that the registered, currently valid agent lists, the audience is one the agent may
  address, none of agent, workload and principal is on the denylist, and the subject token verified
  as the STS's own or the identity provider's and was issued to this agent.\<close>

theorem minted_authorized:
  assumes "Exchange E c i req = (res, c')" "xr_ReasonCode res = ReasonOK"
  shows "\<exists>a r wl ag sub fromSTS. st_Attestor c = Some a \<and> st_Registry c = Some r \<and>
    Attest E a (rq_ActorToken req) = Inr wl \<and>
    registry_Get r (rq_AgentID req) = Some ag \<and> ValidateAt (e_time E) ag (in_now i) = None \<and>
    wi_ID wl \<in> set (ag_Workloads ag) \<and> rq_Audience req \<in> set (ag_Audiences ag) \<and>
    verifySubject E (st_Issuer c) (rq_SubjectToken req) (snapshot c) = Inr (sub, fromSTS) \<and>
    rq_AgentID req \<in> set (c_aud sub) \<and> ValidateTime sub (in_now i) 0 = None \<and>
    DenyExchange (st_Denylist c) (rq_AgentID req) (wi_ID wl) (c_sub sub) = []"
proof -
  obtain wl ag sub f where
    m: "mints E c i req wl ag sub f (xr_Issued res) (xr_Token res) (st_Replay c')"
    using Exchange_minted[OF assms] by metis
  then have c: "caller_ok E (st_Issuer c) (snapshot c) i req wl ag"
    and s: "subject_ok (st_Denylist c) i req ag sub f"
    and v: "verifySubject E (st_Issuer c) (rq_SubjectToken req) (snapshot c) = Inr (sub, f)"
    by (simp_all add: mints_def)
  from c obtain a r where "st_Attestor c = Some a" "st_Registry c = Some r" "\<not> is_blank (rq_Audience req)"
    by (auto simp: caller_ok_def request_error_None)
  moreover from this have "rq_Audience req \<noteq> []" by auto
  ultimately show ?thesis using c s v
    by (auto simp: caller_ok_def check_caller_Inr Authorize_Inr subject_ok_def registry_Get_def
        DenyExchange_def)
qed

theorem minted_authorized_witness:
  "\<exists>wl. Attest (example_sts_env example_cs) (the (st_Attestor (example_config example_cs)))
     (rq_ActorToken (user_request example_cs)) = Inr wl \<and> wi_ID wl \<in> {''wl-1''}"
proof -
  obtain res c' where x: "Exchange (example_sts_env example_cs) (example_config example_cs) example_inputs
      (user_request example_cs) = (res, c')" "xr_ReasonCode res = ReasonOK"
    using first_result_ok by metis
  from minted_authorized[OF x] obtain a r wl ag where
    "st_Attestor (example_config example_cs) = Some a" "st_Registry (example_config example_cs) = Some r"
    "Attest (example_sts_env example_cs) a (rq_ActorToken (user_request example_cs)) = Inr wl"
    "registry_Get r ''agent://a'' = Some ag" "wi_ID wl \<in> set (ag_Workloads ag)"
    by (auto simp: user_request_def)
  then show ?thesis
    by (auto simp: example_config_def registry_Get_def by_ids_Cons agent_a_def agent_b_def split: if_splits)
qed

text \<open>C7: Delegation keeps its principal and its history. A minted token has the subject's principal and
  its transaction (a fresh one only for a user token without any), names the agents of the subject
  token in order followed by the requesting agent, is for the one requested audience, and stays
  within the depth the agent may reach; a user token starts with an empty chain.\<close>

theorem minted_chain:
  assumes "Exchange E c i req = (res, c')" "xr_ReasonCode res = ReasonOK"
  shows "\<exists>sub fromSTS r ag. st_Registry c = Some r \<and> registry_Get r (rq_AgentID req) = Some ag \<and>
    verifySubject E (st_Issuer c) (rq_SubjectToken req) (snapshot c) = Inr (sub, fromSTS) \<and>
    c_iss (xr_Issued res) = st_Issuer c \<and> c_sub (xr_Issued res) = c_sub sub \<and>
    c_aud (xr_Issued res) = [rq_Audience req] \<and>
    c_txn (xr_Issued res) =
      (if \<not> fromSTS \<and> c_txn sub = [] then newID ''txn'' (in_rand_txn i) else c_txn sub) \<and>
    c_txn (xr_Issued res) \<noteq> [] \<and>
    ActorSubs (xr_Issued res) = ActorSubs sub @ [rq_AgentID req] \<and>
    nested_subs (c_act (xr_Issued res)) = rq_AgentID req # nested_subs (c_act sub) \<and>
    int (Depth (xr_Issued res)) \<le> ag_MaxDepth ag \<and>
    (\<not> fromSTS \<longrightarrow> ActorSubs (xr_Issued res) = [rq_AgentID req])"
proof -
  obtain wl ag sub f where
    m: "mints E c i req wl ag sub f (xr_Issued res) (xr_Token res) (st_Replay c')"
    using Exchange_minted[OF assms] by metis
  then have c: "caller_ok E (st_Issuer c) (snapshot c) i req wl ag"
    and s: "subject_ok (st_Denylist c) i req ag sub f"
    and v: "verifySubject E (st_Issuer c) (rq_SubjectToken req) (snapshot c) = Inr (sub, f)"
    by (simp_all add: mints_def)
  from c obtain r where r: "st_Registry c = Some r" "registry_Get r (rq_AgentID req) = Some ag"
    by (auto simp: caller_ok_def request_error_None check_caller_Inr Authorize_Inr registry_Get_def)
  note subs = mints_ActorSubs[OF m]
  have "int (Depth (xr_Issued res)) \<le> int (length (AppendChain sub)) + 1"
    using Depth_le[of sub] by (simp add: Depth_def subs)
  moreover have "int (length (AppendChain sub)) + 1 \<le> ag_MaxDepth ag"
    using s by (simp add: subject_ok_def)
  moreover have "\<not> f \<Longrightarrow> ActorSubs sub = []"
    using s by (simp add: subject_ok_def ActorSubs_def)
  moreover have "c_txn (xr_Issued res) \<noteq> []"
    using s mints_claims(10)[OF m] by (auto simp: subject_ok_def newID_def)
  ultimately show ?thesis
    using r v subs mints_claims[OF m] by (auto simp: NestedAct_def)
qed

theorem minted_chain_witness:
  "c_sub first_token = ''alice'' \<and> ActorSubs first_token = [''agent://a''] \<and> c_txn first_token \<noteq> []"
proof -
  obtain res c' where x: "Exchange (example_sts_env example_cs) (example_config example_cs) example_inputs
      (user_request example_cs) = (res, c')" "xr_ReasonCode res = ReasonOK" "xr_Issued res = first_token"
    using first_result_ok by metis
  from minted_chain[OF x(1,2)] example_hop x(3) show ?thesis
    by (auto simp: mints_def user_request_def user_claims_def example_claims_def newID_def)
qed

text \<open>C8: Authority only narrows. The scopes of a minted token are among the agent's own and, if the
  subject token had any, among those of the subject token; a request that names scopes gets exactly
  those, and the scope string of the token lists its scopes once each in order, so equal sets of
  scopes have equal strings.\<close>

theorem minted_scope:
  assumes "Exchange E c i req = (res, c')" "xr_ReasonCode res = ReasonOK"
  shows "\<exists>sub fromSTS r ag. st_Registry c = Some r \<and> registry_Get r (rq_AgentID req) = Some ag \<and>
    verifySubject E (st_Issuer c) (rq_SubjectToken req) (snapshot c) = Inr (sub, fromSTS) \<and>
    ScopeSet (c_scope (xr_Issued res)) \<subseteq> ScopeSet (strings_Join '' '' (ag_MaxScopes ag)) \<and>
    (c_scope sub \<noteq> [] \<longrightarrow> ScopeSet (c_scope (xr_Issued res)) \<subseteq> ScopeSet (c_scope sub)) \<and>
    (\<not> is_blank (rq_Scope req) \<longrightarrow> ScopeSet (c_scope (xr_Issued res)) = ScopeSet (rq_Scope req)) \<and>
    c_scope (xr_Issued res) = JoinScopes (ScopeSet (c_scope (xr_Issued res)))"
proof -
  obtain wl ag sub f where
    m: "mints E c i req wl ag sub f (xr_Issued res) (xr_Token res) (st_Replay c')"
    using Exchange_minted[OF assms] by metis
  then have c: "caller_ok E (st_Issuer c) (snapshot c) i req wl ag"
    and v: "verifySubject E (st_Issuer c) (rq_SubjectToken req) (snapshot c) = Inr (sub, f)"
    by (simp_all add: mints_def)
  from c obtain r where r: "st_Registry c = Some r" "registry_Get r (rq_AgentID req) = Some ag"
    by (auto simp: caller_ok_def request_error_None check_caller_Inr Authorize_Inr registry_Get_def)
  note nar = mints_claims(9)[OF m]
  note sc = narrowScope_ScopeSet[OF nar]
  have "c_scope (xr_Issued res) = JoinScopes (ScopeSet (c_scope (xr_Issued res)))"
    using nar sc(1) by (auto simp: narrowScope_eq split: if_splits)
  then show ?thesis
    using r v sc by (auto simp: scope_ceiling_def split: if_splits)
qed

theorem minted_scope_witness:
  "ScopeSet (c_scope first_token) \<subseteq> ScopeSet (c_scope user_claims)"
proof -
  obtain res c' where x: "Exchange (example_sts_env example_cs) (example_config example_cs) example_inputs
      (user_request example_cs) = (res, c')" "xr_ReasonCode res = ReasonOK" "xr_Issued res = first_token"
    using first_result_ok by metis
  from minted_scope[OF x(1,2)] example_hop x(3) show ?thesis
    by (auto simp: mints_def) (auto simp: user_claims_def example_claims_def)
qed

text \<open>C6: One subject token, one hop. Over any sequence of exchanges and reloads of a running service
  whose clock does not go back, the exchanges that mint from one STS-issued subject token (by its id
  and expiry) number at most one.\<close>

theorem exchanged_at_most_once:
  assumes "sorted (map event_time evs)"
  shows "uses (presented E) (jti, ex) evs (answers (sts_step E) c evs) \<le> 1"
  by (rule sts_guard.used_at_most_once) (use assms in simp_all)

text \<open>C10: The audit record comes first. When auditing is configured and \<^verbatim>\<open>Exchange\<close> answers with a token,
  the log has grown by one verified line, whose event names the minted token's id, transaction,
  principal, agent and hops; if the record cannot be written no token is returned.\<close>

theorem audited_first:
  assumes "st_Audit c = Some l" "Exchange E c i req = (res, c')"
    and "event_codec (e_audit E)" "bounded_string (in_stamp i)"
    and "bounded_string (lg_prevHash l)" "lg_prevHash l \<noteq> []" "lg_chainIndex l + 1 \<noteq> 0"
  shows "(xr_ReasonCode res = ReasonOK \<longrightarrow>
     (\<exists>log line ev l'. lg_file l = Some log \<and> st_Audit c' = Some l' \<and>
       lg_file l' = Some (log @ line @ [CHR 0x0A]) \<and>
       decodeAndVerify (e_audit E) line (lg_prevHash l) (lg_chainIndex l + 1) = Inr ev \<and>
       lg_prevHash l' = ev_Hash ev \<and>
       ev_EventType ev = ''token_minted'' \<and> ev_ReasonCode ev = ReasonOK \<and>
       ev_JTI ev = boundEventString (c_jti (xr_Issued res)) \<and>
       ev_Txn ev = boundEventString (c_txn (xr_Issued res)) \<and>
       ev_Principal ev = boundEventString (c_sub (xr_Issued res)) \<and>
       ev_AgentID ev = boundEventString (rq_AgentID req) \<and>
       ev_Hops ev = map boundEventString
         (take maxEventHops (c_sub (xr_Issued res) # ActorSubs (xr_Issued res))) \<and>
       mt_Minted (st_Metrics c') = mt_Minted (st_Metrics c) + 1)) \<and>
   (fst (Append (e_audit E) l (in_stamp i) (in_audit_io i)
       (exchange_event req (fst (exchange E c i req)))) \<noteq> None \<longrightarrow> res = audit_failed)"
proof -
  obtain oc rc where x: "exchange E c i req = (oc, rc)" by fastforce
  have b: "bounded_string ''token_minted''" "bounded_string ReasonOK"
    by (simp_all add: bounded_string_def maxEventString_def ReasonOK_def)
  then have named: "named_event (exchange_event req oc)" if "xr_ReasonCode oc = ReasonOK"
    using that by (simp add: named_event_def exchange_event_def) (simp add: ReasonOK_def)
  from x show ?thesis
  proof (cases rule: Exchange_cases)
    case unaudited
    with assms(1) show ?thesis by simp
  next
    case (failed l0 e l')
    with assms(2) show ?thesis by (auto simp: audit_failed_def)
  next
    case (audited l0 l')
    with assms(1,2) have l0: "l0 = l" and res: "res = exchange_result.truncate oc"
      and c': "st_Audit c' = Some l'" "st_Metrics c' = count_outcome oc (st_Metrics c)" by auto
    have "\<exists>log line ev. ev = chained_event (e_audit E) l (in_stamp i) (exchange_event req oc) \<and> lg_file l = Some log \<and> lg_file l' = Some (log @ line @ [CHR 0x0A]) \<and>
        decodeAndVerify (e_audit E) line (lg_prevHash l) (lg_chainIndex l + 1) = Inr ev \<and>
        lg_prevHash l' = ev_Hash ev" if "xr_ReasonCode oc = ReasonOK"
      using Append_links[OF assms(3,4) named[OF that] assms(5-7)] audited(2) l0 by metis
    moreover have "take maxEventHops h = (if length h > maxEventHops then take maxEventHops h else h)"
      for h :: "bytes list" by simp
    ultimately show ?thesis
      using audited(2) l0 res c' x b
      by (auto simp: count_outcome_def chained_event_def Let_def canonicalizeEvent_def exchange_event_def)
  qed
qed

theorem audited_first_witness:
  "\<exists>res c' l'. Exchange (example_sts_env example_cs) (example_config example_cs) example_inputs
      (user_request example_cs) = (res, c') \<and> st_Audit c' = Some l' \<and>
    lg_file l' \<noteq> Some [] \<and> mt_Minted (st_Metrics c') = 1"
proof -
  obtain res c' where x: "Exchange (example_sts_env example_cs) (example_config example_cs) example_inputs
      (user_request example_cs) = (res, c')" "xr_ReasonCode res = ReasonOK"
    using first_result_ok by metis
  have au: "st_Audit (example_config example_cs) = Some example_logger"
    "mt_Minted (st_Metrics (example_config example_cs)) = 0" "in_stamp example_inputs = ''t''"
    by (simp_all add: example_config_def example_inputs_def)
  have "GenesisPrevHash \<noteq> []" by (simp add: GenesisPrevHash_def)
  with audited_first[OF au(1) x(1)] x(2) au example_event_codec' example_stamp bounded_Genesis x(1)
  show ?thesis by (auto simp: example_logger_def)
qed

text \<open>The ids that a replay cache has on its list, and what one consumption adds to them.\<close>

definition spent_ids :: "replay_cache option \<Rightarrow> bytes \<rightharpoonup> int" where
  "spent_ids rc = (case rc of None \<Rightarrow> Map.empty | Some s \<Rightarrow> rc_seen s)"

lemma spent_ids_simps [simp]: "spent_ids None = Map.empty" "spent_ids (Some s) = rc_seen s"
  by (simp_all add: spent_ids_def)

lemma exchange_consume_spends:
  assumes "exchange_consume E rc i p = (e, rc')" "spent_ids rc' k = Some u"
  shows "spent_ids rc k = Some u \<or>
    e = None \<and> pp_fromSTS p \<and> k = c_jti (pp_sub p) \<and> u = ReplayUntil (c_exp (pp_sub p))"
proof (cases "pp_fromSTS p")
  case False
  with assms show ?thesis by (simp add: exchange_consume_def)
next
  case sts: True
  show ?thesis
  proof (cases rc)
    case None
    with sts assms show ?thesis by (simp add: exchange_consume_def Consume_def split: if_splits)
  next
    case (Some s)
    obtain o' s' where c: "cache_Consume (e_records E) s (in_replay_now i) (in_replay_io i) (c_jti (pp_sub p))
        (c_exp (pp_sub p)) [] = (o', s')" by fastforce
    then have rc': "rc' = Some s'" and e: "e = None \<longleftrightarrow> o' = None"
      using sts Some assms(1) by (auto simp: exchange_consume_def Consume_def split: option.splits if_splits)
    then have u: "rc_seen s' k = Some u" using assms(2) by simp
    show ?thesis
    proof (cases o')
      case None
      from cache_Consume_None[OF c[unfolded None]] u purge_only[of s "in_replay_now i" k u] e None sts Some
      show ?thesis by (auto split: if_splits)
    next
      case (Some x)
      from cache_Consume_Some[OF c[unfolded Some]] u purge_only[of s "in_replay_now i" k u] \<open>rc = Some s\<close>
      show ?thesis by auto
    qed
  qed
qed

lemma exchange_mint_reasons:
  "xr_ReasonCode (exchange_mint E issuer ttl signer i req p) \<in> {ReasonOK, ReasonMissingCNF, ReasonInvalidRequest}"
  by (simp add: exchange_mint_def withSubject_def deny_def Let_def split: sum.split)

lemma exchange_spends:
  assumes "exchange E c i req = (oc, rc)" "spent_ids rc k = Some u"
  shows "spent_ids (st_Replay c) k = Some u \<or>
    (\<exists>p. exchange_checks E (st_Issuer c) (snapshot c) i req = Inr p \<and> pp_fromSTS p \<and> k = c_jti (pp_sub p) \<and>
       u = ReplayUntil (c_exp (pp_sub p)) \<and> xr_ReasonCode oc \<in> {ReasonOK, ReasonMissingCNF, ReasonInvalidRequest})"
proof (cases "exchange_checks E (st_Issuer c) (snapshot c) i req")
  case (Inl oc')
  with assms show ?thesis by (simp add: exchange_def)
next
  case (Inr p)
  obtain e rc' where x: "exchange_consume E (st_Replay c) i p = (e, rc')" by fastforce
  then have "rc = rc'" using assms(1) Inr by (simp add: exchange_def split: option.splits)
  moreover have "e = None \<Longrightarrow> oc = exchange_mint E (st_Issuer c) (sts_ttl c) (st_Signer c) i req p"
    using assms(1) Inr x by (simp add: exchange_def)
  ultimately show ?thesis
    using exchange_consume_spends[OF x, of k u] assms(2) Inr exchange_mint_reasons[of E _ _ _ i req p] by auto
qed



text \<open>C12: A minted token lives exactly its time. At any clock reading within range it is accepted from
  the clock skew before it was minted to the clock skew after the configured lifetime, which is two
  minutes where none is configured, and its replay horizon is the last second of that window.\<close>

theorem minted_lifetime:
  assumes "Exchange E c i req = (res, c')" "xr_ReasonCode res = ReasonOK"
    and "0 < unix (in_now i)" "unix (in_now i + sts_ttl c) + 30 < 2 ^ 63" "0 \<le> unix t" "unix t + 30 < 2 ^ 63"
  shows "(ValidateTime (xr_Issued res) t 0 = None \<longleftrightarrow>
      unix (in_now i) - 30 \<le> unix t \<and> unix t \<le> unix (in_now i + sts_ttl c) + 30) \<and>
    ReplayUntil (c_exp (xr_Issued res)) = unix (in_now i + sts_ttl c) + 30 \<and>
    (st_TTL c \<le> 0 \<longrightarrow> unix (in_now i + sts_ttl c) = unix (in_now i) + 120)"
proof -
  obtain wl ag sub f where
    m: "mints E c i req wl ag sub f (xr_Issued res) (xr_Token res) (st_Replay c')"
    using Exchange_minted[OF assms(1,2)] by metis
  have "in_now i \<le> in_now i + sts_ttl c" by (simp add: sts_ttl_def)
  from unix_mono[OF this] have pos: "0 < unix (in_now i + sts_ttl c)" using assms(3) by simp
  have "unix (in_now i + 120 * 1000000000) = unix (in_now i) + 120" by (rule unix_add_seconds)
  then have "st_TTL c \<le> 0 \<Longrightarrow> unix (in_now i + sts_ttl c) = unix (in_now i) + 120"
    by (simp add: sts_ttl_def)
  moreover have "i64 (unix (in_now i + sts_ttl c) + 30) = unix (in_now i + sts_ttl c) + 30"
    "i64 (unix t + 30) = unix t + 30"
    using pos assms(4-6) by (simp_all add: i64_id in_i64_def)
  ultimately show ?thesis
    using pos assms(3) mints_claims(4,5)[OF m] by (auto simp: ValidateTime_default ReplayUntil_pos)
qed

theorem minted_lifetime_witness:
  "ValidateTime first_token (650 * second) 0 = None \<and> ValidateTime first_token (651 * second) 0 \<noteq> None"
proof -
  obtain res c' where x: "Exchange (example_sts_env example_cs) (example_config example_cs) example_inputs
      (user_request example_cs) = (res, c')" "xr_ReasonCode res = ReasonOK" "xr_Issued res = first_token"
    using first_result_ok by metis
  have u: "unix (in_now example_inputs) = 500"
    "unix (in_now example_inputs + sts_ttl (example_config example_cs)) = 620"
    by (simp_all add: unix_def example_inputs_def sts_ttl_def example_config_def)
  have v: "unix (650 * second) = 650" "unix (651 * second) = 651"
    by (simp_all add: unix_def)
  show ?thesis
    using minted_lifetime[OF x(1,2), of "650 * second"] minted_lifetime[OF x(1,2), of "651 * second"]
    unfolding u v x(3) by simp
qed

text \<open>C13: What the service mints, the service and everybody with its published keys verifies. Under a
  well-formed keyring a minted token verifies against the published key set to exactly the issued
  claims, and presented as a subject token it is recognised as the service's own.\<close>

theorem minted_verifies:
  assumes "Exchange E c i req = (res, c')" "xr_ReasonCode res = ReasonOK"
    and "st_Signer c = Some k" "ring_wf k"
    and "ed25519_laws E (sg_seed (the (ring_lookup k (kr_activeKID k))))"
    and "codec_ok E \<lparr>h_alg = ''EdDSA'', h_typ = ''JWT'', h_kid = kr_activeKID k\<rparr> (xr_Issued res)"
  shows "(\<exists>h. jws_Verify E (xr_Token res) (keyring_JWKS E (st_Signer c)) = Inr (h, xr_Issued res)) \<and>
    verifySubject E (st_Issuer c) (xr_Token res) (snapshot c') = Inr (xr_Issued res, True)"
proof -
  obtain wl ag sub f where
    m: "mints E c i req wl ag sub f (xr_Issued res) (xr_Token res) (st_Replay c')"
    using Exchange_minted[OF assms(1,2)] by metis
  then have "keyring_SignClaims E (Some k) (xr_Issued res) = Inr (xr_Token res)"
    using assms(3) unfolding mints_def by metis
  then obtain h where h: "jws_Verify E (xr_Token res) (keyring_JWKS E (Some k)) = Inr (h, xr_Issued res)"
    using keyring_sign_verifies[OF assms(4) _ assms(5,6)] by blast
  have "snapshot c' = snapshot c"
    using Exchange_snapshot[OF assms(1)] by simp
  then show ?thesis
    using h assms(3) mints_claims(1)[OF m] by (auto simp: verifySubject_def)
qed

theorem minted_verifies_witness:
  "\<exists>c'. verifySubject (example_sts_env example_cs) ''sts''
      (signer_SignClaims (example_env example_cs) sts_signer first_token) (snapshot c')
    = Inr (first_token, True)"
proof -
  obtain res c' where x: "Exchange (example_sts_env example_cs) (example_config example_cs) example_inputs
      (user_request example_cs) = (res, c')" "xr_ReasonCode res = ReasonOK" "xr_Issued res = first_token"
    "xr_Token res = signer_SignClaims (example_env example_cs) sts_signer first_token"
    using first_result_ok by metis
  have k: "st_Signer (example_config example_cs) = Some example_keyring"
    "st_Issuer (example_config example_cs) = ''sts''"
    by (simp_all add: example_config_def)
  have "ring_wf example_keyring"
    by (simp add: example_keyring_def example_ring_def ring_wf_def alist_wf_def)
  from minted_verifies[OF x(1,2) k(1) this] show ?thesis by (auto simp: x(3,4) k(2))
qed

end
