(* ===== verification/Delegation.thy ===== *)
theory Delegation
  imports Exchange_Theorems
begin

text \<open>
  Chains of exchanges. A delegation starts with an exchange of a user token of the identity provider
  and goes on by exchanging the token minted last; between two hops the service may have been
  reloaded or restarted, only its issuer name stays. The theorems are by induction over the chain.
  The last section runs a second hop of the example and takes up two edges of the code: the empty
  scope, which the next hop reads as no limit, and the order of consumption and confirmation key.
\<close>

section \<open>The chain\<close>

text \<open>The hops of a delegation of user token \<open>u\<close>: the acting agents with the tokens they were given,
  most recent last.\<close>

inductive delegated ::
  "('a sts_env_scheme) \<Rightarrow> bytes \<Rightarrow> claims \<Rightarrow> (bytes \<times> claims) list \<Rightarrow> bool" for E iss u where
  first_hop: "\<lbrakk>Exchange E c i req = (res, c'); xr_ReasonCode res = ReasonOK; st_Issuer c = iss;
    verifySubject E iss (rq_SubjectToken req) (snapshot c) = Inr (u, False)\<rbrakk> \<Longrightarrow>
    delegated E iss u [(rq_AgentID req, xr_Issued res)]"
| next_hop: "\<lbrakk>delegated E iss u (hops @ [(a, t)]); Exchange E c i req = (res, c');
    xr_ReasonCode res = ReasonOK; st_Issuer c = iss;
    verifySubject E iss (rq_SubjectToken req) (snapshot c) = Inr (t, True)\<rbrakk> \<Longrightarrow>
    delegated E iss u (hops @ [(a, t), (rq_AgentID req, xr_Issued res)])"

inductive_cases delegatedE: "delegated E iss u hops"

text \<open>What one hop does to the claims, for a given verified subject token.\<close>

lemma hop_claims:
  assumes "Exchange E c i req = (res, c')" "xr_ReasonCode res = ReasonOK"
    and "verifySubject E (st_Issuer c) (rq_SubjectToken req) (snapshot c) = Inr (sub, f)"
  obtains "c_iss (xr_Issued res) = st_Issuer c" "c_sub (xr_Issued res) = c_sub sub"
    "c_aud (xr_Issued res) = [rq_Audience req]" "ConfirmJKT (xr_Issued res) \<noteq> []"
    "c_txn (xr_Issued res) \<noteq> []" "c_txn sub \<noteq> [] \<Longrightarrow> c_txn (xr_Issued res) = c_txn sub"
    "ActorSubs (xr_Issued res) = ActorSubs sub @ [rq_AgentID req]"
    "nested_subs (c_act (xr_Issued res)) = rq_AgentID req # nested_subs (c_act sub)"
    "rq_AgentID req \<in> set (c_aud sub)"
    "c_scope sub \<noteq> [] \<Longrightarrow> ScopeSet (c_scope (xr_Issued res)) \<subseteq> ScopeSet (c_scope sub)"
    "\<not> f \<Longrightarrow> ActorSubs sub = [] \<and> c_act sub = None"
proof -
  obtain wl ag sub' f' where
    m: "mints E c i req wl ag sub' f' (xr_Issued res) (xr_Token res) (st_Replay c')"
    using Exchange_minted[OF assms(1,2)] by metis
  then have same: "sub' = sub" "f' = f" using assms(3) by (simp_all add: mints_def)
  from m same have s: "subject_ok (st_Denylist c) i req ag sub f" by (simp add: mints_def)
  note cl = mints_claims[OF m, unfolded same]
  have "c_txn (xr_Issued res) \<noteq> []" "c_txn sub \<noteq> [] \<Longrightarrow> c_txn (xr_Issued res) = c_txn sub"
    using s cl(10) by (auto simp: subject_ok_def newID_def)
  moreover have "c_scope sub \<noteq> [] \<Longrightarrow> ScopeSet (c_scope (xr_Issued res)) \<subseteq> ScopeSet (c_scope sub)"
    using narrowScope_ScopeSet(2)[OF cl(9)] by (simp add: scope_ceiling_def)
  moreover have "rq_AgentID req \<in> set (c_aud sub)" "\<not> f \<Longrightarrow> ActorSubs sub = [] \<and> c_act sub = None"
    using s by (simp_all add: subject_ok_def ActorSubs_def)
  ultimately show ?thesis
    using that cl mints_ActorSubs[OF m, unfolded same] by (simp add: NestedAct_def)
qed

lemma hop_narrows:
  assumes "Exchange E c i req = (res, c')" "xr_ReasonCode res = ReasonOK"
    and "verifySubject E (st_Issuer c) (rq_SubjectToken req) (snapshot c) = Inr (sub, f)"
    and "rg_byID (the (st_Registry c)) (rq_AgentID req) = Some a"
  shows "narrowScope (rq_Scope req) (c_scope sub) (ag_MaxScopes a) = Some (c_scope (xr_Issued res))"
proof -
  obtain wl ag sub' f' where
    m: "mints E c i req wl ag sub' f' (xr_Issued res) (xr_Token res) (st_Replay c')"
    using Exchange_minted[OF assms(1,2)] by metis
  then have "sub' = sub" "ag = a"
    using assms(3,4) by (auto simp: mints_def caller_ok_def check_caller_Inr Authorize_Inr)
  with mints_claims(9)[OF m] show ?thesis by simp
qed

lemma delegated_nonempty: "delegated E iss u hops \<Longrightarrow> hops \<noteq> []"
  by (induction rule: delegated.induct) simp_all

text \<open>The state of the chain at its last hop.\<close>

lemma delegated_last:
  assumes "delegated E iss u hops" "hops = hs @ [(a, t)]"
  shows "c_sub t = c_sub u \<and> c_iss t = iss \<and> ActorSubs t = map fst hops \<and>
    nested_subs (c_act t) = rev (map fst hops) \<and> c_txn t \<noteq> [] \<and> ConfirmJKT t \<noteq> [] \<and>
    (c_txn u \<noteq> [] \<longrightarrow> c_txn t = c_txn u)"
  using assms
proof (induction arbitrary: hs a t rule: delegated.induct)
  case (first_hop c i req res c')
  show ?case
    by (rule hop_claims[OF first_hop(1,2)]) (use first_hop in auto)
next
  case (next_hop hops b t0 c i req res c')
  note ih = next_hop.IH[OF refl]
  show ?case
    by (rule hop_claims[OF next_hop(2,3)]) (use next_hop ih in auto)
qed

lemma delegated_txn:
  assumes "delegated E iss u hops"
  shows "\<forall>(a, t) \<in> set hops. c_txn t = c_txn (snd (hd hops))"
  using assms
proof (induction rule: delegated.induct)
  case (next_hop hops b t0 c i req res c')
  have "c_txn t0 \<noteq> []" using delegated_last[OF next_hop(1) refl] by simp
  then have "c_txn (xr_Issued res) = c_txn t0"
    by (rule_tac hop_claims[OF next_hop(2,3)]) (use next_hop in auto)
  moreover have "hd (hops @ [(b, t0), (rq_AgentID req, xr_Issued res)]) = hd (hops @ [(b, t0)])"
    by (cases hops) simp_all
  ultimately show ?case using next_hop.IH by auto
qed simp

text \<open>Custody: the agent of a hop is the audience of the token before it, the first one an audience of
  the user token.\<close>

fun custody :: "bytes list \<Rightarrow> (bytes \<times> claims) list \<Rightarrow> bool" where
  "custody auds [] \<longleftrightarrow> True"
| "custody auds ((a, t) # hops) \<longleftrightarrow> a \<in> set auds \<and> length (c_aud t) = 1 \<and> custody (c_aud t) hops"

lemma custody_snoc:
  "custody auds (hops @ [(a, t), (b, t')]) \<longleftrightarrow>
    custody auds (hops @ [(a, t)]) \<and> b \<in> set (c_aud t) \<and> length (c_aud t') = 1"
  by (induction auds hops rule: custody.induct) auto

lemma delegated_custody: "delegated E iss u hops \<Longrightarrow> custody (c_aud u) hops"
proof (induction rule: delegated.induct)
  case (first_hop c i req res c')
  show ?case by (rule hop_claims[OF first_hop(1,2)]) (use first_hop in auto)
next
  case (next_hop hops b t0 c i req res c')
  show ?case
    by (rule hop_claims[OF next_hop(2,3)]) (use next_hop in \<open>auto simp: custody_snoc\<close>)
qed

text \<open>Scopes shrink from hop to hop as long as no token of the chain has an empty scope.\<close>

fun scopes_shrink :: "bytes \<Rightarrow> (bytes \<times> claims) list \<Rightarrow> bool" where
  "scopes_shrink s [] \<longleftrightarrow> True"
| "scopes_shrink s ((a, t) # hops) \<longleftrightarrow>
    (s = [] \<or> ScopeSet (c_scope t) \<subseteq> ScopeSet s) \<and> scopes_shrink (c_scope t) hops"

lemma scopes_shrink_snoc:
  "scopes_shrink s (hops @ [(a, t), (b, t')]) \<longleftrightarrow>
    scopes_shrink s (hops @ [(a, t)]) \<and> (c_scope t = [] \<or> ScopeSet (c_scope t') \<subseteq> ScopeSet (c_scope t))"
  by (induction s hops rule: scopes_shrink.induct) auto

lemma delegated_scopes: "delegated E iss u hops \<Longrightarrow> scopes_shrink (c_scope u) hops"
proof (induction rule: delegated.induct)
  case (first_hop c i req res c')
  show ?case by (rule hop_claims[OF first_hop(1,2)]) (use first_hop in auto)
next
  case (next_hop hops b t0 c i req res c')
  show ?case
    by (rule hop_claims[OF next_hop(2,3)]) (use next_hop in \<open>auto simp: scopes_shrink_snoc\<close>)
qed

lemma scopes_shrink_first:
  assumes "scopes_shrink s hops" "s \<noteq> []" "list_all (\<lambda>(a, t). c_scope t \<noteq> []) (butlast hops)"
  shows "list_all (\<lambda>(a, t). ScopeSet (c_scope t) \<subseteq> ScopeSet s) hops"
  using assms
proof (induction s hops rule: scopes_shrink.induct)
  case (2 s a t hops)
  show ?case
  proof (cases hops)
    case (Cons h hs)
    have t: "ScopeSet (c_scope t) \<subseteq> ScopeSet s" using 2 by simp
    have "list_all (\<lambda>(a, t'). ScopeSet (c_scope t') \<subseteq> ScopeSet (c_scope t)) hops"
      using 2 Cons by auto
    then have "list_all (\<lambda>(a, t'). ScopeSet (c_scope t') \<subseteq> ScopeSet s) hops"
      using t by (fastforce simp: list_all_iff)
    with t show ?thesis by simp
  qed (use 2 in simp)
qed simp

section \<open>The example chain\<close>

lemma example_subjects:
  "verifySubject (example_sts_env example_cs) ''sts'' (rq_SubjectToken (user_request example_cs))
     (snapshot (example_config example_cs)) = Inr (user_claims, False)"
  "verifySubject (example_sts_env example_cs) ''sts'' (rq_SubjectToken (second_request example_cs))
     (snapshot (example_config example_cs)) = Inr (first_token, True)"
  "st_Issuer (example_config example_cs) = ''sts''"
  using example_hop example_second_hop[OF example_cs_members(3,2)]
  by (simp_all add: mints_def) (simp_all add: example_config_def)

lemma example_delegated:
  "delegated (example_sts_env example_cs) ''sts'' user_claims
    [(''agent://a'', first_token), (''agent://b'', second_token)]"
proof -
  obtain r1 c1 where x: "Exchange (example_sts_env example_cs) (example_config example_cs) example_inputs
      (user_request example_cs) = (r1, c1)" "xr_ReasonCode r1 = ReasonOK" "xr_Issued r1 = first_token"
    using first_result_ok by metis
  obtain r2 c2 where y: "Exchange (example_sts_env example_cs) (example_config example_cs) second_inputs
      (second_request example_cs) = (r2, c2)" "xr_ReasonCode r2 = ReasonOK" "xr_Issued r2 = second_token"
    using second_result_ok by metis
  have "delegated (example_sts_env example_cs) ''sts'' user_claims ([] @ [(''agent://a'', first_token)])"
    using delegated.first_hop[OF x(1,2) example_subjects(3,1)] x(3) by (simp add: user_request_def)
  from delegated.next_hop[OF this y(1,2) example_subjects(3,2)] y(3) show ?thesis
    by (simp add: second_request_def)
qed

section \<open>Properties of chains\<close>

text \<open>C3: Identity along a chain. However many hops a delegation has and however often the service was
  reconfigured between them, its last token still names the user as subject, lists exactly the acting
  agents in order (and nested, the current one outermost), is issued by the service, confirms a key,
  and carries the one transaction that all tokens of the chain share.\<close>

theorem delegation_identity:
  assumes "delegated E iss u hops"
  shows "c_sub (snd (last hops)) = c_sub u \<and> c_iss (snd (last hops)) = iss \<and>
    ActorSubs (snd (last hops)) = map fst hops \<and>
    nested_subs (c_act (snd (last hops))) = rev (map fst hops) \<and>
    ConfirmJKT (snd (last hops)) \<noteq> [] \<and> c_txn (snd (last hops)) \<noteq> [] \<and>
    list_all (\<lambda>(a, t). c_txn t = c_txn (snd (last hops))) hops"
proof -
  obtain hs a t where h: "hops = hs @ [(a, t)]"
    using delegated_nonempty[OF assms] by (cases hops rule: rev_cases) auto
  have "\<forall>(a, t') \<in> set hops. c_txn t' = c_txn t"
    using delegated_txn[OF assms] h by auto
  then show ?thesis using delegated_last[OF assms h] by (simp add: h list_all_iff case_prod_unfold)
qed

theorem delegation_identity_witness:
  "ActorSubs second_token = [''agent://a'', ''agent://b''] \<and> c_sub second_token = c_sub user_claims"
  using delegation_identity[OF example_delegated] by simp

text \<open>C4: Custody. Along a chain a token only passes to the agent it was issued for: the first agent is
  an audience of the user token, every minted token has exactly one audience, and the agent of the
  next hop is that audience.\<close>

theorem delegation_custody:
  assumes "delegated E iss u hops"
  shows "fst (hd hops) \<in> set (c_aud u) \<and> custody (c_aud u) hops \<and>
    (i + 1 < length hops \<longrightarrow> c_aud (snd (hops ! i)) = [fst (hops ! (i + 1))])"
proof -
  have cust: "custody auds hs \<Longrightarrow> i + 1 < length hs \<Longrightarrow> c_aud (snd (hs ! i)) = [fst (hs ! (i + 1))]"
    for auds hs i
  proof (induction auds hs arbitrary: i rule: custody.induct)
    case (2 auds a t hs)
    show ?case
    proof (cases i)
      case 0
      with 2 obtain b t' hs' where hs: "hs = (b, t') # hs'" by (cases hs) auto
      with 2 have "b \<in> set (c_aud t)" "length (c_aud t) = 1" by simp_all
      then show ?thesis using hs 0 by (cases "c_aud t") auto
    qed (use 2 in simp)
  qed simp
  have "custody (c_aud u) hops" by (rule delegated_custody[OF assms])
  moreover from this have "fst (hd hops) \<in> set (c_aud u)"
    using delegated_nonempty[OF assms] by (cases hops) auto
  ultimately show ?thesis using cust by blast
qed

theorem delegation_custody_witness:
  "c_aud first_token = [''agent://b'']"
  using delegation_custody[OF example_delegated, of 0] by simp

text \<open>C9: Authority along a chain. While no token of the chain but the last has an empty scope, the
  scopes of every token of the chain are among those the user token had.\<close>

theorem delegation_scopes:
  assumes "delegated E iss u hops" "c_scope u \<noteq> []" "list_all (\<lambda>(a, t). c_scope t \<noteq> []) (butlast hops)"
  shows "list_all (\<lambda>(a, t). ScopeSet (c_scope t) \<subseteq> ScopeSet (c_scope u)) hops"
  by (rule scopes_shrink_first[OF delegated_scopes[OF assms(1)] assms(2,3)])

theorem delegation_scopes_witness:
  "ScopeSet (c_scope second_token) \<subseteq> ScopeSet (c_scope user_claims)"
  using delegation_scopes[OF example_delegated]
  by (simp add: user_claims_def example_claims_def first_token_def)

text \<open>C40: The exception is real. When a hop is granted to an agent whose scopes have none in common with
  those of its subject token, and no scope is asked for, the token it mints has an empty scope; and a hop
  granted from that token without a scope being asked for mints every scope that its own agent may have, in
  the name of the same user: authority that the user token never carried.\<close>

theorem empty_scope_lifts_ceiling:
  assumes hop: "Exchange E c i req = (res, c')" "xr_ReasonCode res = ReasonOK"
      "verifySubject E (st_Issuer c) (rq_SubjectToken req) (snapshot c) = Inr (u, f)"
      "rg_byID (the (st_Registry c)) (rq_AgentID req) = Some a" "rq_Scope req = []"
    and apart: "c_scope u \<noteq> []" "ScopeSet (c_scope u) \<inter> ScopeSet (strings_Join '' '' (ag_MaxScopes a)) = {}"
    and hop': "Exchange E d i' req' = (res', d')" "xr_ReasonCode res' = ReasonOK"
      "verifySubject E (st_Issuer d) (rq_SubjectToken req') (snapshot d) = Inr (xr_Issued res, True)"
      "rg_byID (the (st_Registry d)) (rq_AgentID req') = Some b" "rq_Scope req' = []"
  shows "c_scope (xr_Issued res) = [] \<and>
    ScopeSet (c_scope (xr_Issued res')) = ScopeSet (strings_Join '' '' (ag_MaxScopes b)) \<and>
    c_sub (xr_Issued res') = c_sub u \<and> ActorSubs (xr_Issued res') = ActorSubs u @ [rq_AgentID req, rq_AgentID req']"
proof -
  have first: "c_scope (xr_Issued res) = []"
    using hop_narrows[OF hop(1-4)] hop(5) apart by (simp add: narrowScope_eq scope_ceiling_def Int_commute)
  then have "narrowScope [] [] (ag_MaxScopes b) = Some (c_scope (xr_Issued res'))"
    using hop_narrows[OF hop'(1-4)] hop'(5) by simp
  from narrowScope_ScopeSet(1)[OF this]
  have "ScopeSet (c_scope (xr_Issued res')) = ScopeSet (strings_Join '' '' (ag_MaxScopes b))"
    by (simp add: scope_ceiling_def)
  moreover have "c_sub (xr_Issued res') = c_sub (xr_Issued res)"
    "ActorSubs (xr_Issued res') = ActorSubs (xr_Issued res) @ [rq_AgentID req']"
    by (rule hop_claims[OF hop'(1-3)], simp)+
  moreover have "c_sub (xr_Issued res) = c_sub u" "ActorSubs (xr_Issued res) = ActorSubs u @ [rq_AgentID req]"
    by (rule hop_claims[OF hop(1-3)], simp)+
  ultimately show ?thesis using first by simp
qed

text \<open>The user token carries \<^verbatim>\<open>read\<close>, agent a may only \<^verbatim>\<open>write\<close>, and agent b gets \<^verbatim>\<open>admin\<close>.\<close>

definition lost_token :: claims where
  "lost_token = first_token\<lparr>c_scope := []\<rparr>"

definition regained_token :: claims where
  "regained_token = second_token\<lparr>c_scope := ''admin read''\<rparr>"

definition lost_cs :: "claims list" where
  "lost_cs = [user_claims, example_actor_claims, lost_token, regained_token]"

definition writer :: agent where
  "writer = agent_a\<lparr>ag_MaxScopes := [''write'']\<rparr>"

definition lost_config :: sts_config where
  "lost_config = (example_config lost_cs)
    \<lparr>st_Registry := Some \<lparr>rg_Version = 1, rg_byID = by_ids [writer, agent_b], rg_Agents = [writer, agent_b]\<rparr>\<rparr>"

definition lost_request :: exchange_request where
  "lost_request = (second_request lost_cs)\<lparr>rq_SubjectToken := signer_SignClaims (example_env lost_cs) sts_signer lost_token\<rparr>"

lemma lost_members [simp]:
  "user_claims \<in> set lost_cs" "example_actor_claims \<in> set lost_cs" "lost_token \<in> set lost_cs" "regained_token \<in> set lost_cs"
  by (simp_all add: lost_cs_def)

lemma lost_fields [simp]:
  "st_Issuer lost_config = ''sts''" "st_Denylist lost_config = None" "st_Replay lost_config = Some NewReplayCache"
  "st_Audit lost_config = Some example_logger" "st_Attestor lost_config = st_Attestor (example_config lost_cs)"
  "st_Signer lost_config = Some example_keyring" "sts_ttl lost_config = sts_ttl (example_config lost_cs)"
  "rg_byID (the (st_Registry lost_config)) ''agent://a'' = Some writer"
  "rg_byID (the (st_Registry lost_config)) ''agent://b'' = Some agent_b"
  by (simp_all add: lost_config_def sts_ttl_def example_config_def by_ids_Cons writer_def agent_a_def agent_b_def)

lemma lost_scopes:
  "narrowScope [] ''read'' [''write''] = Some []" "narrowScope [] [] [''read'', ''admin''] = Some ''admin read''"
  "ValidString ''admin read''"
  "ScopeSet ''read'' \<inter> ScopeSet (strings_Join '' '' [''write'']) = {}"
  "''admin'' \<in> ScopeSet (strings_Join '' '' [''read'', ''admin''])" "''admin'' \<notin> ScopeSet ''read''"
  by code_simp+

lemma lost_subjects:
  "verifySubject (example_sts_env lost_cs) ''sts'' (rq_SubjectToken (user_request lost_cs)) (snapshot lost_config) =
    Inr (user_claims, False)"
  "verifySubject (example_sts_env lost_cs) ''sts'' (rq_SubjectToken lost_request) (snapshot lost_config) = Inr (lost_token, True)"
proof -
  have same: "st_Signer lost_config = st_Signer (example_config lost_cs)" "st_IdPKeys lost_config = st_IdPKeys (example_config lost_cs)"
    "st_IdPIssuer lost_config = st_IdPIssuer (example_config lost_cs)" by (simp_all add: lost_config_def)
  have "verifySubject (example_sts_env lost_cs) ''sts'' (rq_SubjectToken (user_request lost_cs))
      (snapshot (example_config lost_cs)) = Inr (user_claims, False)"
    using example_first_hop[of lost_cs] by (simp add: mints_def) (simp add: example_config_def)
  then show "verifySubject (example_sts_env lost_cs) ''sts'' (rq_SubjectToken (user_request lost_cs)) (snapshot lost_config) =
    Inr (user_claims, False)" by (simp only: verifySubject_def snapshot_simps same)
  have "VerifyKey (example_sts_env lost_cs) (signer_SignClaims (example_env lost_cs) sts_signer lost_token)
      (keyring_JWKS (example_sts_env lost_cs) (Some example_keyring))
    = Inr (\<lparr>h_alg = ''EdDSA'', h_typ = ''JWT'', h_kid = sg_kid sts_signer\<rparr>, lost_token,
        signer_PublicJWK (example_env lost_cs) sts_signer)"
    by (rule example_sts_verifies) (simp_all add: sts_signer_def example_keyring_JWKS)
  then show "verifySubject (example_sts_env lost_cs) ''sts'' (rq_SubjectToken lost_request) (snapshot lost_config) = Inr (lost_token, True)"
    by (simp add: verifySubject_def lost_request_def jws_Verify_def) (simp add: lost_token_def first_token_def)
qed

lemma lost_hop:
  "mints (example_sts_env lost_cs) lost_config example_inputs (user_request lost_cs) (example_wl lost_cs)
    writer user_claims False lost_token (signer_SignClaims (example_env lost_cs) sts_signer lost_token) (Some NewReplayCache)"
proof -
  have caller: "caller_ok (example_sts_env lost_cs) ''sts'' (snapshot lost_config) example_inputs (user_request lost_cs)
      (example_wl lost_cs) writer"
    unfolding caller_ok_def request_error_None check_caller_Inr
    using example_sts_attests[of lost_cs]
    by (simp add: user_request_def example_token_not_blank not_blank_letter example_wl_def)
      (simp add: lost_config_def example_config_def Authorize_Inr ValidateAt_None by_ids_Cons writer_def agent_a_def agent_b_def
        example_inputs_def)
  have subok: "subject_ok None example_inputs (user_request lost_cs) writer user_claims False"
    using lost_scopes(1)
    by (simp add: subject_ok_def user_request_def writer_def agent_a_def user_claims_def example_claims_def
        example_inputs_def not_blank_letter AppendChain_def ValidateTime_default unix_def i64_def)
  have key: "confirm_key (user_request lost_cs) p = ''jkt''" for p
    by (simp add: confirm_key_def user_request_def)
  have "lost_token = minted_claims ''sts'' (sts_ttl (example_config lost_cs)) example_inputs (user_request lost_cs)
      (prepare example_inputs (user_request lost_cs) (example_wl lost_cs) writer user_claims False) ''jkt''"
    using lost_scopes(1)
    by (simp add: lost_token_def first_token_def minted_claims_def prepare_def user_request_def example_config_def sts_ttl_def
        example_inputs_def user_claims_def example_claims_def unix_def NestedAct_def AppendChain_def writer_def agent_a_def)
  then show ?thesis
    unfolding mints_def key using caller lost_subjects(1) subok
    by (simp add: keyring_SignClaims_def example_keyring_def ring_lookup_def example_ring_def sts_signer_def)
qed

lemma regained_hop:
  "mints (example_sts_env lost_cs) lost_config second_inputs lost_request (example_wl lost_cs)
    agent_b lost_token True regained_token (signer_SignClaims (example_env lost_cs) sts_signer regained_token) (Some second_cache)"
proof -
  have caller: "caller_ok (example_sts_env lost_cs) ''sts'' (snapshot lost_config) second_inputs lost_request
      (example_wl lost_cs) agent_b"
    unfolding caller_ok_def request_error_None check_caller_Inr
    using example_sts_attests[of lost_cs]
    by (simp add: lost_request_def second_request_def user_request_def example_token_not_blank not_blank_letter example_wl_def)
      (simp add: lost_config_def example_config_def Authorize_Inr ValidateAt_None by_ids_Cons writer_def agent_a_def agent_b_def
        second_inputs_def example_inputs_def)
  have subok: "subject_ok None second_inputs lost_request agent_b lost_token True"
    using lost_scopes(2)
    by (simp add: subject_ok_def lost_request_def second_request_def user_request_def agent_b_def agent_a_def lost_token_def
        first_token_def second_inputs_def example_inputs_def not_blank_letter AppendChain_def ValidateTime_default unix_def
        i64_def newID_def)
  have key: "confirm_key lost_request p = ''jkt''" for p
    by (simp add: confirm_key_def lost_request_def second_request_def user_request_def)
  have "regained_token = minted_claims ''sts'' (sts_ttl (example_config lost_cs)) second_inputs lost_request
      (prepare second_inputs lost_request (example_wl lost_cs) agent_b lost_token True) ''jkt''"
    using lost_scopes(2)
    by (simp add: regained_token_def second_token_def lost_token_def first_token_def minted_claims_def prepare_def
        lost_request_def second_request_def user_request_def example_config_def sts_ttl_def second_inputs_def
        example_inputs_def unix_def NestedAct_def AppendChain_def agent_b_def)
  moreover have "Consume (e_records (example_sts_env lost_cs)) (Some NewReplayCache) (in_replay_now second_inputs)
      (in_replay_io second_inputs) (c_jti lost_token) (c_exp lost_token) [] = (None, Some second_cache)"
    using second_consume by (simp add: second_inputs_def example_inputs_def lost_token_def first_token_def)
  ultimately show ?thesis
    unfolding mints_def key using caller lost_subjects(2) subok
    by (simp add: keyring_SignClaims_def example_keyring_def ring_lookup_def example_ring_def sts_signer_def)
qed

theorem empty_scope_lifts_ceiling_witness:
  "\<exists>r1 c1 r2 c2. Exchange (example_sts_env lost_cs) lost_config example_inputs (user_request lost_cs) = (r1, c1) \<and>
    Exchange (example_sts_env lost_cs) lost_config second_inputs lost_request = (r2, c2) \<and>
    xr_ReasonCode r2 = ReasonOK \<and> c_scope (xr_Issued r1) = [] \<and>
    ''admin'' \<in> ScopeSet (c_scope (xr_Issued r2)) \<and> ''admin'' \<notin> ScopeSet (c_scope user_claims)"
proof -
  have fits: "canonical (exchange_event req oc) \<and> (\<Sum>f \<leftarrow> event_fields (exchange_event req oc). 256 * length f + 1) \<le> 200000"
    if "xr_ReasonCode oc = ReasonOK" "oc_workload oc = wi_ID (example_wl lost_cs)"
      "req = user_request lost_cs \<and> xr_Issued oc = lost_token \<or> req = lost_request \<and> xr_Issued oc = regained_token" for req oc
    using that lost_scopes(3)
    by (auto simp: example_event_simps lost_request_def second_request_def user_request_def example_wl_def
        lost_token_def regained_token_def second_token_def first_token_def bounded_string_def maxEventString_def)
  obtain r1 c1 where x: "Exchange (example_sts_env lost_cs) lost_config example_inputs (user_request lost_cs) = (r1, c1)"
    "xr_ReasonCode r1 = ReasonOK" "xr_Issued r1 = lost_token"
    by (rule audited_mint_ok[OF lost_hop lost_fields(4) _ _ fits]) (simp_all add: example_inputs_def)
  obtain r2 c2 where y: "Exchange (example_sts_env lost_cs) lost_config second_inputs lost_request = (r2, c2)"
    "xr_ReasonCode r2 = ReasonOK" "xr_Issued r2 = regained_token"
    by (rule audited_mint_ok[OF regained_hop lost_fields(4) _ _ fits]) (simp_all add: second_inputs_def example_inputs_def)
  have ids: "rq_AgentID (user_request lost_cs) = ''agent://a''" "rq_Scope (user_request lost_cs) = []"
    "rq_AgentID lost_request = ''agent://b''" "rq_Scope lost_request = []" "c_scope user_claims = ''read''"
    "ag_MaxScopes writer = [''write'']" "ag_MaxScopes agent_b = [''read'', ''admin'']"
    by (simp_all add: lost_request_def second_request_def user_request_def user_claims_def example_claims_def writer_def agent_b_def)
  have "c_scope (xr_Issued r1) = [] \<and>
    ScopeSet (c_scope (xr_Issued r2)) = ScopeSet (strings_Join '' '' (ag_MaxScopes agent_b)) \<and>
    c_sub (xr_Issued r2) = c_sub user_claims \<and>
    ActorSubs (xr_Issued r2) = ActorSubs user_claims @ [rq_AgentID (user_request lost_cs), rq_AgentID lost_request]"
    by (rule empty_scope_lifts_ceiling[OF x(1,2) _ _ _ _ _ y(1,2), where f = False and a = writer])
      (use lost_subjects x(3) lost_scopes(4) ids in simp_all)
  then show ?thesis using x(1) y(1,2) lost_scopes(5,6) ids by auto
qed

text \<open>Which subject tokens are accepted. One is taken as the service's own exactly if it verifies
  under the published ring and names the service as issuer, and as a user token exactly if it does
  not verify under the ring but does under the identity provider's keys, with the provider's issuer
  name if one is configured; without one, any issuer name passes, the service's own included.\<close>

theorem verifySubject_sources:
  "verifySubject E issuer raw snap = Inr (sub, fromSTS) \<longleftrightarrow>
    (let by_sts = (\<lambda>t. sn_Signer snap \<noteq> None \<and> (\<exists>h. jws_Verify E raw (keyring_JWKS E (sn_Signer snap)) = Inr (h, t)))
     in if fromSTS then by_sts sub \<and> c_iss sub = issuer
        else (\<forall>t. \<not> by_sts t) \<and> (\<exists>h. jws_Verify E raw (sn_IdPKeys snap) = Inr (h, sub)) \<and>
             (sn_IdPIssuer snap = [] \<or> c_iss sub = sn_IdPIssuer snap))"
proof -
  let ?v = "jws_Verify E raw (keyring_JWKS E (sn_Signer snap))"
  let ?w = "jws_Verify E raw (sn_IdPKeys snap)"
  show ?thesis
    by (cases "sn_Signer snap = None"; cases ?v; cases ?w) (auto simp: verifySubject_def split: if_splits)
qed

section \<open>Single use, and what burns a token\<close>

theorem exchanged_at_most_once_witness:
  "uses (presented (example_sts_env example_cs)) (c_jti first_token, c_exp first_token)
     [Ev_Exchange second_inputs (second_request example_cs), Ev_Exchange second_inputs (second_request example_cs)]
     (answers (sts_step (example_sts_env example_cs)) (example_config example_cs)
       [Ev_Exchange second_inputs (second_request example_cs), Ev_Exchange second_inputs (second_request example_cs)])
   = 1" (is "uses ?key ?k ?evs (answers ?step ?c ?evs) = 1")
proof -
  have "uses ?key ?k ?evs (answers ?step ?c ?evs) \<le> 1"
    by (rule exchanged_at_most_once) (simp add: event_time_def)
  moreover obtain res c' where y: "Exchange (example_sts_env example_cs) ?c second_inputs
      (second_request example_cs) = (res, c')" "xr_ReasonCode res = ReasonOK"
    using second_result_ok by metis
  have "snd (?step ?c (Ev_Exchange second_inputs (second_request example_cs)))"
    using y example_subjects by (simp add: sts_step_def sts_issued_def)
  moreover have "?key (Ev_Exchange second_inputs (second_request example_cs)) = Some ?k"
    by (rule presented_key[OF example_subjects(2)])
  ultimately show ?thesis by simp
qed

text \<open>The id of a subject token is spent before the confirmation key is looked at. A request of an
  STS token that passes every check, but whose workload possesses no key, is refused with
  \<^verbatim>\<open>missing_cnf\<close> and leaves the id consumed, so that the same token is then refused as a replay.\<close>

theorem missing_cnf_burns_token:
  assumes "exchange_checks E (st_Issuer c) (snapshot c) i req = Inr p" "pp_fromSTS p" "confirm_key req p = []"
    and "st_Replay c = Some s" "snd (consume_step (e_records E) s (consume_op_of i (pp_sub p)))"
  shows "\<exists>oc s'. exchange E c i req = (oc, Some s') \<and> xr_ReasonCode oc = ReasonMissingCNF \<and>
    consumed s' (c_jti (pp_sub p), c_exp (pp_sub p)) (unix (in_replay_now i)) \<and>
    \<not> snd (consume_step (e_records E) s' (consume_op_of i (pp_sub p)))"
proof -
  let ?op = "consume_op_of i (pp_sub p)"
  let ?s = "fst (consume_step (e_records E) s ?op)"
  have "Consume (e_records E) (Some s) (in_replay_now i) (in_replay_io i) (c_jti (pp_sub p)) (c_exp (pp_sub p)) []
    = (None, Some ?s)"
    using assms(5) by (subst Consume_Some_step) (simp add: prod_eq_iff)
  then have "exchange_consume E (st_Replay c) i p = (None, Some ?s)"
    using assms(2,4) by (simp add: exchange_consume_def)
  then have x: "exchange E c i req = (exchange_mint E (st_Issuer c) (sts_ttl c) (st_Signer c) i req p, Some ?s)"
    using assms(1) by (simp add: exchange_def)
  have "xr_ReasonCode (exchange_mint E (st_Issuer c) (sts_ttl c) (st_Signer c) i req p) = ReasonMissingCNF"
    using assms(3) by (simp add: exchange_mint_def deny_def withSubject_def)
  moreover have sp: "consumed ?s (c_jti (pp_sub p), c_exp (pp_sub p)) (unix (in_replay_now i))"
    using replay_guard.use_spends[OF _ assms(5), of "(c_jti (pp_sub p), c_exp (pp_sub p))" "unix (in_replay_now i)"]
    by (simp add: consume_op_of_def)
  moreover have "\<not> snd (consume_step (e_records E) ?s ?op)"
    using replay_guard.spent_refuses[of ?op "(c_jti (pp_sub p), c_exp (pp_sub p))" ?s "e_records E"] sp
    by (simp add: consume_op_of_def)
  ultimately show ?thesis using x by blast
qed

text \<open>An example with a SPIFFE workload, which possesses no key.\<close>

definition spiffe_actor :: claims where
  "spiffe_actor = example_actor_claims\<lparr>c_sub := ''spiffe://w''\<rparr>"

definition spiffe_cs :: "claims list" where
  "spiffe_cs = [first_token, spiffe_actor]"

definition spiffe_agent :: agent where
  "spiffe_agent = agent_b\<lparr>ag_Workloads := [''spiffe://w'']\<rparr>"

definition spiffe_config :: sts_config where
  "spiffe_config = (example_config spiffe_cs)
    \<lparr>st_Attestor := Some (Att_SPIFFE (Some
       \<lparr>sp_Bundle = [signer_PublicJWK (example_env spiffe_cs) (example_workload_key [])], sp_KeysFn = None,
        sp_Audience = ''sts'', sp_Issuer = [], sp_Now = None\<rparr>)),
     st_Registry := Some \<lparr>rg_Version = 1, rg_byID = by_ids [spiffe_agent], rg_Agents = [spiffe_agent]\<rparr>\<rparr>"

definition spiffe_request :: exchange_request where
  "spiffe_request = (second_request spiffe_cs)
    \<lparr>rq_ActorToken := signer_SignClaims (example_env spiffe_cs) (example_workload_key []) spiffe_actor,
     rq_ConfirmJKT := []\<rparr>"

definition spiffe_wl :: workload_identity where
  "spiffe_wl = \<lparr>wi_ID = ''spiffe://w'', wi_Issuer = ''wl-1'', wi_JTI = ''jti-1'', wi_PossessedJKT = []\<rparr>"

lemma spiffe_attests:
  "Attest (example_sts_env spiffe_cs) (the (st_Attestor spiffe_config)) (rq_ActorToken spiffe_request) = Inr spiffe_wl"
proof -
  have "VerifyKey (example_sts_env spiffe_cs)
      (signer_SignClaims (example_env spiffe_cs) (example_workload_key []) spiffe_actor)
      [signer_PublicJWK (example_env spiffe_cs) (example_workload_key [])]
    = Inr (\<lparr>h_alg = ''EdDSA'', h_typ = ''JWT'', h_kid = sg_kid (example_workload_key [])\<rparr>, spiffe_actor,
        signer_PublicJWK (example_env spiffe_cs) (example_workload_key []))"
    by (rule example_sts_verifies) (simp_all add: spiffe_cs_def example_workload_key_def)
  then show ?thesis
    by (simp add: spiffe_config_def spiffe_request_def SPIFFE_Attest_def SPIFFE_keys_def ValidateSubject_def
        spiffe_wl_def)
      (simp add: spiffe_actor_def example_actor_claims_def example_claims_def not_blank_letter)
qed

lemma spiffe_checks:
  "exchange_checks (example_sts_env spiffe_cs) (st_Issuer spiffe_config) (snapshot spiffe_config) second_inputs
     spiffe_request = Inr (prepare second_inputs spiffe_request spiffe_wl spiffe_agent first_token True)"
proof -
  have "caller_ok (example_sts_env spiffe_cs) (st_Issuer spiffe_config) (snapshot spiffe_config) second_inputs
      spiffe_request spiffe_wl spiffe_agent"
    unfolding caller_ok_def request_error_None check_caller_Inr
    using spiffe_attests
    by (simp add: spiffe_request_def second_request_def user_request_def example_token_not_blank not_blank_letter
        spiffe_wl_def)
      (simp add: spiffe_config_def example_config_def Authorize_Inr ValidateAt_None by_ids_Cons spiffe_agent_def
        agent_b_def agent_a_def second_inputs_def example_inputs_def)
  moreover have "VerifyKey (example_sts_env spiffe_cs)
      (signer_SignClaims (example_env spiffe_cs) sts_signer first_token)
      (keyring_JWKS (example_sts_env spiffe_cs) (Some example_keyring))
    = Inr (\<lparr>h_alg = ''EdDSA'', h_typ = ''JWT'', h_kid = sg_kid sts_signer\<rparr>, first_token,
        signer_PublicJWK (example_env spiffe_cs) sts_signer)"
    by (rule example_sts_verifies) (simp_all add: sts_signer_def example_keyring_JWKS spiffe_cs_def)
  then have "verifySubject (example_sts_env spiffe_cs) (st_Issuer spiffe_config)
      (rq_SubjectToken spiffe_request) (snapshot spiffe_config) = Inr (first_token, True)"
    by (simp add: verifySubject_def spiffe_request_def second_request_def spiffe_config_def example_config_def
        jws_Verify_def first_token_def)
  moreover have "narrowScope [] ''read'' [''read'', ''admin''] = Some ''read''" by code_simp
  then have "subject_ok None second_inputs spiffe_request spiffe_agent first_token True"
    by (simp add: subject_ok_def spiffe_request_def second_request_def user_request_def spiffe_agent_def agent_b_def
        agent_a_def first_token_def second_inputs_def example_inputs_def not_blank_letter AppendChain_def
        ValidateTime_default unix_def i64_def newID_def)
  ultimately show ?thesis
    by (auto simp: exchange_checks_Inr spiffe_config_def example_config_def)
qed

theorem missing_cnf_burns_token_witness:
  "\<exists>oc s'. exchange (example_sts_env spiffe_cs) spiffe_config second_inputs spiffe_request = (oc, Some s') \<and>
     xr_ReasonCode oc = ''missing_cnf'' \<and> consumed s' (c_jti first_token, c_exp first_token) 500"
proof -
  let ?p = "prepare second_inputs spiffe_request spiffe_wl spiffe_agent first_token True"
  have cnf: "confirm_key spiffe_request ?p = []" "pp_fromSTS ?p"
    by (simp_all add: confirm_key_def spiffe_request_def spiffe_wl_def)
  have st: "st_Replay spiffe_config = Some NewReplayCache"
    by (simp add: spiffe_config_def example_config_def)
  have "consume_step example_records NewReplayCache (consume_op_of second_inputs first_token) = (second_cache, True)"
    using Consume_Some_step[of example_records NewReplayCache second_inputs first_token "Some second_cache"]
      second_consume[of "in_replay_io second_inputs"]
    by (simp add: second_inputs_def example_inputs_def first_token_def)
  then show ?thesis
    using missing_cnf_burns_token[OF spiffe_checks cnf(2,1) st]
    by (auto simp: ReasonMissingCNF_def second_inputs_def example_inputs_def unix_def)
qed

end
