(* ===== verification/Http.thy ===== *)
theory Http
  imports Go_Strings
begin

text \<open>
  What the program uses of \<^verbatim>\<open>net/http\<close>: header maps under their canonical names, requests as a client
  builds them and as a server receives them, and responses. A parsed \<^verbatim>\<open>*url.URL\<close> is a record of the
  parts the program reads.
\<close>

section \<open>Headers\<close>

definition ascii_upper :: "char \<Rightarrow> char" where
  "ascii_upper c =
    (let n = of_char c :: nat in if 97 \<le> n \<and> n \<le> 122 then char_of (n - 32) else c)"

text \<open>The token characters of a header name.\<close>

definition header_char :: "char \<Rightarrow> bool" where
  "header_char c \<longleftrightarrow>
    (let n = of_char c :: nat in
     48 \<le> n \<and> n \<le> 57 \<or> 65 \<le> n \<and> n \<le> 90 \<or> 97 \<le> n \<and> n \<le> 122 \<or> c \<in> set ''!#$%&*+-.^_|~'' \<or>
     n = 39 \<or> n = 96)"

fun canonical_from :: "bool \<Rightarrow> bytes \<Rightarrow> bytes" where
  "canonical_from up [] = []"
| "canonical_from up (c # s) =
    (if up then ascii_upper c else ascii_lower c) # canonical_from (c = CHR ''-'') s"

text \<open>\<^verbatim>\<open>CanonicalHeaderKey\<close>: a letter that starts a part is upper case, the others lower case.\<close>

definition canonical_key :: "bytes \<Rightarrow> bytes" where
  "canonical_key s = (if list_all header_char s then canonical_from True s else s)"

type_synonym headers = "bytes \<rightharpoonup> bytes list"

definition header_Get :: "headers \<Rightarrow> bytes \<Rightarrow> bytes" where
  "header_Get h k = (case h (canonical_key k) of Some (v # _) \<Rightarrow> v | _ \<Rightarrow> [])"

definition header_Set :: "headers \<Rightarrow> bytes \<Rightarrow> bytes \<Rightarrow> headers" where
  "header_Set h k v = h(canonical_key k \<mapsto> [v])"

definition header_Del :: "headers \<Rightarrow> bytes \<Rightarrow> headers" where
  "header_Del h k = h(canonical_key k := None)"

lemma header_Get_Set [simp]:
  "header_Get (header_Set h k v) k' = (if canonical_key k' = canonical_key k then v else header_Get h k')"
  by (simp add: header_Get_def header_Set_def)

lemma header_Get_Del [simp]:
  "header_Get (header_Del h k) k' = (if canonical_key k' = canonical_key k then [] else header_Get h k')"
  by (simp add: header_Get_def header_Del_def)

lemma header_Get_empty [simp]: "header_Get Map.empty k = []"
  by (simp add: header_Get_def)

section \<open>Requests and responses\<close>

record http_url =
  ur_Scheme :: bytes
  ur_Host :: bytes
  ur_EscapedPath :: bytes
  ur_RawQuery :: bytes
  ur_Fragment :: bytes
  ur_Hostname :: bytes

text \<open>\<open>hr_TLS\<close>: whether the request arrived over TLS. A body is absent, or there once, or can be made
  again, or claims to be but fails with an error when it is.\<close>

datatype req_body = No_Body | Body_Once bytes | Body_Again bytes | Body_Broken bytes bytes

record http_request =
  hr_Method :: bytes
  hr_Host :: bytes
  hr_TLS :: bool
  hr_URL :: "http_url option"
  hr_Header :: headers
  hr_Body :: req_body

record 'b http_response =
  rs_Status :: nat
  rs_Header :: headers
  rs_Body :: 'b

abbreviation (input) StatusOK :: nat where "StatusOK \<equiv> 200"
abbreviation (input) StatusBadRequest :: nat where "StatusBadRequest \<equiv> 400"
abbreviation (input) StatusUnauthorized :: nat where "StatusUnauthorized \<equiv> 401"
abbreviation (input) StatusForbidden :: nat where "StatusForbidden \<equiv> 403"
abbreviation (input) StatusTooManyRequests :: nat where "StatusTooManyRequests \<equiv> 429"
abbreviation (input) StatusInternalServerError :: nat where "StatusInternalServerError \<equiv> 500"
abbreviation (input) StatusServiceUnavailable :: nat where "StatusServiceUnavailable \<equiv> 503"

text \<open>The header names the program uses are pairwise different under canonicalization.\<close>

lemma canonical_names [simp]:
  "canonical_key ''DPoP'' = ''Dpop''" "canonical_key ''DPoP-Nonce'' = ''Dpop-Nonce''"
  "canonical_key ''Authorization'' = ''Authorization''" "canonical_key ''Content-Type'' = ''Content-Type''"
  "canonical_key ''WWW-Authenticate'' = ''Www-Authenticate''"
  "canonical_key ''X-Visor-Client-Id'' = ''X-Visor-Client-Id''"
  "canonical_key ''X-Visor-Session-Id'' = ''X-Visor-Session-Id''"
  "canonical_key ''X-Actor-Chain'' = ''X-Actor-Chain''"
  by code_simp+

end
