(* ===== verification/Verifier.thy ===== *)
theory Verifier
  imports Scopes Jws Http
begin

text \<open>
  \<^verbatim>\<open>internal/verify\<close>: what a resource does with a token. \<open>verifier_Verify\<close> checks issuer, subject, single
  audience and time and gives the actor chain; from the issuer on, a failing check still hands back
  the chain, as the code does. The key sources (\<^verbatim>\<open>jwks.go\<close>, \<^verbatim>\<open>oidc.go\<close>) follow: which URLs may be
  fetched and what a fetched document must hold. The HTTP client and the IP address parser are
  parameters.
\<close>

datatype verify_error = Verify_ErrDepth | Verify_ErrAgent | Verify_ErrScope | Verify_ErrPrincipal

record actor_chain =
  ac_Principal :: bytes
  ac_Actor :: bytes
  ac_Hops :: "bytes list"
  ac_Depth :: int
  ac_Scope :: bytes
  ac_Txn :: bytes
  ac_Audience :: bytes
  ac_JTI :: bytes
  ac_Issuer :: bytes
  ac_Expires :: instant
  ac_Claims :: claims
  ac_Raw :: bytes

text \<open>The source of keys fails with an error of its own, a text.\<close>

record verifier =
  vf_Keys :: jwks
  vf_KeysFn :: "(bytes + jwks) option"
  vf_Issuer :: bytes

datatype verifier_error = Vf_Keys bytes | Vf_Token token_error

definition verifier_keys :: "verifier option \<Rightarrow> verifier_error + jwks" where
  "verifier_keys v =
    (case v of
       None \<Rightarrow> Inl (Vf_Token Token_ErrUnknownKey)
     | Some w \<Rightarrow> (case vf_KeysFn w of
         Some (Inl e) \<Rightarrow> Inl (Vf_Keys e)
       | Some (Inr ks) \<Rightarrow> Inr ks
       | None \<Rightarrow> Inr (vf_Keys w)))"

definition chainFromClaims :: "bytes \<Rightarrow> claims \<Rightarrow> actor_chain" where
  "chainFromClaims raw c =
    (let actors = ActorSubs c in
     \<lparr>ac_Principal = c_sub c,
      ac_Actor = (case c_act c of None \<Rightarrow> [] | Some a \<Rightarrow> act_sub a),
      ac_Hops = c_sub c # actors,
      ac_Depth = int (length actors),
      ac_Scope = c_scope c,
      ac_Txn = c_txn c,
      ac_Audience = (case aud_Single (c_aud c) of None \<Rightarrow> [] | Some a \<Rightarrow> a),
      ac_JTI = c_jti c,
      ac_Issuer = c_iss c,
      ac_Expires = c_exp c * second,
      ac_Claims = c,
      ac_Raw = raw\<rparr>)"

text \<open>The error, with the chain if the token got as far as its issuer.\<close>

definition verifier_Verify ::
  "('a token_env_scheme) \<Rightarrow> verifier \<Rightarrow> bytes \<Rightarrow> bytes \<Rightarrow> instant \<Rightarrow>
    (verifier_error \<times> actor_chain option) + actor_chain" where
  "verifier_Verify E v raw audience now =
    (case verifier_keys (Some v) of
       Inl e \<Rightarrow> Inl (e, None)
     | Inr ks \<Rightarrow> (case jws_Verify E raw ks of
         Inl e \<Rightarrow> Inl (Vf_Token e, None)
       | Inr (h, c) \<Rightarrow> (case ValidateIssuer c (vf_Issuer v) of
           Some e \<Rightarrow> Inl (Vf_Token e, None)
         | None \<Rightarrow>
             (let ch = chainFromClaims raw c in
              case ValidateSubject c of
                Some e \<Rightarrow> Inl (Vf_Token e, Some ch)
              | None \<Rightarrow> (case ValidateAudience c audience of
                  Some e \<Rightarrow> Inl (Vf_Token e, Some ch)
                | None \<Rightarrow>
                    if aud_Single (c_aud c) = None then Inl (Vf_Token Token_ErrAudience, Some ch)
                    else (case ValidateTime c now 0 of
                      Some e \<Rightarrow> Inl (Vf_Token e, Some ch)
                    | None \<Rightarrow> Inr ch))))))"

definition RequireDepth :: "actor_chain \<Rightarrow> int \<Rightarrow> verify_error option" where
  "RequireDepth c mx = (if ac_Depth c > mx then Some Verify_ErrDepth else None)"

definition RequireAgent :: "actor_chain \<Rightarrow> bytes \<Rightarrow> verify_error option" where
  "RequireAgent c agentID = (if ac_Actor c \<noteq> agentID then Some Verify_ErrAgent else None)"

definition RequireScope :: "actor_chain \<Rightarrow> bytes \<Rightarrow> verify_error option" where
  "RequireScope c scope =
    (if \<not> Subset (ScopeSet scope) (ScopeSet (ac_Scope c)) then Some Verify_ErrScope else None)"

definition RequirePrincipal :: "actor_chain \<Rightarrow> bytes \<Rightarrow> verify_error option" where
  "RequirePrincipal c prin = (if ac_Principal c \<noteq> prin then Some Verify_ErrPrincipal else None)"

section \<open>Where keys may come from\<close>

datatype source_error =
    Source_ErrJWKSURL bytes | Source_ErrEmptyJWKS | Source_Config bytes | Source_IO bytes
  | Source_Status nat | Source_TooLarge | Source_BadDocument bytes

text \<open>The parser of IP addresses, as far as it is used: whether the text is a loopback address.\<close>

record net_env =
  nt_Parse :: "bytes \<Rightarrow> http_url option"
  nt_LoopbackIP :: "bytes \<Rightarrow> bool"
  nt_Get :: "bytes \<Rightarrow> bytes + (nat \<times> bytes)"
  nt_ParseJWKS :: "bytes \<Rightarrow> bytes + jwks"
  nt_ReadFile :: "bytes \<Rightarrow> bytes + bytes"
  nt_Discovery :: "bytes \<Rightarrow> bytes + (bytes \<times> bytes)"

text \<open>\<^verbatim>\<open>strings.Trim(host, "[]")\<close>.\<close>

definition trim_set :: "char set \<Rightarrow> bytes \<Rightarrow> bytes" where
  "trim_set cs s = rev (dropWhile (\<lambda>c. c \<in> cs) (rev (dropWhile (\<lambda>c. c \<in> cs) s)))"

definition loopbackHost :: "('a net_env_scheme) \<Rightarrow> bytes \<Rightarrow> bool" where
  "loopbackHost N host =
    (let h = trim_set {CHR ''['', CHR '']''} host in
     if EqualFold h ''localhost'' then True else nt_LoopbackIP N h)"

definition CheckJWKSURL :: "('a net_env_scheme) \<Rightarrow> bytes \<Rightarrow> source_error option" where
  "CheckJWKSURL N rawURL =
    (case nt_Parse N rawURL of
       None \<Rightarrow> Some (Source_ErrJWKSURL rawURL)
     | Some u \<Rightarrow>
         if ur_Host u = [] then Some (Source_ErrJWKSURL rawURL)
         else
           (let scheme = map ascii_lower (ur_Scheme u) in
            if scheme = ''https'' then None
            else if scheme = ''http'' then
              (if loopbackHost N (ur_Hostname u) then None else Some (Source_ErrJWKSURL rawURL))
            else Some (Source_ErrJWKSURL rawURL)))"

definition maxJWKSBytes :: nat where "maxJWKSBytes = 1048576"

text \<open>\<^verbatim>\<open>io.LimitReader\<close> hands over one byte more than the limit at most.\<close>

definition getCapped :: "('a net_env_scheme) \<Rightarrow> bytes \<Rightarrow> source_error + bytes" where
  "getCapped N rawURL =
    (case CheckJWKSURL N rawURL of
       Some e \<Rightarrow> Inl e
     | None \<Rightarrow> (case nt_Get N rawURL of
         Inl e \<Rightarrow> Inl (Source_IO e)
       | Inr (status, body) \<Rightarrow>
           if status \<noteq> StatusOK then Inl (Source_Status status)
           else
             (let raw = take (maxJWKSBytes + 1) body in
              if length raw > maxJWKSBytes then Inl Source_TooLarge else Inr raw)))"

definition requireKeys :: "jwks \<Rightarrow> source_error + jwks" where
  "requireKeys ks = (if ks = [] then Inl Source_ErrEmptyJWKS else Inr ks)"

definition FetchJWKS :: "('a net_env_scheme) \<Rightarrow> bytes \<Rightarrow> source_error + jwks" where
  "FetchJWKS N rawURL =
    (case getCapped N rawURL of
       Inl e \<Rightarrow> Inl e
     | Inr raw \<Rightarrow> (case nt_ParseJWKS N raw of Inl e \<Rightarrow> Inl (Source_BadDocument e) | Inr ks \<Rightarrow> requireKeys ks))"

text \<open>The redirect rule of the HTTP client: three hops at most, each to a URL that may be fetched.\<close>

definition CheckRedirect :: "('a net_env_scheme) \<Rightarrow> bytes \<Rightarrow> nat \<Rightarrow> source_error option" where
  "CheckRedirect N target via =
    (if via \<ge> 3 then Some (Source_Config ''too many JWKS redirects'') else CheckJWKSURL N target)"

text \<open>\<^verbatim>\<open>LiveJWKS\<close> checks its configuration and returns a source that is run on each use, with the files
  and the network as they are then (its argument).\<close>

definition LiveJWKS ::
  "('a net_env_scheme) \<Rightarrow> bytes \<Rightarrow> bytes \<Rightarrow> source_error + (('a net_env_scheme) \<Rightarrow> source_error + jwks)" where
  "LiveJWKS N path rawURL =
    (if path = [] \<and> rawURL = [] then Inl (Source_Config ''-jwks or -jwks-url is required'')
     else if path \<noteq> [] \<and> rawURL \<noteq> [] then Inl (Source_Config ''use -jwks or -jwks-url, not both'')
     else if rawURL \<noteq> [] then
       (case CheckJWKSURL N rawURL of Some e \<Rightarrow> Inl e | None \<Rightarrow> Inr (\<lambda>N'. FetchJWKS N' rawURL))
     else Inr (\<lambda>N'. case nt_ReadFile N' path of
         Inl e \<Rightarrow> Inl (Source_IO e)
       | Inr raw \<Rightarrow> (case nt_ParseJWKS N' raw of Inl e \<Rightarrow> Inl (Source_BadDocument e) | Inr ks \<Rightarrow> requireKeys ks)))"

record oidc_discovery =
  od_Issuer :: bytes
  od_JWKSURI :: bytes

definition FetchOIDC :: "('a net_env_scheme) \<Rightarrow> bytes \<Rightarrow> source_error + oidc_discovery" where
  "FetchOIDC N issuer =
    (case CheckJWKSURL N issuer of
       Some e \<Rightarrow> Inl e
     | None \<Rightarrow>
       (case getCapped N (rev (dropWhile (\<lambda>c. c = CHR ''/'') (rev issuer)) @ ''/.well-known/openid-configuration'') of
          Inl e \<Rightarrow> Inl e
        | Inr raw \<Rightarrow> (case nt_Discovery N raw of
            Inl e \<Rightarrow> Inl (Source_BadDocument e)
          | Inr (iss, uri) \<Rightarrow>
              if iss = [] \<or> uri = [] then Inl (Source_BadDocument ''missing issuer or jwks_uri'')
              else if iss \<noteq> issuer then Inl (Source_BadDocument ''issuer mismatch'')
              else (case CheckJWKSURL N uri of
                Some e \<Rightarrow> Inl e
              | None \<Rightarrow> Inr \<lparr>od_Issuer = iss, od_JWKSURI = uri\<rparr>))))"

definition oidc_keys :: "('a net_env_scheme) \<Rightarrow> bytes \<Rightarrow> source_error + jwks" where
  "oidc_keys N issuer =
    (case FetchOIDC N issuer of Inl e \<Rightarrow> Inl e | Inr d \<Rightarrow> FetchJWKS N (od_JWKSURI d))"

text \<open>\<^verbatim>\<open>LiveOIDC\<close> runs the source once with the network as it is now; the function it returns runs it
  again with the network as it is then, the second argument.\<close>

definition LiveOIDC ::
  "('a net_env_scheme) \<Rightarrow> bytes \<Rightarrow> source_error + (('a net_env_scheme) \<Rightarrow> source_error + jwks)" where
  "LiveOIDC N issuer =
    (case oidc_keys N issuer of Inl e \<Rightarrow> Inl e | Inr _ \<Rightarrow> Inr (\<lambda>N'. oidc_keys N' issuer))"

section \<open>What passes\<close>

lemma CheckJWKSURL_None:
  "CheckJWKSURL N raw = None \<longleftrightarrow>
    (\<exists>u. nt_Parse N raw = Some u \<and> ur_Host u \<noteq> [] \<and>
      (map ascii_lower (ur_Scheme u) = ''https'' \<or>
       map ascii_lower (ur_Scheme u) = ''http'' \<and> loopbackHost N (ur_Hostname u)))"
  by (cases "nt_Parse N raw") (auto simp: CheckJWKSURL_def Let_def)

lemma FetchJWKS_Inr:
  "FetchJWKS N url = Inr ks \<longleftrightarrow>
    (\<exists>body. CheckJWKSURL N url = None \<and> nt_Get N url = Inr (200, body) \<and> length body \<le> maxJWKSBytes \<and>
      nt_ParseJWKS N body = Inr ks \<and> ks \<noteq> [])"
  by (auto simp: FetchJWKS_def getCapped_def requireKeys_def Let_def min_def
      split: sum.splits option.splits if_splits)

lemma FetchOIDC_InrD:
  "FetchOIDC N issuer = Inr d \<Longrightarrow> od_Issuer d = issuer \<and> CheckJWKSURL N issuer = None \<and>
    CheckJWKSURL N (od_JWKSURI d) = None"
  by (auto simp: FetchOIDC_def split: sum.splits option.splits if_splits)

lemma verifier_VerifyI:
  assumes "verifier_keys (Some v) = Inr ks" "jws_Verify E raw ks = Inr (h, c)"
    and "c_iss c \<noteq> []" "vf_Issuer v = [] \<or> c_iss c = vf_Issuer v" "\<not> is_blank (c_sub c)"
    and "c_aud c = [audience]" "audience \<noteq> []" "ValidateTime c now 0 = None"
  shows "verifier_Verify E v raw audience now = Inr (chainFromClaims raw c)"
proof -
  have "ValidateIssuer c (vf_Issuer v) = None" "ValidateSubject c = None" "ValidateAudience c audience = None"
    using assms by (simp_all add: validate_None)
  then show ?thesis using assms by (simp add: verifier_Verify_def Let_def aud_Single_def)
qed

lemma verifier_Verify_InrD:
  assumes "verifier_Verify E v raw audience now = Inr ch"
  obtains ks h c where "verifier_keys (Some v) = Inr ks" "jws_Verify E raw ks = Inr (h, c)"
    "c_iss c \<noteq> []" "vf_Issuer v = [] \<or> c_iss c = vf_Issuer v" "\<not> is_blank (c_sub c)"
    "c_aud c = [audience]" "audience \<noteq> []" "ValidateTime c now 0 = None" "ch = chainFromClaims raw c"
proof -
  obtain ks where ks: "verifier_keys (Some v) = Inr ks"
    using assms by (cases "verifier_keys (Some v)") (simp_all add: verifier_Verify_def)
  obtain h c where hc: "jws_Verify E raw ks = Inr (h, c)"
    using assms ks by (cases "jws_Verify E raw ks") (auto simp: verifier_Verify_def)
  have ok: "ValidateIssuer c (vf_Issuer v) = None" "ValidateSubject c = None" "ValidateAudience c audience = None"
    "aud_Single (c_aud c) \<noteq> None" "ValidateTime c now 0 = None" "ch = chainFromClaims raw c"
    using assms ks hc by (auto simp: verifier_Verify_def Let_def split: option.splits if_splits)
  from ok(4) obtain a where "aud_Single (c_aud c) = Some a" by blast
  then have "c_aud c = [a]" "a \<noteq> []" by simp_all
  with ok(1-3,5,6) ks hc that show ?thesis by (auto simp: validate_None)
qed

text \<open>A resource accepts exactly the good tokens. \<^verbatim>\<open>Verifier.Verify\<close> gives an actor chain if and only
  if the key source answers, the token verifies under its keys, names an issuer (the configured one,
  if any) and a non-blank subject, has this resource as its one and only audience and is within its
  time; the chain then lists the principal and the acting agents in order.\<close>

theorem verifier_accepts:
  "verifier_Verify E v raw audience now = Inr ch \<longleftrightarrow>
    (\<exists>ks h c. verifier_keys (Some v) = Inr ks \<and> jws_Verify E raw ks = Inr (h, c) \<and>
       c_iss c \<noteq> [] \<and> (vf_Issuer v = [] \<or> c_iss c = vf_Issuer v) \<and> \<not> is_blank (c_sub c) \<and>
       c_aud c = [audience] \<and> audience \<noteq> [] \<and> ValidateTime c now 0 = None \<and>
       ch = chainFromClaims raw c \<and> ac_Hops ch = c_sub c # ActorSubs c \<and> ac_Depth ch = int (Depth c))"
  (is "?l \<longleftrightarrow> ?r")
proof
  assume ?l
  then show ?r
  proof (rule verifier_Verify_InrD)
    fix ks h c
    assume *: "verifier_keys (Some v) = Inr ks" "jws_Verify E raw ks = Inr (h, c)" "c_iss c \<noteq> []"
      "vf_Issuer v = [] \<or> c_iss c = vf_Issuer v" "\<not> is_blank (c_sub c)" "c_aud c = [audience]" "audience \<noteq> []"
      "ValidateTime c now 0 = None" "ch = chainFromClaims raw c"
    then have "ac_Hops ch = c_sub c # ActorSubs c" "ac_Depth ch = int (Depth c)"
      by (simp_all add: chainFromClaims_def Let_def Depth_def)
    with * show ?r by blast
  qed
next
  assume ?r
  then show ?l using verifier_VerifyI by metis
qed

text \<open>Where live keys come from. Keys that an OIDC source delivers came over https, or http from the
  loopback host, at both steps; the discovery document named exactly the configured issuer; and the
  key set is not empty and was not over the size limit. A source for such an issuer exists only if
  one run of it succeeded.\<close>

theorem oidc_keys_pinned:
  "(oidc_keys N issuer = Inr ks \<longrightarrow>
     (\<exists>d body. FetchOIDC N issuer = Inr d \<and> od_Issuer d = issuer \<and>
        CheckJWKSURL N issuer = None \<and> CheckJWKSURL N (od_JWKSURI d) = None \<and>
        nt_Get N (od_JWKSURI d) = Inr (200, body) \<and> length body \<le> 1048576 \<and>
        nt_ParseJWKS N body = Inr ks \<and> ks \<noteq> [])) \<and>
   (is_ok (LiveOIDC N issuer) \<longleftrightarrow> is_ok (oidc_keys N issuer))"
proof -
  have "\<exists>d body. FetchOIDC N issuer = Inr d \<and> od_Issuer d = issuer \<and>
        CheckJWKSURL N issuer = None \<and> CheckJWKSURL N (od_JWKSURI d) = None \<and>
        nt_Get N (od_JWKSURI d) = Inr (200, body) \<and> length body \<le> 1048576 \<and>
        nt_ParseJWKS N body = Inr ks \<and> ks \<noteq> []" if "oidc_keys N issuer = Inr ks"
  proof -
    from that obtain d where d: "FetchOIDC N issuer = Inr d" "FetchJWKS N (od_JWKSURI d) = Inr ks"
      by (auto simp: oidc_keys_def split: sum.splits)
    with FetchOIDC_InrD[OF d(1)] show ?thesis by (auto simp: FetchJWKS_Inr maxJWKSBytes_def)
  qed
  then show ?thesis by (auto simp: LiveOIDC_def split: sum.split)
qed

definition example_net :: net_env where
  "example_net =
    \<lparr>nt_Parse = (\<lambda>u. Some \<lparr>ur_Scheme = ''https'', ur_Host = ''idp'', ur_EscapedPath = [], ur_RawQuery = [],
        ur_Fragment = [], ur_Hostname = ''idp''\<rparr>),
     nt_LoopbackIP = (\<lambda>h. False), nt_Get = (\<lambda>u. Inr (200, ''doc'')), nt_ParseJWKS = (\<lambda>b. Inr [empty_jwk]),
     nt_ReadFile = (\<lambda>p. Inl ''no files''), nt_Discovery = (\<lambda>b. Inr (''https://idp'', ''https://idp/keys''))\<rparr>"

theorem oidc_keys_pinned_witness:
  "oidc_keys example_net ''https://idp'' = Inr [empty_jwk] \<and>
   (\<exists>d. FetchOIDC example_net ''https://idp'' = Inr d \<and> od_Issuer d = ''https://idp'')"
proof -
  have "map ascii_lower ''https'' = ''https''" by code_simp
  then have "CheckJWKSURL example_net u = None" for u
    by (simp add: CheckJWKSURL_None) (simp add: example_net_def)
  then have "getCapped example_net u = Inr ''doc''" for u
    by (simp add: getCapped_def Let_def) (simp add: example_net_def maxJWKSBytes_def)
  moreover have "nt_ParseJWKS example_net b = Inr [empty_jwk]"
    "nt_Discovery example_net b = Inr (''https://idp'', ''https://idp/keys'')" for b
    by (simp_all add: example_net_def)
  ultimately have "oidc_keys example_net ''https://idp'' = Inr [empty_jwk]"
    using \<open>\<And>u. CheckJWKSURL example_net u = None\<close>
    by (simp add: oidc_keys_def FetchOIDC_def FetchJWKS_def requireKeys_def)
  with oidc_keys_pinned[of example_net "''https://idp''" "[empty_jwk]"] show ?thesis by blast
qed

end
