(* ===== verification/Resource.thy ===== *)
theory Resource
  imports Delegation Verifier
begin

text \<open>
  The exchange of \<^verbatim>\<open>internal/sts\<close> and the verifier of \<^verbatim>\<open>internal/verify\<close> together: a token the service
  mints is accepted by the resource it is for, and by no other.
\<close>

text \<open>The verifier of a resource that trusts the published ring of the service.\<close>

definition trusting :: "('a token_env_scheme) \<Rightarrow> sts_config \<Rightarrow> verifier" where
  "trusting E c = \<lparr>vf_Keys = keyring_JWKS E (st_Signer c), vf_KeysFn = None, vf_Issuer = st_Issuer c\<rparr>"

lemma trusting_simps [simp]:
  "verifier_keys (Some (trusting E c)) = Inr (keyring_JWKS E (st_Signer c))" "vf_Issuer (trusting E c) = st_Issuer c"
  by (simp_all add: trusting_def verifier_keys_def)

text \<open>From exchange to resource. A token that \<^verbatim>\<open>Exchange\<close> minted is accepted, while it is in its
  time, by a verifier that trusts the published ring and the issuer, for the audience it was requested
  for and no other; the chain the resource sees ends with the agent that made the exchange and begins
  with the principal.\<close>

theorem minted_accepted_by_audience:
  assumes "Exchange E c i req = (res, c')" "xr_ReasonCode res = ReasonOK"
    and "st_Signer c = Some k" "ring_wf k"
    and "ed25519_laws E (sg_seed (the (ring_lookup k (kr_activeKID k))))"
    and "codec_ok E \<lparr>h_alg = ''EdDSA'', h_typ = ''JWT'', h_kid = kr_activeKID k\<rparr> (xr_Issued res)"
    and "ValidateTime (xr_Issued res) now 0 = None"
  shows "(\<exists>ch. verifier_Verify E (trusting E c) (xr_Token res) (rq_Audience req) now = Inr ch \<and>
      ac_Principal ch = c_sub (xr_Issued res) \<and> ac_Actor ch = rq_AgentID req \<and>
      ac_Hops ch = c_sub (xr_Issued res) # ActorSubs (xr_Issued res) \<and> last (ac_Hops ch) = rq_AgentID req \<and>
      ac_Txn ch = c_txn (xr_Issued res) \<and> ac_Scope ch = c_scope (xr_Issued res)) \<and>
    (aud \<noteq> rq_Audience req \<longrightarrow> \<not> is_ok (verifier_Verify E (trusting E c) (xr_Token res) aud now))"
proof -
  obtain wl ag sub f where
    m: "mints E c i req wl ag sub f (xr_Issued res) (xr_Token res) (st_Replay c')"
    using Exchange_minted[OF assms(1,2)] by metis
  have signed: "keyring_SignClaims E (Some k) (xr_Issued res) = Inr (xr_Token res)"
    using m assms(3) unfolding mints_def by metis
  obtain h where h: "jws_Verify E (xr_Token res) (keyring_JWKS E (st_Signer c)) = Inr (h, xr_Issued res)"
    using keyring_sign_verifies[OF assms(4) signed assms(5,6)] assms(3) by auto
  from m have ok: "caller_ok E (st_Issuer c) (snapshot c) i req wl ag"
    and sok: "subject_ok (st_Denylist c) i req ag sub f"
    by (simp_all add: mints_def)
  from ok have iss: "st_Issuer c \<noteq> []" and aud: "\<not> is_blank (rq_Audience req)"
    by (auto simp: caller_ok_def request_error_None)
  from aud have "rq_Audience req \<noteq> []" by auto
  moreover have "\<not> is_blank (c_sub sub)" using sok by (simp add: subject_ok_def)
  ultimately have v: "verifier_Verify E (trusting E c) (xr_Token res) (rq_Audience req) now
      = Inr (chainFromClaims (xr_Token res) (xr_Issued res))"
    using h iss assms(7) mints_claims(1-3)[OF m] by (intro verifier_VerifyI) auto
  have ch: "ac_Actor (chainFromClaims (xr_Token res) (xr_Issued res)) = rq_AgentID req"
    "last (ac_Hops (chainFromClaims (xr_Token res) (xr_Issued res))) = rq_AgentID req"
    using mints_claims(7)[OF m] mints_ActorSubs[OF m] by (simp_all add: chainFromClaims_def Let_def NestedAct_def)
  have "\<not> is_ok (verifier_Verify E (trusting E c) (xr_Token res) aud now)" if "aud \<noteq> rq_Audience req"
  proof
    assume "is_ok (verifier_Verify E (trusting E c) (xr_Token res) aud now)"
    then obtain ch where "verifier_Verify E (trusting E c) (xr_Token res) aud now = Inr ch" by (rule is_okE)
    then show False
    proof (rule verifier_Verify_InrD)
      fix ks h' c2
      assume "verifier_keys (Some (trusting E c)) = Inr ks" "jws_Verify E (xr_Token res) ks = Inr (h', c2)"
        "c_aud c2 = [aud]"
      with h that mints_claims(3)[OF m] show False by simp
    qed
  qed
  then show ?thesis using v ch by (simp add: chainFromClaims_def Let_def)
qed

theorem minted_accepted_by_audience_witness:
  "\<exists>ch. verifier_Verify (example_sts_env example_cs) (trusting (example_sts_env example_cs) (example_config example_cs))
      (signer_SignClaims (example_env example_cs) sts_signer first_token) ''agent://b'' (550 * second) = Inr ch \<and>
    ac_Hops ch = [''alice'', ''agent://a'']"
proof -
  obtain res c' where x: "Exchange (example_sts_env example_cs) (example_config example_cs) example_inputs
      (user_request example_cs) = (res, c')" "xr_ReasonCode res = ReasonOK" "xr_Issued res = first_token"
    "xr_Token res = signer_SignClaims (example_env example_cs) sts_signer first_token"
    using first_result_ok by metis
  have k: "st_Signer (example_config example_cs) = Some example_keyring"
    by (simp add: example_config_def)
  have wf: "ring_wf example_keyring"
    by (simp add: example_keyring_def example_ring_def ring_wf_def alist_wf_def)
  have t: "ValidateTime (xr_Issued res) (550 * second) 0 = None"
    by (simp add: x(3) ValidateTime_default unix_def i64_def first_token_def)
  have "ActorSubs first_token = [''agent://a'']" "c_sub first_token = ''alice''"
    by (simp_all add: ActorSubs_def first_token_def)
  moreover have "rq_Audience (user_request example_cs) = ''agent://b''" by (simp add: user_request_def)
  moreover have "codec_ok (example_sts_env example_cs)
      \<lparr>h_alg = ''EdDSA'', h_typ = ''JWT'', h_kid = kr_activeKID example_keyring\<rparr> (xr_Issued res)"
    by (simp add: x(3))
  ultimately show ?thesis
    using minted_accepted_by_audience[OF x(1,2) k wf example_sts_env_laws(1) _ t] by (auto simp: x(3,4))
qed

end
