(* ===== verification/Dpop.thy ===== *)
theory Dpop
  imports Keyring Http
begin

text \<open>
  \<^verbatim>\<open>internal/dpop/dpop.go\<close>: RFC 9449 proofs of possession. \<open>ProveWithNonce\<close> is what a workload signs for
  one request, \<open>dpop_Verify\<close> what the gateway and the STS check: the embedded public key, the method,
  the URI, the access token's hash and the time. A zero \<^verbatim>\<open>now\<close> means the wall clock, the argument
  \<open>wall\<close>. The JSON codec of the proof's header and payload is a parameter; JSON is read twice, once for
  the proof and once as a token, as the code does.
\<close>

definition dpop_Typ :: bytes where "dpop_Typ = ''dpop+jwt''"
definition ReplayPrefix :: bytes where "ReplayPrefix = ''dpop:''"

definition ReplayJTI :: "bytes \<Rightarrow> bytes" where
  "ReplayJTI jti = (if jti = [] then [] else ReplayPrefix @ jti)"

datatype dpop_error =
    Dpop_ErrMissingProof | Dpop_ErrInvalidProof | Dpop_ErrPrivateJWK | Dpop_ErrHTU
  | Dpop_Token token_error

text \<open>\<open>ph_JWK\<close> is the raw JSON of the key, empty if there is none.\<close>

record proof_header =
  ph_Alg :: bytes
  ph_Typ :: bytes
  ph_JWK :: bytes

record proof_claims =
  pc_JTI :: bytes
  pc_HTM :: bytes
  pc_HTU :: bytes
  pc_IAT :: int
  pc_ATH :: bytes
  pc_Nonce :: bytes

record proof_result =
  pr_JTI :: bytes
  pr_IAT :: int
  pr_JKT :: bytes
  pr_Nonce :: bytes

record dpop_env = token_env +
  Marshal_proof_header :: "bytes \<Rightarrow> bytes \<Rightarrow> jwk \<Rightarrow> bytes"
  Unmarshal_proof_header :: "bytes \<Rightarrow> proof_header option"
  Member_names :: "bytes \<Rightarrow> bytes list option"
  Unmarshal_jwk :: "bytes \<Rightarrow> jwk option"
  Marshal_proof_claims :: "proof_claims \<Rightarrow> bytes"
  Unmarshal_proof_claims :: "bytes \<Rightarrow> proof_claims option"

definition AccessTokenHash :: "('a crypto_scheme) \<Rightarrow> bytes \<Rightarrow> bytes" where
  "AccessTokenHash E accessToken = B64Encode (sha256_Sum E accessToken)"

section \<open>URIs\<close>

definition escapedPath :: "http_request \<Rightarrow> bytes" where
  "escapedPath r =
    (case hr_URL r of
       None \<Rightarrow> ''/''
     | Some u \<Rightarrow> if ur_EscapedPath u = [] then ''/'' else ur_EscapedPath u)"

definition RequestURI :: "http_request option \<Rightarrow> dpop_error + bytes" where
  "RequestURI r =
    (case r of
       None \<Rightarrow> Inl Dpop_ErrHTU
     | Some q \<Rightarrow>
         if is_blank (hr_Host q) then Inl Dpop_ErrHTU
         else Inr ((if hr_TLS q then ''https'' else ''http'') @ ''://'' @ hr_Host q @ escapedPath q))"

definition OutboundURI :: "http_request option \<Rightarrow> dpop_error + bytes" where
  "OutboundURI r =
    (case r of
       None \<Rightarrow> Inl Dpop_ErrHTU
     | Some q \<Rightarrow> (case hr_URL q of
         None \<Rightarrow> Inl Dpop_ErrHTU
       | Some u \<Rightarrow>
           (let scheme = map ascii_lower (ur_Scheme u);
                host = (if is_blank (hr_Host q) then ur_Host u else hr_Host q)
            in if scheme \<noteq> ''http'' \<and> scheme \<noteq> ''https'' then Inl Dpop_ErrHTU
               else if is_blank host then Inl Dpop_ErrHTU
               else Inr (scheme @ ''://'' @ host @ escapedPath q))))"

section \<open>Proving\<close>

definition dpop_newJTI :: "bytes \<Rightarrow> bytes" where
  "dpop_newJTI rnd = ''dpop-'' @ hex_encode rnd"

definition proof_of ::
  "bytes \<Rightarrow> ('a crypto_scheme) \<Rightarrow> bytes \<Rightarrow> bytes \<Rightarrow> bytes \<Rightarrow> int \<Rightarrow> bytes \<Rightarrow> proof_claims" where
  "proof_of rnd E meth htu accessToken sec nonce =
    \<lparr>pc_JTI = dpop_newJTI rnd, pc_HTM = meth, pc_HTU = htu, pc_IAT = sec,
     pc_ATH = (if accessToken \<noteq> [] then AccessTokenHash E accessToken else []), pc_Nonce = TrimSpace nonce\<rparr>"

definition ProveWithNonce ::
  "('a dpop_env_scheme) \<Rightarrow> instant \<Rightarrow> bytes \<Rightarrow> keyfile option \<Rightarrow> bytes \<Rightarrow> bytes \<Rightarrow> bytes \<Rightarrow> instant \<Rightarrow> bytes \<Rightarrow>
    dpop_error + bytes" where
  "ProveWithNonce E wall rnd kf meth htu accessToken now nonce =
    (case kf of
       None \<Rightarrow> Inl Dpop_ErrInvalidProof
     | Some k \<Rightarrow> (case SignerFromKeyFile k of
         Inl e \<Rightarrow> Inl (Dpop_Token e)
       | Inr s \<Rightarrow>
           (let jwk = PublicMembers (signer_PublicJWK E s);
                header = Marshal_proof_header E ''EdDSA'' dpop_Typ jwk;
                now' = (if now = zero_time then wall else now);
                payload = Marshal_proof_claims E (proof_of rnd E meth htu accessToken (unix now') nonce)
            in Inr (signer_Sign E s header payload))))"

definition Prove ::
  "('a dpop_env_scheme) \<Rightarrow> instant \<Rightarrow> bytes \<Rightarrow> keyfile option \<Rightarrow> bytes \<Rightarrow> bytes \<Rightarrow> bytes \<Rightarrow> instant \<Rightarrow>
    dpop_error + bytes" where
  "Prove E wall rnd kf meth htu accessToken now = ProveWithNonce E wall rnd kf meth htu accessToken now []"

section \<open>Verifying\<close>

definition private_members :: "bytes list" where
  "private_members = [''d'', ''p'', ''q'', ''dp'', ''dq'', ''qi'', ''k'', ''oth'']"

definition rejectPrivateJWK :: "('a dpop_env_scheme) \<Rightarrow> bytes \<Rightarrow> dpop_error option" where
  "rejectPrivateJWK E raw =
    (case Member_names E raw of
       None \<Rightarrow> Some Dpop_ErrInvalidProof
     | Some ms \<Rightarrow> if list_ex (\<lambda>k. k \<in> set ms) private_members then Some Dpop_ErrPrivateJWK else None)"

text \<open>The checks of the payload, once the signature is good.\<close>

definition check_proof_claims ::
  "('a dpop_env_scheme) \<Rightarrow> instant \<Rightarrow> http_request \<Rightarrow> bool \<Rightarrow> bytes \<Rightarrow> bytes \<Rightarrow> instant \<Rightarrow> jwk \<Rightarrow>
    proof_claims \<Rightarrow> dpop_error + proof_result" where
  "check_proof_claims E wall r tokenRequest accessToken wantJKT now j c =
    (if pc_JTI c = [] \<or> pc_HTM c = [] \<or> pc_HTU c = [] \<or> pc_IAT c = 0 then Inl Dpop_ErrInvalidProof
     else if (if tokenRequest then pc_ATH c \<noteq> [] else pc_ATH c = []) then Inl Dpop_ErrInvalidProof
     else if pc_HTM c \<noteq> hr_Method r then Inl Dpop_ErrInvalidProof
     else (case RequestURI (Some r) of
       Inl e \<Rightarrow> Inl e
     | Inr wantHTU \<Rightarrow>
         if pc_HTU c \<noteq> wantHTU then Inl Dpop_ErrInvalidProof
         else if \<not> tokenRequest \<and> pc_ATH c \<noteq> AccessTokenHash E accessToken then Inl Dpop_ErrInvalidProof
         else (case Thumbprint E j of
           Inl e \<Rightarrow> Inl Dpop_ErrInvalidProof
         | Inr jkt \<Rightarrow>
             if \<not> tokenRequest \<and> jkt \<noteq> wantJKT then Inl Dpop_ErrInvalidProof
             else
               (let sec = unix (if now = zero_time then wall else now) in
                if sec > i64 (pc_IAT c + skew_seconds ClockSkew) \<or> i64 (sec + skew_seconds ClockSkew) < pc_IAT c
                then Inl Dpop_ErrInvalidProof
                else Inr \<lparr>pr_JTI = pc_JTI c, pr_IAT = pc_IAT c, pr_JKT = jkt, pr_Nonce = pc_Nonce c\<rparr>))))"

definition dpop_Verify ::
  "('a dpop_env_scheme) \<Rightarrow> instant \<Rightarrow> http_request option \<Rightarrow> bytes \<Rightarrow> bytes \<Rightarrow> instant \<Rightarrow>
    dpop_error + proof_result" where
  "dpop_Verify E wall rq accessToken wantJKT now =
    (case rq of
       None \<Rightarrow> Inl Dpop_ErrInvalidProof
     | Some r \<Rightarrow>
       (let raw = TrimSpace (header_Get (hr_Header r) ''DPoP'');
            tokenRequest = (accessToken = [] \<and> wantJKT = []) in
        if raw = [] then Inl Dpop_ErrMissingProof
        else if \<not> tokenRequest \<and> (accessToken = [] \<or> wantJKT = []) then Inl Dpop_ErrInvalidProof
        else (case split_on CHR ''.'' raw of
          [p0, p1, p2] \<Rightarrow>
            if p0 = [] \<or> p1 = [] \<or> p2 = [] then Inl Dpop_ErrInvalidProof
            else (case B64Decode p0 of
              None \<Rightarrow> Inl Dpop_ErrInvalidProof
            | Some hb \<Rightarrow> (case Unmarshal_proof_header E hb of
                None \<Rightarrow> Inl Dpop_ErrInvalidProof
              | Some h \<Rightarrow>
                  if ph_Typ h \<noteq> dpop_Typ then Inl Dpop_ErrInvalidProof
                  else if ph_Alg h = [] \<or> EqualFold (ph_Alg h) ''none'' then Inl (Dpop_Token Token_ErrAlgNone)
                  else if ph_JWK h = [] then Inl Dpop_ErrInvalidProof
                  else (case rejectPrivateJWK E (ph_JWK h) of
                    Some e \<Rightarrow> Inl e
                  | None \<Rightarrow> (case Unmarshal_jwk E (ph_JWK h) of
                      None \<Rightarrow> Inl Dpop_ErrInvalidProof
                    | Some j \<Rightarrow> (case jws_Verify E raw [j] of
                        Inl e \<Rightarrow> Inl Dpop_ErrInvalidProof
                      | Inr _ \<Rightarrow> (case B64Decode p1 of
                          None \<Rightarrow> Inl Dpop_ErrInvalidProof
                        | Some pb \<Rightarrow> (case Unmarshal_proof_claims E pb of
                            None \<Rightarrow> Inl Dpop_ErrInvalidProof
                          | Some c \<Rightarrow>
                              check_proof_claims E wall r tokenRequest accessToken wantJKT now j c)))))))
        | _ \<Rightarrow> Inl Dpop_ErrInvalidProof)))"

section \<open>What a verified proof says\<close>

definition expected_uri :: "http_request \<Rightarrow> bytes" where
  "expected_uri r = (if hr_TLS r then ''https'' else ''http'') @ ''://'' @ hr_Host r @ escapedPath r"

lemma RequestURI_Inr:
  "RequestURI (Some r) = Inr u \<longleftrightarrow> \<not> is_blank (hr_Host r) \<and> u = expected_uri r"
  by (auto simp: RequestURI_def expected_uri_def)

lemma check_proof_claims_Inr:
  "check_proof_claims E wall r tr tok want now j c = Inr res \<longleftrightarrow>
    pc_JTI c \<noteq> [] \<and> pc_HTM c \<noteq> [] \<and> pc_HTU c \<noteq> [] \<and> pc_IAT c \<noteq> 0 \<and>
    (if tr then pc_ATH c = [] else pc_ATH c \<noteq> [] \<and> pc_ATH c = AccessTokenHash E tok) \<and>
    pc_HTM c = hr_Method r \<and> \<not> is_blank (hr_Host r) \<and> pc_HTU c = expected_uri r \<and>
    (\<exists>jkt. Thumbprint E j = Inr jkt \<and> (tr \<or> jkt = want) \<and>
      res = \<lparr>pr_JTI = pc_JTI c, pr_IAT = pc_IAT c, pr_JKT = jkt, pr_Nonce = pc_Nonce c\<rparr>) \<and>
    (let sec = unix (if now = zero_time then wall else now) in
      sec \<le> i64 (pc_IAT c + 30) \<and> pc_IAT c \<le> i64 (sec + 30))"
proof (cases "RequestURI (Some r)")
  case (Inl e)
  then have "is_blank (hr_Host r)" by (auto simp: RequestURI_def split: if_splits)
  with Inl show ?thesis by (simp add: check_proof_claims_def)
next
  case (Inr u)
  then have "\<not> is_blank (hr_Host r)" "u = expected_uri r" by (simp_all add: RequestURI_Inr)
  with Inr show ?thesis
    by (cases "Thumbprint E j") (auto simp: check_proof_claims_def Let_def not_less)
qed

lemma rejectPrivateJWK_None:
  "rejectPrivateJWK E raw = None \<longleftrightarrow>
    (\<exists>ms. Member_names E raw = Some ms \<and> set ms \<inter> set private_members = {})"
  by (auto simp: rejectPrivateJWK_def list_ex_iff split: option.splits)

text \<open>The proof that a verified request carried: its key and its payload.\<close>

definition proof_carried ::
  "('a dpop_env_scheme) \<Rightarrow> http_request \<Rightarrow> jwk \<Rightarrow> proof_claims \<Rightarrow> bool" where
  "proof_carried E r j c \<longleftrightarrow>
    (\<exists>p0 p1 p2 hb pb h. let raw = TrimSpace (header_Get (hr_Header r) ''DPoP'') in
      split_on CHR ''.'' raw = [p0, p1, p2] \<and> p0 \<noteq> [] \<and> p1 \<noteq> [] \<and> p2 \<noteq> [] \<and>
      B64Decode p0 = Some hb \<and> Unmarshal_proof_header E hb = Some h \<and> ph_Typ h = dpop_Typ \<and>
      ph_Alg h \<noteq> [] \<and> \<not> EqualFold (ph_Alg h) ''none'' \<and> ph_JWK h \<noteq> [] \<and>
      rejectPrivateJWK E (ph_JWK h) = None \<and> Unmarshal_jwk E (ph_JWK h) = Some j \<and>
      is_ok (jws_Verify E raw [j]) \<and> B64Decode p1 = Some pb \<and> Unmarshal_proof_claims E pb = Some c)"

lemma dpop_Verify_Inr:
  "dpop_Verify E wall (Some r) tok want now = Inr res \<longleftrightarrow>
    (tok = [] \<longleftrightarrow> want = []) \<and>
    (\<exists>j c. proof_carried E r j c \<and>
       check_proof_claims E wall r (tok = []) tok want now j c = Inr res)"
  (is "?l \<longleftrightarrow> ?r")
proof -
  let ?raw = "TrimSpace (header_Get (hr_Header r) ''DPoP'')"
  show ?thesis
  proof (cases "?raw = [] \<or> (tok = []) \<noteq> (want = [])")
    case True
    then show ?thesis by (auto simp: dpop_Verify_def proof_carried_def Let_def)
  next
    case ok: False
    show ?thesis
    proof (cases "\<exists>p0 p1 p2. split_on CHR ''.'' ?raw = [p0, p1, p2]")
      case True
      then obtain p0 p1 p2 where "split_on CHR ''.'' ?raw = [p0, p1, p2]" by blast
      with ok show ?thesis
        by (auto simp: dpop_Verify_def proof_carried_def Let_def split: option.splits sum.splits if_splits)
    next
      case False
      with ok have "\<not> ?l" by (auto simp: dpop_Verify_def Let_def split: list.splits)
      moreover have "\<not> ?r" using False by (auto simp: proof_carried_def Let_def)
      ultimately show ?thesis by blast
    qed
  qed
qed

text \<open>The id and time that the proof in a request names, whatever else is wrong with it.\<close>

definition presented_proof :: "('a dpop_env_scheme) \<Rightarrow> http_request \<Rightarrow> proof_claims option" where
  "presented_proof E r =
    (case split_on CHR ''.'' (TrimSpace (header_Get (hr_Header r) ''DPoP'')) of
       [p0, p1, p2] \<Rightarrow> (case B64Decode p1 of None \<Rightarrow> None | Some pb \<Rightarrow> Unmarshal_proof_claims E pb)
     | _ \<Rightarrow> None)"

lemma presented_carried: "proof_carried E r j c \<Longrightarrow> presented_proof E r = Some c"
  unfolding proof_carried_def Let_def by (elim exE conjE) (simp add: presented_proof_def)

lemma presented_verified:
  assumes "dpop_Verify E wall (Some r) tok want now = Inr pf"
  obtains c where "presented_proof E r = Some c" "pc_JTI c = pr_JTI pf" "pc_IAT c = pr_IAT pf" "pc_Nonce c = pr_Nonce pf"
proof -
  obtain j c where jc: "proof_carried E r j c" "check_proof_claims E wall r (tok = []) tok want now j c = Inr pf"
    using assms unfolding dpop_Verify_Inr by blast
  from jc(2) have "pc_JTI c = pr_JTI pf" "pc_IAT c = pr_IAT pf" "pc_Nonce c = pr_Nonce pf"
    unfolding check_proof_claims_Inr by auto
  with presented_carried[OF jc(1)] that show ?thesis by blast
qed

section \<open>Proving then verifying\<close>

text \<open>What the JSON codec promises of one proof: the header gives back its key, which has no private
  member, both as a proof header and as a token header without a key id, and the payload reads back.\<close>

definition proof_codec_ok :: "('a dpop_env_scheme) \<Rightarrow> jwk \<Rightarrow> proof_claims \<Rightarrow> bool" where
  "proof_codec_ok E j c \<longleftrightarrow>
    (let hdr = Marshal_proof_header E ''EdDSA'' dpop_Typ j; pay = Marshal_proof_claims E c in
     hdr \<noteq> [] \<and> pay \<noteq> [] \<and> Unmarshal_proof_claims E pay = Some c \<and> Unmarshal_claims E pay \<noteq> None \<and>
     (\<exists>raw. Unmarshal_proof_header E hdr = Some \<lparr>ph_Alg = ''EdDSA'', ph_Typ = dpop_Typ, ph_JWK = raw\<rparr> \<and>
        raw \<noteq> [] \<and> rejectPrivateJWK E raw = None \<and> Unmarshal_jwk E raw = Some j) \<and>
     Unmarshal_header E hdr = Some \<lparr>h_alg = ''EdDSA'', h_typ = dpop_Typ, h_kid = []\<rparr>)"

lemma trim_compact: "TrimSpace (signer_Sign E s h p) = signer_Sign E s h p"
  using B64Encode_no_space b64_not_space(2)
  by (intro TrimSpace_plain) (auto simp: signer_Sign_def Let_def)

lemma signed_proof_carried:
  assumes "ed25519_laws E (sg_seed s)" "proof_codec_ok E (PublicMembers (signer_PublicJWK E s)) c"
    and "header_Get (hr_Header r) ''DPoP'' =
      signer_Sign E s (Marshal_proof_header E ''EdDSA'' dpop_Typ (PublicMembers (signer_PublicJWK E s)))
        (Marshal_proof_claims E c)"
  shows "proof_carried E r (PublicMembers (signer_PublicJWK E s)) c"
proof -
  let ?j = "PublicMembers (signer_PublicJWK E s)"
  let ?hdr = "Marshal_proof_header E ''EdDSA'' dpop_Typ ?j" and ?pay = "Marshal_proof_claims E c"
  let ?p0 = "B64Encode ?hdr" and ?p1 = "B64Encode ?pay"
  let ?sig = "ed25519_Sign E (sg_seed s) (?p0 @ ''.'' @ ?p1)"
  have raw: "signer_Sign E s ?hdr ?pay = ?p0 @ ''.'' @ ?p1 @ ''.'' @ B64Encode ?sig"
    by (simp add: signer_Sign_def Let_def)
  have j: "?j = empty_jwk\<lparr>k_kty := ''OKP'', k_crv := ''Ed25519'', k_x := B64Encode (ed25519_Public E (sg_seed s))\<rparr>"
    by (simp add: PublicMembers_def signer_PublicJWK_def)
  have fold: "\<not> EqualFold ''EdDSA'' ''none''"
    by (simp add: EqualFold_def ascii_lower_def)
  obtain cl where cl: "Unmarshal_claims E ?pay = Some cl"
    using assms(2) by (auto simp: proof_codec_ok_def Let_def)
  have "signed_as E (signer_Sign E s ?hdr ?pay) [?j] \<lparr>h_alg = ''EdDSA'', h_typ = dpop_Typ, h_kid = []\<rparr> cl ?j"
    unfolding signed_as_def raw split_compact
    using assms(1,2) fold cl
    by (simp add: proof_codec_ok_def Let_def ed25519_laws_def verifySig_def jwk_ed25519_def matchAlg_def
        selectKey_def key_matches_def j empty_jwk_def)
  then have "is_ok (jws_Verify E (signer_Sign E s ?hdr ?pay) [?j])"
    using jws_Verify_Inr_iff[THEN iffD2, OF exI] by (metis is_ok_simps(2))
  moreover obtain kraw where kraw: "Unmarshal_proof_header E ?hdr
      = Some \<lparr>ph_Alg = ''EdDSA'', ph_Typ = dpop_Typ, ph_JWK = kraw\<rparr>"
    "kraw \<noteq> []" "rejectPrivateJWK E kraw = None" "Unmarshal_jwk E kraw = Some ?j"
    using assms(2) by (auto simp: proof_codec_ok_def Let_def)
  moreover have "split_on CHR ''.'' (signer_Sign E s ?hdr ?pay) = [?p0, ?p1, B64Encode ?sig]"
    unfolding raw split_compact ..
  ultimately show ?thesis
    unfolding proof_carried_def assms(3) trim_compact Let_def
    using assms(1,2) fold
    by (intro exI[of _ ?p0] exI[of _ ?p1] exI[of _ "B64Encode ?sig"] exI[of _ ?hdr] exI[of _ ?pay]
        exI[of _ "\<lparr>ph_Alg = ''EdDSA'', ph_Typ = dpop_Typ, ph_JWK = kraw\<rparr>"])
      (simp add: proof_codec_ok_def Let_def ed25519_laws_def)
qed

text \<open>A client and a server see the same URI if the server is reached under the host the client names
  and over TLS exactly if the client's scheme is https.\<close>

definition same_target :: "http_request \<Rightarrow> http_request \<Rightarrow> bool" where
  "same_target out inb \<longleftrightarrow>
    OutboundURI (Some out) = RequestURI (Some inb) \<and> is_ok (RequestURI (Some inb)) \<and>
    hr_Method out = hr_Method inb \<and> hr_Method inb \<noteq> []"

lemma same_targetI:
  assumes "hr_URL out = Some u" "map ascii_lower (ur_Scheme u) = (if hr_TLS inb then ''https'' else ''http'')"
    and "(if is_blank (hr_Host out) then ur_Host u else hr_Host out) = hr_Host inb" "\<not> is_blank (hr_Host inb)"
    and "escapedPath out = escapedPath inb" "hr_Method out = hr_Method inb" "hr_Method inb \<noteq> []"
  shows "same_target out inb"
proof -
  have "OutboundURI (Some out) = Inr (expected_uri inb)"
    using assms by (simp add: OutboundURI_def expected_uri_def Let_def)
  moreover have "RequestURI (Some inb) = Inr (expected_uri inb)" using assms(4) by (simp add: RequestURI_Inr)
  ultimately show ?thesis using assms(6,7) by (simp add: same_target_def)
qed

lemma Thumbprint_signer:
  assumes "ed25519_laws E (sg_seed s)"
  shows "Thumbprint E (signer_PublicJWK E s) = Inr (projr (Thumbprint E (signer_PublicJWK E s)))"
proof -
  from assms have "ed25519_Public E (sg_seed s) \<noteq> []" by (auto simp: ed25519_laws_def)
  then show ?thesis by (simp add: Thumbprint_def thumbprintMembers_def signer_PublicJWK_def)
qed

text \<open>The proof a key holder makes for a request verifies at the server for that key.\<close>

lemma prove_verify:
  assumes prove: "ProveWithNonce E wall rnd (Some k) (hr_Method out) htu tok now nonce = Inr raw"
    and key: "SignerFromKeyFile k = Inr s" "ed25519_laws E (sg_seed s)"
    and codec: "proof_codec_ok E (PublicMembers (signer_PublicJWK E s)) (proof_of rnd E (hr_Method out) htu tok (unix now) nonce)"
    and target: "same_target out inb" "OutboundURI (Some out) = Inr htu"
    and hdr: "header_Get (hr_Header inb) ''DPoP'' = raw"
    and clock: "now \<noteq> zero_time" "now' \<noteq> zero_time" "0 < unix now" "unix now < 2 ^ 62" "0 \<le> unix now'" "unix now' < 2 ^ 62"
      "unix now' \<le> unix now + 30" "unix now \<le> unix now' + 30"
    and want: "want = (if tok = [] then [] else projr (Thumbprint E (signer_PublicJWK E s)))" "tok \<noteq> [] \<Longrightarrow> want \<noteq> []"
    and sum: "\<And>m. sha256_Sum E m \<noteq> []"
  shows "dpop_Verify E wall (Some inb) tok want now' =
    Inr \<lparr>pr_JTI = dpop_newJTI rnd, pr_IAT = unix now,
         pr_JKT = projr (Thumbprint E (signer_PublicJWK E s)), pr_Nonce = TrimSpace nonce\<rparr>"
proof -
  let ?j = "PublicMembers (signer_PublicJWK E s)"
  let ?c = "proof_of rnd E (hr_Method out) htu tok (unix now) nonce"
  have raw: "raw = signer_Sign E s (Marshal_proof_header E ''EdDSA'' dpop_Typ ?j) (Marshal_proof_claims E ?c)"
    using prove key(1) clock(1) by (simp add: ProveWithNonce_def Let_def)
  have carried: "proof_carried E inb ?j ?c"
    by (rule signed_proof_carried[OF key(2) codec]) (simp add: hdr raw)
  have uri: "\<not> is_blank (hr_Host inb)" "htu = expected_uri inb" "htu \<noteq> []"
    using target RequestURI_Inr[of inb htu] by (simp_all add: same_target_def expected_uri_def)
  have meth: "hr_Method out = hr_Method inb" "hr_Method inb \<noteq> []"
    using target(1) by (simp_all add: same_target_def)
  have th: "Thumbprint E ?j = Inr (projr (Thumbprint E (signer_PublicJWK E s)))"
    unfolding Thumbprint_PublicMembers by (rule Thumbprint_signer[OF key(2)])
  have i: "i64 (unix now + 30) = unix now + 30" "i64 (unix now' + 30) = unix now' + 30"
    using clock by (simp_all add: i64_id in_i64_def)
  have "check_proof_claims E wall inb (tok = []) tok want now' ?j ?c
    = Inr \<lparr>pr_JTI = dpop_newJTI rnd, pr_IAT = unix now,
         pr_JKT = projr (Thumbprint E (signer_PublicJWK E s)), pr_Nonce = TrimSpace nonce\<rparr>"
    unfolding check_proof_claims_Inr
    using uri meth th i clock want sum
    by (auto simp: proof_of_def dpop_newJTI_def AccessTokenHash_def)
  with carried want show ?thesis
    unfolding dpop_Verify_Inr by (intro conjI exI[of _ ?j] exI[of _ ?c]) auto
qed

section \<open>A concrete instance of the parameters\<close>

definition example_dpop_env :: "claims list \<Rightarrow> proof_claims list \<Rightarrow> dpop_env" where
  "example_dpop_env cs pcs = token_env.extend (example_env cs)
    \<lparr>Marshal_proof_header = (\<lambda>alg typ j. CHR ''d'' # k_x j),
     Unmarshal_proof_header = (\<lambda>b. case b of [] \<Rightarrow> None
       | _ # x \<Rightarrow> Some \<lparr>ph_Alg = ''EdDSA'', ph_Typ = dpop_Typ, ph_JWK = CHR ''j'' # x\<rparr>),
     Member_names = (\<lambda>b. Some [''kty'', ''crv'', ''x'']),
     Unmarshal_jwk = (\<lambda>b. case b of [] \<Rightarrow> None
       | _ # x \<Rightarrow> Some (empty_jwk\<lparr>k_kty := ''OKP'', k_crv := ''Ed25519'', k_x := x\<rparr>)),
     Marshal_proof_claims = (\<lambda>c. CHR ''p'' # replicate (length (takeWhile (\<lambda>d. d \<noteq> c) pcs)) CHR ''x''),
     Unmarshal_proof_claims = (\<lambda>b. if 0 < length b \<and> length b \<le> length pcs
       then Some (pcs ! (length b - 1)) else None)\<rparr>"

lemma table_index:
  assumes "c \<in> set cs"
  shows "length (takeWhile (\<lambda>d. d \<noteq> c) cs) < length cs" "cs ! length (takeWhile (\<lambda>d. d \<noteq> c) cs) = c"
proof -
  from assms obtain xs ys where cs: "cs = xs @ c # ys" "c \<notin> set xs"
    using split_list_first by fastforce
  then have "takeWhile (\<lambda>d. d \<noteq> c) cs = xs"
    by (subst cs(1), subst takeWhile_append2) (use cs(2) in auto)
  with cs show "length (takeWhile (\<lambda>d. d \<noteq> c) cs) < length cs" "cs ! length (takeWhile (\<lambda>d. d \<noteq> c) cs) = c"
    by simp_all
qed

lemma example_dpop_signs [simp]:
  "ed25519_laws (example_dpop_env cs pcs) seed"
  "signer_PublicJWK (example_dpop_env cs pcs) s = signer_PublicJWK (example_env cs) s"
  "signer_SignClaims (example_dpop_env cs pcs) s c = signer_SignClaims (example_env cs) s c"
  "Thumbprint (example_dpop_env cs pcs) j = Thumbprint (example_env cs) j"
  using example_ed25519[of cs seed]
  by (simp_all add: ed25519_laws_def signer_PublicJWK_def signer_SignClaims_def signer_Sign_def Thumbprint_def
      example_dpop_env_def token_env.defs split: sum.split)

lemma example_dpop_codec:
  assumes "c \<in> set cs"
  shows "codec_ok (example_dpop_env cs pcs) \<lparr>h_alg = ''EdDSA'', h_typ = ''JWT'', h_kid = kid\<rparr> c"
  using example_codec[OF assms, of kid]
  by (simp add: codec_ok_def example_dpop_env_def token_env.defs)

lemma example_proof_codec:
  assumes "c \<in> set pcs"
  shows "proof_codec_ok (example_dpop_env cs pcs) (PublicMembers (signer_PublicJWK (example_env cs) s)) c"
  using table_index[OF assms]
  by (simp add: proof_codec_ok_def Let_def example_dpop_env_def token_env.defs PublicMembers_def
      signer_PublicJWK_def empty_jwk_def rejectPrivateJWK_def private_members_def Suc_le_eq
      example_env_def dpop_Typ_def)

definition example_holder :: keyfile where
  "example_holder = GenerateEd25519 (example_env []) (replicate 32 CHR ''d'') ''holder''"

definition holder_signer :: signer where
  "holder_signer = \<lparr>sg_seed = replicate 32 CHR ''d'', sg_kid = ''holder'', sg_sub = []\<rparr>"

lemma example_holder_signer: "SignerFromKeyFile example_holder = Inr holder_signer"
  by (simp add: example_holder_def holder_signer_def SignerFromKeyFile_Generate)

definition example_url :: http_url where
  "example_url = \<lparr>ur_Scheme = ''https'', ur_Host = ''gw'', ur_EscapedPath = ''/mcp'', ur_RawQuery = [],
    ur_Fragment = [], ur_Hostname = ''gw''\<rparr>"

definition example_call :: "headers \<Rightarrow> http_request" where
  "example_call h = \<lparr>hr_Method = ''POST'', hr_Host = ''gw'', hr_TLS = True, hr_URL = Some example_url,
    hr_Header = h, hr_Body = No_Body\<rparr>"

definition example_proof :: "bytes \<Rightarrow> bytes \<Rightarrow> proof_claims" where
  "example_proof tok nonce =
    proof_of ''0123456789abcdef'' (example_env []) ''POST'' ''https://gw/mcp'' tok 500 nonce"

definition holder_jkt :: bytes where
  "holder_jkt = projr (Thumbprint (example_env []) (signer_PublicJWK (example_env []) holder_signer))"

lemma example_call_uri [simp]:
  "OutboundURI (Some (example_call h)) = Inr ''https://gw/mcp''"
  "RequestURI (Some (example_call h)) = Inr ''https://gw/mcp''"
proof -
  have "\<not> is_blank ''gw''" "map ascii_lower ''https'' = ''https''" by code_simp+
  then show "OutboundURI (Some (example_call h)) = Inr ''https://gw/mcp''"
    "RequestURI (Some (example_call h)) = Inr ''https://gw/mcp''"
    by (simp_all add: OutboundURI_def RequestURI_def example_call_def example_url_def escapedPath_def Let_def)
qed

lemma holder_jkt_nonempty: "holder_jkt \<noteq> []"
  by (simp add: holder_jkt_def Thumbprint_def thumbprintMembers_def signer_PublicJWK_def example_env_def
      holder_signer_def)

lemma example_proof_of:
  "proof_of ''0123456789abcdef'' (example_dpop_env cs pcs) ''POST'' ''https://gw/mcp'' tok 500 n = example_proof tok n"
  by (simp add: proof_of_def example_proof_def AccessTokenHash_def example_dpop_env_def token_env.defs example_env_def)

lemma example_same_target: "same_target (example_call h) (example_call h')"
  by (simp add: same_target_def) (simp add: example_call_def)

lemma example_call_method: "hr_Method (example_call h) = ''POST''"
  by (simp add: example_call_def)

lemma example_clock:
  "unix 500000000000 = 500" "unix 520000000000 = 520" "500000000000 \<noteq> zero_time" "520000000000 \<noteq> zero_time"
  "zero_time \<noteq> 500000000000" "zero_time \<noteq> 520000000000"
  by (simp_all add: unix_def zero_time_def)

lemma example_sum_nonempty: "sha256_Sum (example_dpop_env cs pcs) m \<noteq> []"
  by (simp add: example_dpop_env_def token_env.defs example_env_def)

lemma trim_n: "TrimSpace ''n'' = ''n''"
  by code_simp

lemma example_holder_jkt:
  "projr (Thumbprint (example_env cs) (signer_PublicJWK (example_env cs) holder_signer)) = holder_jkt"
  by (simp add: holder_jkt_def Thumbprint_def thumbprintMembers_def signer_PublicJWK_def example_env_def
      holder_signer_def)

lemmas example_prove_simps =
  example_proof_of example_same_target example_call_method example_clock example_sum_nonempty trim_n
  example_holder_signer example_proof_codec example_holder_jkt

text \<open>A proof of the holder in a request to the gateway verifies for the holder's thumbprint.\<close>

lemma example_verified:
  assumes "example_proof tok n \<in> set pcs" "tok \<noteq> []"
    and "ProveWithNonce (example_dpop_env cs pcs) 0 ''0123456789abcdef'' (Some example_holder)
      ''POST'' ''https://gw/mcp'' tok (500 * second) n = Inr raw"
    and "header_Get h ''DPoP'' = raw"
  shows "dpop_Verify (example_dpop_env cs pcs) 0 (Some (example_call h)) tok holder_jkt (520 * second)
    = Inr \<lparr>pr_JTI = dpop_newJTI ''0123456789abcdef'', pr_IAT = 500, pr_JKT = holder_jkt, pr_Nonce = TrimSpace n\<rparr>"
proof -
  let ?E = "example_dpop_env cs pcs"
  have "dpop_Verify ?E 0 (Some (example_call h)) tok holder_jkt (520 * second)
    = Inr \<lparr>pr_JTI = dpop_newJTI ''0123456789abcdef'', pr_IAT = unix (500 * second),
       pr_JKT = projr (Thumbprint ?E (signer_PublicJWK ?E holder_signer)), pr_Nonce = TrimSpace n\<rparr>"
    by (rule prove_verify[where out = "example_call h" and htu = "''https://gw/mcp''" and k = example_holder and raw = raw])
      (use assms in \<open>simp_all add: example_prove_simps holder_jkt_nonempty\<close>, simp_all add: example_call_def)
  then show ?thesis by (simp add: example_prove_simps)
qed

section \<open>Properties\<close>

text \<open>A verified proof binds the request. Whoever passes \<^verbatim>\<open>Verify\<close> holds the private half of a public
  key that signed this proof under a JWT type of its own, without private members; the proof names
  the method and the URI the server itself sees (its scheme from the TLS state), is at most thirty
  seconds off the server's clock, and, for a resource request, the key is the one the access token
  confirms and the proof is for exactly that access token; a token request proof names none.\<close>

theorem proof_binds_request:
  assumes "dpop_Verify E wall (Some r) tok want now = Inr res" "now \<noteq> zero_time"
  shows "\<exists>j c. proof_carried E r j c \<and> Thumbprint E j = Inr (pr_JKT res) \<and>
    pc_HTM c = hr_Method r \<and> pc_HTU c = (if hr_TLS r then ''https'' else ''http'') @ ''://'' @ hr_Host r @ escapedPath r \<and>
    pr_JTI res = pc_JTI c \<and> pr_JTI res \<noteq> [] \<and> pr_Nonce res = pc_Nonce c \<and> pr_IAT res = pc_IAT c \<and>
    unix now \<le> i64 (pc_IAT c + 30) \<and> pc_IAT c \<le> i64 (unix now + 30) \<and>
    (if tok = [] then want = [] \<and> pc_ATH c = []
     else want \<noteq> [] \<and> pr_JKT res = want \<and> pc_ATH c \<noteq> [] \<and> pc_ATH c = AccessTokenHash E tok)"
proof -
  obtain j c where jc: "proof_carried E r j c"
    "check_proof_claims E wall r (tok = []) tok want now j c = Inr res" "(tok = []) = (want = [])"
    using assms(1) by (auto simp: dpop_Verify_Inr)
  then show ?thesis
    using assms(2) by (intro exI[of _ j] exI[of _ c]) (auto simp: check_proof_claims_Inr expected_uri_def Let_def)
qed

text \<open>C25: An honest client gets through. The proof that a key holder makes for an outgoing request
  verifies at a server that sees the same method and target, for the same access token and the
  thumbprint of that key, if their clocks differ by at most the skew; the client computes its URI from
  the URL it calls and the server from what it receives.\<close>

theorem proof_then_verified:
  assumes "ProveWithNonce E wall rnd (Some k) (hr_Method out) htu tok now nonce = Inr raw"
    and "SignerFromKeyFile k = Inr s" "ed25519_laws E (sg_seed s)" "\<And>m. sha256_Sum E m \<noteq> []"
    and "proof_codec_ok E (PublicMembers (signer_PublicJWK E s)) (proof_of rnd E (hr_Method out) htu tok (unix now) nonce)"
    and "same_target out inb" "OutboundURI (Some out) = Inr htu" "header_Get (hr_Header inb) ''DPoP'' = raw"
    and "now \<noteq> zero_time" "now' \<noteq> zero_time" "0 < unix now" "unix now < 2 ^ 62" "0 \<le> unix now'" "unix now' < 2 ^ 62"
    and "unix now' \<le> unix now + 30" "unix now \<le> unix now' + 30"
    and "want = (if tok = [] then [] else projr (Thumbprint E (signer_PublicJWK E s)))"
  shows "dpop_Verify E wall (Some inb) tok want now' =
    Inr \<lparr>pr_JTI = dpop_newJTI rnd, pr_IAT = unix now,
         pr_JKT = projr (Thumbprint E (signer_PublicJWK E s)), pr_Nonce = TrimSpace nonce\<rparr>"
proof (rule prove_verify)
  show "tok \<noteq> [] \<Longrightarrow> want \<noteq> []"
    using assms(17) Thumbprint_nonempty[OF Thumbprint_signer[OF assms(3)] assms(4)] by simp
qed (use assms in simp_all)

theorem proof_then_verified_witness:
  "\<exists>raw. ProveWithNonce (example_dpop_env [] [example_proof ''tok'' ''n'']) 0 ''0123456789abcdef'' (Some example_holder)
      ''POST'' ''https://gw/mcp'' ''tok'' (500 * second) ''n'' = Inr raw \<and>
    dpop_Verify (example_dpop_env [] [example_proof ''tok'' ''n'']) 0
      (Some (example_call (header_Set Map.empty ''DPoP'' raw))) ''tok'' holder_jkt (520 * second)
    = Inr \<lparr>pr_JTI = dpop_newJTI ''0123456789abcdef'', pr_IAT = 500, pr_JKT = holder_jkt, pr_Nonce = ''n''\<rparr>"
proof -
  define pcs where "pcs = [example_proof ''tok'' ''n'']"
  obtain raw where raw: "ProveWithNonce (example_dpop_env [] pcs) 0 ''0123456789abcdef'' (Some example_holder)
      ''POST'' ''https://gw/mcp'' ''tok'' (500 * second) ''n'' = Inr raw"
    by (simp add: ProveWithNonce_def example_holder_signer)
  define h where "h = header_Set Map.empty ''DPoP'' raw"
  have facts: "example_proof ''tok'' ''n'' \<in> set pcs" "header_Get h ''DPoP'' = raw"
    by (simp_all add: pcs_def h_def)
  have "dpop_Verify (example_dpop_env [] pcs) 0 (Some (example_call h)) ''tok'' holder_jkt (520 * second)
    = Inr \<lparr>pr_JTI = dpop_newJTI ''0123456789abcdef'', pr_IAT = unix (500 * second),
       pr_JKT = projr (Thumbprint (example_dpop_env [] pcs) (signer_PublicJWK (example_dpop_env [] pcs) holder_signer)),
       pr_Nonce = TrimSpace ''n''\<rparr>"
    by (rule proof_then_verified[where out = "example_call h" and htu = "''https://gw/mcp''" and k = example_holder and raw = raw])
      (use raw facts in \<open>simp_all add: example_prove_simps\<close>, simp_all add: example_call_def)
  with raw show ?thesis by (simp add: example_prove_simps flip: pcs_def h_def)
qed

theorem proof_binds_request_witness:
  "\<exists>raw res. dpop_Verify (example_dpop_env [] [example_proof ''tok'' ''n'']) 0
      (Some (example_call (header_Set Map.empty ''DPoP'' raw))) ''tok'' holder_jkt (520 * second) = Inr res \<and>
    pr_JKT res = holder_jkt \<and> pr_JTI res \<noteq> []"
proof -
  obtain raw where "ProveWithNonce (example_dpop_env [] [example_proof ''tok'' ''n'']) 0 ''0123456789abcdef''
      (Some example_holder) ''POST'' ''https://gw/mcp'' ''tok'' (500 * second) ''n'' = Inr raw"
    by (simp add: ProveWithNonce_def example_holder_signer)
  from example_verified[OF _ _ this, of "header_Set Map.empty ''DPoP'' raw"]
  have v: "dpop_Verify (example_dpop_env [] [example_proof ''tok'' ''n'']) 0
      (Some (example_call (header_Set Map.empty ''DPoP'' raw))) ''tok'' holder_jkt (520 * second)
    = Inr \<lparr>pr_JTI = dpop_newJTI ''0123456789abcdef'', pr_IAT = 500, pr_JKT = holder_jkt, pr_Nonce = TrimSpace ''n''\<rparr>"
    by simp
  have z: "520 * second \<noteq> zero_time" by (simp add: example_clock)
  from proof_binds_request[OF v z] have "holder_jkt = holder_jkt \<and> dpop_newJTI ''0123456789abcdef'' \<noteq> []" by auto
  with v show ?thesis by (intro exI[of _ raw]) auto
qed

end
