(* ===== verification/Nonce.thy ===== *)
theory Nonce
  imports Guards Http
begin

text \<open>
  \<^verbatim>\<open>internal/dpop/nonce.go\<close>: the nonces the gateway hands out and takes back once. A nil cache is
  \<open>None\<close>; a zero \<^verbatim>\<open>now\<close> means the cache's own clock, the argument \<open>wall\<close>. The cache is an instance of the
  single-use guard, so no nonce is accepted twice.
\<close>

definition NonceHeader :: bytes where "NonceHeader = ''DPoP-Nonce''"
definition NonceTTL :: duration where "NonceTTL = 120 * second"

record nonce_cache =
  nc_issued :: "bytes \<rightharpoonup> int"

definition NewNonceCache :: nonce_cache where
  "NewNonceCache = \<lparr>nc_issued = Map.empty\<rparr>"

definition gcLocked :: "nonce_cache \<Rightarrow> int \<Rightarrow> nonce_cache" where
  "gcLocked c nowUnix =
    c\<lparr>nc_issued := (\<lambda>n. case nc_issued c n of
        None \<Rightarrow> None | Some until \<Rightarrow> if until < nowUnix then None else Some until)\<rparr>"

definition nonce_of :: "bytes \<Rightarrow> bytes" where
  "nonce_of rnd = ''n-'' @ hex_encode rnd"

definition nonce_Issue ::
  "instant \<Rightarrow> bytes \<Rightarrow> nonce_cache option \<Rightarrow> instant \<Rightarrow> bytes \<times> nonce_cache option" where
  "nonce_Issue wall rnd c now =
    (case c of
       None \<Rightarrow> ([], None)
     | Some s \<Rightarrow>
         (let now' = (if now = zero_time then wall else now);
              n = nonce_of rnd;
              s' = gcLocked s (unix now')
          in (n, Some (s'\<lparr>nc_issued := (nc_issued s')(n \<mapsto> unix (now' + NonceTTL))\<rparr>))))"

definition nonce_Has :: "instant \<Rightarrow> nonce_cache option \<Rightarrow> bytes \<Rightarrow> instant \<Rightarrow> bool" where
  "nonce_Has wall c nonce now =
    (case c of
       None \<Rightarrow> False
     | Some s \<Rightarrow>
         if is_blank nonce then False
         else (case nc_issued s nonce of
           None \<Rightarrow> False
         | Some until \<Rightarrow> until \<ge> unix (if now = zero_time then wall else now)))"

definition nonce_Consume ::
  "instant \<Rightarrow> nonce_cache option \<Rightarrow> bytes \<Rightarrow> instant \<Rightarrow> bool \<times> nonce_cache option" where
  "nonce_Consume wall c nonce now =
    (case c of
       None \<Rightarrow> (False, None)
     | Some s \<Rightarrow>
         if is_blank nonce then (False, Some s)
         else
           (let gone = Some (s\<lparr>nc_issued := (nc_issued s)(nonce := None)\<rparr>) in
            case nc_issued s nonce of
              None \<Rightarrow> (False, gone)
            | Some until \<Rightarrow>
                if until < unix (if now = zero_time then wall else now) then (False, gone) else (True, gone)))"

text \<open>The nonce of a challenge response, empty if it is none.\<close>

definition NonceFromChallenge :: "'b http_response option \<Rightarrow> bytes" where
  "NonceFromChallenge resp =
    (case resp of
       None \<Rightarrow> []
     | Some r \<Rightarrow>
         if rs_Status r \<noteq> StatusUnauthorized then []
         else if \<not> strings_Contains (header_Get (rs_Header r) ''WWW-Authenticate'') ''use_dpop_nonce'' then []
         else TrimSpace (header_Get (rs_Header r) NonceHeader))"

section \<open>Runs\<close>

datatype nonce_op = Op_Issue bytes instant | Op_Has bytes instant | Op_Consume bytes instant

text \<open>One operation; the answer is whether a nonce was taken back with success.\<close>

definition nonce_step :: "instant \<Rightarrow> nonce_cache option \<Rightarrow> nonce_op \<Rightarrow> nonce_cache option \<times> bool" where
  "nonce_step wall c op =
    (case op of
       Op_Issue rnd now \<Rightarrow> (snd (nonce_Issue wall rnd c now), False)
     | Op_Has n now \<Rightarrow> (c, False)
     | Op_Consume n now \<Rightarrow> (case nonce_Consume wall c n now of (ok, c') \<Rightarrow> (c', ok)))"

definition nonce_key :: "nonce_op \<Rightarrow> bytes option" where
  "nonce_key op = (case op of Op_Consume n now \<Rightarrow> Some n | _ \<Rightarrow> None)"

definition nonce_gone :: "nonce_cache option \<Rightarrow> bytes \<Rightarrow> int \<Rightarrow> bool" where
  "nonce_gone c n t \<longleftrightarrow> (case c of None \<Rightarrow> True | Some s \<Rightarrow> nc_issued s n = None)"

definition reissues :: "nonce_op \<Rightarrow> bytes \<Rightarrow> bool" where
  "reissues op n \<longleftrightarrow> (case op of Op_Issue rnd now \<Rightarrow> nonce_of rnd = n | _ \<Rightarrow> False)"

interpretation nonce_guard: single_use "nonce_step wall" nonce_key "\<lambda>op. 0" nonce_gone reissues for wall
proof unfold_locales
  show "nonce_key op = Some k \<Longrightarrow> snd (nonce_step wall s op) \<Longrightarrow> nonce_gone (fst (nonce_step wall s op)) k t"
    for op k s t
    by (cases op; cases s)
      (auto simp: nonce_step_def nonce_key_def nonce_gone_def nonce_Consume_def Let_def split: option.splits if_splits)
  show "nonce_key op = Some k \<Longrightarrow> nonce_gone s k 0 \<Longrightarrow> \<not> snd (nonce_step wall s op)" for op k s
    by (cases op; cases s)
      (auto simp: nonce_step_def nonce_key_def nonce_gone_def nonce_Consume_def Let_def)
  show "nonce_gone s k t \<Longrightarrow> \<not> reissues op k \<Longrightarrow> nonce_gone (fst (nonce_step wall s op)) k t" for op k s t
    by (cases op; cases s)
      (auto simp: nonce_step_def nonce_gone_def reissues_def nonce_Issue_def nonce_Consume_def gcLocked_def Let_def
        split: option.splits if_splits)
qed

lemma nonce_of_not_blank: "\<not> is_blank (nonce_of rnd)"
  unfolding nonce_of_def append_Cons
  by (rule not_blankI) (auto simp: strip_space_def strip_any_None_iff space_encodings_def)

lemma sorted_const: "sorted (map (\<lambda>op. 0 :: int) ops)"
  by (induction ops) simp_all

section \<open>Properties\<close>

text \<open>A nonce is good once. In any sequence of issues, look-ups and consumptions in which the
  random source does not issue the same nonce twice after its first use, a nonce is consumed with
  success at most once, however the clock moves.\<close>

theorem nonce_consumed_once:
  assumes "list_all (\<lambda>op. \<not> reissues op n) ops"
  shows "uses nonce_key n ops (answers (nonce_step wall) c ops) \<le> 1"
  by (rule nonce_guard.used_at_most_once) (use assms in \<open>simp_all add: list_all_iff sorted_const\<close>)

theorem nonce_consumed_once_witness:
  "uses nonce_key ''n-61'' [Op_Consume ''n-61'' (5 * second), Op_Consume ''n-61'' (5 * second)]
     (answers (nonce_step 0) (snd (nonce_Issue 0 ''a'' (Some NewNonceCache) second))
       [Op_Consume ''n-61'' (5 * second), Op_Consume ''n-61'' (5 * second)]) \<le> 1"
  by (rule nonce_consumed_once) (simp add: reissues_def)

text \<open>How long a nonce is good. Freshly issued, a nonce is accepted from then on until two minutes
  have passed and no longer, and consuming it reports exactly what looking it up would.\<close>

theorem nonce_window:
  "nonce_Has wall (snd (nonce_Issue wall rnd (Some s) t0)) (nonce_of rnd) t =
     (unix (if t = zero_time then wall else t) \<le> unix (if t0 = zero_time then wall else t0) + 120) \<and>
   fst (nonce_Consume wall c n t) = nonce_Has wall c n t \<and>
   fst (nonce_Issue wall rnd (Some s) t0) = nonce_of rnd"
proof -
  have "unix (t' + NonceTTL) = unix t' + 120" for t'
    using unix_add_seconds[of t' 120] by (simp add: NonceTTL_def)
  then have "nonce_Has wall (snd (nonce_Issue wall rnd (Some s) t0)) (nonce_of rnd) t =
     (unix (if t = zero_time then wall else t) \<le> unix (if t0 = zero_time then wall else t0) + 120)"
    using nonce_of_not_blank[of rnd] by (simp add: nonce_Has_def nonce_Issue_def Let_def)
  moreover have "fst (nonce_Consume wall c n t) = nonce_Has wall c n t"
    by (cases c) (auto simp: nonce_Consume_def nonce_Has_def Let_def split: option.split)
  ultimately show ?thesis by (simp add: nonce_Issue_def Let_def)
qed

end
