(* ===== verification/Form.thy ===== *)
theory Form
  imports Http Scopes
begin

text \<open>
  What the program uses of \<^verbatim>\<open>net/url\<close> and of the form parser of \<^verbatim>\<open>net/http\<close>: the encoding that a client of
  the STS posts (\<^verbatim>\<open>url.Values.Encode\<close>) and the decoding on the server (\<^verbatim>\<open>Request.ParseForm\<close>), with its
  errors and its body limit. The media type parser is a parameter. Decoding gives back every value
  that was encoded.
\<close>

section \<open>Escapes\<close>

definition upper_hex :: "nat \<Rightarrow> char" where
  "upper_hex n = (if n < 10 then char_of (48 + n) else char_of (55 + n))"

definition unhex :: "char \<Rightarrow> nat option" where
  "unhex c =
    (let n = of_char c :: nat in
     if 48 \<le> n \<and> n \<le> 57 then Some (n - 48)
     else if 97 \<le> n \<and> n \<le> 102 then Some (n - 87)
     else if 65 \<le> n \<and> n \<le> 70 then Some (n - 55)
     else None)"

definition unreserved :: "char \<Rightarrow> bool" where
  "unreserved c \<longleftrightarrow>
    (let n = of_char c :: nat in
     48 \<le> n \<and> n \<le> 57 \<or> 65 \<le> n \<and> n \<le> 90 \<or> 97 \<le> n \<and> n \<le> 122 \<or> c \<in> set ''-_.~'')"

definition escape_char :: "char \<Rightarrow> bytes" where
  "escape_char c =
    (if unreserved c then [c] else if c = CHR '' '' then ''+''
     else (let n = of_char c :: nat in [CHR ''%'', upper_hex (n div 16), upper_hex (n mod 16)]))"

definition QueryEscape :: "bytes \<Rightarrow> bytes" where
  "QueryEscape s = concat (map escape_char s)"

fun QueryUnescape :: "bytes \<Rightarrow> bytes option" where
  "QueryUnescape [] = Some []"
| "QueryUnescape (c # s) =
    (if c = CHR ''%'' then
       (case s of
          a # b # t \<Rightarrow>
            (case (unhex a, unhex b) of
               (Some x, Some y) \<Rightarrow> map_option ((#) (char_of (16 * x + y))) (QueryUnescape t)
             | _ \<Rightarrow> None)
        | _ \<Rightarrow> None)
     else map_option ((#) (if c = CHR ''+'' then CHR '' '' else c)) (QueryUnescape s))"

section \<open>Forms\<close>

text \<open>A form with one value for each key, encoded in the order of the keys.\<close>

type_synonym form = "(bytes \<times> bytes) list"

definition encode_pair :: "bytes \<times> bytes \<Rightarrow> bytes" where
  "encode_pair kv = QueryEscape (fst kv) @ ''='' @ QueryEscape (snd kv)"

definition form_Encode :: "form \<Rightarrow> bytes" where
  "form_Encode kvs = strings_Join ''&'' (map encode_pair (sort_key fst kvs))"

fun parse_pairs :: "bytes list \<Rightarrow> form option" where
  "parse_pairs [] = Some []"
| "parse_pairs (p # ps) =
    (if CHR '';'' \<in> set p then None
     else if p = [] then parse_pairs ps
     else (case strings_Cut CHR ''='' p of (k, v, _) \<Rightarrow>
       (case (QueryUnescape k, QueryUnescape v) of
          (Some k', Some v') \<Rightarrow> map_option ((#) (k', v')) (parse_pairs ps)
        | _ \<Rightarrow> None)))"

definition ParseQuery :: "bytes \<Rightarrow> form option" where
  "ParseQuery q = parse_pairs (split_on CHR ''&'' q)"

definition values_Get :: "form \<Rightarrow> bytes \<Rightarrow> bytes" where
  "values_Get f k = (case map_of f k of None \<Rightarrow> [] | Some v \<Rightarrow> v)"

text \<open>The bytes a server reads from a body.\<close>

definition body_bytes :: "req_body \<Rightarrow> bytes" where
  "body_bytes b = (case b of No_Body \<Rightarrow> [] | Body_Once s \<Rightarrow> s | Body_Again s \<Rightarrow> s | Body_Broken s e \<Rightarrow> s)"

definition form_media :: bytes where "form_media = ''application/x-www-form-urlencoded''"

text \<open>\<^verbatim>\<open>ParseForm\<close> behind a \<^verbatim>\<open>MaxBytesReader\<close>: the values of the body come before those of the query.
  \<open>media\<close> is \<^verbatim>\<open>mime.ParseMediaType\<close>, \<open>read_ok\<close> whether the body could be read to its end.\<close>

definition post_form :: "(bytes \<Rightarrow> bytes option) \<Rightarrow> nat \<Rightarrow> bool \<Rightarrow> http_request \<Rightarrow> form option" where
  "post_form media limit read_ok r =
    (if hr_Method r \<notin> {''POST'', ''PUT'', ''PATCH''} then Some []
     else (let ct = header_Get (hr_Header r) ''Content-Type'' in
       case media (if ct = [] then ''application/octet-stream'' else ct) of
         None \<Rightarrow> None
       | Some mt \<Rightarrow>
           if mt \<noteq> form_media then Some []
           else if \<not> read_ok \<or> length (body_bytes (hr_Body r)) > limit then None
           else ParseQuery (body_bytes (hr_Body r))))"

definition ParseForm :: "(bytes \<Rightarrow> bytes option) \<Rightarrow> nat \<Rightarrow> bool \<Rightarrow> http_request \<Rightarrow> form option" where
  "ParseForm media limit read_ok r =
    (case (post_form media limit read_ok r,
           case hr_URL r of None \<Rightarrow> Some [] | Some u \<Rightarrow> ParseQuery (ur_RawQuery u)) of
       (Some a, Some b) \<Rightarrow> Some (a @ b)
     | _ \<Rightarrow> None)"

section \<open>Decoding what was encoded\<close>

lemma unhex_upper_hex: "n < 16 \<Longrightarrow> unhex (upper_hex n) = Some n"
  by (auto simp: unhex_def upper_hex_def Let_def)

lemma hex_parts:
  "(of_char c :: nat) div 16 < 16" "(of_char c :: nat) mod 16 < 16"
  by (simp_all add: less_mult_imp_div_less)

text \<open>No separator occurs in an escaped string.\<close>

definition form_char :: "char \<Rightarrow> bool" where
  "form_char c \<longleftrightarrow> c \<notin> {CHR ''&'', CHR ''='', CHR '';''}"

lemma form_char_simps [simp]:
  "unreserved c \<Longrightarrow> form_char c" "form_char CHR ''+''" "form_char CHR ''%''"
  "n < 16 \<Longrightarrow> form_char (upper_hex n)"
proof -
  show "unreserved c \<Longrightarrow> form_char c"
    by (auto simp: unreserved_def form_char_def Let_def)
  show "form_char (upper_hex n)" if "n < 16"
    using unhex_upper_hex[OF that] by (auto simp: form_char_def unhex_def)
qed (simp_all add: form_char_def)

lemma escape_char_chars: "list_all form_char (escape_char c)"
  using hex_parts[of c] by (simp add: escape_char_def Let_def)

lemma escape_chars: "c \<in> set (QueryEscape s) \<Longrightarrow> form_char c"
  using escape_char_chars by (fastforce simp: QueryEscape_def list_all_iff)

lemma unreserved_plain: "unreserved c \<Longrightarrow> c \<noteq> CHR ''%'' \<and> c \<noteq> CHR ''+''"
  by (auto simp: unreserved_def Let_def)

lemma QueryUnescape_escape_char: "QueryUnescape (escape_char c @ t) = map_option ((#) c) (QueryUnescape t)"
proof -
  let ?n = "of_char c :: nat"
  have "unhex (upper_hex (?n div 16)) = Some (?n div 16)" "unhex (upper_hex (?n mod 16)) = Some (?n mod 16)"
    using hex_parts[of c] by (simp_all add: unhex_upper_hex)
  then show ?thesis
    using unreserved_plain[of c] by (auto simp: escape_char_def Let_def mult.commute)
qed

lemma QueryUnescape_escape: "QueryUnescape (QueryEscape s) = Some s"
proof -
  have "QueryUnescape (QueryEscape s @ t) = map_option ((@) s) (QueryUnescape t)" for t
    by (induction s) (simp_all add: QueryEscape_def QueryUnescape_escape_char option.map_comp comp_def
        option.map_ident)
  from this[of "[]"] show ?thesis by simp
qed

lemma strings_Cut_pair:
  "strings_Cut CHR ''='' (encode_pair kv) = (QueryEscape (fst kv), QueryEscape (snd kv), True)"
proof -
  have "CHR ''='' \<notin> set (QueryEscape (fst kv))" using escape_chars by (auto simp: form_char_def)
  then show ?thesis by (auto simp: strings_Cut_def encode_pair_def takeWhile_append dropWhile_append)
qed

lemma encode_pair_chars: "c \<in> set (encode_pair kv) \<Longrightarrow> c \<noteq> CHR ''&'' \<and> c \<noteq> CHR '';''"
  using escape_chars by (fastforce simp: encode_pair_def form_char_def)

lemma parse_encoded: "parse_pairs (map encode_pair kvs) = Some kvs"
proof (induction kvs)
  case (Cons kv kvs)
  have "encode_pair kv \<noteq> []" by (simp add: encode_pair_def)
  with Cons show ?case
    using encode_pair_chars[of _ kv] by (auto simp: strings_Cut_pair QueryUnescape_escape)
qed simp

lemma split_Join_amp:
  "(\<And>t. t \<in> set ts \<Longrightarrow> CHR ''&'' \<notin> set t) \<Longrightarrow> ts \<noteq> [] \<Longrightarrow> split_on CHR ''&'' (strings_Join ''&'' ts) = ts"
proof (induction "''&''" ts rule: strings_Join.induct)
  case (2 t)
  then show ?case by (simp add: split_on_no_sep)
next
  case (3 t u ts)
  then show ?case using split_on_append[of "CHR ''&''" t] by simp
qed simp

lemma ParseQuery_Encode: "ParseQuery (form_Encode kvs) = Some (sort_key fst kvs)"
proof (cases "kvs = []")
  case True
  then show ?thesis by (simp add: ParseQuery_def form_Encode_def)
next
  case False
  let ?ts = "map encode_pair (sort_key fst kvs)"
  have "?ts \<noteq> []" using False by (metis map_is_Nil_conv set_empty set_sort)
  then have "split_on CHR ''&'' (strings_Join ''&'' ?ts) = ?ts"
    by (intro split_Join_amp) (auto dest: encode_pair_chars)
  then show ?thesis by (simp add: ParseQuery_def form_Encode_def parse_encoded)
qed

lemma map_of_sort_key: "map_of (sort_key fst (kvs :: form)) k = map_of kvs k"
proof -
  have "map_of al k = (case filter (\<lambda>kv. fst kv = k) al of [] \<Rightarrow> None | kv # _ \<Rightarrow> Some (snd kv))"
    for al :: form by (induction al) auto
  then show ?thesis by (simp add: sort_key_stable)
qed

end
