(* ===== verification/A2a.thy ===== *)
theory A2a
  imports Dpop Nonce Verifier Sts Form
begin

text \<open>
  \<^verbatim>\<open>internal/a2a\<close>: the client side of a hop. The tripper exchanges the caller's token for one for the
  destination, puts it into the request with a proof of possession, and answers one nonce challenge;
  the middleware is the server side. The exchanger, the transport, the source of actor tokens and the
  source of proof keys are arguments; the requests handed to the transport are part of the result.
\<close>

section \<open>The credential in a header\<close>

fun first_scheme :: "bytes \<Rightarrow> bytes list \<Rightarrow> bytes" where
  "first_scheme h [] = []"
| "first_scheme h (p # ps) =
    (if length h > length p \<and> EqualFold (take (length p) h) p then TrimSpace (drop (length p) h)
     else first_scheme h ps)"

definition AccessToken :: "bytes \<Rightarrow> bytes" where
  "AccessToken h = first_scheme (TrimSpace h) [''Bearer '', ''DPoP '']"

definition BearerToken :: "bytes \<Rightarrow> bytes" where
  "BearerToken h = AccessToken h"

section \<open>The middleware\<close>

datatype middleware_result =
    Mw_Missing | Mw_Refused verifier_error | Mw_Next actor_chain bytes

definition Middleware ::
  "('a token_env_scheme) \<Rightarrow> verifier \<Rightarrow> bytes \<Rightarrow> instant \<Rightarrow> http_request \<Rightarrow> middleware_result" where
  "Middleware E v audience now r =
    (let raw = AccessToken (header_Get (hr_Header r) ''Authorization'') in
     if raw = [] then Mw_Missing
     else (case verifier_Verify E v raw audience now of
       Inl (e, _) \<Rightarrow> Mw_Refused e
     | Inr ch \<Rightarrow> Mw_Next ch raw))"

section \<open>Bodies\<close>

definition replayBodyOK :: "http_request option \<Rightarrow> bytes + (req_body \<times> bool)" where
  "replayBodyOK req =
    (case req of
       None \<Rightarrow> Inr (No_Body, True)
     | Some r \<Rightarrow> (case hr_Body r of
         No_Body \<Rightarrow> Inr (No_Body, True)
       | Body_Once b \<Rightarrow> Inr (No_Body, False)
       | Body_Again b \<Rightarrow> Inr (Body_Again b, True)
       | Body_Broken b e \<Rightarrow> Inl e))"

definition replayBody :: "http_request option \<Rightarrow> bytes + req_body" where
  "replayBody req =
    (case replayBodyOK req of
       Inl e \<Rightarrow> Inl e
     | Inr (b, ok) \<Rightarrow> Inr (if ok then b else No_Body))"

section \<open>The tripper\<close>

record tripper =
  tp_AgentID :: bytes
  tp_Audience :: bytes
  tp_Scope :: bytes

datatype trip_error =
    Trip_NoSubject | Trip_NoAudience | Trip_Actor bytes | Trip_Exchange bytes | Trip_Key bytes
  | Trip_Dpop dpop_error | Trip_Body bytes | Trip_Transport bytes

text \<open>The readings of one proof: wall clock, random bytes, the key source's answer, the client's clock.\<close>

record proof_inputs =
  pi_wall :: instant
  pi_rand :: bytes
  pi_key :: "bytes + keyfile option"
  pi_now :: instant

definition setProof ::
  "('a dpop_env_scheme) \<Rightarrow> proof_inputs \<Rightarrow> http_request \<Rightarrow> bytes \<Rightarrow> bytes \<Rightarrow> trip_error + http_request" where
  "setProof E p req accessToken nonce =
    (case pi_key p of
       Inl e \<Rightarrow> Inl (Trip_Key e)
     | Inr kf \<Rightarrow> (case OutboundURI (Some req) of
         Inl e \<Rightarrow> Inl (Trip_Dpop e)
       | Inr htu \<Rightarrow>
           (case ProveWithNonce E (pi_wall p) (pi_rand p) kf (hr_Method req) htu accessToken (pi_now p) nonce of
              Inl e \<Rightarrow> Inl (Trip_Dpop e)
            | Inr proof \<Rightarrow> Inr (req\<lparr>hr_Header := header_Set (hr_Header req) ''DPoP'' proof\<rparr>))))"

definition trip_request :: "tripper \<Rightarrow> bytes \<Rightarrow> bytes \<Rightarrow> bytes \<Rightarrow> exchange_request" where
  "trip_request t subject actor aud =
    \<lparr>rq_GrantType = GrantTokenExchange, rq_SubjectToken = subject, rq_SubjectTokenType = [],
     rq_ActorToken = actor, rq_ActorTokenType = [], rq_Audience = aud, rq_Scope = tp_Scope t,
     rq_RequestedTokenType = [], rq_AgentID = tp_AgentID t, rq_Purp = [], rq_ConfirmJKT = []\<rparr>"

definition authorized :: "http_request \<Rightarrow> bytes \<Rightarrow> bytes \<Rightarrow> http_request" where
  "authorized req scheme tok =
    req\<lparr>hr_Header := header_Set (hr_Header req) ''Authorization'' (scheme @ '' '' @ tok)\<rparr>"

text \<open>The second attempt, after a challenge with a nonce.\<close>

definition trip_retry ::
  "('a dpop_env_scheme) \<Rightarrow> (http_request \<Rightarrow> bytes + 'b http_response) \<Rightarrow> proof_inputs \<Rightarrow> http_request \<Rightarrow>
    bytes \<Rightarrow> bytes \<Rightarrow> 'b http_response \<Rightarrow> http_request list \<times> (trip_error + 'b http_response)" where
  "trip_retry E base p req tok nonce resp =
    (case replayBodyOK (Some req) of
       Inl e \<Rightarrow> ([], Inl (Trip_Body e))
     | Inr (body, ok) \<Rightarrow>
         if \<not> ok then ([], Inr resp)
         else (case setProof E p (authorized req ''DPoP'' tok) tok nonce of
           Inl e \<Rightarrow> ([], Inl e)
         | Inr retry \<Rightarrow>
             (let sent = retry\<lparr>hr_Body := body\<rparr> in
              ([sent], (case base sent of Inl e \<Rightarrow> Inl (Trip_Transport e) | Inr r \<Rightarrow> Inr r)))))"

text \<open>The first attempt: token and, with a proof key, a proof without a nonce; then its body.\<close>

definition trip_first ::
  "('a dpop_env_scheme) \<Rightarrow> proof_inputs option \<Rightarrow> http_request \<Rightarrow> bytes \<Rightarrow> trip_error + http_request" where
  "trip_first E p req tok =
    (case (case p of
             None \<Rightarrow> Inr (authorized req ''Bearer'' tok)
           | Some q \<Rightarrow> setProof E q (authorized req ''DPoP'' tok) tok []) of
       Inl e \<Rightarrow> Inl e
     | Inr clone \<Rightarrow> (case replayBody (Some req) of
         Inl e \<Rightarrow> Inl (Trip_Body e)
       | Inr body \<Rightarrow> Inr (if body \<noteq> No_Body then clone\<lparr>hr_Body := body\<rparr> else clone)))"

text \<open>\<^verbatim>\<open>RoundTrip\<close>: the subject token and the audience of the context, the answers of the actor source and
  of the exchanger, the inputs of the proofs (none without a proof key), and the transport. The result
  is what was sent and what came of it.\<close>

definition RoundTrip ::
  "('a dpop_env_scheme) \<Rightarrow> tripper \<Rightarrow> bytes + bytes \<Rightarrow> (exchange_request \<Rightarrow> bytes + exchange_result) \<Rightarrow>
    (proof_inputs \<times> proof_inputs) option \<Rightarrow> (http_request \<Rightarrow> bytes + 'b http_response) \<Rightarrow>
    bytes \<Rightarrow> bytes \<Rightarrow> http_request \<Rightarrow> http_request list \<times> (trip_error + 'b http_response)" where
  "RoundTrip E t actor exchanger proofs base subject ctx_aud req =
    (let aud = (if ctx_aud = [] then tp_Audience t else ctx_aud) in
     if subject = [] then ([], Inl Trip_NoSubject)
     else if aud = [] then ([], Inl Trip_NoAudience)
     else (case actor of
       Inl e \<Rightarrow> ([], Inl (Trip_Actor e))
     | Inr a \<Rightarrow> (case exchanger (trip_request t subject a aud) of
         Inl e \<Rightarrow> ([], Inl (Trip_Exchange e))
       | Inr res \<Rightarrow> (case trip_first E (map_option fst proofs) req (xr_Token res) of
           Inl e \<Rightarrow> ([], Inl e)
         | Inr clone \<Rightarrow> (case base clone of
             Inl e \<Rightarrow> ([clone], Inl (Trip_Transport e))
           | Inr resp \<Rightarrow> (case proofs of
               None \<Rightarrow> ([clone], Inr resp)
             | Some (p1, p2) \<Rightarrow>
                 (let nonce = NonceFromChallenge (Some resp) in
                  if nonce = [] then ([clone], Inr resp)
                  else apfst ((#) clone) (trip_retry E base p2 req (xr_Token res) nonce resp))))))))"

text \<open>\<^verbatim>\<open>LocalExchanger\<close>: an exchange in the same process; every answer but ok is an error.\<close>

definition LocalExchanger ::
  "('a sts_env_scheme) \<Rightarrow> sts_config \<Rightarrow> call_inputs \<Rightarrow> exchange_request \<Rightarrow> exchange_result + exchange_result" where
  "LocalExchanger E c i req =
    (let res = fst (Exchange E c i req) in
     if xr_ReasonCode res \<noteq> ReasonOK then Inl res else Inr res)"

section \<open>The remote exchanger\<close>

text \<open>The form that \<^verbatim>\<open>HTTPExchanger\<close> posts, field by field.\<close>

definition exchange_form :: "exchange_request \<Rightarrow> form" where
  "exchange_form req =
    [(''grant_type'', GrantTokenExchange), (''subject_token'', rq_SubjectToken req),
     (''subject_token_type'', TokenTypeJWT), (''actor_token'', rq_ActorToken req),
     (''actor_token_type'', TokenTypeJWT), (''audience'', rq_Audience req), (''agent_id'', rq_AgentID req)] @
    (if rq_Scope req \<noteq> [] then [(''scope'', rq_Scope req)] else []) @
    (if rq_Purp req \<noteq> [] then [(''purp'', rq_Purp req)] else [])"

record exchanger_env =
  xe_NewRequest :: "bytes \<Rightarrow> bytes \<Rightarrow> bytes \<Rightarrow> bytes + http_request"
  xe_ErrDoc :: "bytes \<Rightarrow> bytes \<times> bytes \<times> bytes"
  xe_OkDoc :: "bytes \<Rightarrow> bytes + (bytes \<times> int)"

datatype exchanger_error = Xe_Net bytes | Xe_Key bytes | Xe_Dpop dpop_error | Xe_Denied bytes bytes | Xe_Decode bytes

definition failed_result :: "bytes \<Rightarrow> bytes \<Rightarrow> bytes \<Rightarrow> exchange_result" where
  "failed_result reason err desc =
    \<lparr>xr_Token = [], xr_ExpiresIn = 0, xr_Issued = no_claims, xr_ReasonCode = reason, xr_Error = err,
     xr_ErrorDesc = Desc desc\<rparr>"

text \<open>The request with its content type and, with a proof key, its proof.\<close>

definition exchanger_request ::
  "('a dpop_env_scheme) \<Rightarrow> ('c exchanger_env_scheme) \<Rightarrow> bytes \<Rightarrow> proof_inputs option \<Rightarrow> exchange_request \<Rightarrow>
    exchanger_error + http_request" where
  "exchanger_request E X endpoint proof req =
    (case xe_NewRequest X ''POST'' endpoint (form_Encode (exchange_form req)) of
       Inl e \<Rightarrow> Inl (Xe_Net e)
     | Inr r0 \<Rightarrow>
         (let r = r0\<lparr>hr_Header := header_Set (hr_Header r0) ''Content-Type'' ''application/x-www-form-urlencoded''\<rparr> in
          case proof of
            None \<Rightarrow> Inr r
          | Some p \<Rightarrow> (case pi_key p of
              Inl e \<Rightarrow> Inl (Xe_Key e)
            | Inr kf \<Rightarrow> (case OutboundURI (Some r) of
                Inl e \<Rightarrow> Inl (Xe_Dpop e)
              | Inr htu \<Rightarrow> (case Prove E (pi_wall p) (pi_rand p) kf ''POST'' htu [] (pi_now p) of
                  Inl e \<Rightarrow> Inl (Xe_Dpop e)
                | Inr pr \<Rightarrow> Inr (r\<lparr>hr_Header := header_Set (hr_Header r) ''DPoP'' pr\<rparr>))))))"

definition HTTPExchanger ::
  "('a dpop_env_scheme) \<Rightarrow> ('c exchanger_env_scheme) \<Rightarrow> (http_request \<Rightarrow> bytes + bytes http_response) \<Rightarrow>
    bytes \<Rightarrow> proof_inputs option \<Rightarrow> exchange_request \<Rightarrow> exchange_result \<times> exchanger_error option" where
  "HTTPExchanger E X do endpoint proof req =
    (let none = failed_result [] [] [] in
     case exchanger_request E X endpoint proof req of
       Inl e \<Rightarrow> (none, Some e)
     | Inr r \<Rightarrow> (case do r of
         Inl e \<Rightarrow> (none, Some (Xe_Net e))
       | Inr resp \<Rightarrow>
           if rs_Status resp \<noteq> StatusOK then
             (case xe_ErrDoc X (rs_Body resp) of
                (err, desc, reason) \<Rightarrow> (failed_result reason err desc, Some (Xe_Denied reason desc)))
           else (case xe_OkDoc X (rs_Body resp) of
             Inl e \<Rightarrow> (none, Some (Xe_Decode e))
           | Inr (tok, secs) \<Rightarrow>
               (none\<lparr>xr_Token := tok, xr_ExpiresIn := secs, xr_ReasonCode := ReasonOK\<rparr>, None))))"

end
