(* ===== verification/Visor_Adapter.thy ===== *)
theory Visor_Adapter
  imports Verifier
begin

text \<open>
  \<^verbatim>\<open>internal/visoradapter\<close>: what the gateway tells the visor about a verified chain. \<open>FromChain\<close> makes the
  mapping, with a sealed actor context whose hash covers every field but itself; \<open>Complete\<close> is the test
  both ends apply before they use a mapping. SHA-256, the JSON text of the hashed body and the text of
  a time are parameters.
\<close>

definition ActorVersionV1 :: bytes where "ActorVersionV1 = ''1''"
definition ActorVerificationSTSDpop :: bytes where "ActorVerificationSTSDpop = ''sts+dpop''"
definition MaxActorJSONBytes :: nat where "MaxActorJSONBytes = 32768"
definition MappingContentType :: bytes where
  "MappingContentType = ''application/vnd.aip.visor-mapping+json''"
definition HeaderClientID :: bytes where "HeaderClientID = ''X-Visor-Client-Id''"
definition HeaderSessionID :: bytes where "HeaderSessionID = ''X-Visor-Session-Id''"

record actor_ref =
  ar_ID :: bytes

record verified_actor =
  va_Version :: bytes
  va_PrincipalID :: bytes
  va_ActingAgent :: bytes
  va_WorkloadID :: bytes
  va_Transaction :: bytes
  va_ActorChain :: "actor_ref list"
  va_Scopes :: "bytes list"
  va_Issuer :: bytes
  va_Audience :: bytes
  va_TokenID :: bytes
  va_ExpiresAt :: instant
  va_ProofKeyThumbprint :: bytes
  va_VerificationMethod :: bytes
  va_IdentitySnapshotHash :: bytes

text \<open>What is hashed: the fields of the context in order, the expiry as text.\<close>

record snapshot_body =
  sb_Version :: bytes
  sb_PrincipalID :: bytes
  sb_ActingAgent :: bytes
  sb_WorkloadID :: bytes
  sb_Transaction :: bytes
  sb_ActorChain :: "actor_ref list"
  sb_Scopes :: "bytes list"
  sb_Issuer :: bytes
  sb_Audience :: bytes
  sb_TokenID :: bytes
  sb_ExpiresAt :: bytes
  sb_ProofKeyThumbprint :: bytes
  sb_VerificationMethod :: bytes

record visor_env =
  vs_Sum256 :: "bytes \<Rightarrow> bytes"
  vs_Marshal_body :: "snapshot_body \<Rightarrow> bytes"
  vs_FormatTime :: "instant \<Rightarrow> bytes"
  vs_Marshal_actor :: "verified_actor \<Rightarrow> bytes option"

datatype visor_error =
    Visor_Version bytes | Visor_Missing bytes | Visor_Method bytes | Visor_Chain bytes | Visor_Hash
  | Visor_Marshal | Visor_TooLarge

definition zero_actor :: verified_actor where
  "zero_actor =
    \<lparr>va_Version = [], va_PrincipalID = [], va_ActingAgent = [], va_WorkloadID = [], va_Transaction = [],
     va_ActorChain = [], va_Scopes = [], va_Issuer = [], va_Audience = [], va_TokenID = [],
     va_ExpiresAt = zero_time, va_ProofKeyThumbprint = [], va_VerificationMethod = [],
     va_IdentitySnapshotHash = []\<rparr>"

definition snapshot_of :: "('a visor_env_scheme) \<Rightarrow> verified_actor \<Rightarrow> snapshot_body" where
  "snapshot_of V c =
    \<lparr>sb_Version = va_Version c, sb_PrincipalID = va_PrincipalID c, sb_ActingAgent = va_ActingAgent c,
     sb_WorkloadID = va_WorkloadID c, sb_Transaction = va_Transaction c, sb_ActorChain = va_ActorChain c,
     sb_Scopes = va_Scopes c, sb_Issuer = va_Issuer c, sb_Audience = va_Audience c,
     sb_TokenID = va_TokenID c, sb_ExpiresAt = vs_FormatTime V (va_ExpiresAt c),
     sb_ProofKeyThumbprint = va_ProofKeyThumbprint c, sb_VerificationMethod = va_VerificationMethod c\<rparr>"

definition SnapshotHash :: "('a visor_env_scheme) \<Rightarrow> verified_actor \<Rightarrow> bytes" where
  "SnapshotHash V c = hex_encode (vs_Sum256 V (vs_Marshal_body V (snapshot_of V c)))"

definition ValidateStructure :: "('a visor_env_scheme) \<Rightarrow> verified_actor \<Rightarrow> visor_error option" where
  "ValidateStructure V c =
    (if va_Version c \<noteq> ActorVersionV1 then Some (Visor_Version (va_Version c))
     else if is_blank (va_PrincipalID c) then Some (Visor_Missing ''principal_id'')
     else if is_blank (va_ActingAgent c) then Some (Visor_Missing ''acting_agent'')
     else if is_blank (va_Transaction c) then Some (Visor_Missing ''transaction'')
     else if va_ExpiresAt c = zero_time then Some (Visor_Missing ''expires_at'')
     else if is_blank (va_VerificationMethod c) then Some (Visor_Missing ''verification_method'')
     else if va_VerificationMethod c \<noteq> ActorVerificationSTSDpop
       then Some (Visor_Method (va_VerificationMethod c))
     else if va_ActorChain c = [] then Some (Visor_Chain ''empty actor_chain'')
     else if ar_ID (hd (va_ActorChain c)) \<noteq> va_PrincipalID c
       then Some (Visor_Chain ''principal_id must equal actor_chain[0]'')
     else if ar_ID (last (va_ActorChain c)) \<noteq> va_ActingAgent c
       then Some (Visor_Chain ''acting_agent must equal actor_chain last hop'')
     else if va_IdentitySnapshotHash c \<noteq> SnapshotHash V c then Some Visor_Hash
     else None)"

definition Seal :: "('a visor_env_scheme) \<Rightarrow> verified_actor \<Rightarrow> visor_error option \<times> verified_actor" where
  "Seal V c =
    (let c' = c\<lparr>va_IdentitySnapshotHash := SnapshotHash V c\<rparr> in (ValidateStructure V c', c'))"

definition EncodeContext :: "('a visor_env_scheme) \<Rightarrow> verified_actor \<Rightarrow> visor_error + bytes" where
  "EncodeContext V c =
    (case Seal V c of
       (Some e, _) \<Rightarrow> Inl e
     | (None, c') \<Rightarrow>
         (case vs_Marshal_actor V c' of
            None \<Rightarrow> Inl Visor_Marshal
          | Some raw \<Rightarrow> if length raw > MaxActorJSONBytes then Inl Visor_TooLarge else Inr raw))"

text \<open>The context of a chain before it is sealed. A chain without hops gets them from its ends.\<close>

definition chain_hops :: "actor_chain \<Rightarrow> bytes list" where
  "chain_hops c =
    (if ac_Hops c = [] then
       (if ac_Principal c \<noteq> [] \<and> ac_Actor c \<noteq> [] \<and> ac_Principal c \<noteq> ac_Actor c
          then [ac_Principal c, ac_Actor c]
        else if ac_Principal c \<noteq> [] then [ac_Principal c] else [])
     else ac_Hops c)"

definition unsealed_context :: "actor_chain \<Rightarrow> verified_actor" where
  "unsealed_context c =
    \<lparr>va_Version = ActorVersionV1, va_PrincipalID = ac_Principal c, va_ActingAgent = ac_Actor c,
     va_WorkloadID = [], va_Transaction = ac_Txn c, va_ActorChain = map (\<lambda>i. \<lparr>ar_ID = i\<rparr>) (chain_hops c),
     va_Scopes = Fields (ac_Scope c), va_Issuer = ac_Issuer c, va_Audience = ac_Audience c,
     va_TokenID = ac_JTI c, va_ExpiresAt = ac_Expires c,
     va_ProofKeyThumbprint = ConfirmJKT (ac_Claims c),
     va_VerificationMethod = ActorVerificationSTSDpop, va_IdentitySnapshotHash = []\<rparr>"

definition contextFromChain :: "('a visor_env_scheme) \<Rightarrow> actor_chain \<Rightarrow> visor_error + verified_actor" where
  "contextFromChain V c =
    (case Seal V (unsealed_context c) of (Some e, _) \<Rightarrow> Inl e | (None, ctx) \<Rightarrow> Inr ctx)"

section \<open>Mappings\<close>

record mapping =
  mp_ClientID :: bytes
  mp_SessionID :: bytes
  mp_Principal :: bytes
  mp_ActingAgent :: bytes
  mp_Hops :: "bytes list"
  mp_Scope :: bytes
  mp_JTI :: bytes
  mp_Lineage :: "bytes \<rightharpoonup> bytes"
  mp_VerifiedActor :: verified_actor

text \<open>The part after the last slash, if there is one and something follows it.\<close>

definition after_last_slash :: "bytes \<Rightarrow> bytes" where
  "after_last_slash s =
    (let seg = rev (takeWhile (\<lambda>c. c \<noteq> CHR ''/'') (rev s)) in
     if CHR ''/'' \<in> set s \<and> seg \<noteq> [] then seg else s)"

definition trim_slash :: "bytes \<Rightarrow> bytes" where
  "trim_slash s = (if s \<noteq> [] \<and> last s = CHR ''/'' then butlast s else s)"

definition shortName :: "bytes \<Rightarrow> bytes" where
  "shortName i = after_last_slash (trim_slash i)"

definition FromChain :: "('a visor_env_scheme) \<Rightarrow> actor_chain \<Rightarrow> bool \<Rightarrow> mapping" where
  "FromChain V c short =
    (let client = (if short then shortName (ac_Actor c) else ac_Actor c) in
     \<lparr>mp_ClientID = client, mp_SessionID = ac_Txn c, mp_Principal = ac_Principal c,
      mp_ActingAgent = ac_Actor c, mp_Hops = ac_Hops c, mp_Scope = ac_Scope c, mp_JTI = ac_JTI c,
      mp_Lineage = [''principal'' \<mapsto> ac_Principal c, ''acting_agent'' \<mapsto> ac_Actor c, ''txn'' \<mapsto> ac_Txn c,
        ''scope'' \<mapsto> ac_Scope c],
      mp_VerifiedActor = (case contextFromChain V c of Inl e \<Rightarrow> zero_actor | Inr a \<Rightarrow> a)\<rparr>)"

definition Complete :: "('a visor_env_scheme) \<Rightarrow> mapping \<Rightarrow> visor_error option" where
  "Complete V m =
    (if is_blank (mp_ActingAgent m) \<or> is_blank (mp_ClientID m) then Some (Visor_Missing ''acting agent'')
     else if is_blank (mp_SessionID m) then Some (Visor_Missing ''session id'')
     else if is_blank (mp_Principal m) then Some (Visor_Missing ''principal'')
     else ValidateStructure V (mp_VerifiedActor m))"

section \<open>Sealed contexts\<close>

lemma SnapshotHash_own_hash [simp]:
  "SnapshotHash V (c\<lparr>va_IdentitySnapshotHash := h\<rparr>) = SnapshotHash V c"
  by (simp add: SnapshotHash_def snapshot_of_def)

lemma ValidateStructure_None:
  "ValidateStructure V c = None \<longleftrightarrow>
    va_Version c = ActorVersionV1 \<and> \<not> is_blank (va_PrincipalID c) \<and> \<not> is_blank (va_ActingAgent c) \<and>
    \<not> is_blank (va_Transaction c) \<and> va_ExpiresAt c \<noteq> zero_time \<and>
    va_VerificationMethod c = ActorVerificationSTSDpop \<and> va_ActorChain c \<noteq> [] \<and>
    ar_ID (hd (va_ActorChain c)) = va_PrincipalID c \<and> ar_ID (last (va_ActorChain c)) = va_ActingAgent c \<and>
    va_IdentitySnapshotHash c = SnapshotHash V c"
proof -
  have "\<not> is_blank ActorVerificationSTSDpop" by code_simp
  then show ?thesis by (auto simp: ValidateStructure_def)
qed

lemma zero_actor_invalid: "ValidateStructure V zero_actor \<noteq> None"
  by (simp add: ValidateStructure_def zero_actor_def ActorVersionV1_def)

lemma after_last_slash_segment:
  assumes "CHR ''/'' \<notin> set seg" "seg \<noteq> []"
  shows "after_last_slash (p @ ''/'' @ seg) = seg"
proof -
  have "takeWhile (\<lambda>c. c \<noteq> CHR ''/'') (rev seg @ CHR ''/'' # rev p) = rev seg"
    using assms(1) by (subst takeWhile_append2) auto
  then show ?thesis using assms(2) by (simp add: after_last_slash_def Let_def)
qed

lemma Complete_actor_valid:
  "Complete V m = None \<Longrightarrow> ValidateStructure V (mp_VerifiedActor m) = None"
  by (simp add: Complete_def split: if_splits)

text \<open>The mapping of a verified chain, when it is complete, holds the sealed context of that chain.\<close>

lemma FromChain_context:
  assumes "Complete V (FromChain V c short) = None"
  obtains a where "contextFromChain V c = Inr a" "mp_VerifiedActor (FromChain V c short) = a"
proof (cases "contextFromChain V c")
  case (Inl e)
  then have "mp_VerifiedActor (FromChain V c short) = zero_actor" by (simp add: FromChain_def Let_def)
  with Complete_actor_valid[OF assms] show ?thesis by (simp add: zero_actor_invalid)
next
  case (Inr a)
  then have "mp_VerifiedActor (FromChain V c short) = a" by (simp add: FromChain_def Let_def)
  with Inr that show ?thesis by blast
qed

lemma contextFromChain_Inr_iff:
  "contextFromChain V c = Inr a \<longleftrightarrow>
    a = (unsealed_context c)\<lparr>va_IdentitySnapshotHash := SnapshotHash V (unsealed_context c)\<rparr> \<and>
    ValidateStructure V a = None"
  by (cases "ValidateStructure V ((unsealed_context c)\<lparr>va_IdentitySnapshotHash := SnapshotHash V (unsealed_context c)\<rparr>)")
    (auto simp: contextFromChain_def Seal_def Let_def)

lemma contextFromChain_Inr:
  assumes "contextFromChain V c = Inr a" "ac_Hops c \<noteq> []"
  shows "va_PrincipalID a = ac_Principal c" "va_ActingAgent a = ac_Actor c" "va_Transaction a = ac_Txn c"
    "map ar_ID (va_ActorChain a) = ac_Hops c" "va_Scopes a = Fields (ac_Scope c)" "va_Issuer a = ac_Issuer c"
    "va_Audience a = ac_Audience c" "va_TokenID a = ac_JTI c" "va_ExpiresAt a = ac_Expires c"
    "va_ProofKeyThumbprint a = ConfirmJKT (ac_Claims c)" "va_VerificationMethod a = ActorVerificationSTSDpop"
    "va_WorkloadID a = []"
proof -
  have a: "a = (unsealed_context c)\<lparr>va_IdentitySnapshotHash := SnapshotHash V (unsealed_context c)\<rparr>"
    using assms(1) unfolding contextFromChain_Inr_iff by blast
  have "chain_hops c = ac_Hops c" using assms(2) by (simp add: chain_hops_def)
  then show "va_PrincipalID a = ac_Principal c" "va_ActingAgent a = ac_Actor c" "va_Transaction a = ac_Txn c"
    "map ar_ID (va_ActorChain a) = ac_Hops c" "va_Scopes a = Fields (ac_Scope c)" "va_Issuer a = ac_Issuer c"
    "va_Audience a = ac_Audience c" "va_TokenID a = ac_JTI c" "va_ExpiresAt a = ac_Expires c"
    "va_ProofKeyThumbprint a = ConfirmJKT (ac_Claims c)" "va_VerificationMethod a = ActorVerificationSTSDpop"
    "va_WorkloadID a = []"
    unfolding a unsealed_context_def by (simp_all add: comp_def)
qed

lemma chainFromClaims_hops [simp]: "ac_Hops (chainFromClaims raw c) \<noteq> []"
  by (simp add: chainFromClaims_def Let_def)

end
