(* ===== verification/Visor_Session.thy ===== *)
theory Visor_Session
  imports A2a Visor_Adapter
begin

text \<open>
  \<^verbatim>\<open>internal/visorsession\<close>: before it starts the visor, the session fetches the verified identity from the
  gateway, compares it with the token it holds, and builds a command line on which nobody else can set
  the identity.

  The HTTP client (with its redirect rule, which refuses every redirect), the parsers of URLs and media
  types and the decoder of the mapping are fields of \<open>session_env\<close>; the answers of the gateway to the two
  attempts are arguments.
\<close>

definition maxMappingBytes :: nat where "maxMappingBytes = 1048576"
definition AccessTokenEnv :: bytes where "AccessTokenEnv = ''AIP_ACCESS_TOKEN''"
definition ActorFD :: nat where "ActorFD = 3"

datatype session_error =
    Session_ErrGatewayURL bytes | Session_ErrIdentityArgs bytes | Session_ErrMapping bytes
  | Session_ErrBody | Session_ErrToken | Session_ErrProofKey | Session_Config bytes
  | Session_Net bytes | Session_Dpop dpop_error | Session_Status nat

record session_env = dpop_env +
  se_visor :: visor_env
  se_net :: net_env
  se_NewRequest :: "bytes \<Rightarrow> bytes \<Rightarrow> bytes + http_request"
  se_ParseMediaType :: "bytes \<Rightarrow> bytes option"
  se_Unmarshal_mapping :: "bytes \<Rightarrow> mapping option"

record session_request =
  sr_GatewayURL :: bytes
  sr_Token :: bytes
  sr_ProofKey :: "keyfile option"

section \<open>The gateway's URL\<close>

definition CheckGatewayURL :: "('a net_env_scheme) \<Rightarrow> bytes \<Rightarrow> session_error option" where
  "CheckGatewayURL N rawURL =
    (case CheckJWKSURL N rawURL of
       Some e \<Rightarrow> Some (Session_ErrGatewayURL rawURL)
     | None \<Rightarrow> (case nt_Parse N rawURL of
         None \<Rightarrow> Some (Session_ErrGatewayURL rawURL)
       | Some u \<Rightarrow> if ur_RawQuery u \<noteq> [] \<or> ur_Fragment u \<noteq> [] then Some (Session_ErrGatewayURL rawURL) else None))"

section \<open>Comparing the mapping with the token\<close>

definition isMappingContentType :: "('a session_env_scheme) \<Rightarrow> bytes \<Rightarrow> bool" where
  "isMappingContentType S h \<longleftrightarrow> se_ParseMediaType S h = Some MappingContentType"

definition actorChainIDs :: "actor_ref list \<Rightarrow> bytes list" where
  "actorChainIDs chain = map ar_ID chain"

definition scopesMatchToken :: "bytes \<Rightarrow> bytes \<Rightarrow> bool" where
  "scopesMatchToken got want =
    (let gs = ScopeSet got; ws = ScopeSet want in Subset gs ws \<and> Subset ws gs)"

definition lastSegment :: "bytes \<Rightarrow> bytes" where
  "lastSegment i = after_last_slash (trim_slash i)"

definition mappingAgreesWithToken ::
  "('a token_env_scheme) \<Rightarrow> mapping \<Rightarrow> bytes \<Rightarrow> session_error option" where
  "mappingAgreesWithToken E m raw =
    (case ParseUnverified E raw of
       Inl e \<Rightarrow> Some (Session_ErrMapping ''token'')
     | Inr (h, c, b) \<Rightarrow>
         (let actr = (case c_act c of None \<Rightarrow> [] | Some a \<Rightarrow> act_sub a);
              va = mp_VerifiedActor m;
              hops = c_sub c # ActorSubs c in
          if is_blank (c_txn c) \<or> mp_SessionID m \<noteq> c_txn c
            then Some (Session_ErrMapping ''session id does not match token'')
          else if mp_Principal m \<noteq> c_sub c \<or> mp_ActingAgent m \<noteq> actr
            then Some (Session_ErrMapping ''actor chain does not match token'')
          else if va_PrincipalID va \<noteq> c_sub c \<or> va_ActingAgent va \<noteq> actr \<or> va_Transaction va \<noteq> c_txn c
            then Some (Session_ErrMapping ''verified actor does not match token'')
          else if mp_ClientID m \<noteq> actr \<and> mp_ClientID m \<noteq> lastSegment actr
            then Some (Session_ErrMapping ''client id does not match token'')
          else if mp_Hops m \<noteq> hops \<or> actorChainIDs (va_ActorChain va) \<noteq> hops
            then Some (Session_ErrMapping ''hops do not match token'')
          else if \<not> scopesMatchToken (mp_Scope m) (c_scope c) \<or>
              \<not> scopesMatchToken (strings_Join '' '' (va_Scopes va)) (c_scope c)
            then Some (Session_ErrMapping ''scopes do not match token'')
          else if va_Issuer va \<noteq> c_iss c then Some (Session_ErrMapping ''issuer does not match token'')
          else if aud_Single (c_aud c) = None \<or> va_Audience va \<noteq> the (aud_Single (c_aud c))
            then Some (Session_ErrMapping ''audience does not match token'')
          else if va_TokenID va \<noteq> c_jti c \<or> mp_JTI m \<noteq> c_jti c
            then Some (Session_ErrMapping ''token id does not match token'')
          else if va_ExpiresAt va \<noteq> c_exp c * second
            then Some (Session_ErrMapping ''expiry does not match token'')
          else if va_ProofKeyThumbprint va \<noteq> ConfirmJKT c
            then Some (Session_ErrMapping ''proof thumbprint does not match token'')
          else if va_VerificationMethod va \<noteq> ActorVerificationSTSDpop
            then Some (Session_ErrMapping ''verification method does not match token'')
          else if \<not> is_blank (va_WorkloadID va) then Some (Session_ErrMapping ''workload_id is unbound'')
          else None))"

section \<open>Fetching the mapping\<close>

text \<open>The checks of an answer: the mapping, or an error and, for a challenge, its nonce.\<close>

definition check_answer ::
  "('a session_env_scheme) \<Rightarrow> bytes \<Rightarrow> bytes \<Rightarrow> bytes http_response \<Rightarrow> (session_error \<times> bytes) + mapping" where
  "check_answer S tok nonce resp =
    (let raw = take (maxMappingBytes + 1) (rs_Body resp) in
     if length raw > maxMappingBytes then Inl (Session_ErrBody, [])
     else if rs_Status resp \<noteq> StatusOK then
       (let n = NonceFromChallenge (Some resp) in
        if n \<noteq> [] \<and> nonce = [] then Inl (Session_Status (rs_Status resp), n)
        else Inl (Session_Status (rs_Status resp), []))
     else if \<not> isMappingContentType S (header_Get (rs_Header resp) ''Content-Type'')
       then Inl (Session_ErrMapping ''response is not an identity-only mapping'', [])
     else (case se_Unmarshal_mapping S raw of
       None \<Rightarrow> Inl (Session_ErrMapping ''json'', [])
     | Some m \<Rightarrow>
         if Complete (se_visor S) m \<noteq> None then Inl (Session_ErrMapping ''incomplete'', [])
         else if header_Get (rs_Header resp) HeaderClientID \<noteq> mp_ClientID m \<or>
             header_Get (rs_Header resp) HeaderSessionID \<noteq> mp_SessionID m
           then Inl (Session_ErrMapping ''visor identity headers do not match mapping'', [])
         else (case mappingAgreesWithToken S m tok of Some e \<Rightarrow> Inl (e, []) | None \<Rightarrow> Inr m)))"

definition session_call ::
  "('a session_env_scheme) \<Rightarrow> instant \<Rightarrow> bytes \<Rightarrow> session_request \<Rightarrow> instant \<Rightarrow> bytes \<Rightarrow> session_error + http_request" where
  "session_call S wall rnd req now nonce =
    (case se_NewRequest S ''POST'' (sr_GatewayURL req) of
       Inl e \<Rightarrow> Inl (Session_Net e)
     | Inr r \<Rightarrow> (case OutboundURI (Some r) of
         Inl e \<Rightarrow> Inl (Session_Dpop e)
       | Inr htu \<Rightarrow> (case ProveWithNonce S wall rnd (sr_ProofKey req) ''POST'' htu (sr_Token req) now nonce of
           Inl e \<Rightarrow> Inl (Session_Dpop e)
         | Inr proof \<Rightarrow>
             Inr (r\<lparr>hr_Header := header_Set (header_Set (hr_Header r) ''Authorization'' (''DPoP '' @ sr_Token req))
               ''DPoP'' proof\<rparr>))))"

definition fetchMapping ::
  "('a session_env_scheme) \<Rightarrow> (http_request \<Rightarrow> bytes + bytes http_response) \<Rightarrow> instant \<Rightarrow> bytes \<Rightarrow> session_request \<Rightarrow>
    instant \<Rightarrow> bytes \<Rightarrow> (session_error \<times> bytes) + mapping" where
  "fetchMapping S send wall rnd req now nonce =
    (case session_call S wall rnd req now nonce of
       Inl e \<Rightarrow> Inl (e, [])
     | Inr r \<Rightarrow> (case send r of
         Inl e \<Rightarrow> Inl (Session_Net e, [])
       | Inr resp \<Rightarrow> check_answer S (sr_Token req) nonce resp))"

text \<open>\<^verbatim>\<open>Fetch\<close>: the two attempts have the transport and the random bytes of their own.\<close>

definition Fetch ::
  "('a session_env_scheme) \<Rightarrow> (http_request \<Rightarrow> bytes + bytes http_response) \<Rightarrow> (http_request \<Rightarrow> bytes + bytes http_response) \<Rightarrow>
    instant \<Rightarrow> bytes \<Rightarrow> bytes \<Rightarrow> session_request \<Rightarrow> instant \<Rightarrow> session_error + mapping" where
  "Fetch S send1 send2 wall rnd1 rnd2 req now =
    (if is_blank (sr_Token req) then Inl Session_ErrToken
     else if sr_ProofKey req = None then Inl Session_ErrProofKey
     else (case CheckGatewayURL (se_net S) (sr_GatewayURL req) of
       Some e \<Rightarrow> Inl e
     | None \<Rightarrow> (case fetchMapping S send1 wall rnd1 req now [] of
         Inr m \<Rightarrow> Inr m
       | Inl (e, challenge) \<Rightarrow>
           if challenge = [] then Inl e
           else (case fetchMapping S send2 wall rnd2 req now challenge of
             Inr m \<Rightarrow> Inr m | Inl (e', _) \<Rightarrow> Inl e'))))"

section \<open>The child process\<close>

definition identity_flags :: "bytes list" where
  "identity_flags =
    [''-client-id'', ''--client-id'', ''-session-id'', ''--session-id'', ''-verified-actor-fd'', ''--verified-actor-fd'',
     ''-verified-actor-file'', ''--verified-actor-file'', ''-verified-actor'', ''--verified-actor'']"

fun RejectIdentityArgs :: "bytes list \<Rightarrow> session_error option" where
  "RejectIdentityArgs [] = None"
| "RejectIdentityArgs (a # extra) =
    (case strings_Cut CHR ''='' a of
       (name, _, _) \<Rightarrow>
         if name \<in> set identity_flags then Some (Session_ErrIdentityArgs a) else RejectIdentityArgs extra)"

definition Command ::
  "('a visor_env_scheme) \<Rightarrow> bytes \<Rightarrow> mapping \<Rightarrow> bytes list \<Rightarrow> session_error + (bytes \<times> bytes list)" where
  "Command V visorBin m extra =
    (if is_blank visorBin then Inl (Session_Config ''visor-bin required'')
     else if Complete V m \<noteq> None then Inl (Session_ErrMapping ''incomplete'')
     else (case RejectIdentityArgs extra of
       Some e \<Rightarrow> Inl e
     | None \<Rightarrow>
         Inr (visorBin, [''serve'', ''-client-id'', mp_ClientID m, ''-session-id'', mp_SessionID m,
           ''-verified-actor-fd'', ''3''] @ extra)))"

definition FormatArgv :: "bytes \<Rightarrow> bytes list \<Rightarrow> bytes" where
  "FormatArgv name args = (if args = [] then name else name @ '' '' @ strings_Join '' '' args)"

fun ChildEnv :: "bytes list \<Rightarrow> bytes list" where
  "ChildEnv [] = []"
| "ChildEnv (e # env) =
    (case strings_Cut CHR ''='' e of
       (name, _, found) \<Rightarrow>
         if found \<and> EqualFold name AccessTokenEnv then ChildEnv env else e # ChildEnv env)"

section \<open>What an accepted mapping says\<close>

text \<open>The mapping of a token, up to the order and the spacing of scopes and the short client name.\<close>

definition mapping_of :: "claims \<Rightarrow> mapping \<Rightarrow> bool" where
  "mapping_of c m \<longleftrightarrow>
    (let actr = (case c_act c of None \<Rightarrow> [] | Some a \<Rightarrow> act_sub a); va = mp_VerifiedActor m in
     \<not> is_blank (c_txn c) \<and> mp_SessionID m = c_txn c \<and> mp_Principal m = c_sub c \<and> mp_ActingAgent m = actr \<and>
     mp_ClientID m \<in> {actr, lastSegment actr} \<and> mp_Hops m = c_sub c # ActorSubs c \<and> mp_JTI m = c_jti c \<and>
     ScopeSet (mp_Scope m) = ScopeSet (c_scope c) \<and>
     va_PrincipalID va = c_sub c \<and> va_ActingAgent va = actr \<and> va_Transaction va = c_txn c \<and>
     map ar_ID (va_ActorChain va) = c_sub c # ActorSubs c \<and>
     ScopeSet (strings_Join '' '' (va_Scopes va)) = ScopeSet (c_scope c) \<and> va_Issuer va = c_iss c \<and>
     (\<exists>a. a \<noteq> [] \<and> c_aud c = [a] \<and> va_Audience va = a) \<and> va_TokenID va = c_jti c \<and>
     va_ExpiresAt va = c_exp c * second \<and> va_ProofKeyThumbprint va = ConfirmJKT c \<and>
     va_VerificationMethod va = ActorVerificationSTSDpop \<and> is_blank (va_WorkloadID va))"

lemma scopesMatchToken_iff: "scopesMatchToken a b \<longleftrightarrow> ScopeSet a = ScopeSet b"
  by (auto simp: scopesMatchToken_def Subset_def Let_def)

lemma if_Some_None: "(if P then Some e else r) = None \<longleftrightarrow> \<not> P \<and> r = None"
  by simp

lemma one_audience:
  "(\<exists>a. a \<noteq> [] \<and> auds = [a] \<and> x = a) \<longleftrightarrow> \<not> (aud_Single auds = None \<or> x \<noteq> the (aud_Single auds))"
proof (cases "aud_Single auds")
  case None
  then show ?thesis using aud_Single_Some_iff by (metis option.distinct(1))
next
  case (Some a)
  then show ?thesis using aud_Single_Some_iff by (metis list.inject option.sel option.distinct(1))
qed

lemma mappingAgreesWithToken_None:
  "mappingAgreesWithToken E m raw = None \<longleftrightarrow> (\<exists>h c b. ParseUnverified E raw = Inr (h, c, b) \<and> mapping_of c m)"
proof (cases "ParseUnverified E raw")
  case (Inr x)
  obtain h c b where x: "x = (h, c, b)" by (cases x)
  have "mappingAgreesWithToken E m raw = None \<longleftrightarrow> mapping_of c m"
    unfolding mappingAgreesWithToken_def Inr x mapping_of_def Let_def sum.case prod.case if_Some_None
      scopesMatchToken_iff actorChainIDs_def one_audience insert_iff empty_iff
    by argo
  with Inr x show ?thesis by auto
qed (simp add: mappingAgreesWithToken_def)

lemma jws_Verify_parse: "jws_Verify E raw ks = Inr (h, c) \<Longrightarrow> \<exists>b. ParseUnverified E raw = Inr (h, c, b)"
  unfolding jws_Verify_Inr_iff using signed_as_ParseUnverified by blast

text \<open>The mapping that the gateway makes of a token is the mapping of its claims.\<close>

lemma mapping_of_FromChain:
  assumes "Complete V (FromChain V (chainFromClaims raw c) short) = None" "c_aud c = [a]" "a \<noteq> []"
  shows "mapping_of c (FromChain V (chainFromClaims raw c) short)"
proof -
  let ?ch = "chainFromClaims raw c" and ?m = "FromChain V (chainFromClaims raw c) short"
  obtain va where va: "contextFromChain V ?ch = Inr va" "mp_VerifiedActor ?m = va"
    using FromChain_context[OF assms(1)] by metis
  note ctx = contextFromChain_Inr[OF va(1) chainFromClaims_hops]
  have ch: "ac_Principal ?ch = c_sub c" "ac_Actor ?ch = (case c_act c of None \<Rightarrow> [] | Some a \<Rightarrow> act_sub a)"
    "ac_Hops ?ch = c_sub c # ActorSubs c" "ac_Scope ?ch = c_scope c" "ac_Txn ?ch = c_txn c" "ac_Audience ?ch = a"
    "ac_JTI ?ch = c_jti c" "ac_Issuer ?ch = c_iss c" "ac_Expires ?ch = c_exp c * second" "ac_Claims ?ch = c"
    using assms(2,3) by (simp_all add: chainFromClaims_def Let_def aud_Single_def)
  have m: "mp_SessionID ?m = c_txn c" "mp_Principal ?m = c_sub c" "mp_ActingAgent ?m = ac_Actor ?ch"
    "mp_ClientID ?m \<in> {ac_Actor ?ch, lastSegment (ac_Actor ?ch)}" "mp_Hops ?m = c_sub c # ActorSubs c"
    "mp_JTI ?m = c_jti c" "mp_Scope ?m = c_scope c"
    by (simp_all add: FromChain_def Let_def ch shortName_def lastSegment_def)
  have txn: "\<not> is_blank (c_txn c)" using assms(1) m(1) by (auto simp: Complete_def split: if_splits)
  have "ScopeSet (strings_Join '' '' (Fields (c_scope c))) = ScopeSet (c_scope c)"
    using ScopeSet_Join_words[of "Fields (c_scope c)"] Fields_words by (simp add: ScopeSet_def)
  then show ?thesis
    unfolding mapping_of_def Let_def va(2) using txn m ctx ch assms(2,3) by simp
qed

lemma check_answer_Inr:
  "check_answer S tok nonce resp = Inr m \<longleftrightarrow>
    length (rs_Body resp) \<le> maxMappingBytes \<and> rs_Status resp = 200 \<and>
    se_ParseMediaType S (header_Get (rs_Header resp) ''Content-Type'') = Some MappingContentType \<and>
    se_Unmarshal_mapping S (rs_Body resp) = Some m \<and> Complete (se_visor S) m = None \<and>
    header_Get (rs_Header resp) HeaderClientID = mp_ClientID m \<and>
    header_Get (rs_Header resp) HeaderSessionID = mp_SessionID m \<and> mappingAgreesWithToken S m tok = None"
proof (cases "length (rs_Body resp) \<le> maxMappingBytes")
  case True
  then show ?thesis
    by (auto simp: check_answer_def Let_def isMappingContentType_def split: option.splits if_splits)
qed (simp add: check_answer_def Let_def min_def)

lemma fetchMapping_Inr:
  "fetchMapping S send wall rnd req now nonce = Inr m \<longleftrightarrow>
    (\<exists>r resp. session_call S wall rnd req now nonce = Inr r \<and> send r = Inr resp \<and>
       check_answer S (sr_Token req) nonce resp = Inr m)"
  by (auto simp: fetchMapping_def split: sum.splits)

lemma Fetch_InrD:
  assumes "Fetch S send1 send2 wall rnd1 rnd2 req now = Inr m"
  obtains send rnd nonce r resp where "session_call S wall rnd req now nonce = Inr r" "send r = Inr resp"
    "check_answer S (sr_Token req) nonce resp = Inr m" "send = send1 \<and> nonce = [] \<or> send = send2 \<and> nonce \<noteq> []"
    "CheckGatewayURL (se_net S) (sr_GatewayURL req) = None"
proof -
  from assms have url: "CheckGatewayURL (se_net S) (sr_GatewayURL req) = None"
    by (auto simp: Fetch_def split: option.splits if_splits)
  show ?thesis
  proof (cases "fetchMapping S send1 wall rnd1 req now []")
    case (Inr m')
    with assms url have "fetchMapping S send1 wall rnd1 req now [] = Inr m" by (auto simp: Fetch_def split: if_splits)
    then show ?thesis unfolding fetchMapping_Inr using that url by blast
  next
    case (Inl x)
    obtain e n where "x = (e, n)" by (cases x)
    with Inl assms url have "n \<noteq> []" "fetchMapping S send2 wall rnd2 req now n = Inr m"
      by (auto simp: Fetch_def split: if_splits sum.splits)
    then show ?thesis unfolding fetchMapping_Inr using that url by blast
  qed
qed

section \<open>Arguments and environment\<close>

lemma RejectIdentityArgs_None:
  "RejectIdentityArgs extra = None \<longleftrightarrow> (\<forall>a \<in> set extra. fst (strings_Cut CHR ''='' a) \<notin> set identity_flags)"
  by (induction extra) (auto split: prod.splits)

lemma ChildEnv_filter:
  "ChildEnv env = filter (\<lambda>e. \<not> (snd (snd (strings_Cut CHR ''='' e)) \<and>
     EqualFold (fst (strings_Cut CHR ''='' e)) AccessTokenEnv)) env"
  by (induction env) (simp_all split: prod.splits)

text \<open>The visor's identity is set by the session alone. The command line names the client id and the
  session id of the mapping and the descriptor of the actor context exactly once each: no further
  argument is one of these flags, with one dash or two, with or without a value. It is built only from
  a complete mapping. The child's environment is the caller's without the access token, however its
  name is capitalized.\<close>

theorem child_identity_fixed:
  assumes "Command V bin m extra = Inr (name, args)"
  shows "name = bin \<and> Complete V m = None \<and>
    args = [''serve'', ''-client-id'', mp_ClientID m, ''-session-id'', mp_SessionID m, ''-verified-actor-fd'', ''3''] @ extra \<and>
    (\<forall>a \<in> set extra. takeWhile (\<lambda>c. c \<noteq> CHR ''='') a \<notin> set identity_flags) \<and>
    (\<forall>e \<in> set (ChildEnv env). \<forall>v. \<not> (\<exists>k. EqualFold k ''AIP_ACCESS_TOKEN'' \<and> CHR ''='' \<notin> set k \<and> e = k @ ''='' @ v)) \<and>
    set (ChildEnv env) \<subseteq> set env"
proof -
  have cut: "fst (strings_Cut CHR ''='' a) = takeWhile (\<lambda>c. c \<noteq> CHR ''='') a" for a
    by (cases "CHR ''='' \<in> set a") (auto simp: strings_Cut_def intro: takeWhile_eq_all_conv[THEN iffD2, symmetric])
  have "strings_Cut CHR ''='' (k @ ''='' @ v) = (k, v, True)" if "CHR ''='' \<notin> set k" for k v
  proof -
    from that have "takeWhile (\<lambda>x. x \<noteq> CHR ''='') (k @ CHR ''='' # v) = k"
      "dropWhile (\<lambda>x. x \<noteq> CHR ''='') (k @ CHR ''='' # v) = CHR ''='' # v"
      by (subst takeWhile_append2 dropWhile_append2; auto)+
    then show ?thesis by (simp add: strings_Cut_def)
  qed
  then have "\<not> (\<exists>k. EqualFold k ''AIP_ACCESS_TOKEN'' \<and> CHR ''='' \<notin> set k \<and> e = k @ ''='' @ v)"
    if "e \<in> set (ChildEnv env)" for e v
    using that by (auto simp: ChildEnv_filter AccessTokenEnv_def)
  moreover have "set (ChildEnv env) \<subseteq> set env" by (auto simp: ChildEnv_filter)
  moreover have "Complete V m = None" "RejectIdentityArgs extra = None" "name = bin"
    "args = [''serve'', ''-client-id'', mp_ClientID m, ''-session-id'', mp_SessionID m, ''-verified-actor-fd'', ''3''] @ extra"
    using assms by (auto simp: Command_def split: if_splits option.splits)
  ultimately show ?thesis by (auto simp: RejectIdentityArgs_None cut)
qed

end
