(* ===== verification/Gateway.thy ===== *)
theory Gateway
  imports A2a Visor_Adapter Denylist Replay Audit_Log
begin

text \<open>
  \<^verbatim>\<open>internal/gateway/gateway.go\<close>: the policy enforcement point in front of a resource. One request goes
  through the rate limit, the token, the mapping, the denylist and the proof of possession with its
  nonce, leaves an audit record, and is answered with the mapping or forwarded with identity headers
  the caller cannot set.

  The answers of what is outside, the limiter included, are arguments of one request (\<open>gateway_inputs\<close>);
  the key source and the denylist source are read anew on each request. A response is what the gateway
  writes itself, or the request it forwards to the backend.
\<close>

definition Gw_ReasonOK :: bytes where "Gw_ReasonOK = ''ok''"
definition Gw_ReasonMissingToken :: bytes where "Gw_ReasonMissingToken = ''missing_bearer''"
definition Gw_ReasonInvalidToken :: bytes where "Gw_ReasonInvalidToken = ''invalid_token''"
definition Gw_ReasonIncomplete :: bytes where "Gw_ReasonIncomplete = ''incomplete_chain''"
definition Gw_ReasonRateLimited :: bytes where "Gw_ReasonRateLimited = ''rate_limited''"
definition Gw_ReasonMissingDPoP :: bytes where "Gw_ReasonMissingDPoP = ''missing_dpop''"
definition Gw_ReasonInvalidDPoP :: bytes where "Gw_ReasonInvalidDPoP = ''invalid_dpop_proof''"
definition Gw_ReasonReplayedDPoP :: bytes where "Gw_ReasonReplayedDPoP = ''replayed_dpop''"
definition Gw_ReasonMissingCNF :: bytes where "Gw_ReasonMissingCNF = ''missing_cnf''"
definition Gw_ReasonDPoPUnavail :: bytes where "Gw_ReasonDPoPUnavail = ''dpop_unavailable''"
definition Gw_ReasonUseNonce :: bytes where "Gw_ReasonUseNonce = ''use_dpop_nonce''"

record gw_metrics =
  gm_Allowed :: int
  gm_Denied :: int
  gm_RateLimited :: int

record gateway =
  gw_Audience :: bytes
  gw_Verifier :: verifier
  gw_Audit :: "logger option"
  gw_Backend :: "http_url option"
  gw_IdentityOnly :: bool
  gw_ShortName :: bool
  gw_ProofReplay :: "replay_cache option"
  gw_Nonces :: "nonce_cache option"
  gw_Metrics :: gw_metrics

record gateway_env = dpop_env +
  ge_visor :: visor_env
  ge_audit :: audit_env
  ge_records :: record_codec
  ge_ProxyHeaders :: "headers \<Rightarrow> headers"
  ge_ParseMediaType :: "bytes \<Rightarrow> bytes option"

text \<open>\<open>gi_keys\<close> and \<open>gi_denylist\<close> are what the two live sources returned, \<open>None\<close> where none is configured.\<close>

record gateway_inputs =
  gi_allow :: bool
  gi_keys :: "(bytes + jwks) option"
  gi_denylist :: "(bytes + denylist option) option"
  gi_wall :: instant
  gi_verify_now :: instant
  gi_proof_now :: instant
  gi_nonce_now :: instant
  gi_nonce_rand :: bytes
  gi_replay_now :: instant
  gi_replay_io :: io_outcome
  gi_stamp :: bytes
  gi_audit_io :: io_outcome

datatype gw_desc =
    Gd_Text bytes | Gd_Verify verifier_error | Gd_Visor visor_error | Gd_Dpop dpop_error
  | Gd_Replay replay_error

datatype gw_body = Gb_Error gw_desc | Gb_Mapping mapping

record forwarded =
  fw_Backend :: http_url
  fw_Header :: headers

datatype gw_result = Gw_Reply "gw_body http_response" | Gw_Forward headers forwarded

section \<open>Headers\<close>

definition headerActorChain :: bytes where "headerActorChain = ''X-Actor-Chain''"

definition applyIdentityHeaders :: "headers \<Rightarrow> mapping \<Rightarrow> headers" where
  "applyIdentityHeaders h m =
    (let h1 = header_Del (header_Del (header_Del h HeaderClientID) HeaderSessionID) headerActorChain in
     header_Set (header_Set (header_Set h1 HeaderClientID (mp_ClientID m)) HeaderSessionID (mp_SessionID m))
       headerActorChain (strings_Join '' > '' (mp_Hops m)))"

definition stripBackendMapping :: "('a gateway_env_scheme) \<Rightarrow> headers \<Rightarrow> headers" where
  "stripBackendMapping G h =
    (let h1 = (if ge_ParseMediaType G (header_Get h ''Content-Type'') = Some MappingContentType
               then header_Del h ''Content-Type'' else h)
     in header_Del (header_Del (header_Del h1 HeaderClientID) HeaderSessionID) headerActorChain)"

definition http_Error :: "headers \<Rightarrow> gw_desc \<Rightarrow> nat \<Rightarrow> gw_body http_response" where
  "http_Error h d status =
    \<lparr>rs_Status = status,
     rs_Header = header_Set (header_Set h ''Content-Type'' ''text/plain; charset=utf-8'')
       ''X-Content-Type-Options'' ''nosniff'',
     rs_Body = Gb_Error d\<rparr>"

section \<open>Records and refusals\<close>

definition gw_record ::
  "('a gateway_env_scheme) \<Rightarrow> gateway \<Rightarrow> gateway_inputs \<Rightarrow> event \<Rightarrow> bool \<times> gateway" where
  "gw_record G g i ev =
    (case gw_Audit g of
       None \<Rightarrow> (False, g)
     | Some l \<Rightarrow>
         (case Append (ge_audit G) l (gi_stamp i) (gi_audit_io i) ev of
            (e, l') \<Rightarrow> (e = None, g\<lparr>gw_Audit := Some l'\<rparr>)))"

definition count_denied :: "gateway \<Rightarrow> gateway" where
  "count_denied g = g\<lparr>gw_Metrics := (gw_Metrics g)\<lparr>gm_Denied := gm_Denied (gw_Metrics g) + 1\<rparr>\<rparr>"

definition failClosed :: "gateway \<Rightarrow> headers \<Rightarrow> gw_body http_response \<times> gateway" where
  "failClosed g h =
    (http_Error h (Gd_Text ''audit unavailable'') StatusServiceUnavailable, count_denied g)"

definition denied_event :: "gateway \<Rightarrow> bytes \<Rightarrow> mapping option \<Rightarrow> event" where
  "denied_event g reason m =
    (let ev = empty_event\<lparr>ev_EventType := ''identity_denied'', ev_ReasonCode := reason,
                ev_Audience := gw_Audience g\<rparr> in
     case m of
       None \<Rightarrow> ev
     | Some p \<Rightarrow> ev\<lparr>ev_Txn := mp_SessionID p, ev_JTI := mp_JTI p, ev_AgentID := mp_ActingAgent p,
                    ev_Principal := mp_Principal p, ev_Hops := mp_Hops p, ev_Scope := mp_Scope p\<rparr>)"

definition writeDeny ::
  "('a gateway_env_scheme) \<Rightarrow> gateway \<Rightarrow> gateway_inputs \<Rightarrow> headers \<Rightarrow> nat \<Rightarrow> bytes \<Rightarrow> gw_desc \<Rightarrow>
    mapping option \<Rightarrow> gw_body http_response \<times> gateway" where
  "writeDeny G g i h status reason desc m =
    (case gw_record G g i (denied_event g reason m) of
       (False, g1) \<Rightarrow> failClosed g1 h
     | (True, g1) \<Rightarrow>
         (let g2 = count_denied g1;
              g3 = (if reason = Gw_ReasonRateLimited
                    then g2\<lparr>gw_Metrics := (gw_Metrics g2)\<lparr>gm_RateLimited := gm_RateLimited (gw_Metrics g2) + 1\<rparr>\<rparr>
                    else g2)
          in (http_Error h desc status, g3)))"

definition initNonces :: "gateway \<Rightarrow> gateway" where
  "initNonces g = (if gw_Nonces g = None then g\<lparr>gw_Nonces := Some NewNonceCache\<rparr> else g)"

definition issueNonce :: "gateway \<Rightarrow> gateway_inputs \<Rightarrow> bytes \<times> gateway" where
  "issueNonce g i =
    (let g1 = initNonces g in
     case nonce_Issue (gi_wall i) (gi_nonce_rand i) (gw_Nonces g1) (gi_nonce_now i) of
       (n, c) \<Rightarrow> (n, g1\<lparr>gw_Nonces := c\<rparr>))"

definition challenge_header :: "bytes \<Rightarrow> bytes" where
  "challenge_header reason =
    (if reason = Gw_ReasonUseNonce then
       ''DPoP error='' @ [CHR 0x22] @ ''use_dpop_nonce'' @ [CHR 0x22] @ '', algs='' @ [CHR 0x22] @
         ''EdDSA ES256 RS256'' @ [CHR 0x22]
     else ''DPoP algs='' @ [CHR 0x22] @ ''EdDSA ES256 RS256'' @ [CHR 0x22])"

definition writeDenyDPoP ::
  "('a gateway_env_scheme) \<Rightarrow> gateway \<Rightarrow> gateway_inputs \<Rightarrow> headers \<Rightarrow> nat \<Rightarrow> bytes \<Rightarrow> gw_desc \<Rightarrow>
    mapping option \<Rightarrow> gw_body http_response \<times> gateway" where
  "writeDenyDPoP G g i h status reason desc m =
    (let h1 = header_Set h ''WWW-Authenticate'' (challenge_header reason) in
     if status = StatusUnauthorized then
       (case issueNonce g i of
          (n, g1) \<Rightarrow>
            writeDeny G g1 i (if n \<noteq> [] then header_Set h1 NonceHeader n else h1) status reason desc m)
     else writeDeny G g i h1 status reason desc m)"

section \<open>The proof of possession\<close>

text \<open>What \<^verbatim>\<open>requireDPoP\<close> decides before it touches a cache: the proof, or a refusal.\<close>

definition check_proof ::
  "('a gateway_env_scheme) \<Rightarrow> gateway \<Rightarrow> gateway_inputs \<Rightarrow> http_request \<Rightarrow> bytes \<Rightarrow> actor_chain \<Rightarrow>
    (nat \<times> bytes \<times> gw_desc) + proof_result" where
  "check_proof G g i r accessToken chain =
    (let jkt = ConfirmJKT (ac_Claims chain) in
     if jkt = [] then Inl (StatusUnauthorized, Gw_ReasonMissingCNF, Gd_Text ''missing confirmation key'')
     else if gw_ProofReplay g = None
       then Inl (StatusServiceUnavailable, Gw_ReasonDPoPUnavail, Gd_Text ''dpop replay cache required'')
     else (case dpop_Verify G (gi_wall i) (Some r) accessToken jkt (gi_proof_now i) of
       Inl e \<Rightarrow>
         if e = Dpop_ErrMissingProof then Inl (StatusUnauthorized, Gw_ReasonMissingDPoP, Gd_Dpop e)
         else Inl (StatusUnauthorized, Gw_ReasonInvalidDPoP, Gd_Dpop e)
     | Inr proof \<Rightarrow> Inr proof))"

text \<open>Nonce looked up, id of the proof consumed, nonce consumed.\<close>

definition consume_proof ::
  "('a gateway_env_scheme) \<Rightarrow> gateway \<Rightarrow> gateway_inputs \<Rightarrow> proof_result \<Rightarrow>
    (nat \<times> bytes \<times> gw_desc) option \<times> gateway" where
  "consume_proof G g i proof =
    (let g1 = initNonces g;
         useNonce = Some (StatusUnauthorized, Gw_ReasonUseNonce, Gd_Text ''dpop nonce required'') in
     if \<not> nonce_Has (gi_wall i) (gw_Nonces g1) (pr_Nonce proof) (gi_proof_now i) then (useNonce, g1)
     else (case Consume (ge_records G) (gw_ProofReplay g1) (gi_replay_now i) (gi_replay_io i)
             (ReplayJTI (pr_JTI proof)) (pr_IAT proof) [pr_JTI proof] of
       (Some e, rc) \<Rightarrow>
         (if e = Replay_ErrReplay
          then (Some (StatusUnauthorized, Gw_ReasonReplayedDPoP, Gd_Text ''dpop proof jti already used''),
                g1\<lparr>gw_ProofReplay := rc\<rparr>)
          else (Some (StatusServiceUnavailable, Gw_ReasonDPoPUnavail, Gd_Replay e), g1\<lparr>gw_ProofReplay := rc\<rparr>))
     | (None, rc) \<Rightarrow>
         (case nonce_Consume (gi_wall i) (gw_Nonces g1) (pr_Nonce proof) (gi_proof_now i) of
            (ok, nc) \<Rightarrow> (if ok then None else useNonce, g1\<lparr>gw_ProofReplay := rc, gw_Nonces := nc\<rparr>))))"

definition requireDPoP ::
  "('a gateway_env_scheme) \<Rightarrow> gateway \<Rightarrow> gateway_inputs \<Rightarrow> headers \<Rightarrow> http_request \<Rightarrow> bytes \<Rightarrow> actor_chain \<Rightarrow>
    mapping \<Rightarrow> gw_body http_response option \<times> gateway" where
  "requireDPoP G g i h r accessToken chain m =
    (case check_proof G g i r accessToken chain of
       Inl (status, reason, desc) \<Rightarrow> apfst Some (writeDenyDPoP G g i h status reason desc (Some m))
     | Inr proof \<Rightarrow>
         (case consume_proof G g i proof of
            (Some (status, reason, desc), g1) \<Rightarrow>
              apfst Some (writeDenyDPoP G g1 i h status reason desc (Some m))
          | (None, g1) \<Rightarrow> (None, g1)))"

section \<open>One request\<close>

definition live_verifier :: "gateway \<Rightarrow> gateway_inputs \<Rightarrow> verifier" where
  "live_verifier g i = (gw_Verifier g)\<lparr>vf_KeysFn := gi_keys i\<rparr>"

definition denyIdentity :: "gateway_inputs \<Rightarrow> mapping \<Rightarrow> bytes + bytes" where
  "denyIdentity i m =
    (case gi_denylist i of
       None \<Rightarrow> Inr []
     | Some (Inl e) \<Rightarrow> Inl e
     | Some (Inr d) \<Rightarrow> Inr (DenyChain d (mp_Principal m) (mp_ActingAgent m) (mp_Hops m)))"

text \<open>Token, mapping and denylist: a refusal with its mapping, if there is one, or what is allowed.\<close>

definition check_identity ::
  "('a gateway_env_scheme) \<Rightarrow> gateway \<Rightarrow> gateway_inputs \<Rightarrow> http_request \<Rightarrow>
    (nat \<times> bytes \<times> gw_desc \<times> mapping option) + (bytes \<times> actor_chain \<times> mapping)" where
  "check_identity G g i r =
    (let raw = AccessToken (header_Get (hr_Header r) ''Authorization'') in
     if \<not> gi_allow i then Inl (StatusTooManyRequests, Gw_ReasonRateLimited, Gd_Text ''rate limited'', None)
     else if raw = [] then
       Inl (StatusUnauthorized, Gw_ReasonMissingToken, Gd_Text ''missing bearer token'', None)
     else (case verifier_Verify G (live_verifier g i) raw (gw_Audience g) (gi_verify_now i) of
       Inl (e, ch) \<Rightarrow>
         Inl (StatusUnauthorized, Gw_ReasonInvalidToken, Gd_Verify e,
           (case ch of
              None \<Rightarrow> None
            | Some c \<Rightarrow> if ac_Txn c \<noteq> [] \<or> ac_JTI c \<noteq> []
                then Some (FromChain (ge_visor G) c (gw_ShortName g)) else None))
     | Inr chain \<Rightarrow>
         (let m = FromChain (ge_visor G) chain (gw_ShortName g) in
          case Complete (ge_visor G) m of
            Some e \<Rightarrow> Inl (StatusUnauthorized, Gw_ReasonIncomplete, Gd_Visor e, Some m)
          | None \<Rightarrow> (case denyIdentity i m of
              Inl e \<Rightarrow> Inl (StatusServiceUnavailable, ReasonUnavailable, Gd_Text e, Some m)
            | Inr reason \<Rightarrow>
                if reason \<noteq> [] then Inl (StatusUnauthorized, reason, Gd_Text reason, Some m)
                else Inr (raw, chain, m)))))"

definition allowed_event :: "gateway \<Rightarrow> actor_chain \<Rightarrow> mapping \<Rightarrow> event" where
  "allowed_event g chain m =
    empty_event\<lparr>ev_EventType := ''identity_allowed'', ev_ReasonCode := Gw_ReasonOK, ev_Txn := mp_SessionID m,
      ev_AgentID := mp_ActingAgent m, ev_Principal := mp_Principal m, ev_Audience := gw_Audience g,
      ev_Scope := mp_Scope m, ev_JTI := ac_JTI chain, ev_Hops := mp_Hops m\<rparr>"

text \<open>The answer to an allowed request: the mapping, or the request with identity headers and without
  the credential.\<close>

definition serve_allowed ::
  "('a gateway_env_scheme) \<Rightarrow> gateway \<Rightarrow> headers \<Rightarrow> http_request \<Rightarrow> mapping \<Rightarrow> gw_result" where
  "serve_allowed G g h r m =
    (let h1 = applyIdentityHeaders h m in
     case (if gw_IdentityOnly g then None else gw_Backend g) of
       None \<Rightarrow> Gw_Reply \<lparr>rs_Status = StatusOK, rs_Header = header_Set h1 ''Content-Type'' MappingContentType,
         rs_Body = Gb_Mapping m\<rparr>
     | Some backend \<Rightarrow>
         Gw_Forward h1 \<lparr>fw_Backend = backend,
           fw_Header = applyIdentityHeaders (header_Del (ge_ProxyHeaders G (hr_Header r)) ''Authorization'') m\<rparr>)"

definition handlePEP ::
  "('a gateway_env_scheme) \<Rightarrow> gateway \<Rightarrow> gateway_inputs \<Rightarrow> http_request \<Rightarrow> gw_result \<times> gateway" where
  "handlePEP G g i r =
    (case check_identity G g i r of
       Inl (status, reason, desc, m) \<Rightarrow> apfst Gw_Reply (writeDeny G g i Map.empty status reason desc m)
     | Inr (raw, chain, m) \<Rightarrow>
         (case requireDPoP G g i Map.empty r raw chain m of
            (Some resp, g1) \<Rightarrow> (Gw_Reply resp, g1)
          | (None, g1) \<Rightarrow>
              (case gw_record G g1 i (allowed_event g1 chain m) of
                 (False, g2) \<Rightarrow> apfst Gw_Reply (failClosed g2 Map.empty)
               | (True, g2) \<Rightarrow>
                   (let g3 = g2\<lparr>gw_Metrics := (gw_Metrics g2)\<lparr>gm_Allowed := gm_Allowed (gw_Metrics g2) + 1\<rparr>\<rparr> in
                    case issueNonce g3 i of
                      (n, g4) \<Rightarrow>
                        (serve_allowed G g4 (if n \<noteq> [] then header_Set Map.empty NonceHeader n else Map.empty) r m,
                         g4)))))"

section \<open>Readiness and construction\<close>

definition keysReady :: "gateway_inputs \<Rightarrow> verifier option \<Rightarrow> bool" where
  "keysReady i v =
    (case v of
       None \<Rightarrow> False
     | Some w \<Rightarrow>
         (case gi_keys i of
            None \<Rightarrow> vf_Keys w \<noteq> []
          | Some (Inl e) \<Rightarrow> False
          | Some (Inr ks) \<Rightarrow> ks \<noteq> []))"

definition denylistReady :: "gateway_inputs \<Rightarrow> bool" where
  "denylistReady i = (case gi_denylist i of Some (Inl e) \<Rightarrow> False | _ \<Rightarrow> True)"

definition readyz :: "gateway_inputs \<Rightarrow> gateway \<Rightarrow> nat" where
  "readyz i g =
    (if \<not> keysReady i (Some (gw_Verifier g)) then StatusServiceUnavailable
     else if \<not> denylistReady i then StatusServiceUnavailable else StatusOK)"

definition CheckBackend :: "http_url option \<Rightarrow> bool" where
  "CheckBackend u =
    (case u of
       None \<Rightarrow> True
     | Some b \<Rightarrow>
         if ur_Host b = [] then False
         else (let s = map ascii_lower (ur_Scheme b) in s = ''http'' \<or> s = ''https''))"

end
