(* ===== verification/A2a_Properties.thy ===== *)
theory A2a_Properties
  imports A2a
begin

text \<open>
  What the client side of a hop guarantees: the credential it puts into a header is the one the server
  side reads, every request it sends carries the exchanged token and a proof for that very request, and
  it sends two requests at most, the second only in answer to a nonce challenge.
\<close>

section \<open>Credentials\<close>

definition plain :: "bytes \<Rightarrow> bool" where
  "plain tok \<longleftrightarrow> tok \<noteq> [] \<and> set tok \<inter> set (concat space_encodings) = {}"

lemma strip_any_first:
  assumes "c \<notin> set (concat encs)"
  shows "strip_any encs (c # s) = None"
proof -
  have "p = [] \<or> \<not> prefix p (c # s)" if p: "p \<in> set encs" for p
  proof (cases p)
    case (Cons a p')
    with p have "a \<in> set (concat encs)" by (auto intro: bexI[of _ p])
    with assms Cons show ?thesis by auto
  qed simp
  then show ?thesis by (simp add: strip_any_None_iff)
qed

text \<open>Nothing is trimmed from a scheme followed by a plain credential.\<close>

lemma trim_scheme:
  assumes "plain tok" "c \<notin> set (concat space_encodings)"
  shows "TrimSpace (c # s @ tok) = c # s @ tok"
proof -
  have ne: "tok \<noteq> []" and sub: "set tok \<inter> set (concat space_encodings) = {}"
    using assms(1) by (simp_all add: plain_def)
  have tok: "rev tok = last tok # rev (butlast tok)"
    by (subst append_butlast_last_id[OF ne, symmetric]) simp
  have "last tok \<notin> set (concat (map rev space_encodings))"
    using sub last_in_set[OF ne] by auto
  then have "strip_any (map rev space_encodings) (rev tok @ rev s @ [c]) = None"
    unfolding tok append_Cons by (rule strip_any_first)
  then show ?thesis
    using strip_any_first[of c space_encodings "s @ tok"] assms(2)
    by (simp add: TrimSpace_def trim_with_None del: set_concat)
qed

lemma plain_trim: "plain tok \<Longrightarrow> TrimSpace tok = tok"
  by (rule TrimSpace_plain) (simp add: plain_def)

lemma AccessToken_authorized:
  assumes "plain tok" "scheme \<in> {''Bearer'', ''DPoP''}"
  shows "AccessToken (scheme @ '' '' @ tok) = tok"
proof -
  have first: "CHR ''B'' \<notin> set (concat space_encodings)" "CHR ''D'' \<notin> set (concat space_encodings)" by code_simp+
  have fold: "EqualFold ''Bearer '' ''Bearer ''" "EqualFold ''DPoP '' ''DPoP ''" by (simp_all add: EqualFold_def)
  have "\<not> EqualFold (CHR ''D'' # s) ''Bearer ''" for s
    by (simp add: EqualFold_def ascii_lower_def)
  note other = this[of "''PoP '' @ take (Suc (Suc 0)) tok", simplified]
  have "tok \<noteq> []" using assms(1) by (simp add: plain_def)
  from assms(2) consider "scheme = ''Bearer''" | "scheme = ''DPoP''" by blast
  then show ?thesis
  proof cases
    case 1
    then show ?thesis
      using trim_scheme[OF assms(1) first(1), of "''earer ''"] plain_trim[OF assms(1)] fold \<open>tok \<noteq> []\<close>
      by (simp add: AccessToken_def)
  next
    case 2
    then show ?thesis
      using trim_scheme[OF assms(1) first(2), of "''PoP ''"] plain_trim[OF assms(1)] fold other \<open>tok \<noteq> []\<close>
      by (simp add: AccessToken_def)
  qed
qed

lemma plain_compact: "plain (signer_Sign E s h p)"
  using B64Encode_no_space b64_not_space(2) by (auto simp: plain_def signer_Sign_def Let_def)

section \<open>What is sent\<close>

text \<open>A request to the same target with the credential and, with a proof key, a proof for it.\<close>

definition carries ::
  "('a dpop_env_scheme) \<Rightarrow> http_request \<Rightarrow> bytes \<Rightarrow> proof_inputs option \<Rightarrow> bytes \<Rightarrow> http_request \<Rightarrow> bool" where
  "carries E req tok p nonce r \<longleftrightarrow>
    hr_Method r = hr_Method req \<and> hr_URL r = hr_URL req \<and> hr_Host r = hr_Host req \<and> hr_TLS r = hr_TLS req \<and>
    (case p of
       None \<Rightarrow> header_Get (hr_Header r) ''Authorization'' = ''Bearer '' @ tok
     | Some q \<Rightarrow> header_Get (hr_Header r) ''Authorization'' = ''DPoP '' @ tok \<and>
         (\<exists>kf htu. pi_key q = Inr kf \<and> OutboundURI (Some req) = Inr htu \<and>
            ProveWithNonce E (pi_wall q) (pi_rand q) kf (hr_Method req) htu tok (pi_now q) nonce
              = Inr (header_Get (hr_Header r) ''DPoP'')))"

lemma carries_body [simp]: "carries E req tok p nonce (r\<lparr>hr_Body := b\<rparr>) = carries E req tok p nonce r"
  by (cases p) (simp_all add: carries_def)

lemma OutboundURI_header [simp]: "OutboundURI (Some (r\<lparr>hr_Header := h\<rparr>)) = OutboundURI (Some r)"
  by (cases "hr_URL r") (simp_all add: OutboundURI_def escapedPath_def Let_def)

lemma carries_uri: "carries E req tok p nonce r \<Longrightarrow> OutboundURI (Some r) = OutboundURI (Some req)"
  by (cases "hr_URL req") (simp_all add: carries_def OutboundURI_def escapedPath_def Let_def)

lemma setProof_carries:
  assumes "setProof E q (authorized req ''DPoP'' tok) tok nonce = Inr r"
  shows "carries E req tok (Some q) nonce r"
  using assms by (auto simp: setProof_def authorized_def carries_def split: sum.splits)

lemma carries_bearer: "carries E req tok None [] (authorized req ''Bearer'' tok)"
  by (simp add: carries_def authorized_def)

lemma trip_first_carries: "trip_first E p req tok = Inr r \<Longrightarrow> carries E req tok p [] r"
  by (cases p) (auto simp: trip_first_def carries_bearer dest!: setProof_carries split: sum.splits if_splits)

lemma trip_retry_cases:
  assumes "trip_retry E base p req tok nonce resp = (sent, out)"
  obtains (kept) "sent = []" "out = Inr resp" | (failed) e where "sent = []" "out = Inl e"
  | (sent) r where "sent = [r]" "carries E req tok (Some p) nonce r"
      "out = (case base r of Inl e \<Rightarrow> Inl (Trip_Transport e) | Inr x \<Rightarrow> Inr x)"
  using assms by (auto simp: trip_retry_def Let_def dest!: setProof_carries split: sum.splits prod.splits if_splits)

lemma carries_credential:
  assumes "carries E req tok p nonce r" "plain tok"
  shows "AccessToken (header_Get (hr_Header r) ''Authorization'') = tok"
  using assms AccessToken_authorized[of tok "''Bearer''"] AccessToken_authorized[of tok "''DPoP''"]
  by (auto simp: carries_def split: option.splits)

text \<open>What a hop sends. Nothing is sent before the exchange for the destination has succeeded. Then one
  request goes out, to the target of the original, with the exchanged token in place of any credential
  it had and, with a proof key, a fresh proof for that method, target and token; a second one only after
  a nonce challenge, with a proof for the nonce of that challenge; never a third. What is returned is
  the answer to the last one sent, and a server reads exactly the exchanged token from each.\<close>

theorem trip_requests:
  assumes "RoundTrip E t actor exchanger proofs base subject ctx_aud req = (sent, out)" "sent \<noteq> []"
  shows "\<exists>a res r1. actor = Inr a \<and> subject \<noteq> [] \<and>
    exchanger (trip_request t subject a (if ctx_aud = [] then tp_Audience t else ctx_aud)) = Inr res \<and>
    carries E req (xr_Token res) (map_option fst proofs) [] r1 \<and>
    (sent = [r1] \<or>
     (\<exists>p1 p2 resp r2. sent = [r1, r2] \<and> proofs = Some (p1, p2) \<and> base r1 = Inr resp \<and>
        NonceFromChallenge (Some resp) \<noteq> [] \<and>
        carries E req (xr_Token res) (Some p2) (NonceFromChallenge (Some resp)) r2)) \<and>
    (\<forall>x. out = Inr x \<longrightarrow> base (last sent) = Inr x) \<and>
    (plain (xr_Token res) \<longrightarrow>
      (\<forall>r \<in> set sent. AccessToken (header_Get (hr_Header r) ''Authorization'') = xr_Token res))"
proof -
  obtain a res r1 where ok: "actor = Inr a" "subject \<noteq> []"
    "exchanger (trip_request t subject a (if ctx_aud = [] then tp_Audience t else ctx_aud)) = Inr res"
    "trip_first E (map_option fst proofs) req (xr_Token res) = Inr r1"
    using assms by (auto simp: RoundTrip_def Let_def split: sum.splits if_splits)
  note c1 = trip_first_carries[OF ok(4)]
  have aud: "(if ctx_aud = [] then tp_Audience t else ctx_aud) \<noteq> []"
    using assms by (auto simp: RoundTrip_def Let_def split: if_splits)
  show ?thesis
  proof (cases "base r1")
    case (Inl e)
    then have "sent = [r1]" "out = Inl (Trip_Transport e)"
      using assms(1) ok aud by (simp_all add: RoundTrip_def Let_def)
    with ok c1 carries_credential[OF c1] show ?thesis by auto
  next
    case (Inr resp)
    show ?thesis
    proof (cases "\<exists>p1 p2. proofs = Some (p1, p2) \<and> NonceFromChallenge (Some resp) \<noteq> []")
      case False
      then have "sent = [r1]" "out = Inr resp"
        using assms(1) ok aud Inr by (auto simp: RoundTrip_def Let_def split: option.splits)
      with ok c1 carries_credential[OF c1] Inr show ?thesis by auto
    next
      case True
      then obtain p1 p2 where p: "proofs = Some (p1, p2)" "NonceFromChallenge (Some resp) \<noteq> []" by blast
      obtain sent' where s: "sent = r1 # sent'"
        and retry: "trip_retry E base p2 req (xr_Token res) (NonceFromChallenge (Some resp)) resp = (sent', out)"
        using assms(1) ok aud Inr p by (auto simp: RoundTrip_def Let_def apfst_def map_prod_def split: prod.splits)
      from retry show ?thesis
      proof (cases rule: trip_retry_cases)
        case kept
        with s Inr ok c1 carries_credential[OF c1] show ?thesis by auto
      next
        case (failed e)
        with s Inr ok c1 carries_credential[OF c1] show ?thesis by auto
      next
        case (sent r2)
        with s Inr ok c1 p carries_credential[OF c1] carries_credential[OF sent(2)] show ?thesis
          by (auto split: sum.splits)
      qed
    qed
  qed
qed

text \<open>A hop with a proof key against a server that challenges every request.\<close>

definition example_challenge :: "unit http_response" where
  "example_challenge = \<lparr>rs_Status = 401,
     rs_Header = header_Set (header_Set Map.empty ''WWW-Authenticate'' ''DPoP error=use_dpop_nonce'') ''DPoP-Nonce'' ''n'',
     rs_Body = ()\<rparr>"

definition example_hop_proof :: proof_inputs where
  "example_hop_proof = \<lparr>pi_wall = 0, pi_rand = ''0123456789abcdef'', pi_key = Inr (Some example_holder),
     pi_now = 500 * second\<rparr>"

definition example_trip :: "http_request list \<times> (trip_error + unit http_response)" where
  "example_trip = RoundTrip (example_dpop_env [] []) \<lparr>tp_AgentID = ''agent://a'', tp_Audience = ''gw'', tp_Scope = []\<rparr>
     (Inr ''actor'') (\<lambda>req. Inr ((failed_result [] [] [])\<lparr>xr_Token := ''tok''\<rparr>))
     (Some (example_hop_proof, example_hop_proof)) (\<lambda>r. Inr example_challenge) ''subject'' [] (example_call Map.empty)"

lemma example_challenge_nonce: "NonceFromChallenge (Some example_challenge) = ''n''"
proof -
  have "strings_Contains ''DPoP error=use_dpop_nonce'' ''use_dpop_nonce''" by code_simp
  then show ?thesis by (simp add: NonceFromChallenge_def example_challenge_def NonceHeader_def trim_n)
qed

lemma example_trip_sent: "length (fst example_trip) = 2"
proof -
  have "OutboundURI (Some (authorized (example_call Map.empty) ''DPoP'' ''tok'')) = Inr ''https://gw/mcp''"
    unfolding authorized_def by (subst OutboundURI_header) simp
  then have "\<exists>r. setProof (example_dpop_env [] []) example_hop_proof (authorized (example_call Map.empty) ''DPoP'' ''tok'') ''tok'' n
      = Inr r" for n
    by (simp add: setProof_def ProveWithNonce_def example_hop_proof_def example_holder_signer)
  then obtain r1 r2 where
    "setProof (example_dpop_env [] []) example_hop_proof (authorized (example_call Map.empty) ''DPoP'' ''tok'') ''tok'' [] = Inr r1"
    "setProof (example_dpop_env [] []) example_hop_proof (authorized (example_call Map.empty) ''DPoP'' ''tok'') ''tok'' ''n'' = Inr r2"
    by blast
  moreover have "hr_Body (example_call Map.empty) = No_Body" by (simp add: example_call_def)
  ultimately show ?thesis
    by (simp add: example_trip_def RoundTrip_def trip_first_def trip_retry_def replayBody_def replayBodyOK_def
        example_challenge_nonce failed_result_def)
qed

theorem trip_requests_witness:
  "\<exists>r1 r2. fst example_trip = [r1, r2] \<and>
     AccessToken (header_Get (hr_Header r1) ''Authorization'') = ''tok'' \<and>
     AccessToken (header_Get (hr_Header r2) ''Authorization'') = ''tok''"
proof -
  obtain sent out where e: "example_trip = (sent, out)" by fastforce
  then have f: "fst example_trip = sent" by (metis fst_conv)
  with example_trip_sent obtain r1 r2 where r: "sent = [r1, r2]"
    by (auto simp: numeral_2_eq_2 length_Suc_conv)
  moreover have "plain ''tok''" unfolding plain_def by code_simp
  ultimately have "\<forall>r \<in> set sent. AccessToken (header_Get (hr_Header r) ''Authorization'') = ''tok''"
    using trip_requests[OF e[unfolded example_trip_def]] by (auto simp: failed_result_def)
  with f r show ?thesis by auto
qed

end
