(* ===== verification/Parameters.thy ===== *)
theory Parameters
  imports Dpop
begin

text \<open>
  The parameters of a component are a record, and a component built on another extends its record. An
  operation reads only the fields of its own record: two environments that agree on them give the same
  results. This lets a token that the STS mints with its environment be verified by a resource with
  another.
\<close>

lemma token_env_agree:
  assumes "token_env.truncate E = token_env.truncate E'"
  shows "ed25519_Public E = ed25519_Public E'" "ed25519_Sign E = ed25519_Sign E'" "ed25519_Verify E = ed25519_Verify E'"
    "p256_IsOnCurve E = p256_IsOnCurve E'" "ecdsa_Verify E = ecdsa_Verify E'"
    "rsa_VerifyPKCS1v15 E = rsa_VerifyPKCS1v15 E'" "sha256_Sum E = sha256_Sum E'"
    "Marshal_header E = Marshal_header E'" "Unmarshal_header E = Unmarshal_header E'"
    "Marshal_claims E = Marshal_claims E'" "Unmarshal_claims E = Unmarshal_claims E'"
    "Encode_members E = Encode_members E'"
  using assms by (simp_all add: token_env.truncate_def)

lemma dpop_env_token:
  "dpop_env.truncate E = dpop_env.truncate E' \<Longrightarrow> token_env.truncate E = token_env.truncate E'"
  by (simp add: dpop_env.truncate_def token_env.truncate_def)

lemma verifySig_agree:
  assumes "token_env.truncate E = token_env.truncate E'"
  shows "verifySig E alg j inp sig = verifySig E' alg j inp sig" "Thumbprint E j = Thumbprint E' j"
    "signer_PublicJWK E s = signer_PublicJWK E' s" "signer_Sign E s h p = signer_Sign E' s h p"
    "AccessTokenHash E t = AccessTokenHash E' t"
  unfolding verifySig_def Thumbprint_def signer_PublicJWK_def signer_Sign_def AccessTokenHash_def
    jwk_ecdsaP256_def token_env_agree[OF assms] by (rule refl)+

lemma ParseUnverified_agree:
  assumes "token_env.truncate E = token_env.truncate E'"
  shows "ParseUnverified E raw = ParseUnverified E' raw"
  unfolding ParseUnverified_def token_env_agree[OF assms] by (rule refl)

lemma jws_Verify_agree:
  assumes "token_env.truncate E = token_env.truncate E'"
  shows "VerifyKey E raw ks = VerifyKey E' raw ks" "jws_Verify E raw ks = jws_Verify E' raw ks"
  unfolding VerifyKey_def jws_Verify_def token_env_agree[OF assms] verifySig_agree[OF assms] by (rule refl)+

lemma dpop_Verify_agree:
  assumes "dpop_env.truncate E = dpop_env.truncate E'"
  shows "dpop_Verify E wall r tok want now = dpop_Verify E' wall r tok want now"
proof -
  note t = dpop_env_token[OF assms]
  have f: "Member_names E = Member_names E'" "Unmarshal_jwk E = Unmarshal_jwk E'"
    "Unmarshal_proof_header E = Unmarshal_proof_header E'" "Unmarshal_proof_claims E = Unmarshal_proof_claims E'"
    using assms by (simp_all add: dpop_env.truncate_def)
  show ?thesis
    unfolding dpop_Verify_def check_proof_claims_def rejectPrivateJWK_def f jws_Verify_agree[OF t]
      verifySig_agree[OF t] by (rule refl)
qed

lemma ProveWithNonce_agree:
  assumes "dpop_env.truncate E = dpop_env.truncate E'"
  shows "ProveWithNonce E wall rnd k meth htu tok now n = ProveWithNonce E' wall rnd k meth htu tok now n"
proof -
  note t = dpop_env_token[OF assms]
  have f: "Marshal_proof_header E = Marshal_proof_header E'" "Marshal_proof_claims E = Marshal_proof_claims E'"
    using assms by (simp_all add: dpop_env.truncate_def)
  show ?thesis
    unfolding ProveWithNonce_def proof_of_def f verifySig_agree[OF t] by (rule refl)
qed

lemma signer_SignClaims_agree:
  assumes "token_env.truncate E = token_env.truncate E'"
  shows "signer_SignClaims E s c = signer_SignClaims E' s c" "ed25519_laws E seed = ed25519_laws E' seed"
  unfolding signer_SignClaims_def ed25519_laws_def token_env_agree[OF assms] verifySig_agree[OF assms]
  by (rule refl)+

end
