(* ===== verification/Record_Size.thy ===== *)
theory Record_Size
  imports Audit_Log
begin

text \<open>
  How long a record of the audit log gets. The marshaller of the records is a parameter; what is asked
  of it here is what \<^verbatim>\<open>encoding/json\<close> does: a byte of a string takes at most the six of an escape, and the
  names, the quotes and the numbers a fixed number of bytes. Since \<^verbatim>\<open>Append\<close> cuts strings and hops, a record
  whose type, reason and time are short then fits on a line of the log. Not every record does: with
  twelve strings of full length and escapes only it would not.
  At the end a codec that meets this law and that of reading back.
\<close>

section \<open>The bound\<close>

definition event_text :: "event \<Rightarrow> bytes list" where
  "event_text e =
    [ev_Timestamp e, ev_EventType e, ev_ReasonCode e, ev_Txn e, ev_JTI e, ev_AgentID e, ev_Workload e,
     ev_Principal e, ev_Audience e, ev_Scope e, ev_Hash e, ev_PrevHash e] @ ev_Hops e"

definition json_bound :: "('a audit_env_scheme) \<Rightarrow> bool" where
  "json_bound A \<longleftrightarrow>
    (\<forall>m. length (au_Sum256 A m) \<le> 32) \<and>
    (\<forall>e. in_i64 (ev_Depth e) \<longrightarrow>
      length (Marshal_event A e) \<le> 6 * sum_list (map length (event_text e)) + 3 * length (ev_Hops e) + 1024)"

text \<open>A log that can be written to, and an event that the service hands to it.\<close>

definition log_open :: "logger \<Rightarrow> bool" where
  "log_open l \<longleftrightarrow> lg_file l \<noteq> None \<and> \<not> lg_poisoned l \<and> length (lg_prevHash l) \<le> 128"

definition small_event :: "event \<Rightarrow> bool" where
  "small_event e \<longleftrightarrow> ev_Timestamp e = [] \<and> in_i64 (ev_Depth e) \<and>
    bounded_string (ev_EventType e) \<and> length (ev_EventType e) \<le> 64 \<and>
    bounded_string (ev_ReasonCode e) \<and> length (ev_ReasonCode e) \<le> 64"

lemma bound_length: "length (boundEventString s) \<le> 4096"
  using bounded_boundEventString[of s] by (simp add: bounded_string_def maxEventString_def)

lemma payloadHash_length:
  assumes "json_bound A"
  shows "length (payloadHash A x) \<le> 71"
proof -
  have "length (au_Sum256 A (Marshal_event A ((canonicalizeEvent x)\<lparr>ev_Hash := []\<rparr>))) \<le> 32"
    using assms by (simp add: json_bound_def)
  then show ?thesis by (simp add: payloadHash_def)
qed

lemma sum_hops: "list_all (\<lambda>h. length h \<le> n) hs \<Longrightarrow> sum_list (map length hs) \<le> n * length hs"
  by (induction hs) simp_all

lemma record_fits:
  assumes "json_bound A" "length (lg_prevHash l) \<le> 128" "length stamp \<le> 64" "small_event e"
  shows "length (Marshal_event A (chained_event A l stamp e)) + 1 \<le> max_line"
proof -
  let ?ev = "chained_event A l stamp e"
  note small = assms(4)[unfolded small_event_def]
  have "boundEventString [] = []" by (simp add: boundEventString_id bounded_string_def maxEventString_def)
  then have f: "ev_Timestamp ?ev = stamp" "ev_EventType ?ev = ev_EventType e" "ev_ReasonCode ?ev = ev_ReasonCode e"
    "ev_PrevHash ?ev = lg_prevHash l" "ev_Depth ?ev = ev_Depth e"
    "ev_Txn ?ev = boundEventString (ev_Txn e)" "ev_JTI ?ev = boundEventString (ev_JTI e)"
    "ev_AgentID ?ev = boundEventString (ev_AgentID e)" "ev_Workload ?ev = boundEventString (ev_Workload e)"
    "ev_Principal ?ev = boundEventString (ev_Principal e)" "ev_Audience ?ev = boundEventString (ev_Audience e)"
    "ev_Scope ?ev = boundEventString (ev_Scope e)"
    using small by (simp_all add: chained_event_def canonicalizeEvent_def Let_def)
  have hash: "length (ev_Hash ?ev) \<le> 71" using payloadHash_length[OF assms(1)] by (simp add: chained_event_def Let_def)
  have hops: "length (ev_Hops ?ev) \<le> 32" "sum_list (map length (ev_Hops ?ev)) \<le> 131072"
  proof -
    have h: "ev_Hops ?ev = ev_Hops (canonicalizeEvent e)" by (simp add: chained_event_def Let_def)
    then have "canonical (canonicalizeEvent e) \<Longrightarrow> length (ev_Hops ?ev) \<le> 32 \<and> list_all (\<lambda>s. length s \<le> 4096) (ev_Hops ?ev)"
      by (auto simp: canonical_def maxEventHops_def bounded_string_def maxEventString_def list_all_iff)
    then have b: "length (ev_Hops ?ev) \<le> 32" "list_all (\<lambda>s. length s \<le> 4096) (ev_Hops ?ev)" by simp_all
    then show "length (ev_Hops ?ev) \<le> 32" "sum_list (map length (ev_Hops ?ev)) \<le> 131072"
      using sum_hops[OF b(2)] by simp_all
  qed
  have "sum_list (map length (event_text ?ev)) \<le> 160135"
    using hops(2) hash small assms(2,3) bound_length[of "ev_Txn e"] bound_length[of "ev_JTI e"] bound_length[of "ev_AgentID e"]
      bound_length[of "ev_Workload e"] bound_length[of "ev_Principal e"] bound_length[of "ev_Audience e"]
      bound_length[of "ev_Scope e"]
    by (simp add: event_text_def f)
  moreover have "length (Marshal_event A ?ev) \<le> 6 * sum_list (map length (event_text ?ev)) + 3 * length (ev_Hops ?ev) + 1024"
    using assms(1) small f(5) by (simp add: json_bound_def)
  ultimately show ?thesis using hops(1) by (simp add: max_line_def)
qed

lemma Append_fits:
  assumes "json_bound A" "log_open l" "length stamp \<le> 64" "small_event e"
  obtains l' where "Append A l stamp \<lparr>io_written = None, io_synced = True\<rparr> e = (None, l')" "log_open l'"
proof -
  obtain log where log: "lg_file l = Some log" using assms(2) by (auto simp: log_open_def)
  have "length (ev_Hash (chained_event A l stamp e)) \<le> 71"
    using payloadHash_length[OF assms(1)] by (simp add: chained_event_def Let_def)
  then have hash: "length (ev_Hash (chained_event A l stamp e)) \<le> 128" by simp
  have "length (Marshal_event A (chained_event A l stamp e)) + 1 \<le> max_line"
    by (rule record_fits) (use assms in \<open>simp_all add: log_open_def\<close>)
  then show ?thesis
    using that assms(2) log hash by (simp add: Append_def append_bytes_def log_open_def Let_def)
qed

section \<open>A codec\<close>

text \<open>Strings in hexadecimal, numbers in binary with the last digit first, fields closed by a semicolon.\<close>

definition hex_value :: "char \<Rightarrow> nat" where
  "hex_value c = length (takeWhile (\<lambda>d. d \<noteq> c) ''0123456789abcdef'')"

fun hex_decode :: "bytes \<Rightarrow> bytes" where
  "hex_decode (a # b # r) = char_of (hex_value a * 16 + hex_value b) # hex_decode r"
| "hex_decode _ = []"

lemma hex_value_digit: "hex_value (hex_digit n) = n mod 16"
proof -
  have "list_all (\<lambda>k. hex_value (hex_digit k) = k) [0..<16]" by code_simp
  then have "hex_value (hex_digit (n mod 16)) = n mod 16" by (simp add: list_all_iff)
  then show ?thesis by (simp add: hex_digit_def)
qed

lemma hex_decode_encode [simp]: "hex_decode (hex_encode s) = s"
proof (induction s)
  case (Cons c s)
  have "(n div 16 mod 16) * 16 + n mod 16 = n" if "n < 256" for n :: nat
  proof -
    have "n div 16 < 16" using that by (simp add: div_less_iff_less_mult)
    then show ?thesis by simp
  qed
  from this[of "of_char c"] have c: "(of_char c div 16 mod 16) * 16 + of_char c mod 16 = (of_char c :: nat)" by simp
  have "hex_decode (hex_encode (c # s)) = char_of (hex_value (hex_digit (of_char c div 16)) * 16 + hex_value (hex_digit (of_char c))) # s"
    using Cons by (simp add: hex_encode_def)
  also have "\<dots> = c # s" unfolding hex_value_digit c by simp
  finally show ?case .
qed (simp add: hex_encode_def)

fun digits :: "nat \<Rightarrow> bytes" where
  "digits n = (if n = 0 then [] else (if odd n then CHR ''1'' else CHR ''0'') # digits (n div 2))"

declare digits.simps [simp del]

definition undigits :: "bytes \<Rightarrow> nat" where
  "undigits t = foldr (\<lambda>c k. 2 * k + (if c = CHR ''1'' then 1 else 0)) t 0"

lemma undigits_digits [simp]: "undigits (digits n) = n"
proof (induction n rule: digits.induct)
  case (1 n)
  then show ?case by (subst digits.simps) (auto simp: undigits_def)
qed

lemma length_digits: "n < 2 ^ k \<Longrightarrow> length (digits n) \<le> k"
proof (induction k arbitrary: n)
  case (Suc k)
  then have "n div 2 < 2 ^ k" by simp
  then show ?case using Suc.IH[of "n div 2"] by (subst digits.simps) simp
qed (simp add: digits.simps)

definition compact_fields :: "event \<Rightarrow> bytes list" where
  "compact_fields e =
    [ev_Timestamp e, ev_EventType e, ev_ReasonCode e, ev_Txn e, ev_JTI e, ev_AgentID e, ev_Workload e,
     ev_Principal e, ev_Audience e, ev_Scope e, ev_Hash e, ev_PrevHash e,
     digits (nat (ev_Depth e)), digits (nat (- ev_Depth e)), digits (unat (ev_ChainIndex e))] @ ev_Hops e"

definition event_of_compact :: "bytes list \<Rightarrow> event option" where
  "event_of_compact fs =
    (case fs of
       a # b # c # d # f # g # h # i # j # k # l # m # pos # neg # idx # hops \<Rightarrow>
         Some \<lparr>ev_Timestamp = a, ev_EventType = b, ev_ReasonCode = c, ev_Txn = d, ev_JTI = f,
               ev_AgentID = g, ev_Workload = h, ev_Principal = i, ev_Audience = j, ev_Scope = k,
               ev_Depth = int (undigits pos) - int (undigits neg), ev_Hops = hops, ev_Hash = l,
               ev_PrevHash = m, ev_ChainIndex = of_nat (undigits idx)\<rparr>
     | _ \<Rightarrow> None)"

lemma event_of_compact [simp]: "event_of_compact (compact_fields e) = Some e"
  by (cases e) (simp add: event_of_compact_def compact_fields_def)

definition compact_marshal :: "event \<Rightarrow> bytes" where
  "compact_marshal e = concat (map (\<lambda>l. l @ [CHR '';'']) (map hex_encode (compact_fields e)))"

definition compact_audit :: audit_env where
  "compact_audit =
    \<lparr>au_Sum256 = example_sum, Marshal_event = compact_marshal,
     Probe_event = (\<lambda>b. Some required_fields),
     Strict_event = (\<lambda>b. event_of_compact (map hex_decode (butlast (split_on CHR '';'' b))))\<rparr>"

lemma hex_encode_chars: "set (hex_encode s) \<subseteq> set ''0123456789abcdef''"
proof -
  have "hex_digit n \<in> set ''0123456789abcdef''" for n unfolding hex_digit_def by (rule nth_mem) simp
  then show ?thesis unfolding hex_encode_def by fastforce
qed

lemma compact_audit_codec: "event_codec compact_audit"
proof -
  have split: "split_on CHR '';'' (compact_marshal e) = map hex_encode (compact_fields e) @ [[]]" for e
    unfolding compact_marshal_def using hex_encode_chars by (intro split_on_terminated) fastforce
  have chars: "set (compact_marshal e) \<subseteq> insert CHR '';'' (set ''0123456789abcdef'')" for e
    unfolding compact_marshal_def by (auto dest!: hex_encode_chars[THEN subsetD])
  have ne: "compact_marshal e \<noteq> []" for e by (simp add: compact_marshal_def compact_fields_def)
  have nl: "CHR 0x0A \<notin> set (compact_marshal e)" for e using chars[of e] by auto
  have "last (compact_marshal e) \<noteq> CHR 0x0D" for e
    using chars[of e] last_in_set[OF ne, of e] by auto
  then have "dropCR (compact_marshal e) = compact_marshal e" for e by (simp add: dropCR_def)
  then show ?thesis
    using ne nl by (simp add: event_codec_def compact_audit_def split comp_def example_sum_def)
qed

lemma length_compact: "length (compact_marshal e) = 2 * sum_list (map length (compact_fields e)) + length (compact_fields e)"
proof -
  have "length (concat (map (\<lambda>l. l @ [CHR '';'']) (map hex_encode fs))) = 2 * sum_list (map length fs) + length fs" for fs
    by (induction fs) simp_all
  then show ?thesis by (simp add: compact_marshal_def)
qed

lemma compact_audit_bound: "json_bound compact_audit"
proof -
  have "length (compact_marshal e) \<le> 6 * sum_list (map length (event_text e)) + 3 * length (ev_Hops e) + 1024"
    if "in_i64 (ev_Depth e)" for e
  proof -
    have "unat w < 2 ^ LENGTH(64)" for w :: "64 word" by (rule unsigned_less)
    then have "unat w < 2 ^ 64" for w :: "64 word" by simp
    then have "nat (ev_Depth e) < 2 ^ 64" "nat (- ev_Depth e) < 2 ^ 64" "unat (ev_ChainIndex e) < 2 ^ 64"
      using that by (auto simp: in_i64_def)
    then have "length (digits (nat (ev_Depth e))) \<le> 64" "length (digits (nat (- ev_Depth e))) \<le> 64"
      "length (digits (unat (ev_ChainIndex e))) \<le> 64" by (simp_all add: length_digits)
    then show ?thesis by (simp add: length_compact compact_fields_def event_text_def)
  qed
  then show ?thesis by (simp add: json_bound_def compact_audit_def example_sum_def)
qed

end
