(* ===== verification/Gateway_Properties.thy ===== *)
theory Gateway_Properties
  imports Gateway A2a_Properties Parameters Record_Size
begin

text \<open>
  What the gateway guarantees: when exactly a request is granted, that a proof and a nonce are good
  for one granted request, what the backend and the caller are told, and what a refusal leaves behind.
\<close>

section \<open>Granted requests\<close>

definition granted :: "gw_result \<Rightarrow> bool" where
  "granted res =
    (case res of
       Gw_Forward h f \<Rightarrow> True
     | Gw_Reply rs \<Rightarrow> (case rs_Body rs of Gb_Mapping m \<Rightarrow> True | Gb_Error d \<Rightarrow> False))"

lemma granted_serve [simp]: "granted (serve_allowed G g h r m)"
  by (simp add: serve_allowed_def granted_def Let_def split: option.split)

lemma granted_error [simp]: "granted (Gw_Reply (http_Error h d s)) = False"
  by (simp add: granted_def http_Error_def)

definition credential :: "http_request \<Rightarrow> bytes" where
  "credential r = AccessToken (header_Get (hr_Header r) ''Authorization'')"

text \<open>What the token and the identity checks ask for.\<close>

definition identified ::
  "('a gateway_env_scheme) \<Rightarrow> gateway \<Rightarrow> gateway_inputs \<Rightarrow> http_request \<Rightarrow> actor_chain \<Rightarrow> bool" where
  "identified G g i r chain \<longleftrightarrow>
    gi_allow i \<and> credential r \<noteq> [] \<and>
    verifier_Verify G (live_verifier g i) (credential r) (gw_Audience g) (gi_verify_now i) = Inr chain \<and>
    Complete (ge_visor G) (FromChain (ge_visor G) chain (gw_ShortName g)) = None \<and>
    denyIdentity i (FromChain (ge_visor G) chain (gw_ShortName g)) = Inr []"

lemma check_identity_Inr:
  "check_identity G g i r = Inr (raw, chain, m) \<longleftrightarrow>
    raw = credential r \<and> m = FromChain (ge_visor G) chain (gw_ShortName g) \<and> identified G g i r chain"
  by (auto simp: check_identity_def identified_def credential_def Let_def
      split: sum.splits option.splits if_splits prod.splits)

lemma check_proof_Inr:
  "check_proof G g i r raw chain = Inr proof \<longleftrightarrow>
    ConfirmJKT (ac_Claims chain) \<noteq> [] \<and> gw_ProofReplay g \<noteq> None \<and>
    dpop_Verify G (gi_wall i) (Some r) raw (ConfirmJKT (ac_Claims chain)) (gi_proof_now i) = Inr proof"
  by (auto simp: check_proof_def Let_def split: sum.splits)

lemma initNonces_simps [simp]:
  "gw_Audit (initNonces g) = gw_Audit g" "gw_ProofReplay (initNonces g) = gw_ProofReplay g"
  "gw_Audience (initNonces g) = gw_Audience g" "gw_Metrics (initNonces g) = gw_Metrics g"
  "gw_Verifier (initNonces g) = gw_Verifier g" "gw_ShortName (initNonces g) = gw_ShortName g"
  "gw_IdentityOnly (initNonces g) = gw_IdentityOnly g" "gw_Backend (initNonces g) = gw_Backend g"
  by (simp_all add: initNonces_def)

definition live_nonces :: "gateway \<Rightarrow> nonce_cache" where
  "live_nonces g = (case gw_Nonces g of None \<Rightarrow> NewNonceCache | Some c \<Rightarrow> c)"

lemma initNonces_Nonces [simp]: "gw_Nonces (initNonces g) = Some (live_nonces g)"
  by (simp add: initNonces_def live_nonces_def split: option.split)

lemma nonce_Has_iff_Consume: "fst (nonce_Consume wall c n t) = nonce_Has wall c n t"
  by (cases c) (auto simp: nonce_Consume_def nonce_Has_def Let_def split: option.split)

lemma nonce_Consume_keeps_cache: "\<exists>c. snd (nonce_Consume wall (Some s) n t) = Some c"
  by (simp add: nonce_Consume_def Let_def split: option.split)

text \<open>The use of a proof: its nonce is live and its id is consumed, then the nonce goes.\<close>

definition proof_use :: "gateway_inputs \<Rightarrow> proof_result \<Rightarrow> consume_op" where
  "proof_use i proof =
    \<lparr>co_now = gi_replay_now i, co_io = gi_replay_io i, co_jti = ReplayJTI (pr_JTI proof),
     co_exp = pr_IAT proof, co_aliases = [pr_JTI proof]\<rparr>"

lemma Consume_proof:
  "Consume J (Some rc) (gi_replay_now i) (gi_replay_io i) (ReplayJTI (pr_JTI proof)) (pr_IAT proof) [pr_JTI proof]
    = (e, c') \<longleftrightarrow>
   (\<exists>rc'. c' = Some rc' \<and> cache_Consume J rc (co_now (proof_use i proof)) (co_io (proof_use i proof))
      (co_jti (proof_use i proof)) (co_exp (proof_use i proof)) (co_aliases (proof_use i proof)) = (e, rc'))"
  by (cases "cache_Consume J rc (gi_replay_now i) (gi_replay_io i) (ReplayJTI (pr_JTI proof)) (pr_IAT proof)
      [pr_JTI proof]") (auto simp: Consume_def proof_use_def)

lemma consume_step_snd:
  "snd (consume_step J rc op) \<longleftrightarrow>
    fst (cache_Consume J rc (co_now op) (co_io op) (co_jti op) (co_exp op) (co_aliases op)) = None"
  "fst (consume_step J rc op) =
    snd (cache_Consume J rc (co_now op) (co_io op) (co_jti op) (co_exp op) (co_aliases op))"
  by (simp_all add: consume_step_def split: prod.split)

lemma consume_proof_cases:
  assumes "gw_ProofReplay g = Some rc"
  obtains (no_nonce) d where "\<not> nonce_Has (gi_wall i) (Some (live_nonces g)) (pr_Nonce proof) (gi_proof_now i)"
      "consume_proof G g i proof = (Some (StatusUnauthorized, Gw_ReasonUseNonce, d), initNonces g)"
  | (spent) e where "nonce_Has (gi_wall i) (Some (live_nonces g)) (pr_Nonce proof) (gi_proof_now i)"
      "\<not> snd (consume_step (ge_records G) rc (proof_use i proof))"
      "consume_proof G g i proof = (Some e, (initNonces g)
        \<lparr>gw_ProofReplay := Some (fst (consume_step (ge_records G) rc (proof_use i proof)))\<rparr>)"
      "fst e \<in> {StatusUnauthorized, StatusServiceUnavailable}"
  | (used) "nonce_Has (gi_wall i) (Some (live_nonces g)) (pr_Nonce proof) (gi_proof_now i)"
      "snd (consume_step (ge_records G) rc (proof_use i proof))"
      "consume_proof G g i proof = (None, (initNonces g)
        \<lparr>gw_ProofReplay := Some (fst (consume_step (ge_records G) rc (proof_use i proof))),
         gw_Nonces := snd (nonce_Consume (gi_wall i) (Some (live_nonces g)) (pr_Nonce proof) (gi_proof_now i))\<rparr>)"
proof -
  obtain e c' where c: "Consume (ge_records G) (Some rc) (gi_replay_now i) (gi_replay_io i)
      (ReplayJTI (pr_JTI proof)) (pr_IAT proof) [pr_JTI proof] = (e, c')" by fastforce
  then have step: "c' = Some (fst (consume_step (ge_records G) rc (proof_use i proof)))"
    "snd (consume_step (ge_records G) rc (proof_use i proof)) \<longleftrightarrow> e = None"
    by (auto simp: Consume_proof consume_step_snd)
  show ?thesis
  proof (cases "nonce_Has (gi_wall i) (Some (live_nonces g)) (pr_Nonce proof) (gi_proof_now i)")
    case False
    then show ?thesis by (intro no_nonce[of "Gd_Text ''dpop nonce required''"]) (simp_all add: consume_proof_def Let_def)
  next
    case True
    show ?thesis
    proof (cases e)
      case None
      obtain ok nc where "nonce_Consume (gi_wall i) (Some (live_nonces g)) (pr_Nonce proof) (gi_proof_now i) = (ok, nc)"
        by fastforce
      moreover from this have "ok" using True nonce_Has_iff_Consume by (metis fst_conv)
      ultimately show ?thesis
        using None True step c assms by (intro used) (simp_all add: consume_proof_def Let_def)
    next
      case (Some x)
      show ?thesis
        by (rule spent[of "if x = Replay_ErrReplay then
              (StatusUnauthorized, Gw_ReasonReplayedDPoP, Gd_Text ''dpop proof jti already used'')
            else (StatusServiceUnavailable, Gw_ReasonDPoPUnavail, Gd_Replay x)"])
          (use Some True step c assms in \<open>simp_all add: consume_proof_def Let_def\<close>)
    qed
  qed
qed

section \<open>What each step keeps\<close>

text \<open>A record, a refusal and an issue leave the configuration and the replay cache alone.\<close>

lemma gw_record_keeps [simp]:
  "gw_ProofReplay (snd (gw_record G g i ev)) = gw_ProofReplay g"
  "gw_Nonces (snd (gw_record G g i ev)) = gw_Nonces g" "gw_Metrics (snd (gw_record G g i ev)) = gw_Metrics g"
  by (simp_all add: gw_record_def split: option.split prod.split)

lemma writeDeny_keeps [simp]:
  "gw_ProofReplay (snd (writeDeny G g i h status reason d m)) = gw_ProofReplay g"
  "gw_Nonces (snd (writeDeny G g i h status reason d m)) = gw_Nonces g"
  using gw_record_keeps[of G g i "denied_event g reason m"]
  by (auto simp: writeDeny_def failClosed_def count_denied_def Let_def simp del: gw_record_keeps
      split: prod.split bool.split)

lemma writeDeny_refuses [simp]: "granted (Gw_Reply (fst (writeDeny G g i h status reason d m))) = False"
  by (auto simp: writeDeny_def failClosed_def Let_def split: prod.split bool.split)

lemma issueNonce_keeps [simp]:
  "gw_ProofReplay (snd (issueNonce g i)) = gw_ProofReplay g" "gw_Audit (snd (issueNonce g i)) = gw_Audit g"
  "gw_Metrics (snd (issueNonce g i)) = gw_Metrics g" "gw_IdentityOnly (snd (issueNonce g i)) = gw_IdentityOnly g"
  "gw_Backend (snd (issueNonce g i)) = gw_Backend g"
  by (simp_all add: issueNonce_def split: prod.split)

lemma issueNonce_Nonces [simp]:
  "gw_Nonces (snd (issueNonce g i)) =
    snd (nonce_Issue (gi_wall i) (gi_nonce_rand i) (Some (live_nonces g)) (gi_nonce_now i))"
  by (simp add: issueNonce_def split: prod.split)

lemma writeDenyDPoP_refuses [simp]:
  "granted (Gw_Reply (fst (writeDenyDPoP G g i h status reason d m))) = False"
  by (simp add: writeDenyDPoP_def Let_def split: prod.split)

lemma writeDeny_refusesD:
  "writeDeny G g i h status reason d m = (rs, g') \<Longrightarrow> \<not> granted (Gw_Reply rs)"
  "writeDenyDPoP G g i h status reason d m = (rs, g') \<Longrightarrow> \<not> granted (Gw_Reply rs)"
  using writeDeny_refuses[of G g i h status reason d m] writeDenyDPoP_refuses[of G g i h status reason d m]
  by simp_all

lemma writeDenyDPoP_keeps [simp]:
  "gw_ProofReplay (snd (writeDenyDPoP G g i h status reason d m)) = gw_ProofReplay g"
  using issueNonce_keeps(1)[of g i] by (auto simp: writeDenyDPoP_def Let_def simp del: issueNonce_keeps split: prod.split)

lemma writeDenyDPoP_Nonces:
  "gw_Nonces (snd (writeDenyDPoP G g i h status reason d m)) \<in>
    {gw_Nonces g, snd (nonce_Issue (gi_wall i) (gi_nonce_rand i) (Some (live_nonces g)) (gi_nonce_now i))}"
  using issueNonce_Nonces[of g i] by (auto simp: writeDenyDPoP_def Let_def simp del: issueNonce_Nonces split: prod.split)

section \<open>The outcome of a request\<close>

lemma check_identity_status:
  "check_identity G g i r = Inl (status, x) \<Longrightarrow> status \<in> {401, 429, 503}"
  by (auto simp: check_identity_def Let_def split: sum.splits option.splits if_splits prod.splits)

lemma check_proof_status: "check_proof G g i r raw chain = Inl (status, x) \<Longrightarrow> status \<in> {401, 503}"
  by (auto simp: check_proof_def Let_def split: sum.splits if_splits)

lemma consume_proof_status: "consume_proof G g i pf = (Some (status, x), g1) \<Longrightarrow> status \<in> {401, 503}"
  by (auto simp: consume_proof_def Let_def split: option.splits if_splits prod.splits)

text \<open>The three ways a request ends: refused before any proof was used, refused by an audit failure after
  one was, or granted.\<close>

lemma handlePEP_cases:
  obtains
    (refused) status reason d m where "\<And>chain. \<not> identified G g i r chain" "status \<in> {401, 429, 503}"
      "handlePEP G g i r = apfst Gw_Reply (writeDeny G g i Map.empty status reason d m)"
  | (unproven) chain status reason d m where "identified G g i r chain"
      "\<And>pf. check_proof G g i r (credential r) chain \<noteq> Inr pf" "status \<in> {401, 503}"
      "handlePEP G g i r = apfst Gw_Reply (writeDenyDPoP G g i Map.empty status reason d m)"
  | (unfresh) chain pf status reason d m g1 where "identified G g i r chain"
      "check_proof G g i r (credential r) chain = Inr pf"
      "consume_proof G g i pf = (Some (status, reason, d), g1)" "status \<in> {401, 503}"
      "handlePEP G g i r = apfst Gw_Reply (writeDenyDPoP G g1 i Map.empty status reason d m)"
  | (unaudited) chain pf g1 where "identified G g i r chain"
      "check_proof G g i r (credential r) chain = Inr pf" "consume_proof G g i pf = (None, g1)"
      "\<not> fst (gw_record G g1 i (allowed_event g1 chain (FromChain (ge_visor G) chain (gw_ShortName g))))"
      "handlePEP G g i r = apfst Gw_Reply (failClosed (snd (gw_record G g1 i
        (allowed_event g1 chain (FromChain (ge_visor G) chain (gw_ShortName g))))) Map.empty)"
  | (allowed) chain pf g1 g2 h where "identified G g i r chain"
      "check_proof G g i r (credential r) chain = Inr pf" "consume_proof G g i pf = (None, g1)"
      "gw_record G g1 i (allowed_event g1 chain (FromChain (ge_visor G) chain (gw_ShortName g))) = (True, g2)"
      "handlePEP G g i r =
        (serve_allowed G (snd (issueNonce (g2\<lparr>gw_Metrics := (gw_Metrics g2)\<lparr>gm_Allowed := gm_Allowed (gw_Metrics g2) + 1\<rparr>\<rparr>) i))
           h r (FromChain (ge_visor G) chain (gw_ShortName g)),
         snd (issueNonce (g2\<lparr>gw_Metrics := (gw_Metrics g2)\<lparr>gm_Allowed := gm_Allowed (gw_Metrics g2) + 1\<rparr>\<rparr>) i))"
proof (cases "check_identity G g i r")
  case (Inl e)
  then have no: "\<not> identified G g i r chain" for chain
    using check_identity_Inr[of G g i r "credential r" chain] by simp
  obtain status reason d m where "e = (status, reason, d, m)" by (cases e)
  with Inl no check_identity_status[of G g i r status] show ?thesis
    by (intro refused[of status reason d m]) (simp_all add: handlePEP_def)
next
  case (Inr x)
  obtain raw chain m where x: "x = (raw, chain, m)" by (cases x)
  with Inr have ok: "raw = credential r" "m = FromChain (ge_visor G) chain (gw_ShortName g)"
    "identified G g i r chain" by (simp_all add: check_identity_Inr)
  show ?thesis
  proof (cases "check_proof G g i r raw chain")
    case e: (Inl e)
    obtain status reason d where "e = (status, reason, d)" by (cases e)
    with e Inr x ok check_proof_status[of G g i r raw chain status] show ?thesis
      by (intro unproven[of chain status reason d "Some m"])
        (simp_all add: handlePEP_def requireDPoP_def apfst_def map_prod_def split: prod.split)
  next
    case p: (Inr pf)
    obtain e g1 where c: "consume_proof G g i pf = (e, g1)" by fastforce
    show ?thesis
    proof (cases e)
      case (Some e')
      obtain status reason d where "e' = (status, reason, d)" by (cases e')
      with Some c p Inr x ok consume_proof_status[of G g i pf status] show ?thesis
        by (intro unfresh[of chain pf status reason d g1 "Some m"])
          (simp_all add: handlePEP_def requireDPoP_def apfst_def map_prod_def split: prod.split)
    next
      case None
      obtain b g2 where rec: "gw_record G g1 i (allowed_event g1 chain m) = (b, g2)" by fastforce
      show ?thesis
      proof (cases b)
        case True
        with None c p Inr x ok rec show ?thesis
          by (intro allowed[of chain pf g1 g2])
            (simp_all add: handlePEP_def requireDPoP_def Let_def case_prod_unfold)
      next
        case False
        with None c p Inr x ok rec show ?thesis
          by (intro unaudited[of chain pf g1]) (simp_all add: handlePEP_def requireDPoP_def)
      qed
    qed
  qed
qed

lemma consume_proof_audit [simp]:
  "gw_Audit (snd (consume_proof G g i pf)) = gw_Audit g"
  "gw_Audience (snd (consume_proof G g i pf)) = gw_Audience g"
  "gw_Metrics (snd (consume_proof G g i pf)) = gw_Metrics g"
  "gw_IdentityOnly (snd (consume_proof G g i pf)) = gw_IdentityOnly g"
  "gw_Backend (snd (consume_proof G g i pf)) = gw_Backend g"
  by (auto simp: consume_proof_def Let_def split: prod.split option.split)

lemma allowed_event_audience: "gw_Audience g1 = gw_Audience g \<Longrightarrow> allowed_event g1 c m = allowed_event g c m"
  by (simp add: allowed_event_def)

lemma consume_proof_None:
  "fst (consume_proof G g i pf) = None \<and> gw_ProofReplay g \<noteq> None \<longleftrightarrow>
    nonce_Has (gi_wall i) (Some (live_nonces g)) (pr_Nonce pf) (gi_proof_now i) \<and>
    (\<exists>rc. gw_ProofReplay g = Some rc \<and> snd (consume_step (ge_records G) rc (proof_use i pf)))"
proof (cases "gw_ProofReplay g")
  case (Some rc)
  show ?thesis by (cases rule: consume_proof_cases[OF Some, of i pf G]) (use Some in auto)
qed simp

lemma gw_record_True:
  "fst (gw_record G g i ev) \<longleftrightarrow>
    (\<exists>l. gw_Audit g = Some l \<and> fst (Append (ge_audit G) l (gi_stamp i) (gi_audit_io i) ev) = None)"
  by (auto simp: gw_record_def split: option.split prod.split)

text \<open>When a request is granted.\<close>

lemma granted_iff:
  "granted (fst (handlePEP G g i r)) \<longleftrightarrow>
    (\<exists>chain pf. identified G g i r chain \<and> check_proof G g i r (credential r) chain = Inr pf \<and>
       fst (consume_proof G g i pf) = None \<and>
       fst (gw_record G g i (allowed_event g chain (FromChain (ge_visor G) chain (gw_ShortName g)))))"
  (is "?l \<longleftrightarrow> ?r")
proof -
  have uniq: "chain' = chain" if "identified G g i r chain" "identified G g i r chain'" for chain chain'
    using that by (simp add: identified_def)
  have rec: "fst (gw_record G g1 i (allowed_event g1 chain m)) = fst (gw_record G g i (allowed_event g chain m))"
    if "consume_proof G g i pf = (e, g1)" for e g1 pf chain m
    using consume_proof_audit(1,2)[of G g i pf] that allowed_event_audience[of g1 g]
    by (simp add: gw_record_True)
  show ?thesis
  proof (cases rule: handlePEP_cases[of G g i r])
    case unproven
    then show ?thesis using uniq by auto
  next
    case (unfresh chain pf status reason d m g1)
    then have "\<not> ?r" using uniq by fastforce
    with unfresh(5) show ?thesis by simp
  next
    case (unaudited chain pf g1)
    then have "\<not> ?r" using uniq rec[OF unaudited(3)] by fastforce
    with unaudited(5) show ?thesis by (simp add: failClosed_def)
  next
    case (allowed chain pf g1 g2 h)
    then have "?r" using rec[OF allowed(3)] by (intro exI[of _ chain] exI[of _ pf]) (auto simp flip: rec)
    with allowed(5) show ?thesis by simp
  qed simp
qed

lemma grantedE:
  assumes "granted (fst (handlePEP G g i r))"
  obtains chain pf rc l where "identified G g i r chain" "ConfirmJKT (ac_Claims chain) \<noteq> []"
    "dpop_Verify G (gi_wall i) (Some r) (credential r) (ConfirmJKT (ac_Claims chain)) (gi_proof_now i) = Inr pf"
    "nonce_Has (gi_wall i) (Some (live_nonces g)) (pr_Nonce pf) (gi_proof_now i)"
    "gw_ProofReplay g = Some rc" "snd (consume_step (ge_records G) rc (proof_use i pf))" "gw_Audit g = Some l"
    "fst (Append (ge_audit G) l (gi_stamp i) (gi_audit_io i)
      (allowed_event g chain (FromChain (ge_visor G) chain (gw_ShortName g)))) = None"
    "gw_ProofReplay (snd (handlePEP G g i r)) = Some (fst (consume_step (ge_records G) rc (proof_use i pf)))"
    "gw_Nonces (snd (handlePEP G g i r)) = snd (nonce_Issue (gi_wall i) (gi_nonce_rand i)
      (snd (nonce_Consume (gi_wall i) (Some (live_nonces g)) (pr_Nonce pf) (gi_proof_now i))) (gi_nonce_now i))"
    "gw_Audit (snd (handlePEP G g i r)) = Some (snd (Append (ge_audit G) l (gi_stamp i) (gi_audit_io i)
      (allowed_event g chain (FromChain (ge_visor G) chain (gw_ShortName g)))))"
    "\<exists>g' h. fst (handlePEP G g i r) = serve_allowed G g' h r (FromChain (ge_visor G) chain (gw_ShortName g)) \<and>
      gw_IdentityOnly g' = gw_IdentityOnly g \<and> gw_Backend g' = gw_Backend g"
proof (cases rule: handlePEP_cases[of G g i r])
  case (allowed chain pf g1 g2 h)
  from allowed(2) obtain rc where rc: "gw_ProofReplay g = Some rc"
    and v: "ConfirmJKT (ac_Claims chain) \<noteq> []"
    "dpop_Verify G (gi_wall i) (Some r) (credential r) (ConfirmJKT (ac_Claims chain)) (gi_proof_now i) = Inr pf"
    by (auto simp: check_proof_Inr)
  have au: "gw_Audit g1 = gw_Audit g" "gw_Audience g1 = gw_Audience g" "gw_IdentityOnly g1 = gw_IdentityOnly g"
    "gw_Backend g1 = gw_Backend g"
    using consume_proof_audit[of G g i pf] allowed(3) by simp_all
  note ev = allowed_event_audience[OF au(2)]
  obtain l where l: "gw_Audit g = Some l" "fst (Append (ge_audit G) l (gi_stamp i) (gi_audit_io i)
      (allowed_event g chain (FromChain (ge_visor G) chain (gw_ShortName g)))) = None"
    "g2 = g1\<lparr>gw_Audit := Some (snd (Append (ge_audit G) l (gi_stamp i) (gi_audit_io i)
      (allowed_event g chain (FromChain (ge_visor G) chain (gw_ShortName g)))))\<rparr>"
    using allowed(4) au(1) by (auto simp: gw_record_def ev split: option.splits prod.splits)
  from allowed(3) have g1: "nonce_Has (gi_wall i) (Some (live_nonces g)) (pr_Nonce pf) (gi_proof_now i)"
    "snd (consume_step (ge_records G) rc (proof_use i pf))"
    "g1 = (initNonces g)\<lparr>gw_ProofReplay := Some (fst (consume_step (ge_records G) rc (proof_use i pf))),
      gw_Nonces := snd (nonce_Consume (gi_wall i) (Some (live_nonces g)) (pr_Nonce pf) (gi_proof_now i))\<rparr>"
    by (cases rule: consume_proof_cases[OF rc, of i pf G]; simp)+
  obtain c where c: "snd (nonce_Consume (gi_wall i) (Some (live_nonces g)) (pr_Nonce pf) (gi_proof_now i)) = Some c"
    using nonce_Consume_keeps_cache by blast
  show ?thesis
    by (rule that[OF allowed(1) v g1(1) rc g1(2) l(1,2)])
      (use allowed(5) g1(3) l(3) c au(3,4) in \<open>auto simp: live_nonces_def\<close>)
qed (use assms in \<open>simp_all add: failClosed_def\<close>)

text \<open>What any request does to the replay cache and to the nonces.\<close>

lemma handlePEP_replay:
  assumes "gw_ProofReplay g = Some rc"
  obtains (same) "gw_ProofReplay (snd (handlePEP G g i r)) = Some rc"
  | (step) pf where "gw_ProofReplay (snd (handlePEP G g i r)) = Some (fst (consume_step (ge_records G) rc (proof_use i pf)))"
proof -
  have *: "gw_ProofReplay (snd (consume_proof G g i pf)) \<in>
      {Some rc, Some (fst (consume_step (ge_records G) rc (proof_use i pf)))}" for pf
    by (cases rule: consume_proof_cases[OF assms, of i pf G]) (use assms in auto)
  show ?thesis
  proof (cases rule: handlePEP_cases[of G g i r])
    case (unfresh chain pf status reason d m g1)
    then show ?thesis using *[of pf] same step by auto
  next
    case (unaudited chain pf g1)
    then show ?thesis using *[of pf] same step by (auto simp: failClosed_def count_denied_def)
  next
    case (allowed chain pf g1 g2 h)
    have "gw_ProofReplay g2 = gw_ProofReplay g1"
      using allowed(4) gw_record_keeps(1) by (metis snd_conv)
    with allowed show ?thesis using *[of pf] same step by auto
  qed (use assms same in simp_all)
qed

lemma handlePEP_no_cache:
  "gw_ProofReplay g = None \<Longrightarrow> \<not> granted (fst (handlePEP G g i r)) \<and> gw_ProofReplay (snd (handlePEP G g i r)) = None"
  by (cases rule: handlePEP_cases[of G g i r]) (auto simp: check_proof_Inr)

section \<open>A proof and a nonce are good once\<close>

type_synonym gw_event = "gateway_inputs \<times> http_request"

definition gw_step :: "('a gateway_env_scheme) \<Rightarrow> gateway \<Rightarrow> gw_event \<Rightarrow> gateway \<times> bool" where
  "gw_step G g ev = (case handlePEP G g (fst ev) (snd ev) of (res, g') \<Rightarrow> (g', granted res))"

lemma gw_step_simps [simp]:
  "fst (gw_step G g ev) = snd (handlePEP G g (fst ev) (snd ev))"
  "snd (gw_step G g ev) = granted (fst (handlePEP G g (fst ev) (snd ev)))"
  by (simp_all add: gw_step_def split: prod.split)

definition proof_key :: "('a gateway_env_scheme) \<Rightarrow> gw_event \<Rightarrow> (bytes \<times> int) option" where
  "proof_key G ev = map_option (\<lambda>c. (ReplayJTI (pc_JTI c), pc_IAT c)) (presented_proof G (snd ev))"

definition proof_spent :: "gateway \<Rightarrow> bytes \<times> int \<Rightarrow> int \<Rightarrow> bool" where
  "proof_spent g k t \<longleftrightarrow> (case gw_ProofReplay g of None \<Rightarrow> True | Some rc \<Rightarrow> consumed rc k t)"

definition replay_second :: "gw_event \<Rightarrow> int" where
  "replay_second ev = unix (gi_replay_now (fst ev))"

interpretation proof_guard: single_use "gw_step G" "proof_key G" replay_second proof_spent "\<lambda>ev k. False" for G
proof unfold_locales
  fix ev k g t
  assume k: "proof_key G ev = Some k" and ok: "snd (gw_step G g ev)" and t: "replay_second ev \<le> t"
  from ok have "granted (fst (handlePEP G g (fst ev) (snd ev)))" by simp
  then show "proof_spent (fst (gw_step G g ev)) k t"
  proof (rule grantedE)
    fix chain pf rc
    assume v: "dpop_Verify G (gi_wall (fst ev)) (Some (snd ev)) (credential (snd ev)) (ConfirmJKT (ac_Claims chain))
        (gi_proof_now (fst ev)) = Inr pf"
      and u: "snd (consume_step (ge_records G) rc (proof_use (fst ev) pf))"
      and g': "gw_ProofReplay (snd (handlePEP G g (fst ev) (snd ev)))
        = Some (fst (consume_step (ge_records G) rc (proof_use (fst ev) pf)))"
    from v have "k = (co_jti (proof_use (fst ev) pf), co_exp (proof_use (fst ev) pf))"
      by (rule presented_verified) (use k in \<open>simp add: proof_key_def proof_use_def\<close>)
    then show ?thesis
      using replay_guard.use_spends[OF _ u, of k t] t g'
      by (simp add: proof_spent_def replay_second_def proof_use_def)
  qed
next
  fix ev k g
  assume k: "proof_key G ev = Some k" and sp: "proof_spent g k (replay_second ev)"
  show "\<not> snd (gw_step G g ev)"
  proof
    assume "snd (gw_step G g ev)"
    then have "granted (fst (handlePEP G g (fst ev) (snd ev)))" by simp
    then show False
    proof (rule grantedE)
      fix chain pf rc
      assume v: "dpop_Verify G (gi_wall (fst ev)) (Some (snd ev)) (credential (snd ev)) (ConfirmJKT (ac_Claims chain))
          (gi_proof_now (fst ev)) = Inr pf"
        and u: "snd (consume_step (ge_records G) rc (proof_use (fst ev) pf))" and rc: "gw_ProofReplay g = Some rc"
      from v have "k = (co_jti (proof_use (fst ev) pf), co_exp (proof_use (fst ev) pf))"
        by (rule presented_verified) (use k in \<open>simp add: proof_key_def proof_use_def\<close>)
      then show False
        using replay_guard.spent_refuses[of "proof_use (fst ev) pf" k rc] sp u rc
        by (simp add: proof_spent_def replay_second_def proof_use_def)
    qed
  qed
next
  fix ev k g t
  assume sp: "proof_spent g k t" and t: "replay_second ev \<le> t"
  show "proof_spent (fst (gw_step G g ev)) k t"
  proof (cases "gw_ProofReplay g")
    case None
    then show ?thesis using handlePEP_no_cache[OF None, of G "fst ev" "snd ev"] by (simp add: proof_spent_def)
  next
    case (Some rc)
    then have rc: "consumed rc k t" using sp by (simp add: proof_spent_def)
    from Some show ?thesis
    proof (cases rule: handlePEP_replay[of g rc G "fst ev" "snd ev"])
      case same
      with rc show ?thesis by (simp add: proof_spent_def)
    next
      case (step pf)
      then show ?thesis
        using replay_guard.spent_stays[of rc k t "proof_use (fst ev) pf"] rc t
        by (simp add: proof_spent_def replay_second_def proof_use_def)
    qed
  qed
qed

text \<open>The nonce a request presents, unless the very request reissues it.\<close>

definition nonce_key_of :: "('a gateway_env_scheme) \<Rightarrow> gw_event \<Rightarrow> bytes option" where
  "nonce_key_of G ev =
    (case presented_proof G (snd ev) of
       None \<Rightarrow> None
     | Some c \<Rightarrow> if nonce_of (gi_nonce_rand (fst ev)) = pc_Nonce c then None else Some (pc_Nonce c))"

definition nonce_spent :: "gateway \<Rightarrow> bytes \<Rightarrow> int \<Rightarrow> bool" where
  "nonce_spent g n t \<longleftrightarrow> nc_issued (live_nonces g) n = None"

definition issues :: "gw_event \<Rightarrow> bytes \<Rightarrow> bool" where
  "issues ev n \<longleftrightarrow> nonce_of (gi_nonce_rand (fst ev)) = n"

lemma Issue_gone:
  "snd (nonce_Issue wall rnd (Some s) t) = Some s' \<Longrightarrow> nc_issued s n = None \<Longrightarrow> nonce_of rnd \<noteq> n \<Longrightarrow>
    nc_issued s' n = None"
  by (auto simp: nonce_Issue_def Let_def gcLocked_def)

lemma Consume_gone:
  "snd (nonce_Consume wall (Some s) n t) = Some s' \<Longrightarrow> nc_issued s m = None \<Longrightarrow> nc_issued s' m = None"
  by (auto simp: nonce_Consume_def Let_def split: if_splits option.splits)

lemma Consume_takes:
  "snd (nonce_Consume wall (Some s) n t) = Some s' \<Longrightarrow> nonce_Has wall (Some s) n t \<Longrightarrow> nc_issued s' n = None"
  by (auto simp: nonce_Consume_def nonce_Has_def Let_def split: if_splits option.splits)

lemma Has_not_gone: "nonce_Has wall (Some s) n t \<Longrightarrow> nc_issued s n \<noteq> None"
  by (auto simp: nonce_Has_def split: if_splits option.splits)

lemma live_issue:
  "gw_Nonces g' = snd (nonce_Issue wall rnd (Some s) t) \<Longrightarrow> nc_issued s n = None \<Longrightarrow> nonce_of rnd \<noteq> n \<Longrightarrow>
    nc_issued (live_nonces g') n = None"
  by (auto simp: live_nonces_def nonce_Issue_def Let_def gcLocked_def)

lemma live_same: "gw_Nonces g' = gw_Nonces g \<Longrightarrow> live_nonces g' = live_nonces g"
  by (simp add: live_nonces_def)

lemma writeDenyDPoP_gone:
  assumes "nc_issued (live_nonces g) n = None" "nonce_of (gi_nonce_rand i) \<noteq> n"
  shows "nc_issued (live_nonces (snd (writeDenyDPoP G g i h status reason d m))) n = None"
proof -
  let ?g = "snd (writeDenyDPoP G g i h status reason d m)"
  consider "gw_Nonces ?g = gw_Nonces g"
    | "gw_Nonces ?g = snd (nonce_Issue (gi_wall i) (gi_nonce_rand i) (Some (live_nonces g)) (gi_nonce_now i))"
    using writeDenyDPoP_Nonces[of G g i h status reason d m] by blast
  then show ?thesis
  proof cases
    case 1
    then show ?thesis using assms live_same by metis
  next
    case 2
    then show ?thesis by (rule live_issue) (use assms in simp_all)
  qed
qed

lemma consume_proof_gone:
  assumes "nc_issued (live_nonces g) n = None" "gw_ProofReplay g = Some rc"
  shows "nc_issued (live_nonces (snd (consume_proof G g i pf))) n = None"
  using assms(2)
proof (cases rule: consume_proof_cases[of g rc i pf G])
  case used
  obtain c where c: "snd (nonce_Consume (gi_wall i) (Some (live_nonces g)) (pr_Nonce pf) (gi_proof_now i)) = Some c"
    using nonce_Consume_keeps_cache by blast
  with used(3) show ?thesis using Consume_gone[OF c assms(1)] by (simp add: live_nonces_def)
qed (use assms in \<open>simp_all add: live_nonces_def\<close>)

lemma handlePEP_gone:
  assumes "nc_issued (live_nonces g) n = None" "nonce_of (gi_nonce_rand i) \<noteq> n"
  shows "nc_issued (live_nonces (snd (handlePEP G g i r))) n = None"
proof -
  have g1: "nc_issued (live_nonces g1) n = None"
    if "check_proof G g i r raw chain = Inr pf" "consume_proof G g i pf = (e, g1)" for raw chain pf e g1
    using consume_proof_gone[OF assms(1), of _ G i pf] that by (auto simp: check_proof_Inr)
  show ?thesis
  proof (cases rule: handlePEP_cases[of G g i r])
    case (refused status reason d m)
    then show ?thesis using assms live_same[of "snd (writeDeny G g i Map.empty status reason d m)" g] by simp
  next
    case unproven
    then show ?thesis using writeDenyDPoP_gone[OF assms] by simp
  next
    case (unfresh chain pf status reason d m g1)
    then show ?thesis using writeDenyDPoP_gone[OF g1 assms(2)] by simp
  next
    case (unaudited chain pf g1)
    then show ?thesis using g1[OF unaudited(2,3)]
      by (simp add: failClosed_def count_denied_def live_nonces_def)
  next
    case (allowed chain pf g1 g2 h)
    have "gw_Nonces g2 = gw_Nonces g1" using allowed(4) gw_record_keeps(2) by (metis snd_conv)
    with g1[OF allowed(2,3)] have "nc_issued (live_nonces g2) n = None" by (simp add: live_nonces_def)
    with allowed(5) show ?thesis
      by (intro live_issue[OF _ _ assms(2)]) (simp_all add: live_nonces_def)
  qed
qed

interpretation nonce_use_guard: single_use "gw_step G" "nonce_key_of G" "\<lambda>ev. 0" nonce_spent issues for G
proof unfold_locales
  fix ev k g t
  assume k: "nonce_key_of G ev = Some k" and ok: "snd (gw_step G g ev)"
  from ok have "granted (fst (handlePEP G g (fst ev) (snd ev)))" by simp
  then show "nonce_spent (fst (gw_step G g ev)) k t"
  proof (rule grantedE)
    fix chain pf rc
    assume v: "dpop_Verify G (gi_wall (fst ev)) (Some (snd ev)) (credential (snd ev)) (ConfirmJKT (ac_Claims chain))
        (gi_proof_now (fst ev)) = Inr pf"
      and has: "nonce_Has (gi_wall (fst ev)) (Some (live_nonces g)) (pr_Nonce pf) (gi_proof_now (fst ev))"
      and g': "gw_Nonces (snd (handlePEP G g (fst ev) (snd ev))) =
        snd (nonce_Issue (gi_wall (fst ev)) (gi_nonce_rand (fst ev))
          (snd (nonce_Consume (gi_wall (fst ev)) (Some (live_nonces g)) (pr_Nonce pf) (gi_proof_now (fst ev))))
          (gi_nonce_now (fst ev)))"
    from v have n: "k = pr_Nonce pf" "nonce_of (gi_nonce_rand (fst ev)) \<noteq> k"
      by (rule presented_verified, use k in \<open>auto simp: nonce_key_of_def split: if_splits\<close>)+
    obtain s where s: "snd (nonce_Consume (gi_wall (fst ev)) (Some (live_nonces g)) (pr_Nonce pf) (gi_proof_now (fst ev)))
      = Some s" using nonce_Consume_keeps_cache by blast
    show ?thesis
      using live_issue[OF g'[unfolded s] _ n(2)] Consume_takes[OF s has] n(1) by (simp add: nonce_spent_def)
  qed
next
  fix ev k g
  assume k: "nonce_key_of G ev = Some k" and sp: "nonce_spent g k 0"
  show "\<not> snd (gw_step G g ev)"
  proof
    assume "snd (gw_step G g ev)"
    then have "granted (fst (handlePEP G g (fst ev) (snd ev)))" by simp
    then show False
    proof (rule grantedE)
      fix chain pf rc
      assume v: "dpop_Verify G (gi_wall (fst ev)) (Some (snd ev)) (credential (snd ev)) (ConfirmJKT (ac_Claims chain))
          (gi_proof_now (fst ev)) = Inr pf"
        and has: "nonce_Has (gi_wall (fst ev)) (Some (live_nonces g)) (pr_Nonce pf) (gi_proof_now (fst ev))"
      from v have "k = pr_Nonce pf"
        by (rule presented_verified) (use k in \<open>auto simp: nonce_key_of_def split: if_splits\<close>)
      with sp Has_not_gone[OF has] show False by (simp add: nonce_spent_def)
    qed
  qed
next
  fix ev k g t
  assume "nonce_spent g k t" "\<not> issues ev k"
  then show "nonce_spent (fst (gw_step G g ev)) k t"
    using handlePEP_gone by (simp add: nonce_spent_def issues_def)
qed

section \<open>Bookkeeping\<close>

definition config_of :: "gateway \<Rightarrow> bytes \<times> verifier \<times> http_url option \<times> bool \<times> bool" where
  "config_of g = (gw_Audience g, gw_Verifier g, gw_Backend g, gw_IdentityOnly g, gw_ShortName g)"

lemma config_of_updates [simp]:
  "config_of (g\<lparr>gw_Audit := a\<rparr>) = config_of g" "config_of (g\<lparr>gw_ProofReplay := p\<rparr>) = config_of g"
  "config_of (g\<lparr>gw_Nonces := n\<rparr>) = config_of g" "config_of (g\<lparr>gw_Metrics := mt\<rparr>) = config_of g"
  by (simp_all add: config_of_def)

lemma config_of_steps [simp]:
  "config_of (initNonces g) = config_of g" "config_of (count_denied g) = config_of g"
  "config_of (snd (gw_record G g i ev)) = config_of g"
  "config_of (snd (issueNonce g i)) = config_of g"
  by (simp_all add: initNonces_def count_denied_def gw_record_def issueNonce_def Let_def
      split: option.split prod.split)

text \<open>A refusal counts one denial and sends the status it was given, or 503 without an audit record.\<close>

lemma writeDeny_counts:
  "gm_Allowed (gw_Metrics (snd (writeDeny G g i h status reason d m))) = gm_Allowed (gw_Metrics g)"
  "gm_Denied (gw_Metrics (snd (writeDeny G g i h status reason d m))) = gm_Denied (gw_Metrics g) + 1"
  "config_of (snd (writeDeny G g i h status reason d m)) = config_of g"
  "rs_Status (fst (writeDeny G g i h status reason d m)) \<in> {status, 503}"
proof -
  obtain b g1 where r: "gw_record G g i (denied_event g reason m) = (b, g1)" by fastforce
  then have "gw_Metrics g1 = gw_Metrics g" "config_of g1 = config_of g"
    using gw_record_keeps(3) config_of_steps(3) by (metis snd_conv)+
  with r show
    "gm_Allowed (gw_Metrics (snd (writeDeny G g i h status reason d m))) = gm_Allowed (gw_Metrics g)"
    "gm_Denied (gw_Metrics (snd (writeDeny G g i h status reason d m))) = gm_Denied (gw_Metrics g) + 1"
    "config_of (snd (writeDeny G g i h status reason d m)) = config_of g"
    "rs_Status (fst (writeDeny G g i h status reason d m)) \<in> {status, 503}"
    by (cases b; simp add: writeDeny_def failClosed_def count_denied_def Let_def http_Error_def)+
qed

lemma writeDenyDPoP_counts:
  "gm_Allowed (gw_Metrics (snd (writeDenyDPoP G g i h status reason d m))) = gm_Allowed (gw_Metrics g)"
  "gm_Denied (gw_Metrics (snd (writeDenyDPoP G g i h status reason d m))) = gm_Denied (gw_Metrics g) + 1"
  "config_of (snd (writeDenyDPoP G g i h status reason d m)) = config_of g"
  "rs_Status (fst (writeDenyDPoP G g i h status reason d m)) \<in> {status, 503}"
proof -
  obtain n g1 where r: "issueNonce g i = (n, g1)" by fastforce
  then have "gw_Metrics g1 = gw_Metrics g" "config_of g1 = config_of g"
    using issueNonce_keeps(3) config_of_steps(4) by (metis snd_conv)+
  moreover have "rs_Status (fst (writeDeny G g' i h' st reason d m)) = st \<or>
      rs_Status (fst (writeDeny G g' i h' st reason d m)) = 503" for g' h' st
    using writeDeny_counts(4)[of G g' i h' st reason d m] by simp
  ultimately show
    "gm_Allowed (gw_Metrics (snd (writeDenyDPoP G g i h status reason d m))) = gm_Allowed (gw_Metrics g)"
    "gm_Denied (gw_Metrics (snd (writeDenyDPoP G g i h status reason d m))) = gm_Denied (gw_Metrics g) + 1"
    "config_of (snd (writeDenyDPoP G g i h status reason d m)) = config_of g"
    "rs_Status (fst (writeDenyDPoP G g i h status reason d m)) \<in> {status, 503}"
    using r by (simp_all add: writeDenyDPoP_def Let_def writeDeny_counts(1-3))
qed

lemma consume_proof_config [simp]: "config_of (snd (consume_proof G g i pf)) = config_of g"
  by (auto simp: consume_proof_def Let_def split: prod.split option.split)

lemma not_granted_reply: "\<not> granted res \<Longrightarrow> \<exists>rs d. res = Gw_Reply rs \<and> rs_Body rs = Gb_Error d"
  by (auto simp: granted_def split: gw_result.splits gw_body.splits)

section \<open>An honest client is served\<close>

lemma plain_nonce: "plain (nonce_of rnd)"
proof -
  have "list_all (\<lambda>c. c \<notin> set (concat space_encodings)) ''0123456789abcdef''" by code_simp
  moreover have "d mod 16 < length ''0123456789abcdef''" for d :: nat by simp
  ultimately have "hex_digit d \<notin> set (concat space_encodings)" for d
    unfolding hex_digit_def list_all_length by blast
  then have "set (hex_encode rnd) \<inter> set (concat space_encodings) = {}"
    by (induction rnd) (simp_all add: hex_encode_def del: set_concat)
  moreover have "CHR ''n'' \<notin> set (concat space_encodings)" "CHR ''-'' \<notin> set (concat space_encodings)" by code_simp+
  ultimately show ?thesis by (simp add: plain_def nonce_of_def del: set_concat)
qed

lemma issueNonce_live:
  assumes "issueNonce g0 i0 = (n, g)"
  shows "n = nonce_of (gi_nonce_rand i0)"
    "nonce_Has wall (Some (live_nonces g)) n t \<longleftrightarrow>
      unix (if t = zero_time then wall else t)
        \<le> unix (if gi_nonce_now i0 = zero_time then gi_wall i0 else gi_nonce_now i0) + 120"
proof -
  have "unix (t' + NonceTTL) = unix t' + 120" for t'
    using unix_add_seconds[of t' 120] by (simp add: NonceTTL_def)
  then show "n = nonce_of (gi_nonce_rand i0)"
    "nonce_Has wall (Some (live_nonces g)) n t \<longleftrightarrow>
      unix (if t = zero_time then wall else t)
        \<le> unix (if gi_nonce_now i0 = zero_time then gi_wall i0 else gi_nonce_now i0) + 120"
    using assms nonce_of_not_blank[of "gi_nonce_rand i0"]
    by (auto simp: issueNonce_def nonce_Issue_def nonce_Has_def Let_def live_nonces_def)
qed

text \<open>A proof that the cache has not seen is taken, if the cache keeps no log or its write succeeds.\<close>

lemma fresh_use:
  assumes "rc_file rc = None \<or> io_written (gi_replay_io i) = None \<and> io_synced (gi_replay_io i)" "jti \<noteq> []" "rc_seen rc (ReplayJTI jti) = None" "rc_seen rc jti = None"
    and "unix (gi_replay_now i) \<le> ReplayUntil iat"
  shows "snd (consume_step J rc (proof_use i \<lparr>pr_JTI = jti, pr_IAT = iat, pr_JKT = k, pr_Nonce = n\<rparr>))"
proof -
  have "\<not> replayed (rc_seen (purgeLocked rc (gi_replay_now i))) (unix (gi_replay_now i)) [ReplayJTI jti, jti]"
    using assms(3,4) by (auto simp: replayed_iff dest: purge_only)
  then show ?thesis
    using assms(1,2,5)
    by (cases "rc_file rc") (auto simp: consume_step_snd proof_use_def cache_Consume_def Let_def ReplayJTI_def ReplayPrefix_def
        append_log_def append_bytes_def)
qed

lemma challenge_answered_granted:
  assumes nonce: "issueNonce g0 i0 = (n, g)" "gi_nonce_now i0 \<noteq> zero_time"
      "unix (gi_proof_now i) \<le> unix (gi_nonce_now i0) + 120"
    and sent: "setProof G p (authorized out ''DPoP'' tok) tok n = Inr snt" "plain tok"
    and key: "pi_key p = Inr (Some k)" "SignerFromKeyFile k = Inr s" "ed25519_laws G (sg_seed s)"
      "\<And>m. sha256_Sum G m \<noteq> []"
    and uri: "OutboundURI (Some out) = Inr htu"
    and codec: "proof_codec_ok G (PublicMembers (signer_PublicJWK G s))
      (proof_of (pi_rand p) G (hr_Method out) htu tok (unix (pi_now p)) n)"
    and target: "same_target snt inb" "hr_Header inb = hr_Header snt"
    and clock: "pi_now p \<noteq> zero_time" "gi_proof_now i \<noteq> zero_time" "0 < unix (pi_now p)" "unix (pi_now p) < 2 ^ 62"
      "0 \<le> unix (gi_proof_now i)" "unix (gi_proof_now i) < 2 ^ 62"
      "unix (gi_proof_now i) \<le> unix (pi_now p) + 30" "unix (pi_now p) \<le> unix (gi_proof_now i) + 30"
      "unix (gi_replay_now i) \<le> unix (pi_now p) + 30"
    and token: "gi_allow i" "verifier_Verify G (live_verifier g i) tok (gw_Audience g) (gi_verify_now i) = Inr chain"
      "Complete (ge_visor G) (FromChain (ge_visor G) chain (gw_ShortName g)) = None"
      "denyIdentity i (FromChain (ge_visor G) chain (gw_ShortName g)) = Inr []"
      "Thumbprint G (signer_PublicJWK G s) = Inr (ConfirmJKT (ac_Claims chain))"
    and fresh: "gw_ProofReplay g = Some rc" "rc_file rc = None \<or> io_written (gi_replay_io i) = None \<and> io_synced (gi_replay_io i)" "rc_seen rc (ReplayJTI (dpop_newJTI (pi_rand p))) = None"
      "rc_seen rc (dpop_newJTI (pi_rand p)) = None"
    and audit: "gw_Audit g = Some l" "fst (Append (ge_audit G) l (gi_stamp i) (gi_audit_io i)
      (allowed_event g chain (FromChain (ge_visor G) chain (gw_ShortName g)))) = None"
  shows "granted (fst (handlePEP G g i inb))"
proof -
  let ?jkt = "ConfirmJKT (ac_Claims chain)"
  let ?pf = "\<lparr>pr_JTI = dpop_newJTI (pi_rand p), pr_IAT = unix (pi_now p), pr_JKT = ?jkt, pr_Nonce = n\<rparr>"
  have c: "carries G out tok (Some p) n snt" by (rule setProof_carries[OF sent(1)])
  then have h: "hr_Method snt = hr_Method out" "OutboundURI (Some snt) = Inr htu"
    "ProveWithNonce G (pi_wall p) (pi_rand p) (Some k) (hr_Method snt) htu tok (pi_now p) n
       = Inr (header_Get (hr_Header inb) ''DPoP'')"
    using uri key(1) target(2) carries_uri[OF c] by (auto simp: carries_def)
  have cred: "credential inb = tok"
    using carries_credential[OF c sent(2)] target(2) by (simp add: credential_def)
  have wall: "ProveWithNonce G w rnd kf m u t (pi_now p) x = ProveWithNonce G w' rnd kf m u t (pi_now p) x"
    for w rnd kf m u t x w'
    unfolding ProveWithNonce_def if_not_P[OF clock(1)] by (rule refl)
  have jkt: "?jkt \<noteq> []" by (rule Thumbprint_nonempty[OF token(5) key(4)])
  have tok: "tok \<noteq> []" using sent(2) by (simp add: plain_def)
  have n: "TrimSpace n = n" using plain_trim[OF plain_nonce] issueNonce_live(1)[OF nonce(1)] by simp
  have v: "dpop_Verify G (gi_wall i) (Some inb) tok ?jkt (gi_proof_now i) = Inr ?pf"
    using prove_verify[OF trans[OF wall h(3)] key(2,3) codec[folded h(1)] target(1) h(2) refl clock(1-8), of ?jkt] tok token(5) key(4) jkt n
    by simp
  have "unix (gi_replay_now i) \<le> ReplayUntil (unix (pi_now p))"
    using clock by (simp add: ReplayUntil_pos i64_id in_i64_def)
  then have use: "snd (consume_step (ge_records G) rc (proof_use i ?pf))"
    using fresh(2-4) by (intro fresh_use) (simp_all add: dpop_newJTI_def)
  have has: "nonce_Has (gi_wall i) (Some (live_nonces g)) n (gi_proof_now i)"
    using issueNonce_live(2)[OF nonce(1)] nonce(2,3) clock(2) by simp
  have "fst (consume_proof G g i ?pf) = None"
    using consume_proof_None[of G g i ?pf] has use fresh(1) by simp
  moreover have "identified G g i inb chain" using token cred tok by (simp add: identified_def)
  moreover have "check_proof G g i inb (credential inb) chain = Inr ?pf"
    using v cred jkt fresh(1) by (simp add: check_proof_Inr)
  moreover have "fst (gw_record G g i (allowed_event g chain (FromChain (ge_visor G) chain (gw_ShortName g))))"
    using audit by (simp add: gw_record_True)
  ultimately show ?thesis unfolding granted_iff by blast
qed

section \<open>A concrete gateway\<close>

definition example_caller :: claims where
  "example_caller =
    \<lparr>c_iss = ''sts'', c_sub = ''alice'', c_aud = [''gw''], c_exp = 1000, c_nbf = 0, c_iat = 0, c_jti = ''j1'',
     c_txn = ''t1'', c_act = Some (Actor ''sts'' ''agent'' None), c_actchain = [], c_scope = ''read'', c_purp = [],
     c_cnf = Some \<lparr>cnf_jkt = holder_jkt\<rparr>\<rparr>"

definition caller_token :: bytes where
  "caller_token = signer_SignClaims (example_env [example_caller]) example_signer example_caller"

definition example_caller_nonce :: bytes where "example_caller_nonce = nonce_of ''a''"

definition example_caller_dpop :: dpop_env where
  "example_caller_dpop = example_dpop_env [example_caller] [example_proof caller_token example_caller_nonce]"

definition example_gateway_env :: gateway_env where
  "example_gateway_env = dpop_env.extend example_caller_dpop
    \<lparr>ge_visor = \<lparr>vs_Sum256 = (\<lambda>m. []), vs_Marshal_body = (\<lambda>b. []), vs_FormatTime = (\<lambda>t. []), vs_Marshal_actor = (\<lambda>a. Some ''actor'')\<rparr>,
     ge_audit = compact_audit, ge_records = example_records, ge_ProxyHeaders = (\<lambda>h. h), ge_ParseMediaType = Some\<rparr>"

definition example_gateway :: "http_url option \<Rightarrow> gateway" where
  "example_gateway backend =
    \<lparr>gw_Audience = ''gw'',
     gw_Verifier = \<lparr>vf_Keys = [signer_PublicJWK (example_env [example_caller]) example_signer], vf_KeysFn = None,
       vf_Issuer = ''sts''\<rparr>,
     gw_Audit = Some \<lparr>lg_file = Some [], lg_prevHash = [], lg_chainIndex = 0, lg_poisoned = False\<rparr>,
     gw_Backend = backend, gw_IdentityOnly = False, gw_ShortName = False, gw_ProofReplay = Some NewReplayCache,
     gw_Nonces = Some NewNonceCache, gw_Metrics = \<lparr>gm_Allowed = 0, gm_Denied = 0, gm_RateLimited = 0\<rparr>\<rparr>"

definition example_gw_inputs :: "bytes \<Rightarrow> gateway_inputs" where
  "example_gw_inputs rnd =
    \<lparr>gi_allow = True, gi_keys = None, gi_denylist = None, gi_wall = 0, gi_verify_now = 520 * second,
     gi_proof_now = 520 * second, gi_nonce_now = 520 * second, gi_nonce_rand = rnd, gi_replay_now = 520 * second,
     gi_replay_io = \<lparr>io_written = None, io_synced = True\<rparr>, gi_stamp = ''t'',
     gi_audit_io = \<lparr>io_written = None, io_synced = True\<rparr>\<rparr>"

text \<open>The gateway after it has issued the nonce, and the request that answers it.\<close>

definition example_ready :: "http_url option \<Rightarrow> gateway" where
  "example_ready backend = snd (issueNonce (example_gateway backend) (example_gw_inputs ''a''))"

definition example_sent :: http_request where
  "example_sent = projr (setProof example_gateway_env example_hop_proof
     (authorized (example_call Map.empty) ''DPoP'' caller_token) caller_token example_caller_nonce)"

lemma example_env_agrees:
  "dpop_env.truncate example_gateway_env = dpop_env.truncate example_caller_dpop"
  "token_env.truncate example_gateway_env = token_env.truncate (example_dpop_env [example_caller] pcs)"
  "token_env.truncate example_caller_dpop = token_env.truncate (example_dpop_env [example_caller] pcs)"
  by (simp_all add: example_gateway_env_def example_caller_dpop_def dpop_env.defs token_env.defs example_dpop_env_def)

definition example_caller_chain :: actor_chain where
  "example_caller_chain = chainFromClaims caller_token example_caller"

lemma example_caller_verified:
  "jws_Verify example_gateway_env caller_token [signer_PublicJWK (example_env [example_caller]) example_signer]
    = Inr (\<lparr>h_alg = ''EdDSA'', h_typ = ''JWT'', h_kid = ''k1''\<rparr>, example_caller)"
proof -
  define E where "E = example_dpop_env [example_caller] []"
  have s: "signer_SignClaims E example_signer example_caller = caller_token"
    "signer_PublicJWK E example_signer = signer_PublicJWK (example_env [example_caller]) example_signer"
    by (simp_all add: E_def caller_token_def)
  have "VerifyKey E (signer_SignClaims E example_signer example_caller) [signer_PublicJWK E example_signer]
    = Inr (\<lparr>h_alg = ''EdDSA'', h_typ = ''JWT'', h_kid = sg_kid example_signer\<rparr>, example_caller,
        signer_PublicJWK E example_signer)"
    by (rule sign_VerifyKey) (simp_all add: E_def example_dpop_codec, simp_all add: example_signer_def)
  then have "jws_Verify E caller_token [signer_PublicJWK (example_env [example_caller]) example_signer]
    = Inr (\<lparr>h_alg = ''EdDSA'', h_typ = ''JWT'', h_kid = ''k1''\<rparr>, example_caller)"
    unfolding s by (simp add: jws_Verify_def) (simp add: example_signer_def)
  then show ?thesis
    unfolding E_def jws_Verify_agree(2)[OF example_env_agrees(2), of caller_token _ "[]"] .
qed

lemma example_ready_simps [simp]:
  "gw_Audience (example_ready b) = ''gw''" "gw_Verifier (example_ready b) = gw_Verifier (example_gateway b)"
  "gw_Audit (example_ready b) = gw_Audit (example_gateway b)"
  "gw_ProofReplay (example_ready b) = Some NewReplayCache" "gw_ShortName (example_ready b) = False"
  "gw_IdentityOnly (example_ready b) = False" "gw_Backend (example_ready b) = b"
  using config_of_steps(4)[of "example_gateway b" "example_gw_inputs ''a''"]
  by (simp_all add: example_ready_def config_of_def) (simp_all add: example_gateway_def)

lemma example_caller_accepted:
  "verifier_Verify example_gateway_env (live_verifier (example_ready b) (example_gw_inputs rnd)) caller_token ''gw''
    (520 * second) = Inr example_caller_chain"
  unfolding example_caller_chain_def
proof (rule verifier_VerifyI)
  show "verifier_keys (Some (live_verifier (example_ready b) (example_gw_inputs rnd)))
    = Inr [signer_PublicJWK (example_env [example_caller]) example_signer]"
    by (simp add: verifier_keys_def live_verifier_def) (simp add: example_gateway_def example_gw_inputs_def)
  show "ValidateTime example_caller (520 * second) 0 = None"
    by (simp add: ValidateTime_default example_caller_def unix_def i64_def)
  have "\<not> is_blank ''alice''" by code_simp
  then show "\<not> is_blank (c_sub example_caller)" by (simp add: example_caller_def)
  show "vf_Issuer (live_verifier (example_ready b) (example_gw_inputs rnd)) = [] \<or>
      c_iss example_caller = vf_Issuer (live_verifier (example_ready b) (example_gw_inputs rnd))"
    by (simp add: live_verifier_def) (simp add: example_gateway_def example_caller_def)
qed (use example_caller_verified in \<open>simp_all add: example_caller_def\<close>)

lemma example_caller_complete:
  "Complete (ge_visor example_gateway_env) (FromChain (ge_visor example_gateway_env) example_caller_chain False) = None"
proof -
  define V where "V = ge_visor example_gateway_env"
  have w: "\<not> is_blank ''alice''" "\<not> is_blank ''agent''" "\<not> is_blank ''t1''" by code_simp+
  have hash: "SnapshotHash V a = []" for a
    by (simp add: V_def SnapshotHash_def example_gateway_env_def dpop_env.defs hex_encode_def)
  have f: "ac_Principal example_caller_chain = ''alice''" "ac_Actor example_caller_chain = ''agent''"
    "ac_Txn example_caller_chain = ''t1''" "ac_Hops example_caller_chain = [''alice'', ''agent'']"
    "ac_Expires example_caller_chain = 1000 * second"
    by (simp_all add: example_caller_chain_def chainFromClaims_def example_caller_def ActorSubs_def Let_def)
  let ?u = "unsealed_context example_caller_chain"
  have "ValidateStructure V (?u\<lparr>va_IdentitySnapshotHash := SnapshotHash V ?u\<rparr>) = None"
    unfolding ValidateStructure_None using w
    by (simp add: hash) (simp add: unsealed_context_def chain_hops_def f zero_time_def)
  then have "contextFromChain V example_caller_chain = Inr (?u\<lparr>va_IdentitySnapshotHash := SnapshotHash V ?u\<rparr>)"
    and "ValidateStructure V (?u\<lparr>va_IdentitySnapshotHash := SnapshotHash V ?u\<rparr>) = None"
    by (simp_all add: contextFromChain_Inr_iff)
  then show ?thesis using w by (simp add: Complete_def FromChain_def f flip: V_def)
qed

lemma example_hop_proof_simps:
  "pi_key example_hop_proof = Inr (Some example_holder)" "pi_now example_hop_proof = 500000000000"
  "pi_rand example_hop_proof = ''0123456789abcdef''"
  by (simp_all add: example_hop_proof_def)

lemma example_sent_proof:
  "setProof example_gateway_env example_hop_proof (authorized (example_call Map.empty) ''DPoP'' caller_token)
     caller_token example_caller_nonce = Inr example_sent"
proof -
  have "OutboundURI (Some (authorized (example_call Map.empty) ''DPoP'' caller_token)) = Inr ''https://gw/mcp''"
    unfolding authorized_def by (subst OutboundURI_header) simp
  then have "\<exists>r. setProof example_gateway_env example_hop_proof
      (authorized (example_call Map.empty) ''DPoP'' caller_token) caller_token example_caller_nonce = Inr r"
    by (simp add: setProof_def ProveWithNonce_def example_hop_proof_simps example_holder_signer)
  then show ?thesis by (auto simp: example_sent_def)
qed

lemma example_sent_target: "same_target example_sent example_sent"
proof -
  have c: "carries example_gateway_env (example_call Map.empty) caller_token (Some example_hop_proof)
      example_caller_nonce example_sent"
    by (rule setProof_carries[OF example_sent_proof])
  have "\<not> is_blank ''gw''" by code_simp
  then show ?thesis
    using c carries_uri[OF c]
    by (simp add: same_target_def RequestURI_def carries_def) (simp add: example_call_def escapedPath_def example_url_def)
qed

lemma example_caller_plain: "plain caller_token"
  unfolding caller_token_def signer_SignClaims_def by (rule plain_compact)

lemma example_gateway_laws:
  "ed25519_laws example_gateway_env seed"
  "Thumbprint example_gateway_env (signer_PublicJWK example_gateway_env holder_signer) = Inr holder_jkt"
  "sha256_Sum example_gateway_env m \<noteq> []"
  "proof_codec_ok example_gateway_env (PublicMembers (signer_PublicJWK example_gateway_env holder_signer))
     (proof_of ''0123456789abcdef'' example_gateway_env ''POST'' ''https://gw/mcp'' caller_token 500 example_caller_nonce)"
proof -
  define c where "c = example_proof caller_token example_caller_nonce"
  note agree = example_env_agrees(2)[of "[c]"]
  show laws: "ed25519_laws example_gateway_env seed" for seed
    unfolding signer_SignClaims_agree(2)[OF agree] by simp
  have pub: "signer_PublicJWK example_gateway_env s = signer_PublicJWK (example_env [example_caller]) s" for s
    unfolding verifySig_agree(3)[OF agree] by simp
  have "Thumbprint example_gateway_env (signer_PublicJWK example_gateway_env holder_signer)
    = Thumbprint (example_env [example_caller]) (signer_PublicJWK (example_env [example_caller]) holder_signer)"
    unfolding pub verifySig_agree(2)[OF agree] by simp
  then show "Thumbprint example_gateway_env (signer_PublicJWK example_gateway_env holder_signer) = Inr holder_jkt"
    using Thumbprint_signer[OF example_ed25519, of "[example_caller]" holder_signer] by (simp add: example_holder_jkt)
  show "sha256_Sum example_gateway_env m \<noteq> []"
    unfolding token_env_agree(7)[OF agree] by (rule example_sum_nonempty)
  have f: "proof_codec_ok example_gateway_env j x = proof_codec_ok (example_dpop_env [example_caller] [c]) j x" for j x
    by (simp add: proof_codec_ok_def rejectPrivateJWK_def example_gateway_env_def example_caller_dpop_def c_def
        dpop_env.defs example_dpop_env_def token_env.defs Let_def)
  have "proof_of ''0123456789abcdef'' example_gateway_env ''POST'' ''https://gw/mcp'' caller_token 500 example_caller_nonce
    = proof_of ''0123456789abcdef'' (example_dpop_env [example_caller] [c]) ''POST'' ''https://gw/mcp'' caller_token 500
        example_caller_nonce"
    unfolding proof_of_def verifySig_agree(5)[OF agree] by (rule refl)
  also have "\<dots> = c" by (simp only: example_proof_of) (simp only: c_def)
  finally show "proof_codec_ok example_gateway_env (PublicMembers (signer_PublicJWK example_gateway_env holder_signer))
     (proof_of ''0123456789abcdef'' example_gateway_env ''POST'' ''https://gw/mcp'' caller_token 500 example_caller_nonce)"
    unfolding f pub by (simp add: example_proof_codec)
qed

text \<open>The answered challenge is granted.\<close>

lemma example_answer:
  "issueNonce (example_gateway b) (example_gw_inputs ''a'') = (example_caller_nonce, example_ready b)"
  by (simp add: example_ready_def example_caller_nonce_def prod_eq_iff)
    (simp add: issueNonce_def nonce_Issue_def example_gw_inputs_def Let_def split: prod.split)

lemma example_answer_proof:
  "proof_codec_ok example_gateway_env (PublicMembers (signer_PublicJWK example_gateway_env holder_signer))
      (proof_of (pi_rand example_hop_proof) example_gateway_env (hr_Method (example_call Map.empty)) ''https://gw/mcp''
        caller_token (unix (pi_now example_hop_proof)) example_caller_nonce)"
  "Thumbprint example_gateway_env (signer_PublicJWK example_gateway_env holder_signer)
      = Inr (ConfirmJKT (ac_Claims example_caller_chain))"
  using example_gateway_laws(2,4)
  by (simp_all add: example_hop_proof_simps example_call_method example_clock)
    (simp add: example_caller_chain_def chainFromClaims_def example_caller_def ConfirmJKT_def Let_def)

lemma allowed_event_small: "small_event (allowed_event g c m)"
proof -
  have "bounded_string ''identity_allowed''" "bounded_string Gw_ReasonOK" "length Gw_ReasonOK \<le> 64"
    by (simp_all add: bounded_string_def maxEventString_def) (code_simp+)
  then show ?thesis by (simp add: small_event_def allowed_event_def empty_event_def in_i64_def)
qed

lemma example_gateway_audit: "ge_audit example_gateway_env = compact_audit"
  by (simp add: example_gateway_env_def dpop_env.defs)

lemma example_answer_audit:
  "fst (Append (ge_audit example_gateway_env) (the (gw_Audit (example_gateway b))) (gi_stamp (example_gw_inputs rnd))
      \<lparr>io_written = None, io_synced = True\<rparr> (allowed_event g c m)) = None"
  "gw_Audit (example_ready b) = Some (the (gw_Audit (example_gateway b)))"
proof -
  have ready: "log_open (the (gw_Audit (example_gateway b)))" "length (gi_stamp (example_gw_inputs rnd)) \<le> 64"
    by (simp_all add: log_open_def example_gateway_def example_gw_inputs_def)
  obtain l' where "Append compact_audit (the (gw_Audit (example_gateway b))) (gi_stamp (example_gw_inputs rnd))
      \<lparr>io_written = None, io_synced = True\<rparr> (allowed_event g c m) = (None, l')"
    by (rule Append_fits[OF compact_audit_bound ready allowed_event_small])
  then show "fst (Append (ge_audit example_gateway_env) (the (gw_Audit (example_gateway b))) (gi_stamp (example_gw_inputs rnd))
      \<lparr>io_written = None, io_synced = True\<rparr> (allowed_event g c m)) = None" by (simp add: example_gateway_audit)
qed (simp add: example_gateway_def)

lemma example_gw_inputs_simps:
  "gi_allow (example_gw_inputs rnd)" "gi_proof_now (example_gw_inputs rnd) = 520000000000"
  "gi_replay_now (example_gw_inputs rnd) = 520000000000" "gi_verify_now (example_gw_inputs rnd) = 520000000000"
  "gi_nonce_now (example_gw_inputs rnd) = 520000000000" "denyIdentity (example_gw_inputs rnd) m = Inr []"
  "gi_audit_io (example_gw_inputs rnd) = \<lparr>io_written = None, io_synced = True\<rparr>"
  "rc_file NewReplayCache = None" "rc_seen NewReplayCache x = None"
  by (simp_all add: example_gw_inputs_def denyIdentity_def NewReplayCache_def)

lemmas example_answer_simps =
  example_gw_inputs_simps example_gateway_laws(1,3) example_sent_proof example_sent_target example_caller_accepted[simplified]
  example_caller_complete example_caller_plain example_hop_proof_simps example_holder_signer example_clock

lemma example_granted: "granted (fst (handlePEP example_gateway_env (example_ready b) (example_gw_inputs ''b'') example_sent))"
  by (rule challenge_answered_granted[OF example_answer _ _ _ _ _ _ _ _ _ example_answer_proof(1) _ _ _ _ _ _ _ _ _ _ _ _ _ _ _
        example_answer_proof(2) _ _ _ _ example_answer_audit(2)])
    (simp_all add: example_answer_simps example_answer_audit(1) del: example_ready_simps(3), simp_all add: example_answer_simps)

section \<open>Properties\<close>

lemma DenyChain_Nil:
  "DenyChain d p a hops = [] \<longleftrightarrow> \<not> HasPrincipal d p \<and> \<not> HasAgent d a \<and> (\<forall>h \<in> set (tl hops). \<not> HasAgent d h)"
proof -
  have "ReasonPrincipalDenied \<noteq> []" "ReasonAgentDenied \<noteq> []"
    by (simp_all add: ReasonPrincipalDenied_def ReasonAgentDenied_def)
  then show ?thesis by (cases d) (auto simp: DenyChain_def deny_hops_0)
qed

text \<open>What the requirement of a fresh proof means: its time is within thirty seconds of the clock, its nonce
  was issued by the gateway and has not run out, and neither its id nor the name it is stored under is
  among the ids that are still spent.\<close>

definition fresh_proof :: "gateway \<Rightarrow> gateway_inputs \<Rightarrow> proof_claims \<Rightarrow> bool" where
  "fresh_proof g i pc \<longleftrightarrow>
    (let sec = unix (if gi_proof_now i = zero_time then gi_wall i else gi_proof_now i) in
     pc_JTI pc \<noteq> [] \<and> sec \<le> i64 (pc_IAT pc + 30) \<and> pc_IAT pc \<le> i64 (sec + 30) \<and> \<not> is_blank (pc_Nonce pc) \<and>
     (\<exists>until. nc_issued (live_nonces g) (pc_Nonce pc) = Some until \<and> sec \<le> until) \<and>
     (\<exists>rc. gw_ProofReplay g = Some rc \<and>
       (\<forall>k \<in> {ReplayJTI (pc_JTI pc), pc_JTI pc}. \<forall>u. rc_seen rc k = Some u \<longrightarrow> u < unix (gi_replay_now i))))"

lemma used_was_fresh:
  assumes "snd (consume_step J rc (proof_use i pf))" "k \<in> {ReplayJTI (pr_JTI pf), pr_JTI pf}" "k \<noteq> []"
    and "rc_seen rc k = Some u"
  shows "u < unix (gi_replay_now i)"
proof (rule ccontr)
  assume "\<not> u < unix (gi_replay_now i)"
  then have "rc_seen (purgeLocked rc (gi_replay_now i)) k = Some u" by (intro purge_keeps[OF assms(4)]) simp
  with \<open>\<not> u < unix (gi_replay_now i)\<close> assms(2,3)
  have "replayed (rc_seen (purgeLocked rc (gi_replay_now i))) (unix (gi_replay_now i)) [ReplayJTI (pr_JTI pf), pr_JTI pf]"
    by (auto simp: replayed_iff)
  then show False
    using assms(1) by (cases rule: consume_step_cases[of J rc "proof_use i pf"]) (simp_all add: proof_use_def)
qed

text \<open>What a grant leaves: the id of the proof is spent for as long as the proof would be in time, and its
  nonce is gone, unless it is the one that is handed out with the answer.\<close>

definition spent_proof :: "gateway \<Rightarrow> gateway_inputs \<Rightarrow> proof_claims \<Rightarrow> bool" where
  "spent_proof g i pc \<longleftrightarrow>
    (\<exists>rc. gw_ProofReplay g = Some rc \<and> rc_seen rc (ReplayJTI (pc_JTI pc)) = Some (ReplayUntil (pc_IAT pc))) \<and>
    (pc_Nonce pc \<noteq> nonce_of (gi_nonce_rand i) \<longrightarrow> nc_issued (live_nonces g) (pc_Nonce pc) = None)"

text \<open>C1: Only the holder of the token's key, for this very request, gets through. A granted request carries
  a token that is signed by a live key of the trusted issuer for this gateway alone and is in time,
  and a proof that names the request's method, its URI as the gateway sees it and that token, made
  with the key the token confirms. The proof is fresh: made within thirty seconds of the gateway's clock,
  with a nonce that the gateway issued and has not taken back, and with an id that is not spent; after
  the grant id and nonce are spent. The acting agent is the last of the token's hops, the transaction
  is named, and the current denylist, if one is configured, could be read and denies neither the
  principal nor any agent of the chain.\<close>

theorem granted_to_holder:
  assumes "granted (fst (handlePEP G g i r))"
  shows "\<exists>ks h c j pc. verifier_keys (Some (live_verifier g i)) = Inr ks \<and> jws_Verify G (credential r) ks = Inr (h, c) \<and>
    (vf_Issuer (gw_Verifier g) = [] \<or> c_iss c = vf_Issuer (gw_Verifier g)) \<and> c_aud c = [gw_Audience g] \<and>
    ValidateTime c (gi_verify_now i) 0 = None \<and> \<not> is_blank (c_sub c) \<and> \<not> is_blank (c_txn c) \<and>
    (\<exists>a. c_act c = Some a \<and> act_sub a = last (c_sub c # ActorSubs c)) \<and>
    proof_carried G r j pc \<and> Thumbprint G j = Inr (ConfirmJKT c) \<and> pc_ATH pc = AccessTokenHash G (credential r) \<and>
    pc_HTM pc = hr_Method r \<and>
    pc_HTU pc = (if hr_TLS r then ''https'' else ''http'') @ ''://'' @ hr_Host r @ escapedPath r \<and>
    fresh_proof g i pc \<and> spent_proof (snd (handlePEP G g i r)) i pc \<and>
    gi_allow i \<and> (\<forall>e. gi_denylist i \<noteq> Some (Inl e)) \<and>
    (\<forall>d. gi_denylist i = Some (Inr d) \<longrightarrow>
       \<not> HasPrincipal d (c_sub c) \<and> (\<forall>a \<in> set (ActorSubs c). \<not> HasAgent d a))"
  using assms
proof (rule grantedE)
  fix chain pf rc l
  assume ident: "identified G g i r chain"
    and v: "dpop_Verify G (gi_wall i) (Some r) (credential r) (ConfirmJKT (ac_Claims chain)) (gi_proof_now i) = Inr pf"
    and has: "nonce_Has (gi_wall i) (Some (live_nonces g)) (pr_Nonce pf) (gi_proof_now i)"
    and use: "gw_ProofReplay g = Some rc" "snd (consume_step (ge_records G) rc (proof_use i pf))"
    and after: "gw_ProofReplay (snd (handlePEP G g i r)) = Some (fst (consume_step (ge_records G) rc (proof_use i pf)))"
      "gw_Nonces (snd (handlePEP G g i r)) = snd (nonce_Issue (gi_wall i) (gi_nonce_rand i)
        (snd (nonce_Consume (gi_wall i) (Some (live_nonces g)) (pr_Nonce pf) (gi_proof_now i))) (gi_nonce_now i))"
  let ?m = "FromChain (ge_visor G) chain (gw_ShortName g)"
  have ver: "verifier_Verify G (live_verifier g i) (credential r) (gw_Audience g) (gi_verify_now i) = Inr chain"
    and cred: "credential r \<noteq> []" using ident by (simp_all add: identified_def)
  from ver obtain ks h c where c: "verifier_keys (Some (live_verifier g i)) = Inr ks"
    "jws_Verify G (credential r) ks = Inr (h, c)" "vf_Issuer (live_verifier g i) = [] \<or> c_iss c = vf_Issuer (live_verifier g i)"
    "\<not> is_blank (c_sub c)" "c_aud c = [gw_Audience g]" "ValidateTime c (gi_verify_now i) 0 = None"
    and ch: "chain = chainFromClaims (credential r) c" by (rule verifier_Verify_InrD)
  have fields: "ac_Principal chain = c_sub c" "ac_Txn chain = c_txn c" "ac_Hops chain = c_sub c # ActorSubs c"
    "ac_Actor chain = (case c_act c of None \<Rightarrow> [] | Some a \<Rightarrow> act_sub a)" "ac_Claims chain = c"
    unfolding ch by (simp_all add: chainFromClaims_def Let_def)
  have comp: "Complete (ge_visor G) ?m = None" using ident by (simp add: identified_def)
  have "mp_ActingAgent ?m = ac_Actor chain" "mp_SessionID ?m = ac_Txn chain" by (simp_all add: FromChain_def Let_def)
  with comp have blank: "\<not> is_blank (ac_Actor chain)" "\<not> is_blank (ac_Txn chain)"
    by (auto simp: Complete_def split: if_splits)
  from comp obtain a where a: "contextFromChain (ge_visor G) chain = Inr a" by (rule FromChain_context)
  have hops: "ac_Hops chain \<noteq> []" by (simp add: fields)
  have "ar_ID (last (va_ActorChain a)) = va_ActingAgent a" "va_ActorChain a \<noteq> []"
    using a by (auto simp: contextFromChain_Inr_iff ValidateStructure_None)
  then have "last (ac_Hops chain) = ac_Actor chain"
    using contextFromChain_Inr(2,4)[OF a hops] by (metis last_map)
  with blank(1) fields have act: "\<exists>x. c_act c = Some x \<and> act_sub x = last (c_sub c # ActorSubs c)"
    by (auto split: option.splits)
  obtain j pc where j: "proof_carried G r j pc"
    "check_proof_claims G (gi_wall i) r (credential r = []) (credential r) (ConfirmJKT c) (gi_proof_now i) j pc = Inr pf"
    using v fields(5) unfolding dpop_Verify_Inr by auto
  then have pf: "pr_JTI pf = pc_JTI pc" "pr_IAT pf = pc_IAT pc" "pr_Nonce pf = pc_Nonce pc" "pc_JTI pc \<noteq> []"
    by (auto simp: check_proof_claims_Inr)
  have fresh: "fresh_proof g i pc"
  proof -
    have "u < unix (gi_replay_now i)" if "k \<in> {ReplayJTI (pc_JTI pc), pc_JTI pc}" "rc_seen rc k = Some u" for k u
      using used_was_fresh[OF use(2), of k u] that pf by (auto simp: ReplayJTI_def)
    then show ?thesis
      using has j(2) use(1) pf by (auto simp: fresh_proof_def check_proof_claims_Inr nonce_Has_def Let_def split: if_splits option.splits)
  qed
  have spent: "spent_proof (snd (handlePEP G g i r)) i pc"
  proof -
    obtain s where s: "snd (nonce_Consume (gi_wall i) (Some (live_nonces g)) (pr_Nonce pf) (gi_proof_now i)) = Some s"
      using nonce_Consume_keeps_cache by blast
    have "nc_issued (live_nonces (snd (handlePEP G g i r))) (pr_Nonce pf) = None" if "nonce_of (gi_nonce_rand i) \<noteq> pr_Nonce pf"
      using live_issue[OF after(2)[unfolded s] _ that] Consume_takes[OF s has] by simp
    moreover have "rc_seen (fst (consume_step (ge_records G) rc (proof_use i pf))) (ReplayJTI (pr_JTI pf)) = Some (ReplayUntil (pr_IAT pf))"
      using use(2) by (cases rule: consume_step_cases[of "ge_records G" rc "proof_use i pf"]) (simp_all add: proof_use_def)
    ultimately show ?thesis using after(1) pf by (simp add: spent_proof_def)
  qed
  have "denyIdentity i ?m = Inr []" "gi_allow i" using ident by (simp_all add: identified_def)
  moreover from this have "gi_denylist i \<noteq> Some (Inl e)" for e by (auto simp: denyIdentity_def)
  moreover have "mp_Principal ?m = c_sub c" "mp_Hops ?m = c_sub c # ActorSubs c"
    using fields by (simp_all add: FromChain_def Let_def)
  ultimately have "gi_allow i \<and> (\<forall>e. gi_denylist i \<noteq> Some (Inl e)) \<and> (\<forall>d. gi_denylist i = Some (Inr d) \<longrightarrow>
       \<not> HasPrincipal d (c_sub c) \<and> (\<forall>a \<in> set (ActorSubs c). \<not> HasAgent d a))"
    by (auto simp: denyIdentity_def DenyChain_Nil)
  then show ?thesis
    using c act j blank(2) fields cred fresh spent
    by (intro exI[of _ ks] exI[of _ h] exI[of _ c] exI[of _ j] exI[of _ pc])
      (auto simp: check_proof_claims_Inr expected_uri_def live_verifier_def)
qed

theorem granted_to_holder_witness:
  "\<exists>j pc. proof_carried example_gateway_env example_sent j pc \<and> Thumbprint example_gateway_env j = Inr holder_jkt \<and>
    pc_ATH pc = AccessTokenHash example_gateway_env (credential example_sent) \<and>
    fresh_proof (example_ready None) (example_gw_inputs ''b'') pc"
proof -
  have cred: "credential example_sent = caller_token"
    using carries_credential[OF setProof_carries[OF example_sent_proof] example_caller_plain] by (simp add: credential_def)
  have keys: "verifier_keys (Some (live_verifier (example_ready None) (example_gw_inputs ''b'')))
      = Inr [signer_PublicJWK (example_env [example_caller]) example_signer]"
    by (simp add: verifier_keys_def live_verifier_def) (simp add: example_gateway_def example_gw_inputs_def)
  show ?thesis
    using granted_to_holder[OF example_granted[of None]]
    unfolding keys cred by (auto simp: example_caller_verified) (auto simp: example_caller_def ConfirmJKT_def)
qed

text \<open>C17: A proof and a nonce are good for one granted request. Over any run of requests in which the replay
  clock does not go back, the requests that present one proof id with one time are granted at most once
  together; and those that present one nonce, none of which has the gateway issue it again, too.\<close>

theorem granted_once:
  assumes "sorted (map replay_second evs)" "list_all (\<lambda>ev. \<not> issues ev n) evs"
  shows "uses (proof_key G) (jti, iat) evs (answers (gw_step G) g evs) \<le> 1 \<and>
    uses (nonce_key_of G) n evs (answers (gw_step G) g evs) \<le> 1"
proof
  show "uses (proof_key G) (jti, iat) evs (answers (gw_step G) g evs) \<le> 1"
    by (rule proof_guard.used_at_most_once) (use assms(1) in simp_all)
  show "uses (nonce_key_of G) n evs (answers (gw_step G) g evs) \<le> 1"
    by (rule nonce_use_guard.used_at_most_once) (use assms(2) in \<open>simp_all add: list_all_iff sorted_const\<close>)
qed

theorem granted_once_witness:
  "snd (gw_step example_gateway_env (example_ready None) (example_gw_inputs ''b'', example_sent)) \<and>
   uses (proof_key example_gateway_env) (ReplayJTI (dpop_newJTI ''0123456789abcdef''), 500)
     [(example_gw_inputs ''b'', example_sent), (example_gw_inputs ''b'', example_sent)]
     (answers (gw_step example_gateway_env) (example_ready None)
       [(example_gw_inputs ''b'', example_sent), (example_gw_inputs ''b'', example_sent)]) \<le> 1"
proof -
  have "hex_encode ''a'' \<noteq> hex_encode ''b''" by code_simp
  then have "list_all (\<lambda>ev. \<not> issues ev example_caller_nonce)
      [(example_gw_inputs ''b'', example_sent), (example_gw_inputs ''b'', example_sent)]"
    by (simp add: issues_def example_caller_nonce_def nonce_of_def example_gw_inputs_def)
  note once = granted_once[OF _ this, where G = example_gateway_env and g = "example_ready None" and iat = 500
      and jti = "ReplayJTI (dpop_newJTI ''0123456789abcdef'')"]
  show ?thesis
    by (rule conjI[OF _ conjunct1[OF once]]) (simp_all add: example_granted)
qed

text \<open>C20: The backend sees the verified identity and only it. A forwarded request carries the client id, the
  session id and the hops of the verified mapping, whatever the caller or a middle box had put under
  those names, and no credential; so does the header of the answer, and a backend's own answer keeps
  none of these names and is never taken for a mapping.\<close>

theorem backend_sees_identity:
  assumes "handlePEP G g i r = (Gw_Forward h f, g')"
  shows "\<exists>chain. identified G g i r chain \<and> gw_Backend g = Some (fw_Backend f) \<and> \<not> gw_IdentityOnly g \<and>
    fw_Header f (canonical_key ''Authorization'') = None \<and>
    (let m = FromChain (ge_visor G) chain (gw_ShortName g) in
      \<forall>hs \<in> {h, fw_Header f}. hs (canonical_key HeaderClientID) = Some [mp_ClientID m] \<and>
        hs (canonical_key HeaderSessionID) = Some [mp_SessionID m] \<and>
        hs (canonical_key headerActorChain) = Some [strings_Join '' > '' (mp_Hops m)]) \<and>
    (\<forall>b. header_Get (stripBackendMapping G b) HeaderClientID = [] \<and>
       header_Get (stripBackendMapping G b) HeaderSessionID = [] \<and>
       header_Get (stripBackendMapping G b) headerActorChain = [] \<and>
       (header_Get (stripBackendMapping G b) ''Content-Type'' = [] \<or>
        ge_ParseMediaType G (header_Get (stripBackendMapping G b) ''Content-Type'') \<noteq> Some MappingContentType))"
proof -
  have "granted (fst (handlePEP G g i r))" using assms by (simp add: granted_def)
  then obtain chain g1 h1 where ch: "identified G g i r chain"
    and s: "fst (handlePEP G g i r) = serve_allowed G g1 h1 r (FromChain (ge_visor G) chain (gw_ShortName g))"
    "gw_IdentityOnly g1 = gw_IdentityOnly g" "gw_Backend g1 = gw_Backend g" by (rule grantedE) blast
  note names = HeaderClientID_def HeaderSessionID_def headerActorChain_def
  have f: "serve_allowed G g1 h1 r (FromChain (ge_visor G) chain (gw_ShortName g)) = Gw_Forward h f"
    using s(1) assms by simp
  then have "gw_Backend g = Some (fw_Backend f)" "\<not> gw_IdentityOnly g"
    using s(2,3) by (auto simp: serve_allowed_def Let_def split: option.splits if_splits)
  moreover have "fw_Header f = applyIdentityHeaders (header_Del (ge_ProxyHeaders G (hr_Header r)) ''Authorization'')
      (FromChain (ge_visor G) chain (gw_ShortName g))"
    and "h = applyIdentityHeaders h1 (FromChain (ge_visor G) chain (gw_ShortName g))"
    using f by (auto simp: serve_allowed_def Let_def split: option.splits if_splits)
  ultimately show ?thesis using ch
    by (intro exI[of _ chain]) (simp add: Let_def applyIdentityHeaders_def stripBackendMapping_def header_Set_def header_Del_def
      header_Get_def names)
qed

text \<open>The backend of the example.\<close>

theorem backend_sees_identity_witness:
  "\<exists>h f g'. handlePEP example_gateway_env (example_ready (Some example_url)) (example_gw_inputs ''b'') example_sent
     = (Gw_Forward h f, g') \<and> fw_Backend f = example_url \<and> fw_Header f ''Authorization'' = None"
proof -
  obtain res g' where e: "handlePEP example_gateway_env (example_ready (Some example_url)) (example_gw_inputs ''b'') example_sent
     = (res, g')" by fastforce
  obtain g1 h1 m where "res = serve_allowed example_gateway_env g1 h1 example_sent m" "gw_IdentityOnly g1 = False"
    "gw_Backend g1 = Some example_url"
    using grantedE[OF example_granted[of "Some example_url"]] e by (metis example_ready_simps(6,7) fst_conv)
  then obtain h f where "res = Gw_Forward h f" by (simp add: serve_allowed_def Let_def)
  with e backend_sees_identity[OF e[unfolded this]] show ?thesis by auto
qed

text \<open>C19: An honest client that answers a nonce challenge is served. If the gateway issued a nonce not more
  than two minutes ago and the client's tripper puts it, with the token it exchanged, into a request to
  that gateway, and the token is good there, confirms the client's key and names nobody denied, the
  clocks differ by at most the skew, the proof id is new and the record can be written, the request is
  granted.\<close>

theorem challenge_answered:
  assumes "issueNonce g0 i0 = (n, g)" "gi_nonce_now i0 \<noteq> zero_time" "unix (gi_proof_now i) \<le> unix (gi_nonce_now i0) + 120"
    and "setProof G p (authorized out ''DPoP'' tok) tok n = Inr snt" "plain tok"
    and "pi_key p = Inr (Some k)" "SignerFromKeyFile k = Inr s" "ed25519_laws G (sg_seed s)" "\<And>m. sha256_Sum G m \<noteq> []"
    and "OutboundURI (Some out) = Inr htu"
    and "proof_codec_ok G (PublicMembers (signer_PublicJWK G s))
      (proof_of (pi_rand p) G (hr_Method out) htu tok (unix (pi_now p)) n)"
    and "same_target snt inb" "hr_Header inb = hr_Header snt"
    and "pi_now p \<noteq> zero_time" "gi_proof_now i \<noteq> zero_time" "0 < unix (pi_now p)" "unix (pi_now p) < 2 ^ 62"
      "0 \<le> unix (gi_proof_now i)" "unix (gi_proof_now i) < 2 ^ 62"
      "unix (gi_proof_now i) \<le> unix (pi_now p) + 30" "unix (pi_now p) \<le> unix (gi_proof_now i) + 30"
      "unix (gi_replay_now i) \<le> unix (pi_now p) + 30"
    and "gi_allow i" "verifier_Verify G (live_verifier g i) tok (gw_Audience g) (gi_verify_now i) = Inr chain"
      "Complete (ge_visor G) (FromChain (ge_visor G) chain (gw_ShortName g)) = None"
      "denyIdentity i (FromChain (ge_visor G) chain (gw_ShortName g)) = Inr []"
      "Thumbprint G (signer_PublicJWK G s) = Inr (ConfirmJKT (ac_Claims chain))"
    and "gw_ProofReplay g = Some rc" "rc_file rc = None \<or> io_written (gi_replay_io i) = None \<and> io_synced (gi_replay_io i)" "rc_seen rc (ReplayJTI (dpop_newJTI (pi_rand p))) = None"
      "rc_seen rc (dpop_newJTI (pi_rand p)) = None"
    and "gw_Audit g = Some l" "fst (Append (ge_audit G) l (gi_stamp i) (gi_audit_io i)
      (allowed_event g chain (FromChain (ge_visor G) chain (gw_ShortName g)))) = None"
  shows "granted (fst (handlePEP G g i inb))"
  by (rule challenge_answered_granted) fact+

theorem challenge_answered_witness:
  "granted (fst (handlePEP example_gateway_env (example_ready None) (example_gw_inputs ''b'') example_sent))"
  by (rule challenge_answered[OF example_answer _ _ _ _ _ _ _ _ _ example_answer_proof(1) _ _ _ _ _ _ _ _ _ _ _ _ _ _ _
        example_answer_proof(2) _ _ _ _ example_answer_audit(2)])
    (simp_all add: example_answer_simps example_answer_audit(1) del: example_ready_simps(3), simp_all add: example_answer_simps)

text \<open>Every request is accounted for. A granted request raises the allowed counter by one and nothing
  else; any other request raises the denied counter by one, is answered by the gateway itself with 401,
  429 or 503 and carries an error and never a mapping. No request changes the configuration.\<close>

theorem pep_accounts:
  assumes "handlePEP G g i r = (res, g')"
  shows "config_of g' = config_of g \<and>
    (if granted res
     then gm_Allowed (gw_Metrics g') = gm_Allowed (gw_Metrics g) + 1 \<and> gm_Denied (gw_Metrics g') = gm_Denied (gw_Metrics g)
     else gm_Allowed (gw_Metrics g') = gm_Allowed (gw_Metrics g) \<and> gm_Denied (gw_Metrics g') = gm_Denied (gw_Metrics g) + 1 \<and>
       (\<exists>rs d. res = Gw_Reply rs \<and> rs_Status rs \<in> {401, 429, 503} \<and> rs_Body rs = Gb_Error d))"
proof -
  have c: "gw_Metrics g1 = gw_Metrics g" "config_of g1 = config_of g" if "consume_proof G g i pf = (e, g1)" for pf e g1
    using consume_proof_audit(3)[of G g i pf] consume_proof_config[of G g i pf] that by simp_all
  show ?thesis
  proof (cases rule: handlePEP_cases[of G g i r])
    case (refused status reason d m)
    then show ?thesis
      using assms writeDeny_counts[of G g i Map.empty status reason d m] not_granted_reply[of res]
      by (auto dest: writeDeny_refusesD simp: apfst_def map_prod_def split: prod.splits)
  next
    case (unproven chain status reason d m)
    then show ?thesis
      using assms writeDenyDPoP_counts[of G g i Map.empty status reason d m] not_granted_reply[of res]
      by (auto dest: writeDeny_refusesD simp: apfst_def map_prod_def split: prod.splits)
  next
    case (unfresh chain pf status reason d m g1)
    then show ?thesis
      using assms writeDenyDPoP_counts[of G g1 i Map.empty status reason d m] not_granted_reply[of res] c[OF unfresh(3)]
      by (auto dest: writeDeny_refusesD simp: apfst_def map_prod_def split: prod.splits)
  next
    case (unaudited chain pf g1)
    then show ?thesis
      using assms c[OF unaudited(3)]
      by (auto simp: failClosed_def http_Error_def granted_def count_denied_def)
  next
    case (allowed chain pf g1 g2 h)
    have "gw_Metrics g2 = gw_Metrics g1" "config_of g2 = config_of g1"
      using allowed(4) gw_record_keeps(3) config_of_steps(3) by (metis snd_conv)+
    with allowed(5) c[OF allowed(3)] assms show ?thesis by auto
  qed
qed

theorem pep_accounts_witness:
  "\<exists>res g'. handlePEP example_gateway_env (example_ready None) (example_gw_inputs ''b'') example_sent = (res, g') \<and>
    gm_Allowed (gw_Metrics g') = gm_Allowed (gw_Metrics (example_ready None)) + 1"
proof -
  obtain res g' where e: "handlePEP example_gateway_env (example_ready None) (example_gw_inputs ''b'') example_sent = (res, g')"
    by fastforce
  with pep_accounts[OF e] example_granted[of None] show ?thesis by auto
qed

end
