(* ===== verification/Session_Properties.thy ===== *)
theory Session_Properties
  imports Visor_Session Gateway_Properties
begin

text \<open>
  The session against the gateway: what a fetched mapping can say, whoever answered, and that the session
  accepts what an honest gateway answers to a granted request.
\<close>

section \<open>A mapping is that of the token\<close>

lemma session_call_Inr:
  assumes "session_call S wall rnd req now nonce = Inr r"
  shows "header_Get (hr_Header r) ''Authorization'' = ''DPoP '' @ sr_Token req"
    "\<exists>htu. OutboundURI (Some r) = Inr htu \<and> ProveWithNonce S wall rnd (sr_ProofKey req) ''POST'' htu (sr_Token req) now nonce
       = Inr (header_Get (hr_Header r) ''DPoP'')"
  using assms by (auto simp: session_call_def split: sum.splits)

text \<open>C18: No answer can change who the caller is. Whatever the gateway, or anything in front of it, answers, a
  mapping that the session takes is complete and is the mapping of the claims of the very token it
  holds: same principal, acting agent, hops, transaction, scopes, issuer, single audience, token id,
  expiry and proof key, in the mapping and in its sealed actor context, whose hash is right. The
  request went to an https or loopback URL without query or fragment, with that token and a proof of
  the configured key for it.\<close>

theorem session_mapping_bound:
  assumes "Fetch S send1 send2 wall rnd1 rnd2 req now = Inr m"
  shows "(\<exists>h c b. ParseUnverified S (sr_Token req) = Inr (h, c, b) \<and> mapping_of c m) \<and>
    Complete (se_visor S) m = None \<and>
    va_IdentitySnapshotHash (mp_VerifiedActor m) = SnapshotHash (se_visor S) (mp_VerifiedActor m) \<and>
    (\<exists>u. nt_Parse (se_net S) (sr_GatewayURL req) = Some u \<and> ur_RawQuery u = [] \<and> ur_Fragment u = [] \<and>
       (map ascii_lower (ur_Scheme u) = ''https'' \<or>
        map ascii_lower (ur_Scheme u) = ''http'' \<and> loopbackHost (se_net S) (ur_Hostname u))) \<and>
    (\<exists>rnd nonce r htu. session_call S wall rnd req now nonce = Inr r \<and>
       header_Get (hr_Header r) ''Authorization'' = ''DPoP '' @ sr_Token req \<and> OutboundURI (Some r) = Inr htu \<and>
       ProveWithNonce S wall rnd (sr_ProofKey req) ''POST'' htu (sr_Token req) now nonce
         = Inr (header_Get (hr_Header r) ''DPoP''))"
proof -
  obtain rnd nonce r resp where f: "session_call S wall rnd req now nonce = Inr r"
    "check_answer S (sr_Token req) nonce resp = Inr m" "CheckGatewayURL (se_net S) (sr_GatewayURL req) = None"
    using Fetch_InrD[OF assms] by metis
  from f(2) have m: "Complete (se_visor S) m = None" "mappingAgreesWithToken S m (sr_Token req) = None"
    by (simp_all add: check_answer_Inr)
  have "va_IdentitySnapshotHash (mp_VerifiedActor m) = SnapshotHash (se_visor S) (mp_VerifiedActor m)"
    using Complete_actor_valid[OF m(1)] by (simp add: ValidateStructure_None)
  moreover have "\<exists>u. nt_Parse (se_net S) (sr_GatewayURL req) = Some u \<and> ur_RawQuery u = [] \<and> ur_Fragment u = [] \<and>
       (map ascii_lower (ur_Scheme u) = ''https'' \<or>
        map ascii_lower (ur_Scheme u) = ''http'' \<and> loopbackHost (se_net S) (ur_Hostname u))"
    using f(3) by (auto simp: CheckGatewayURL_def CheckJWKSURL_None split: option.splits if_splits)
  ultimately show ?thesis
    using m f(1) session_call_Inr[OF f(1)] unfolding mappingAgreesWithToken_None by blast
qed

section \<open>An honest gateway is believed\<close>

text \<open>The session takes what the gateway grants. If the gateway in identity-only mode granted a request with
  the session's token and its answer arrives whole, the session accepts it and has exactly the mapping
  that the gateway made of the verified token.\<close>

theorem granted_mapping_accepted:
  assumes "handlePEP G g i r = (Gw_Reply rs, g')" "rs_Body rs = Gb_Mapping m" "credential r = tok"
    and "token_env.truncate G = token_env.truncate S" "ge_visor G = se_visor S"
    and "se_ParseMediaType S MappingContentType = Some MappingContentType"
    and "se_Unmarshal_mapping S body = Some m" "length body \<le> maxMappingBytes"
    and "resp = \<lparr>rs_Status = rs_Status rs, rs_Header = rs_Header rs, rs_Body = body\<rparr>"
  shows "check_answer S tok nonce resp = Inr m"
proof -
  have "granted (fst (handlePEP G g i r))" using assms(1,2) by (simp add: granted_def)
  then obtain chain g1 h1 where ident: "identified G g i r chain"
    and s: "fst (handlePEP G g i r) = serve_allowed G g1 h1 r (FromChain (ge_visor G) chain (gw_ShortName g))"
    by (rule grantedE) blast
  let ?m = "FromChain (ge_visor G) chain (gw_ShortName g)"
  have served: "serve_allowed G g1 h1 r ?m = Gw_Reply rs" using s assms(1) by simp
  have m: "m = ?m" "rs_Status rs = 200"
    "rs_Header rs = header_Set (applyIdentityHeaders h1 ?m) ''Content-Type'' MappingContentType"
    using served assms(2) by (auto simp: serve_allowed_def Let_def split: option.splits if_splits)
  note names = HeaderClientID_def HeaderSessionID_def headerActorChain_def
  have hdr: "header_Get (rs_Header rs) ''Content-Type'' = MappingContentType"
    "header_Get (rs_Header rs) HeaderClientID = mp_ClientID m" "header_Get (rs_Header rs) HeaderSessionID = mp_SessionID m"
    unfolding m(1,3) by (simp_all add: applyIdentityHeaders_def Let_def names)
  have comp: "Complete (ge_visor G) ?m = None" using ident by (simp add: identified_def)
  have "verifier_Verify G (live_verifier g i) tok (gw_Audience g) (gi_verify_now i) = Inr chain"
    using ident assms(3) by (simp add: identified_def)
  then obtain ks h c where c: "jws_Verify G tok ks = Inr (h, c)" "c_aud c = [gw_Audience g]" "gw_Audience g \<noteq> []"
    and ch: "chain = chainFromClaims tok c" by (rule verifier_Verify_InrD)
  obtain b where "ParseUnverified G tok = Inr (h, c, b)"
    using jws_Verify_parse[OF c(1)] by blast
  then have "ParseUnverified S tok = Inr (h, c, b)" unfolding ParseUnverified_agree[OF assms(4)] .
  moreover have "mapping_of c ?m" using mapping_of_FromChain[OF _ c(2,3)] comp unfolding ch by blast
  ultimately have "mappingAgreesWithToken S m tok = None" unfolding mappingAgreesWithToken_None m(1) by blast
  with comp assms(5-9) hdr m show ?thesis by (simp add: check_answer_Inr)
qed

section \<open>A concrete session\<close>

definition example_mapping :: mapping where
  "example_mapping = FromChain (ge_visor example_gateway_env) example_caller_chain False"

definition example_session_env :: session_env where
  "example_session_env = dpop_env.extend example_caller_dpop
    \<lparr>se_visor = ge_visor example_gateway_env,
     se_net = example_net, se_NewRequest = (\<lambda>m u. Inr (example_call Map.empty)),
     se_ParseMediaType = Some, se_Unmarshal_mapping = (\<lambda>b. Some example_mapping)\<rparr>"

lemma example_session_agrees:
  "token_env.truncate example_gateway_env = token_env.truncate example_session_env"
  by (simp add: example_gateway_env_def example_session_env_def dpop_env.defs token_env.defs)

lemma example_session_simps [simp]:
  "se_visor example_session_env = ge_visor example_gateway_env" "se_ParseMediaType example_session_env = Some"
  "se_Unmarshal_mapping example_session_env = (\<lambda>b. Some example_mapping)"
  "se_NewRequest example_session_env = (\<lambda>m u. Inr (example_call Map.empty))" "se_net example_session_env = example_net"
  by (simp_all add: example_session_env_def dpop_env.defs)

lemma example_reply:
  "\<exists>rs g'. handlePEP example_gateway_env (example_ready None) (example_gw_inputs ''b'') example_sent = (Gw_Reply rs, g') \<and>
     rs_Body rs = Gb_Mapping example_mapping \<and> credential example_sent = caller_token"
proof -
  obtain res g' where e: "handlePEP example_gateway_env (example_ready None) (example_gw_inputs ''b'') example_sent = (res, g')"
    by fastforce
  have cred: "credential example_sent = caller_token"
    using carries_credential[OF setProof_carries[OF example_sent_proof] example_caller_plain] by (simp add: credential_def)
  from example_granted[of None] obtain chain g1 h1 where
    ident: "identified example_gateway_env (example_ready None) (example_gw_inputs ''b'') example_sent chain"
    and s: "res = serve_allowed example_gateway_env g1 h1 example_sent
      (FromChain (ge_visor example_gateway_env) chain (gw_ShortName (example_ready None)))" "gw_Backend g1 = None"
    by (rule grantedE) (metis e example_ready_simps(7) fst_conv)
  from ident have "chain = example_caller_chain"
    using example_caller_accepted[of None "''b''"] cred by (simp add: identified_def example_gw_inputs_simps)
  then have "FromChain (ge_visor example_gateway_env) chain (gw_ShortName (example_ready None)) = example_mapping"
    by (simp add: example_mapping_def)
  with e cred s show ?thesis by (auto simp: serve_allowed_def Let_def)
qed

theorem granted_mapping_accepted_witness:
  "\<exists>resp. check_answer example_session_env caller_token [] resp = Inr example_mapping"
proof -
  obtain rs g' where r: "handlePEP example_gateway_env (example_ready None) (example_gw_inputs ''b'') example_sent = (Gw_Reply rs, g')"
    "rs_Body rs = Gb_Mapping example_mapping" "credential example_sent = caller_token" using example_reply by blast
  from granted_mapping_accepted[OF r example_session_agrees _ _ _ _ refl, of "[]" "[]"] show ?thesis by auto
qed

text \<open>The answer of the example, made by hand.\<close>

definition example_answer_response :: "bytes http_response" where
  "example_answer_response =
    \<lparr>rs_Status = 200, rs_Header = header_Set (applyIdentityHeaders Map.empty example_mapping) ''Content-Type'' MappingContentType,
     rs_Body = []\<rparr>"

definition example_session_request :: session_request where
  "example_session_request = \<lparr>sr_GatewayURL = ''https://gw/mcp'', sr_Token = caller_token, sr_ProofKey = Some example_holder\<rparr>"

lemma example_answer_taken: "check_answer example_session_env caller_token nonce example_answer_response = Inr example_mapping"
proof -
  obtain b where "ParseUnverified example_gateway_env caller_token
      = Inr (\<lparr>h_alg = ''EdDSA'', h_typ = ''JWT'', h_kid = ''k1''\<rparr>, example_caller, b)"
    using jws_Verify_parse[OF example_caller_verified] by blast
  then have "ParseUnverified example_session_env caller_token
      = Inr (\<lparr>h_alg = ''EdDSA'', h_typ = ''JWT'', h_kid = ''k1''\<rparr>, example_caller, b)"
    unfolding ParseUnverified_agree[OF example_session_agrees] .
  moreover have "mapping_of example_caller example_mapping"
    using mapping_of_FromChain[of "ge_visor example_gateway_env" caller_token example_caller False "''gw''"] example_caller_complete
    by (simp add: example_mapping_def example_caller_chain_def) (simp add: example_caller_def)
  ultimately have "mappingAgreesWithToken example_session_env example_mapping caller_token = None"
    unfolding mappingAgreesWithToken_None by blast
  with example_caller_complete show ?thesis
    by (simp add: check_answer_Inr example_answer_response_def applyIdentityHeaders_def Let_def HeaderClientID_def
        HeaderSessionID_def headerActorChain_def maxMappingBytes_def) (simp add: example_mapping_def)
qed

lemma example_session_url: "CheckGatewayURL (se_net example_session_env) u = None"
proof -
  have "map ascii_lower ''https'' = ''https''" by code_simp
  then have "CheckJWKSURL example_net u = None"
    by (simp add: CheckJWKSURL_None) (simp add: example_net_def)
  then show ?thesis by (simp add: CheckGatewayURL_def) (simp add: example_net_def)
qed

lemma example_fetch:
  "Fetch example_session_env (\<lambda>r. Inr example_answer_response) (\<lambda>r. Inr example_answer_response) 0 ''0123456789abcdef''
     ''0123456789abcdef'' example_session_request (500 * second) = Inr example_mapping"
proof -
  have "\<not> is_blank caller_token" using plain_trim[OF example_caller_plain] example_caller_plain by (simp add: is_blank_def plain_def)
  moreover have "\<exists>r. session_call example_session_env 0 ''0123456789abcdef'' example_session_request (500 * second) [] = Inr r"
    by (simp add: session_call_def ProveWithNonce_def example_session_request_def example_holder_signer)
  ultimately show ?thesis
    using example_answer_taken[of "[]"]
    by (auto simp: Fetch_def fetchMapping_def example_session_url[simplified]) (auto simp: example_session_request_def)
qed

theorem session_mapping_bound_witness:
  "\<exists>m. Fetch example_session_env (\<lambda>r. Inr example_answer_response) (\<lambda>r. Inr example_answer_response) 0 ''0123456789abcdef''
     ''0123456789abcdef'' example_session_request (500 * second) = Inr m \<and> mp_Hops m = [''alice'', ''agent'']"
proof -
  from session_mapping_bound[OF example_fetch] obtain h c b where
    p: "ParseUnverified example_session_env caller_token = Inr (h, c, b)" and m: "mapping_of c example_mapping"
    by (auto simp: example_session_request_def)
  obtain b' where "ParseUnverified example_gateway_env caller_token
      = Inr (\<lparr>h_alg = ''EdDSA'', h_typ = ''JWT'', h_kid = ''k1''\<rparr>, example_caller, b')"
    using jws_Verify_parse[OF example_caller_verified] by blast
  with p have "c = example_caller" unfolding ParseUnverified_agree[OF example_session_agrees] by simp
  with m have "mp_Hops example_mapping = [''alice'', ''agent'']"
    by (simp add: mapping_of_def Let_def example_caller_def ActorSubs_def)
  with example_fetch show ?thesis by blast
qed

theorem child_identity_fixed_witness:
  "\<exists>args. Command (ge_visor example_gateway_env) ''visor'' example_mapping [''-policy'', ''p''] = Inr (''visor'', args) \<and>
    ''-client-id=x'' \<notin> set args"
proof -
  have "\<not> is_blank ''visor''" "RejectIdentityArgs [''-policy'', ''p''] = None" by code_simp+
  then obtain args where c: "Command (ge_visor example_gateway_env) ''visor'' example_mapping [''-policy'', ''p''] = Inr (''visor'', args)"
    using example_caller_complete by (simp add: Command_def example_mapping_def)
  from child_identity_fixed[OF c, of "[]"]
  have "args = [''serve'', ''-client-id'', mp_ClientID example_mapping, ''-session-id'', mp_SessionID example_mapping,
      ''-verified-actor-fd'', ''3''] @ [''-policy'', ''p'']" by blast
  moreover have "mp_ClientID example_mapping = ''agent''" "mp_SessionID example_mapping = ''t1''"
    by (simp_all add: example_mapping_def FromChain_def example_caller_chain_def chainFromClaims_def example_caller_def Let_def)
  ultimately have "''-client-id=x'' \<notin> set args" by simp
  with c show ?thesis by blast
qed

end
