(* ===== verification/Trace_Properties.thy ===== *)
theory Trace_Properties
  imports Trace "HOL-Library.Multiset"
begin

text \<open>
  What the trace guarantees: the order of the records is a total order on keys and the answer a stable
  sort of exactly the selected records; verified records come from chain-verified files and nothing in
  an unverified log can change which of them are shown; the files it accepts are those the logger opens;
  and no field of a record can break the printed form into more lines.
\<close>

section \<open>The order\<close>

type_synonym trace_key = "bool \<times> instant \<times> bool \<times> bytes \<times> 64 word"

definition record_key :: "('a trace_env_scheme) \<Rightarrow> trace_record \<Rightarrow> trace_key" where
  "record_key T r =
    (let t = parseRecordTime T (tr_Timestamp r) in
     (t = zero_time, t, \<not> tr_Verified r, if tr_Verified r then tr_Source r else [],
      if tr_Verified r then tr_ChainIndex r else 0))"

lemma recordLess_key: "recordLess T a b \<longleftrightarrow> record_key T a < record_key T b"
  by (auto simp: recordLess_def record_key_def Let_def less_prod_def')

lemma SliceStable_sort_key: "SliceStable (\<lambda>a b. k a < k b) xs = sort_key k xs"
  for k :: "'a \<Rightarrow> 'k::linorder"
proof -
  have "insert_stable (\<lambda>a b. k a < k b) x ys = insort_key k x ys" for x ys
    by (induction ys) (auto simp: not_le)
  then have "insert_stable (\<lambda>a b. k a < k b) = insort_key k" by blast
  then show ?thesis by (simp add: SliceStable_def sort_key_def)
qed

lemma SliceStable_recordLess: "SliceStable (recordLess T) xs = sort_key (record_key T) xs"
  using SliceStable_sort_key[of "record_key T" xs] by (simp add: recordLess_key[abs_def])

section \<open>Loading\<close>

lemma load_chain_verified: "load_chain J path prv ix ls = Inr rs \<Longrightarrow> r \<in> set rs \<Longrightarrow> tr_Verified r"
  by (induction J path prv ix ls arbitrary: rs rule: load_chain.induct)
    (auto simp: recordFromEvent_def split: sum.splits)

lemma loadGeneric_unverified: "loadGenericRecords T path ls = Inr rs \<Longrightarrow> r \<in> set rs \<Longrightarrow> \<not> tr_Verified r"
  by (induction ls arbitrary: rs) (auto simp: generic_record_def split: option.splits sum.splits)

lemma load_paths_in:
  "load_paths ld ps = Inr rs \<Longrightarrow> r \<in> set rs \<Longrightarrow> \<exists>p \<in> set ps. \<exists>rs'. ld p = Inr rs' \<and> r \<in> set rs'"
  by (induction ps arbitrary: rs) (fastforce split: if_splits sum.splits)+

lemma load_paths_ok: "load_paths ld ps = Inr rs \<Longrightarrow> p \<in> set ps \<Longrightarrow> \<not> is_blank p \<Longrightarrow> is_ok (ld p)"
  by (induction ld ps arbitrary: rs rule: load_paths.induct) (auto split: if_splits sum.splits)

text \<open>The records of a chain are those of its events.\<close>

lemma load_chain_events:
  "(case scan_lines ls of
      None \<Rightarrow> \<not> is_ok (chain_events J lst ls)
    | Some ts \<Rightarrow>
        (case chain_events J lst ls of
           Inl e \<Rightarrow> \<not> is_ok (load_chain J path (head_hash lst) (head_index lst) ts)
         | Inr evs \<Rightarrow> load_chain J path (head_hash lst) (head_index lst) ts = Inr (map (recordFromEvent path) evs)))"
proof (induction ls arbitrary: lst)
  case (Cons raw ls)
  show ?case
  proof (cases "length raw \<ge> max_line \<or> dropCR raw = []")
    case True
    with Cons[of lst] show ?thesis by (auto split: option.splits sum.splits)
  next
    case False
    show ?thesis
    proof (cases "decodeAndVerify J (dropCR raw) (head_hash lst) (head_index lst + 1)")
      case (Inl e)
      with False show ?thesis by (auto split: option.split)
    next
      case (Inr ev)
      with False Cons[of "Some ev"] show ?thesis
        by (auto split: option.splits sum.splits)
    qed
  qed
qed simp

lemma loadAuditFile_events:
  "loadAuditFile J fs path = Inr rs \<longleftrightarrow>
    (\<exists>b evs. fs path = Inr b \<and> chain_events J None (raw_lines b) = Inr evs \<and> rs = map (recordFromEvent path) evs)"
proof (cases "fs path")
  case (Inr b)
  then show ?thesis
    using load_chain_events[where J = J and lst = None and ls = "raw_lines b" and path = path]
    by (cases "scan_lines (raw_lines b)"; cases "chain_events J None (raw_lines b)")
      (auto simp: loadAuditFile_def readLines_def loadAuditRecords_def split: sum.splits)
qed (simp add: loadAuditFile_def readLines_def)

lemma NewLogger_ok: "is_ok (NewLogger J b) \<longleftrightarrow> is_ok (chain_events J None (raw_lines b))"
  using recover_events_chain[of J None "raw_lines b"] by (auto simp: NewLogger_def split: sum.splits)

section \<open>Selection\<close>

lemma select_records_sorted:
  "query_txns q vs = Some txns \<Longrightarrow> select_records T q vs us =
    sort_key (record_key T) (filter (pick_verified q txns) vs @ filter (pick_unverified txns) us)"
  by (simp add: select_records_def SliceStable_recordLess)

lemma query_txns_hit:
  assumes "query_txns q vs = Some txns" "tq_JTI q \<noteq> []" "t \<in> txns"
  shows "\<exists>s \<in> set vs. tr_JTI s = tq_JTI q \<and> tr_Txn s = t"
proof -
  define ts where "ts = {t \<in> tr_Txn ` set (filter (\<lambda>r. tr_JTI r = tq_JTI q) vs). t \<noteq> []}"
  have "txns \<subseteq> ts"
    using assms(1,2) unfolding query_txns_def Let_def ts_def[symmetric]
    by (simp split: if_splits) blast+
  with assms(3) show ?thesis by (auto simp: ts_def)
qed

lemma trace_Inr:
  "trace T fs query audits visors = Inr out \<longleftrightarrow>
    (tq_Txn (trim_query query) \<noteq> [] \<or> tq_JTI (trim_query query) \<noteq> []) \<and>
    (\<exists>vs us. load_paths (loadAuditFile T fs) audits = Inr vs \<and> load_paths (loadGenericFile T fs) visors = Inr us \<and>
       out = select_records T (trim_query query) vs us)"
  by (auto simp: trace_def Let_def split: sum.splits)

lemma loaded_verified:
  "load_paths (loadAuditFile T fs) audits = Inr vs \<Longrightarrow> r \<in> set vs \<Longrightarrow> tr_Verified r"
  using load_paths_in load_chain_verified
  by (fastforce simp: loadAuditFile_def loadAuditRecords_def split: sum.splits)

lemma loaded_unverified:
  "load_paths (loadGenericFile T fs) visors = Inr us \<Longrightarrow> r \<in> set us \<Longrightarrow> \<not> tr_Verified r"
  using load_paths_in loadGeneric_unverified
  by (fastforce simp: loadGenericFile_def split: sum.splits)

lemma select_verified_part:
  assumes "\<And>r. r \<in> set vs \<Longrightarrow> tr_Verified r" "\<And>r. r \<in> set us \<Longrightarrow> \<not> tr_Verified r"
  shows "filter tr_Verified (select_records T q vs us) = select_records T q vs []"
proof (cases "query_txns q vs")
  case (Some txns)
  have "filter tr_Verified (filter (pick_verified q txns) vs) = filter (pick_verified q txns) vs"
    "filter tr_Verified (filter (pick_unverified txns) us) = []"
    using assms by (auto intro!: filter_cong filter_False)
  then show ?thesis by (simp add: select_records_sorted[OF Some] filter_sort)
qed (simp add: select_records_def)

section \<open>Printing\<close>

lemma rune_newline:
  assumes "rune_len s \<noteq> 0" "CHR 0x0A \<in> set (take (rune_len s) s)"
  shows "take (rune_len s) s = [CHR 0x0A]"
proof (cases "rune_len s = 1")
  case True
  with assms(2) show ?thesis by (cases s) auto
next
  case False
  obtain c t where s: "s = c # t" using assms(2) by (cases s) auto
  obtain n lo hi where l: "lead (byte_of c) = (n, lo, hi)" by (cases "lead (byte_of c)")
  with s assms(1) False have n: "rune_len s = n" "2 \<le> n" "n \<le> length s" "lo \<le> byte_of (s ! 1)"
    "list_all cont (take (n - 2) (drop 2 s))"
    by (auto simp: rune_len_def split: if_splits)
  from l n(2) have "128 \<le> byte_of c" "128 \<le> lo" by (auto simp: lead_def split: if_splits)
  moreover obtain d u where t: "t = d # u" using n(2,3) s by (cases t) auto
  moreover have "take (rune_len s) s = c # d # take (n - 2) u"
    using n s t by (simp add: take_Cons' numeral_2_eq_2)
  moreover have "128 \<le> byte_of x" if "x \<in> set (take (n - 2) u)" for x
    using n(5) that s t by (simp add: list_all_iff cont_def)
  ultimately have "128 \<le> byte_of x" if "x \<in> set (take (rune_len s) s)" for x
    using that n(4) s by auto
  from this[OF assms(2)] show ?thesis by (simp add: byte_of_def)
qed

lemma safeTrace_no_newline:
  assumes "\<not> te_IsPrint T [CHR 0x0A]"
  shows "CHR 0x0A \<notin> set (safeTrace T s)"
  using assms
proof (induction T s rule: safeTrace.induct)
  case (1 T s)
  have "CHR 0x0A \<notin> set (take (rune_len s) s)" if "te_IsPrint T (take (rune_len s) s)" "rune_len s \<noteq> 0"
    using rune_newline[OF that(2)] that(1) 1(3) by metis
  then show ?case
    using 1 by (subst safeTrace.simps) (auto simp: replacement_def)
qed

lemma decimal_digits: "CHR 0x0A \<notin> set (decimal n)"
proof (induction n rule: decimal.induct)
  case (1 n)
  have "CHR 0x0A \<noteq> (char_of (48 + k) :: char)" if "k < 10" for k :: nat
  proof
    assume "CHR 0x0A = (char_of (48 + k) :: char)"
    then have "of_char (CHR 0x0A) = (of_char (char_of (48 + k) :: char) :: nat)" by metis
    with that show False by simp
  qed
  with 1 show ?case by (subst decimal.simps) auto
qed

lemma Join_no_newline:
  "CHR 0x0A \<notin> set sep \<Longrightarrow> (\<And>t. t \<in> set ts \<Longrightarrow> CHR 0x0A \<notin> set t) \<Longrightarrow> CHR 0x0A \<notin> set (strings_Join sep ts)"
  by (induction sep ts rule: strings_Join.induct) auto

lemma format_no_newline:
  assumes "\<not> te_IsPrint T [CHR 0x0A]"
  shows "CHR 0x0A \<notin> set (format_record T i r)"
proof -
  note safe = safeTrace_no_newline[OF assms]
  have "CHR 0x0A \<notin> set (strings_Join '' > '' (map (safeTrace T) (tr_Hops r)))"
    by (rule Join_no_newline) (use safe in auto)
  then show ?thesis
    using safe decimal_digits[of "i + 1"] by (simp add: format_record_def labelled_def)
qed

section \<open>A concrete trace\<close>

lemma chain_events_agree:
  assumes "audit_env.truncate E = audit_env.truncate E'"
  shows "chain_events E lst ls = chain_events E' lst ls"
proof -
  have f: "au_Sum256 E = au_Sum256 E'" "Marshal_event E = Marshal_event E'" "Probe_event E = Probe_event E'"
    "Strict_event E = Strict_event E'"
    using assms by (simp_all add: audit_env.truncate_def)
  have "decodeAndVerify E raw prv want = decodeAndVerify E' raw prv want" for raw prv want
    unfolding decodeAndVerify_def decodeAuditRecord_def verifyEvent_def payloadHash_def f by (rule refl)
  then show ?thesis by (induction ls arbitrary: lst) (simp_all split: sum.split)
qed

definition example_trace_env :: trace_env where
  "example_trace_env = audit_env.extend (example_audit example_sum)
    \<lparr>te_Nano = (\<lambda>s. None), te_RFC3339 = (\<lambda>s. None),
     te_Object = (\<lambda>s. Some [''session_id'' \<mapsto> Js_String ''t1'', ''tool'' \<mapsto> Js_String s]),
     te_IsPrint = (\<lambda>r. r \<noteq> [CHR 0x0A])\<rparr>"

definition example_files :: "bytes \<Rightarrow> bytes + bytes" where
  "example_files p =
    (if p = ''audit'' then Inr (unlines [example_marshal example_record])
     else if p = ''visor'' then Inr (unlines [''call'']) else Inl ''no such file'')"

definition example_visor_line :: trace_record where
  "example_visor_line = empty_record\<lparr>tr_Source := ''visor'', tr_SessionID := ''t1'', tr_Tool := ''call''\<rparr>"

lemma example_trace_loads:
  "load_paths (loadAuditFile example_trace_env example_files) [''audit''] = Inr [recordFromEvent ''audit'' example_record]"
  "load_paths (loadGenericFile example_trace_env example_files) [''visor''] = Inr [example_visor_line]"
proof -
  have nl: "CHR 0x0A \<notin> set (example_marshal example_record)"
    using example_marshal_chars[of example_record] by auto
  have "audit_env.truncate example_trace_env = audit_env.truncate (example_audit example_sum)"
    by (simp add: example_trace_env_def audit_env.defs)
  then have "chain_events example_trace_env None [example_marshal example_record] = Inr [example_record]"
    using chain_events_agree example_record_chain(1) by metis
  then have "loadAuditFile example_trace_env example_files ''audit'' = Inr [recordFromEvent ''audit'' example_record]"
    using nl unfolding loadAuditFile_events by (simp add: example_files_def raw_lines_unlines del: chain_events.simps)
  moreover have "\<not> is_blank ''audit''" "\<not> is_blank ''visor''" by code_simp+
  moreover have "readLines example_files ''visor'' = Inr [''call'']"
    by (simp add: readLines_def example_files_def raw_lines_unlines max_line_def dropCR_def)
  moreover have "generic_record ''visor'' [''session_id'' \<mapsto> Js_String ''t1'', ''tool'' \<mapsto> Js_String ''call'']
      = example_visor_line"
    by (simp add: generic_record_def example_visor_line_def empty_record_def field_string_def field_strings_def)
  ultimately show
    "load_paths (loadAuditFile example_trace_env example_files) [''audit''] = Inr [recordFromEvent ''audit'' example_record]"
    "load_paths (loadGenericFile example_trace_env example_files) [''visor''] = Inr [example_visor_line]"
    by (simp_all add: loadGenericFile_def example_trace_env_def audit_env.defs)
qed

lemma example_traced:
  "trace example_trace_env example_files \<lparr>tq_Txn = [], tq_JTI = ''j1''\<rparr> [''audit''] [''visor'']
    = Inr [recordFromEvent ''audit'' example_record, example_visor_line]"
proof -
  have "ev_JTI example_record = ''j1''" "ev_Txn example_record = ''t1''"
    by (simp_all add: example_record_def chained_event_def canonicalize_id[OF example_canonical] Let_def)
      (simp_all add: example_event_def)
  moreover have "TrimSpace ''j1'' = ''j1''" by code_simp
  moreover have "parseRecordTime example_trace_env s = zero_time" for s
    by (simp add: parseRecordTime_def example_trace_env_def audit_env.defs)
  moreover have "TrimSpace [] = []" by simp
  ultimately have "select_records example_trace_env (trim_query \<lparr>tq_Txn = [], tq_JTI = ''j1''\<rparr>)
      [recordFromEvent ''audit'' example_record] [example_visor_line]
    = [recordFromEvent ''audit'' example_record, example_visor_line]"
    and "tq_JTI (trim_query \<lparr>tq_Txn = [], tq_JTI = ''j1''\<rparr>) = ''j1''"
    by (simp_all add: trim_query_def select_records_def query_txns_def pick_verified_def Let_def
        pick_unverified_def recordFromEvent_def example_visor_line_def empty_record_def SliceStable_def
        recordLess_def)
  then show ?thesis
    unfolding trace_Inr using example_trace_loads by auto
qed

section \<open>Properties\<close>

text \<open>The answer of a trace is exactly the selected records, in order. It is a rearrangement of the
  records picked from the audit files and then from the visor logs, no record comes before one that
  should precede it, and records that compare equal stay in the order in which they were read.\<close>

theorem trace_sorted_selection:
  assumes "trace T fs query audits visors = Inr out"
  shows "\<exists>vs us sel. load_paths (loadAuditFile T fs) audits = Inr vs \<and>
    load_paths (loadGenericFile T fs) visors = Inr us \<and>
    sel = (case query_txns (trim_query query) vs of
       None \<Rightarrow> []
     | Some txns \<Rightarrow> filter (pick_verified (trim_query query) txns) vs @ filter (pick_unverified txns) us) \<and>
    mset out = mset sel \<and> sorted_wrt (\<lambda>a b. \<not> recordLess T b a) out \<and>
    (\<forall>r. filter (\<lambda>x. \<not> recordLess T x r \<and> \<not> recordLess T r x) out =
       filter (\<lambda>x. \<not> recordLess T x r \<and> \<not> recordLess T r x) sel)"
proof -
  obtain vs us where ld: "load_paths (loadAuditFile T fs) audits = Inr vs"
    "load_paths (loadGenericFile T fs) visors = Inr us" and out: "out = select_records T (trim_query query) vs us"
    using assms by (auto simp: trace_Inr)
  define sel where "sel = (case query_txns (trim_query query) vs of
       None \<Rightarrow> []
     | Some txns \<Rightarrow> filter (pick_verified (trim_query query) txns) vs @ filter (pick_unverified txns) us)"
  have srt: "out = sort_key (record_key T) sel"
    by (simp add: out sel_def select_records_def SliceStable_recordLess split: option.split)
  have "(\<not> recordLess T x r \<and> \<not> recordLess T r x) = (record_key T x = record_key T r)" for x r
    by (auto simp: recordLess_key)
  then have "mset out = mset sel \<and> sorted_wrt (\<lambda>a b. \<not> recordLess T b a) out \<and>
    (\<forall>r. filter (\<lambda>x. \<not> recordLess T x r \<and> \<not> recordLess T r x) out =
       filter (\<lambda>x. \<not> recordLess T x r \<and> \<not> recordLess T r x) sel)"
    using sorted_sort_key[of "record_key T" sel]
    by (simp add: srt sort_key_stable recordLess_key not_less sorted_map)
  with ld sel_def show ?thesis by blast
qed

text \<open>C23: An unverified log cannot forge or hide history. Leaving out the visor logs gives exactly the
  verified records of the answer; each of them is an event of an audit file whose whole hash chain
  verified; and when the query names a token id, every unverified record shown names the transaction
  of a verified record that carries this id.\<close>

theorem trace_unforgeable:
  assumes "trace T fs query audits visors = Inr out"
  shows "trace T fs query audits [] = Inr (filter tr_Verified out) \<and>
    (\<forall>r \<in> set out. tr_Verified r \<longrightarrow> (\<exists>p \<in> set audits. \<exists>b evs. fs p = Inr b \<and>
       chain_events T None (raw_lines b) = Inr evs \<and> linked T None evs \<and> r \<in> recordFromEvent p ` set evs)) \<and>
    (tq_JTI (trim_query query) \<noteq> [] \<longrightarrow> (\<forall>r \<in> set out. \<not> tr_Verified r \<longrightarrow>
       (\<exists>s \<in> set out. tr_Verified s \<and> tr_JTI s = tq_JTI (trim_query query) \<and> tr_Txn s \<noteq> [] \<and>
          tr_Txn s \<in> {tr_Txn r, tr_SessionID r})))"
proof -
  let ?q = "trim_query query"
  obtain vs us where nonempty: "tq_Txn ?q \<noteq> [] \<or> tq_JTI ?q \<noteq> []"
    and ld: "load_paths (loadAuditFile T fs) audits = Inr vs" "load_paths (loadGenericFile T fs) visors = Inr us"
    and out: "out = select_records T ?q vs us"
    using assms by (auto simp: trace_Inr)
  note ver = loaded_verified[OF ld(1)] and unv = loaded_unverified[OF ld(2)]
  have "filter tr_Verified out = select_records T ?q vs []"
    unfolding out by (rule select_verified_part) (use ver unv in auto)
  then have a: "trace T fs query audits [] = Inr (filter tr_Verified out)"
    using nonempty ld(1) by (simp add: trace_Inr)
  show ?thesis
  proof (cases "query_txns ?q vs")
    case None
    with out a show ?thesis by (simp add: select_records_def)
  next
    case (Some txns)
    have set_out: "set out = {r \<in> set vs. pick_verified ?q txns r} \<union> {r \<in> set us. pick_unverified txns r}"
      by (auto simp: out select_records_sorted[OF Some])
    have source: "\<exists>p \<in> set audits. \<exists>b evs. fs p = Inr b \<and>
       chain_events T None (raw_lines b) = Inr evs \<and> linked T None evs \<and> r \<in> recordFromEvent p ` set evs"
      if r: "r \<in> set vs" for r
    proof -
      obtain p rs where p: "p \<in> set audits" "loadAuditFile T fs p = Inr rs" "r \<in> set rs"
        using load_paths_in[OF ld(1) r] by blast
      then obtain b evs where b: "fs p = Inr b" "chain_events T None (raw_lines b) = Inr evs"
        "r \<in> recordFromEvent p ` set evs"
        unfolding loadAuditFile_events by auto
      from chain_events_linked[OF b(2)] p(1) b show ?thesis by blast
    qed
    have hit: "\<exists>s \<in> set vs. pick_verified ?q txns s \<and> tr_JTI s = tq_JTI ?q \<and> tr_Txn s = t"
      if "tq_JTI ?q \<noteq> []" "t \<in> txns" "t \<noteq> []" for t
      using query_txns_hit[OF Some that(1,2)] that(2,3) by (auto simp: pick_verified_def)
    have named: "\<exists>t \<in> txns. t \<noteq> [] \<and> t \<in> {tr_Txn r, tr_SessionID r}" if "pick_unverified txns r" for r
      using that by (auto simp: pick_unverified_def split: if_splits)
    show ?thesis
    proof (intro conjI impI ballI a)
      fix r assume "r \<in> set out" "tr_Verified r"
      then have "r \<in> set vs" using unv by (auto simp: set_out)
      then show "\<exists>p \<in> set audits. \<exists>b evs. fs p = Inr b \<and>
         chain_events T None (raw_lines b) = Inr evs \<and> linked T None evs \<and> r \<in> recordFromEvent p ` set evs"
        by (rule source)
    next
      fix r assume jti: "tq_JTI ?q \<noteq> []" and r: "r \<in> set out" "\<not> tr_Verified r"
      then have "pick_unverified txns r" using ver by (auto simp: set_out)
      then obtain t where t: "t \<in> txns" "t \<noteq> []" "t \<in> {tr_Txn r, tr_SessionID r}" using named by blast
      obtain s where "s \<in> set vs" "pick_verified ?q txns s" "tr_JTI s = tq_JTI ?q" "tr_Txn s = t"
        using hit[OF jti t(1,2)] by blast
      then show "\<exists>s \<in> set out. tr_Verified s \<and> tr_JTI s = tq_JTI ?q \<and> tr_Txn s \<noteq> [] \<and>
          tr_Txn s \<in> {tr_Txn r, tr_SessionID r}"
        using t ver by (intro bexI[of _ s]) (simp_all add: set_out)
    qed
  qed
qed

text \<open>The trace reads exactly the files the logger would open, and reads all of them: a file loads if
  and only if the logger can be opened on it, and then there is one record for each event of the chain,
  in its order.\<close>

theorem trace_reads_logs:
  "(is_ok (loadAuditFile J fs path) \<longleftrightarrow> (\<exists>b. fs path = Inr b \<and> is_ok (NewLogger J b))) \<and>
   (loadAuditFile J fs path = Inr rs \<longleftrightarrow>
      (\<exists>b evs. fs path = Inr b \<and> chain_events J None (raw_lines b) = Inr evs \<and>
        rs = map (recordFromEvent path) evs))"
proof (rule conjI[OF _ loadAuditFile_events])
  show "is_ok (loadAuditFile J fs path) \<longleftrightarrow> (\<exists>b. fs path = Inr b \<and> is_ok (NewLogger J b))"
  proof
    assume "is_ok (loadAuditFile J fs path)"
    then obtain rs where "loadAuditFile J fs path = Inr rs" by (rule is_okE)
    then show "\<exists>b. fs path = Inr b \<and> is_ok (NewLogger J b)" by (auto simp: loadAuditFile_events NewLogger_ok)
  next
    assume "\<exists>b. fs path = Inr b \<and> is_ok (NewLogger J b)"
    then obtain b evs where "fs path = Inr b" "chain_events J None (raw_lines b) = Inr evs"
      by (auto simp: NewLogger_ok elim: is_okE)
    then have "loadAuditFile J fs path = Inr (map (recordFromEvent path) evs)" by (auto simp: loadAuditFile_events)
    then show "is_ok (loadAuditFile J fs path)" by simp
  qed
qed

text \<open>One record, one line. Whatever the fields of the records hold, as long as a newline is not a
  printable rune, the printed trace has one line for each record and in their order, so a record
  cannot inject a line that looks like another.\<close>

theorem one_line_per_record:
  assumes "\<not> te_IsPrint T [CHR 0x0A]"
  shows "raw_lines (FormatTrace T recs) = map (\<lambda>(i, r). format_record T i r) (zip [0..<length recs] recs)"
  unfolding FormatTrace_def
  by (rule raw_lines_unlines) (use format_no_newline[OF assms] in auto)

theorem trace_sorted_selection_witness:
  "\<not> recordLess example_trace_env example_visor_line (recordFromEvent ''audit'' example_record)"
  using trace_sorted_selection[OF example_traced] by auto

theorem trace_unforgeable_witness:
  "trace example_trace_env example_files \<lparr>tq_Txn = [], tq_JTI = ''j1''\<rparr> [''audit''] []
    = Inr [recordFromEvent ''audit'' example_record]"
  using trace_unforgeable[OF example_traced]
  by (simp add: recordFromEvent_def example_visor_line_def empty_record_def)

theorem one_line_per_record_witness:
  "length (raw_lines (FormatTrace example_trace_env [example_visor_line\<lparr>tr_Tool := [CHR 0x0A]\<rparr>, example_visor_line])) = 2"
  using one_line_per_record[of example_trace_env] by (simp add: example_trace_env_def audit_env.defs)

end
