(* ===== verification/Identfile.thy ===== *)
theory Identfile
  imports Go_Strings
begin

text \<open>
  \<^verbatim>\<open>internal/identfile\<close>: no two of the files that hold identity state may be the same file. Every path is
  resolved, link by link and also where its last parts do not exist, and the resolved paths are
  compared. The functions of \<^verbatim>\<open>path/filepath\<close> it uses are the ones of Unix; what the file system answers
  is a parameter and does not change during the check.
\<close>

section \<open>Paths\<close>

text \<open>\<^verbatim>\<open>filepath.Clean\<close> keeps the parts of the cleaned path on a stack.\<close>

definition clean_part :: "bool \<Rightarrow> bytes \<Rightarrow> bytes list \<Rightarrow> bytes list" where
  "clean_part rooted c st =
    (if c = [] \<or> c = ''.'' then st
     else if c = ''..'' then
       (case st of
          [] \<Rightarrow> if rooted then [] else [c]
        | x # r \<Rightarrow> if x = ''..'' then c # st else r)
     else c # st)"

definition IsAbs :: "bytes \<Rightarrow> bool" where
  "IsAbs p \<longleftrightarrow> p \<noteq> [] \<and> hd p = CHR ''/''"

definition path_of :: "bool \<Rightarrow> bytes list \<Rightarrow> bytes" where
  "path_of rooted cs =
    (if rooted then CHR ''/'' # strings_Join ''/'' cs else if cs = [] then ''.'' else strings_Join ''/'' cs)"

definition Clean :: "bytes \<Rightarrow> bytes" where
  "Clean p = path_of (IsAbs p) (rev (fold (clean_part (IsAbs p)) (split_on CHR ''/'' p) []))"

definition Split :: "bytes \<Rightarrow> bytes \<times> bytes" where
  "Split p = (let base = rev (takeWhile (\<lambda>c. c \<noteq> CHR ''/'') (rev p)) in (take (length p - length base) p, base))"

definition Dir :: "bytes \<Rightarrow> bytes" where
  "Dir p = Clean (fst (Split p))"

definition path_Join :: "bytes \<Rightarrow> bytes \<Rightarrow> bytes" where
  "path_Join a b = (if a \<noteq> [] then Clean (a @ ''/'' @ b) else if b \<noteq> [] then Clean b else [])"

section \<open>The length of a cleaned path\<close>

definition weight :: "bytes list \<Rightarrow> nat" where
  "weight cs = (\<Sum>c \<leftarrow> cs. length c + 1)"

lemma weight_simps [simp]:
  "weight [] = 0" "weight (c # cs) = length c + 1 + weight cs" "weight (xs @ ys) = weight xs + weight ys"
  "weight (rev cs) = weight cs"
  by (simp_all add: weight_def rev_map[symmetric] sum_list_rev)

lemma weight_clean_part: "weight (clean_part rooted c st) \<le> weight st + (if c = [] then 0 else length c + 1)"
  by (auto simp: clean_part_def split: list.split)

lemma weight_fold:
  "weight (fold (clean_part rooted) cs st) + length (filter (\<lambda>c. c = []) cs) \<le> weight st + weight cs"
proof (induction cs arbitrary: st)
  case (Cons c cs)
  show ?case using Cons[of "clean_part rooted c st"] weight_clean_part[of rooted c st] by auto
qed simp

lemma weight_split: "weight (split_on c p) = length p + 1"
  by (induction p) (auto split: list.split)

lemma length_Join: "cs \<noteq> [] \<Longrightarrow> length (strings_Join ''/'' cs) + 1 = weight cs"
  by (induction "''/''" cs rule: strings_Join.induct) auto

lemma length_path_of: "length (path_of rooted cs) \<le> max 1 (weight cs - (if rooted then 0 else 1))"
  using length_Join[of cs] by (cases "cs = []") (auto simp: path_of_def)

lemma Clean_shorter:
  assumes "p \<noteq> []"
  shows "length (Clean (p @ ''/'')) \<le> length p"
proof -
  let ?cs = "split_on CHR ''/'' (p @ ''/'')" and ?r = "IsAbs (p @ ''/'')"
  define st where "st = fold (clean_part ?r) ?cs []"
  have "split_on CHR ''/'' (p @ ''/'') = split_on CHR ''/'' p @ [[]]"
    by (induction p) (auto split: list.splits)
  moreover have "hd (split_on CHR ''/'' p) = []" if ?r
    using that assms by (cases p) (auto simp: IsAbs_def)
  ultimately have "length (filter (\<lambda>c. c = []) ?cs) \<ge> (if ?r then 2 else 1)"
    by (cases "split_on CHR ''/'' p") auto
  then have "weight st \<le> length p + 2 - (if ?r then 2 else 1)"
    using weight_fold[of ?r ?cs "[]"] by (simp add: weight_split st_def[symmetric] split: if_splits)
  moreover have "Clean (p @ ''/'') = path_of ?r (rev st)" by (simp add: Clean_def st_def)
  ultimately show ?thesis
    using length_path_of[of ?r "rev st"] assms by (cases p) (auto split: if_splits)
qed

lemma Split_append: "fst (Split p) @ snd (Split p) = p"
proof -
  let ?b = "rev (takeWhile (\<lambda>c. c \<noteq> CHR ''/'') (rev p))"
  have "p = rev (dropWhile (\<lambda>c. c \<noteq> CHR ''/'') (rev p)) @ ?b"
    by (metis rev_append rev_rev_ident takeWhile_dropWhile_id)
  then show ?thesis by (metis (no_types, lifting) Split_def append_eq_conv_conj diff_add_inverse2 fst_conv length_append snd_conv)
qed

lemma Split_base: "CHR ''/'' \<notin> set (snd (Split p))"
  by (auto simp: Split_def Let_def dest: set_takeWhileD)

lemma Split_dir: "fst (Split p) = [] \<or> (\<exists>d. fst (Split p) = d @ ''/'')"
proof -
  let ?d = "rev (dropWhile (\<lambda>c. c \<noteq> CHR ''/'') (rev p))"
  have "p = ?d @ rev (takeWhile (\<lambda>c. c \<noteq> CHR ''/'') (rev p))"
    by (metis rev_append rev_rev_ident takeWhile_dropWhile_id)
  then have "fst (Split p) = ?d"
    by (metis (no_types, lifting) Split_def append_eq_conv_conj diff_add_inverse2 fst_conv length_append)
  then show ?thesis
    by (cases "dropWhile (\<lambda>c. c \<noteq> CHR ''/'') (rev p)") (auto dest: hd_dropWhile[of "\<lambda>c. c \<noteq> CHR ''/''" "rev p", simplified] simp: dropWhile_eq_Cons_conv)
qed

lemma parent_shorter:
  assumes "fst (Split p) \<noteq> []" "Clean (fst (Split p)) \<noteq> p"
  shows "length (Clean (fst (Split p))) < length p"
proof -
  from assms(1) Split_dir obtain d where d: "fst (Split p) = d @ ''/''" by blast
  obtain b where p: "p = d @ ''/'' @ b" using Split_append[of p] d by (metis append.assoc)
  show ?thesis
  proof (cases "d = []")
    case True
    then have "Clean (fst (Split p)) = ''/''" by (simp add: d Clean_def IsAbs_def clean_part_def path_of_def)
    with assms(2) p True show ?thesis by (cases b) auto
  next
    case False
    then have "length (Clean (fst (Split p))) \<le> length d" using Clean_shorter d by simp
    moreover have "length d < length p" using p by simp
    ultimately show ?thesis by simp
  qed
qed

section \<open>Resolution\<close>

record ident_fs =
  if_Getwd :: "bytes + bytes"
  if_Lstat :: "bytes \<Rightarrow> bool option"
  if_Readlink :: "bytes \<Rightarrow> bytes + bytes"
  if_Stat :: "bytes \<Rightarrow> (nat \<times> nat) option"

datatype ident_error = Ident_HopLimit | Ident_Loop bytes | Ident_IO bytes | Ident_Alias bytes bytes

definition maxSymlinkHops :: nat where "maxSymlinkHops = 256"

function resolvePath :: "ident_fs \<Rightarrow> bytes \<Rightarrow> nat \<Rightarrow> bytes set \<Rightarrow> (ident_error + bytes) \<times> bytes set" where
  "resolvePath fs path hops seen =
    (if hops > maxSymlinkHops then (Inl Ident_HopLimit, seen)
     else
       (let dir = fst (Split path); parent = Clean dir in
        case (if dir \<noteq> [] \<and> parent \<noteq> path then
                (case resolvePath fs parent hops seen of
                   (Inl e, seen1) \<Rightarrow> (Inl e, seen1)
                 | (Inr resolved, seen1) \<Rightarrow> (Inr (path_Join resolved (snd (Split path))), seen1))
              else (Inr path, seen)) of
          (Inl e, seen1) \<Rightarrow> (Inl e, seen1)
        | (Inr p, seen1) \<Rightarrow>
            if p \<in> seen1 then (Inl (Ident_Loop p), seen1)
            else if if_Lstat fs p \<noteq> Some True then (Inr p, seen1)
            else (case if_Readlink fs p of
                Inl e \<Rightarrow> (Inl (Ident_IO e), insert p seen1)
              | Inr target \<Rightarrow>
                  resolvePath fs (Clean (if IsAbs target then target else path_Join (Dir p) target)) (hops + 1)
                    (insert p seen1))))"
  by pat_completeness auto

termination
  by (relation "measures [\<lambda>(fs, path, hops, seen). 257 - hops, \<lambda>(fs, path, hops, seen). length path]")
    (auto simp: maxSymlinkHops_def parent_shorter)

declare resolvePath.simps [simp del]

definition filepath_Abs :: "ident_fs \<Rightarrow> bytes \<Rightarrow> ident_error + bytes" where
  "filepath_Abs fs p =
    (if IsAbs p then Inr (Clean p)
     else (case if_Getwd fs of Inl e \<Rightarrow> Inl (Ident_IO e) | Inr wd \<Rightarrow> Inr (path_Join wd p)))"

definition canonicalPath :: "ident_fs \<Rightarrow> bytes \<Rightarrow> ident_error + bytes" where
  "canonicalPath fs p =
    (case filepath_Abs fs p of Inl e \<Rightarrow> Inl e | Inr a \<Rightarrow> fst (resolvePath fs (Clean a) 0 {}))"

definition filesAlias :: "ident_fs \<Rightarrow> bytes \<Rightarrow> bytes \<Rightarrow> ident_error + bool" where
  "filesAlias fs a b =
    (if a = [] \<or> b = [] then Inr False
     else (case canonicalPath fs a of
       Inl e \<Rightarrow> Inl e
     | Inr ca \<Rightarrow> (case canonicalPath fs b of
         Inl e \<Rightarrow> Inl e
       | Inr cb \<Rightarrow>
           if ca = cb then Inr True
           else (case (if_Stat fs a, if_Stat fs b) of
              (Some x, Some y) \<Rightarrow> Inr (x = y)
            | _ \<Rightarrow> Inr False))))"

record named =
  nm_Flag :: bytes
  nm_Path :: bytes

fun alias_in :: "ident_fs \<Rightarrow> named \<Rightarrow> named list \<Rightarrow> ident_error option" where
  "alias_in fs f [] = None"
| "alias_in fs f (g # gs) =
    (if nm_Path g = [] then alias_in fs f gs
     else (case filesAlias fs (nm_Path f) (nm_Path g) of
       Inl e \<Rightarrow> Some e
     | Inr same \<Rightarrow> if same then Some (Ident_Alias (nm_Flag f) (nm_Flag g)) else alias_in fs f gs))"

fun RejectAliased :: "ident_fs \<Rightarrow> named list \<Rightarrow> ident_error option" where
  "RejectAliased fs [] = None"
| "RejectAliased fs (f # rest) =
    (if nm_Path f = [] then RejectAliased fs rest
     else (case alias_in fs f rest of Some e \<Rightarrow> Some e | None \<Rightarrow> RejectAliased fs rest))"

section \<open>Clean paths\<close>

definition normal_part :: "bytes \<Rightarrow> bool" where
  "normal_part c \<longleftrightarrow> c \<noteq> [] \<and> c \<noteq> ''.'' \<and> c \<noteq> ''..'' \<and> CHR ''/'' \<notin> set c"

definition rooted :: "bytes list \<Rightarrow> bytes \<Rightarrow> bool" where
  "rooted cs p \<longleftrightarrow> p = path_of True cs \<and> list_all normal_part cs"

lemma split_on_join: "split_on c (a @ c # b) = split_on c a @ split_on c b"
  by (induction a) (auto split: list.splits)

lemma split_on_parts: "x \<in> set (split_on c s) \<Longrightarrow> c \<notin> set x"
  by (induction s arbitrary: x) (auto split: list.splits if_splits)

lemma split_on_Join: "cs \<noteq> [] \<Longrightarrow> \<forall>c \<in> set cs. CHR ''/'' \<notin> set c \<Longrightarrow> split_on CHR ''/'' (strings_Join ''/'' cs) = cs"
  by (induction "''/''" cs rule: strings_Join.induct) (simp_all add: split_on_no_sep split_on_append)

lemma normal_no_slash: "list_all normal_part cs \<Longrightarrow> \<forall>c \<in> set cs. CHR ''/'' \<notin> set c"
  by (auto simp: list_all_iff normal_part_def)

lemma fold_normal: "list_all normal_part cs \<Longrightarrow> fold (clean_part r) cs st = rev cs @ st"
  by (induction cs arbitrary: st) (auto simp: clean_part_def normal_part_def)

lemma fold_clean_normal:
  "list_all normal_part st \<Longrightarrow> \<forall>c \<in> set cs. CHR ''/'' \<notin> set c \<Longrightarrow> list_all normal_part (fold (clean_part True) cs st)"
proof (induction cs arbitrary: st)
  case (Cons c cs)
  have "list_all normal_part (clean_part True c st)"
    using Cons.prems by (cases st) (auto simp: clean_part_def normal_part_def[of c])
  with Cons show ?case by simp
qed simp

lemma split_rooted:
  assumes "list_all normal_part cs"
  shows "split_on CHR ''/'' (path_of True cs) = [] # (if cs = [] then [[]] else cs)"
  using split_on_Join[OF _ normal_no_slash[OF assms]] by (simp add: path_of_def)

lemma clean_part_Nil [simp]: "clean_part r [] = id"
  by (rule ext) (simp add: clean_part_def)

lemma IsAbs_path_of [simp]: "IsAbs (path_of True cs)" "IsAbs (path_of True cs @ p)"
  by (simp_all add: IsAbs_def path_of_def)

lemma Clean_rooted_join:
  assumes "list_all normal_part cs" "list_all normal_part ds"
  shows "Clean (path_of True cs @ ''/'' @ strings_Join ''/'' ds) = path_of True (cs @ ds)"
proof -
  have "split_on CHR ''/'' (strings_Join ''/'' ds) = (if ds = [] then [[]] else ds)"
    using split_on_Join[OF _ normal_no_slash[OF assms(2)]] by simp
  then show ?thesis
    using assms by (simp add: Clean_def split_on_join split_rooted fold_normal)
qed

lemma Clean_rooted: "rooted cs p \<Longrightarrow> Clean p = p"
  by (auto simp: rooted_def Clean_def split_rooted fold_normal)

lemma Clean_absolute: "IsAbs p \<Longrightarrow> \<exists>cs. rooted cs (Clean p)"
  unfolding rooted_def Clean_def
  by (rule exI[of _ "rev (fold (clean_part True) (split_on CHR ''/'' p) [])"])
    (use fold_clean_normal[of "[]" "split_on CHR ''/'' p"] split_on_parts in auto)

lemma Clean_IsAbs: "IsAbs p \<Longrightarrow> IsAbs (Clean p)"
  by (simp add: Clean_def)

lemma path_Join_absolute: "IsAbs a \<Longrightarrow> IsAbs (path_Join a b)"
  by (simp add: path_Join_def Clean_IsAbs IsAbs_def[of a] IsAbs_def[of "a @ _"])

lemma Dir_absolute:
  assumes "IsAbs p"
  shows "IsAbs (Dir p)"
proof -
  obtain d b where p: "fst (Split p) = d" "p = d @ b" "CHR ''/'' \<notin> set b"
    using Split_append[of p] Split_base[of p] by metis
  with assms have "IsAbs d" by (cases d; cases b) (auto simp: IsAbs_def)
  with p(1) show ?thesis by (simp add: Dir_def Clean_IsAbs)
qed

lemma rooted_absolute: "rooted cs p \<Longrightarrow> IsAbs p"
  by (simp add: rooted_def)

lemma path_of_snoc: "path_of True (cs @ [c]) = path_of True cs @ (if cs = [] then [] else ''/'') @ c"
proof -
  have "cs \<noteq> [] \<Longrightarrow> strings_Join ''/'' (cs @ [c]) = strings_Join ''/'' cs @ ''/'' @ c"
    by (induction "''/''" cs rule: strings_Join.induct) auto
  then show ?thesis by (simp add: path_of_def)
qed

lemma Split_slash:
  assumes "CHR ''/'' \<notin> set c"
  shows "Split (d @ CHR ''/'' # c) = (d @ ''/'', c)"
proof -
  have "takeWhile (\<lambda>x. x \<noteq> CHR ''/'') (rev (d @ CHR ''/'' # c)) = rev c"
    using assms by (simp add: takeWhile_append)
  then show ?thesis by (simp add: Split_def Let_def)
qed

lemma Split_rooted:
  assumes "rooted (cs @ [c]) p"
  shows "snd (Split p) = c" "Clean (fst (Split p)) = path_of True cs" "fst (Split p) \<noteq> []" "path_of True cs \<noteq> p"
proof -
  have n: "list_all normal_part cs" "normal_part c" and p: "p = path_of True (cs @ [c])"
    using assms by (simp_all add: rooted_def)
  have c: "CHR ''/'' \<notin> set c" "c \<noteq> []" using n(2) by (simp_all add: normal_part_def)
  show "path_of True cs \<noteq> p" using c(2) by (auto simp: p path_of_snoc)
  have "Split p = (if cs = [] then ''/'' else path_of True cs @ ''/'', c)"
    using Split_slash[OF c(1), of "[]"] Split_slash[OF c(1), of "path_of True cs"]
    by (simp add: p path_of_snoc) (simp add: path_of_def)
  then show "snd (Split p) = c" "fst (Split p) \<noteq> []" "Clean (fst (Split p)) = path_of True cs"
    using Clean_rooted_join[OF n(1), of "[]"] Clean_rooted[of "[]" "path_of True []"]
    by (auto simp: rooted_def path_of_def)
qed

lemma Join_rooted: "rooted cs r \<Longrightarrow> normal_part c \<Longrightarrow> rooted (cs @ [c]) (path_Join r c)"
  using Clean_rooted_join[of cs "[c]"] by (simp add: rooted_def path_Join_def path_of_def)

section \<open>What resolution finds\<close>

text \<open>A settled path has no part that is a symbolic link.\<close>

definition settled :: "ident_fs \<Rightarrow> bytes \<Rightarrow> bool" where
  "settled fs p \<longleftrightarrow>
    (\<exists>cs. rooted cs p \<and> (\<forall>k \<le> length cs. if_Lstat fs (path_of True (take k cs)) \<noteq> Some True))"

lemma settled_snoc:
  assumes "settled fs r" "normal_part c" "if_Lstat fs (path_Join r c) \<noteq> Some True"
  shows "settled fs (path_Join r c)"
proof -
  obtain cs where cs: "rooted cs r" "\<forall>k \<le> length cs. if_Lstat fs (path_of True (take k cs)) \<noteq> Some True"
    using assms(1) by (auto simp: settled_def)
  have j: "rooted (cs @ [c]) (path_Join r c)" by (rule Join_rooted[OF cs(1) assms(2)])
  then have "if_Lstat fs (path_of True (take k (cs @ [c]))) \<noteq> Some True" if "k \<le> length (cs @ [c])" for k
    using cs(2) assms(3) that by (cases "k = length (cs @ [c])") (auto simp: rooted_def)
  with j show ?thesis by (auto simp: settled_def)
qed

text \<open>The parent of a clean path is resolved first.\<close>

definition resolve_parent :: "ident_fs \<Rightarrow> bytes \<Rightarrow> nat \<Rightarrow> bytes set \<Rightarrow> (ident_error + bytes) \<times> bytes set" where
  "resolve_parent fs path hops seen =
    (let dir = fst (Split path); parent = Clean dir in
     if dir \<noteq> [] \<and> parent \<noteq> path then
       (case resolvePath fs parent hops seen of
          (Inl e, seen1) \<Rightarrow> (Inl e, seen1)
        | (Inr resolved, seen1) \<Rightarrow> (Inr (path_Join resolved (snd (Split path))), seen1))
     else (Inr path, seen))"

lemma resolve_step:
  "resolvePath fs path hops seen =
    (if hops > maxSymlinkHops then (Inl Ident_HopLimit, seen)
     else (case resolve_parent fs path hops seen of
       (Inl e, seen1) \<Rightarrow> (Inl e, seen1)
     | (Inr p, seen1) \<Rightarrow>
         if p \<in> seen1 then (Inl (Ident_Loop p), seen1)
         else if if_Lstat fs p \<noteq> Some True then (Inr p, seen1)
         else (case if_Readlink fs p of
             Inl e \<Rightarrow> (Inl (Ident_IO e), insert p seen1)
           | Inr target \<Rightarrow>
               resolvePath fs (Clean (if IsAbs target then target else path_Join (Dir p) target)) (hops + 1)
                 (insert p seen1))))"
  by (subst resolvePath.simps) (simp add: resolve_parent_def Let_def)

lemma resolve_settled:
  assumes "resolvePath fs path hops seen = (Inr p, seen')" "rooted cs path"
  shows "settled fs p"
  using assms
proof (induction "257 - hops" arbitrary: path hops seen p seen' cs rule: less_induct)
  case outer: less
  show ?case using outer.prems
  proof (induction "length path" arbitrary: path seen p seen' cs rule: less_induct)
    case inner: less
    have hops: "\<not> hops > maxSymlinkHops"
      using inner.prems(1) by (subst (asm) resolve_step) (auto split: if_splits)
    from inner.prems(1) hops obtain q seen1 where q: "resolve_parent fs path hops seen = (Inr q, seen1)"
      by (subst (asm) resolve_step) (auto split: prod.splits sum.splits if_splits)
    have parent: "\<exists>ds. rooted ds q" "if_Lstat fs q \<noteq> Some True \<Longrightarrow> settled fs q"
    proof -
      have "(\<exists>ds. rooted ds q) \<and> (if_Lstat fs q \<noteq> Some True \<longrightarrow> settled fs q)"
      proof (cases cs rule: rev_cases)
        case Nil
        then have "path = ''/''" using inner.prems(2) by (simp add: rooted_def path_of_def)
        moreover have "Clean (fst (Split ''/'')) = ''/''" by (simp add: Split_def Clean_def IsAbs_def path_of_def)
        ultimately have "q = path" using q by (simp add: resolve_parent_def Let_def)
        then show ?thesis using Nil inner.prems(2) by (auto simp: settled_def rooted_def intro!: exI[of _ "[]"])
      next
        case (snoc ds c)
        note sp = Split_rooted[OF inner.prems(2)[unfolded snoc]]
        have c: "normal_part c" "rooted ds (path_of True ds)" using inner.prems(2) snoc by (simp_all add: rooted_def)
        from q sp obtain r where r: "resolvePath fs (path_of True ds) hops seen = (Inr r, seen1)" "q = path_Join r c"
          by (auto simp: resolve_parent_def Let_def split: prod.splits sum.splits)
        have "length (path_of True ds) < length path"
          using parent_shorter[of path] sp by simp
        then have "settled fs r" by (rule inner.hyps[OF _ r(1) c(2)])
        then show ?thesis
          using settled_snoc[of fs r c] Join_rooted[of _ r c] c(1) by (auto simp: r(2) settled_def)
      qed
      then show "\<exists>ds. rooted ds q" "if_Lstat fs q \<noteq> Some True \<Longrightarrow> settled fs q" by blast+
    qed
    have rest: "(if q \<in> seen1 then (Inl (Ident_Loop q), seen1)
         else if if_Lstat fs q \<noteq> Some True then (Inr q, seen1)
         else (case if_Readlink fs q of
             Inl e \<Rightarrow> (Inl (Ident_IO e), insert q seen1)
           | Inr target \<Rightarrow>
               resolvePath fs (Clean (if IsAbs target then target else path_Join (Dir q) target)) (hops + 1)
                 (insert q seen1))) = (Inr p, seen')"
      using inner.prems(1) hops q by (subst (asm) resolve_step) simp
    show ?case
    proof (cases "if_Lstat fs q = Some True")
      case False
      with rest parent(2) show ?thesis by (auto split: if_splits)
    next
      case True
      with rest obtain target where t: "resolvePath fs (Clean (if IsAbs target then target else path_Join (Dir q) target))
          (hops + 1) (insert q seen1) = (Inr p, seen')" by (auto split: if_splits sum.splits)
      obtain ds where "rooted ds q" using parent(1) by blast
      then have "IsAbs (path_Join (Dir q) target)"
        using Dir_absolute[of q] by (auto simp: rooted_absolute path_Join_absolute)
      then have "IsAbs (if IsAbs target then target else path_Join (Dir q) target)" by simp
      from Clean_absolute[OF this] obtain es where "rooted es (Clean (if IsAbs target then target else path_Join (Dir q) target))"
        by blast
      moreover have "257 - (hops + 1) < 257 - hops" using hops by (simp add: maxSymlinkHops_def)
      ultimately show ?thesis using outer.hyps[OF _ t] by blast
    qed
  qed
qed

lemma canonical_settled:
  assumes "canonicalPath fs path = Inr p" "\<And>wd. if_Getwd fs = Inr wd \<Longrightarrow> IsAbs wd"
  shows "settled fs p"
proof -
  obtain a where a: "filepath_Abs fs path = Inr a" "fst (resolvePath fs (Clean a) 0 {}) = Inr p"
    using assms(1) by (auto simp: canonicalPath_def split: sum.splits)
  then have "IsAbs a"
    using assms(2) by (auto simp: filepath_Abs_def Clean_IsAbs path_Join_absolute split: if_splits sum.splits)
  then obtain cs where "rooted cs (Clean a)" using Clean_absolute by blast
  with a(2) show ?thesis by (metis resolve_settled prod.collapse)
qed

section \<open>What the kernel opens\<close>

text \<open>The resolution of a path by the kernel, as a reference for the one of the program: part by part from
  the directory reached so far, which is kept with its last part first. A link is followed from where it
  is met, and \<^verbatim>\<open>..\<close> leaves the directory that was really reached, while \<^verbatim>\<open>filepath.Clean\<close> takes back the part
  that is written before it.\<close>

definition parts_of :: "bytes \<Rightarrow> bytes list" where
  "parts_of p = filter (\<lambda>c. c \<noteq> [] \<and> c \<noteq> ''.'') (split_on CHR ''/'' p)"

inductive kernel_walk :: "ident_fs \<Rightarrow> bytes list \<Rightarrow> bytes list \<Rightarrow> bytes list \<Rightarrow> bool" for fs where
  reached: "kernel_walk fs st [] st"
| parent: "kernel_walk fs (tl st) cs fin \<Longrightarrow> kernel_walk fs st (''..'' # cs) fin"
| entry: "c \<noteq> ''..'' \<Longrightarrow> if_Lstat fs (path_of True (rev (c # st))) \<noteq> Some True \<Longrightarrow> kernel_walk fs (c # st) cs fin \<Longrightarrow>
    kernel_walk fs st (c # cs) fin"
| link: "c \<noteq> ''..'' \<Longrightarrow> if_Lstat fs (path_of True (rev (c # st))) = Some True \<Longrightarrow>
    if_Readlink fs (path_of True (rev (c # st))) = Inr target \<Longrightarrow>
    kernel_walk fs (if IsAbs target then [] else st) (parts_of target @ cs) fin \<Longrightarrow> kernel_walk fs st (c # cs) fin"

inductive_cases kernel_walk_NilE [elim!]: "kernel_walk fs st [] fin"
inductive_cases kernel_walk_ConsE: "kernel_walk fs st (c # cs) fin"

lemma kernel_walk_unique: "kernel_walk fs st cs x \<Longrightarrow> kernel_walk fs st cs y \<Longrightarrow> y = x"
proof (induction arbitrary: y rule: kernel_walk.induct)
  case (parent st cs fin)
  from parent.prems show ?case by (cases rule: kernel_walk_ConsE) (blast intro: parent.IH)+
next
  case (entry c st cs fin)
  from entry.prems have "kernel_walk fs (c # st) cs y"
    by (cases rule: kernel_walk_ConsE) (use entry.hyps(1,2)[unfolded rev.simps] in \<open>blast+\<close>)
  then show ?case by (rule entry.IH)
next
  case (link c st target cs fin)
  from link.prems obtain target' where "if_Readlink fs (path_of True (rev st @ [c])) = Inr target'"
    "kernel_walk fs (if IsAbs target' then [] else st) (parts_of target' @ cs) y"
    by (cases rule: kernel_walk_ConsE) (use link.hyps(1,2)[unfolded rev.simps] in \<open>blast+\<close>)
  with link.hyps(3) show ?case by (intro link.IH) simp
qed blast

lemma kernel_walk_append: "kernel_walk fs st cs mid \<Longrightarrow> kernel_walk fs mid ds fin \<Longrightarrow> kernel_walk fs st (cs @ ds) fin"
proof (induction rule: kernel_walk.induct)
  case (link c st target cs mid)
  then show ?case using kernel_walk.link[of c fs st target "cs @ ds" fin] by simp
qed (auto intro: kernel_walk.intros)

lemma kernel_walk_split: "kernel_walk fs st (cs @ ds) fin \<Longrightarrow> \<exists>mid. kernel_walk fs st cs mid \<and> kernel_walk fs mid ds fin"
proof (induction "cs @ ds" fin arbitrary: cs rule: kernel_walk.induct)
  case (reached st)
  then show ?case by (auto intro: kernel_walk.reached)
next
  case (parent st cs' fin)
  show ?case
  proof (cases cs)
    case Nil
    with parent.hyps show ?thesis by (auto intro: kernel_walk.intros)
  next
    case (Cons c cs1)
    with parent show ?thesis by (auto intro: kernel_walk.intros)
  qed
next
  case (entry c st cs' fin)
  show ?case
  proof (cases cs)
    case Nil
    with entry.hyps show ?thesis using kernel_walk.reached kernel_walk.entry by (metis append_Nil)
  next
    case (Cons c' cs1)
    with entry.hyps(5) have eq: "cs' = cs1 @ ds" "c' = c" by simp_all
    from entry.hyps(4)[OF eq(1)] obtain mid where "kernel_walk fs (c # st) cs1 mid" "kernel_walk fs mid ds fin" by blast
    with entry.hyps(1,2) Cons eq(2) show ?thesis by (blast intro: kernel_walk.entry)
  qed
next
  case (link c st target cs' fin)
  show ?case
  proof (cases cs)
    case Nil
    with link.hyps show ?thesis using kernel_walk.reached kernel_walk.link by (metis append_Nil)
  next
    case (Cons c' cs1)
    with link.hyps(6) have eq: "cs' = cs1 @ ds" "c' = c" by simp_all
    from link.hyps(5)[of "parts_of target @ cs1"] eq obtain mid where
      "kernel_walk fs (if IsAbs target then [] else st) (parts_of target @ cs1) mid" "kernel_walk fs mid ds fin" by auto
    with link.hyps(1-3) Cons eq(2) show ?thesis by (blast intro: kernel_walk.link)
  qed
qed

text \<open>The file that a path names: from the root, or from the working directory.\<close>

definition opens :: "ident_fs \<Rightarrow> bytes \<Rightarrow> bytes list \<Rightarrow> bool" where
  "opens fs p fin \<longleftrightarrow>
    (if IsAbs p then kernel_walk fs [] (parts_of p) fin
     else \<exists>wd st. if_Getwd fs = Inr wd \<and> kernel_walk fs [] (parts_of wd) st \<and> kernel_walk fs st (parts_of p) fin)"

text \<open>A file system whose root is a directory, where \<^verbatim>\<open>..\<close> stands only at the head of what a link points to,
  and whose working directory is named from the root without \<^verbatim>\<open>..\<close>.\<close>

definition plain_fs :: "ident_fs \<Rightarrow> bool" where
  "plain_fs fs \<longleftrightarrow>
    if_Lstat fs ''/'' \<noteq> Some True \<and>
    (\<forall>p t. if_Readlink fs p = Inr t \<longrightarrow> ''..'' \<notin> set (dropWhile (\<lambda>c. c = ''..'') (parts_of t))) \<and>
    (\<forall>wd. if_Getwd fs = Inr wd \<longrightarrow> IsAbs wd \<and> ''..'' \<notin> set (parts_of wd))"

lemma fold_parts: "fold (clean_part r) (filter (\<lambda>c. c \<noteq> [] \<and> c \<noteq> ''.'') cs) st = fold (clean_part r) cs st"
  by (induction cs arbitrary: st) (auto simp: clean_part_def)

lemma Clean_parts: "Clean p = path_of (IsAbs p) (rev (fold (clean_part (IsAbs p)) (parts_of p) []))"
  by (simp add: Clean_def parts_of_def fold_parts)

lemma parts_normal: "''..'' \<notin> set cs \<Longrightarrow> set cs \<subseteq> set (parts_of p) \<Longrightarrow> list_all normal_part cs"
  using split_on_parts by (fastforce simp: parts_of_def normal_part_def list_all_iff)

lemma parts_append: "parts_of (a @ ''/'' @ b) = parts_of a @ parts_of b"
  by (simp add: parts_of_def split_on_join)

lemma parts_rooted:
  assumes "rooted cs p"
  shows "parts_of p = cs"
proof -
  have "filter (\<lambda>c. c \<noteq> [] \<and> c \<noteq> ''.'') cs = cs"
    using assms by (auto simp: rooted_def list_all_iff normal_part_def intro: filter_True)
  then show ?thesis using assms split_rooted[of cs] by (auto simp: rooted_def parts_of_def)
qed

lemma fold_parents: "list_all normal_part st \<Longrightarrow> fold (clean_part True) (replicate n ''..'') st = drop n st"
proof (induction n arbitrary: st)
  case (Suc n)
  have "clean_part True ''..'' st = tl st"
    using Suc.prems by (auto simp: clean_part_def normal_part_def split: list.split)
  moreover have "list_all normal_part (tl st)" using Suc.prems by (cases st) simp_all
  ultimately show ?case using Suc.IH by (simp add: drop_Suc)
qed simp

lemma kernel_parents: "kernel_walk fs (drop n st) cs fin \<Longrightarrow> kernel_walk fs st (replicate n ''..'' @ cs) fin"
  by (induction n arbitrary: st) (auto intro: kernel_walk.parent simp: drop_Suc)

text \<open>Parts without links are walked as they are written.\<close>

lemma kernel_settled:
  assumes "list_all normal_part cs" "\<forall>k \<le> length cs. if_Lstat fs (path_of True (take k cs)) \<noteq> Some True"
    and "kernel_walk fs [] (cs @ ds) fin"
  shows "kernel_walk fs (rev cs) ds fin"
  using assms
proof (induction cs arbitrary: ds rule: rev_induct)
  case (snoc c cs)
  have "if_Lstat fs (path_of True (take k cs)) \<noteq> Some True" if "k \<le> length cs" for k
    using snoc.prems(2)[rule_format, of k] that by simp
  then have "kernel_walk fs (rev cs) (c # ds) fin" using snoc.IH[of "c # ds"] snoc.prems(1,3) by simp
  moreover have "if_Lstat fs (path_of True (rev (c # rev cs))) \<noteq> Some True" using snoc.prems(2)[rule_format, of "length (cs @ [c])"] by simp
  moreover have "c \<noteq> ''..''" using snoc.prems(1) by (simp add: normal_part_def)
  ultimately show ?case by (auto elim: kernel_walk_ConsE)
qed simp

text \<open>What a link points to is walked like the path that the program makes of it.\<close>

lemma kernel_target:
  assumes "settled fs (path_of True (rev st))" "list_all normal_part st" "''..'' \<notin> set (dropWhile (\<lambda>c. c = ''..'') (parts_of t))"
    and "rooted es (Clean (if IsAbs t then t else path_Join (path_of True (rev st)) t))" "kernel_walk fs [] es fin"
  shows "kernel_walk fs (if IsAbs t then [] else st) (parts_of t) fin"
proof -
  define n where "n = length (takeWhile (\<lambda>c. c = ''..'') (parts_of t))"
  define ns where "ns = dropWhile (\<lambda>c. c = ''..'') (parts_of t)"
  define st' where "st' = (if IsAbs t then [] else st)"
  have "takeWhile (\<lambda>c. c = ''..'') (parts_of t) = replicate n ''..''"
    unfolding n_def by (rule replicate_length_same[symmetric]) (auto dest: set_takeWhileD)
  then have t: "parts_of t = replicate n ''..'' @ ns"
    using takeWhile_dropWhile_id[of "\<lambda>c. c = ''..''" "parts_of t"] by (simp add: ns_def)
  have ns: "list_all normal_part ns" by (rule parts_normal[of ns t]) (use assms(3) in \<open>auto simp: ns_def dest: set_dropWhileD\<close>)
  have st': "list_all normal_part st'" using assms(2) by (simp add: st'_def)
  have clean: "Clean (if IsAbs t then t else path_Join (path_of True (rev st)) t) = path_of True (rev (fold (clean_part True) (parts_of t) st'))"
  proof (cases "IsAbs t")
    case True
    then show ?thesis by (simp add: Clean_parts st'_def)
  next
    case False
    have r: "rooted (rev st) (path_of True (rev st))" using assms(2) by (simp add: rooted_def)
    have "path_of True (rev st) \<noteq> []" by (simp add: path_of_def)
    then have "path_Join (path_of True (rev st)) t = Clean (path_of True (rev st) @ ''/'' @ t)" by (simp add: path_Join_def)
    also have "\<dots> = path_of True (rev (fold (clean_part True) (parts_of t) st))"
      using fold_normal[of "rev st" True "[]"] assms(2)
      by (simp add: Clean_parts[of "path_of True (rev st) @ _"] parts_append[simplified] parts_rooted[OF r])
    finally have j: "path_Join (path_of True (rev st)) t = path_of True (rev (fold (clean_part True) (parts_of t) st))" .
    have "list_all normal_part (rev (fold (clean_part True) (parts_of t) st))"
      using fold_clean_normal[OF assms(2), of "parts_of t"] split_on_parts by (fastforce simp: parts_of_def)
    then have "Clean (path_of True (rev (fold (clean_part True) (parts_of t) st))) = path_of True (rev (fold (clean_part True) (parts_of t) st))"
      by (intro Clean_rooted[of "rev (fold (clean_part True) (parts_of t) st)"]) (simp add: rooted_def)
    with j False show ?thesis by (simp add: st'_def)
  qed
  have fold: "fold (clean_part True) (parts_of t) st' = rev ns @ drop n st'"
    using fold_parents[OF st', of n] fold_normal[OF ns] by (simp add: t)
  have es: "es = rev (drop n st') @ ns"
  proof -
    have n1: "list_all normal_part (rev (drop n st') @ ns)"
      using ns st' by (auto simp: list_all_iff dest: in_set_dropD)
    have "rooted (rev (drop n st') @ ns) (Clean (if IsAbs t then t else path_Join (path_of True (rev st)) t))"
      using n1 by (simp add: rooted_def clean fold)
    then show ?thesis using assms(4) parts_rooted by metis
  qed
  have "kernel_walk fs (rev (rev (drop n st'))) ns fin"
  proof (rule kernel_settled)
    show "list_all normal_part (rev (drop n st'))" using st' by (auto simp: list_all_iff dest: in_set_dropD)
    obtain cs where cs: "rooted cs (path_of True (rev st))" "\<forall>k \<le> length cs. if_Lstat fs (path_of True (take k cs)) \<noteq> Some True"
      using assms(1) by (auto simp: settled_def)
    have "cs = rev st" using parts_rooted[OF cs(1)] parts_rooted[of "rev st" "path_of True (rev st)"] assms(2)
      by (simp add: rooted_def)
    moreover have "if_Lstat fs (path_of True []) \<noteq> Some True" using cs(2)[rule_format, of 0] by simp
    ultimately show "\<forall>k \<le> length (rev (drop n st')). if_Lstat fs (path_of True (take k (rev (drop n st')))) \<noteq> Some True"
      using cs(2) by (auto simp: st'_def rev_drop)
    show "kernel_walk fs [] (rev (drop n st') @ ns) fin" using assms(5) es by simp
  qed
  then show ?thesis unfolding t st'_def[symmetric] by (intro kernel_parents) simp
qed

lemma resolve_kernel:
  assumes "resolvePath fs path hops seen = (Inr p, seen')" "rooted cs path" "plain_fs fs"
  shows "\<exists>st. rooted (rev st) p \<and> kernel_walk fs [] cs st"
  using assms(1,2)
proof (induction "257 - hops" arbitrary: path hops seen p seen' cs rule: less_induct)
  case outer: less
  show ?case using outer.prems
  proof (induction "length path" arbitrary: path seen p seen' cs rule: less_induct)
    case inner: less
    have hops: "\<not> hops > maxSymlinkHops"
      using inner.prems(1) by (subst (asm) resolve_step) (auto split: if_splits)
    from inner.prems(1) hops obtain q seen1 where q: "resolve_parent fs path hops seen = (Inr q, seen1)"
      by (subst (asm) resolve_step) (auto split: prod.splits sum.splits if_splits)
    have rest: "(if q \<in> seen1 then (Inl (Ident_Loop q), seen1)
         else if if_Lstat fs q \<noteq> Some True then (Inr q, seen1)
         else (case if_Readlink fs q of
             Inl e \<Rightarrow> (Inl (Ident_IO e), insert q seen1)
           | Inr target \<Rightarrow>
               resolvePath fs (Clean (if IsAbs target then target else path_Join (Dir q) target)) (hops + 1)
                 (insert q seen1))) = (Inr p, seen')"
      using inner.prems(1) hops q by (subst (asm) resolve_step) simp
    show ?case
    proof (cases cs rule: rev_cases)
      case Nil
      then have "path = ''/''" using inner.prems(2) by (simp add: rooted_def path_of_def)
      moreover have "Clean (fst (Split ''/'')) = ''/''" by (simp add: Split_def Clean_def IsAbs_def path_of_def)
      ultimately have "q = ''/''" using q by (simp add: resolve_parent_def Let_def)
      then have "p = ''/''" using rest assms(3) by (auto simp: plain_fs_def split: if_splits)
      then show ?thesis using Nil kernel_walk.reached by (intro exI[of _ "[]"]) (simp add: rooted_def path_of_def)
    next
      case (snoc ds c)
      note sp = Split_rooted[OF inner.prems(2)[unfolded snoc]]
      have c: "normal_part c" "rooted ds (path_of True ds)" using inner.prems(2) snoc by (simp_all add: rooted_def)
      from q sp obtain r where r: "resolvePath fs (path_of True ds) hops seen = (Inr r, seen1)" "q = path_Join r c"
        by (auto simp: resolve_parent_def Let_def split: prod.splits sum.splits)
      have "length (path_of True ds) < length path" using parent_shorter[of path] sp by simp
      then obtain st where st: "rooted (rev st) r" "kernel_walk fs [] ds st" using inner.hyps[OF _ r(1) c(2)] by blast
      have set_r: "settled fs r" by (rule resolve_settled[OF r(1) c(2)])
      have nst: "list_all normal_part st" "r = path_of True (rev st)" using st(1) by (simp_all add: rooted_def)
      have qr: "rooted (rev (c # st)) q" using Join_rooted[OF st(1) c(1)] r(2) by simp
      then have q_eq: "q = path_of True (rev (c # st))" by (simp add: rooted_def)
      have nd: "c \<noteq> ''..''" using c(1) by (simp add: normal_part_def)
      show ?thesis
      proof (cases "if_Lstat fs q = Some True")
        case False
        then have "p = q" using rest by (auto split: if_splits)
        moreover have "kernel_walk fs st [c] (c # st)"
          using False nd kernel_walk.reached unfolding q_eq by (intro kernel_walk.entry)
        ultimately show ?thesis using qr kernel_walk_append[OF st(2)] snoc by (intro exI[of _ "c # st"]) simp
      next
        case True
        with rest obtain target where t: "if_Readlink fs q = Inr target"
          "resolvePath fs (Clean (if IsAbs target then target else path_Join (Dir q) target)) (hops + 1) (insert q seen1) = (Inr p, seen')"
          by (auto split: if_splits sum.splits)
        have dir: "Dir q = path_of True (rev st)"
          using Split_rooted(2)[of "rev st" c q] qr by (simp add: Dir_def)
        have "IsAbs (if IsAbs target then target else path_Join (Dir q) target)"
          by (simp add: dir path_Join_absolute)
        then obtain es where es: "rooted es (Clean (if IsAbs target then target else path_Join (Dir q) target))"
          using Clean_absolute by blast
        have "257 - (hops + 1) < 257 - hops" using hops by (simp add: maxSymlinkHops_def)
        then obtain fin where fin: "rooted (rev fin) p" "kernel_walk fs [] es fin" using outer.hyps[OF _ t(2) es] by blast
        have "kernel_walk fs (if IsAbs target then [] else st) (parts_of target) fin"
          by (rule kernel_target[OF _ nst(1) _ es[unfolded dir] fin(2)])
            (use set_r nst(2) assms(3) t(1) in \<open>auto simp: plain_fs_def\<close>)
        then have "kernel_walk fs st [c] fin"
          using kernel_walk.link[of c fs st target "[]" fin] nd True t(1) unfolding q_eq by simp
        then show ?thesis using fin(1) kernel_walk_append[OF st(2)] snoc by (intro exI[of _ fin]) simp
      qed
    qed
  qed
qed

text \<open>Where no \<^verbatim>\<open>..\<close> is written, the name that the program finds is the file that the kernel opens.\<close>

lemma canonical_opens:
  assumes "canonicalPath fs p = Inr q" "plain_fs fs" "''..'' \<notin> set (parts_of p)"
  shows "\<exists>x. rooted (rev x) q \<and> (\<forall>z. opens fs p z \<longleftrightarrow> z = x)"
proof -
  obtain a where a: "filepath_Abs fs p = Inr a" "fst (resolvePath fs (Clean a) 0 {}) = Inr q"
    using assms(1) by (auto simp: canonicalPath_def split: sum.splits)
  have clean: "rooted (parts_of s) (Clean s)" if "IsAbs s" "''..'' \<notin> set (parts_of s)" for s
    using that fold_normal[of "parts_of s" True "[]"] parts_normal[of "parts_of s" s] by (simp add: Clean_parts rooted_def)
  have ex: "\<exists>cs. rooted cs (Clean a) \<and> (\<forall>x. kernel_walk fs [] cs x \<longrightarrow> (\<forall>z. opens fs p z \<longleftrightarrow> z = x))"
  proof (cases "IsAbs p")
    case True
    then have "rooted (parts_of p) (Clean a)"
      using a(1) clean[OF True assms(3)] Clean_rooted by (simp add: filepath_Abs_def)
    then show ?thesis using True kernel_walk_unique by (auto simp: opens_def)
  next
    case False
    then obtain wd where wd: "if_Getwd fs = Inr wd" "a = path_Join wd p"
      using a(1) by (auto simp: filepath_Abs_def split: sum.splits)
    then have w: "IsAbs wd" "''..'' \<notin> set (parts_of wd)" using assms(2) by (auto simp: plain_fs_def)
    have "IsAbs (wd @ ''/'' @ p)" using w(1) by (cases wd) (simp_all add: IsAbs_def)
    moreover have "''..'' \<notin> set (parts_of (wd @ ''/'' @ p))" using assms(3) w(2) by (simp only: parts_append) simp
    ultimately have r: "rooted (parts_of wd @ parts_of p) (Clean (wd @ ''/'' @ p))" using clean parts_append by metis
    moreover have "a = Clean (wd @ ''/'' @ p)" using wd(2) w(1) by (auto simp: path_Join_def IsAbs_def)
    ultimately have "rooted (parts_of wd @ parts_of p) (Clean a)" using Clean_rooted by simp
    moreover have "opens fs p z \<longleftrightarrow> z = x" if x: "kernel_walk fs [] (parts_of wd @ parts_of p) x" for x z
    proof -
      obtain st where st: "kernel_walk fs [] (parts_of wd) st" "kernel_walk fs st (parts_of p) x"
        using kernel_walk_split[OF x] by blast
      show ?thesis
      proof
        assume "opens fs p z"
        then obtain st' where "kernel_walk fs [] (parts_of wd) st'" "kernel_walk fs st' (parts_of p) z"
          using False wd(1) by (auto simp: opens_def)
        with st show "z = x" using kernel_walk_unique by metis
      qed (use st False wd(1) in \<open>auto simp: opens_def\<close>)
    qed
    ultimately show ?thesis by blast
  qed
  then obtain cs where cs: "rooted cs (Clean a)" "\<forall>x. kernel_walk fs [] cs x \<longrightarrow> (\<forall>z. opens fs p z \<longleftrightarrow> z = x)" by blast
  obtain seen' where "resolvePath fs (Clean a) 0 {} = (Inr q, seen')" using a(2) by (metis prod.collapse)
  from resolve_kernel[OF this cs(1) assms(2)] cs(2) show ?thesis by blast
qed

section \<open>Acceptance\<close>

lemma filesAlias_False:
  "a \<noteq> [] \<Longrightarrow> b \<noteq> [] \<Longrightarrow> filesAlias fs a b = Inr False \<longleftrightarrow>
    (\<exists>p q. canonicalPath fs a = Inr p \<and> canonicalPath fs b = Inr q \<and> p \<noteq> q \<and>
      (\<forall>x. if_Stat fs a = Some x \<longrightarrow> if_Stat fs b \<noteq> Some x))"
  by (auto simp: filesAlias_def split: sum.splits option.splits)

lemma alias_in_None:
  "nm_Path f \<noteq> [] \<Longrightarrow> alias_in fs f gs = None \<longleftrightarrow>
    (\<forall>g \<in> set gs. nm_Path g \<noteq> [] \<longrightarrow> filesAlias fs (nm_Path f) (nm_Path g) = Inr False)"
  by (induction gs) (auto split: sum.splits)

lemma RejectAliased_None:
  "RejectAliased fs files = None \<longleftrightarrow>
    sorted_wrt (\<lambda>f g. nm_Path f \<noteq> [] \<and> nm_Path g \<noteq> [] \<longrightarrow> filesAlias fs (nm_Path f) (nm_Path g) = Inr False) files"
proof (induction files)
  case (Cons f rest)
  then show ?case using alias_in_None[of f fs rest] by (auto split: option.splits)
qed simp

text \<open>A file system with a link to a directory and two links to a file that is not there.\<close>

definition example_ident_fs :: ident_fs where
  "example_ident_fs =
    \<lparr>if_Getwd = Inr ''/w'',
     if_Lstat = (\<lambda>p. if p \<in> {''/l'', ''/d/x'', ''/w/m''} then Some True
       else if p \<in> {''/'', ''/d'', ''/w'', ''/d/y''} then Some False else None),
     if_Readlink = (\<lambda>p. if p = ''/l'' then Inr ''/d'' else if p = ''/d/x'' then Inr ''/l/y''
       else if p = ''/w/m'' then Inr ''../d/./new'' else Inl ''invalid''),
     if_Stat = (\<lambda>p. if p \<in> {''/d/y'', ''/l/y'', ''/d/x'', ''/l/x''} then Some (1, 7) else None)\<rparr>"

section \<open>Properties\<close>


lemma example_plain_fs: "plain_fs example_ident_fs"
proof -
  have "list_all (\<lambda>t. ''..'' \<notin> set (dropWhile (\<lambda>c. c = ''..'') (parts_of t))) [''/d'', ''/l/y'', ''../d/./new'']"
    "''..'' \<notin> set (parts_of ''/w'')" "if_Lstat example_ident_fs ''/'' = Some False" by code_simp+
  then show ?thesis by (auto simp: plain_fs_def example_ident_fs_def IsAbs_def split: if_splits)
qed


text \<open>With \<^verbatim>\<open>..\<close> behind a link the check is deceived: the link \<^verbatim>\<open>/l\<close> leads to \<^verbatim>\<open>/d/sub\<close>, so that \<^verbatim>\<open>/l/../new\<close> is \<^verbatim>\<open>/d/new\<close>
  for the kernel; the program takes it for \<^verbatim>\<open>/new\<close> and accepts the two paths as two files.\<close>

definition example_nested_fs :: ident_fs where
  "example_nested_fs =
    \<lparr>if_Getwd = Inr ''/'',
     if_Lstat = (\<lambda>p. if p = ''/l'' then Some True else if p \<in> {''/'', ''/d'', ''/d/sub''} then Some False else None),
     if_Readlink = (\<lambda>p. if p = ''/l'' then Inr ''/d/sub'' else Inl ''invalid''), if_Stat = (\<lambda>p. None)\<rparr>"

theorem parent_of_link_accepted:
  "RejectAliased example_nested_fs
     [\<lparr>nm_Flag = ''-audit-log'', nm_Path = ''/l/../new''\<rparr>, \<lparr>nm_Flag = ''-replay-log'', nm_Path = ''/d/new''\<rparr>] = None \<and>
   opens example_nested_fs ''/l/../new'' [''new'', ''d''] \<and> opens example_nested_fs ''/d/new'' [''new'', ''d'']"
proof (intro conjI)
  show "RejectAliased example_nested_fs
     [\<lparr>nm_Flag = ''-audit-log'', nm_Path = ''/l/../new''\<rparr>, \<lparr>nm_Flag = ''-replay-log'', nm_Path = ''/d/new''\<rparr>] = None"
    by code_simp
  have parts: "parts_of ''/l/../new'' = [''l'', ''..'', ''new'']" "parts_of ''/d/new'' = [''d'', ''new'']"
    "parts_of ''/d/sub'' = [''d'', ''sub'']" "IsAbs ''/l/../new''" "IsAbs ''/d/new''" "IsAbs ''/d/sub''" by code_simp+
  have lstat: "if_Lstat example_nested_fs (path_of True (rev cs)) \<noteq> Some True" if "cs \<in> {[''d''], [''sub'', ''d''], [''new'', ''d'']}" for cs
    using that by (auto simp: example_nested_fs_def path_of_def)
  have new: "kernel_walk example_nested_fs [''d''] [''new''] [''new'', ''d'']"
    by (rule kernel_walk.entry[OF _ lstat kernel_walk.reached]) simp_all
  show "opens example_nested_fs ''/d/new'' [''new'', ''d'']"
    unfolding opens_def parts using parts(5) by (simp add: kernel_walk.entry[OF _ lstat new])
  have "kernel_walk example_nested_fs [''sub'', ''d''] [''..'', ''new''] [''new'', ''d'']"
    by (rule kernel_walk.parent) (simp add: new)
  then have "kernel_walk example_nested_fs [''d''] [''sub'', ''..'', ''new''] [''new'', ''d'']"
    by (rule kernel_walk.entry[OF _ lstat, rotated -1]) simp_all
  then have "kernel_walk example_nested_fs [] [''d'', ''sub'', ''..'', ''new''] [''new'', ''d'']"
    by (rule kernel_walk.entry[OF _ lstat, rotated -1]) simp_all
  then have "kernel_walk example_nested_fs [] [''l'', ''..'', ''new''] [''new'', ''d'']"
    using kernel_walk.link[of "''l''" example_nested_fs "[]" "''/d/sub''" "[''..'', ''new'']" "[''new'', ''d'']"]
    by (simp add: parts) (simp add: example_nested_fs_def path_of_def)
  then show "opens example_nested_fs ''/l/../new'' [''new'', ''d'']" unfolding opens_def parts using parts(4) by simp
qed

text \<open>A path through a link whose target is again a path through that link is no loop, and the file is
  found under its other name; resolution calls it one.\<close>

lemma revisited_link_rejected:
  "canonicalPath example_ident_fs ''/d/x'' = Inr ''/d/y'' \<and> canonicalPath example_ident_fs ''/l'' = Inr ''/d'' \<and>
    canonicalPath example_ident_fs ''/l/x'' = Inl (Ident_Loop ''/l'')"
  by code_simp

end
