(* ===== verification/Loading.thy ===== *)
theory Loading
  imports Registry Denylist Keyring "HOL-Library.Word"
begin

text \<open>
  \<^verbatim>\<open>internal/jsonutil/json.go\<close>, \<^verbatim>\<open>internal/token/json.go\<close> and the loaders on top of them: one JSON value and
  nothing after it, the registry and denylist documents, and the signing material with the check of the
  mode of its file.

  The decoder of \<^verbatim>\<open>encoding/json\<close> is a parameter: what it makes of the first value of its input, with the
  rest, and what it finds in the rest. What the file system answers for a path is a parameter too.
\<close>

section \<open>One value\<close>

text \<open>A decoder for one type: its message, or the value and the rest of the input.\<close>

type_synonym 'a decoder = "bytes \<Rightarrow> bytes + ('a \<times> bytes)"

datatype next_value = Next_EOF | Next_Value | Next_Error bytes

datatype json_error = Json_ErrTrailing | Json_Err bytes

definition json_decode :: "(bytes \<Rightarrow> next_value) \<Rightarrow> 'a decoder \<Rightarrow> bytes \<Rightarrow> json_error + 'a" where
  "json_decode next_of dec raw =
    (case dec raw of
       Inl e \<Rightarrow> Inl (Json_Err e)
     | Inr (v, rest) \<Rightarrow>
         (case next_of rest of
            Next_EOF \<Rightarrow> Inr v
          | Next_Value \<Rightarrow> Inl Json_ErrTrailing
          | Next_Error e \<Rightarrow> Inl Json_ErrTrailing))"

lemma json_decode_Inr:
  "json_decode next_of dec raw = Inr v \<longleftrightarrow> (\<exists>rest. dec raw = Inr (v, rest) \<and> next_of rest = Next_EOF)"
  by (auto simp: json_decode_def split: sum.splits next_value.splits)

section \<open>Files\<close>

text \<open>What \<^verbatim>\<open>os.ReadFile\<close> and \<^verbatim>\<open>os.Stat\<close> say of a path: an error, or the bytes; an error, or whether it is a
  regular file and its permission bits.\<close>

record fs_answer =
  fs_ReadFile :: "bytes + bytes"
  fs_Stat :: "bytes + (bool \<times> 32 word)"

record load_env =
  ld_fs :: "bytes \<Rightarrow> fs_answer"
  ld_next :: "bytes \<Rightarrow> next_value"
  ld_registry :: "registry_file decoder"
  ld_denylist :: "denylist_file decoder"
  ld_keyfile :: "keyfile decoder"
  ld_keyring :: "(bytes \<times> keyfile list) decoder"
  ld_members :: "bytes \<Rightarrow> bytes list option"
  ld_time :: parse_time
  ld_url :: parse_url

datatype load_error =
    Load_IO bytes | Load_Registry registry_error | Load_Denylist denylist_error | Load_Token token_error

section \<open>Registry and denylist\<close>

definition registry_LoadJSON :: "('a load_env_scheme) \<Rightarrow> bytes \<Rightarrow> registry_error + registry" where
  "registry_LoadJSON L raw =
    (case json_decode (ld_next L) (ld_registry L) raw of
       Inl Json_ErrTrailing \<Rightarrow> Inl Registry_ErrTrailingJSON
     | Inl (Json_Err e) \<Rightarrow>
         if strings_Contains e ''unknown field'' then Inl Registry_ErrUnknownField else Inl Registry_ErrInvalid
     | Inr f \<Rightarrow> registry_New (ld_time L) f)"

definition registry_LoadFile :: "('a load_env_scheme) \<Rightarrow> bytes \<Rightarrow> load_error + registry" where
  "registry_LoadFile L path =
    (case fs_ReadFile (ld_fs L path) of
       Inl e \<Rightarrow> Inl (Load_IO e)
     | Inr b \<Rightarrow> (case registry_LoadJSON L b of Inl e \<Rightarrow> Inl (Load_Registry e) | Inr r \<Rightarrow> Inr r))"

definition denylist_LoadJSON :: "('a load_env_scheme) \<Rightarrow> bytes \<Rightarrow> denylist_error + denylist" where
  "denylist_LoadJSON L raw =
    (case json_decode (ld_next L) (ld_denylist L) raw of
       Inl Json_ErrTrailing \<Rightarrow> Inl Denylist_ErrTrailing
     | Inl (Json_Err e) \<Rightarrow>
         if strings_Contains e ''unknown field'' then Inl Denylist_ErrUnknown else Inl Denylist_ErrInvalid
     | Inr f \<Rightarrow> denylist_New (ld_url L) f)"

definition denylist_LoadFile :: "('a load_env_scheme) \<Rightarrow> bytes \<Rightarrow> load_error + denylist" where
  "denylist_LoadFile L path =
    (case fs_ReadFile (ld_fs L path) of
       Inl e \<Rightarrow> Inl (Load_IO e)
     | Inr b \<Rightarrow> (case denylist_LoadJSON L b of Inl e \<Rightarrow> Inl (Load_Denylist e) | Inr r \<Rightarrow> Inr r))"

section \<open>Signing material\<close>

definition decodeStrict :: "(bytes \<Rightarrow> next_value) \<Rightarrow> 'a decoder \<Rightarrow> bytes \<Rightarrow> token_error + 'a" where
  "decodeStrict next_of dec raw =
    (case json_decode next_of dec raw of Inl e \<Rightarrow> Inl Token_ErrInvalidKey | Inr v \<Rightarrow> Inr v)"

definition ParseSigningMaterial :: "('a load_env_scheme) \<Rightarrow> bytes \<Rightarrow> token_error + (bytes \<times> keyfile option list)" where
  "ParseSigningMaterial L raw =
    (case ld_members L raw of
       None \<Rightarrow> Inl Token_ErrInvalidKey
     | Some ms \<Rightarrow>
         if ''keys'' \<in> set ms then
           (case decodeStrict (ld_next L) (ld_keyring L) raw of
              Inl e \<Rightarrow> Inl e
            | Inr (active, ks) \<Rightarrow>
                if active = [] then Inl Token_ErrInvalidKey else Inr (active, map Some ks))
         else
           (case decodeStrict (ld_next L) (ld_keyfile L) raw of
              Inl e \<Rightarrow> Inl e
            | Inr kf \<Rightarrow> if kf_kid kf = [] then Inl Token_ErrInvalidKey else Inr (kf_kid kf, [Some kf])))"

text \<open>\<^verbatim>\<open>perm & 0o077\<close>: group and others have no right.\<close>

definition CheckSecretFileMode :: "('a load_env_scheme) \<Rightarrow> bytes \<Rightarrow> load_error option" where
  "CheckSecretFileMode L path =
    (case fs_Stat (ld_fs L path) of
       Inl e \<Rightarrow> Some (Load_IO e)
     | Inr (regular, perm) \<Rightarrow>
         if \<not> regular then Some (Load_Token Token_ErrInvalidKey)
         else if and perm 0x3F \<noteq> 0 then Some (Load_Token Token_ErrInvalidKey)
         else None)"

definition LoadSigningFile :: "('a load_env_scheme) \<Rightarrow> ('b crypto_scheme) \<Rightarrow> bytes \<Rightarrow> load_error + keyring" where
  "LoadSigningFile L E path =
    (case CheckSecretFileMode L path of
       Some e \<Rightarrow> Inl e
     | None \<Rightarrow> (case fs_ReadFile (ld_fs L path) of
         Inl e \<Rightarrow> Inl (Load_IO e)
       | Inr raw \<Rightarrow> (case ParseSigningMaterial L raw of
           Inl e \<Rightarrow> Inl (Load_Token e)
         | Inr (active, keys) \<Rightarrow>
             (case NewKeyring E active keys of Inl e \<Rightarrow> Inl (Load_Token e) | Inr k \<Rightarrow> Inr k))))"

section \<open>What a loaded document is\<close>

lemma registry_LoadFile_Inr:
  "registry_LoadFile L path = Inr r \<longleftrightarrow>
    (\<exists>raw f. fs_ReadFile (ld_fs L path) = Inr raw \<and> json_decode (ld_next L) (ld_registry L) raw = Inr f \<and>
       registry_New (ld_time L) f = Inr r)"
  by (auto simp: registry_LoadFile_def registry_LoadJSON_def split: sum.splits json_error.splits)

lemma denylist_LoadFile_Inr:
  "denylist_LoadFile L path = Inr d \<longleftrightarrow>
    (\<exists>raw f. fs_ReadFile (ld_fs L path) = Inr raw \<and> json_decode (ld_next L) (ld_denylist L) raw = Inr f \<and>
       denylist_New (ld_url L) f = Inr d)"
  by (auto simp: denylist_LoadFile_def denylist_LoadJSON_def split: sum.splits json_error.splits)

text \<open>A file that only its owner can open, with material that makes a ring.\<close>

definition secret_file :: "fs_answer \<Rightarrow> bool" where
  "secret_file a \<longleftrightarrow> (\<exists>perm. fs_Stat a = Inr (True, perm) \<and> and perm 0x3F = 0)"

lemma CheckSecretFileMode_None: "CheckSecretFileMode L path = None \<longleftrightarrow> secret_file (ld_fs L path)"
  by (auto simp: CheckSecretFileMode_def secret_file_def split: sum.splits)

lemma LoadSigningFile_Inr:
  "LoadSigningFile L E path = Inr k \<longleftrightarrow>
    secret_file (ld_fs L path) \<and>
    (\<exists>raw active keys. fs_ReadFile (ld_fs L path) = Inr raw \<and>
       ParseSigningMaterial L raw = Inr (active, keys) \<and> NewKeyring E active keys = Inr k)"
  by (auto simp: LoadSigningFile_def CheckSecretFileMode_None[symmetric] split: option.splits sum.splits)

end
