(* ===== verification/Key_Tools.thy ===== *)
theory Key_Tools
  imports Loading Attest
begin

text \<open>
  The key commands of \<^verbatim>\<open>cmd/agent-identity-plane\<close> and the loaders behind them: \<^verbatim>\<open>keys generate\<close>,
  \<^verbatim>\<open>keys jwks\<close>, the writer of secret files in \<^verbatim>\<open>internal/token/keyring.go\<close>, \<^verbatim>\<open>token.ParseJWKS\<close>, and
  the readers of single keys and key sets. A command is the function from its arguments and the
  files to what it prints or writes.
\<close>

section \<open>Reading keys\<close>

record tool_env = load_env +
  tl_jwks :: "jwks decoder"
  tl_wrapped :: "(jwks \<times> jwks) decoder"
  tl_keyfile_text :: "keyfile \<Rightarrow> bytes"
  tl_jwks_text :: "jwks \<Rightarrow> bytes"

datatype tool_error =
    Tool_Usage | Tool_Flag bytes | Tool_Load load_error | Tool_JSON bytes | Tool_OneKey bytes | Tool_NoKeys

definition decodeJSON :: "(bytes \<Rightarrow> next_value) \<Rightarrow> 'a decoder \<Rightarrow> bytes \<Rightarrow> tool_error + 'a" where
  "decodeJSON next_of dec raw =
    (case json_decode next_of dec raw of
       Inl Json_ErrTrailing \<Rightarrow> Inl (Tool_Load (Load_Token Token_ErrInvalidKey))
     | Inl (Json_Err e) \<Rightarrow> Inl (Tool_JSON e)
     | Inr v \<Rightarrow> Inr v)"

definition ParseJWKS :: "('a tool_env_scheme) \<Rightarrow> bytes \<Rightarrow> tool_error + jwks" where
  "ParseJWKS L raw = decodeJSON (ld_next L) (tl_jwks L) raw"

text \<open>A secret file and the signing material in it.\<close>

definition secret_material :: "('a load_env_scheme) \<Rightarrow> bytes \<Rightarrow> tool_error + (bytes \<times> keyfile option list)" where
  "secret_material L path =
    (case CheckSecretFileMode L path of
       Some e \<Rightarrow> Inl (Tool_Load e)
     | None \<Rightarrow> (case fs_ReadFile (ld_fs L path) of
         Inl e \<Rightarrow> Inl (Tool_Load (Load_IO e))
       | Inr raw \<Rightarrow> (case ParseSigningMaterial L raw of
           Inl e \<Rightarrow> Inl (Tool_Load (Load_Token e))
         | Inr m \<Rightarrow> Inr m)))"

definition loadSecretKey :: "('a load_env_scheme) \<Rightarrow> bytes \<Rightarrow> tool_error + keyfile" where
  "loadSecretKey L path =
    (case secret_material L path of
       Inl e \<Rightarrow> Inl e
     | Inr (active, [Some kf]) \<Rightarrow> Inr kf
     | _ \<Rightarrow> Inl (Tool_OneKey path))"

fun active_key :: "bytes \<Rightarrow> keyfile option list \<Rightarrow> tool_error + keyfile" where
  "active_key active [] = Inl (Tool_Load (Load_Token Token_ErrInvalidKey))"
| "active_key active (None # ks) = active_key active ks"
| "active_key active (Some kf # ks) =
    (if kf_kid kf = active then
       (case SignerFromKeyFile kf of Inl e \<Rightarrow> Inl (Tool_Load (Load_Token e)) | Inr s \<Rightarrow> Inr kf)
     else active_key active ks)"

definition LoadProofKey :: "('a load_env_scheme) \<Rightarrow> bytes \<Rightarrow> tool_error + keyfile" where
  "LoadProofKey L path =
    (case secret_material L path of Inl e \<Rightarrow> Inl e | Inr (active, keys) \<Rightarrow> active_key active keys)"

definition loadJWKS :: "('a tool_env_scheme) \<Rightarrow> bytes \<Rightarrow> tool_error + jwks" where
  "loadJWKS L path =
    (case fs_ReadFile (ld_fs L path) of
       Inl e \<Rightarrow> Inl (Tool_Load (Load_IO e))
     | Inr b \<Rightarrow> (case json_decode (ld_next L) (tl_wrapped L) b of
         Inl Json_ErrTrailing \<Rightarrow> Inl (Tool_JSON ''trailing json'')
       | Inl (Json_Err e) \<Rightarrow> Inl (Tool_JSON e)
       | Inr (keys, workloads) \<Rightarrow>
           (let ks = if keys = [] then workloads else keys in
            if ks = [] then ParseJWKS L b else Inr ks)))"

section \<open>The commands\<close>

datatype tool_output = Out_Text bytes | Out_Secret bytes bytes | Out_File bytes bytes

record generate_flags =
  gf_kid :: bytes
  gf_sub :: bytes
  gf_out :: bytes

fun parse_generate :: "generate_flags \<Rightarrow> bytes list \<Rightarrow> tool_error + generate_flags" where
  "parse_generate f [] = Inr f"
| "parse_generate f (a # args) =
    (if a = ''-kid'' then (case args of [] \<Rightarrow> Inl Tool_Usage | v # rest \<Rightarrow> parse_generate (f\<lparr>gf_kid := v\<rparr>) rest)
     else if a = ''-sub'' then (case args of [] \<Rightarrow> Inl Tool_Usage | v # rest \<Rightarrow> parse_generate (f\<lparr>gf_sub := v\<rparr>) rest)
     else if a = ''-out'' then (case args of [] \<Rightarrow> Inl Tool_Usage | v # rest \<Rightarrow> parse_generate (f\<lparr>gf_out := v\<rparr>) rest)
     else Inl (Tool_Flag a))"

text \<open>\<open>seed\<close> are the random bytes of the new key.\<close>

definition cmdKeysGenerate ::
  "('a tool_env_scheme) \<Rightarrow> ('b crypto_scheme) \<Rightarrow> bytes \<Rightarrow> bytes list \<Rightarrow> tool_error + tool_output" where
  "cmdKeysGenerate L E seed args =
    (case parse_generate \<lparr>gf_kid = ''sts-1'', gf_sub = [], gf_out = []\<rparr> args of
       Inl e \<Rightarrow> Inl e
     | Inr f \<Rightarrow>
         (let kf = (GenerateEd25519 E seed (gf_kid f))\<lparr>kf_sub := gf_sub f\<rparr>;
              b = tl_keyfile_text L kf @ [CHR 0x0A]
          in Inr (if gf_out f = [] then Out_Text b else Out_Secret (gf_out f) b)))"

record jwks_flags =
  jf_ins :: "bytes list"
  jf_out :: bytes

fun parse_jwks_flags :: "jwks_flags \<Rightarrow> bytes list \<Rightarrow> tool_error + jwks_flags" where
  "parse_jwks_flags f [] = Inr f"
| "parse_jwks_flags f (a # args) =
    (if a = ''-in'' then
       (case args of [] \<Rightarrow> Inl Tool_Usage | v # rest \<Rightarrow> parse_jwks_flags (f\<lparr>jf_ins := jf_ins f @ [v]\<rparr>) rest)
     else if a = ''-out'' then
       (case args of [] \<Rightarrow> Inl Tool_Usage | v # rest \<Rightarrow> parse_jwks_flags (f\<lparr>jf_out := v\<rparr>) rest)
     else Inl (Tool_Flag a))"

fun public_sets :: "('a load_env_scheme) \<Rightarrow> bytes list \<Rightarrow> tool_error + jwks list" where
  "public_sets L [] = Inr []"
| "public_sets L (path # paths) =
    (case secret_material L path of
       Inl e \<Rightarrow> Inl e
     | Inr (active, keys) \<Rightarrow>
         (case public_sets L paths of
            Inl e \<Rightarrow> Inl e
          | Inr sets \<Rightarrow> Inr (map (\<lambda>k. keyfile_PublicJWKS (the k)) (filter (\<lambda>k. k \<noteq> None) keys) @ sets)))"

definition cmdKeysJWKS :: "('a tool_env_scheme) \<Rightarrow> bytes list \<Rightarrow> tool_error + tool_output" where
  "cmdKeysJWKS L args =
    (case parse_jwks_flags \<lparr>jf_ins = [], jf_out = []\<rparr> args of
       Inl e \<Rightarrow> Inl e
     | Inr f \<Rightarrow>
         if jf_ins f = [] then Inl Tool_Usage
         else (case public_sets L (jf_ins f) of
           Inl e \<Rightarrow> Inl e
         | Inr sets \<Rightarrow>
             (let ks = MergeJWKS sets; b = tl_jwks_text L ks @ [CHR 0x0A] in
              if ks = [] then Inl Tool_NoKeys
              else Inr (if jf_out f = [] then Out_Text b else Out_File (jf_out f) b))))"

section \<open>Writing a secret file\<close>

text \<open>
  The files are a map from paths to permission bits and content. What the system calls answer is an
  input: the name of the temporary file, and for each later call whether it failed; a failed write
  has written a part. \<^verbatim>\<open>WriteSecretFile\<close> is the list of the states after each call, the last one
  first, and its error.
\<close>

type_synonym files = "bytes \<rightharpoonup> 32 word \<times> bytes"

record secret_io =
  sw_temp :: "bytes + bytes"
  sw_chmod :: "bytes option"
  sw_write :: "(bytes \<times> nat) option"
  sw_close :: "bytes option"
  sw_rename :: "bytes option"
  sw_removed :: bool

definition remove_temp :: "secret_io \<Rightarrow> bytes \<Rightarrow> files list \<Rightarrow> files list" where
  "remove_temp io tmp sts = (if sw_removed io then (hd sts)(tmp := None) # sts else sts)"

definition WriteSecretFile :: "secret_io \<Rightarrow> files \<Rightarrow> bytes \<Rightarrow> bytes \<Rightarrow> load_error option \<times> files list" where
  "WriteSecretFile io fl path b =
    (if is_blank path then (Some (Load_Token Token_ErrInvalidKey), [fl])
     else (case sw_temp io of
       Inl e \<Rightarrow> (Some (Load_IO e), [fl])
     | Inr tmp \<Rightarrow>
         (let s1 = [fl(tmp \<mapsto> (0x180, [])), fl] in
          case sw_chmod io of
            Some e \<Rightarrow> (Some (Load_IO e), remove_temp io tmp s1)
          | None \<Rightarrow> (case sw_write io of
              Some (e, n) \<Rightarrow> (Some (Load_IO e), remove_temp io tmp (fl(tmp \<mapsto> (0x180, take n b)) # s1))
            | None \<Rightarrow>
                (let s2 = fl(tmp \<mapsto> (0x180, b)) # s1 in
                 case sw_close io of
                   Some e \<Rightarrow> (Some (Load_IO e), remove_temp io tmp s2)
                 | None \<Rightarrow> (case sw_rename io of
                     Some e \<Rightarrow> (Some (Load_IO e), remove_temp io tmp s2)
                   | None \<Rightarrow> (None, fl(path \<mapsto> (0x180, b), tmp := None) # s2)))))))"

section \<open>Facts about key sets\<close>

lemma merge_distinct:
  assumes "distinct (map k_kid ks)" "[] \<notin> k_kid ` set ks" "\<forall>k \<in> set ks. fst st (k_kid k) = None"
  shows "snd (fold merge_key ks st) = snd st @ ks"
  using assms
proof (induction ks arbitrary: st)
  case (Cons k ks)
  have step: "merge_key k st = ((fst st)(k_kid k \<mapsto> length (snd st)), snd st @ [k])"
    using Cons.prems by (cases st) (auto simp: merge_key_def)
  have "snd (fold merge_key ks (merge_key k st)) = snd (merge_key k st) @ ks"
    by (rule Cons.IH) (use Cons.prems in \<open>auto simp: step image_iff\<close>)
  then show ?case by (simp add: step)
qed simp

lemma MergeJWKS_distinct:
  "distinct (map k_kid (concat sets)) \<Longrightarrow> [] \<notin> k_kid ` set (concat sets) \<Longrightarrow> MergeJWKS sets = concat sets"
  using merge_distinct[of "concat sets" "(Map.empty, [])"] by (simp add: MergeJWKS_def)

text \<open>The key file that \<^verbatim>\<open>keys generate\<close> makes, and its signer.\<close>

definition generated :: "('b crypto_scheme) \<Rightarrow> signer \<Rightarrow> keyfile" where
  "generated E s = (GenerateEd25519 E (sg_seed s) (sg_kid s))\<lparr>kf_sub := sg_sub s\<rparr>"

lemma generated_simps [simp]:
  "length (sg_seed s) = 32 \<Longrightarrow> SignerFromKeyFile (generated E s) = Inr s"
  "keyfile_PublicJWK (generated E s) = signer_PublicJWK E s" "kf_kid (generated E s) = sg_kid s"
  "kf_sub (generated E s) = sg_sub s" "kf_issuer (generated E s) = []"
  by (auto simp: generated_def SignerFromKeyFile_def keyfile_PrivateKey_def GenerateEd25519_def NewSigner_def
      keyfile_PublicJWK_def signer_PublicJWK_def)

text \<open>A file that holds the text of a key, and a decoder that reads that text.\<close>

definition key_on_disk :: "('a tool_env_scheme) \<Rightarrow> bytes \<Rightarrow> keyfile \<Rightarrow> bool" where
  "key_on_disk L path kf \<longleftrightarrow>
    (let raw = tl_keyfile_text L kf @ [CHR 0x0A] in
     secret_file (ld_fs L path) \<and> fs_ReadFile (ld_fs L path) = Inr raw \<and>
     (\<exists>ms. ld_members L raw = Some ms \<and> ''keys'' \<notin> set ms) \<and> json_decode (ld_next L) (ld_keyfile L) raw = Inr kf)"

lemma secret_material_key:
  assumes "key_on_disk L path kf" "kf_kid kf \<noteq> []"
  shows "secret_material L path = Inr (kf_kid kf, [Some kf])"
proof -
  have "CheckSecretFileMode L path = None"
    using assms(1) by (simp add: CheckSecretFileMode_None key_on_disk_def Let_def)
  then show ?thesis
    using assms by (auto simp: secret_material_def key_on_disk_def ParseSigningMaterial_def decodeStrict_def Let_def)
qed

lemma loadSecretKey_key: "key_on_disk L path kf \<Longrightarrow> kf_kid kf \<noteq> [] \<Longrightarrow> loadSecretKey L path = Inr kf"
  by (simp add: loadSecretKey_def secret_material_key)

lemma public_sets_keys:
  assumes "list_all2 (key_on_disk L) paths kfs" "[] \<notin> kf_kid ` set kfs"
  shows "public_sets L paths = Inr (map keyfile_PublicJWKS kfs)"
  using assms by (induction rule: list_all2_induct) (auto simp: secret_material_key)

lemma parse_ins:
  "parse_jwks_flags f (concat (map (\<lambda>p. [''-in'', p]) paths) @ args) =
    parse_jwks_flags (f\<lparr>jf_ins := jf_ins f @ paths\<rparr>) args"
  by (induction paths arbitrary: f) simp_all

lemma cmdKeysJWKS_keys:
  assumes "list_all2 (key_on_disk L) paths (map (generated E) ss)" "ss \<noteq> []" "out \<noteq> []"
    and "distinct (map sg_kid ss)" "[] \<notin> sg_kid ` set ss"
  shows "cmdKeysJWKS L (concat (map (\<lambda>p. [''-in'', p]) paths) @ [''-out'', out]) =
    Inr (Out_File out (tl_jwks_text L (map (signer_PublicJWK E) ss) @ [CHR 0x0A]))"
proof -
  have "concat (map keyfile_PublicJWKS (map (generated E) ss)) = map (signer_PublicJWK E) ss"
    by (induction ss) (simp_all add: keyfile_PublicJWKS_def)
  moreover have "map k_kid (map (signer_PublicJWK E) ss) = map sg_kid ss"
    by (simp add: signer_PublicJWK_def comp_def)
  moreover from this have "k_kid ` set (map (signer_PublicJWK E) ss) = sg_kid ` set ss"
    by (metis list.set_map)
  ultimately have "MergeJWKS (map keyfile_PublicJWKS (map (generated E) ss)) = map (signer_PublicJWK E) ss"
    using assms(4,5) MergeJWKS_distinct[of "map keyfile_PublicJWKS (map (generated E) ss)"] by metis
  moreover have "public_sets L paths = Inr (map keyfile_PublicJWKS (map (generated E) ss))"
    by (rule public_sets_keys[OF assms(1)]) (use assms(5) in auto)
  moreover have "paths \<noteq> []" using assms(1,2) by auto
  ultimately show ?thesis using assms(2,3) by (simp add: cmdKeysJWKS_def parse_ins Let_def)
qed

section \<open>Properties\<close>

text \<open>A secret file is written whole or not at all. Whatever call of \<^verbatim>\<open>WriteSecretFile\<close> fails, at every
  moment the path holds its old content or the whole new one, that one with mode 0600; no other file is
  touched but the temporary one, which a failed write leaves behind only if it cannot be removed.\<close>

theorem secret_written_whole:
  assumes "WriteSecretFile io fl path b = (err, sts)"
    and "\<And>tmp. sw_temp io = Inr tmp \<Longrightarrow> tmp \<noteq> path \<and> fl tmp = None"
  shows "(\<forall>s \<in> set sts. s path \<in> {fl path, Some (0x180, b)} \<and>
      (\<forall>q. q \<noteq> path \<longrightarrow> sw_temp io \<noteq> Inr q \<longrightarrow> s q = fl q)) \<and>
    (if err = None then hd sts = fl(path \<mapsto> (0x180, b))
     else hd sts path = fl path \<and> (sw_removed io \<longrightarrow> hd sts = fl))"
proof (cases "sw_temp io")
  case (Inl e)
  with assms(1) show ?thesis by (auto simp: WriteSecretFile_def split: if_splits)
next
  case (Inr tmp)
  with assms(2) have t: "tmp \<noteq> path" "fl tmp = None" by blast+
  then have "fl(tmp := None) = fl" by auto
  with assms(1) Inr t show ?thesis
    by (auto simp: WriteSecretFile_def remove_temp_def Let_def fun_upd_twist split: if_splits option.splits prod.splits)
qed

theorem secret_written_whole_witness:
  "hd (snd (WriteSecretFile \<lparr>sw_temp = Inr ''t'', sw_chmod = None, sw_write = Some (''full'', 1), sw_close = None,
      sw_rename = None, sw_removed = True\<rparr> [''k'' \<mapsto> (0x1A4, ''old'')] ''k'' ''new'')) = [''k'' \<mapsto> (0x1A4, ''old'')]"
proof -
  let ?io = "\<lparr>sw_temp = Inr ''t'', sw_chmod = None, sw_write = Some (''full'', 1), sw_close = None,
      sw_rename = None, sw_removed = True\<rparr>"
  let ?fl = "[''k'' \<mapsto> (0x1A4, ''old'')] :: files"
  obtain err sts where w: "WriteSecretFile ?io ?fl ''k'' ''new'' = (err, sts)" by fastforce
  have "\<not> is_blank ''k''" by code_simp
  then have "err \<noteq> None" using w by (auto simp: WriteSecretFile_def Let_def)
  with secret_written_whole[OF w] show ?thesis unfolding w by simp
qed

end
