(* ===== verification/Sts_Http.thy ===== *)
theory Sts_Http
  imports Dpop Sts Form
begin

text \<open>
  \<^verbatim>\<open>internal/sts/http.go\<close>: the HTTP face of the token service. \<open>handleToken\<close> limits, parses the form,
  checks and consumes the proof of possession if the request carries one, and exchanges; the other
  handlers publish readiness, counters, keys and metadata.

  The answer of the rate limiter, the outcome of reading the body and the clock readings are inputs of
  a request. The body of a response is the value that the handler encodes.
\<close>

section \<open>Bind addresses\<close>

text \<open>\<^verbatim>\<open>net.SplitHostPort\<close>; its errors are not told apart.\<close>

definition SplitHostPort :: "bytes \<Rightarrow> (bytes \<times> bytes) option" where
  "SplitHostPort a =
    (if CHR '':'' \<notin> set a then None
     else
       (let port = rev (takeWhile (\<lambda>c. c \<noteq> CHR '':'') (rev a));
            before = take (length a - length port - 1) a
        in if hd a = CHR ''['' then
             (let host = takeWhile (\<lambda>c. c \<noteq> CHR '']'') (tl a) in
              if CHR '']'' \<notin> set a \<or> length host + 2 \<noteq> length before then None
              else if CHR ''['' \<in> set (tl a) \<or> CHR '']'' \<in> set port then None
              else Some (host, port))
           else if CHR '':'' \<in> set before \<or> CHR ''['' \<in> set a \<or> CHR '']'' \<in> set a then None
           else Some (before, port)))"

text \<open>\<open>ip\<close> is \<^verbatim>\<open>net.ParseIP\<close>, the sixteen bytes of the address.\<close>

definition IsUnspecified :: "nat list \<Rightarrow> bool" where
  "IsUnspecified a \<longleftrightarrow> a = replicate 16 0 \<or> a = replicate 10 0 @ [255, 255, 0, 0, 0, 0]"

definition ValidateBind :: "(bytes \<Rightarrow> nat list option) \<Rightarrow> bytes \<Rightarrow> bool" where
  "ValidateBind ip a =
    (case SplitHostPort a of
       None \<Rightarrow> False
     | Some (host, port) \<Rightarrow>
         if port = [] then False
         else if host = [] \<or> host = ''0.0.0.0'' \<or> host = ''::'' \<or> host = ''[::]'' then False
         else (case ip host of None \<Rightarrow> True | Some b \<Rightarrow> \<not> IsUnspecified b))"

section \<open>Answers\<close>

record sts_http_env = dpop_env +
  he_time :: parse_time
  he_records :: record_codec
  he_audit :: audit_env
  he_ParseMediaType :: "bytes \<Rightarrow> bytes option"

text \<open>The environment of the exchange behind the handlers: the same tokens and cryptography.\<close>

definition exchange_env :: "('a sts_http_env_scheme) \<Rightarrow> sts_env" where
  "exchange_env H =
    token_env.extend (token_env.truncate H) (sts_env.fields (he_time H) (he_records H) (he_audit H))"

datatype http_desc =
    Hd_Text bytes | Hd_Exchange description | Hd_Dpop dpop_error | Hd_Replay replay_error

datatype sts_body =
    Sb_Text bytes
  | Sb_Error bytes http_desc bytes
  | Sb_Token bytes bytes bytes int bytes
  | Sb_Keys jwks
  | Sb_Metadata bytes bytes bytes "bytes list" "bytes list"
  | Sb_Counters "(bytes \<times> int) list"

definition http_Error_text :: "headers \<Rightarrow> bytes \<Rightarrow> nat \<Rightarrow> sts_body http_response" where
  "http_Error_text h msg status =
    \<lparr>rs_Status = status,
     rs_Header = header_Set (header_Set h ''Content-Type'' ''text/plain; charset=utf-8'')
       ''X-Content-Type-Options'' ''nosniff'',
     rs_Body = Sb_Text (msg @ [CHR 0x0A])\<rparr>"

definition writeOAuthErrorCode :: "nat \<Rightarrow> bytes \<Rightarrow> http_desc \<Rightarrow> bytes \<Rightarrow> sts_body http_response" where
  "writeOAuthErrorCode status err desc reason =
    \<lparr>rs_Status = status, rs_Header = header_Set Map.empty ''Content-Type'' ''application/json'',
     rs_Body = Sb_Error err desc reason\<rparr>"

section \<open>The token endpoint\<close>

record token_inputs =
  ti_allow :: bool
  ti_read_ok :: bool
  ti_wall :: instant
  ti_proof_now :: instant
  ti_proof_replay_now :: instant
  ti_proof_replay_io :: io_outcome
  ti_call :: call_inputs

definition http_denied_event :: "bytes \<Rightarrow> event" where
  "http_denied_event reason = empty_event\<lparr>ev_EventType := ''token_denied'', ev_ReasonCode := reason\<rparr>"

definition count_http_denied :: "bytes \<Rightarrow> metrics \<Rightarrow> metrics" where
  "count_http_denied reason m =
    (let m1 = m\<lparr>mt_Denied := mt_Denied m + 1\<rparr> in
     if reason = ReasonRateLimited then m1\<lparr>mt_RateLimited := mt_RateLimited m1 + 1\<rparr> else m1)"

definition writeHTTPDeny ::
  "('a sts_http_env_scheme) \<Rightarrow> sts_config \<Rightarrow> call_inputs \<Rightarrow> nat \<Rightarrow> bytes \<Rightarrow> http_desc \<Rightarrow> bytes \<Rightarrow>
    sts_body http_response \<times> sts_config" where
  "writeHTTPDeny H c i status err desc reason =
    (let answered = (\<lambda>d. (writeOAuthErrorCode status err desc reason,
             d\<lparr>st_Metrics := count_http_denied reason (st_Metrics d)\<rparr>)) in
     case st_Audit c of
       None \<Rightarrow> answered c
     | Some l \<Rightarrow>
         (case Append (he_audit H) l (in_stamp i) (in_audit_io i) (http_denied_event reason) of
            (Some e, l') \<Rightarrow>
              (http_Error_text Map.empty (''audit unavailable'' @ [CHR 0x0A]) StatusServiceUnavailable,
               c\<lparr>st_Audit := Some l', st_Metrics := (st_Metrics c)\<lparr>mt_Denied := mt_Denied (st_Metrics c) + 1\<rparr>\<rparr>)
          | (None, l') \<Rightarrow> answered (c\<lparr>st_Audit := Some l'\<rparr>)))"

definition maxTokenBody :: nat where "maxTokenBody = 1048576"

definition form_request :: "form \<Rightarrow> exchange_request" where
  "form_request f =
    \<lparr>rq_GrantType = values_Get f ''grant_type'', rq_SubjectToken = values_Get f ''subject_token'',
     rq_SubjectTokenType = values_Get f ''subject_token_type'', rq_ActorToken = values_Get f ''actor_token'',
     rq_ActorTokenType = values_Get f ''actor_token_type'', rq_Audience = values_Get f ''audience'',
     rq_Scope = values_Get f ''scope'', rq_RequestedTokenType = values_Get f ''requested_token_type'',
     rq_AgentID = values_Get f ''agent_id'', rq_Purp = values_Get f ''purp'', rq_ConfirmJKT = []\<rparr>"

text \<open>The proof of a token request: the thumbprint of its key, empty without a proof, or a refusal.\<close>

definition token_proof ::
  "('a sts_http_env_scheme) \<Rightarrow> replay_cache option \<Rightarrow> token_inputs \<Rightarrow> http_request \<Rightarrow>
    ((nat \<times> bytes \<times> http_desc \<times> bytes) + bytes) \<times> replay_cache option" where
  "token_proof H cache i r =
    (if is_blank (header_Get (hr_Header r) ''DPoP'') then (Inr [], cache)
     else (case dpop_Verify H (ti_wall i) (Some r) [] [] (ti_proof_now i) of
       Inl e \<Rightarrow> (Inl (StatusBadRequest, ''invalid_dpop_proof'', Hd_Dpop e, ReasonInvalidDPoP), cache)
     | Inr proof \<Rightarrow>
         (case Consume (he_records H) cache (ti_proof_replay_now i) (ti_proof_replay_io i)
                 (ReplayJTI (pr_JTI proof)) (pr_IAT proof) [pr_JTI proof] of
            (None, rc) \<Rightarrow> (Inr (pr_JKT proof), rc)
          | (Some e, rc) \<Rightarrow>
              (if e = Replay_ErrReplay
               then (Inl (StatusBadRequest, ''invalid_dpop_proof'', Hd_Text ''dpop proof jti already used'',
                      ReasonReplayedToken), rc)
               else (Inl (StatusInternalServerError, ''server_error'', Hd_Replay e, ReasonInvalidRequest), rc)))))"

definition denied_status :: "exchange_result \<Rightarrow> nat" where
  "denied_status res =
    (if xr_ReasonCode res = ReasonAuditFailed then StatusServiceUnavailable
     else if xr_ReasonCode res = ReasonReplayedToken then StatusBadRequest
     else if xr_Error res = ''access_denied'' then StatusForbidden
     else StatusBadRequest)"

definition token_answer :: "exchange_result \<Rightarrow> sts_body http_response" where
  "token_answer res =
    (if xr_ReasonCode res \<noteq> ReasonOK
     then writeOAuthErrorCode (denied_status res) (xr_Error res) (Hd_Exchange (xr_ErrorDesc res)) (xr_ReasonCode res)
     else \<lparr>rs_Status = StatusOK, rs_Header = header_Set Map.empty ''Content-Type'' ''application/json'',
           rs_Body = Sb_Token (xr_Token res) TokenTypeJWT ''DPoP'' (xr_ExpiresIn res) (c_scope (xr_Issued res))\<rparr>)"

definition handleToken ::
  "('a sts_http_env_scheme) \<Rightarrow> sts_config \<Rightarrow> token_inputs \<Rightarrow> http_request \<Rightarrow>
    sts_body http_response \<times> sts_config" where
  "handleToken H c i r =
    (if \<not> ti_allow i then
       writeHTTPDeny H c (ti_call i) StatusTooManyRequests ''temporarily_unavailable'' (Hd_Text ''rate limited'')
         ReasonRateLimited
     else (case ParseForm (he_ParseMediaType H) maxTokenBody (ti_read_ok i) r of
       None \<Rightarrow> writeHTTPDeny H c (ti_call i) StatusBadRequest ''invalid_request'' (Hd_Text ''malformed form'')
                ReasonInvalidRequest
     | Some f \<Rightarrow>
         (case token_proof H (st_Replay c) i r of
            (Inl (status, err, desc, reason), rc) \<Rightarrow>
              writeHTTPDeny H (c\<lparr>st_Replay := rc\<rparr>) (ti_call i) status err desc reason
          | (Inr jkt, rc) \<Rightarrow>
              apfst token_answer
                (Exchange (exchange_env H) (c\<lparr>st_Replay := rc\<rparr>) (ti_call i)
                  ((form_request f)\<lparr>rq_ConfirmJKT := jkt\<rparr>)))))"

section \<open>The other endpoints\<close>

definition sts_healthz :: "sts_body http_response" where
  "sts_healthz = \<lparr>rs_Status = StatusOK, rs_Header = Map.empty, rs_Body = Sb_Text (''ok'' @ [CHR 0x0A])\<rparr>"

text \<open>Every attestor of the program has a \<^verbatim>\<open>Ready\<close> method.\<close>

definition sts_readyz :: "sts_config \<Rightarrow> sts_body http_response" where
  "sts_readyz c =
    (let snap = snapshot c;
         not_ready = http_Error_text Map.empty (''not ready'' @ [CHR 0x0A]) StatusServiceUnavailable
     in if sn_Registry snap = None \<or> sn_Signer snap = None \<or> keyring_ActiveKID (sn_Signer snap) = []
        then not_ready
        else (case sn_Attestor snap of
          None \<Rightarrow> sts_healthz
        | Some at \<Rightarrow> if Ready at \<noteq> None then not_ready else sts_healthz))"

definition sts_metrics :: "sts_config \<Rightarrow> sts_body http_response" where
  "sts_metrics c =
    (let m = st_Metrics c in
     \<lparr>rs_Status = StatusOK, rs_Header = header_Set Map.empty ''Content-Type'' ''text/plain; version=0.0.4'',
      rs_Body = Sb_Counters
        [(''aip_sts_minted_total'', mt_Minted m), (''aip_sts_denied_total'', mt_Denied m),
         (''aip_sts_replay_rejected_total'', mt_Replays m), (''aip_sts_reloads_total'', mt_Reloads m),
         (''aip_sts_reload_failures_total'', mt_ReloadFails m),
         (''aip_sts_rate_limited_total'', mt_RateLimited m)]\<rparr>)"

definition sts_jwks :: "('a crypto_scheme) \<Rightarrow> sts_config \<Rightarrow> sts_body http_response" where
  "sts_jwks E c =
    (let h = header_Set Map.empty ''Content-Type'' ''application/json'' in
     case sn_Signer (snapshot c) of
       None \<Rightarrow> http_Error_text h (''{'' @ [CHR 0x22] @ ''keys'' @ [CHR 0x22] @ '':[]}'') StatusServiceUnavailable
     | Some k \<Rightarrow> \<lparr>rs_Status = StatusOK, rs_Header = h, rs_Body = Sb_Keys (keyring_JWKS E (Some k))\<rparr>)"

definition sts_metadata :: "sts_config \<Rightarrow> sts_body http_response" where
  "sts_metadata c =
    \<lparr>rs_Status = StatusOK, rs_Header = header_Set Map.empty ''Content-Type'' ''application/json'',
     rs_Body = Sb_Metadata (st_Issuer c) (st_Issuer c @ ''/oauth/token'') (st_Issuer c @ ''/jwks.json'')
       [GrantTokenExchange] [''none'']\<rparr>"

text \<open>The checks of \<^verbatim>\<open>NewServer\<close>: the address it will listen on, or none.\<close>

definition NewServer_addr :: "(bytes \<Rightarrow> nat list option) \<Rightarrow> bytes \<Rightarrow> bytes \<Rightarrow> bytes \<Rightarrow> bytes option" where
  "NewServer_addr ip bind cert key =
    (let addr = (if bind = [] then ''127.0.0.1:8080'' else bind) in
     if \<not> ValidateBind ip addr then None
     else if (cert = []) \<noteq> (key = []) then None
     else Some addr)"

end
