(* ===== verification/Posting.thy ===== *)
theory Posting
  imports Sts_Http Sts_Properties A2a
begin

text \<open>
  An exchange request posted to the token endpoint: what of it the form keeps, what the network has to
  deliver of the HTTP request, and the example service of the other theories behind the endpoint.
\<close>

section \<open>The posted form\<close>

text \<open>What of a request goes over the wire: the types are fixed and the confirmation key is the proof's.\<close>

definition posted :: "exchange_request \<Rightarrow> bytes \<Rightarrow> exchange_request" where
  "posted q jkt =
    q\<lparr>rq_GrantType := GrantTokenExchange, rq_SubjectTokenType := TokenTypeJWT, rq_ActorTokenType := TokenTypeJWT,
      rq_RequestedTokenType := [], rq_ConfirmJKT := jkt\<rparr>"

lemma form_request_posted: "(form_request (sort_key fst (exchange_form q)))\<lparr>rq_ConfirmJKT := jkt\<rparr> = posted q jkt"
proof -
  have get: "values_Get (sort_key fst (exchange_form q)) = values_Get (exchange_form q)"
    by (rule ext) (simp only: values_Get_def map_of_sort_key)
  show ?thesis by (simp add: get form_request_def posted_def) (simp add: values_Get_def exchange_form_def)
qed

text \<open>What the network keeps of a request: method and target, the two headers, the body, and no query.\<close>

definition delivers :: "http_request \<Rightarrow> http_request \<Rightarrow> bool" where
  "delivers out inb \<longleftrightarrow>
    same_target out inb \<and> body_bytes (hr_Body inb) = body_bytes (hr_Body out) \<and>
    header_Get (hr_Header inb) ''DPoP'' = header_Get (hr_Header out) ''DPoP'' \<and>
    header_Get (hr_Header inb) ''Content-Type'' = header_Get (hr_Header out) ''Content-Type'' \<and>
    (case hr_URL inb of None \<Rightarrow> True | Some u \<Rightarrow> ur_RawQuery u = [])"

lemma ParseForm_delivered:
  assumes "delivers out inb" "hr_Method out = ''POST''" "header_Get (hr_Header out) ''Content-Type'' = form_media"
    and "media form_media = Some form_media" "body_bytes (hr_Body out) = form_Encode kvs"
    and "length (form_Encode kvs) \<le> limit"
  shows "ParseForm media limit True inb = Some (sort_key fst kvs)"
proof -
  have "hr_Method inb = ''POST''" using assms(1,2) by (simp add: delivers_def same_target_def)
  moreover have "form_media \<noteq> []" by (simp add: form_media_def)
  moreover have "(case hr_URL inb of None \<Rightarrow> Some [] | Some u \<Rightarrow> ParseQuery (ur_RawQuery u)) = Some []"
    using assms(1) by (auto simp: delivers_def ParseQuery_def split: option.splits)
  ultimately show ?thesis
    using assms by (simp add: ParseForm_def post_form_def delivers_def ParseQuery_Encode not_less Let_def)
qed

lemma verified_not_blank:
  "dpop_Verify E wall (Some r) tok want now = Inr pf \<Longrightarrow> \<not> is_blank (header_Get (hr_Header r) ''DPoP'')"
  by (auto simp: dpop_Verify_def is_blank_def Let_def)

text \<open>The exchange that a posted form with a fresh proof starts.\<close>

lemma handleToken_delivered:
  assumes "delivers out inb" "hr_Method out = ''POST''" "header_Get (hr_Header out) ''Content-Type'' = form_media"
    and "body_bytes (hr_Body out) = form_Encode (exchange_form q)" "length (form_Encode (exchange_form q)) \<le> maxTokenBody"
    and "he_ParseMediaType H form_media = Some form_media" "ti_allow i" "ti_read_ok i"
    and verified: "dpop_Verify H (ti_wall i) (Some inb) [] [] (ti_proof_now i) = Inr pf"
    and "Consume (he_records H) (st_Replay c) (ti_proof_replay_now i) (ti_proof_replay_io i)
      (ReplayJTI (pr_JTI pf)) (pr_IAT pf) [pr_JTI pf] = (None, rc)"
  shows "handleToken H c i inb =
    apfst token_answer (Exchange (exchange_env H) (c\<lparr>st_Replay := rc\<rparr>) (ti_call i) (posted q (pr_JKT pf)))"
proof -
  have "ParseForm (he_ParseMediaType H) maxTokenBody True inb = Some (sort_key fst (exchange_form q))"
    by (rule ParseForm_delivered) (use assms(1-6) in simp_all)
  moreover have "token_proof H (st_Replay c) i inb = (Inr (pr_JKT pf), rc)"
    using verified_not_blank[OF verified] assms(10) by (simp add: token_proof_def verified)
  ultimately show ?thesis using assms(7,8) by (simp add: handleToken_def form_request_posted)
qed

lemma TrimSpace_B64 [simp]: "TrimSpace (B64Encode b) = B64Encode b"
  using B64Encode_no_space by (intro TrimSpace_plain) auto

lemma Thumbprint_trimmed: "Thumbprint E j = Inr t \<Longrightarrow> TrimSpace t = t"
  by (auto simp: Thumbprint_def split: sum.splits)

section \<open>The length of a form\<close>

lemma B64Encode_length: "length (B64Encode b) \<le> 2 * length b"
proof -
  have "length (b64_digits ns) \<le> 2 * length ns" for ns :: "nat list"
    by (induction ns rule: b64_digits.induct) simp_all
  from this[of "map of_char b"] show ?thesis by (simp add: B64Encode_def)
qed

lemma QueryEscape_length: "length (QueryEscape s) \<le> 3 * length s"
  by (induction s) (auto simp: QueryEscape_def escape_char_def Let_def)

lemma strings_Join_length: "length (strings_Join sep xs) \<le> (\<Sum>x \<leftarrow> xs. length x + length sep)"
  by (induction sep xs rule: strings_Join.induct) simp_all

lemma sum_sort_key: "(\<Sum>x \<leftarrow> sort_key f xs. (g x :: nat)) = (\<Sum>x \<leftarrow> xs. g x)"
proof -
  have "mset (map g (sort_key f xs)) = mset (map g xs)" by simp
  then show ?thesis by (metis sum_mset_sum_list)
qed

lemma form_Encode_length: "length (form_Encode kvs) \<le> (\<Sum>kv \<leftarrow> kvs. 3 * length (fst kv) + 3 * length (snd kv) + 2)"
proof -
  have "length (encode_pair kv) + 1 \<le> 3 * length (fst kv) + 3 * length (snd kv) + 2" for kv
    using QueryEscape_length[of "fst kv"] QueryEscape_length[of "snd kv"] by (simp add: encode_pair_def)
  then have "(\<Sum>kv \<leftarrow> kvs. length (encode_pair kv) + 1) \<le> (\<Sum>kv \<leftarrow> kvs. 3 * length (fst kv) + 3 * length (snd kv) + 2)"
    by (intro sum_list_mono)
  then show ?thesis
    using strings_Join_length[of "''&''" "map encode_pair (sort_key fst kvs)"]
      sum_sort_key[of "\<lambda>kv. length (encode_pair kv) + 1" fst kvs]
    by (simp add: form_Encode_def comp_def)
qed

lemma signed_length:
  "length (signer_Sign E s hdr pl) \<le> 2 * length hdr + 2 * length pl + 2 +
    2 * length (ed25519_Sign E (sg_seed s) (B64Encode hdr @ ''.'' @ B64Encode pl))"
  using B64Encode_length[of hdr] B64Encode_length[of pl]
    B64Encode_length[of "ed25519_Sign E (sg_seed s) (B64Encode hdr @ ''.'' @ B64Encode pl)"]
  by (simp add: signer_Sign_def Let_def)

section \<open>The example service behind the endpoint\<close>

definition example_http_cs :: "claims list" where
  "example_http_cs = [user_claims, example_actor_claims, first_token_for holder_jkt]"

definition example_token_uri :: bytes where "example_token_uri = ''https://sts/oauth/token''"

definition example_proof_with :: "bytes \<Rightarrow> proof_claims" where
  "example_proof_with rnd = proof_of rnd (example_env []) ''POST'' example_token_uri [] 500 []"

definition example_http_env_for :: "claims list \<Rightarrow> proof_claims list \<Rightarrow> sts_http_env" where
  "example_http_env_for cs pcs = dpop_env.extend (example_dpop_env cs pcs)
    (sts_http_env.fields example_time example_records (example_audit example_sum) Some)"

definition example_http_env :: sts_http_env where
  "example_http_env = example_http_env_for example_http_cs [example_proof_with ''0123456789abcdef'']"

definition example_token_post :: "bytes \<Rightarrow> headers \<Rightarrow> http_request" where
  "example_token_post b h =
    \<lparr>hr_Method = ''POST'', hr_Host = ''sts'', hr_TLS = True,
     hr_URL = Some \<lparr>ur_Scheme = ''https'', ur_Host = ''sts'', ur_EscapedPath = ''/oauth/token'', ur_RawQuery = [],
       ur_Fragment = [], ur_Hostname = ''sts''\<rparr>,
     hr_Header = h, hr_Body = Body_Again b\<rparr>"

definition example_token_inputs :: token_inputs where
  "example_token_inputs =
    \<lparr>ti_allow = True, ti_read_ok = True, ti_wall = 0, ti_proof_now = 520 * second, ti_proof_replay_now = 500 * second,
     ti_proof_replay_io = \<lparr>io_written = None, io_synced = True\<rparr>, ti_call = example_inputs\<rparr>"

lemma example_http_for_simps [simp]:
  "exchange_env (example_http_env_for cs pcs) = example_sts_env cs"
  "ed25519_laws (example_http_env_for cs pcs) seed"
  "signer_PublicJWK (example_http_env_for cs pcs) s = signer_PublicJWK (example_env cs) s"
  "signer_SignClaims (example_http_env_for cs pcs) s c = signer_SignClaims (example_env cs) s c"
  "Thumbprint (example_http_env_for cs pcs) j = Thumbprint (example_env cs) j"
  "codec_ok (example_http_env_for cs pcs) h c = codec_ok (example_env cs) h c"
  "sha256_Sum (example_http_env_for cs pcs) m \<noteq> []"
  "he_ParseMediaType (example_http_env_for cs pcs) m = Some m" "he_records (example_http_env_for cs pcs) = example_records"
  "he_audit (example_http_env_for cs pcs) = example_audit example_sum"
  using example_dpop_signs(1)[of cs pcs seed]
  by (simp_all add: example_http_env_for_def exchange_env_def example_sts_env_def example_dpop_env_def ed25519_laws_def
      signer_PublicJWK_def signer_SignClaims_def signer_Sign_def Thumbprint_def codec_ok_def
      token_env.defs dpop_env.defs sts_env.defs sts_http_env.defs example_env_def
      split: sum.split)

lemma example_http_simps [simp]:
  "exchange_env example_http_env = example_sts_env example_http_cs"
  "ed25519_laws example_http_env seed"
  "signer_PublicJWK example_http_env s = signer_PublicJWK (example_env example_http_cs) s"
  "Thumbprint example_http_env j = Thumbprint (example_env example_http_cs) j"
  "sha256_Sum example_http_env m \<noteq> []"
  "he_ParseMediaType example_http_env m = Some m" "he_records example_http_env = example_records"
  by (simp_all add: example_http_env_def)

lemma example_codec_for:
  "proof_codec_ok (example_http_env_for cs [example_proof_with rnd]) (PublicMembers (signer_PublicJWK (example_env cs) s))
    (proof_of rnd (example_http_env_for cs [example_proof_with rnd]) ''POST'' example_token_uri [] 500 [])"
proof -
  have eq: "proof_of rnd (example_http_env_for cs [example_proof_with rnd]) ''POST'' example_token_uri [] 500 [] = example_proof_with rnd"
    by (simp add: example_proof_with_def proof_of_def AccessTokenHash_def)
  show ?thesis unfolding eq
    using example_proof_codec[of "example_proof_with rnd" "[example_proof_with rnd]" cs s]
    by (simp add: example_http_env_for_def proof_codec_ok_def Let_def rejectPrivateJWK_def dpop_env.defs sts_http_env.defs)
qed

lemma example_http_codec:
  "proof_codec_ok example_http_env (PublicMembers (signer_PublicJWK (example_env example_http_cs) s))
    (proof_of ''0123456789abcdef'' example_http_env ''POST'' example_token_uri [] 500 [])"
  unfolding example_http_env_def by (rule example_codec_for)

lemma example_post_uri:
  "OutboundURI (Some (example_token_post b h)) = Inr example_token_uri"
  "RequestURI (Some (example_token_post b h)) = Inr example_token_uri"
proof -
  have "\<not> is_blank ''sts''" "map ascii_lower ''https'' = ''https''" by code_simp+
  then show "OutboundURI (Some (example_token_post b h)) = Inr example_token_uri"
    "RequestURI (Some (example_token_post b h)) = Inr example_token_uri"
    by (simp_all add: OutboundURI_def RequestURI_def example_token_post_def example_token_uri_def escapedPath_def Let_def)
qed

lemma example_post_delivers: "delivers (example_token_post b h) (example_token_post b h)"
  using example_post_uri[of b h] by (simp add: delivers_def same_target_def) (simp add: example_token_post_def)

definition example_post_cache :: replay_cache where
  "example_post_cache = \<lparr>rc_seen = [ReplayJTI (dpop_newJTI ''0123456789abcdef'') \<mapsto> 530], rc_file = None\<rparr>"

lemma example_post_consume:
  "Consume example_records (Some NewReplayCache) (500 * second) io (ReplayJTI (dpop_newJTI ''0123456789abcdef'')) 500
    [dpop_newJTI ''0123456789abcdef''] = (None, Some example_post_cache)"
  by (simp add: Consume_def cache_Consume_def NewReplayCache_def example_post_cache_def append_log_def
      replayed_iff purgeLocked_def ReplayUntil_def unix_def ReplayJTI_def dpop_newJTI_def i64_def Let_def)

lemma example_token_length:
  "length (signer_SignClaims (example_env cs) s c) \<le> 8 * length (sg_kid s) + 8 * length cs + 100"
proof -
  let ?hdr = "CHR ''h'' # sg_kid s" and ?pl = "CHR ''c'' # replicate (length (takeWhile (\<lambda>d. d \<noteq> c) cs)) CHR ''x''"
  have "length (takeWhile (\<lambda>d. d \<noteq> c) cs) \<le> length cs" by (rule length_takeWhile_le)
  then show ?thesis
    using signed_length[of "example_env cs" s ?hdr ?pl] B64Encode_length[of ?hdr] B64Encode_length[of ?pl]
    by (simp add: signer_SignClaims_def example_env_def)
qed

lemma example_form_short: "length (form_Encode (exchange_form (user_request example_http_cs))) \<le> maxTokenBody"
proof -
  have "length (rq_SubjectToken (user_request example_http_cs)) \<le> 1000"
    "length (rq_ActorToken (user_request example_http_cs)) \<le> 1000"
    by (simp_all add: user_request_def)
      (rule order_trans[OF example_token_length]; simp add: example_http_cs_def idp_signer_def
        example_workload_key_def)+
  then show ?thesis
    by (intro order_trans[OF form_Encode_length])
      (simp add: exchange_form_def GrantTokenExchange_def TokenTypeJWT_def user_request_def maxTokenBody_def)
qed

lemma mints_replay:
  assumes "mints E c i req wl ag sub False issued raw (st_Replay c)"
  shows "mints E (c\<lparr>st_Replay := rc\<rparr>) i req wl ag sub False issued raw rc"
proof -
  have same: "snapshot (c\<lparr>st_Replay := rc\<rparr>) = snapshot c" "sts_ttl (c\<lparr>st_Replay := rc\<rparr>) = sts_ttl c"
    by (simp_all add: snapshot_def sts_ttl_def)
  show ?thesis using assms by (auto simp: mints_def same)
qed

text \<open>The request of agent a, with a proof of the holder's key; \<open>rnd\<close> are the bytes its id is made of.\<close>

definition example_call_with :: "bytes \<Rightarrow> http_request" where
  "example_call_with rnd = example_token_post (form_Encode (exchange_form (user_request example_http_cs)))
    (header_Set (header_Set Map.empty ''Content-Type'' form_media) ''DPoP''
      (projr (ProveWithNonce (example_http_env_for example_http_cs [example_proof_with rnd]) 0 rnd (Some example_holder)
        ''POST'' example_token_uri [] (500 * second) [])))"

definition example_token_call :: http_request where
  "example_token_call = example_call_with ''0123456789abcdef''"

lemma holder_jkt_trimmed: "TrimSpace holder_jkt = holder_jkt"
  by (simp add: holder_jkt_def Thumbprint_def thumbprintMembers_def signer_PublicJWK_def example_env_def
      holder_signer_def)

lemma example_call_with_verified:
  "dpop_Verify (example_http_env_for example_http_cs [example_proof_with rnd]) 0 (Some (example_call_with rnd)) [] []
      (520 * second)
    = Inr \<lparr>pr_JTI = dpop_newJTI rnd, pr_IAT = 500, pr_JKT = holder_jkt, pr_Nonce = TrimSpace []\<rparr>"
proof -
  let ?H = "example_http_env_for example_http_cs [example_proof_with rnd]"
  obtain raw where raw: "ProveWithNonce ?H 0 rnd (Some example_holder) ''POST'' example_token_uri [] (500 * second) [] = Inr raw"
    by (simp add: ProveWithNonce_def example_holder_signer)
  have "dpop_Verify ?H 0 (Some (example_call_with rnd)) [] [] (520 * second)
    = Inr \<lparr>pr_JTI = dpop_newJTI rnd, pr_IAT = unix (500 * second),
       pr_JKT = projr (Thumbprint ?H (signer_PublicJWK ?H holder_signer)), pr_Nonce = TrimSpace []\<rparr>"
    by (rule prove_verify[where out = "example_call_with rnd" and htu = example_token_uri and k = example_holder and raw = raw])
      (use raw example_post_delivers example_codec_for[of example_http_cs rnd holder_signer] in
        \<open>simp_all add: example_holder_signer example_clock example_post_uri delivers_def example_call_with_def\<close>,
       simp_all add: example_token_post_def)
  then show ?thesis by (simp add: example_clock example_holder_jkt)
qed

lemma example_call_verified:
  "dpop_Verify example_http_env 0 (Some example_token_call) [] [] (520 * second)
    = Inr \<lparr>pr_JTI = dpop_newJTI ''0123456789abcdef'', pr_IAT = 500, pr_JKT = holder_jkt, pr_Nonce = TrimSpace []\<rparr>"
  unfolding example_http_env_def example_token_call_def by (rule example_call_with_verified)

text \<open>The exchange of the first hop, whatever the state of the replay cache.\<close>

lemma example_first_answer_for:
  assumes cs: "user_claims \<in> set cs" and q: "first_request cs q"
    and wl: "first_workload cs q wl" "first_key q wl \<noteq> []"
  obtains res c' where "Exchange (example_sts_env cs) ((example_config cs)\<lparr>st_Replay := rc\<rparr>) example_inputs q = (res, c')"
    "xr_ReasonCode res = ReasonOK" "xr_Issued res = first_token_for (first_key q wl)"
    "xr_Token res = signer_SignClaims (example_env cs) sts_signer (first_token_for (first_key q wl))"
proof -
  let ?c = "(example_config cs)\<lparr>st_Replay := rc\<rparr>"
  have "mints (example_sts_env cs) ?c example_inputs q wl agent_a user_claims False (first_token_for (first_key q wl))
      (signer_SignClaims (example_env cs) sts_signer (first_token_for (first_key q wl))) rc"
    by (intro mints_replay) (use example_first_hop_for[OF assms] in \<open>simp add: example_config_def\<close>)
  then obtain res c' where "Exchange (example_sts_env cs) ?c example_inputs q = (res, c')"
    "xr_ReasonCode res = ReasonOK" "xr_Issued res = first_token_for (first_key q wl)"
    "xr_Token res = signer_SignClaims (example_env cs) sts_signer (first_token_for (first_key q wl))"
    by (rule audited_mint_ok[OF _ _ _ _ first_event_fits_for[OF _ _ _ q]])
      (use wl(1) in \<open>simp_all add: example_audit_on example_inputs_def first_workload_def\<close>)
  with that show ?thesis by simp
qed

lemma example_first_answer:
  obtains res c' where "Exchange (example_sts_env example_http_cs)
      ((example_config example_http_cs)\<lparr>st_Replay := Some example_post_cache\<rparr>) example_inputs
      (posted (user_request example_http_cs) holder_jkt) = (res, c')"
    "xr_ReasonCode res = ReasonOK" "xr_Issued res = first_token_for holder_jkt"
    "xr_Token res = signer_SignClaims (example_env example_http_cs) sts_signer (first_token_for holder_jkt)"
proof -
  let ?q = "posted (user_request example_http_cs) holder_jkt"
  have q: "first_request example_http_cs ?q" "first_key ?q (example_wl example_http_cs) = holder_jkt"
    by (simp_all add: first_request_def first_key_def posted_def user_request_def holder_jkt_nonempty holder_jkt_trimmed)
  have wl: "first_workload example_http_cs ?q (example_wl example_http_cs)"
    by (rule example_first_workload) (simp_all add: example_http_cs_def posted_def)
  show ?thesis
    by (rule example_first_answer_for[OF _ q(1) wl]) (use that q(2) holder_jkt_nonempty in \<open>auto simp: example_http_cs_def\<close>)
qed

lemma example_call_answer:
  obtains res c' where "handleToken example_http_env (example_config example_http_cs) example_token_inputs
      example_token_call = (token_answer res, c')"
    "xr_ReasonCode res = ReasonOK" "xr_Issued res = first_token_for holder_jkt"
    "xr_Token res = signer_SignClaims (example_env example_http_cs) sts_signer (first_token_for holder_jkt)"
proof -
  have h: "handleToken example_http_env (example_config example_http_cs) example_token_inputs example_token_call =
      apfst token_answer (Exchange (example_sts_env example_http_cs)
        ((example_config example_http_cs)\<lparr>st_Replay := Some example_post_cache\<rparr>) example_inputs
        (posted (user_request example_http_cs) holder_jkt))"
    using handleToken_delivered[of example_token_call example_token_call "user_request example_http_cs" example_http_env
      example_token_inputs "\<lparr>pr_JTI = dpop_newJTI ''0123456789abcdef'', pr_IAT = 500, pr_JKT = holder_jkt,
        pr_Nonce = TrimSpace []\<rparr>" "example_config example_http_cs" "Some example_post_cache"]
      example_post_delivers example_form_short example_post_consume example_call_verified
    by (simp add: example_token_inputs_def example_config_def[of example_http_cs])
      (simp add: example_token_call_def example_call_with_def example_token_post_def body_bytes_def)
  show ?thesis by (rule example_first_answer) (use h that in simp)
qed

end
