(* ===== verification/Token_Endpoint.thy ===== *)
theory Token_Endpoint
  imports Posting Parameters
begin

text \<open>
  What the token endpoint guarantees: a token it hands out is bound to the key whose proof came with the
  request, or to the key the workload was attested with; a proof and a subject token are good for one
  answer; every request is counted once and a refusal hands out nothing.
\<close>

section \<open>One request\<close>

lemma exchange_env_simps [simp]:
  "token_env.truncate (exchange_env H) = token_env.truncate H" "e_time (exchange_env H) = he_time H"
  "e_records (exchange_env H) = he_records H" "e_audit (exchange_env H) = he_audit H"
  by (simp_all add: exchange_env_def token_env.defs sts_env.defs)

lemma writeHTTPDeny_keeps [simp]:
  "st_Replay (snd (writeHTTPDeny H c i status err desc reason)) = st_Replay c"
  "snapshot (snd (writeHTTPDeny H c i status err desc reason)) = snapshot c"
  "st_Issuer (snd (writeHTTPDeny H c i status err desc reason)) = st_Issuer c"
  "st_TTL (snd (writeHTTPDeny H c i status err desc reason)) = st_TTL c"
  by (simp_all add: writeHTTPDeny_def Let_def snapshot_def split: option.split prod.split)

lemma writeHTTPDeny_status:
  "status \<noteq> 200 \<Longrightarrow> rs_Status (fst (writeHTTPDeny H c i status err desc reason)) \<noteq> 200"
  by (auto simp: writeHTTPDeny_def Let_def writeOAuthErrorCode_def http_Error_text_def
      split: option.split prod.split)

lemma deny_not_ok:
  "writeHTTPDeny H c i status err desc reason = (resp, c') \<Longrightarrow> status \<noteq> 200 \<Longrightarrow> rs_Status resp \<noteq> 200"
  using writeHTTPDeny_status[of status H c i err desc reason] by simp

lemma token_answer_status: "rs_Status (token_answer res) = 200 \<longleftrightarrow> xr_ReasonCode res = ReasonOK"
  by (simp add: token_answer_def writeOAuthErrorCode_def denied_status_def)

text \<open>The consumption of a proof's id.\<close>

definition token_use :: "token_inputs \<Rightarrow> proof_result \<Rightarrow> consume_op" where
  "token_use i pf =
    \<lparr>co_now = ti_proof_replay_now i, co_io = ti_proof_replay_io i, co_jti = ReplayJTI (pr_JTI pf),
     co_exp = pr_IAT pf, co_aliases = [pr_JTI pf]\<rparr>"

lemma token_proof_cases:
  obtains (none) "is_blank (header_Get (hr_Header r) ''DPoP'')" "token_proof H rc i r = (Inr [], rc)"
  | (invalid) e where "\<not> is_blank (header_Get (hr_Header r) ''DPoP'')"
      "dpop_Verify H (ti_wall i) (Some r) [] [] (ti_proof_now i) = Inl e"
      "token_proof H rc i r = (Inl (400, ''invalid_dpop_proof'', Hd_Dpop e, ReasonInvalidDPoP), rc)"
  | (no_cache) status err desc reason where "rc = None" "status \<noteq> (200::nat)"
      "token_proof H rc i r = (Inl (status, err, desc, reason), None)"
  | (spent) pf s status err desc reason where "rc = Some s" "status \<noteq> (200::nat)"
      "dpop_Verify H (ti_wall i) (Some r) [] [] (ti_proof_now i) = Inr pf"
      "\<not> snd (consume_step (he_records H) s (token_use i pf))"
      "token_proof H rc i r = (Inl (status, err, desc, reason), Some (fst (consume_step (he_records H) s (token_use i pf))))"
  | (fresh) pf s where "\<not> is_blank (header_Get (hr_Header r) ''DPoP'')" "rc = Some s"
      "dpop_Verify H (ti_wall i) (Some r) [] [] (ti_proof_now i) = Inr pf"
      "snd (consume_step (he_records H) s (token_use i pf))"
      "token_proof H rc i r = (Inr (pr_JKT pf), Some (fst (consume_step (he_records H) s (token_use i pf))))"
proof (cases "is_blank (header_Get (hr_Header r) ''DPoP'')")
  case True
  then show ?thesis by (intro none) (simp_all add: token_proof_def)
next
  case has: False
  show ?thesis
  proof (cases "dpop_Verify H (ti_wall i) (Some r) [] [] (ti_proof_now i)")
    case (Inl e)
    with has show ?thesis by (intro invalid[of e]) (simp_all add: token_proof_def)
  next
    case (Inr pf)
    show ?thesis
    proof (cases rc)
      case None
      with has Inr show ?thesis by (intro no_cache) (simp_all add: token_proof_def Consume_def)
    next
      case (Some s)
      obtain e s' where c: "cache_Consume (he_records H) s (ti_proof_replay_now i) (ti_proof_replay_io i)
          (ReplayJTI (pr_JTI pf)) (pr_IAT pf) [pr_JTI pf] = (e, s')" by fastforce
      then have st: "consume_step (he_records H) s (token_use i pf) = (s', e = None)"
        by (simp add: consume_step_def token_use_def)
      show ?thesis
      proof (cases e)
        case None
        with st has Inr Some c show ?thesis
          by (intro fresh[of s pf]) (simp_all add: token_proof_def Consume_def)
      next
        case (Some x)
        have "\<exists>status err desc reason. status \<noteq> 200 \<and>
            token_proof H rc i r = (Inl (status, err, desc, reason), Some s')"
          using has Inr \<open>rc = Some s\<close> c Some by (simp add: token_proof_def Consume_def)
        then obtain status err desc reason where d: "status \<noteq> (200::nat)"
          "token_proof H rc i r = (Inl (status, err, desc, reason), Some s')" by blast
        show ?thesis
          by (rule spent[of s status pf err desc reason]) (use st has Inr \<open>rc = Some s\<close> Some d in simp_all)
      qed
    qed
  qed
qed

lemma handleToken_cases:
  obtains (limited) "\<not> ti_allow i" "handleToken H c i r = writeHTTPDeny H c (ti_call i) 429
        ''temporarily_unavailable'' (Hd_Text ''rate limited'') ReasonRateLimited"
  | (malformed) "handleToken H c i r = writeHTTPDeny H c (ti_call i) 400
        ''invalid_request'' (Hd_Text ''malformed form'') ReasonInvalidRequest"
  | (unproved) status err desc reason rc where
      "token_proof H (st_Replay c) i r = (Inl (status, err, desc, reason), rc)"
      "handleToken H c i r = writeHTTPDeny H (c\<lparr>st_Replay := rc\<rparr>) (ti_call i) status err desc reason"
  | (exchanged) f jkt rc res c' where "ParseForm (he_ParseMediaType H) maxTokenBody (ti_read_ok i) r = Some f"
      "token_proof H (st_Replay c) i r = (Inr jkt, rc)"
      "Exchange (exchange_env H) (c\<lparr>st_Replay := rc\<rparr>) (ti_call i) ((form_request f)\<lparr>rq_ConfirmJKT := jkt\<rparr>) = (res, c')"
      "handleToken H c i r = (token_answer res, c')"
proof (cases "ti_allow i")
  case False
  then show ?thesis by (intro limited) (simp_all add: handleToken_def)
next
  case True
  show ?thesis
  proof (cases "ParseForm (he_ParseMediaType H) maxTokenBody (ti_read_ok i) r")
    case None
    with True show ?thesis by (intro malformed) (simp add: handleToken_def)
  next
    case (Some f)
    obtain v rc where v: "token_proof H (st_Replay c) i r = (v, rc)" by fastforce
    show ?thesis
    proof (cases v)
      case (Inl d)
      obtain status err desc reason where "d = (status, err, desc, reason)" by (cases d)
      with True Some v Inl show ?thesis
        by (intro unproved[of status err desc reason rc]) (simp_all add: handleToken_def)
    next
      case (Inr jkt)
      obtain res c' where "Exchange (exchange_env H) (c\<lparr>st_Replay := rc\<rparr>) (ti_call i)
          ((form_request f)\<lparr>rq_ConfirmJKT := jkt\<rparr>) = (res, c')" by fastforce
      with True Some v Inr show ?thesis
        by (intro exchanged[of f jkt rc res c']) (simp_all add: handleToken_def)
    qed
  qed
qed

lemma handleToken_ok:
  assumes "handleToken H c i r = (resp, c')" "rs_Status resp = 200"
  obtains f jkt rc res where "ParseForm (he_ParseMediaType H) maxTokenBody (ti_read_ok i) r = Some f"
    "token_proof H (st_Replay c) i r = (Inr jkt, rc)"
    "Exchange (exchange_env H) (c\<lparr>st_Replay := rc\<rparr>) (ti_call i) ((form_request f)\<lparr>rq_ConfirmJKT := jkt\<rparr>) = (res, c')"
    "xr_ReasonCode res = ReasonOK" "resp = token_answer res"
proof (cases rule: handleToken_cases[of i H c r])
  case (unproved status err desc reason rc)
  then have "status \<noteq> 200"
    by (cases rule: token_proof_cases[of r H "st_Replay c" i]) auto
  with assms(2) deny_not_ok[OF assms(1)[unfolded unproved(2)]] show ?thesis by simp
next
  case (exchanged f jkt rc res c1)
  with assms that show ?thesis by (auto simp: token_answer_status)
next
  case limited
  with assms deny_not_ok[OF assms(1)[unfolded limited(2)]] show ?thesis by simp
next
  case malformed
  with assms deny_not_ok[OF assms(1)[unfolded malformed]] show ?thesis by simp
qed

text \<open>The confirmation key of a mint: the key the request names, or the one the workload was attested with.\<close>

lemma mints_confirm:
  assumes "mints E c i req wl ag sub f issued raw rc"
  shows "ConfirmJKT issued = (if is_blank (rq_ConfirmJKT req) then wi_PossessedJKT wl else TrimSpace (rq_ConfirmJKT req))"
    "Attest E (the (st_Attestor c)) (rq_ActorToken req) = Inr wl" "ConfirmJKT issued \<noteq> []"
proof -
  have "issued = minted_claims (st_Issuer c) (sts_ttl c) i req (prepare i req wl ag sub f)
      (confirm_key req (prepare i req wl ag sub f))"
    using assms by (simp add: mints_def)
  then show "ConfirmJKT issued = (if is_blank (rq_ConfirmJKT req) then wi_PossessedJKT wl else TrimSpace (rq_ConfirmJKT req))"
    by (simp add: minted_claims_def ConfirmJKT_def confirm_key_def is_blank_def Let_def)
  show "Attest E (the (st_Attestor c)) (rq_ActorToken req) = Inr wl"
    using assms by (auto simp: mints_def caller_ok_def check_caller_Inr)
qed (rule mints_claims(11)[OF assms])

section \<open>A run of requests\<close>

type_synonym token_event = "token_inputs \<times> http_request"

definition token_step :: "('a sts_http_env_scheme) \<Rightarrow> sts_config \<Rightarrow> token_event \<Rightarrow> sts_config \<times> bool" where
  "token_step H c ev = (case handleToken H c (fst ev) (snd ev) of (resp, c') \<Rightarrow> (c', rs_Status resp = 200))"

definition token_key :: "('a sts_http_env_scheme) \<Rightarrow> token_event \<Rightarrow> (bytes \<times> int) option" where
  "token_key H ev =
    (if is_blank (header_Get (hr_Header (snd ev)) ''DPoP'') then None
     else map_option (\<lambda>c. (ReplayJTI (pc_JTI c), pc_IAT c)) (presented_proof H (snd ev)))"

text \<open>One request goes to the replay cache twice, with a reading of the clock each time: for its proof and
  for its subject token.\<close>

definition token_start :: "token_event \<Rightarrow> int" where
  "token_start ev = unix (ti_proof_replay_now (fst ev))"

definition token_end :: "token_event \<Rightarrow> int" where
  "token_end ev = max (token_start ev) (unix (in_replay_now (ti_call (fst ev))))"

lemma token_end_bounds:
  "unix (ti_proof_replay_now (fst ev)) \<le> token_end ev" "unix (in_replay_now (ti_call (fst ev))) \<le> token_end ev"
  by (simp_all add: token_end_def token_start_def)

lemma Exchange_spent:
  assumes "Exchange E c i req = (res, c')" "sts_spent c k t" "unix (in_replay_now i) \<le> t"
  shows "sts_spent c' k t"
proof -
  have "sts_spent (fst (sts_step E c (Ev_Exchange i req))) k t"
    by (rule sts_guard.spent_stays[OF assms(2)]) (simp_all add: event_time_def assms(3))
  then show ?thesis by (simp add: sts_step_def assms(1))
qed

lemma consumed_step: "consumed s k t \<Longrightarrow> unix (co_now op) \<le> t \<Longrightarrow> consumed (fst (consume_step J s op)) k t"
  using replay_guard.spent_stays[of s k t op J] by simp

lemma token_use_simps [simp]:
  "co_now (token_use i pf) = ti_proof_replay_now i" "co_jti (token_use i pf) = ReplayJTI (pr_JTI pf)"
  "co_exp (token_use i pf) = pr_IAT pf"
  by (simp_all add: token_use_def)

lemma token_proof_spent:
  assumes "token_proof H (st_Replay c) i r = (v, rc)" "sts_spent c k t" "unix (ti_proof_replay_now i) \<le> t"
  shows "sts_spent (c\<lparr>st_Replay := rc\<rparr>) k t"
  by (cases rule: token_proof_cases[of r H "st_Replay c" i])
    (use assms in \<open>auto simp: sts_spent_def intro!: consumed_step\<close>)

lemma handleToken_spent:
  assumes "sts_spent c k t" "unix (ti_proof_replay_now i) \<le> t" "unix (in_replay_now (ti_call i)) \<le> t"
  shows "sts_spent (snd (handleToken H c i r)) k t"
proof (cases rule: handleToken_cases[of i H c r])
  case (unproved status err desc reason rc)
  then show ?thesis using token_proof_spent[OF unproved(1) assms(1,2)] by (simp add: sts_spent_def)
next
  case (exchanged f jkt rc res c')
  then show ?thesis using Exchange_spent[OF exchanged(3) token_proof_spent[OF exchanged(2) assms(1,2)] assms(3)] by simp
qed (use assms(1) in \<open>simp_all add: sts_spent_def\<close>)

lemma token_step_ok:
  assumes "snd (token_step H c ev)" "token_key H ev = Some k"
  obtains f pf s res where "st_Replay c = Some s" "k = (ReplayJTI (pr_JTI pf), pr_IAT pf)"
    "snd (consume_step (he_records H) s (token_use (fst ev) pf))"
    "Exchange (exchange_env H) (c\<lparr>st_Replay := Some (fst (consume_step (he_records H) s (token_use (fst ev) pf)))\<rparr>)
      (ti_call (fst ev)) ((form_request f)\<lparr>rq_ConfirmJKT := pr_JKT pf\<rparr>) = (res, fst (token_step H c ev))"
proof -
  obtain resp c' where h: "handleToken H c (fst ev) (snd ev) = (resp, c')" by fastforce
  with assms(1) have ok: "rs_Status resp = 200" and c': "fst (token_step H c ev) = c'" by (simp_all add: token_step_def)
  from h ok obtain f jkt rc res where t: "token_proof H (st_Replay c) (fst ev) (snd ev) = (Inr jkt, rc)"
    and x: "Exchange (exchange_env H) (c\<lparr>st_Replay := rc\<rparr>) (ti_call (fst ev)) ((form_request f)\<lparr>rq_ConfirmJKT := jkt\<rparr>) = (res, c')"
    by (rule handleToken_ok)
  have proof_there: "\<not> is_blank (header_Get (hr_Header (snd ev)) ''DPoP'')"
    using assms(2) by (auto simp: token_key_def)
  show ?thesis
  proof (cases rule: token_proof_cases[of "snd ev" H "st_Replay c" "fst ev"])
    case (fresh pf s)
    from fresh(3) have "k = (ReplayJTI (pr_JTI pf), pr_IAT pf)"
      by (rule presented_verified) (use assms(2) proof_there in \<open>simp add: token_key_def\<close>)
    with fresh t x c' that show ?thesis by auto
  qed (use t proof_there in simp_all)
qed

interpretation token_guard: span_use "token_step H" "token_key H" token_start token_end sts_spent "\<lambda>ev k. False" for H
proof unfold_locales
  fix ev k c t
  assume k: "token_key H ev = Some k" and ok: "snd (token_step H c ev)" and t: "token_end ev \<le> t"
  from ok k show "sts_spent (fst (token_step H c ev)) k t"
  proof (rule token_step_ok)
    fix f pf s res
    assume u: "k = (ReplayJTI (pr_JTI pf), pr_IAT pf)" "snd (consume_step (he_records H) s (token_use (fst ev) pf))"
      and x: "Exchange (exchange_env H) (c\<lparr>st_Replay := Some (fst (consume_step (he_records H) s (token_use (fst ev) pf)))\<rparr>)
        (ti_call (fst ev)) ((form_request f)\<lparr>rq_ConfirmJKT := pr_JKT pf\<rparr>) = (res, fst (token_step H c ev))"
    have le: "unix (ti_proof_replay_now (fst ev)) \<le> t" "unix (in_replay_now (ti_call (fst ev))) \<le> t"
      using t token_end_bounds[of ev] by simp_all
    have "consumed (fst (consume_step (he_records H) s (token_use (fst ev) pf))) k t"
      using replay_guard.use_spends[OF _ u(2), of k t] u(1) le(1) by simp
    then show ?thesis by (intro Exchange_spent[OF x _ le(2)]) (simp add: sts_spent_def)
  qed
next
  fix ev k c
  assume k: "token_key H ev = Some k" and sp: "sts_spent c k (token_start ev)"
  show "\<not> snd (token_step H c ev)"
  proof
    assume "snd (token_step H c ev)"
    from this k show False
    proof (rule token_step_ok)
      fix f pf s res
      assume s: "st_Replay c = Some s" "k = (ReplayJTI (pr_JTI pf), pr_IAT pf)"
        "snd (consume_step (he_records H) s (token_use (fst ev) pf))"
      have "consumed s k (unix (ti_proof_replay_now (fst ev)))"
        using sp s(1) by (simp add: sts_spent_def token_start_def)
      then show False
        using replay_guard.spent_refuses[of "token_use (fst ev) pf" k s "he_records H"] s(2,3) by simp
    qed
  qed
next
  fix ev k c t
  assume "sts_spent c k t" "token_end ev \<le> t"
  then show "sts_spent (fst (token_step H c ev)) k t"
    using handleToken_spent[of c k t "fst ev" H "snd ev"] token_end_bounds[of ev]
    by (cases "handleToken H c (fst ev) (snd ev)") (simp add: token_step_def)
qed

section \<open>Counting\<close>

lemma writeHTTPDeny_counts:
  assumes "writeHTTPDeny H c i status err desc reason = (resp, c')"
  shows "mt_Minted (st_Metrics c') = mt_Minted (st_Metrics c)" "mt_Denied (st_Metrics c') = mt_Denied (st_Metrics c) + 1"
    "rs_Body resp \<noteq> Sb_Token tok typ kind secs scope" "rs_Status resp \<in> {status, 503}"
  using assms
  by (auto simp: writeHTTPDeny_def count_http_denied_def writeOAuthErrorCode_def http_Error_text_def Let_def
      split: option.splits prod.splits)

lemma token_answer_cases:
  obtains (token) "xr_ReasonCode res = ReasonOK" "rs_Status (token_answer res) = 200"
      "rs_Body (token_answer res) = Sb_Token (xr_Token res) TokenTypeJWT ''DPoP'' (xr_ExpiresIn res) (c_scope (xr_Issued res))"
  | (refusal) "xr_ReasonCode res \<noteq> ReasonOK" "rs_Status (token_answer res) \<noteq> 200"
      "\<And>tok typ kind secs scope. rs_Body (token_answer res) \<noteq> Sb_Token tok typ kind secs scope"
  by (cases "xr_ReasonCode res = ReasonOK")
    (simp_all add: token_answer_def writeOAuthErrorCode_def denied_status_def)

lemma Exchange_counts:
  assumes "Exchange E c i req = (res, c')" "st_Audit c = Some l"
  obtains (minted) "xr_ReasonCode res = ReasonOK" "mt_Minted (st_Metrics c') = mt_Minted (st_Metrics c) + 1"
      "mt_Denied (st_Metrics c') = mt_Denied (st_Metrics c)"
  | (denied) "xr_ReasonCode res \<noteq> ReasonOK" "mt_Minted (st_Metrics c') = mt_Minted (st_Metrics c)"
      "mt_Denied (st_Metrics c') = mt_Denied (st_Metrics c) + 1"
  | (unaudited) "res = audit_failed" "st_Metrics c' = st_Metrics c"
proof -
  obtain oc rc where x: "exchange E c i req = (oc, rc)" by fastforce
  from x show ?thesis
  proof (cases rule: Exchange_cases)
    case (audited l0 l')
    with assms(1) minted denied show ?thesis
      by (cases "xr_ReasonCode oc = ReasonOK") (auto simp: count_outcome_def Let_def)
  qed (use assms unaudited in auto)
qed

section \<open>Properties\<close>

text \<open>C5: A token over HTTP is bound to a key its holder has shown. When the endpoint answers 200, the body
  is the token that \<^verbatim>\<open>Exchange\<close> minted for the posted form, of type DPoP. If the request carried a proof,
  the token confirms the thumbprint of the key that signed it, and the proof is for this method and
  this URI, names no access token and is at most thirty seconds off; if it carried none, the token
  confirms the key with which the workload attested itself, and there is one. No field of the form can
  name the key.\<close>

theorem token_endpoint_bound:
  assumes "handleToken H c i r = (resp, c')" "rs_Status resp = 200"
    and "\<And>m. sha256_Sum H m \<noteq> []" "ti_proof_now i \<noteq> zero_time"
  shows "\<exists>f jkt rc res. ParseForm (he_ParseMediaType H) maxTokenBody (ti_read_ok i) r = Some f \<and>
    Exchange (exchange_env H) (c\<lparr>st_Replay := rc\<rparr>) (ti_call i) ((form_request f)\<lparr>rq_ConfirmJKT := jkt\<rparr>) = (res, c') \<and>
    rs_Body resp = Sb_Token (xr_Token res) TokenTypeJWT ''DPoP'' (xr_ExpiresIn res) (c_scope (xr_Issued res)) \<and>
    ConfirmJKT (xr_Issued res) \<noteq> [] \<and>
    (if is_blank (header_Get (hr_Header r) ''DPoP'') then
       rc = st_Replay c \<and> (\<exists>wl. Attest (exchange_env H) (the (st_Attestor c)) (values_Get f ''actor_token'') = Inr wl \<and>
         ConfirmJKT (xr_Issued res) = wi_PossessedJKT wl)
     else (\<exists>j cl. proof_carried H r j cl \<and> Thumbprint H j = Inr (ConfirmJKT (xr_Issued res)) \<and>
         pc_HTM cl = hr_Method r \<and> pc_HTU cl = expected_uri r \<and> pc_ATH cl = [] \<and>
         unix (ti_proof_now i) \<le> i64 (pc_IAT cl + 30) \<and> pc_IAT cl \<le> i64 (unix (ti_proof_now i) + 30)))"
proof -
  from assms(1,2) obtain f jkt rc res where
    f: "ParseForm (he_ParseMediaType H) maxTokenBody (ti_read_ok i) r = Some f"
    and t: "token_proof H (st_Replay c) i r = (Inr jkt, rc)"
    and x: "Exchange (exchange_env H) (c\<lparr>st_Replay := rc\<rparr>) (ti_call i) ((form_request f)\<lparr>rq_ConfirmJKT := jkt\<rparr>) = (res, c')"
      "xr_ReasonCode res = ReasonOK" and resp: "resp = token_answer res"
    by (rule handleToken_ok)
  from x obtain wl ag sub g where m: "mints (exchange_env H) (c\<lparr>st_Replay := rc\<rparr>) (ti_call i)
      ((form_request f)\<lparr>rq_ConfirmJKT := jkt\<rparr>) wl ag sub g (xr_Issued res) (xr_Token res) (st_Replay c')"
    by (rule Exchange_minted)
  note key = mints_confirm[OF m]
  have body: "rs_Body resp = Sb_Token (xr_Token res) TokenTypeJWT ''DPoP'' (xr_ExpiresIn res) (c_scope (xr_Issued res))"
    using resp x(2) by (simp add: token_answer_def)
  have "if is_blank (header_Get (hr_Header r) ''DPoP'') then
       rc = st_Replay c \<and> (\<exists>wl. Attest (exchange_env H) (the (st_Attestor c)) (values_Get f ''actor_token'') = Inr wl \<and>
         ConfirmJKT (xr_Issued res) = wi_PossessedJKT wl)
     else (\<exists>j cl. proof_carried H r j cl \<and> Thumbprint H j = Inr (ConfirmJKT (xr_Issued res)) \<and>
         pc_HTM cl = hr_Method r \<and> pc_HTU cl = expected_uri r \<and> pc_ATH cl = [] \<and>
         unix (ti_proof_now i) \<le> i64 (pc_IAT cl + 30) \<and> pc_IAT cl \<le> i64 (unix (ti_proof_now i) + 30))"
  proof (cases rule: token_proof_cases[of r H "st_Replay c" i])
    case none
    with t key show ?thesis by (auto simp: form_request_def)
  next
    case (fresh pf s)
    then obtain j cl where jc: "proof_carried H r j cl"
      "check_proof_claims H (ti_wall i) r True [] [] (ti_proof_now i) j cl = Inr pf"
      by (auto simp: dpop_Verify_Inr)
    then have th: "Thumbprint H j = Inr (pr_JKT pf)" by (auto simp: check_proof_claims_Inr)
    have "jkt = pr_JKT pf" using fresh(5) t by simp
    moreover have "TrimSpace (pr_JKT pf) = pr_JKT pf" by (rule Thumbprint_trimmed[OF th])
    moreover have "pr_JKT pf \<noteq> []" by (rule Thumbprint_nonempty[OF th assms(3)])
    ultimately have "ConfirmJKT (xr_Issued res) = pr_JKT pf" using key(1) by (simp add: is_blank_def)
    with fresh(1) jc th assms(4) show ?thesis
      by (auto simp: check_proof_claims_Inr Let_def)
  qed (use t in simp_all)
  with f x(1) body key(3) show ?thesis by blast
qed

text \<open>C14: A proof buys one token. Over any run of token requests that do not overlap in time, from any
  state of the service, at most one request with the same proof (by its id and time) is answered with
  a token, whatever the subject tokens it comes with.\<close>

theorem proof_buys_one_token:
  assumes "in_order token_start token_end evs"
  shows "uses (token_key H) (jti, iat) evs (answers (token_step H) c evs) \<le> 1"
  by (rule token_guard.used_at_most_once) (use assms in simp_all)

text \<open>The endpoint keeps its books. With auditing on, a request answered with a token is counted as
  minted and any other as denied, or, if the record of the exchange itself could not be written, as
  neither; a rate limited one is counted as that too; a refusal hands out no token; and no request
  changes the identity the service runs with.\<close>

theorem token_endpoint_accounts:
  assumes "handleToken H c i r = (resp, c')" "st_Audit c = Some l"
  shows "(ti_allow i \<or> rs_Status resp \<in> {429, 503}) \<and>
    snapshot c' = snapshot c \<and> st_Issuer c' = st_Issuer c \<and> st_TTL c' = st_TTL c \<and>
    (if rs_Status resp = 200 then
       (\<exists>tok secs scope. rs_Body resp = Sb_Token tok TokenTypeJWT ''DPoP'' secs scope) \<and>
       mt_Minted (st_Metrics c') = mt_Minted (st_Metrics c) + 1 \<and> mt_Denied (st_Metrics c') = mt_Denied (st_Metrics c)
     else
       (\<forall>tok typ kind secs scope. rs_Body resp \<noteq> Sb_Token tok typ kind secs scope) \<and>
       mt_Minted (st_Metrics c') = mt_Minted (st_Metrics c) \<and>
       (mt_Denied (st_Metrics c') = mt_Denied (st_Metrics c) + 1 \<or>
        st_Metrics c' = st_Metrics c \<and> rs_Status resp = 503 \<and> resp = token_answer audit_failed))"
  (is "?limit \<and> ?main")
proof (rule conjI[rotated])
  have refused: ?main
    if "handleToken H c i r = writeHTTPDeny H d (ti_call i) status err desc reason" "status \<noteq> 200"
      "st_Metrics d = st_Metrics c" "snapshot d = snapshot c" "st_Issuer d = st_Issuer c" "st_TTL d = st_TTL c"
    for d status err desc reason
  proof -
    have w: "writeHTTPDeny H d (ti_call i) status err desc reason = (resp, c')" using that(1) assms(1) by simp
    have c': "c' = snd (writeHTTPDeny H d (ti_call i) status err desc reason)" by (simp add: w)
    have "snapshot c' = snapshot c" "st_Issuer c' = st_Issuer c" "st_TTL c' = st_TTL c"
      unfolding c' using that(4-6) by simp_all
    then show ?thesis
      using writeHTTPDeny_counts[OF w] that(2,3) by auto
  qed
  show ?main
  proof (cases rule: handleToken_cases[of i H c r])
    case (exchanged f jkt rc res c1)
    then have eq: "resp = token_answer res" "c1 = c'" using assms(1) by simp_all
    have au: "st_Audit (c\<lparr>st_Replay := rc\<rparr>) = Some l" using assms(2) by simp
    have keeps: "snapshot c' = snapshot c" "st_Issuer c' = st_Issuer c" "st_TTL c' = st_TTL c"
      using Exchange_snapshot[OF exchanged(3)] by (simp_all add: eq snapshot_def)
    have failed: "rs_Status (token_answer audit_failed) = 503"
      by (simp add: token_answer_def audit_failed_def denied_status_def writeOAuthErrorCode_def)
    show ?thesis
      by (cases rule: Exchange_counts[OF exchanged(3) au]; cases rule: token_answer_cases[of res])
        (use keeps eq failed in \<open>simp_all add: audit_failed_def\<close>)
  next
    case (unproved status err desc reason rc)
    then have "status \<noteq> 200" by (cases rule: token_proof_cases[of r H "st_Replay c" i]) auto
    then show ?thesis by (intro refused[OF unproved(2)]) (simp_all add: snapshot_def)
  next
    case limited
    then show ?thesis by (intro refused[OF limited(2)]) simp_all
  next
    case malformed
    then show ?thesis by (intro refused[OF malformed]) simp_all
  qed
  show ?limit
  proof (cases "ti_allow i")
    case False
    then have "writeHTTPDeny H c (ti_call i) 429 ''temporarily_unavailable'' (Hd_Text ''rate limited'')
      ReasonRateLimited = (resp, c')" using assms(1) by (simp add: handleToken_def)
    then show ?thesis using writeHTTPDeny_counts(4) by fastforce
  qed simp
qed

theorem token_endpoint_bound_witness:
  "\<exists>resp c' (res :: exchange_result). handleToken example_http_env (example_config example_http_cs) example_token_inputs example_token_call
      = (resp, c') \<and>
     rs_Body resp = Sb_Token (xr_Token res) TokenTypeJWT ''DPoP'' (xr_ExpiresIn res) (c_scope (xr_Issued res)) \<and>
     (\<exists>j cl. proof_carried example_http_env example_token_call j cl \<and>
       Thumbprint example_http_env j = Inr (ConfirmJKT (xr_Issued res)) \<and> pc_ATH cl = [])"
proof -
  obtain res c' where a: "handleToken example_http_env (example_config example_http_cs) example_token_inputs
      example_token_call = (token_answer res, c')" "xr_ReasonCode res = ReasonOK"
    by (rule example_call_answer)
  have has: "\<not> is_blank (header_Get (hr_Header example_token_call) ''DPoP'')"
    by (rule verified_not_blank[OF example_call_verified])
  have ok: "rs_Status (token_answer res) = 200" "ti_proof_now example_token_inputs \<noteq> zero_time"
    using a(2) by (simp_all add: token_answer_status example_token_inputs_def example_clock)
  note b = token_endpoint_bound[OF a(1) ok(1) example_http_simps(5) ok(2), unfolded if_not_P[OF has]]
  show ?thesis using b a(1) by blast
qed

lemma once_of_two:
  assumes "uses key k [ev, ev] (answers step c [ev, ev]) \<le> 1" "snd (step c ev)" "key ev = Some k"
  shows "uses key k [ev, ev] (answers step c [ev, ev]) = 1"
  using assms by simp

theorem proof_buys_one_token_witness:
  "uses (token_key example_http_env) (ReplayJTI (dpop_newJTI ''0123456789abcdef''), 500)
     [(example_token_inputs, example_token_call), (example_token_inputs, example_token_call)]
     (answers (token_step example_http_env) (example_config example_http_cs)
       [(example_token_inputs, example_token_call), (example_token_inputs, example_token_call)]) = 1"
proof (rule once_of_two[OF proof_buys_one_token])
  have "token_start (example_token_inputs, example_token_call) = 500"
    "token_end (example_token_inputs, example_token_call) = 500"
    by (simp_all add: token_end_def token_start_def example_token_inputs_def example_inputs_def example_clock)
  then show "in_order token_start token_end
      [(example_token_inputs, example_token_call), (example_token_inputs, example_token_call)]" by simp
  obtain res c' where a: "handleToken example_http_env (example_config example_http_cs) example_token_inputs
      example_token_call = (token_answer res, c')" "xr_ReasonCode res = ReasonOK"
    by (rule example_call_answer)
  then show "snd (token_step example_http_env (example_config example_http_cs) (example_token_inputs, example_token_call))"
    by (simp add: token_step_def token_answer_status)
  have has: "\<not> is_blank (header_Get (hr_Header example_token_call) ''DPoP'')"
    by (rule verified_not_blank[OF example_call_verified])
  obtain cl where "presented_proof example_http_env example_token_call = Some cl"
    "pc_JTI cl = dpop_newJTI ''0123456789abcdef''" "pc_IAT cl = 500"
    using presented_verified[OF example_call_verified] by (metis proof_result.select_convs(1,2))
  with has show "token_key example_http_env (example_token_inputs, example_token_call) =
      Some (ReplayJTI (dpop_newJTI ''0123456789abcdef''), 500)"
    by (simp add: token_key_def)
qed

theorem token_endpoint_accounts_witness:
  "\<exists>resp c'. handleToken example_http_env (example_config example_http_cs) example_token_inputs example_token_call
      = (resp, c') \<and>
     mt_Minted (st_Metrics c') = 1 \<and> mt_Denied (st_Metrics c') = 0"
proof -
  obtain res c' where a: "handleToken example_http_env (example_config example_http_cs) example_token_inputs
      example_token_call = (token_answer res, c')" "xr_ReasonCode res = ReasonOK"
    by (rule example_call_answer)
  have "mt_Minted (st_Metrics c') = mt_Minted (st_Metrics (example_config example_http_cs)) + 1 \<and>
      mt_Denied (st_Metrics c') = mt_Denied (st_Metrics (example_config example_http_cs))"
    using token_endpoint_accounts[OF a(1) example_audit_on] a(2) by (simp add: token_answer_status)
  moreover have "mt_Minted (st_Metrics (example_config example_http_cs)) = 0"
    "mt_Denied (st_Metrics (example_config example_http_cs)) = 0"
    by (simp_all add: example_config_def)
  ultimately show ?thesis using a(1) by simp
qed

end
