(* ===== verification/Remote_Exchange.thy ===== *)
theory Remote_Exchange
  imports Posting A2a_Properties
begin

text \<open>
  \<^verbatim>\<open>HTTPExchanger\<close> of \<^verbatim>\<open>internal/a2a\<close> against the token endpoint of \<^verbatim>\<open>internal/sts\<close>: an exchange over the
  network is the exchange in the service's own process, with the key of the client's proof as the
  confirmation key. What the network and the JSON codec have to do for this is stated as definitions.
  The example service of the other theories is put behind the endpoint here.
\<close>

section \<open>The answer\<close>

text \<open>The JSON codec gets one answer across; \<open>txt\<close> is the printed form of a description. This is asked for
  the answer that is really given only: strings that are no UTF-8 do not survive \<^verbatim>\<open>encoding/json\<close>.\<close>

definition answer_readable ::
  "('c exchanger_env_scheme) \<Rightarrow> (http_desc \<Rightarrow> bytes) \<Rightarrow> (sts_body http_response \<Rightarrow> bytes http_response) \<Rightarrow>
    sts_body http_response \<Rightarrow> bool" where
  "answer_readable X txt wire resp \<longleftrightarrow>
    rs_Status (wire resp) = rs_Status resp \<and>
    (case rs_Body resp of
       Sb_Token tok typ kind secs scope \<Rightarrow> xe_OkDoc X (rs_Body (wire resp)) = Inr (tok, secs)
     | Sb_Error err desc reason \<Rightarrow> xe_ErrDoc X (rs_Body (wire resp)) = (err, txt desc, reason)
     | _ \<Rightarrow> True)"

text \<open>What the client makes of the result of an exchange.\<close>

definition client_view :: "(http_desc \<Rightarrow> bytes) \<Rightarrow> exchange_result \<Rightarrow> exchange_result \<times> exchanger_error option" where
  "client_view txt res =
    (if xr_ReasonCode res = ReasonOK
     then ((failed_result ReasonOK [] [])\<lparr>xr_Token := xr_Token res, xr_ExpiresIn := xr_ExpiresIn res\<rparr>, None)
     else (let d = txt (Hd_Exchange (xr_ErrorDesc res)) in
       (failed_result (xr_ReasonCode res) (xr_Error res) d, Some (Xe_Denied (xr_ReasonCode res) d))))"

lemma client_reads:
  assumes "answer_readable X txt wire (token_answer res)" "exchanger_request E X endpoint pr q = Inr out"
    and "do out = Inr (wire (token_answer res))"
  shows "HTTPExchanger E X do endpoint pr q = client_view txt res"
  using assms(1)[unfolded answer_readable_def] assms(2,3)
  by (cases "xr_ReasonCode res = ReasonOK")
    (simp_all add: HTTPExchanger_def client_view_def token_answer_def writeOAuthErrorCode_def denied_status_def
      failed_result_def Let_def)

section \<open>Property\<close>

text \<open>C15: A remote exchange is a local exchange. If the network delivers this request and the codec the
  answer to it, and the endpoint is neither rate limited nor shown a used proof, the client that posts an
  exchange with a proof of possession sees exactly what \<^verbatim>\<open>Exchange\<close> answers in the service for the same
  request, with the thumbprint of its key as the confirmation key: the token and its lifetime, or the
  reason and description of the refusal.\<close>

theorem remote_exchange_is_local:
  assumes key: "pi_key p = Inr (Some k)" "SignerFromKeyFile k = Inr s" "ed25519_laws H (sg_seed s)"
    "\<And>m. sha256_Sum H m \<noteq> []"
    and client: "xe_NewRequest X ''POST'' endpoint (form_Encode (exchange_form q)) = Inr bare" "hr_Method bare = ''POST''"
    "body_bytes (hr_Body bare) = form_Encode (exchange_form q)" "exchanger_request H X endpoint (Some p) q = Inr out"
    and codec: "\<And>htu. OutboundURI (Some bare) = Inr htu \<Longrightarrow>
      proof_codec_ok H (PublicMembers (signer_PublicJWK H s)) (proof_of (pi_rand p) H ''POST'' htu [] (unix (pi_now p)) [])"
    and net: "delivers out (net out)" "answer_readable X txt wire (fst (handleToken H c i (net out)))"
    and server: "ti_allow i" "ti_read_ok i" "he_ParseMediaType H form_media = Some form_media"
    "length (form_Encode (exchange_form q)) \<le> maxTokenBody"
    and clock: "pi_now p \<noteq> zero_time" "ti_proof_now i \<noteq> zero_time" "0 < unix (pi_now p)" "unix (pi_now p) < 2 ^ 62"
    "0 \<le> unix (ti_proof_now i)" "unix (ti_proof_now i) < 2 ^ 62"
    "unix (ti_proof_now i) \<le> unix (pi_now p) + 30" "unix (pi_now p) \<le> unix (ti_proof_now i) + 30"
    and fresh: "Consume (he_records H) (st_Replay c) (ti_proof_replay_now i) (ti_proof_replay_io i)
      (ReplayJTI (dpop_newJTI (pi_rand p))) (unix (pi_now p)) [dpop_newJTI (pi_rand p)] = (None, rc)"
  defines "jkt \<equiv> projr (Thumbprint H (signer_PublicJWK H s))"
  shows "HTTPExchanger H X (\<lambda>r. Inr (wire (fst (handleToken H c i (net r))))) endpoint (Some p) q =
    client_view txt (fst (Exchange (exchange_env H) (c\<lparr>st_Replay := rc\<rparr>) (ti_call i) (posted q jkt)))"
proof -
  let ?r = "bare\<lparr>hr_Header := header_Set (hr_Header bare) ''Content-Type'' form_media\<rparr>"
  obtain htu pr where out: "OutboundURI (Some ?r) = Inr htu"
    "ProveWithNonce H (pi_wall p) (pi_rand p) (Some k) ''POST'' htu [] (pi_now p) [] = Inr pr"
    "out = ?r\<lparr>hr_Header := header_Set (hr_Header ?r) ''DPoP'' pr\<rparr>"
    using client(1,4) key(1)
    by (auto simp: exchanger_request_def Prove_def form_media_def Let_def split: sum.splits)
  have hdr: "header_Get (hr_Header out) ''DPoP'' = pr" "header_Get (hr_Header out) ''Content-Type'' = form_media"
    and meth: "hr_Method out = ''POST''" and body: "body_bytes (hr_Body out) = form_Encode (exchange_form q)"
    using client(2,3) by (simp_all add: out(3))
  have same: "same_target out (net out)" and pr: "header_Get (hr_Header (net out)) ''DPoP'' = pr"
    using net(1) hdr by (simp_all add: delivers_def)
  have prove: "ProveWithNonce H (ti_wall i) (pi_rand p) (Some k) (hr_Method out) htu [] (pi_now p) [] = Inr pr"
    using out(2) meth clock(1) by (simp add: ProveWithNonce_def key(2) Let_def)
  have uri: "OutboundURI (Some out) = Inr htu" "OutboundURI (Some bare) = Inr htu"
    using out(1) by (simp_all add: out(3))
  have "dpop_Verify H (ti_wall i) (Some (net out)) [] [] (ti_proof_now i) =
    Inr \<lparr>pr_JTI = dpop_newJTI (pi_rand p), pr_IAT = unix (pi_now p), pr_JKT = jkt, pr_Nonce = TrimSpace []\<rparr>"
    unfolding jkt_def
    by (rule prove_verify[where want = "[]" and nonce = "[]" and tok = "[]", OF prove key(2,3)])
      (use codec[OF uri(2)] meth same uri(1) pr clock key(4) in simp_all)
  then have "handleToken H c i (net out) =
      apfst token_answer (Exchange (exchange_env H) (c\<lparr>st_Replay := rc\<rparr>) (ti_call i) (posted q jkt))"
    using handleToken_delivered[OF net(1) meth hdr(2) body server(4,3,1,2)] fresh by fastforce
  then have ans: "fst (handleToken H c i (net out)) =
      token_answer (fst (Exchange (exchange_env H) (c\<lparr>st_Replay := rc\<rparr>) (ti_call i) (posted q jkt)))" by simp
  show ?thesis by (rule client_reads[OF net(2)[unfolded ans] client(4)]) (simp only: ans)
qed

text \<open>Agent a asks the example service over the wire for the token of its first hop.\<close>

definition pack :: "bytes \<Rightarrow> bytes \<Rightarrow> bytes" where
  "pack a b = replicate (length a) CHR ''x'' @ ''y'' @ a @ b"

definition unpack :: "bytes \<Rightarrow> bytes \<times> bytes" where
  "unpack b = (let n = length (takeWhile (\<lambda>c. c = CHR ''x'') b); r = drop (n + 1) b in (take n r, drop n r))"

lemma unpack_pack [simp]: "unpack (pack a b) = (a, b)"
proof -
  have "takeWhile (\<lambda>c. c = CHR ''x'') (pack a b) = replicate (length a) CHR ''x''"
    unfolding pack_def by (subst takeWhile_append2) simp_all
  then show ?thesis by (simp add: unpack_def pack_def Let_def)
qed

definition example_wire :: "sts_body http_response \<Rightarrow> bytes http_response" where
  "example_wire resp = \<lparr>rs_Status = rs_Status resp, rs_Header = rs_Header resp,
     rs_Body = (case rs_Body resp of
        Sb_Token tok typ kind secs scope \<Rightarrow> pack tok (replicate (nat secs) CHR ''+'' @ replicate (nat (- secs)) CHR ''-'')
      | Sb_Error err desc reason \<Rightarrow> pack err reason
      | _ \<Rightarrow> [])\<rparr>"

definition example_client :: exchanger_env where
  "example_client =
    \<lparr>xe_NewRequest = (\<lambda>m u b. Inr (example_token_post b Map.empty)),
     xe_ErrDoc = (\<lambda>b. case unpack b of (err, reason) \<Rightarrow> (err, ''refused'', reason)),
     xe_OkDoc = (\<lambda>b. case unpack b of (tok, n) \<Rightarrow>
       Inr (tok, int (length (filter (\<lambda>c. c = CHR ''+'') n)) - int (length (filter (\<lambda>c. c = CHR ''-'') n))))\<rparr>"

lemma example_answer_readable: "answer_readable example_client (\<lambda>d. ''refused'') example_wire resp"
  by (cases "rs_Body resp") (simp_all add: answer_readable_def example_wire_def example_client_def)

definition example_remote :: "exchange_result \<times> exchanger_error option" where
  "example_remote = HTTPExchanger example_http_env example_client
    (\<lambda>r. Inr (example_wire (fst (handleToken example_http_env (example_config example_http_cs) example_token_inputs r))))
    ''https://sts/oauth/token'' (Some example_hop_proof) (user_request example_http_cs)"

theorem remote_exchange_is_local_witness:
  "xr_Token (fst example_remote) = signer_SignClaims (example_env example_http_cs) sts_signer (first_token_for holder_jkt) \<and>
    snd example_remote = None"
proof -
  let ?body = "form_Encode (exchange_form (user_request example_http_cs))"
  obtain out where out: "exchanger_request example_http_env example_client ''https://sts/oauth/token''
      (Some example_hop_proof) (user_request example_http_cs) = Inr out" "\<exists>h. out = example_token_post ?body h"
    by (simp add: exchanger_request_def example_client_def example_hop_proof_def Prove_def ProveWithNonce_def
        example_holder_signer example_post_uri Let_def) (simp add: example_token_post_def)
  have plain: "hr_Method (example_token_post b h) = ''POST''" "body_bytes (hr_Body (example_token_post b h)) = b"
    "st_Replay (example_config example_http_cs) = Some NewReplayCache" for b h
    by (simp_all add: example_token_post_def body_bytes_def example_config_def)
  have "example_remote = client_view (\<lambda>d. ''refused'') (fst (Exchange (exchange_env example_http_env)
      ((example_config example_http_cs)\<lparr>st_Replay := Some example_post_cache\<rparr>) (ti_call example_token_inputs)
      (posted (user_request example_http_cs)
        (projr (Thumbprint example_http_env (signer_PublicJWK example_http_env holder_signer))))))"
    unfolding example_remote_def
    by (rule remote_exchange_is_local[where net = id and k = example_holder and bare = "example_token_post ?body Map.empty",
          unfolded id_apply, OF _ example_holder_signer _ _ _ _ _ out(1) _ _ example_answer_readable])
      (use out(2) example_http_codec example_post_delivers example_form_short example_post_consume in
        \<open>auto simp: example_hop_proof_def example_token_inputs_def example_client_def example_clock
          example_post_uri plain\<close>)
  then have view: "example_remote = client_view (\<lambda>d. ''refused'') (fst (Exchange (example_sts_env example_http_cs)
      ((example_config example_http_cs)\<lparr>st_Replay := Some example_post_cache\<rparr>) example_inputs
      (posted (user_request example_http_cs) holder_jkt)))"
    by (simp only: example_http_simps example_holder_jkt) (simp only: example_token_inputs_def token_inputs.select_convs)
  obtain res c' where res: "Exchange (example_sts_env example_http_cs)
      ((example_config example_http_cs)\<lparr>st_Replay := Some example_post_cache\<rparr>) example_inputs
      (posted (user_request example_http_cs) holder_jkt) = (res, c')" "xr_ReasonCode res = ReasonOK"
    "xr_Token res = signer_SignClaims (example_env example_http_cs) sts_signer (first_token_for holder_jkt)"
    by (rule example_first_answer)
  show ?thesis unfolding view res(1) by (simp add: client_view_def res(2,3))
qed

end
