(* ===== verification/Reload.thy ===== *)
theory Reload
  imports Sts_Properties Loading
begin

text \<open>
  \<^verbatim>\<open>internal/sts/reload.go\<close>: replacing registry, signing ring and denylist from disk while the service
  runs. A nil reloader, or one without a configuration, is \<open>None\<close>. The property is that a reload
  installs everything that is configured or nothing.
\<close>

record reloader =
  rl_RegistryPath :: bytes
  rl_SigningPath :: bytes
  rl_DenylistPath :: bytes

datatype reload_error = Reload_Unconfigured | Reload_Load load_error | Reload_Install token_error

text \<open>One optional file: nothing for an empty path.\<close>

definition load_if :: "bytes \<Rightarrow> (bytes \<Rightarrow> load_error + 'a) \<Rightarrow> load_error + 'a option" where
  "load_if path ld = (if path = [] then Inr None else (case ld path of Inl e \<Rightarrow> Inl e | Inr x \<Rightarrow> Inr (Some x)))"

definition load_all ::
  "('a load_env_scheme) \<Rightarrow> ('b crypto_scheme) \<Rightarrow> reloader \<Rightarrow>
    load_error + (registry option \<times> keyring option \<times> denylist option)" where
  "load_all L E r =
    (case load_if (rl_RegistryPath r) (registry_LoadFile L) of
       Inl e \<Rightarrow> Inl e
     | Inr reg \<Rightarrow> (case load_if (rl_SigningPath r) (LoadSigningFile L E) of
         Inl e \<Rightarrow> Inl e
       | Inr kr \<Rightarrow> (case load_if (rl_DenylistPath r) (denylist_LoadFile L) of
           Inl e \<Rightarrow> Inl e
         | Inr dl \<Rightarrow> Inr (reg, kr, dl))))"

definition count_reload :: "bool \<Rightarrow> sts_config \<Rightarrow> sts_config" where
  "count_reload ok c =
    (let m = st_Metrics c in
     c\<lparr>st_Metrics := (if ok then m\<lparr>mt_Reloads := mt_Reloads m + 1\<rparr>
                     else m\<lparr>mt_ReloadFails := mt_ReloadFails m + 1\<rparr>)\<rparr>)"

definition Reload ::
  "('a load_env_scheme) \<Rightarrow> ('b crypto_scheme) \<Rightarrow> reloader option \<Rightarrow> sts_config \<Rightarrow>
    reload_error option \<times> sts_config" where
  "Reload L E rl c =
    (case rl of
       None \<Rightarrow> (Some Reload_Unconfigured, c)
     | Some r \<Rightarrow>
         (case load_all L E r of
            Inl e \<Rightarrow> (Some (Reload_Load e), count_reload False c)
          | Inr (reg, kr, dl) \<Rightarrow>
              if reg \<noteq> None \<or> kr \<noteq> None \<or> dl \<noteq> None then
                (case installIdentity E c reg kr dl of
                   (Some e, c') \<Rightarrow> (Some (Reload_Install e), count_reload False c')
                 | (None, c') \<Rightarrow> (None, count_reload True c'))
              else (None, count_reload True c)))"

text \<open>What stays when a path is empty, and what is loaded otherwise.\<close>

definition reloaded :: "bytes \<Rightarrow> (bytes \<Rightarrow> load_error + 'a) \<Rightarrow> 'a option \<Rightarrow> 'a option \<Rightarrow> bool" where
  "reloaded path ld old new \<longleftrightarrow> (if path = [] then new = old else \<exists>x. ld path = Inr x \<and> new = Some x)"

lemma load_if_Inr:
  "load_if path ld = Inr v \<longleftrightarrow> (if path = [] then v = None else \<exists>x. ld path = Inr x \<and> v = Some x)"
  by (auto simp: load_if_def split: sum.splits)

lemma load_all_Inr:
  "load_all L E r = Inr (reg, kr, dl) \<longleftrightarrow>
    load_if (rl_RegistryPath r) (registry_LoadFile L) = Inr reg \<and>
    load_if (rl_SigningPath r) (LoadSigningFile L E) = Inr kr \<and>
    load_if (rl_DenylistPath r) (denylist_LoadFile L) = Inr dl"
  by (auto simp: load_all_def split: sum.splits)

lemma reloaded_load_if:
  "load_if path ld = Inr v \<Longrightarrow> reloaded path ld old (if v \<noteq> None then v else old)"
  by (auto simp: load_if_Inr reloaded_def split: if_splits)

text \<open>A configuration whose live identity is another one; everything else is kept.\<close>

definition with_identity ::
  "sts_config \<Rightarrow> registry option \<Rightarrow> keyring option \<Rightarrow> denylist option \<Rightarrow> sts_config" where
  "with_identity c reg kr dl = c\<lparr>st_Registry := reg, st_Signer := kr, st_Denylist := dl\<rparr>"

lemma installIdentity_Inr:
  "installIdentity E c reg kr dl = (None, c') \<longleftrightarrow>
    (kr \<noteq> None \<longrightarrow> AllowActivation E (st_Signer c) kr = None) \<and>
    c' = with_identity c (if reg \<noteq> None then reg else st_Registry c)
      (if kr \<noteq> None then kr else st_Signer c) (if dl \<noteq> None then dl else st_Denylist c)"
  by (auto simp: installIdentity_def with_identity_def Let_def split: option.splits)

lemma installIdentity_error: "installIdentity E c reg kr dl = (Some e, c') \<Longrightarrow> c' = c"
  by (auto simp: installIdentity_def Let_def split: option.splits if_splits)

lemma with_identity_same [simp]: "with_identity c (st_Registry c) (st_Signer c) (st_Denylist c) = c"
  by (simp add: with_identity_def)

text \<open>C21: A reload is all or nothing. If it fails, nothing but the counter of failures has changed and
  the service goes on with the identity it had. If it succeeds, each of registry, signing ring and
  denylist is the valid document now in its file, or the old one if no file is configured; a new ring
  came from a file that only its owner can open and is one that may follow the old ring.\<close>

theorem Reload_all_or_nothing:
  assumes "Reload L E (Some r) c = (err, c')"
  shows "case err of
     Some e \<Rightarrow> c' = count_reload False c
   | None \<Rightarrow> \<exists>reg kr dl. c' = count_reload True (with_identity c reg kr dl) \<and>
       reloaded (rl_RegistryPath r) (registry_LoadFile L) (st_Registry c) reg \<and>
       reloaded (rl_SigningPath r) (LoadSigningFile L E) (st_Signer c) kr \<and>
       reloaded (rl_DenylistPath r) (denylist_LoadFile L) (st_Denylist c) dl \<and>
       (\<forall>k'. rl_SigningPath r \<noteq> [] \<and> kr = Some k' \<longrightarrow>
          secret_file (ld_fs L (rl_SigningPath r)) \<and> ring_wf k' \<and>
          (\<forall>k. st_Signer c = Some k \<and> ring_wf k \<longrightarrow> may_follow E k k'))"
proof (cases "load_all L E r")
  case (Inl e)
  with assms show ?thesis by (auto simp: Reload_def)
next
  case (Inr loaded)
  obtain reg kr dl where ld: "loaded = (reg, kr, dl)" by (cases loaded)
  note parts = Inr[unfolded ld load_all_Inr]
  obtain e c1 where inst: "installIdentity E c reg kr dl = (e, c1)" by fastforce
  have none: "installIdentity E c None None None = (None, c)"
    using installIdentity_Inr[of E c None None None c] by simp
  show ?thesis
  proof (cases e)
    case (Some x)
    then have "reg \<noteq> None \<or> kr \<noteq> None \<or> dl \<noteq> None" using inst none by (cases reg; cases kr; cases dl) auto
    with Some Inr ld inst assms installIdentity_error[of E c reg kr dl x c1] show ?thesis
      by (auto simp: Reload_def)
  next
    case None
    then have c1: "c1 = with_identity c (if reg \<noteq> None then reg else st_Registry c)
        (if kr \<noteq> None then kr else st_Signer c) (if dl \<noteq> None then dl else st_Denylist c)"
      and ok: "kr \<noteq> None \<Longrightarrow> AllowActivation E (st_Signer c) kr = None"
      using inst by (auto simp: installIdentity_Inr)
    have c': "err = None" "c' = count_reload True c1"
      using assms Inr ld inst None none by (auto simp: Reload_def split: if_splits)
    have ring: "secret_file (ld_fs L (rl_SigningPath r)) \<and> ring_wf k' \<and>
        (\<forall>k. st_Signer c = Some k \<and> ring_wf k \<longrightarrow> may_follow E k k')"
      if "rl_SigningPath r \<noteq> []" "(if kr \<noteq> None then kr else st_Signer c) = Some k'" for k'
    proof -
      from parts that have k': "LoadSigningFile L E (rl_SigningPath r) = Inr k'" "kr = Some k'"
        by (auto simp: load_if_Inr)
      then have wf: "ring_wf k'" and sec: "secret_file (ld_fs L (rl_SigningPath r))"
        using NewKeyring_wf by (auto simp: LoadSigningFile_Inr)
      from wf sec ok k'(2) AllowActivation_None[of _ k' E] show ?thesis by auto
    qed
    show ?thesis
      unfolding c' c1 option.case
      by (intro exI conjI, rule refl) (use parts ring reloaded_load_if in blast)+
  qed
qed

text \<open>A denylist and a ring that publishes the next key, read into the example service.\<close>

definition example_doc :: "(bytes \<times> keyfile list) decoder" where
  "example_doc raw = Inr ((''k1'', map the [example_key [] CHR ''a'' ''k1'', example_key [] CHR ''b'' ''k2'']), [])"

definition example_load :: "32 word \<Rightarrow> load_env" where
  "example_load mode =
    \<lparr>ld_fs = (\<lambda>_. \<lparr>fs_ReadFile = Inr ''doc'', fs_Stat = Inr (True, mode)\<rparr>), ld_next = (\<lambda>_. Next_EOF),
     ld_registry = (\<lambda>_. Inl ''none''),
     ld_denylist = (\<lambda>_. Inr (\<lparr>df_Version = 1, df_Agents = [], df_Workloads = [], df_Principals = [''eve'']\<rparr>, [])),
     ld_keyfile = (\<lambda>_. Inl ''none''), ld_keyring = example_doc,
     ld_members = (\<lambda>_. Some [''active_kid'', ''keys'']), ld_time = example_time, ld_url = (\<lambda>_. None)\<rparr>"

definition example_reloader :: reloader where
  "example_reloader = \<lparr>rl_RegistryPath = [], rl_SigningPath = ''ring'', rl_DenylistPath = ''deny''\<rparr>"

definition example_next_ring :: keyring where
  "example_next_ring = \<lparr>kr_activeKID = ''k1'', kr_byKID = Some (example_ring ''ab'' [''k1'', ''k2''])\<rparr>"

definition example_denied :: denylist where
  "example_denied = \<lparr>dl_agents = {}, dl_workloads = {}, dl_principals = {''eve''}\<rparr>"

lemma example_loads:
  "LoadSigningFile (example_load 0x180) E path = Inr example_next_ring"
  "LoadSigningFile (example_load 0x1A4) E path = Inl (Load_Token Token_ErrInvalidKey)"
  "denylist_LoadFile (example_load mode) path = Inr example_denied"
proof -
  have "ParseSigningMaterial (example_load mode) ''doc'' =
      Inr (''k1'', [example_key [] CHR ''a'' ''k1'', example_key [] CHR ''b'' ''k2''])" for mode
    by (simp add: ParseSigningMaterial_def decodeStrict_def json_decode_def example_load_def example_doc_def
        example_key_def)
  moreover have "NewKeyring E ''k1'' [example_key [] CHR ''a'' ''k1'', example_key [] CHR ''b'' ''k2'']
      = Inr example_next_ring"
    by (simp add: NewKeyring_def example_next_ring_def)
  moreover have "ld_fs (example_load mode) path = \<lparr>fs_ReadFile = Inr ''doc'', fs_Stat = Inr (True, mode)\<rparr>" for mode
    by (simp add: example_load_def)
  ultimately show "LoadSigningFile (example_load 0x180) E path = Inr example_next_ring"
    by (simp add: LoadSigningFile_def CheckSecretFileMode_def)
  show "LoadSigningFile (example_load 0x1A4) E path = Inl (Load_Token Token_ErrInvalidKey)"
    by (simp add: LoadSigningFile_def CheckSecretFileMode_def example_load_def)
  have "no_space ''eve''" by code_simp
  then have "denylist_New U \<lparr>df_Version = 1, df_Agents = [], df_Workloads = [], df_Principals = [''eve'']\<rparr>
      = Inr example_denied" for U
    by (simp add: denylist_New_def identityID_def example_denied_def)
  then show "denylist_LoadFile (example_load mode) path = Inr example_denied"
    by (simp add: denylist_LoadFile_def denylist_LoadJSON_def json_decode_def example_load_def)
qed

lemma example_reloads:
  "fst (Reload (example_load 0x180) (example_env []) (Some example_reloader) (example_config [])) = None"
  "fst (Reload (example_load 0x1A4) (example_env []) (Some example_reloader) (example_config [])) \<noteq> None"
proof -
  have "AllowActivation (example_env []) (Some example_keyring) (Some example_next_ring) = None"
    by (simp add: AllowActivation_def keyring_ActiveKID_def keyring_JWKS_def publicMaterialStable_def
        jwks_by_kid_def example_keyring_def example_next_ring_def)
      (simp add: example_ring_def jwksFrom_def)
  then show "fst (Reload (example_load 0x180) (example_env []) (Some example_reloader) (example_config [])) = None"
    by (simp add: Reload_def load_all_def load_if_def example_reloader_def example_loads installIdentity_def
        example_config_def)
qed (simp add: Reload_def load_all_def load_if_def example_reloader_def example_loads)

theorem Reload_all_or_nothing_witness:
  "(\<exists>c'. Reload (example_load 0x180) (example_env []) (Some example_reloader) (example_config []) = (None, c') \<and>
     st_Denylist c' = Some example_denied \<and> st_Signer c' = Some example_next_ring) \<and>
   snd (Reload (example_load 0x1A4) (example_env []) (Some example_reloader) (example_config []))
     = count_reload False (example_config [])"
proof -
  obtain c' where ok: "Reload (example_load 0x180) (example_env []) (Some example_reloader) (example_config [])
      = (None, c')"
    using example_reloads(1) by (metis prod.collapse)
  from Reload_all_or_nothing[OF ok] ok
  have "st_Denylist c' = Some example_denied \<and> st_Signer c' = Some example_next_ring"
    by (auto simp: reloaded_def example_loads example_reloader_def count_reload_def with_identity_def Let_def)
  moreover obtain e c'' where no: "Reload (example_load 0x1A4) (example_env []) (Some example_reloader) (example_config [])
      = (Some e, c'')"
    using example_reloads(2) by (metis prod.collapse not_Some_eq)
  ultimately show ?thesis using ok Reload_all_or_nothing[OF no] by simp
qed

end
