(* ===== verification/Mint.thy ===== *)
theory Mint
  imports Key_Tools Token_Endpoint Remote_Exchange Reload
begin

text \<open>
  \<^verbatim>\<open>token mint\<close> of \<^verbatim>\<open>cmd/agent-identity-plane/token_mint.go\<close>: it signs an actor token with the workload's
  key, a user token with the key of the identity provider on the first hop, and posts the exchange.
  The random bytes of the two token ids, the clock, the URL parser and the HTTP client are inputs.
\<close>

section \<open>The tokens it signs\<close>

definition spiffeTrustDomain :: "bytes \<Rightarrow> bytes" where
  "spiffeTrustDomain wl =
    (if \<not> prefix ''spiffe://'' wl then []
     else (case strings_Cut CHR ''/'' (drop 9 wl) of
       (host, _, ok) \<Rightarrow> if \<not> ok \<or> host = [] then [] else ''spiffe://'' @ host))"

definition randomJTI :: "bytes \<Rightarrow> bytes \<Rightarrow> bytes" where
  "randomJTI pre rnd = pre @ ''-'' @ hex_encode rnd"

datatype mint_error =
    Mint_Usage | Mint_Subject | Mint_FirstHop | Mint_URL bytes | Mint_Source source_error | Mint_Tool tool_error
  | Mint_NoSub | Mint_NoIssuer | Mint_Token token_error | Mint_Exchange exchanger_error | Mint_Refused bytes

definition actor_issuer :: "keyfile \<Rightarrow> bytes \<Rightarrow> bytes" where
  "actor_issuer kf actorIss =
    (let iss = TrimSpace actorIss;
         iss1 = (if iss = [] then TrimSpace (kf_issuer kf) else iss)
     in if iss1 = [] then spiffeTrustDomain (kf_sub kf) else iss1)"

definition actor_claims :: "keyfile \<Rightarrow> bytes \<Rightarrow> bytes \<Rightarrow> instant \<Rightarrow> bytes \<Rightarrow> claims" where
  "actor_claims kf iss stsIssuer now rnd =
    no_claims\<lparr>c_iss := iss, c_sub := kf_sub kf, c_aud := [stsIssuer], c_exp := unix (now + 300 * second),
      c_iat := unix now, c_jti := randomJTI ''act'' rnd\<rparr>"

definition signActorToken ::
  "('a token_env_scheme) \<Rightarrow> keyfile \<Rightarrow> bytes \<Rightarrow> bytes \<Rightarrow> instant \<Rightarrow> bytes \<Rightarrow> mint_error + bytes" where
  "signActorToken E kf actorIss stsIssuer now rnd =
    (let iss = actor_issuer kf actorIss in
     if iss = [] then Inl Mint_NoIssuer
     else (case SignerFromKeyFile kf of
       Inl e \<Rightarrow> Inl (Mint_Token e)
     | Inr s \<Rightarrow> Inr (signer_SignClaims E s (actor_claims kf iss stsIssuer now rnd))))"

definition user_token_claims :: "bytes \<Rightarrow> bytes \<Rightarrow> bytes \<Rightarrow> bytes \<Rightarrow> instant \<Rightarrow> bytes \<Rightarrow> claims" where
  "user_token_claims idpIss user agentID scope now rnd =
    no_claims\<lparr>c_iss := idpIss, c_sub := user, c_aud := [agentID], c_exp := unix (now + 600 * second),
      c_iat := unix now, c_jti := randomJTI ''usr'' rnd, c_scope := scope\<rparr>"

definition signUserToken ::
  "('a load_env_scheme) \<Rightarrow> ('b token_env_scheme) \<Rightarrow> bytes \<Rightarrow> bytes \<Rightarrow> bytes \<Rightarrow> bytes \<Rightarrow> bytes \<Rightarrow> instant \<Rightarrow> bytes \<Rightarrow>
    mint_error + bytes" where
  "signUserToken L E idpPath idpIss user agentID scope now rnd =
    (case loadSecretKey L idpPath of
       Inl e \<Rightarrow> Inl (Mint_Tool e)
     | Inr kf \<Rightarrow> (case SignerFromKeyFile kf of
         Inl e \<Rightarrow> Inl (Mint_Token e)
       | Inr s \<Rightarrow> Inr (signer_SignClaims E s (user_token_claims idpIss user agentID scope now rnd))))"

section \<open>The command\<close>

text \<open>What \<^verbatim>\<open>url.Parse\<close> makes of the endpoint: its host, its path, and its text with another path.\<close>

record mint_env = net_env +
  mn_url :: "bytes \<Rightarrow> (bytes \<times> bytes \<times> (bytes \<Rightarrow> bytes)) option"

definition mintEndpoint :: "('a mint_env_scheme) \<Rightarrow> bytes \<Rightarrow> mint_error + bytes" where
  "mintEndpoint N raw =
    (case mn_url N raw of
       None \<Rightarrow> Inl (Mint_URL raw)
     | Some (host, path, text_of) \<Rightarrow>
         if host = [] then Inl (Mint_URL raw)
         else
           (let out = text_of (if path = [] \<or> path = ''/'' then ''/oauth/token'' else path) in
            case CheckJWKSURL N out of Some e \<Rightarrow> Inl (Mint_Source e) | None \<Rightarrow> Inr out))"

record mint_flags =
  mf_sts :: bytes
  mf_issuer :: bytes
  mf_idp_key :: bytes
  mf_idp_issuer :: bytes
  mf_user :: bytes
  mf_subject_token :: bytes
  mf_actor_key :: bytes
  mf_actor_iss :: bytes
  mf_agent_id :: bytes
  mf_audience :: bytes
  mf_scope :: bytes
  mf_args :: "bytes list"

definition mint_request :: "mint_flags \<Rightarrow> bytes \<Rightarrow> bytes \<Rightarrow> exchange_request" where
  "mint_request f subject actor =
    \<lparr>rq_GrantType = GrantTokenExchange, rq_SubjectToken = subject, rq_SubjectTokenType = [], rq_ActorToken = actor,
     rq_ActorTokenType = [], rq_Audience = mf_audience f, rq_Scope = mf_scope f, rq_RequestedTokenType = [],
     rq_AgentID = mf_agent_id f, rq_Purp = [], rq_ConfirmJKT = []\<rparr>"

definition mint_usage :: "mint_flags \<Rightarrow> mint_error option" where
  "mint_usage f =
    (let hasIDP = mf_idp_key f \<noteq> [] \<or> mf_idp_issuer f \<noteq> [] \<or> mf_user f \<noteq> [];
         hasSub = mf_subject_token f \<noteq> []
     in if mf_args f \<noteq> [] then Some Mint_Usage
        else if mf_sts f = [] \<or> mf_issuer f = [] \<or> mf_actor_key f = [] \<or> mf_agent_id f = [] \<or> mf_audience f = []
          then Some Mint_Usage
        else if hasIDP = hasSub then Some Mint_Subject
        else if hasIDP \<and> (mf_idp_key f = [] \<or> mf_idp_issuer f = [] \<or> mf_user f = []) then Some Mint_FirstHop
        else None)"

record mint_inputs =
  mi_now :: instant
  mi_rand_actor :: bytes
  mi_rand_user :: bytes

text \<open>The actor token and the subject token of the request.\<close>

definition mint_tokens ::
  "('a load_env_scheme) \<Rightarrow> ('b token_env_scheme) \<Rightarrow> mint_inputs \<Rightarrow> mint_flags \<Rightarrow> mint_error + (bytes \<times> bytes)" where
  "mint_tokens L E i f =
    (case loadSecretKey L (mf_actor_key f) of
       Inl e \<Rightarrow> Inl (Mint_Tool e)
     | Inr kf \<Rightarrow>
         if is_blank (kf_sub kf) then Inl Mint_NoSub
         else (case signActorToken E kf (mf_actor_iss f) (mf_issuer f) (mi_now i) (mi_rand_actor i) of
           Inl e \<Rightarrow> Inl e
         | Inr actor \<Rightarrow>
             (case (if mf_subject_token f \<noteq> [] then Inr (mf_subject_token f)
                    else signUserToken L E (mf_idp_key f) (mf_idp_issuer f) (mf_user f) (mf_agent_id f) (mf_scope f)
                      (mi_now i) (mi_rand_user i)) of
                Inl e \<Rightarrow> Inl e
              | Inr subject \<Rightarrow> Inr (actor, subject))))"

definition mintAccessToken ::
  "('a load_env_scheme) \<Rightarrow> ('b dpop_env_scheme) \<Rightarrow> ('c mint_env_scheme) \<Rightarrow> ('d exchanger_env_scheme) \<Rightarrow>
    (http_request \<Rightarrow> bytes + bytes http_response) \<Rightarrow> mint_inputs \<Rightarrow> mint_flags \<Rightarrow> mint_error + bytes" where
  "mintAccessToken L E N X do i f =
    (case mint_usage f of
       Some e \<Rightarrow> Inl e
     | None \<Rightarrow> (case mintEndpoint N (mf_sts f) of
         Inl e \<Rightarrow> Inl e
       | Inr endpoint \<Rightarrow> (case mint_tokens L E i f of
           Inl e \<Rightarrow> Inl e
         | Inr (actor, subject) \<Rightarrow>
             (case HTTPExchanger E X do endpoint None (mint_request f subject actor) of
                (res, Some e) \<Rightarrow> Inl (Mint_Exchange e)
              | (res, None) \<Rightarrow>
                  if xr_ReasonCode res \<noteq> ReasonOK \<or> xr_Token res = [] then Inl (Mint_Refused (xr_ReasonCode res))
                  else Inr (xr_Token res)))))"

section \<open>The service attests what it signs\<close>

lemma no_claims_simps [simp]:
  "c_nbf no_claims = 0" "c_txn no_claims = []" "c_act no_claims = None" "c_actchain no_claims = []"
  by (simp_all add: no_claims_def)

text \<open>An actor token attests its workload to a service that has the key's public half and is named as
  the audience, for five minutes.\<close>

lemma actor_token_attests:
  assumes sign: "signActorToken E (generated E s) actorIss stsIssuer now rnd = Inr tok"
    and key: "length (sg_seed s) = 32" "sg_kid s \<noteq> []" "\<not> is_blank (sg_sub s)" "ed25519_laws E (sg_seed s)"
    and ks: "signer_PublicJWK E s \<in> set ks" "distinct (map k_kid ks)"
    and codec: "codec_ok E \<lparr>h_alg = ''EdDSA'', h_typ = ''JWT'', h_kid = sg_kid s\<rparr>
      (actor_claims (generated E s) (actor_issuer (generated E s) actorIss) stsIssuer now rnd)"
    and clock: "unix now + 300 \<noteq> 0" "at \<le> unix now + 300"
  shows "LocalKeys_Attest E (Some \<lparr>lk_Keys = ks, lk_Audience = stsIssuer, lk_Now = Some at\<rparr>) tok =
    Inr \<lparr>wi_ID = sg_sub s, wi_Issuer = actor_issuer (generated E s) actorIss, wi_JTI = randomJTI ''act'' rnd,
      wi_PossessedJKT = projr (Thumbprint E (signer_PublicJWK E s))\<rparr>"
proof -
  let ?c = "actor_claims (generated E s) (actor_issuer (generated E s) actorIss) stsIssuer now rnd"
  have tok: "tok = signer_SignClaims E s ?c"
    using sign key(1) by (simp add: signActorToken_def Let_def split: if_splits)
  have v: "VerifyKey E tok ks = Inr (\<lparr>h_alg = ''EdDSA'', h_typ = ''JWT'', h_kid = sg_kid s\<rparr>, ?c, signer_PublicJWK E s)"
    unfolding tok by (rule sign_VerifyKey[OF key(4) codec key(2) ks(2,1)])
  have sub: "k_sub (signer_PublicJWK E s) = sg_sub s" by (simp add: signer_PublicJWK_def)
  obtain jkt where jkt: "Thumbprint E (signer_PublicJWK E s) = Inr jkt"
    using Thumbprint_signer[OF key(4)] by blast
  moreover have "ks \<noteq> []" using ks(1) by auto
  moreover have "c_exp ?c = unix now + 300"
    using unix_add_seconds[of now 300] by (simp add: actor_claims_def)
  ultimately show ?thesis
    using key(3) clock
    by (simp add: LocalKeys_Attest_def LocalKeys_keys_def v sub ValidateSubject_def actor_claims_def)
qed

section \<open>The exchange it posts\<close>

text \<open>What \<^verbatim>\<open>http.NewRequest\<close> makes of a body of bytes.\<close>

definition new_request_ok :: "('c exchanger_env_scheme) \<Rightarrow> bool" where
  "new_request_ok X \<longleftrightarrow>
    (\<forall>url b r. xe_NewRequest X ''POST'' url b = Inr r \<longrightarrow>
       hr_Method r = ''POST'' \<and> body_bytes (hr_Body r) = b \<and> header_Get (hr_Header r) ''DPoP'' = [])"

lemma handleToken_unproved:
  assumes "delivers out inb" "hr_Method out = ''POST''" "header_Get (hr_Header out) ''Content-Type'' = form_media"
    and "body_bytes (hr_Body out) = form_Encode (exchange_form q)" "length (form_Encode (exchange_form q)) \<le> maxTokenBody"
    and "he_ParseMediaType H form_media = Some form_media" "ti_allow i" "ti_read_ok i"
    and "header_Get (hr_Header out) ''DPoP'' = []"
  shows "handleToken H c i inb = apfst token_answer (Exchange (exchange_env H) c (ti_call i) (posted q []))"
proof -
  have "ParseForm (he_ParseMediaType H) maxTokenBody True inb = Some (sort_key fst (exchange_form q))"
    by (rule ParseForm_delivered) (use assms(1-6) in simp_all)
  moreover have "token_proof H (st_Replay c) i inb = (Inr [], st_Replay c)"
    using assms(1,9) by (simp add: token_proof_def delivers_def is_blank_def)
  ultimately show ?thesis using assms(7,8) by (simp add: handleToken_def form_request_posted)
qed

lemma LocalKeys_Attest_agree:
  assumes "token_env.truncate E = token_env.truncate E'"
  shows "LocalKeys_Attest E l raw = LocalKeys_Attest E' l raw"
  unfolding LocalKeys_Attest_def jws_Verify_agree[OF assms] verifySig_agree[OF assms] by (rule refl)

text \<open>Without a proof key the client sees what the service answers.\<close>

lemma unproved_exchange:
  assumes "new_request_ok X" "exchanger_request H X endpoint None q = Inr out"
    and "delivers out (net out)" "answer_readable X txt wire (fst (handleToken H c i (net out)))"
    and "ti_allow i" "ti_read_ok i" "he_ParseMediaType H form_media = Some form_media"
    and "length (form_Encode (exchange_form q)) \<le> maxTokenBody"
  shows "HTTPExchanger H X (\<lambda>r. Inr (wire (fst (handleToken H c i (net r))))) endpoint None q =
    client_view txt (fst (Exchange (exchange_env H) c (ti_call i) (posted q [])))"
proof -
  obtain r where r: "xe_NewRequest X ''POST'' endpoint (form_Encode (exchange_form q)) = Inr r"
    "out = r\<lparr>hr_Header := header_Set (hr_Header r) ''Content-Type'' form_media\<rparr>"
    using assms(2) by (auto simp: exchanger_request_def form_media_def Let_def split: sum.splits)
  then have "handleToken H c i (net out) =
      apfst token_answer (Exchange (exchange_env H) c (ti_call i) (posted q []))"
    by (intro handleToken_unproved[OF assms(3)]) (use assms(1,5-8) in \<open>auto simp: new_request_ok_def\<close>)
  then have ans: "fst (handleToken H c i (net out)) =
      token_answer (fst (Exchange (exchange_env H) c (ti_call i) (posted q [])))" by simp
  show ?thesis by (rule client_reads[OF assms(4)[unfolded ans] assms(2)]) (simp only: ans)
qed

section \<open>Properties\<close>

text \<open>C28: The key tools fit together. For workload keys made by \<^verbatim>\<open>keys generate\<close>, with key ids that differ,
  \<^verbatim>\<open>keys jwks\<close> writes a key set that the service loads, and an actor token that \<^verbatim>\<open>token mint\<close> signs with one
  of these key files attests to that service the workload the key was made for, with the thumbprint of
  its key, until five minutes after it was signed.\<close>

theorem key_tools_fit:
  assumes disk: "list_all2 (key_on_disk L) paths (map (generated E) ss)" "ss \<noteq> []" "out \<noteq> []"
    and kids: "distinct (map sg_kid ss)" "[] \<notin> sg_kid ` set ss"
    and out: "fs_ReadFile (ld_fs L out) = Inr raw"
      "raw = tl_jwks_text L (map (signer_PublicJWK E) ss) @ [CHR 0x0A]"
      "json_decode (ld_next L) (tl_wrapped L) raw = Inr (map (signer_PublicJWK E) ss, [])"
    and key: "n < length ss" "length (sg_seed (ss ! n)) = 32" "\<not> is_blank (sg_sub (ss ! n))"
      "ed25519_laws E (sg_seed (ss ! n))"
    and codec: "codec_ok E \<lparr>h_alg = ''EdDSA'', h_typ = ''JWT'', h_kid = sg_kid (ss ! n)\<rparr>
      (actor_claims (generated E (ss ! n)) (actor_issuer (generated E (ss ! n)) actorIss) stsIssuer now rnd)"
    and clock: "unix now + 300 \<noteq> 0" "at \<le> unix now + 300"
    and iss: "actor_issuer (generated E (ss ! n)) actorIss \<noteq> []"
  shows "cmdKeysJWKS L (concat (map (\<lambda>p. [''-in'', p]) paths) @ [''-out'', out]) = Inr (Out_File out raw) \<and>
    (\<exists>ks kf tok. loadJWKS L out = Inr ks \<and> loadSecretKey L (paths ! n) = Inr kf \<and>
      signActorToken E kf actorIss stsIssuer now rnd = Inr tok \<and>
      LocalKeys_Attest E (Some \<lparr>lk_Keys = ks, lk_Audience = stsIssuer, lk_Now = Some at\<rparr>) tok =
        Inr \<lparr>wi_ID = sg_sub (ss ! n), wi_Issuer = actor_issuer kf actorIss, wi_JTI = randomJTI ''act'' rnd,
          wi_PossessedJKT = projr (Thumbprint E (signer_PublicJWK E (ss ! n)))\<rparr>)"
proof -
  let ?ks = "map (signer_PublicJWK E) ss" and ?kf = "generated E (ss ! n)"
  have "cmdKeysJWKS L (concat (map (\<lambda>p. [''-in'', p]) paths) @ [''-out'', out]) = Inr (Out_File out raw)"
    unfolding out(2) by (rule cmdKeysJWKS_keys[OF disk kids])
  moreover have "loadJWKS L out = Inr ?ks"
    using disk(2) by (simp add: loadJWKS_def out(1,3) Let_def)
  moreover have kid: "sg_kid (ss ! n) \<noteq> []" using kids(2) key(1) by (metis imageI nth_mem)
  have "key_on_disk L (paths ! n) ?kf"
    using list_all2_nthD2[OF disk(1), of n] key(1) by simp
  then have "loadSecretKey L (paths ! n) = Inr ?kf" by (rule loadSecretKey_key) (simp add: kid)
  moreover obtain tok where tok: "signActorToken E ?kf actorIss stsIssuer now rnd = Inr tok"
    using iss key(2) by (simp add: signActorToken_def Let_def)
  moreover have "distinct (map k_kid ?ks)" using kids(1) by (simp add: signer_PublicJWK_def comp_def)
  then have "LocalKeys_Attest E (Some \<lparr>lk_Keys = ?ks, lk_Audience = stsIssuer, lk_Now = Some at\<rparr>) tok =
      Inr \<lparr>wi_ID = sg_sub (ss ! n), wi_Issuer = actor_issuer ?kf actorIss, wi_JTI = randomJTI ''act'' rnd,
        wi_PossessedJKT = projr (Thumbprint E (signer_PublicJWK E (ss ! n)))\<rparr>"
    by (intro actor_token_attests[OF tok key(2) kid key(3,4) _ _ codec clock]) (use key(1) in auto)
  ultimately show ?thesis by blast
qed

text \<open>A workload key and an identity provider's key on disk, and the actor token the first one signs.\<close>

definition example_actor_keyfile :: keyfile where
  "example_actor_keyfile = generated (example_env []) (example_workload_key ''wl-1'')"

definition example_minted_actor :: claims where
  "example_minted_actor = actor_claims example_actor_keyfile ''wl'' ''sts'' (500 * second) ''0123456789abcdef''"

definition example_mint_cs :: "claims list" where
  "example_mint_cs = [user_claims, example_minted_actor]"

definition example_tool_env :: tool_env where
  "example_tool_env =
    load_env.extend ((example_load 0x180)
      \<lparr>ld_fs := (\<lambda>p. \<lparr>fs_ReadFile = Inr (if p = ''w.json'' then [CHR ''w'', CHR 0x0A]
           else if p = ''i.json'' then [CHR ''i'', CHR 0x0A] else ''jwks'' @ [CHR 0x0A]), fs_Stat = Inr (True, 0x180)\<rparr>),
       ld_members := (\<lambda>_. Some [''kid'']),
       ld_keyfile := (\<lambda>raw. Inr (generated (example_env []) (if raw = [CHR ''w'', CHR 0x0A]
         then example_workload_key ''wl-1'' else idp_signer), []))\<rparr>)
    (tool_env.fields (\<lambda>_. Inl ''none'')
      (\<lambda>_. Inr ((map (signer_PublicJWK (example_env [])) [example_workload_key ''wl-1'', idp_signer], []), []))
      (\<lambda>kf. take 1 (kf_kid kf)) (\<lambda>_. ''jwks''))"

lemma example_generated:
  "generated (example_env cs) s = generated (example_env []) s"
  "generated (example_http_env_for cs pcs) s = generated (example_env []) s"
  "signer_PublicJWK (example_env cs) s = signer_PublicJWK (example_env []) s"
  by (simp_all add: generated_def GenerateEd25519_def signer_PublicJWK_def example_http_env_for_def
      example_dpop_env_def dpop_env.defs sts_http_env.defs token_env.defs example_env_def)

lemma example_on_disk:
  "key_on_disk example_tool_env ''w.json'' (generated (example_env []) (example_workload_key ''wl-1''))"
  "key_on_disk example_tool_env ''i.json'' (generated (example_env []) idp_signer)"
  by (simp_all add: key_on_disk_def example_tool_env_def load_env.defs tool_env.defs example_load_def
      secret_file_def json_decode_def example_workload_key_def idp_signer_def generated_def GenerateEd25519_def Let_def)

lemma example_minted_codec:
  assumes "example_minted_actor \<in> set cs" "sg_sub s = ''wl-1''" "now = 500 * second"
  shows "codec_ok (example_env cs) \<lparr>h_alg = ''EdDSA'', h_typ = ''JWT'', h_kid = kid\<rparr>
    (actor_claims (generated E s) ''wl'' ''sts'' now ''0123456789abcdef'')"
proof -
  have "actor_claims (generated E s) ''wl'' ''sts'' now ''0123456789abcdef'' = example_minted_actor"
    using assms(2,3) by (simp add: example_minted_actor_def actor_claims_def example_actor_keyfile_def example_workload_key_def)
  with assms(1) show ?thesis by simp
qed

lemma example_actor_issuer: "actor_issuer kf ''wl'' = ''wl''"
proof -
  have "TrimSpace ''wl'' = ''wl''" by code_simp
  then show ?thesis by (simp add: actor_issuer_def Let_def)
qed

theorem key_tools_fit_witness:
  "cmdKeysJWKS example_tool_env [''-in'', ''w.json'', ''-in'', ''i.json'', ''-out'', ''jwks.json''] =
      Inr (Out_File ''jwks.json'' (''jwks'' @ [CHR 0x0A])) \<and>
    (\<exists>ks. loadJWKS example_tool_env ''jwks.json'' = Inr ks \<and> length ks = 2)"
proof -
  let ?E = "example_env example_mint_cs" and ?ss = "[example_workload_key ''wl-1'', idp_signer]"
  have fits: "cmdKeysJWKS example_tool_env (concat (map (\<lambda>p. [''-in'', p]) [''w.json'', ''i.json'']) @ [''-out'', ''jwks.json'']) =
      Inr (Out_File ''jwks.json'' (''jwks'' @ [CHR 0x0A])) \<and>
    (\<exists>ks kf tok. loadJWKS example_tool_env ''jwks.json'' = Inr ks \<and>
      loadSecretKey example_tool_env ([''w.json'', ''i.json''] ! 0) = Inr kf \<and>
      signActorToken ?E kf ''wl'' ''sts'' (500 * second) ''0123456789abcdef'' = Inr tok \<and>
      LocalKeys_Attest ?E (Some \<lparr>lk_Keys = ks, lk_Audience = ''sts'', lk_Now = Some 500\<rparr>) tok =
        Inr \<lparr>wi_ID = sg_sub (?ss ! 0), wi_Issuer = actor_issuer kf ''wl'', wi_JTI = randomJTI ''act'' ''0123456789abcdef'',
          wi_PossessedJKT = projr (Thumbprint ?E (signer_PublicJWK ?E (?ss ! 0)))\<rparr>)"
    by (rule key_tools_fit[where ss = ?ss and n = 0])
      (simp_all add: example_on_disk example_generated[of example_mint_cs], simp_all add: example_actor_issuer example_minted_codec example_mint_cs_def
        example_workload_key_def idp_signer_def
        example_tool_env_def load_env.defs tool_env.defs example_load_def json_decode_def unix_def i64_def not_blank_letter)
  moreover have "loadJWKS example_tool_env ''jwks.json'' =
      Inr (map (signer_PublicJWK (example_env [])) [example_workload_key ''wl-1'', idp_signer])"
    by (simp add: loadJWKS_def example_tool_env_def load_env.defs tool_env.defs example_load_def json_decode_def Let_def)
  ultimately show ?thesis by simp
qed

text \<open>C16: A token from \<^verbatim>\<open>token mint\<close> is bound to the actor key. The token the command prints is one that
  \<^verbatim>\<open>Exchange\<close> minted in the service for the agent, audience and scope of the command line, and it
  confirms the key that \<^verbatim>\<open>-actor-key\<close> holds, although the command proves no possession of it.\<close>

theorem mint_bound_to_actor_key:
  assumes minted: "mintAccessToken L H N X (\<lambda>r. Inr (wire (fst (handleToken H c i (net r))))) mi f = Inr tok"
    and client: "new_request_ok X"
      "\<And>endpoint actor subject out. mintEndpoint N (mf_sts f) = Inr endpoint \<Longrightarrow>
        mint_tokens L H mi f = Inr (actor, subject) \<Longrightarrow>
        exchanger_request H X endpoint None (mint_request f subject actor) = Inr out \<Longrightarrow>
        delivers out (net out) \<and> answer_readable X shown wire (fst (handleToken H c i (net out)))"
    and server: "ti_allow i" "ti_read_ok i" "he_ParseMediaType H form_media = Some form_media"
      "\<And>actor subject. mint_tokens L H mi f = Inr (actor, subject) \<Longrightarrow>
        length (form_Encode (exchange_form (mint_request f subject actor))) \<le> maxTokenBody"
    and key: "key_on_disk L (mf_actor_key f) (generated H s)" "length (sg_seed s) = 32" "sg_kid s \<noteq> []"
      "ed25519_laws H (sg_seed s)"
    and attestor: "st_Attestor c = Some (Att_LocalKeys (Some \<lparr>lk_Keys = ks, lk_Audience = mf_issuer f, lk_Now = Some at\<rparr>))"
      "signer_PublicJWK H s \<in> set ks" "distinct (map k_kid ks)"
    and codec: "codec_ok H \<lparr>h_alg = ''EdDSA'', h_typ = ''JWT'', h_kid = sg_kid s\<rparr>
      (actor_claims (generated H s) (actor_issuer (generated H s) (mf_actor_iss f)) (mf_issuer f)
        (mi_now mi) (mi_rand_actor mi))"
    and clock: "unix (mi_now mi) + 300 \<noteq> 0" "at \<le> unix (mi_now mi) + 300"
  shows "\<exists>req res c'. Exchange (exchange_env H) c (ti_call i) req = (res, c') \<and>
    xr_ReasonCode res = ReasonOK \<and> xr_Token res = tok \<and>
    rq_AgentID req = mf_agent_id f \<and> rq_Audience req = mf_audience f \<and> rq_Scope req = mf_scope f \<and>
    ConfirmJKT (xr_Issued res) = projr (Thumbprint H (signer_PublicJWK H s))"
proof -
  let ?do = "\<lambda>r. Inr (wire (fst (handleToken H c i (net r))))"
  from minted obtain endpoint actor subject res0 where ep: "mintEndpoint N (mf_sts f) = Inr endpoint"
    and t: "mint_tokens L H mi f = Inr (actor, subject)"
    and x: "HTTPExchanger H X ?do endpoint None (mint_request f subject actor) = (res0, None)"
      "xr_ReasonCode res0 = ReasonOK" "xr_Token res0 = tok"
    by (auto simp: mintAccessToken_def split: option.splits sum.splits prod.splits if_splits)
  let ?q = "mint_request f subject actor"
  from x(1) obtain out where out: "exchanger_request H X endpoint None ?q = Inr out"
    by (cases "exchanger_request H X endpoint None ?q") (simp_all add: HTTPExchanger_def)
  obtain res c' where e: "Exchange (exchange_env H) c (ti_call i) (posted ?q []) = (res, c')" by fastforce
  have "HTTPExchanger H X ?do endpoint None ?q =
      client_view shown (fst (Exchange (exchange_env H) c (ti_call i) (posted ?q [])))"
    by (rule unproved_exchange[where out = out])
      (use client(1) out client(2)[OF ep t out] server(1-3) server(4)[OF t] in simp_all)
  then have "(res0, None) = client_view shown res" using x(1) e by simp
  then have ok: "xr_ReasonCode res = ReasonOK" "xr_Token res = tok"
    using x(3) by (auto simp: client_view_def Let_def failed_result_def split: if_splits)
  from e ok(1) obtain wl ag sub b where m: "mints (exchange_env H) c (ti_call i) (posted ?q []) wl ag sub b
      (xr_Issued res) (xr_Token res) (st_Replay c')" by (rule Exchange_minted)
  have "loadSecretKey L (mf_actor_key f) = Inr (generated H s)" by (rule loadSecretKey_key[OF key(1)]) (simp add: key(3))
  then have sign: "\<not> is_blank (sg_sub s)"
    "signActorToken H (generated H s) (mf_actor_iss f) (mf_issuer f) (mi_now mi) (mi_rand_actor mi) = Inr actor"
    using t by (auto simp: mint_tokens_def split: sum.splits if_splits)
  have "LocalKeys_Attest H (Some \<lparr>lk_Keys = ks, lk_Audience = mf_issuer f, lk_Now = Some at\<rparr>) actor =
      Inr \<lparr>wi_ID = sg_sub s, wi_Issuer = actor_issuer (generated H s) (mf_actor_iss f),
        wi_JTI = randomJTI ''act'' (mi_rand_actor mi), wi_PossessedJKT = projr (Thumbprint H (signer_PublicJWK H s))\<rparr>"
    by (rule actor_token_attests[OF sign(2) key(2,3) sign(1) key(4) attestor(2,3) codec clock])
  moreover have "Attest (exchange_env H) (the (st_Attestor c)) actor = Inr wl"
    using mints_confirm(2)[OF m] by (simp add: posted_def mint_request_def)
  ultimately have "wi_PossessedJKT wl = projr (Thumbprint H (signer_PublicJWK H s))"
    using LocalKeys_Attest_agree[of "exchange_env H" H] by (auto simp: attestor(1))
  then have "ConfirmJKT (xr_Issued res) = projr (Thumbprint H (signer_PublicJWK H s))"
    using mints_confirm(1)[OF m] by (simp add: posted_def is_blank_def)
  with e ok show ?thesis
    by (intro exI[of _ "posted ?q []"] exI[of _ res] exI[of _ c']) (simp add: posted_def mint_request_def)
qed

text \<open>Agent a mints a token for agent b with the example service.\<close>

definition example_mint_env :: mint_env where
  "example_mint_env = net_env.extend example_net
    (mint_env.fields (\<lambda>raw. Some (''sts'', [], \<lambda>p. ''https://sts'' @ p)))"

definition example_mint_flags :: mint_flags where
  "example_mint_flags =
    \<lparr>mf_sts = ''https://sts'', mf_issuer = ''sts'', mf_idp_key = [], mf_idp_issuer = [], mf_user = [],
     mf_subject_token = rq_SubjectToken (user_request example_mint_cs), mf_actor_key = ''w.json'',
     mf_actor_iss = ''wl'', mf_agent_id = ''agent://a'', mf_audience = ''agent://b'', mf_scope = [], mf_args = []\<rparr>"

definition example_mint_inputs :: mint_inputs where
  "example_mint_inputs =
    \<lparr>mi_now = 500 * second, mi_rand_actor = ''0123456789abcdef'', mi_rand_user = []\<rparr>"

definition example_mint_http :: sts_http_env where
  "example_mint_http = example_http_env_for example_mint_cs []"

definition example_mint :: "mint_error + bytes" where
  "example_mint = mintAccessToken example_tool_env example_mint_http example_mint_env example_client
    (\<lambda>r. Inr (example_wire (fst (handleToken example_mint_http (example_config example_mint_cs) example_token_inputs r))))
    example_mint_inputs example_mint_flags"

lemma example_mint_simps:
  "signer_SignClaims example_mint_http s c = signer_SignClaims (example_env example_mint_cs) s c"
  "signer_PublicJWK example_mint_http s = signer_PublicJWK (example_env example_mint_cs) s"
  "exchange_env example_mint_http = example_sts_env example_mint_cs"
  "Thumbprint example_mint_http j = Thumbprint (example_env example_mint_cs) j"
  "ed25519_laws example_mint_http seed" "he_ParseMediaType example_mint_http m = Some m"
  "generated example_mint_http s = generated (example_env []) s"
  "codec_ok example_mint_http h c = codec_ok (example_env example_mint_cs) h c"
  by (simp_all add: example_mint_http_def example_generated(2))

lemma example_mint_key: "loadSecretKey example_tool_env ''w.json'' = Inr (generated (example_env []) (example_workload_key ''wl-1''))"
  by (rule loadSecretKey_key[OF example_on_disk(1)]) (simp add: example_workload_key_def)

lemma example_mint_signs:
  "signActorToken example_mint_http (generated (example_env []) (example_workload_key ''wl-1'')) ''wl'' ''sts'' (500 * second)
    ''0123456789abcdef'' =
    Inr (signer_SignClaims (example_env example_mint_cs) (example_workload_key ''wl-1'') example_minted_actor)"
proof -
  have "length (sg_seed (example_workload_key ''wl-1'')) = 32" by (simp add: example_workload_key_def)
  then show ?thesis
    by (simp add: signActorToken_def example_actor_issuer example_mint_simps Let_def)
      (simp add: example_minted_actor_def example_actor_keyfile_def)
qed

lemma example_mint_tokens:
  "mint_tokens example_tool_env example_mint_http example_mint_inputs example_mint_flags =
    Inr (signer_SignClaims (example_env example_mint_cs) (example_workload_key ''wl-1'') example_minted_actor,
      rq_SubjectToken (user_request example_mint_cs))"
proof -
  have "rq_SubjectToken (user_request example_mint_cs) \<noteq> []"
    using example_token_not_blank(2)[of example_mint_cs user_claims] by (auto simp: user_request_def is_blank_def)
  moreover have "sg_sub (example_workload_key ''wl-1'') = ''wl-1''" by (simp add: example_workload_key_def)
  ultimately show ?thesis
    using example_mint_signs
    by (simp add: mint_tokens_def example_mint_flags_def example_mint_key example_mint_inputs_def not_blank_letter)
qed

lemma example_mint_attests:
  "LocalKeys_Attest example_mint_http (Some \<lparr>lk_Keys = [signer_PublicJWK example_mint_http (example_workload_key ''wl-1'')],
      lk_Audience = ''sts'', lk_Now = Some 500\<rparr>)
    (signer_SignClaims (example_env example_mint_cs) (example_workload_key ''wl-1'') example_minted_actor) =
    Inr \<lparr>wi_ID = sg_sub (example_workload_key ''wl-1''), wi_Issuer = actor_issuer (generated example_mint_http (example_workload_key ''wl-1'')) ''wl'',
      wi_JTI = randomJTI ''act'' ''0123456789abcdef'',
      wi_PossessedJKT = projr (Thumbprint example_mint_http (signer_PublicJWK example_mint_http (example_workload_key ''wl-1'')))\<rparr>"
  by (rule actor_token_attests[where now = "500 * second", OF example_mint_signs[folded example_mint_simps(7)]])
    (simp_all add: example_mint_simps example_actor_issuer example_minted_codec example_mint_cs_def,
     simp_all add: example_workload_key_def not_blank_letter unix_def i64_def example_minted_codec)

definition example_mint_request :: exchange_request where
  "example_mint_request = mint_request example_mint_flags (rq_SubjectToken (user_request example_mint_cs))
    (signer_SignClaims (example_env example_mint_cs) (example_workload_key ''wl-1'') example_minted_actor)"

lemma example_mint_answer:
  obtains res c' where "Exchange (example_sts_env example_mint_cs) (example_config example_mint_cs) example_inputs
      (posted example_mint_request []) = (res, c')"
    "xr_ReasonCode res = ReasonOK" "xr_Token res \<noteq> []"
proof -
  let ?q = "posted example_mint_request []"
  define wl where "wl = \<lparr>wi_ID = ''wl-1'', wi_Issuer = ''wl'', wi_JTI = randomJTI ''act'' ''0123456789abcdef'',
    wi_PossessedJKT = example_jkt example_mint_cs\<rparr>"
  have q: "first_request example_mint_cs ?q"
    by (simp add: first_request_def example_mint_request_def posted_def mint_request_def example_mint_flags_def)
  have "Attest (example_sts_env example_mint_cs) (the (st_Attestor (example_config example_mint_cs))) (rq_ActorToken ?q) = Inr wl"
    using example_mint_attests LocalKeys_Attest_agree[of example_mint_http "example_sts_env example_mint_cs"]
      exchange_env_simps(1)[of example_mint_http]
    by (simp add: example_config_def example_mint_simps example_actor_issuer wl_def example_mint_request_def posted_def
        mint_request_def example_workload_key_def)
      (simp add: example_jkt_def example_workload_key_def)
  then have w: "first_workload example_mint_cs ?q wl"
    using example_token_not_blank(1)[of example_mint_cs "''wl-1''" example_minted_actor]
    by (simp add: first_workload_def wl_def example_mint_request_def posted_def mint_request_def)
  have "example_jkt example_mint_cs \<noteq> []"
    by (rule Thumbprint_nonempty[OF example_thumbprint]) (simp add: example_env_def)
  then have "first_key ?q wl \<noteq> []" by (simp add: first_key_def posted_def wl_def)
  moreover have "user_claims \<in> set example_mint_cs" by (simp add: example_mint_cs_def)
  ultimately obtain res c' where "Exchange (example_sts_env example_mint_cs)
      ((example_config example_mint_cs)\<lparr>st_Replay := st_Replay (example_config example_mint_cs)\<rparr>) example_inputs ?q = (res, c')"
    "xr_ReasonCode res = ReasonOK"
    "xr_Token res = signer_SignClaims (example_env example_mint_cs) sts_signer (first_token_for (first_key ?q wl))"
    using example_first_answer_for[OF _ q w, where rc = "st_Replay (example_config example_mint_cs)"] by metis
  moreover have "signer_SignClaims E s c \<noteq> []" for E :: token_env and s c
    by (simp add: signer_SignClaims_def signer_Sign_def Let_def)
  ultimately show ?thesis using that[of res c'] by simp
qed

lemma example_mint_length:
  "length (form_Encode (exchange_form example_mint_request)) \<le> maxTokenBody"
proof -
  have "length (signer_SignClaims (example_env example_mint_cs) s c) \<le> 1000" if "length (sg_kid s) \<le> 4" for s c
    using example_token_length[of example_mint_cs s c] that by (simp add: example_mint_cs_def)
  then have "length (rq_SubjectToken (user_request example_mint_cs)) \<le> 1000"
    "length (signer_SignClaims (example_env example_mint_cs) (example_workload_key ''wl-1'') example_minted_actor) \<le> 1000"
    by (simp_all add: user_request_def idp_signer_def example_workload_key_def)
  then show ?thesis
    by (intro order_trans[OF form_Encode_length])
      (simp add: exchange_form_def GrantTokenExchange_def TokenTypeJWT_def example_mint_request_def mint_request_def
        example_mint_flags_def maxTokenBody_def)
qed

lemma example_mint_net:
  "new_request_ok example_client"
  "exchanger_request H example_client endpoint None q = Inr out \<Longrightarrow> delivers out out"
  by (auto simp: new_request_ok_def example_client_def example_token_post_def body_bytes_def)
    (auto simp: exchanger_request_def example_client_def Let_def
      intro!: example_post_delivers[unfolded example_token_post_def])

lemma example_mint_runs: "\<exists>tok. example_mint = Inr tok"
proof -
  let ?do = "\<lambda>r. Inr (example_wire (fst (handleToken example_mint_http (example_config example_mint_cs) example_token_inputs r)))"
  obtain res c' where x: "Exchange (example_sts_env example_mint_cs) (example_config example_mint_cs) example_inputs
      (posted example_mint_request []) = (res, c')" "xr_ReasonCode res = ReasonOK" "xr_Token res \<noteq> []"
    by (rule example_mint_answer)
  obtain out where out: "exchanger_request example_mint_http example_client ''https://sts/oauth/token'' None example_mint_request = Inr out"
    by (simp add: exchanger_request_def example_client_def Let_def)
  have "HTTPExchanger example_mint_http example_client ?do ''https://sts/oauth/token'' None example_mint_request =
      client_view (\<lambda>_. ''refused'') (fst (Exchange (exchange_env example_mint_http) (example_config example_mint_cs)
        (ti_call example_token_inputs) (posted example_mint_request [])))"
    by (rule unproved_exchange[where net = "\<lambda>r. r", OF example_mint_net(1) out example_mint_net(2)[OF out] example_answer_readable])
      (use example_mint_length in \<open>simp_all add: example_token_inputs_def example_mint_simps\<close>)
  then have "HTTPExchanger example_mint_http example_client ?do ''https://sts/oauth/token'' None example_mint_request =
      client_view (\<lambda>_. ''refused'') res"
    by (simp add: example_token_inputs_def example_mint_simps x(1))
  moreover have "mint_usage example_mint_flags = None"
    using example_token_not_blank(2)[of example_mint_cs user_claims]
    by (auto simp: mint_usage_def example_mint_flags_def user_request_def is_blank_def Let_def)
  moreover have "mintEndpoint example_mint_env (mf_sts example_mint_flags) = Inr ''https://sts/oauth/token''"
  proof -
    have "map ascii_lower ''https'' = ''https''" by code_simp
    then show ?thesis
      by (simp add: mintEndpoint_def example_mint_env_def net_env.defs mint_env.defs CheckJWKSURL_def example_net_def)
  qed
  ultimately show ?thesis
    by (simp add: example_mint_def mintAccessToken_def example_mint_tokens client_view_def x(2,3) failed_result_def
        flip: example_mint_request_def)
qed

theorem mint_bound_to_actor_key_witness:
  "\<exists>tok req res c'. example_mint = Inr tok \<and>
    Exchange (example_sts_env example_mint_cs) (example_config example_mint_cs) example_inputs req = (res, c') \<and>
    xr_Token res = tok \<and> rq_AgentID req = ''agent://a'' \<and> ConfirmJKT (xr_Issued res) = example_jkt example_mint_cs"
proof -
  obtain tok where tok: "example_mint = Inr tok" using example_mint_runs by blast
  have key: "key_on_disk example_tool_env (mf_actor_key example_mint_flags) (generated example_mint_http (example_workload_key ''wl-1''))"
    using example_on_disk(1) by (simp add: example_mint_simps example_mint_flags_def)
  have "\<exists>req res c'. Exchange (exchange_env example_mint_http) (example_config example_mint_cs) (ti_call example_token_inputs) req = (res, c') \<and>
    xr_ReasonCode res = ReasonOK \<and> xr_Token res = tok \<and>
    rq_AgentID req = mf_agent_id example_mint_flags \<and> rq_Audience req = mf_audience example_mint_flags \<and>
    rq_Scope req = mf_scope example_mint_flags \<and>
    ConfirmJKT (xr_Issued res) = projr (Thumbprint example_mint_http (signer_PublicJWK example_mint_http (example_workload_key ''wl-1'')))"
    by (rule mint_bound_to_actor_key[where net = "\<lambda>r. r" and ks = "[signer_PublicJWK example_mint_http (example_workload_key ''wl-1'')]"
          and at = 500 and shown = "\<lambda>_. ''refused''", OF tok[unfolded example_mint_def] example_mint_net(1) _ _ _ _ _ key])
      (use example_mint_net(2) example_answer_readable example_mint_length in \<open>simp_all add: example_mint_simps example_mint_tokens example_token_inputs_def\<close>,
       simp_all add: example_mint_flags_def example_mint_inputs_def example_workload_key_def example_config_def
        example_mint_simps example_mint_request_def unix_def i64_def example_actor_issuer example_minted_codec example_mint_cs_def)
  then show ?thesis
    using tok by (auto simp: example_mint_simps example_mint_flags_def example_jkt_def example_token_inputs_def)
qed

end
