(* ===== verification/Visor_Command.thy ===== *)
theory Visor_Command
  imports Reload Key_Tools Session_Properties
begin

text \<open>
  \<^verbatim>\<open>visor-session\<close> of \<^verbatim>\<open>cmd/agent-identity-plane\<close>, from its parsed flags to the process that replaces it:
  the key file, the fetched mapping, the command line, the pipe with the actor context and the table of
  open files that the new process gets. The kernel is the record \<open>visor_os\<close>: what each call answers, and
  which files are open at the start.

  The loop that fills the pipe ends only if the kernel takes bytes or reports an error, so it is a
  partial function: \<open>None\<close> is a loop that runs for ever.
\<close>

section \<open>The pipe\<close>

datatype errno = EINTR | EAGAIN | EWOULDBLOCK | Errno bytes

datatype open_file = Pipe_Read | Pipe_Write | Inherited bytes

record visor_os =
  vo_environ :: "bytes list"
  vo_files :: "nat \<rightharpoonup> open_file \<times> bool"
  vo_LookPath :: "bytes \<Rightarrow> bytes + bytes"
  vo_pipe :: "bytes + (nat \<times> nat)"
  vo_nonblock :: "bytes option"
  vo_write :: "nat \<Rightarrow> bytes \<Rightarrow> int \<times> errno option"
  vo_close :: "bytes option"
  vo_dup2 :: "bytes option"
  vo_setfd :: "bytes option"
  vo_exec :: "bytes option"

datatype exec_error = Exec_OS bytes | Exec_NoContext | Exec_TooLarge | Exec_Capacity | Exec_Errno errno

text \<open>The loop: \<open>W k rest\<close> is the answer to the call number \<open>k\<close>. The result is the error and how much was
  taken.\<close>

partial_function (option) write_loop ::
  "(nat \<Rightarrow> bytes \<Rightarrow> int \<times> errno option) \<Rightarrow> bytes \<Rightarrow> nat \<Rightarrow> nat \<Rightarrow> (exec_error option \<times> nat) option" where
  "write_loop W data k wrote =
    (if wrote < length data then
       (let n = fst (W k (drop wrote data)); e = snd (W k (drop wrote data));
            wrote' = (if n > 0 then wrote + nat n else wrote)
        in if e = None then write_loop W data (Suc k) wrote'
           else if e = Some EINTR then write_loop W data (Suc k) wrote'
           else if e = Some EAGAIN \<or> e = Some EWOULDBLOCK then Some (Some Exec_Capacity, wrote')
           else Some (Some (Exec_Errno (the e)), wrote'))
     else Some (None, wrote))"

definition writeActorPipe :: "visor_os \<Rightarrow> bytes \<Rightarrow> (exec_error option \<times> nat) option" where
  "writeActorPipe os actorJSON =
    (case vo_nonblock os of
       Some e \<Rightarrow> Some (Some (Exec_OS e), 0)
     | None \<Rightarrow> write_loop (vo_write os) actorJSON 0 0)"

section \<open>The new process\<close>

record child =
  ch_Path :: bytes
  ch_Argv :: "bytes list"
  ch_Env :: "bytes list"
  ch_Files :: "nat \<rightharpoonup> open_file"
  ch_Pipe :: bytes

text \<open>A file is open in the new process if it is open and not marked to be closed.\<close>

definition kept_files :: "(nat \<rightharpoonup> open_file \<times> bool) \<Rightarrow> (nat \<rightharpoonup> open_file)" where
  "kept_files t fd = (case t fd of Some (f, False) \<Rightarrow> Some f | _ \<Rightarrow> None)"

text \<open>The table after the write end is closed, the read end is number three, and the mark of number
  three is cleared.\<close>

definition child_files :: "(nat \<rightharpoonup> open_file \<times> bool) \<Rightarrow> nat \<Rightarrow> nat \<Rightarrow> (nat \<rightharpoonup> open_file \<times> bool)" where
  "child_files t rfd wfd =
    (let t1 = (t(rfd \<mapsto> (Pipe_Read, True), wfd \<mapsto> (Pipe_Write, True)))(wfd := None);
         t2 = (if rfd = ActorFD then t1 else (t1(ActorFD := map_option (apsnd (\<lambda>_. False)) (t1 rfd)))(rfd := None))
     in t2(ActorFD := map_option (apsnd (\<lambda>_. False)) (t2 ActorFD)))"

definition execVisor :: "visor_os \<Rightarrow> bytes \<Rightarrow> bytes list \<Rightarrow> bytes \<Rightarrow> (exec_error + child) option" where
  "execVisor os name args actorJSON =
    (case vo_LookPath os name of
       Inl e \<Rightarrow> Some (Inl (Exec_OS e))
     | Inr path \<Rightarrow>
         if actorJSON = [] then Some (Inl Exec_NoContext)
         else if length actorJSON > MaxActorJSONBytes then Some (Inl Exec_TooLarge)
         else (case vo_pipe os of
           Inl e \<Rightarrow> Some (Inl (Exec_OS e))
         | Inr (rfd, wfd) \<Rightarrow> (case writeActorPipe os actorJSON of
             None \<Rightarrow> None
           | Some (Some e, _) \<Rightarrow> Some (Inl e)
           | Some (None, wrote) \<Rightarrow>
               Some (case (vo_close os, vo_dup2 os, vo_setfd os, vo_exec os) of
                  (Some e, _) \<Rightarrow> Inl (Exec_OS e)
                | (None, Some e, _) \<Rightarrow> Inl (Exec_OS e)
                | (None, None, Some e, _) \<Rightarrow> Inl (Exec_OS e)
                | (None, None, None, Some e) \<Rightarrow> Inl (Exec_OS e)
                | (None, None, None, None) \<Rightarrow>
                    Inr \<lparr>ch_Path = path, ch_Argv = path # args, ch_Env = ChildEnv (vo_environ os),
                      ch_Files = kept_files (child_files (vo_files os) rfd wfd), ch_Pipe = take wrote actorJSON\<rparr>))))"

section \<open>The command\<close>

record session_flags =
  sf_gateway :: bytes
  sf_token :: bytes
  sf_dpop_key :: bytes
  sf_visor_bin :: bytes
  sf_print :: bool
  sf_args :: "bytes list"

datatype visor_command_error =
    Vc_Usage | Vc_Session session_error | Vc_Tool tool_error | Vc_Visor visor_error | Vc_Exec exec_error

datatype visor_run = Printed bytes | Replaced child

text \<open>\<^verbatim>\<open>os.Getenv\<close>: the first entry of that name.\<close>

fun Getenv :: "bytes list \<Rightarrow> bytes \<Rightarrow> bytes" where
  "Getenv [] k = []"
| "Getenv (e # env) k =
    (case strings_Cut CHR ''='' e of (name, v, found) \<Rightarrow> if found \<and> name = k then v else Getenv env k)"

definition session_token :: "visor_os \<Rightarrow> session_flags \<Rightarrow> bytes" where
  "session_token os f = (if sf_token f = [] then Getenv (vo_environ os) AccessTokenEnv else sf_token f)"

definition cmdVisorSession ::
  "('a session_env_scheme) \<Rightarrow> ('b load_env_scheme) \<Rightarrow> visor_os \<Rightarrow> (http_request \<Rightarrow> bytes + bytes http_response) \<Rightarrow>
    (http_request \<Rightarrow> bytes + bytes http_response) \<Rightarrow> instant \<Rightarrow> bytes \<Rightarrow> bytes \<Rightarrow> session_flags \<Rightarrow>
    (visor_command_error + visor_run) option" where
  "cmdVisorSession S L os send1 send2 now rnd1 rnd2 f =
    (case RejectIdentityArgs (sf_args f) of
       Some e \<Rightarrow> Some (Inl (Vc_Session e))
     | None \<Rightarrow>
         if sf_gateway f = [] \<or> sf_dpop_key f = [] then Some (Inl Vc_Usage)
         else (case LoadProofKey L (sf_dpop_key f) of
           Inl e \<Rightarrow> Some (Inl (Vc_Tool e))
         | Inr kf \<Rightarrow> (case Fetch S send1 send2 now rnd1 rnd2
               \<lparr>sr_GatewayURL = sf_gateway f, sr_Token = session_token os f, sr_ProofKey = Some kf\<rparr> now of
             Inl e \<Rightarrow> Some (Inl (Vc_Session e))
           | Inr m \<Rightarrow> (case Command (se_visor S) (sf_visor_bin f) m (sf_args f) of
               Inl e \<Rightarrow> Some (Inl (Vc_Session e))
             | Inr (name, argv) \<Rightarrow>
                 if sf_print f then Some (Inr (Printed (FormatArgv name argv)))
                 else (case EncodeContext (se_visor S) (mp_VerifiedActor m) of
                   Inl e \<Rightarrow> Some (Inl (Vc_Visor e))
                 | Inr raw \<Rightarrow> (case execVisor os name argv raw of
                     None \<Rightarrow> None
                   | Some (Inl e) \<Rightarrow> Some (Inl (Vc_Exec e))
                   | Some (Inr c) \<Rightarrow> Some (Inr (Replaced c))))))))"

section \<open>The loop ends\<close>

text \<open>A call moves nothing if it takes no byte and the loop repeats it. A progressing kernel that is asked
  for the same bytes again and again in the end takes some of them or reports an error that ends the loop;
  between, it may answer nothing, or interrupt, as often as it likes.\<close>

definition stalled :: "int \<times> errno option \<Rightarrow> bool" where
  "stalled a \<longleftrightarrow> fst a \<le> 0 \<and> (snd a = None \<or> snd a = Some EINTR)"

definition progressing :: "(nat \<Rightarrow> bytes \<Rightarrow> int \<times> errno option) \<Rightarrow> bool" where
  "progressing W \<longleftrightarrow> (\<forall>k b. b \<noteq> [] \<longrightarrow> (\<exists>j \<ge> k. \<not> stalled (W j b)))"

definition taken :: "int \<Rightarrow> nat \<Rightarrow> nat" where
  "taken n wrote = (if n > 0 then wrote + nat n else wrote)"

lemma write_loop_done: "\<not> wrote < length data \<Longrightarrow> write_loop W data k wrote = Some (None, wrote)"
  by (subst write_loop.simps) simp

lemma write_loop_more:
  assumes "wrote < length data" "W k (drop wrote data) = (n, e)" "e = None \<or> e = Some EINTR"
  shows "write_loop W data k wrote = write_loop W data (Suc k) (taken n wrote)"
  by (subst write_loop.simps) (use assms in \<open>auto simp: Let_def taken_def\<close>)

lemma write_loop_error:
  assumes "wrote < length data" "W k (drop wrote data) = (n, Some e)" "e \<noteq> EINTR"
  shows "\<exists>x w. write_loop W data k wrote = Some (Some x, w)"
  by (subst write_loop.simps) (use assms in \<open>auto simp: Let_def\<close>)

lemma write_loop_stalls:
  assumes "wrote < length data" "k \<le> j" "\<forall>i. k \<le> i \<and> i < j \<longrightarrow> stalled (W i (drop wrote data))"
  shows "write_loop W data k wrote = write_loop W data j wrote"
  using assms(2,3)
proof (induction j rule: dec_induct)
  case (step m)
  obtain n e where m: "W m (drop wrote data) = (n, e)" by fastforce
  then have "n \<le> 0" "e = None \<or> e = Some EINTR" using step.prems step.hyps by (auto simp: stalled_def dest!: spec[of _ m])
  with write_loop_more[of wrote data W m n e] assms(1) m
  have "write_loop W data m wrote = write_loop W data (Suc m) wrote" by (simp add: taken_def)
  with step show ?case by simp
qed simp

lemma write_loop_ends:
  assumes "progressing W"
  shows "\<exists>e w. write_loop W data k wrote = Some (e, w)"
proof (induction "length data - wrote" arbitrary: k wrote rule: less_induct)
  case less
  show ?case
  proof (cases "wrote < length data")
    case True
    then have "\<exists>j. k \<le> j \<and> \<not> stalled (W j (drop wrote data))" using assms by (simp add: progressing_def)
    then obtain j where j: "k \<le> j" "\<not> stalled (W j (drop wrote data))"
      and before: "\<forall>i < j. \<not> (k \<le> i \<and> \<not> stalled (W i (drop wrote data)))"
      using exists_least_iff[of "\<lambda>j. k \<le> j \<and> \<not> stalled (W j (drop wrote data))"] by blast
    obtain n e where W: "W j (drop wrote data) = (n, e)" by fastforce
    have "\<exists>x w. write_loop W data j wrote = Some (x, w)"
    proof (cases "e = None \<or> e = Some EINTR")
      case more: True
      with j(2) W True have "length data - taken n wrote < length data - wrote" by (auto simp: stalled_def taken_def)
      from less[OF this] write_loop_more[of wrote data W j n e, OF True W more] show ?thesis by simp
    next
      case False
      then show ?thesis using write_loop_error[of wrote data W j n "the e"] True W by (cases e) auto
    qed
    then show ?thesis using write_loop_stalls[OF True j(1)] before by simp
  qed (simp add: write_loop_done)
qed

text \<open>Without an error everything was taken.\<close>

lemma write_loop_whole:
  assumes "write_loop W data k wrote = Some r"
  shows "fst r = None \<longrightarrow> length data \<le> snd r"
proof (rule write_loop.raw_induct[where P = "\<lambda>W data k wrote r. fst r = None \<longrightarrow> length data \<le> snd r", OF _ assms])
  fix f :: "(nat \<Rightarrow> bytes \<Rightarrow> int \<times> errno option) \<Rightarrow> bytes \<Rightarrow> nat \<Rightarrow> nat \<Rightarrow> (exec_error option \<times> nat) option"
    and W :: "nat \<Rightarrow> bytes \<Rightarrow> int \<times> errno option" and data :: bytes and k wrote :: nat and r :: "exec_error option \<times> nat"
  assume IH: "\<And>W data k wrote r. f W data k wrote = Some r \<Longrightarrow> fst r = None \<longrightarrow> length data \<le> snd r"
    and eq: "(if wrote < length data then
       (let n = fst (W k (drop wrote data)); e = snd (W k (drop wrote data));
            wrote' = (if n > 0 then wrote + nat n else wrote)
        in if e = None then f W data (Suc k) wrote'
           else if e = Some EINTR then f W data (Suc k) wrote'
           else if e = Some EAGAIN \<or> e = Some EWOULDBLOCK then Some (Some Exec_Capacity, wrote')
           else Some (Some (Exec_Errno (the e)), wrote'))
     else Some (None, wrote)) = Some r"
  show "fst r = None \<longrightarrow> length data \<le> snd r"
    using eq by (auto simp: Let_def dest: IH split: if_splits)
qed

lemma writeActorPipe_whole: "writeActorPipe os data = Some (None, w) \<Longrightarrow> length data \<le> w"
  using write_loop_whole by (fastforce simp: writeActorPipe_def split: option.splits)

text \<open>A kernel that interrupts every call keeps the loop going.\<close>

lemma write_loop_forever: "data \<noteq> [] \<Longrightarrow> write_loop (\<lambda>_ _. (-1, Some EINTR)) data k 0 = None"
proof (rule ccontr)
  assume "data \<noteq> []" "write_loop (\<lambda>_ _. (-1, Some EINTR)) data k 0 \<noteq> None"
  then obtain r where r: "write_loop (\<lambda>_ _. (-1, Some EINTR)) data k 0 = Some r" by blast
  have "W = (\<lambda>_ _. (-1, Some EINTR)) \<longrightarrow> wrote = 0 \<longrightarrow> d = []" if "write_loop W d k wrote = Some r" for W d k wrote r
    by (rule write_loop.raw_induct[where P = "\<lambda>W d k wrote r. W = (\<lambda>_ _. (-1, Some EINTR)) \<longrightarrow> wrote = 0 \<longrightarrow> d = []", OF _ that])
      (auto simp: Let_def split: if_splits)
  with r \<open>data \<noteq> []\<close> show False by blast
qed

section \<open>What the new process gets\<close>

lemma execVisor_Inr:
  assumes "execVisor os name args actorJSON = Some (Inr c)"
  obtains path rfd wfd w where "vo_LookPath os name = Inr path" "vo_pipe os = Inr (rfd, wfd)"
    "writeActorPipe os actorJSON = Some (None, w)" "actorJSON \<noteq> []" "length actorJSON \<le> MaxActorJSONBytes"
    "c = \<lparr>ch_Path = path, ch_Argv = path # args, ch_Env = ChildEnv (vo_environ os),
      ch_Files = kept_files (child_files (vo_files os) rfd wfd), ch_Pipe = take w actorJSON\<rparr>"
  using assms by (auto simp: execVisor_def split: sum.splits if_splits option.splits prod.splits)

lemma child_files_kept:
  assumes "rfd \<noteq> wfd"
  shows "kept_files (child_files t rfd wfd) ActorFD = Some Pipe_Read"
    "fd \<noteq> ActorFD \<Longrightarrow> kept_files (child_files t rfd wfd) fd = Some x \<Longrightarrow> t fd = Some (x, False)"
  using assms by (auto simp: kept_files_def child_files_def Let_def split: if_splits option.splits bool.splits)

lemma EncodeContext_sealed:
  assumes "ValidateStructure V a = None" "EncodeContext V a = Inr raw"
  shows "vs_Marshal_actor V a = Some raw" "length raw \<le> MaxActorJSONBytes"
proof -
  have "a\<lparr>va_IdentitySnapshotHash := SnapshotHash V a\<rparr> = a" using assms(1) by (simp add: ValidateStructure_None)
  with assms show "vs_Marshal_actor V a = Some raw" "length raw \<le> MaxActorJSONBytes"
    by (auto simp: EncodeContext_def Seal_def Let_def split: if_splits option.splits)
qed

lemma Fetch_mapping:
  assumes "Fetch S send1 send2 wall rnd1 rnd2 req now = Inr m"
  obtains h c b where "ParseUnverified S (sr_Token req) = Inr (h, c, b)" "mapping_of c m" "Complete (se_visor S) m = None"
  using Fetch_InrD[OF assms] that unfolding check_answer_Inr mappingAgreesWithToken_None by metis

lemma cmdVisorSession_Replaced:
  assumes "cmdVisorSession S L os send1 send2 now rnd1 rnd2 f = Some (Inr (Replaced ch))"
  obtains kf m name argv raw where "LoadProofKey L (sf_dpop_key f) = Inr kf"
    "Fetch S send1 send2 now rnd1 rnd2
       \<lparr>sr_GatewayURL = sf_gateway f, sr_Token = session_token os f, sr_ProofKey = Some kf\<rparr> now = Inr m"
    "Command (se_visor S) (sf_visor_bin f) m (sf_args f) = Inr (name, argv)"
    "EncodeContext (se_visor S) (mp_VerifiedActor m) = Inr raw" "execVisor os name argv raw = Some (Inr ch)"
  using assms by (auto simp: cmdVisorSession_def split: option.splits if_splits sum.splits)

text \<open>Without errors of the kernel the loop has none.\<close>

lemma write_loop_quiet:
  assumes "write_loop W data k wrote = Some (e, w)" "\<forall>k b. snd (W k b) \<in> {None, Some EINTR}"
  shows "e = None"
proof -
  have "(\<forall>k b x. snd (W k b) = Some x \<longrightarrow> x = EINTR) \<longrightarrow> fst r = None" if "write_loop W d k wrote = Some r" for W d k wrote r
    by (rule write_loop.raw_induct[where P = "\<lambda>W d k wrote r. (\<forall>k b x. snd (W k b) = Some x \<longrightarrow> x = EINTR) \<longrightarrow> fst r = None", OF _ that])
      (force simp: Let_def split: if_splits)
  moreover have "x = EINTR" if "snd (W k b) = Some x" for k b x using assms(2)[rule_format, of k b] that by simp
  ultimately show ?thesis using assms(1) by fastforce
qed

text \<open>C32: The visor runs under the identity of the token and no other. Whatever the gateway answers, whatever
  arguments the user adds and whatever the environment holds, if the command replaces itself by the visor,
  the visor's command line names the acting agent and the transaction of the token, once, and no further
  argument is an identity flag; its descriptor three is the read end of a pipe that holds the whole
  sealed actor context of that token, of at most 32 kilobytes; every other open file was inherited as
  meant to be; and the access token is not in its environment.\<close>

theorem visor_runs_as_token:
  assumes "cmdVisorSession S L os send1 send2 now rnd1 rnd2 f = Some (Inr (Replaced ch))"
    and "\<And>r w. vo_pipe os = Inr (r, w) \<Longrightarrow> r \<noteq> w"
  shows "(\<exists>h c b m. ParseUnverified S (session_token os f) = Inr (h, c, b) \<and> mapping_of c m \<and>
      ch_Argv ch = ch_Path ch # [''serve'', ''-client-id'', mp_ClientID m, ''-session-id'', c_txn c,
        ''-verified-actor-fd'', ''3''] @ sf_args f \<and>
      vs_Marshal_actor (se_visor S) (mp_VerifiedActor m) = Some (ch_Pipe ch) \<and>
      va_IdentitySnapshotHash (mp_VerifiedActor m) = SnapshotHash (se_visor S) (mp_VerifiedActor m)) \<and>
    length (ch_Pipe ch) \<le> 32768 \<and>
    (\<forall>a \<in> set (sf_args f). takeWhile (\<lambda>c. c \<noteq> CHR ''='') a \<notin> set identity_flags) \<and>
    ch_Files ch 3 = Some Pipe_Read \<and> (\<forall>fd x. fd \<noteq> 3 \<longrightarrow> ch_Files ch fd = Some x \<longrightarrow> vo_files os fd = Some (x, False)) \<and>
    (\<forall>e \<in> set (ch_Env ch). \<not> (\<exists>k v. EqualFold k ''AIP_ACCESS_TOKEN'' \<and> CHR ''='' \<notin> set k \<and> e = k @ ''='' @ v))"
proof -
  obtain kf m name argv raw where run: "Fetch S send1 send2 now rnd1 rnd2
       \<lparr>sr_GatewayURL = sf_gateway f, sr_Token = session_token os f, sr_ProofKey = Some kf\<rparr> now = Inr m"
    "Command (se_visor S) (sf_visor_bin f) m (sf_args f) = Inr (name, argv)"
    "EncodeContext (se_visor S) (mp_VerifiedActor m) = Inr raw" "execVisor os name argv raw = Some (Inr ch)"
    by (rule cmdVisorSession_Replaced[OF assms(1)])
  obtain h c b where c: "ParseUnverified S (session_token os f) = Inr (h, c, b)" "mapping_of c m" "Complete (se_visor S) m = None"
    using Fetch_mapping[OF run(1)] by auto
  have valid: "ValidateStructure (se_visor S) (mp_VerifiedActor m) = None" by (rule Complete_actor_valid[OF c(3)])
  note raw = EncodeContext_sealed[OF valid run(3)] and child = child_identity_fixed[OF run(2), of "vo_environ os"]
  obtain path rfd wfd w where ex: "vo_pipe os = Inr (rfd, wfd)" "writeActorPipe os raw = Some (None, w)"
    "ch = \<lparr>ch_Path = path, ch_Argv = path # argv, ch_Env = ChildEnv (vo_environ os),
      ch_Files = kept_files (child_files (vo_files os) rfd wfd), ch_Pipe = take w raw\<rparr>"
    using execVisor_Inr[OF run(4)] by metis
  have pipe: "ch_Pipe ch = raw" using writeActorPipe_whole[OF ex(2)] ex(3) by simp
  have txn: "mp_SessionID m = c_txn c" using c(2) by (simp add: mapping_of_def Let_def)
  have "va_IdentitySnapshotHash (mp_VerifiedActor m) = SnapshotHash (se_visor S) (mp_VerifiedActor m)"
    using valid by (simp add: ValidateStructure_None)
  moreover have "ch_Argv ch = ch_Path ch # [''serve'', ''-client-id'', mp_ClientID m, ''-session-id'', c_txn c,
        ''-verified-actor-fd'', ''3''] @ sf_args f" using child ex(3) by (simp add: txn)
  moreover have "length (ch_Pipe ch) \<le> 32768" using raw(2) by (simp add: pipe MaxActorJSONBytes_def)
  moreover have "ch_Files ch 3 = Some Pipe_Read" "\<forall>fd x. fd \<noteq> 3 \<longrightarrow> ch_Files ch fd = Some x \<longrightarrow> vo_files os fd = Some (x, False)"
    using child_files_kept[OF assms(2)[OF ex(1)], where t = "vo_files os"] by (auto simp: ex(3) ActorFD_def)
  moreover have "ch_Env ch = ChildEnv (vo_environ os)" by (simp add: ex(3))
  ultimately show ?thesis
    using c(1,2) child pipe raw(1) by (intro conjI) (blast, simp_all, blast)
qed

text \<open>C33: The start of the visor does not hang. On a kernel that, asked for the same bytes again and again,
  in the end takes some of them or reports an error other than an interruption, filling the pipe ends and
  the command comes to an end, with an error or with the new process; without errors of the kernel it is
  the new process. A kernel that interrupts every write would keep it for ever.\<close>

theorem execVisor_returns:
  assumes "progressing (vo_write os)"
  shows "(\<exists>res. execVisor os name args actorJSON = Some res) \<and>
    (\<exists>res. cmdVisorSession S L os send1 send2 now rnd1 rnd2 f = Some res) \<and>
    (vo_LookPath os name = Inr path \<and> vo_pipe os = Inr fds \<and> vo_nonblock os = None \<and> vo_close os = None \<and>
       vo_dup2 os = None \<and> vo_setfd os = None \<and> vo_exec os = None \<and>
       (\<forall>k b. snd (vo_write os k b) \<in> {None, Some EINTR}) \<and> actorJSON \<noteq> [] \<and> length actorJSON \<le> 32768 \<longrightarrow>
     (\<exists>c. execVisor os name args actorJSON = Some (Inr c) \<and> ch_Pipe c = actorJSON)) \<and>
    (actorJSON \<noteq> [] \<longrightarrow> writeActorPipe (os\<lparr>vo_nonblock := None, vo_write := \<lambda>_ _. (-1, Some EINTR)\<rparr>) actorJSON = None)"
proof (intro conjI impI)
  have exec: "\<exists>res. execVisor os name args raw = Some res" for name args raw
  proof -
    obtain e w where "writeActorPipe os raw = Some (e, w)"
      using write_loop_ends[OF assms, of raw 0 0] by (cases "vo_nonblock os") (auto simp: writeActorPipe_def)
    then show ?thesis by (cases e) (simp_all add: execVisor_def split: sum.split prod.split)
  qed
  then show "\<exists>res. execVisor os name args actorJSON = Some res" .
  have "cmdVisorSession S L os send1 send2 now rnd1 rnd2 f \<noteq> None"
    using exec by (auto simp: cmdVisorSession_def split: option.split sum.split) (metis option.distinct(1))
  then show "\<exists>res. cmdVisorSession S L os send1 send2 now rnd1 rnd2 f = Some res" by simp
next
  assume quiet: "vo_LookPath os name = Inr path \<and> vo_pipe os = Inr fds \<and> vo_nonblock os = None \<and> vo_close os = None \<and>
       vo_dup2 os = None \<and> vo_setfd os = None \<and> vo_exec os = None \<and>
       (\<forall>k b. snd (vo_write os k b) \<in> {None, Some EINTR}) \<and> actorJSON \<noteq> [] \<and> length actorJSON \<le> 32768"
  obtain e w where w: "write_loop (vo_write os) actorJSON 0 0 = Some (e, w)" using write_loop_ends[OF assms] by blast
  have "e = None" using write_loop_quiet[OF w] quiet by simp
  with w quiet have "writeActorPipe os actorJSON = Some (None, w)" by (simp add: writeActorPipe_def)
  with writeActorPipe_whole[OF this] quiet
  show "\<exists>c. execVisor os name args actorJSON = Some (Inr c) \<and> ch_Pipe c = actorJSON"
    by (cases fds) (simp add: execVisor_def MaxActorJSONBytes_def)
next
  assume "actorJSON \<noteq> []"
  then show "writeActorPipe (os\<lparr>vo_nonblock := None, vo_write := \<lambda>_ _. (-1, Some EINTR)\<rparr>) actorJSON = None"
    by (simp add: writeActorPipe_def write_loop_forever)
qed

section \<open>A concrete start\<close>

definition example_os :: visor_os where
  "example_os =
    \<lparr>vo_environ = [''HOME=/root'', ''AIP_ACCESS_TOKEN='' @ caller_token], vo_files = [0 \<mapsto> (Inherited ''tty'', False)],
     vo_LookPath = Inr, vo_pipe = Inr (5, 6), vo_nonblock = None,
     vo_write = (\<lambda>k b. if k mod 3 = 0 then (-1, Some EINTR) else if k mod 3 = 1 then (0, None) else (1, None)), vo_close = None, vo_dup2 = None, vo_setfd = None,
     vo_exec = None\<rparr>"

definition example_session_flags :: session_flags where
  "example_session_flags =
    \<lparr>sf_gateway = ''https://gw/mcp'', sf_token = [], sf_dpop_key = ''key'', sf_visor_bin = ''visor'', sf_print = False,
     sf_args = [''-policy'', ''p'']\<rparr>"

lemma example_os_fields:
  "vo_LookPath example_os = Inr" "vo_pipe example_os = Inr (5, 6)" "vo_nonblock example_os = None" "vo_close example_os = None"
  "vo_dup2 example_os = None" "vo_setfd example_os = None" "vo_exec example_os = None"
  by (simp_all add: example_os_def)

lemma example_os_progress: "progressing (vo_write example_os)"
  unfolding progressing_def
proof (intro allI impI)
  fix k :: nat and b :: bytes
  have "(3 * k + 2) mod 3 = 2" by presburger
  then show "\<exists>j \<ge> k. \<not> stalled (vo_write example_os j b)"
    by (intro exI[of _ "3 * k + 2"]) (simp add: stalled_def example_os_def)
qed

lemma example_session_flags_fields:
  "sf_gateway example_session_flags = ''https://gw/mcp''" "sf_dpop_key example_session_flags = ''key''"
  "sf_visor_bin example_session_flags = ''visor''" "\<not> sf_print example_session_flags"
  "sf_args example_session_flags = [''-policy'', ''p'']"
  by (simp_all add: example_session_flags_def)

lemma example_os_token: "session_token example_os example_session_flags = caller_token"
proof -
  have "strings_Cut CHR ''='' ''HOME=/root'' = (''HOME'', ''/root'', True)" by code_simp
  moreover have "strings_Cut CHR ''='' (''AIP_ACCESS_TOKEN='' @ caller_token) = (''AIP_ACCESS_TOKEN'', caller_token, True)"
    by (simp add: strings_Cut_def)
  ultimately show ?thesis
    by (simp add: session_token_def example_session_flags_def example_os_def AccessTokenEnv_def)
qed

lemma example_proof_key: "LoadProofKey (example_load 0x180) p = Inr (the (example_key [] CHR ''a'' ''k1''))"
  by (simp add: LoadProofKey_def secret_material_def CheckSecretFileMode_def ParseSigningMaterial_def decodeStrict_def
      json_decode_def example_load_def example_doc_def example_key_def SignerFromKeyFile_Generate)

lemma example_fetch_key:
  assumes "SignerFromKeyFile kf = Inr sg"
  shows "Fetch example_session_env (\<lambda>r. Inr example_answer_response) (\<lambda>r. Inr example_answer_response) (500 * second)
     ''0123456789abcdef'' ''0123456789abcdef'' \<lparr>sr_GatewayURL = ''https://gw/mcp'', sr_Token = caller_token, sr_ProofKey = Some kf\<rparr>
     (500 * second) = Inr example_mapping"
proof -
  have "\<not> is_blank caller_token" using plain_trim[OF example_caller_plain] example_caller_plain by (simp add: is_blank_def plain_def)
  then show ?thesis
    using example_answer_taken[of "[]"]
    by (simp add: Fetch_def fetchMapping_def example_session_url[simplified] session_call_def ProveWithNonce_def assms Let_def)
qed

lemma example_visor_marshal: "vs_Marshal_actor (ge_visor example_gateway_env) a = Some ''actor''"
  by (simp add: example_gateway_env_def dpop_env.defs)

lemma example_session_runs:
  "\<exists>ch. cmdVisorSession example_session_env (example_load 0x180) example_os (\<lambda>r. Inr example_answer_response)
     (\<lambda>r. Inr example_answer_response) (500 * second) ''0123456789abcdef'' ''0123456789abcdef'' example_session_flags
     = Some (Inr (Replaced ch))"
proof -
  have flags: "\<not> is_blank ''visor''" "RejectIdentityArgs [''-policy'', ''p''] = None" by code_simp+
  have cmd: "\<exists>argv. Command (se_visor example_session_env) ''visor'' example_mapping [''-policy'', ''p''] = Inr (''visor'', argv)"
    using flags example_caller_complete by (simp add: Command_def example_mapping_def)
  have "ValidateStructure (ge_visor example_gateway_env) (mp_VerifiedActor example_mapping) = None"
    using Complete_actor_valid[OF example_caller_complete] by (simp add: example_mapping_def)
  then have "a\<lparr>va_IdentitySnapshotHash := SnapshotHash (ge_visor example_gateway_env) a\<rparr> = a"
    "ValidateStructure (ge_visor example_gateway_env) a = None" if "a = mp_VerifiedActor example_mapping" for a
    using that by (simp_all add: ValidateStructure_None)
  then have enc: "EncodeContext (se_visor example_session_env) (mp_VerifiedActor example_mapping)
      = Inr ''actor''"
    by (simp add: EncodeContext_def Seal_def Let_def example_visor_marshal MaxActorJSONBytes_def)
  have "\<exists>ch. execVisor example_os ''visor'' argv ''actor'' = Some (Inr ch)" for argv
  proof -
    obtain e w where w: "write_loop (vo_write example_os) ''actor'' 0 0 = Some (e, w)"
      using write_loop_ends[OF example_os_progress] by blast
    have "e = None" by (rule write_loop_quiet[OF w]) (simp add: example_os_def)
    with w have "writeActorPipe example_os ''actor'' = Some (None, w)" by (simp add: writeActorPipe_def example_os_fields)
    then show ?thesis by (simp add: execVisor_def MaxActorJSONBytes_def example_os_fields)
  qed
  moreover obtain argv where "Command (se_visor example_session_env) ''visor'' example_mapping [''-policy'', ''p''] = Inr (''visor'', argv)"
    using cmd by blast
  ultimately obtain ch where "Command (se_visor example_session_env) ''visor'' example_mapping [''-policy'', ''p''] = Inr (''visor'', argv)"
    "execVisor example_os ''visor'' argv ''actor'' = Some (Inr ch)" by blast
  moreover obtain sg where sg: "SignerFromKeyFile (the (example_key [] CHR ''a'' ''k1'')) = Inr sg"
    by (simp add: example_key_def SignerFromKeyFile_Generate)
  ultimately show ?thesis
    using enc flags(2) example_fetch_key[OF sg]
    by (auto simp: cmdVisorSession_def example_session_flags_fields example_os_token example_proof_key[simplified] example_visor_marshal
        simp del: RejectIdentityArgs.simps)
qed

theorem visor_runs_as_token_witness:
  "\<exists>ch. cmdVisorSession example_session_env (example_load 0x180) example_os (\<lambda>r. Inr example_answer_response)
     (\<lambda>r. Inr example_answer_response) (500 * second) ''0123456789abcdef'' ''0123456789abcdef'' example_session_flags
     = Some (Inr (Replaced ch)) \<and> ch_Files ch 3 = Some Pipe_Read"
proof -
  obtain ch where ch: "cmdVisorSession example_session_env (example_load 0x180) example_os (\<lambda>r. Inr example_answer_response)
     (\<lambda>r. Inr example_answer_response) (500 * second) ''0123456789abcdef'' ''0123456789abcdef'' example_session_flags
     = Some (Inr (Replaced ch))" using example_session_runs by blast
  from visor_runs_as_token[OF ch] ch show ?thesis by (auto simp: example_os_def)
qed

theorem execVisor_returns_witness:
  "\<exists>c. execVisor example_os ''visor'' [] ''actor'' = Some (Inr c) \<and> ch_Pipe c = ''actor''"
proof -
  have "\<exists>c. execVisor example_os ''visor'' [] ''actor'' = Some (Inr c) \<and> ch_Pipe c = ''actor''"
    using execVisor_returns[OF example_os_progress, of "''visor''" "[]" "''actor''" example_session_env "example_load 0x180"
      "\<lambda>r. Inr example_answer_response" "\<lambda>r. Inr example_answer_response" 0 "[]" "[]" example_session_flags "''visor''" "(5, 6)"]
    by (simp add: example_os_def)
  then show ?thesis .
qed

end
