(* ===== verification/Serve.thy ===== *)
theory Serve
  imports Key_Tools Identfile Reload Token_Endpoint
begin

text \<open>
  \<^verbatim>\<open>serve\<close> of \<^verbatim>\<open>cmd/agent-identity-plane/serve.go\<close>: from its parsed flags to the running service, and the
  events of the running service: token requests and reloads. The file system, the network, the bind
  address parser and the text of an error are parameters. A clock that the code reads in every call is
  an argument of the event.

  A source of SPIFFE keys that is not a file is asked in every call, so the attestor is a function of
  the network and the second of the call; the configuration of a call is the one of the service with
  the attestor of that call.
\<close>

section \<open>Results in sequence\<close>

definition attempt :: "('e \<Rightarrow> 'f) \<Rightarrow> 'e + 'a \<Rightarrow> ('a \<Rightarrow> 'f + 'b) \<Rightarrow> 'f + 'b" where
  "attempt w x k = (case x of Inl e \<Rightarrow> Inl (w e) | Inr a \<Rightarrow> k a)"

definition refuse :: "('e \<Rightarrow> 'f) \<Rightarrow> 'e option \<Rightarrow> 'f + 'b \<Rightarrow> 'f + 'b" where
  "refuse w e x = (case e of Some d \<Rightarrow> Inl (w d) | None \<Rightarrow> x)"

lemma attempt_Inr [simp]: "attempt w x k = Inr b \<longleftrightarrow> (\<exists>a. x = Inr a \<and> k a = Inr b)"
  by (cases x) (simp_all add: attempt_def)

lemma refuse_Inr [simp]: "refuse w e x = Inr b \<longleftrightarrow> e = None \<and> x = Inr b"
  by (cases e) (simp_all add: refuse_def)

section \<open>The flags\<close>

record serve_flags =
  fl_listen :: bytes
  fl_registry :: bytes
  fl_issuer :: bytes
  fl_signing_key :: bytes
  fl_workload_keys :: bytes
  fl_idp_jwks :: bytes
  fl_idp_issuer :: bytes
  fl_spiffe_jwks :: bytes
  fl_spiffe_url :: bytes
  fl_spiffe_oidc :: bytes
  fl_audit_log :: bytes
  fl_replay_log :: bytes
  fl_denylist :: bytes
  fl_ttl :: duration
  fl_tls_cert :: bytes
  fl_tls_key :: bytes

datatype serve_error =
    Serve_Required | Serve_OneSource | Serve_Source source_error | Serve_Ident ident_error | Serve_Load load_error
  | Serve_Tool tool_error | Serve_IO bytes | Serve_Audit audit_error | Serve_Replay replay_error | Serve_Bind

definition serve_usage :: "serve_flags \<Rightarrow> serve_error option" where
  "serve_usage f =
    (if fl_registry f = [] \<or> fl_signing_key f = [] \<or> fl_workload_keys f = [] \<or> fl_idp_jwks f = [] \<or>
        fl_audit_log f = [] \<or> fl_replay_log f = [] \<or> fl_denylist f = [] then Some Serve_Required
     else if length (filter (\<lambda>s. s \<noteq> []) [fl_spiffe_jwks f, fl_spiffe_url f, fl_spiffe_oidc f]) > 1
       then Some Serve_OneSource
     else None)"

definition serve_urls :: "('a net_env_scheme) \<Rightarrow> serve_flags \<Rightarrow> source_error option" where
  "serve_urls N f =
    (case (if fl_spiffe_url f = [] then None else CheckJWKSURL N (fl_spiffe_url f)) of
       Some e \<Rightarrow> Some e
     | None \<Rightarrow> if fl_spiffe_oidc f = [] then None else CheckJWKSURL N (fl_spiffe_oidc f))"

definition serve_files :: "serve_flags \<Rightarrow> named list" where
  "serve_files f =
    [\<lparr>nm_Flag = ''-registry'', nm_Path = fl_registry f\<rparr>, \<lparr>nm_Flag = ''-signing-key'', nm_Path = fl_signing_key f\<rparr>,
     \<lparr>nm_Flag = ''-workload-keys'', nm_Path = fl_workload_keys f\<rparr>, \<lparr>nm_Flag = ''-idp-jwks'', nm_Path = fl_idp_jwks f\<rparr>,
     \<lparr>nm_Flag = ''-spiffe-jwks'', nm_Path = fl_spiffe_jwks f\<rparr>, \<lparr>nm_Flag = ''-audit-log'', nm_Path = fl_audit_log f\<rparr>,
     \<lparr>nm_Flag = ''-replay-log'', nm_Path = fl_replay_log f\<rparr>, \<lparr>nm_Flag = ''-denylist'', nm_Path = fl_denylist f\<rparr>,
     \<lparr>nm_Flag = ''-tls-cert'', nm_Path = fl_tls_cert f\<rparr>, \<lparr>nm_Flag = ''-tls-key'', nm_Path = fl_tls_key f\<rparr>]"

section \<open>Starting\<close>

text \<open>What the start is done in. \<open>sv_open\<close> is the content of a log opened to read and append, made if it is
  not there, or an error.\<close>

record serve_env = tool_env +
  sv_ident :: ident_fs
  sv_net :: net_env
  sv_open :: "bytes \<Rightarrow> bytes + bytes"
  sv_ip :: "bytes \<Rightarrow> nat list option"
  sv_text :: "source_error \<Rightarrow> bytes"

definition open_audit ::
  "('a serve_env_scheme) \<Rightarrow> ('b audit_env_scheme) \<Rightarrow> bytes \<Rightarrow> serve_error + logger" where
  "open_audit V J path =
    attempt Serve_IO (sv_open V path) (\<lambda>log. attempt Serve_Audit (NewLogger J log) Inr)"

definition open_replay ::
  "('a serve_env_scheme) \<Rightarrow> record_codec \<Rightarrow> instant \<Rightarrow> bytes \<Rightarrow> serve_error + replay_cache" where
  "open_replay V J now path =
    (if path = [] then Inl (Serve_Replay Replay_ErrUnavailable)
     else attempt Serve_IO (sv_open V path) (\<lambda>log.
       refuse Serve_Load (CheckSecretFileMode V path)
         (attempt Serve_Replay (OpenReplayCache J log now) Inr)))"

type_synonym live_attestor = "net_env \<Rightarrow> int \<Rightarrow> attestor"

definition local_attestor :: "jwks \<Rightarrow> bytes \<Rightarrow> int \<Rightarrow> attestor" where
  "local_attestor ks issuer sec = Att_LocalKeys (Some \<lparr>lk_Keys = ks, lk_Audience = issuer, lk_Now = Some sec\<rparr>)"

definition live_spiffe ::
  "('a serve_env_scheme) \<Rightarrow> (net_env \<Rightarrow> source_error + jwks) \<Rightarrow> jwks \<Rightarrow> bytes \<Rightarrow> bytes \<Rightarrow> live_attestor" where
  "live_spiffe V fn wl issuer from N sec =
    Att_First [local_attestor wl issuer sec,
      Att_SPIFFE (Some \<lparr>sp_Bundle = [], sp_KeysFn = Some (case fn N of Inl e \<Rightarrow> Inl (sv_text V e) | Inr ks \<Rightarrow> Inr ks),
        sp_Audience = issuer, sp_Issuer = from, sp_Now = Some sec\<rparr>)]"

definition serve_attestor :: "('a serve_env_scheme) \<Rightarrow> serve_flags \<Rightarrow> jwks \<Rightarrow> serve_error + live_attestor" where
  "serve_attestor V f wl =
    (if fl_spiffe_jwks f \<noteq> [] then
       attempt Serve_Tool (loadJWKS V (fl_spiffe_jwks f)) (\<lambda>bundle.
         Inr (\<lambda>N sec. Att_First [local_attestor wl (fl_issuer f) sec,
           Att_SPIFFE (Some \<lparr>sp_Bundle = bundle, sp_KeysFn = None, sp_Audience = fl_issuer f, sp_Issuer = [],
             sp_Now = Some sec\<rparr>)]))
     else if fl_spiffe_url f \<noteq> [] then
       attempt Serve_Source (LiveJWKS (sv_net V) [] (fl_spiffe_url f)) (\<lambda>fn.
         attempt Serve_Source (fn (sv_net V)) (\<lambda>_. Inr (live_spiffe V fn wl (fl_issuer f) [])))
     else if fl_spiffe_oidc f \<noteq> [] then
       attempt Serve_Source (LiveOIDC (sv_net V) (fl_spiffe_oidc f)) (\<lambda>fn.
         Inr (live_spiffe V fn wl (fl_issuer f) (fl_spiffe_oidc f)))
     else Inr (\<lambda>_. local_attestor wl (fl_issuer f)))"

definition new_metrics :: metrics where
  "new_metrics = \<lparr>mt_Minted = 0, mt_Denied = 0, mt_Replays = 0, mt_Reloads = 0, mt_ReloadFails = 0, mt_RateLimited = 0\<rparr>"

record service =
  sr_config :: sts_config
  sr_attestor :: live_attestor
  sr_reloader :: reloader

definition NewReloader :: "bytes \<Rightarrow> bytes \<Rightarrow> reloader" where
  "NewReloader registryPath signingPath =
    \<lparr>rl_RegistryPath = registryPath, rl_SigningPath = signingPath, rl_DenylistPath = []\<rparr>"

text \<open>The start, up to the server that listens; \<open>now\<close> is the clock when the replay log is opened.\<close>

definition cmdServe ::
  "('a serve_env_scheme) \<Rightarrow> ('b sts_http_env_scheme) \<Rightarrow> instant \<Rightarrow> serve_flags \<Rightarrow> serve_error + service" where
  "cmdServe V H now f =
    refuse id (serve_usage f)
   (refuse Serve_Source (serve_urls (sv_net V) f)
   (refuse Serve_Ident (RejectAliased (sv_ident V) (serve_files f))
   (attempt Serve_Load (registry_LoadFile V (fl_registry f)) (\<lambda>reg.
    attempt Serve_Load (LoadSigningFile V H (fl_signing_key f)) (\<lambda>kr.
    attempt Serve_Tool (loadJWKS V (fl_workload_keys f)) (\<lambda>wl.
    attempt Serve_Tool (loadJWKS V (fl_idp_jwks f)) (\<lambda>idp.
    attempt id (serve_attestor V f wl) (\<lambda>att.
    attempt id (open_audit V (he_audit H) (fl_audit_log f)) (\<lambda>log.
    attempt id (open_replay V (he_records H) now (fl_replay_log f)) (\<lambda>replay.
    attempt Serve_Load (denylist_LoadFile V (fl_denylist f)) (\<lambda>dl.
      (case NewServer_addr (sv_ip V) (fl_listen f) (fl_tls_cert f) (fl_tls_key f) of
         None \<Rightarrow> Inl Serve_Bind
       | Some addr \<Rightarrow> Inr
           \<lparr>sr_config =
              \<lparr>st_Issuer = fl_issuer f, st_TTL = fl_ttl f, st_Registry = Some reg, st_Signer = Some kr,
               st_Attestor = None, st_IdPKeys = idp, st_IdPIssuer = fl_idp_issuer f, st_Audit = Some log,
               st_Replay = Some replay, st_Denylist = Some dl, st_Metrics = new_metrics\<rparr>,
            sr_attestor = att,
            sr_reloader = (NewReloader (fl_registry f) (fl_signing_key f))\<lparr>rl_DenylistPath := fl_denylist f\<rparr>\<rparr>))))))))))))"

section \<open>Serving\<close>

definition at_call :: "service \<Rightarrow> net_env \<Rightarrow> int \<Rightarrow> sts_config" where
  "at_call s N sec = (sr_config s)\<lparr>st_Attestor := Some (sr_attestor s N sec)\<rparr>"

datatype serve_event = Sv_Token net_env int token_inputs http_request | Sv_Reload load_env

definition serve_step :: "('b sts_http_env_scheme) \<Rightarrow> service \<Rightarrow> serve_event \<Rightarrow> service" where
  "serve_step H s ev =
    (case ev of
       Sv_Token N sec i r \<Rightarrow> s\<lparr>sr_config := snd (handleToken H (at_call s N sec) i r)\<rparr>
     | Sv_Reload L \<Rightarrow> s\<lparr>sr_config := snd (Reload L H (Some (sr_reloader s)) (sr_config s))\<rparr>)"

text \<open>The services that a start and events lead to.\<close>

inductive served ::
  "('a serve_env_scheme) \<Rightarrow> ('b sts_http_env_scheme) \<Rightarrow> serve_flags \<Rightarrow> service \<Rightarrow> bool"
  for V H f where
  started: "cmdServe V H now f = Inr s \<Longrightarrow> served V H f s"
| stepped: "served V H f s \<Longrightarrow> served V H f (serve_step H s ev)"

section \<open>What holds in every reachable service\<close>

definition valid_registry :: "registry \<Rightarrow> bool" where
  "valid_registry r \<longleftrightarrow> (\<exists>P fl. registry_New P fl = Inr r)"

definition live_ring :: "keyring \<Rightarrow> bool" where
  "live_ring k \<longleftrightarrow> ring_wf k \<and> kr_activeKID k \<noteq> []"

definition identity_ok :: "sts_config \<Rightarrow> bool" where
  "identity_ok c \<longleftrightarrow>
    (\<exists>r. st_Registry c = Some r \<and> valid_registry r) \<and> (\<exists>k. st_Signer c = Some k \<and> live_ring k) \<and> st_Denylist c \<noteq> None"

definition service_ok :: "serve_flags \<Rightarrow> service \<Rightarrow> bool" where
  "service_ok f s \<longleftrightarrow>
    identity_ok (sr_config s) \<and> st_Audit (sr_config s) \<noteq> None \<and>
    (\<exists>rc. st_Replay (sr_config s) = Some rc \<and> rc_file rc \<noteq> None) \<and>
    st_Issuer (sr_config s) = fl_issuer f \<and> st_TTL (sr_config s) = fl_ttl f"

lemma registry_LoadFile_valid: "registry_LoadFile L p = Inr r \<Longrightarrow> valid_registry r"
  by (auto simp: registry_LoadFile_def registry_LoadJSON_def valid_registry_def split: sum.splits json_error.splits if_splits)

lemma LoadSigningFile_live: "LoadSigningFile L E p = Inr k \<Longrightarrow> live_ring k"
proof -
  assume "LoadSigningFile L E p = Inr k"
  then obtain a ks where n: "NewKeyring E a ks = Inr k" by (auto simp: LoadSigningFile_Inr)
  then have "kr_activeKID k \<noteq> []"
    by (auto simp: NewKeyring_def keyring_Replace_def split: prod.splits option.splits if_splits sum.splits)
  with NewKeyring_wf[OF n] show ?thesis by (simp add: live_ring_def)
qed

lemma Reload_keeps:
  "st_Audit (snd (Reload L E rl c)) = st_Audit c" "st_Replay (snd (Reload L E rl c)) = st_Replay c"
  "st_Issuer (snd (Reload L E rl c)) = st_Issuer c" "st_TTL (snd (Reload L E rl c)) = st_TTL c"
  "st_IdPKeys (snd (Reload L E rl c)) = st_IdPKeys c"
  by (auto simp: Reload_def count_reload_def installIdentity_def Let_def split: option.split sum.split prod.split)

lemma Reload_identity:
  assumes "identity_ok c"
  shows "identity_ok (snd (Reload L E rl c))"
proof (cases rl)
  case None
  with assms show ?thesis by (simp add: Reload_def)
next
  case (Some r)
  have count: "identity_ok (count_reload ok c') = identity_ok c'" for ok c'
    by (simp add: identity_ok_def count_reload_def Let_def)
  show ?thesis
  proof (cases "load_all L E r")
    case (Inl e)
    with Some assms show ?thesis by (simp add: Reload_def count)
  next
    case (Inr loaded)
    obtain reg kr dl where ld: "loaded = (reg, kr, dl)" by (cases loaded)
    note parts = Inr[unfolded ld load_all_Inr]
    have valid: "\<And>x. reg = Some x \<Longrightarrow> valid_registry x" "\<And>k. kr = Some k \<Longrightarrow> live_ring k"
      using parts registry_LoadFile_valid LoadSigningFile_live by (auto simp: load_if_Inr split: if_splits)
    obtain e c1 where inst: "installIdentity E c reg kr dl = (e, c1)" by fastforce
    have "identity_ok c1"
    proof (cases e)
      case None
      with inst have "c1 = with_identity c (if reg \<noteq> None then reg else st_Registry c)
          (if kr \<noteq> None then kr else st_Signer c) (if dl \<noteq> None then dl else st_Denylist c)"
        by (simp add: installIdentity_Inr)
      with assms valid show ?thesis by (auto simp: identity_ok_def with_identity_def)
    next
      case (Some d)
      with inst have "c1 = c" by (simp add: installIdentity_error)
      with assms show ?thesis by simp
    qed
    with Some Inr ld inst assms show ?thesis by (cases e) (simp_all add: Reload_def count)
  qed
qed

lemma identity_ok_snapshot:
  assumes "snapshot c' = snapshot c" "identity_ok c"
  shows "identity_ok c'"
proof -
  have "st_Registry c' = st_Registry c" "st_Signer c' = st_Signer c" "st_Denylist c' = st_Denylist c"
    using assms(1) by (simp_all add: snapshot_def)
  with assms(2) show ?thesis by (simp add: identity_ok_def)
qed

section \<open>One request in the logs\<close>

text \<open>Every reason that a record can name.\<close>

definition reasons :: "bytes list" where
  "reasons =
    [ReasonOK, ReasonInvalidRequest, ReasonInvalidActorToken, ReasonInvalidSubjectToken, ReasonAgentNotRegistered,
     ReasonAgentNotAuthorizedOnWL, ReasonAudienceNotAllowed, ReasonScopeWidening, ReasonDepthExceeded, ReasonExpired,
     ReasonChainIntegrity, ReasonAgentNotYetValid, ReasonAgentExpired, ReasonReplayedToken, ReasonRateLimited,
     ReasonMissingCNF, ReasonInvalidDPoP, ReasonAgentDenied, ReasonWorkloadDenied, ReasonPrincipalDenied]"

lemma reasons_named: "r \<in> set reasons \<Longrightarrow> boundEventString r \<noteq> []"
proof -
  have "list_all (\<lambda>r. boundEventString r \<noteq> []) reasons" by code_simp
  then show "r \<in> set reasons \<Longrightarrow> boundEventString r \<noteq> []" by (simp add: list_all_iff)
qed

lemma in_reasons [simp]:
  "ReasonOK \<in> set reasons" "ReasonInvalidRequest \<in> set reasons" "ReasonInvalidActorToken \<in> set reasons"
  "ReasonInvalidSubjectToken \<in> set reasons" "ReasonScopeWidening \<in> set reasons" "ReasonDepthExceeded \<in> set reasons"
  "ReasonExpired \<in> set reasons" "ReasonChainIntegrity \<in> set reasons" "ReasonReplayedToken \<in> set reasons"
  "ReasonRateLimited \<in> set reasons" "ReasonMissingCNF \<in> set reasons" "ReasonInvalidDPoP \<in> set reasons"
  "ReasonAgentDenied \<in> set reasons" "ReasonWorkloadDenied \<in> set reasons" "ReasonPrincipalDenied \<in> set reasons"
  "mapRegistryErr e \<in> set reasons"
  by (auto simp: reasons_def mapRegistryErr_def split: registry_error.split)

lemma deny_reason [simp]: "xr_ReasonCode (deny code oauth desc) = code" "xr_ReasonCode (withSubject oc sub) = xr_ReasonCode oc"
  by (simp_all add: deny_def withSubject_def)

lemma exchange_checks_reason:
  assumes "exchange_checks E issuer snap i req = Inl oc"
  shows "xr_ReasonCode oc \<in> set reasons"
proof -
  have "xr_ReasonCode oc \<in> set reasons" if "request_error issuer snap req = Some oc" for oc
    using that by (auto simp: request_error_def split: if_splits)
  moreover have "xr_ReasonCode oc \<in> set reasons" if "check_caller E snap i req vs = Inl oc" for vs oc
    using that by (auto simp: check_caller_def Let_def split: sum.splits if_splits prod.splits)
  moreover have "xr_ReasonCode oc \<in> set reasons" if "check_subject dl i req wl ag sub f = Inl oc" for dl wl ag sub f oc
    using that by (auto simp: check_subject_def Let_def split: option.splits if_splits)
  ultimately show ?thesis
    using assms by (auto simp: exchange_checks_def Let_def split: option.splits sum.splits prod.splits)
qed

lemma exchange_reason:
  assumes "exchange E c i req = (oc, rc)"
  shows "xr_ReasonCode oc \<in> set reasons"
proof (cases "exchange_checks E (st_Issuer c) (snapshot c) i req")
  case (Inl oc')
  with assms exchange_checks_reason[OF Inl] show ?thesis by (simp add: exchange_def)
next
  case (Inr p)
  have "xr_ReasonCode oc \<in> set reasons" if "exchange_consume E cache i p = (Some oc, rc')" for cache oc rc'
    using that by (auto simp: exchange_consume_def split: if_splits option.splits prod.splits)
  moreover have "xr_ReasonCode (exchange_mint E issuer ttl signer i req p) \<in> set reasons" for issuer ttl signer
    by (auto simp: exchange_mint_def Let_def split: sum.split)
  ultimately show ?thesis using assms Inr by (auto simp: exchange_def Let_def split: prod.splits option.splits)
qed

lemma event_type_named: "boundEventString ''token_minted'' \<noteq> []" "boundEventString ''token_denied'' \<noteq> []"
  by code_simp+

lemma exchange_event_named: "xr_ReasonCode oc \<in> set reasons \<Longrightarrow> named_event (exchange_event req oc)"
  using reasons_named event_type_named
  by (auto simp: named_event_def exchange_event_def empty_event_def Let_def)

lemma http_denied_event_named: "r \<in> set reasons \<Longrightarrow> named_event (http_denied_event r)"
  using reasons_named event_type_named by (auto simp: named_event_def http_denied_event_def empty_event_def)

text \<open>What one request does to the logs: one append, and the consumption of the id of its proof and of its
  subject token, each at most once.\<close>

definition token_ops :: "('a sts_http_env_scheme) \<Rightarrow> sts_config \<Rightarrow> token_inputs \<Rightarrow> http_request \<Rightarrow> consume_op set" where
  "token_ops H c i r =
    {op. (\<exists>pf. dpop_Verify H (ti_wall i) (Some r) [] [] (ti_proof_now i) = Inr pf \<and> op = token_use i pf) \<or>
      (\<exists>f sub. ParseForm (he_ParseMediaType H) maxTokenBody (ti_read_ok i) r = Some f \<and>
        verifySubject (exchange_env H) (st_Issuer c) (values_Get f ''subject_token'') (snapshot c) = Inr (sub, True) \<and>
        op = consume_op_of (ti_call i) sub)}"

definition appended :: "('a sts_http_env_scheme) \<Rightarrow> call_inputs \<Rightarrow> logger \<Rightarrow> logger \<Rightarrow> bool" where
  "appended H i l l' \<longleftrightarrow>
    (\<exists>ev. named_event ev \<and> l' = fst (append_step (he_audit H) l \<lparr>ao_stamp = in_stamp i, ao_io = in_audit_io i, ao_event = ev\<rparr>))"

lemma appendedI:
  assumes "Append (he_audit H) l (in_stamp i) (in_audit_io i) ev = (e, l')" "named_event ev"
  shows "appended H i l l'"
  unfolding appended_def by (intro exI[of _ ev]) (simp add: assms append_step_def)

lemma Exchange_logs:
  assumes "Exchange (exchange_env H) c i req = (res, c')" "st_Audit c = Some l" "st_Replay c = Some s"
  obtains l' s' where "st_Audit c' = Some l'" "st_Replay c' = Some s'" "appended H i l l'"
    "s' = s \<or> (\<exists>sub. verifySubject (exchange_env H) (st_Issuer c) (rq_SubjectToken req) (snapshot c) = Inr (sub, True) \<and>
      s' = fst (consume_step (he_records H) s (consume_op_of i sub)))"
proof -
  obtain oc rc where x: "exchange (exchange_env H) c i req = (oc, rc)" by fastforce
  from exchange_replay[OF x assms(3)] obtain s' where s': "rc = Some s'"
    "s' = s \<or> (\<exists>sub. verifySubject (exchange_env H) (st_Issuer c) (rq_SubjectToken req) (snapshot c) = Inr (sub, True) \<and>
      s' = fst (consume_step (he_records H) s (consume_op_of i sub)))" by auto
  have named: "named_event (exchange_event req oc)" by (rule exchange_event_named[OF exchange_reason[OF x]])
  from x show ?thesis
  proof (cases rule: Exchange_cases)
    case unaudited
    with assms(2) show ?thesis by simp
  next
    case (failed l0 e l')
    have "appended H i l l'" by (rule appendedI[OF _ named]) (use failed assms(2) in simp)
    with failed assms(1) s' that[of l' s'] show ?thesis by auto
  next
    case (audited l0 l')
    have "appended H i l l'" by (rule appendedI[OF _ named]) (use audited assms(2) in simp)
    with audited assms(1) s' that[of l' s'] show ?thesis by auto
  qed
qed

lemma writeHTTPDeny_logs:
  assumes "writeHTTPDeny H c i status err desc reason = (resp, c')" "st_Audit c = Some l" "reason \<in> set reasons"
  obtains l' where "st_Audit c' = Some l'" "st_Replay c' = st_Replay c" "appended H i l l'"
proof -
  obtain e l' where ap: "Append (he_audit H) l (in_stamp i) (in_audit_io i) (http_denied_event reason) = (e, l')" by fastforce
  have "appended H i l l'" by (rule appendedI[OF ap http_denied_event_named[OF assms(3)]])
  with assms(1,2) ap that show ?thesis by (cases e) (auto simp: writeHTTPDeny_def Let_def)
qed

lemma token_proof_reason: "token_proof H rc i r = (Inl (status, err, desc, reason), rc') \<Longrightarrow> reason \<in> set reasons"
  by (auto simp: token_proof_def split: if_splits sum.splits prod.splits option.splits)

lemma token_proof_ops:
  assumes "token_proof H (Some s) i r = (v, rc)"
  obtains s' where "rc = Some s'"
    "s' = s \<or> (\<exists>pf. dpop_Verify H (ti_wall i) (Some r) [] [] (ti_proof_now i) = Inr pf \<and>
      s' = fst (consume_step (he_records H) s (token_use i pf)))"
  by (cases rule: token_proof_cases[of r H "Some s" i]) (use assms that in auto)

lemma handleToken_logs:
  assumes "handleToken H c i r = (resp, c')" "st_Audit c = Some l" "st_Replay c = Some s"
  obtains l' ops where "st_Audit c' = Some l'" "appended H (ti_call i) l l'"
    "st_Replay c' = Some (final (consume_step (he_records H)) s ops)" "set ops \<subseteq> token_ops H c i r"
proof (cases rule: handleToken_cases[of i H c r])
  case limited
  with assms(1) have w: "writeHTTPDeny H c (ti_call i) 429 ''temporarily_unavailable'' (Hd_Text ''rate limited'')
    ReasonRateLimited = (resp, c')" by simp
  show ?thesis by (rule writeHTTPDeny_logs[OF w assms(2)]) (use that[of _ "[]"] assms(3) in auto)
next
  case malformed
  with assms(1) have w: "writeHTTPDeny H c (ti_call i) 400 ''invalid_request'' (Hd_Text ''malformed form'')
    ReasonInvalidRequest = (resp, c')" by simp
  show ?thesis by (rule writeHTTPDeny_logs[OF w assms(2)]) (use that[of _ "[]"] assms(3) in auto)
next
  case (unproved status err desc reason rc)
  with assms(1) have w: "writeHTTPDeny H (c\<lparr>st_Replay := rc\<rparr>) (ti_call i) status err desc reason = (resp, c')" by simp
  obtain s' where s': "rc = Some s'" "s' = s \<or> (\<exists>pf. dpop_Verify H (ti_wall i) (Some r) [] [] (ti_proof_now i) = Inr pf \<and>
      s' = fst (consume_step (he_records H) s (token_use i pf)))"
    using token_proof_ops unproved(1) assms(3) by metis
  obtain ops where ops: "s' = final (consume_step (he_records H)) s ops" "set ops \<subseteq> token_ops H c i r"
    using s'(2) by (auto intro: that[of "[]"] that[of "[_]"] simp: token_ops_def)
  from w obtain l' where "st_Audit c' = Some l'" "st_Replay c' = rc" "appended H (ti_call i) l l'"
    by (rule writeHTTPDeny_logs) (use assms(2) token_proof_reason[OF unproved(1)] in auto)
  with ops s'(1) that show ?thesis by simp
next
  case (exchanged f jkt rc res c1)
  obtain s' where s': "rc = Some s'" "s' = s \<or> (\<exists>pf. dpop_Verify H (ti_wall i) (Some r) [] [] (ti_proof_now i) = Inr pf \<and>
      s' = fst (consume_step (he_records H) s (token_use i pf)))"
    using token_proof_ops exchanged(2) assms(3) by metis
  obtain ops where ops: "s' = final (consume_step (he_records H)) s ops" "set ops \<subseteq> token_ops H c i r"
    using s'(2) by (auto intro: that[of "[]"] that[of "[_]"] simp: token_ops_def)
  have snap: "snapshot (c\<lparr>st_Replay := rc\<rparr>) = snapshot c" by (simp add: snapshot_def)
  have pre: "st_Audit (c\<lparr>st_Replay := rc\<rparr>) = Some l" "st_Replay (c\<lparr>st_Replay := rc\<rparr>) = Some s'"
    using assms(2) s'(1) by simp_all
  obtain l' s'' where l': "st_Audit c1 = Some l'" "st_Replay c1 = Some s''" "appended H (ti_call i) l l'"
    and s'': "s'' = s' \<or> (\<exists>sub. verifySubject (exchange_env H) (st_Issuer (c\<lparr>st_Replay := rc\<rparr>))
        (rq_SubjectToken ((form_request f)\<lparr>rq_ConfirmJKT := jkt\<rparr>)) (snapshot (c\<lparr>st_Replay := rc\<rparr>)) = Inr (sub, True) \<and>
      s'' = fst (consume_step (he_records H) s' (consume_op_of (ti_call i) sub)))"
    using Exchange_logs[OF exchanged(3) pre] by metis
  obtain ops2 where "s'' = final (consume_step (he_records H)) s' ops2" "set ops2 \<subseteq> token_ops H c i r"
    using s'' exchanged(1)
    by (auto intro: that[of "[]"] that[of "[_]"] simp: token_ops_def snap form_request_def)
  with ops have "s'' = final (consume_step (he_records H)) s (ops @ ops2)" "set (ops @ ops2) \<subseteq> token_ops H c i r"
    by (simp_all add: final_append)
  with l' exchanged(4) assms(1) that[of l' "ops @ ops2"] show ?thesis by simp
qed

section \<open>Every reachable service\<close>

lemma consume_step_file: "rc_file (fst (consume_step J s op)) = None \<longleftrightarrow> rc_file s = None"
  by (auto simp: consume_step_def cache_Consume_def append_log_def Let_def split: option.split prod.split)

lemma final_file: "rc_file (final (consume_step J) s ops) = None \<longleftrightarrow> rc_file s = None"
  by (induction ops arbitrary: s) (simp_all add: consume_step_file)

lemma handleToken_keeps:
  assumes "handleToken H c i r = (resp, c')"
  shows "snapshot c' = snapshot c" "st_Issuer c' = st_Issuer c" "st_TTL c' = st_TTL c"
proof -
  have same: "snapshot (c\<lparr>st_Replay := rc\<rparr>) = snapshot c" for rc by (simp add: snapshot_def)
  have "snapshot c' = snapshot c \<and> st_Issuer c' = st_Issuer c \<and> st_TTL c' = st_TTL c"
  proof (cases rule: handleToken_cases[of i H c r])
    case (exchanged f jkt rc res c1)
    with Exchange_snapshot[OF exchanged(3)] assms same show ?thesis by simp
  next
    case (unproved status err desc reason rc)
    with assms same writeHTTPDeny_keeps[of H "c\<lparr>st_Replay := rc\<rparr>" "ti_call i" status err desc reason]
    show ?thesis by simp
  next
    case limited
    with assms writeHTTPDeny_keeps[of H c "ti_call i" 429 "''temporarily_unavailable''" "Hd_Text ''rate limited''" ReasonRateLimited]
    show ?thesis by simp
  next
    case malformed
    with assms writeHTTPDeny_keeps[of H c "ti_call i" 400 "''invalid_request''" "Hd_Text ''malformed form''" ReasonInvalidRequest]
    show ?thesis by simp
  qed
  then show "snapshot c' = snapshot c" "st_Issuer c' = st_Issuer c" "st_TTL c' = st_TTL c" by simp_all
qed

lemma OpenReplayCache_file: "OpenReplayCache J log now = Inr rc \<Longrightarrow> rc_file rc = Some log"
  by (auto simp: OpenReplayCache_def split: sum.splits)

lemma open_replay_file: "open_replay V (he_records H) now p = Inr rc \<Longrightarrow> rc_file rc \<noteq> None"
  by (auto simp: open_replay_def dest: OpenReplayCache_file split: if_splits)

lemma cmdServe_ok:
  assumes "cmdServe V H now f = Inr s"
  shows "service_ok f s"
proof -
  from assms obtain reg kr replay where
    "registry_LoadFile V (fl_registry f) = Inr reg" "LoadSigningFile V H (fl_signing_key f) = Inr kr"
    "open_replay V (he_records H) now (fl_replay_log f) = Inr replay"
    "st_Registry (sr_config s) = Some reg" "st_Signer (sr_config s) = Some kr" "st_Replay (sr_config s) = Some replay"
    "st_Denylist (sr_config s) \<noteq> None" "st_Audit (sr_config s) \<noteq> None"
    "st_Issuer (sr_config s) = fl_issuer f" "st_TTL (sr_config s) = fl_ttl f"
    by (auto simp: cmdServe_def split: option.splits)
  then show ?thesis
    using registry_LoadFile_valid LoadSigningFile_live open_replay_file by (auto simp: service_ok_def identity_ok_def)
qed

lemma at_call_simps [simp]:
  "st_Registry (at_call s N sec) = st_Registry (sr_config s)" "st_Signer (at_call s N sec) = st_Signer (sr_config s)"
  "st_Denylist (at_call s N sec) = st_Denylist (sr_config s)" "st_Audit (at_call s N sec) = st_Audit (sr_config s)"
  "st_Replay (at_call s N sec) = st_Replay (sr_config s)" "st_Issuer (at_call s N sec) = st_Issuer (sr_config s)"
  "st_TTL (at_call s N sec) = st_TTL (sr_config s)" "st_Attestor (at_call s N sec) = Some (sr_attestor s N sec)"
  by (simp_all add: at_call_def)

lemma serve_step_ok:
  assumes "service_ok f s"
  shows "service_ok f (serve_step H s ev)"
proof (cases ev)
  case (Sv_Token N sec i r)
  obtain resp c' where h: "handleToken H (at_call s N sec) i r = (resp, c')" by fastforce
  from assms obtain l rc where l: "st_Audit (at_call s N sec) = Some l" "st_Replay (at_call s N sec) = Some rc" "rc_file rc \<noteq> None"
    by (auto simp: service_ok_def)
  obtain l' ops where "st_Audit c' = Some l'" "st_Replay c' = Some (final (consume_step (he_records H)) rc ops)"
    using handleToken_logs[OF h l(1,2)] by metis
  moreover have "rc_file (final (consume_step (he_records H)) rc ops) \<noteq> None" unfolding final_file by (rule l(3))
  moreover have "identity_ok c'"
    by (rule identity_ok_snapshot[OF handleToken_keeps(1)[OF h]]) (use assms in \<open>simp add: service_ok_def identity_ok_def\<close>)
  ultimately show ?thesis
    using assms handleToken_keeps(2,3)[OF h] by (simp add: Sv_Token serve_step_def h service_ok_def)
next
  case (Sv_Reload L)
  with assms show ?thesis
    by (auto simp: serve_step_def service_ok_def Reload_keeps Reload_identity)
qed

lemma served_ok: "served V H f s \<Longrightarrow> service_ok f s"
  by (induction rule: served.induct) (use cmdServe_ok in \<open>auto intro: serve_step_ok\<close>)

lemma serve_step_fixed [simp]:
  "sr_attestor (serve_step H s ev) = sr_attestor s" "sr_reloader (serve_step H s ev) = sr_reloader s"
  by (simp_all add: serve_step_def split: serve_event.split)

lemma active_published:
  assumes "signer = Some ring" "ring_wf ring" "kr_activeKID ring \<noteq> []"
  shows "kr_activeKID ring \<in> k_kid ` set (keyring_JWKS E signer)"
proof -
  from assms(2,3) obtain al where al: "kr_byKID ring = Some al" "alist_wf al" "map_of al (kr_activeKID ring) \<noteq> None"
    by (cases rule: ring_wf_cases) auto
  then obtain sg where sg: "(kr_activeKID ring, sg) \<in> set al" by (auto dest: map_of_SomeD)
  with al(2) have "sg_kid sg = kr_activeKID ring" by (auto simp: alist_wf_def)
  moreover have "signer_PublicJWK E sg \<in> set (keyring_JWKS E signer)"
    using sg al keyring_JWKS_set[OF al(2), of E] by (force simp: assms(1) keyring_JWKS_def)
  ultimately show ?thesis by (force simp: signer_PublicJWK_def image_iff)
qed

text \<open>C36: A service that runs is well configured. In every service that a start and any requests and
  reloads lead to, the registry is a valid document, the signing ring is well formed with an active
  key, and denylist, audit log and durable replay cache are there, under the issuer and lifetime of the
  command line. So the readiness answer depends on the source of workload keys alone, and the published
  key set is never empty and holds the active key.\<close>

theorem served_well_configured:
  assumes "served V H f s"
  shows "(\<exists>reg ring dl l rc log. st_Registry (sr_config s) = Some reg \<and> valid_registry reg \<and>
      st_Signer (sr_config s) = Some ring \<and> ring_wf ring \<and> st_Denylist (sr_config s) = Some dl \<and>
      st_Audit (sr_config s) = Some l \<and> st_Replay (sr_config s) = Some rc \<and> rc_file rc = Some log \<and>
      rs_Status (sts_jwks H (at_call s N sec)) = 200 \<and>
      kr_activeKID ring \<in> k_kid ` set (keyring_JWKS H (st_Signer (sr_config s)))) \<and>
    st_Issuer (sr_config s) = fl_issuer f \<and> st_TTL (sr_config s) = fl_ttl f \<and>
    (rs_Status (sts_readyz (at_call s N sec)) = 200 \<longleftrightarrow> Ready (sr_attestor s N sec) = None)"
proof -
  from served_ok[OF assms] obtain reg ring dl l rc log where
    ok: "st_Registry (sr_config s) = Some reg" "valid_registry reg" "st_Signer (sr_config s) = Some ring"
      "ring_wf ring" "kr_activeKID ring \<noteq> []" "st_Denylist (sr_config s) = Some dl"
      "st_Audit (sr_config s) = Some l" "st_Replay (sr_config s) = Some rc" "rc_file rc = Some log"
      "st_Issuer (sr_config s) = fl_issuer f" "st_TTL (sr_config s) = fl_ttl f"
    by (auto simp: service_ok_def identity_ok_def live_ring_def)
  have "kr_activeKID ring \<in> k_kid ` set (keyring_JWKS H (st_Signer (sr_config s)))"
    by (rule active_published[OF ok(3-5)])
  moreover have "rs_Status (sts_jwks H (at_call s N sec)) = 200"
    by (simp add: sts_jwks_def snapshot_def ok(3) Let_def)
  moreover have "rs_Status (sts_readyz (at_call s N sec)) = 200 \<longleftrightarrow> Ready (sr_attestor s N sec) = None"
    using ok by (simp add: sts_readyz_def snapshot_def keyring_ActiveKID_def sts_healthz_def http_Error_text_def Let_def)
  ultimately show ?thesis using ok by blast
qed

text \<open>A service that starts on empty logs.\<close>

definition example_serve_flags :: serve_flags where
  "example_serve_flags =
    \<lparr>fl_listen = ''127.0.0.1:8080'', fl_registry = ''/d/r'', fl_issuer = ''sts'', fl_signing_key = ''/d/k'',
     fl_workload_keys = ''/d/w'', fl_idp_jwks = ''/d/i'', fl_idp_issuer = ''idp'', fl_spiffe_jwks = [], fl_spiffe_url = [],
     fl_spiffe_oidc = [], fl_audit_log = ''/d/a'', fl_replay_log = ''/l/p'', fl_denylist = ''/d/n'', fl_ttl = 0,
     fl_tls_cert = [], fl_tls_key = []\<rparr>"

definition example_serve_env :: serve_env where
  "example_serve_env =
    tool_env.extend (load_env.extend ((example_load 0x180)\<lparr>ld_registry := (\<lambda>_. Inr (\<lparr>rf_Version = 1, rf_Agents = [example_agent]\<rparr>, []))\<rparr>)
      (tool_env.fields (\<lambda>_. Inl ''none'') (\<lambda>_. Inr (([empty_jwk], []), [])) (\<lambda>_. []) (\<lambda>_. [])))
    (serve_env.fields example_ident_fs example_net (\<lambda>_. Inr []) (\<lambda>_. None) (\<lambda>_. []))"

lemma example_serve_fields:
  "ld_fs example_serve_env p = \<lparr>fs_ReadFile = Inr ''doc'', fs_Stat = Inr (True, 0x180)\<rparr>" "ld_next example_serve_env = (\<lambda>_. Next_EOF)"
  "ld_registry example_serve_env = (\<lambda>_. Inr (\<lparr>rf_Version = 1, rf_Agents = [example_agent]\<rparr>, []))"
  "ld_denylist example_serve_env = ld_denylist (example_load 0x180)" "ld_keyring example_serve_env = example_doc"
  "ld_members example_serve_env = (\<lambda>_. Some [''active_kid'', ''keys''])" "ld_time example_serve_env = example_time"
  "ld_url example_serve_env = (\<lambda>_. None)" "tl_wrapped example_serve_env = (\<lambda>_. Inr (([empty_jwk], []), []))"
  "sv_ident example_serve_env = example_ident_fs" "sv_net example_serve_env = example_net"
  "sv_open example_serve_env = (\<lambda>_. Inr [])" "sv_ip example_serve_env = (\<lambda>_. None)"
  by (simp_all add: example_serve_env_def load_env.defs tool_env.defs serve_env.defs example_load_def)

lemma example_serve_loads:
  "\<exists>reg. registry_LoadFile example_serve_env p = Inr reg" "LoadSigningFile example_serve_env E p = Inr example_next_ring"
  "loadJWKS example_serve_env p = Inr [empty_jwk]" "denylist_LoadFile example_serve_env p = Inr example_denied"
proof -
  have "\<exists>r. registry_New example_time \<lparr>rf_Version = 1, rf_Agents = [example_agent]\<rparr> = Inr r"
    by (simp add: registry_New_Inr by_ids_Cons example_agent_valid flip: validateAgent_None)
  then show "\<exists>reg. registry_LoadFile example_serve_env p = Inr reg"
    by (auto simp: registry_LoadFile_def registry_LoadJSON_def json_decode_def example_serve_fields)
  have "CheckSecretFileMode example_serve_env p = None"
    by (simp add: CheckSecretFileMode_None secret_file_def example_serve_fields)
  moreover have "ParseSigningMaterial example_serve_env raw =
      Inr (''k1'', [example_key [] CHR ''a'' ''k1'', example_key [] CHR ''b'' ''k2''])" for raw
    by (simp add: ParseSigningMaterial_def decodeStrict_def json_decode_def example_serve_fields example_doc_def
        example_key_def)
  moreover have "NewKeyring E ''k1'' [example_key [] CHR ''a'' ''k1'', example_key [] CHR ''b'' ''k2''] = Inr example_next_ring"
    by (simp add: NewKeyring_def example_next_ring_def)
  ultimately show "LoadSigningFile example_serve_env E p = Inr example_next_ring"
    by (simp add: LoadSigningFile_def example_serve_fields)
  show "loadJWKS example_serve_env p = Inr [empty_jwk]"
    by (simp add: loadJWKS_def json_decode_def example_serve_fields Let_def)
  have "no_space ''eve''" by code_simp
  then have "denylist_New U \<lparr>df_Version = 1, df_Agents = [], df_Workloads = [], df_Principals = [''eve'']\<rparr> = Inr example_denied" for U
    by (simp add: denylist_New_def identityID_def example_denied_def)
  then show "denylist_LoadFile example_serve_env p = Inr example_denied"
    by (simp add: denylist_LoadFile_def denylist_LoadJSON_def json_decode_def example_serve_fields)
      (simp add: example_load_def)
qed

lemma example_serve_paths: "RejectAliased example_ident_fs (serve_files example_serve_flags) = None"
proof -
  have "map (canonicalPath example_ident_fs) [''/d/r'', ''/d/k'', ''/d/w'', ''/d/i'', ''/d/a'', ''/l/p'', ''/d/n''] =
    map Inr [''/d/r'', ''/d/k'', ''/d/w'', ''/d/i'', ''/d/a'', ''/d/p'', ''/d/n'']" by code_simp
  moreover have "if_Stat example_ident_fs p = None" if "p \<in> {''/d/r'', ''/d/k'', ''/d/w'', ''/d/i'', ''/d/a'', ''/l/p'', ''/d/n''}" for p
    using that by (auto simp: example_ident_fs_def)
  ultimately show ?thesis
    unfolding RejectAliased_None by (simp add: serve_files_def example_serve_flags_def filesAlias_False)
qed

lemma example_starts:
  obtains s where "cmdServe example_serve_env H now example_serve_flags = Inr s"
    "st_Signer (sr_config s) = Some example_next_ring" "st_IdPKeys (sr_config s) = [empty_jwk]"
    "st_Issuer (sr_config s) = ''sts''" "\<exists>l. st_Audit (sr_config s) = Some l \<and> lg_chainIndex l = 0"
    "st_Replay (sr_config s) = Some \<lparr>rc_seen = Map.empty, rc_file = Some []\<rparr>"
proof -
  obtain reg where reg: "\<And>p. registry_LoadFile example_serve_env p = Inr reg"
    using example_serve_loads(1) by (auto simp: registry_LoadFile_def example_serve_fields)
  have empty: "raw_lines [] = []" by (simp add: raw_lines_def)
  have logs: "\<exists>l. open_audit example_serve_env (he_audit H) p = Inr l \<and> lg_chainIndex l = 0"
    "p \<noteq> [] \<Longrightarrow> open_replay example_serve_env (he_records H) now p = Inr \<lparr>rc_seen = Map.empty, rc_file = Some []\<rparr>" for p
    by (simp_all add: open_audit_def open_replay_def attempt_def refuse_def example_serve_fields NewLogger_def OpenReplayCache_def
        empty CheckSecretFileMode_def)
  then obtain l where l: "open_audit example_serve_env (he_audit H) (fl_audit_log example_serve_flags) = Inr l" "lg_chainIndex l = 0" by blast
  have bind: "NewServer_addr (\<lambda>_. None) ''127.0.0.1:8080'' [] [] = Some ''127.0.0.1:8080''" by code_simp
  have usage: "serve_usage example_serve_flags = None" "serve_urls N example_serve_flags = None" for N :: net_env
    by (simp_all add: serve_usage_def serve_urls_def example_serve_flags_def)
  have att: "serve_attestor example_serve_env example_serve_flags wl = Inr (\<lambda>_. local_attestor wl ''sts'')" for wl
    by (simp add: serve_attestor_def example_serve_flags_def)
  have rep: "open_replay example_serve_env (he_records H) now (fl_replay_log example_serve_flags) = Inr \<lparr>rc_seen = Map.empty, rc_file = Some []\<rparr>"
    by (rule logs(2)) (simp add: example_serve_flags_def)
  have "\<exists>s. cmdServe example_serve_env H now example_serve_flags = Inr s \<and>
    st_Signer (sr_config s) = Some example_next_ring \<and> st_IdPKeys (sr_config s) = [empty_jwk] \<and>
    st_Issuer (sr_config s) = ''sts'' \<and> (\<exists>l. st_Audit (sr_config s) = Some l \<and> lg_chainIndex l = 0) \<and>
    st_Replay (sr_config s) = Some \<lparr>rc_seen = Map.empty, rc_file = Some []\<rparr>"
    using l bind
    by (simp add: cmdServe_def usage example_serve_paths reg example_serve_loads(2-4) att rep example_serve_fields)
      (simp add: example_serve_flags_def attempt_def refuse_def)
  with that show ?thesis by blast
qed

theorem served_well_configured_witness:
  "\<exists>s. served example_serve_env example_http_env example_serve_flags s \<and> st_Issuer (sr_config s) = ''sts''"
proof -
  obtain s where s: "cmdServe example_serve_env example_http_env 0 example_serve_flags = Inr s" by (rule example_starts)
  have "served example_serve_env example_http_env example_serve_flags (serve_step example_http_env s (Sv_Reload (example_load 0x180)))"
    by (intro served.intros) (rule s)
  from served_well_configured[OF this, of example_net 0] this show ?thesis by (auto simp: example_serve_flags_def)
qed

end
