(* ===== verification/Serve_Restart.thy ===== *)
theory Serve_Restart
  imports Serve
begin

text \<open>
  Restarting the service. Its two logs are written by one and read by the next: after any run without
  torn writes the next start succeeds and knows every spent id, provided no id was so long that its
  line exceeds what the reader of the log takes. The id of a proof of possession is not bounded, so one
  token request can write such a line.
\<close>

section \<open>The logs of a running service\<close>

definition logs_ok :: "('a sts_http_env_scheme) \<Rightarrow> int \<Rightarrow> sts_config \<Rightarrow> bool" where
  "logs_ok H T c \<longleftrightarrow>
    (\<exists>l rc. st_Audit c = Some l \<and> log_agrees (he_audit H) l \<and> head_ok l \<and>
      st_Replay c = Some rc \<and> log_holds (he_records H) T rc)"

definition audit_index :: "sts_config \<Rightarrow> nat" where
  "audit_index c = (case st_Audit c of None \<Rightarrow> 0 | Some l \<Rightarrow> unat (lg_chainIndex l))"

text \<open>An event whose records are written whole, or not at all, and are short enough to be read again.\<close>

definition clean_event :: "('a sts_http_env_scheme) \<Rightarrow> service \<Rightarrow> serve_event \<Rightarrow> bool" where
  "clean_event H s ev =
    (case ev of
       Sv_Reload L \<Rightarrow> True
     | Sv_Token N sec i r \<Rightarrow>
         bounded_string (in_stamp (ti_call i)) \<and> whole_write (in_audit_io (ti_call i)) \<and>
         (\<forall>op \<in> token_ops H (at_call s N sec) i r. writes_ok (he_records H) op))"

primrec clean_run :: "('a sts_http_env_scheme) \<Rightarrow> service \<Rightarrow> serve_event list \<Rightarrow> bool" where
  "clean_run H s [] = True"
| "clean_run H s (ev # evs) = (clean_event H s ev \<and> clean_run H (serve_step H s ev) evs)"

lemma serve_step_logs:
  assumes "event_codec (he_audit H)" "logs_ok H T (sr_config s)" "clean_event H s ev"
    and "audit_index (sr_config s) + 1 < 2 ^ 64"
  shows "logs_ok H T (sr_config (serve_step H s ev)) \<and>
    audit_index (sr_config (serve_step H s ev)) \<le> audit_index (sr_config s) + 1"
proof (cases ev)
  case (Sv_Reload L)
  with assms(2) show ?thesis by (simp add: serve_step_def logs_ok_def audit_index_def Reload_keeps)
next
  case (Sv_Token N sec i r)
  obtain resp c' where h: "handleToken H (at_call s N sec) i r = (resp, c')" by fastforce
  from assms(2) obtain l rc where l: "st_Audit (sr_config s) = Some l" "log_agrees (he_audit H) l \<and> head_ok l"
    and rc: "st_Replay (sr_config s) = Some rc" "log_holds (he_records H) T rc"
    by (auto simp: logs_ok_def)
  have at: "st_Audit (at_call s N sec) = Some l" "st_Replay (at_call s N sec) = Some rc" using l(1) rc(1) by simp_all
  obtain l' ops where c': "st_Audit c' = Some l'" "appended H (ti_call i) l l'"
    "st_Replay c' = Some (final (consume_step (he_records H)) rc ops)" "set ops \<subseteq> token_ops H (at_call s N sec) i r"
    using handleToken_logs[OF h at] by metis
  from c'(2) obtain ev0 where ev0: "named_event ev0" "l' = fst (append_step (he_audit H) l
      \<lparr>ao_stamp = in_stamp (ti_call i), ao_io = in_audit_io (ti_call i), ao_event = ev0\<rparr>)"
    by (auto simp: appended_def)
  define op where "op = \<lparr>ao_stamp = in_stamp (ti_call i), ao_io = in_audit_io (ti_call i), ao_event = ev0\<rparr>"
  have op: "append_ok op" "l' = fst (append_step (he_audit H) l op)"
    using assms(3) ev0 by (simp_all add: op_def append_ok_def Sv_Token clean_event_def)
  have small: "unat (lg_chainIndex l) + 1 < 2 ^ 64" using assms(4) l(1) by (simp add: audit_index_def)
  have "log_agrees (he_audit H) l' \<and> head_ok l'"
    unfolding op(2) by (rule append_step_keeps[OF assms(1) op(1) index_no_wrap[OF small] l(2)])
  moreover have "unat (lg_chainIndex l') \<le> unat (lg_chainIndex l) + 1"
    using append_step_index[OF assms(1) op(1), of l] l(2) unat_Suc_le[of "lg_chainIndex l"] by (auto simp: op(2))
  moreover have "log_holds (he_records H) T (final (consume_step (he_records H)) rc ops)"
    by (rule log_holds_final[OF rc(2)]) (use c'(4) assms(3) in \<open>auto simp: Sv_Token clean_event_def\<close>)
  ultimately show ?thesis
    using c'(1,3) l(1) by (simp add: Sv_Token serve_step_def h logs_ok_def audit_index_def)
qed

lemma clean_run_logs:
  assumes "event_codec (he_audit H)" "logs_ok H T (sr_config s)" "clean_run H s evs"
    and "audit_index (sr_config s) + length evs < 2 ^ 64"
  shows "logs_ok H T (sr_config (foldl (serve_step H) s evs))"
  using assms(2-4)
proof (induction evs arbitrary: s)
  case (Cons ev evs)
  have "logs_ok H T (sr_config (serve_step H s ev)) \<and>
      audit_index (sr_config (serve_step H s ev)) \<le> audit_index (sr_config s) + 1"
    by (rule serve_step_logs[OF assms(1)]) (use Cons.prems in simp_all)
  with Cons show ?case by simp
qed simp

lemma log_agrees_reopens:
  assumes "log_agrees J l"
  shows "\<exists>l'. NewLogger J (the (lg_file l)) = Inr l' \<and> (lg_poisoned l \<or> l' = l)"
proof -
  obtain ls evs where disk: "lg_file l = Some (unlines ls)" "\<forall>x \<in> set ls. CHR 0x0A \<notin> set x" "chain_events J None ls = Inr evs"
    and heads: "\<not> lg_poisoned l \<longrightarrow> lg_prevHash l = head_hash (last_event None evs) \<and>
      lg_chainIndex l = head_index (last_event None evs)"
    using assms unfolding log_agrees_def by blast
  let ?l' = "\<lparr>lg_file = Some (unlines ls), lg_prevHash = head_hash (last_event None evs),
    lg_chainIndex = head_index (last_event None evs), lg_poisoned = False\<rparr>"
  have "NewLogger J (the (lg_file l)) = Inr ?l'" using NewLogger_Inr[OF disk(2), of J ?l'] disk by simp
  moreover have "lg_poisoned l \<or> ?l' = l" using heads disk(1) by (cases l) auto
  ultimately show ?thesis by blast
qed

section \<open>The next start\<close>

definition on_disk :: "('a serve_env_scheme) \<Rightarrow> serve_flags \<Rightarrow> sts_config \<Rightarrow> 'a serve_env_scheme" where
  "on_disk V f c =
    V\<lparr>sv_open := (\<lambda>p. if p = fl_audit_log f then Inr (the (lg_file (the (st_Audit c))))
       else if p = fl_replay_log f then Inr (the (rc_file (the (st_Replay c)))) else sv_open V p)\<rparr>"

lemma on_disk_fields [simp]:
  "ld_fs (on_disk V f c) = ld_fs V" "ld_next (on_disk V f c) = ld_next V" "ld_registry (on_disk V f c) = ld_registry V"
  "ld_denylist (on_disk V f c) = ld_denylist V" "ld_keyfile (on_disk V f c) = ld_keyfile V"
  "ld_keyring (on_disk V f c) = ld_keyring V" "ld_members (on_disk V f c) = ld_members V" "ld_time (on_disk V f c) = ld_time V"
  "ld_url (on_disk V f c) = ld_url V" "tl_jwks (on_disk V f c) = tl_jwks V" "tl_wrapped (on_disk V f c) = tl_wrapped V"
  "sv_text (on_disk V f c) = sv_text V" "sv_net (on_disk V f c) = sv_net V" "sv_ident (on_disk V f c) = sv_ident V"
  "sv_ip (on_disk V f c) = sv_ip V"
  by (simp_all add: on_disk_def)

lemma on_disk_parts [simp]:
  "registry_LoadJSON (on_disk V f c) b = registry_LoadJSON V b" "denylist_LoadJSON (on_disk V f c) b = denylist_LoadJSON V b"
  "ParseSigningMaterial (on_disk V f c) b = ParseSigningMaterial V b" "ParseJWKS (on_disk V f c) b = ParseJWKS V b"
  unfolding registry_LoadJSON_def denylist_LoadJSON_def ParseSigningMaterial_def ParseJWKS_def on_disk_fields by (rule refl)+

lemma on_disk_simps [simp]:
  "registry_LoadFile (on_disk V f c) p = registry_LoadFile V p"
  "CheckSecretFileMode (on_disk V f c) p = CheckSecretFileMode V p"
  "LoadSigningFile (on_disk V f c) H p = LoadSigningFile V H p"
  "loadJWKS (on_disk V f c) p = loadJWKS V p" "denylist_LoadFile (on_disk V f c) p = denylist_LoadFile V p"
  unfolding registry_LoadFile_def LoadSigningFile_def CheckSecretFileMode_def loadJWKS_def denylist_LoadFile_def
    on_disk_fields on_disk_parts by (rule refl)+

lemma live_spiffe_on_disk: "live_spiffe (on_disk V f c) = live_spiffe V"
  by (intro ext) (simp only: live_spiffe_def on_disk_fields)

lemma serve_attestor_on_disk [simp]: "serve_attestor (on_disk V f c) g wl = serve_attestor V g wl"
  by (simp add: serve_attestor_def live_spiffe_on_disk)

text \<open>The two logs are different files, because their paths were compared at the start.\<close>

lemma started_logs_differ:
  assumes "cmdServe V H now f = Inr s"
  shows "fl_audit_log f \<noteq> fl_replay_log f"
proof
  assume same: "fl_audit_log f = fl_replay_log f"
  have "fl_audit_log f \<noteq> []" "RejectAliased (sv_ident V) (serve_files f) = None"
    using assms by (auto simp: cmdServe_def serve_usage_def split: if_splits)
  from this(2) have "filesAlias (sv_ident V) (fl_audit_log f) (fl_replay_log f) = Inr False"
    unfolding RejectAliased_None using same \<open>fl_audit_log f \<noteq> []\<close> by (simp add: serve_files_def)
  with same \<open>fl_audit_log f \<noteq> []\<close> show False by (auto simp: filesAlias_def split: sum.splits if_splits)
qed

lemma cmdServe_open:
  assumes "cmdServe V H now f = Inr s"
  obtains l rc where "st_Audit (sr_config s) = Some l" "open_audit V (he_audit H) (fl_audit_log f) = Inr l"
    "st_Replay (sr_config s) = Some rc" "open_replay V (he_records H) now (fl_replay_log f) = Inr rc"
  using assms by (auto simp: cmdServe_def split: option.splits)

text \<open>A start needs of the logs only that they open.\<close>

lemma cmdServe_again:
  assumes "cmdServe V H now f = Inr s" "open_audit (on_disk V f c) (he_audit H) (fl_audit_log f) = Inr l"
    and "open_replay (on_disk V f c) (he_records H) now' (fl_replay_log f) = Inr rc"
  obtains s' where "cmdServe (on_disk V f c) H now' f = Inr s'" "st_Audit (sr_config s') = Some l"
    "st_Replay (sr_config s') = Some rc"
proof -
  have "\<exists>s'. cmdServe (on_disk V f c) H now' f = Inr s' \<and> st_Audit (sr_config s') = Some l \<and>
      st_Replay (sr_config s') = Some rc"
    using assms unfolding cmdServe_def by (auto split: option.splits)
  with that show ?thesis by blast
qed

text \<open>C37: The service restarts where it stopped. After a start on logs of whole lines and any run of
  requests and reloads whose log writes are not torn and whose ids fit a line, the next start with the
  same flags finds both logs good: the audit log goes on at the same hash and index, unless a failed
  write had stopped the logger, and every id that was spent is spent. That the two logs are not one
  file is the doing of the path check at the start.\<close>

theorem restarts_where_it_stopped:
  assumes start: "cmdServe V H now f = Inr s0"
    and logs: "sv_open V (fl_audit_log f) = Inr (unlines als)" "\<forall>x \<in> set als. CHR 0x0A \<notin> set x"
      "sv_open V (fl_replay_log f) = Inr (unlines rls)" "\<forall>x \<in> set rls. CHR 0x0A \<notin> set x"
    and run: "event_codec (he_audit H)" "clean_run H s0 evs" "audit_index (sr_config s0) + length evs < 2 ^ 64"
    and later: "unix now \<le> unix now'"
  shows "\<exists>l rc s l' rc'. st_Audit (sr_config (foldl (serve_step H) s0 evs)) = Some l \<and>
    st_Replay (sr_config (foldl (serve_step H) s0 evs)) = Some rc \<and>
    cmdServe (on_disk V f (sr_config (foldl (serve_step H) s0 evs))) H now' f = Inr s \<and>
    st_Audit (sr_config s) = Some l' \<and> (lg_poisoned l \<or> l' = l) \<and>
    st_Replay (sr_config s) = Some rc' \<and> (\<forall>k t. unix now' \<le> t \<longrightarrow> consumed rc k t \<longrightarrow> consumed rc' k t)"
proof -
  let ?c = "sr_config (foldl (serve_step H) s0 evs)"
  obtain l0 rc0 where s0: "st_Audit (sr_config s0) = Some l0" "NewLogger (he_audit H) (unlines als) = Inr l0"
    "st_Replay (sr_config s0) = Some rc0" "OpenReplayCache (he_records H) (unlines rls) now = Inr rc0"
    and mode: "CheckSecretFileMode V (fl_replay_log f) = None" "fl_replay_log f \<noteq> []"
  proof -
    obtain l rc where o: "st_Audit (sr_config s0) = Some l" "open_audit V (he_audit H) (fl_audit_log f) = Inr l"
      "st_Replay (sr_config s0) = Some rc" "open_replay V (he_records H) now (fl_replay_log f) = Inr rc"
      by (rule cmdServe_open[OF start])
    show ?thesis by (rule that[of l rc]) (use o logs(1,3) in \<open>auto simp: open_audit_def open_replay_def split: if_splits\<close>)
  qed
  have "logs_ok H (unix now) (sr_config s0)"
    using NewLogger_agrees[OF s0(2) logs(2)] Open_log_holds[OF s0(4) logs(4)] s0(1,3) by (simp add: logs_ok_def)
  then have "logs_ok H (unix now) ?c" by (rule clean_run_logs[OF run(1) _ run(2,3)])
  then obtain l rc where c: "st_Audit ?c = Some l" "log_agrees (he_audit H) l" "st_Replay ?c = Some rc"
    "log_holds (he_records H) (unix now) rc" by (auto simp: logs_ok_def)
  obtain l' where l': "NewLogger (he_audit H) (the (lg_file l)) = Inr l'" "lg_poisoned l \<or> l' = l"
    using log_agrees_reopens[OF c(2)] by blast
  obtain rc' where rc': "OpenReplayCache (he_records H) (the (rc_file rc)) now' = Inr rc'"
    "\<forall>k t. unix now' \<le> t \<longrightarrow> consumed rc k t \<longrightarrow> consumed rc' k t"
    using reopen[OF c(4) later] by blast
  have open_a: "open_audit (on_disk V f ?c) (he_audit H) (fl_audit_log f) = Inr l'"
    using c(1) l'(1) by (simp add: open_audit_def) (simp add: on_disk_def)
  have open_r: "open_replay (on_disk V f ?c) (he_records H) now' (fl_replay_log f) = Inr rc'"
    using c(3) rc'(1) mode started_logs_differ[OF start] by (simp add: open_replay_def) (simp add: on_disk_def)
  obtain s where "cmdServe (on_disk V f ?c) H now' f = Inr s" "st_Audit (sr_config s) = Some l'"
    "st_Replay (sr_config s) = Some rc'"
    by (rule cmdServe_again[OF start open_a open_r])
  with c(1,3) l'(2) rc'(2) show ?thesis by blast
qed

section \<open>A line that is too long\<close>

lemma split_on_long:
  "CHR 0x0A \<notin> set m \<Longrightarrow> \<exists>x \<in> set (split_on CHR 0x0A (log @ m @ [CHR 0x0A] @ post)). length m \<le> length x"
proof (induction log)
  case Nil
  then show ?case using split_on_append[of "CHR 0x0A" m post] by simp
next
  case (Cons x log)
  then obtain y where y: "y \<in> set (split_on CHR 0x0A (log @ m @ [CHR 0x0A] @ post))" "length m \<le> length y" by blast
  show ?case
  proof (cases "split_on CHR 0x0A (log @ m @ [CHR 0x0A] @ post)")
    case Nil
    with y(1) show ?thesis by simp
  next
    case (Cons h t)
    with y have "length m \<le> length h \<or> (\<exists>y \<in> set t. length m \<le> length y)" by auto
    with Cons show ?thesis by auto
  qed
qed

lemma raw_lines_long:
  assumes "CHR 0x0A \<notin> set m" "m \<noteq> []"
  shows "\<exists>x \<in> set (raw_lines (log @ m @ [CHR 0x0A] @ post)). length m \<le> length x"
proof -
  define ls where "ls = split_on CHR 0x0A (log @ m @ [CHR 0x0A] @ post)"
  obtain x where x: "x \<in> set ls" "length m \<le> length x" using split_on_long[OF assms(1)] unfolding ls_def by blast
  then have "x \<noteq> []" using assms(2) by auto
  with x have "x \<in> set (if last ls = [] then butlast ls else ls)" by (cases ls rule: rev_cases) auto
  moreover have "raw_lines (log @ m @ [CHR 0x0A] @ post) = (if last ls = [] then butlast ls else ls)"
    unfolding raw_lines_def Let_def ls_def by (rule refl)
  ultimately show ?thesis using x(2) by auto
qed

lemma recover_long: "\<exists>x \<in> set ls. max_line \<le> length x \<Longrightarrow> \<exists>e. recover_lines J sec seen ls = Inl e"
  by (induction ls arbitrary: seen) (auto simp: Let_def split: sum.split)

lemma consume_step_extends:
  "rc_file s = Some log \<Longrightarrow> \<exists>post. rc_file (fst (consume_step J s op)) = Some (log @ post)"
  by (auto simp: consume_step_def cache_Consume_def append_log_def append_bytes_def Let_def split: option.split prod.split)

lemma consume_step_writes:
  assumes "snd (consume_step J s op)" "rc_file s = Some log"
  shows "rc_file (fst (consume_step J s op)) =
    Some (log @ Marshal_record J \<lparr>rr_JTI = co_jti op, rr_Until = ReplayUntil (co_exp op)\<rparr> @ [CHR 0x0A])"
  using assms
  by (auto simp: consume_step_def cache_Consume_def append_log_def Let_def split: option.splits prod.splits if_splits
      dest: append_bytes_True)

lemma open_replay_long:
  assumes "sv_open V (fl_replay_log f) = Inr (log @ m @ [CHR 0x0A] @ post)" "CHR 0x0A \<notin> set m" "max_line \<le> length m"
  shows "\<exists>e. cmdServe V H now f = Inl e"
proof (cases "cmdServe V H now f")
  case (Inr s)
  obtain rc where "open_replay V (he_records H) now (fl_replay_log f) = Inr rc" using cmdServe_open[OF Inr] by blast
  then have "OpenReplayCache (he_records H) (log @ m @ [CHR 0x0A] @ post) now = Inr rc"
    using assms(1) by (auto simp: open_replay_def split: if_splits)
  moreover have "m \<noteq> []" using assms(3) by (auto simp: max_line_def)
  then have "\<exists>e. recover_lines (he_records H) (unix now) Map.empty (raw_lines (log @ m @ [CHR 0x0A] @ post)) = Inl e"
    using raw_lines_long[OF assms(2)] assms(3) by (intro recover_long) (meson order_trans)
  ultimately show ?thesis by (auto simp: OpenReplayCache_def)
qed simp

text \<open>C38: One request can keep the service from starting again. The id of a proof of possession is written
  to the replay log as it comes. If a token request carries a proof that verifies, with an id never seen
  whose log line has a megabyte or more, the proof's id is spent, whatever the subject and actor tokens
  of the request are and whatever it is answered, and no later start on that log succeeds.\<close>

theorem long_proof_id_stops_restart:
  assumes "st_Replay (at_call s N sec) = Some rc" "st_Audit (at_call s N sec) = Some l" "rc_file rc = Some log"
    and request: "ti_allow i" "ParseForm (he_ParseMediaType H) maxTokenBody (ti_read_ok i) r = Some form"
      "\<not> is_blank (header_Get (hr_Header r) ''DPoP'')"
      "dpop_Verify H (ti_wall i) (Some r) [] [] (ti_proof_now i) = Inr pf"
      "snd (consume_step (he_records H) rc (token_use i pf))"
  defines "line \<equiv> Marshal_record (he_records H) \<lparr>rr_JTI = ReplayJTI (pr_JTI pf), rr_Until = ReplayUntil (pr_IAT pf)\<rparr>"
  assumes long: "CHR 0x0A \<notin> set line" "max_line \<le> length line"
  shows "\<exists>rc' log'. st_Replay (sr_config (serve_step H s (Sv_Token N sec i r))) = Some rc' \<and> rc_file rc' = Some log' \<and>
    (\<forall>V now' f. sv_open V (fl_replay_log f) = Inr log' \<longrightarrow> (\<exists>e. cmdServe V H now' f = Inl e))"
proof -
  let ?c = "at_call s N sec"
  let ?rc1 = "fst (consume_step (he_records H) rc (token_use i pf))"
  have file1: "rc_file ?rc1 = Some (log @ line @ [CHR 0x0A])"
    using consume_step_writes[OF request(5) assms(3)] by (simp add: line_def)
  have proof_ok: "token_proof H (Some rc) i r = (Inr (pr_JKT pf), Some ?rc1)"
    by (cases rule: token_proof_cases[of r H "Some rc" i]) (use request(3-5) in auto)
  let ?c1 = "?c\<lparr>st_Replay := Some ?rc1\<rparr>"
  obtain res c' where x: "Exchange (exchange_env H) ?c1 (ti_call i) ((form_request form)\<lparr>rq_ConfirmJKT := pr_JKT pf\<rparr>) = (res, c')"
    by fastforce
  have h: "handleToken H ?c i r = (token_answer res, c')"
    using request(1,2) proof_ok assms(1) x by (simp add: handleToken_def)
  have pre: "st_Audit ?c1 = Some l" "st_Replay ?c1 = Some ?rc1" using assms(2) by simp_all
  obtain l' rc' where rc': "st_Replay c' = Some rc'" "rc' = ?rc1 \<or> (\<exists>op. rc' = fst (consume_step (he_records H) ?rc1 op))"
    using Exchange_logs[OF x pre] by metis
  obtain post where post: "rc_file rc' = Some ((log @ line @ [CHR 0x0A]) @ post)"
    using rc'(2) consume_step_extends[OF file1, of "he_records H"] file1 that[of "[]"] by auto
  have "st_Replay (sr_config (serve_step H s (Sv_Token N sec i r))) = Some rc'"
    using rc'(1) h by (simp add: serve_step_def)
  moreover have "\<exists>e. cmdServe V H now' f = Inl e" if "sv_open V (fl_replay_log f) = Inr ((log @ line @ [CHR 0x0A]) @ post)" for V now' f
    by (rule open_replay_long[OF _ long]) (use that in simp)
  ultimately show ?thesis using post by blast
qed

section \<open>The example service restarts\<close>

lemma example_call_form:
  "ParseForm (he_ParseMediaType (example_http_env_for cs pcs)) maxTokenBody True (example_call_with rnd) =
    Some (sort_key fst (exchange_form (user_request example_http_cs)))"
  by (rule ParseForm_delivered[where out = "example_call_with rnd"])
    (use example_form_short in \<open>simp_all add: example_post_delivers example_call_with_def body_bytes_def\<close>,
     simp_all add: example_token_post_def body_bytes_def)

lemma example_call_subject:
  "values_Get (sort_key fst (exchange_form (user_request cs))) ''subject_token'' = rq_SubjectToken (user_request cs)"
  using arg_cong[OF form_request_posted[of "[]" "user_request cs"], of rq_SubjectToken]
  by (simp add: form_request_def posted_def)

lemma example_ops:
  assumes "st_Signer (sr_config s) = Some example_next_ring"
  shows "token_ops (example_http_env_for example_http_cs [example_proof_with rnd]) (at_call s N sec) example_token_inputs
      (example_call_with rnd) =
    {token_use example_token_inputs \<lparr>pr_JTI = dpop_newJTI rnd, pr_IAT = 500, pr_JKT = holder_jkt, pr_Nonce = TrimSpace []\<rparr>}"
proof -
  have "sg_kid idp_signer \<notin> k_kid ` set (keyring_JWKS (example_sts_env example_http_cs) (Some example_next_ring))"
    by (simp add: keyring_JWKS_def example_next_ring_def jwksFrom_def example_ring_def idp_signer_def)
  then obtain e where "jws_Verify (example_sts_env example_http_cs) (rq_SubjectToken (user_request example_http_cs))
      (keyring_JWKS (example_sts_env example_http_cs) (Some example_next_ring)) = Inl e"
    using example_not_verified[of user_claims example_http_cs idp_signer]
    by (auto simp: example_http_cs_def idp_signer_def user_request_def)
  then have "verifySubject (example_sts_env example_http_cs) iss (rq_SubjectToken (user_request example_http_cs))
      (snapshot (at_call s N sec)) \<noteq> Inr (sub, True)" for iss sub
    by (auto simp: verifySubject_def snapshot_def assms split: sum.splits if_splits)
  moreover have "ti_read_ok example_token_inputs" "ti_wall example_token_inputs = 0"
    "ti_proof_now example_token_inputs = 520 * second" by (simp_all add: example_token_inputs_def)
  ultimately show ?thesis
    using example_call_with_verified[of rnd]
    by (auto simp: token_ops_def example_call_form example_call_subject)
qed

lemma hex_encode_digits:
  assumes "c \<notin> set ''0123456789abcdef''"
  shows "c \<notin> set (hex_encode b)"
proof -
  have "hex_digit n \<in> set ''0123456789abcdef''" for n
    unfolding hex_digit_def by (rule nth_mem) simp
  with assms have "c \<noteq> hex_digit n" for n by metis
  then show ?thesis by (induction b) (simp_all add: hex_encode_def)
qed

lemma example_token_use:
  "ti_proof_replay_now example_token_inputs = 500 * second" "whole_write (co_io (token_use example_token_inputs pf))"
  "co_io (token_use example_token_inputs pf) = \<lparr>io_written = None, io_synced = True\<rparr>"
  by (simp_all add: token_use_def example_token_inputs_def whole_write_def)

theorem restarts_where_it_stopped_witness:
  "\<exists>s0 s. cmdServe example_serve_env example_http_env 0 example_serve_flags = Inr s0 \<and>
    cmdServe (on_disk example_serve_env example_serve_flags
        (sr_config (serve_step example_http_env s0 (Sv_Token example_net 500 example_token_inputs example_token_call))))
      example_http_env (500 * second) example_serve_flags = Inr s"
proof -
  obtain s0 l where s0: "cmdServe example_serve_env example_http_env 0 example_serve_flags = Inr s0"
    "st_Signer (sr_config s0) = Some example_next_ring" "st_Audit (sr_config s0) = Some l" "lg_chainIndex l = 0"
    by (rule example_starts) auto
  let ?pf = "\<lparr>pr_JTI = dpop_newJTI ''0123456789abcdef'', pr_IAT = 500, pr_JKT = holder_jkt, pr_Nonce = TrimSpace []\<rparr>"
  let ?ev = "Sv_Token example_net 500 example_token_inputs example_token_call"
  have "record_ok example_records \<lparr>rr_JTI = ReplayJTI (dpop_newJTI ''0123456789abcdef''), rr_Until = 530\<rparr>"
    by (rule example_record_ok)
      (simp_all add: ReplayJTI_def dpop_newJTI_def ReplayPrefix_def hex_encode_digits max_line_def)
  then have "writes_ok example_records (token_use example_token_inputs ?pf)"
    using example_token_use(2)[of ?pf] by (simp add: writes_ok_def ReplayUntil_def i64_def)
  then have "clean_run example_http_env s0 [?ev]"
    using example_stamp
    by (simp add: clean_event_def example_http_env_def example_token_call_def example_ops[OF s0(2)])
      (simp add: example_token_inputs_def example_inputs_def whole_write_def)
  moreover have "event_codec (he_audit example_http_env)" using example_event_codec' by (simp add: example_http_env_def)
  moreover have "sv_open example_serve_env p = Inr (unlines [])" for p by (simp add: example_serve_fields unlines_def)
  moreover have "audit_index (sr_config s0) + length [?ev] < 2 ^ 64" by (simp add: audit_index_def s0(3,4))
  ultimately have "\<exists>l rc s l' rc'. st_Audit (sr_config (foldl (serve_step example_http_env) s0 [?ev])) = Some l \<and>
    st_Replay (sr_config (foldl (serve_step example_http_env) s0 [?ev])) = Some rc \<and>
    cmdServe (on_disk example_serve_env example_serve_flags (sr_config (foldl (serve_step example_http_env) s0 [?ev])))
      example_http_env (500 * second) example_serve_flags = Inr s \<and>
    st_Audit (sr_config s) = Some l' \<and> (lg_poisoned l \<or> l' = l) \<and>
    st_Replay (sr_config s) = Some rc' \<and> (\<forall>k t. unix (500 * second) \<le> t \<longrightarrow> consumed rc k t \<longrightarrow> consumed rc' k t)"
    by (intro restarts_where_it_stopped[OF s0(1), where als = "[]" and rls = "[]"]) (simp_all add: unix_def)
  with s0(1) show ?thesis by auto
qed

theorem long_proof_id_stops_restart_witness:
  "\<exists>(rnd :: bytes) s rc' log'. cmdServe example_serve_env (example_http_env_for example_http_cs [example_proof_with rnd]) 0
      example_serve_flags = Inr s \<and>
    st_Replay (sr_config (serve_step (example_http_env_for example_http_cs [example_proof_with rnd]) s
      (Sv_Token example_net 500 example_token_inputs (example_call_with rnd)))) = Some rc' \<and> rc_file rc' = Some log' \<and>
    (\<exists>e. cmdServe (example_serve_env\<lparr>sv_open := (\<lambda>p. Inr log')\<rparr>)
      (example_http_env_for example_http_cs [example_proof_with rnd]) 0 example_serve_flags = Inl e)"
proof -
  define rnd where "rnd = replicate 524288 CHR ''x''"
  define H where "H = example_http_env_for example_http_cs [example_proof_with rnd]"
  obtain s l where s: "cmdServe example_serve_env H 0 example_serve_flags = Inr s"
    "st_Audit (sr_config s) = Some l" "st_Replay (sr_config s) = Some \<lparr>rc_seen = Map.empty, rc_file = Some []\<rparr>"
    by (rule example_starts) auto
  let ?pf = "\<lparr>pr_JTI = dpop_newJTI rnd, pr_IAT = 500, pr_JKT = holder_jkt, pr_Nonce = TrimSpace []\<rparr>"
  have verified: "dpop_Verify H (ti_wall example_token_inputs) (Some (example_call_with rnd)) [] []
      (ti_proof_now example_token_inputs) = Inr ?pf"
    using example_call_with_verified[of rnd] by (simp add: H_def example_token_inputs_def)
  have rec: "he_records H = example_records" by (simp add: H_def)
  have parse: "ParseForm (he_ParseMediaType H) maxTokenBody (ti_read_ok example_token_inputs) (example_call_with rnd) =
      Some (sort_key fst (exchange_form (user_request example_http_cs)))" "ti_allow example_token_inputs"
    using example_call_form[of example_http_cs "[example_proof_with rnd]" rnd] by (simp_all add: H_def example_token_inputs_def)
  have "snd (consume_step example_records \<lparr>rc_seen = Map.empty, rc_file = Some []\<rparr> (token_use example_token_inputs ?pf))"
    by (simp add: consume_step_def cache_Consume_def append_log_def append_bytes_def example_token_use replayed_iff
        purgeLocked_def ReplayUntil_def unix_def ReplayJTI_def dpop_newJTI_def i64_def Let_def)
  moreover have "ReplayUntil 500 = 530" by (simp add: ReplayUntil_def i64_def)
  moreover have "max_line \<le> length (Marshal_record example_records \<lparr>rr_JTI = ReplayJTI (dpop_newJTI rnd), rr_Until = 530\<rparr>)"
    by (simp add: example_records_def ReplayJTI_def dpop_newJTI_def max_line_def) (simp add: rnd_def)
  moreover have "CHR 0x0A \<notin> set (Marshal_record example_records \<lparr>rr_JTI = ReplayJTI (dpop_newJTI rnd), rr_Until = 530\<rparr>)"
    by (simp add: example_records_def ReplayJTI_def dpop_newJTI_def hex_encode_digits ReplayPrefix_def)
  ultimately have "\<exists>rc' log'. st_Replay (sr_config (serve_step H s (Sv_Token example_net 500 example_token_inputs (example_call_with rnd))))
      = Some rc' \<and> rc_file rc' = Some log' \<and>
    (\<forall>(V :: serve_env) now' f. sv_open V (fl_replay_log f) = Inr log' \<longrightarrow> (\<exists>e. cmdServe V H now' f = Inl e))"
    using verified_not_blank[OF verified] s(2,3) verified
    by (intro long_proof_id_stops_restart[where pf = ?pf and rc = "\<lparr>rc_seen = Map.empty, rc_file = Some []\<rparr>" and log = "[]" and l = l
          and form = "sort_key fst (exchange_form (user_request example_http_cs))"])
      (simp_all add: rec parse)
  then obtain rc' log' where "st_Replay (sr_config (serve_step H s (Sv_Token example_net 500 example_token_inputs (example_call_with rnd))))
      = Some rc'" "rc_file rc' = Some log'"
    "\<exists>e. cmdServe (example_serve_env\<lparr>sv_open := (\<lambda>p. Inr log')\<rparr>) H 0 example_serve_flags = Inl e" by auto
  with s(1) show ?thesis unfolding H_def by blast
qed

end
