(* ===== verification/Gateway_Start.thy ===== *)
theory Gateway_Start
  imports Serve_Restart Gateway_Properties
begin

text \<open>
  \<^verbatim>\<open>visor-gateway\<close> of \<^verbatim>\<open>cmd/agent-identity-plane\<close>: from its parsed flags to the running gateway, with
  \<^verbatim>\<open>gateway.NewServer\<close> and \<^verbatim>\<open>denylist.Live\<close>. The two live sources read their file, or ask their URL, in every
  request: a request of the running gateway is one of \<^verbatim>\<open>Gateway\<close> whose inputs are what the sources answer
  then. Also the restart of the gateway on the logs of an earlier run.
\<close>

section \<open>Starting\<close>

text \<open>A rate is a finite \<^verbatim>\<open>float64\<close>: its mantissa and its binary exponent.\<close>

type_synonym rate = "int \<times> int"

record gateway_flags =
  wf_listen :: bytes
  wf_audience :: bytes
  wf_issuer :: bytes
  wf_jwks :: bytes
  wf_jwks_url :: bytes
  wf_backend :: bytes
  wf_identity_only :: bool
  wf_short :: bool
  wf_audit_log :: bytes
  wf_denylist :: bytes
  wf_dpop_replay :: bytes
  wf_tls_cert :: bytes
  wf_tls_key :: bytes
  wf_rate_limit :: rate

datatype gateway_error = Gs_Usage bytes | Gs_Serve serve_error | Gs_Backend | Gs_Server bytes

record gateway_start_env = serve_env +
  gv_load_text :: "load_error \<Rightarrow> bytes"

definition gateway_usage :: "gateway_flags \<Rightarrow> gateway_error option" where
  "gateway_usage f =
    (if wf_audit_log f = [] \<or> wf_denylist f = [] \<or> wf_dpop_replay f = []
       then Some (Gs_Usage ''requires -audit-log, -denylist, and -dpop-replay'')
     else if wf_backend f \<noteq> [] \<and> wf_identity_only f then Some (Gs_Usage ''use -backend or -identity-only, not both'')
     else if wf_backend f = [] \<and> \<not> wf_identity_only f then Some (Gs_Usage ''requires -backend or -identity-only'')
     else None)"

definition gateway_files :: "gateway_flags \<Rightarrow> named list" where
  "gateway_files f =
    [\<lparr>nm_Flag = ''-audit-log'', nm_Path = wf_audit_log f\<rparr>, \<lparr>nm_Flag = ''-denylist'', nm_Path = wf_denylist f\<rparr>,
     \<lparr>nm_Flag = ''-dpop-replay'', nm_Path = wf_dpop_replay f\<rparr>, \<lparr>nm_Flag = ''-jwks'', nm_Path = wf_jwks f\<rparr>,
     \<lparr>nm_Flag = ''-tls-cert'', nm_Path = wf_tls_cert f\<rparr>, \<lparr>nm_Flag = ''-tls-key'', nm_Path = wf_tls_key f\<rparr>]"

text \<open>The source is tried once; the function it gives reads the file as it is when it is called.\<close>

definition denylist_Live :: "('a load_env_scheme) \<Rightarrow> bytes \<Rightarrow> serve_error + (load_env \<Rightarrow> load_error + denylist)" where
  "denylist_Live L path =
    (if path = [] then Inl Serve_Required
     else attempt Serve_Load (denylist_LoadFile L path) (\<lambda>_. Inr (\<lambda>L'. denylist_LoadFile L' path)))"

definition gateway_backend :: "('a net_env_scheme) \<Rightarrow> gateway_flags \<Rightarrow> gateway_error + http_url option" where
  "gateway_backend N f =
    (if wf_backend f = [] then Inr None
     else (case nt_Parse N (wf_backend f) of
       None \<Rightarrow> Inl Gs_Backend
     | Some u \<Rightarrow> if CheckBackend (Some u) then Inr (Some u) else Inl Gs_Backend))"

text \<open>The bind address, and the configuration with its nonce cache.\<close>

definition gateway_NewServer ::
  "(bytes \<Rightarrow> nat list option) \<Rightarrow> bytes \<Rightarrow> bytes \<Rightarrow> bytes \<Rightarrow> gateway \<Rightarrow> gateway_error + (bytes \<times> gateway)" where
  "gateway_NewServer ip bind cert key g =
    (let addr = (if bind = [] then ''127.0.0.1:8090'' else bind) in
     if \<not> ValidateBind ip addr then Inl (Gs_Server ''bind'')
     else if (cert = []) \<noteq> (key = []) then Inl (Gs_Server ''-tls-cert and -tls-key must be set together'')
     else if gw_Audience g = [] \<or> is_blank (vf_Issuer (gw_Verifier g))
       then Inl (Gs_Server ''verifier, audience, and issuer required'')
     else if gw_Audit g = None then Inl (Gs_Server ''audit required'')
     else if gw_ProofReplay g = None then Inl (Gs_Server ''DPoP replay cache required'')
     else if \<not> gw_IdentityOnly g \<and> gw_Backend g = None then Inl (Gs_Server ''-backend or -identity-only is required'')
     else if \<not> CheckBackend (gw_Backend g) then Inl Gs_Backend
     else Inr (addr, initNonces g))"

definition gateway_config :: "gateway_flags \<Rightarrow> logger \<Rightarrow> replay_cache \<Rightarrow> http_url option \<Rightarrow> gateway" where
  "gateway_config f log proofs backend =
    \<lparr>gw_Audience = wf_audience f,
     gw_Verifier = \<lparr>vf_Keys = [], vf_KeysFn = None, vf_Issuer = wf_issuer f\<rparr>, gw_Audit = Some log,
     gw_Backend = backend, gw_IdentityOnly = wf_identity_only f, gw_ShortName = wf_short f,
     gw_ProofReplay = Some proofs, gw_Nonces = None,
     gw_Metrics = \<lparr>gm_Allowed = 0, gm_Denied = 0, gm_RateLimited = 0\<rparr>\<rparr>"

lemma gateway_config_fields:
  "gw_Audience (gateway_config f log proofs b) = wf_audience f" "vf_Issuer (gw_Verifier (gateway_config f log proofs b)) = wf_issuer f"
  "gw_Audit (gateway_config f log proofs b) = Some log" "gw_Backend (gateway_config f log proofs b) = b"
  "gw_IdentityOnly (gateway_config f log proofs b) = wf_identity_only f"
  "gw_ProofReplay (gateway_config f log proofs b) = Some proofs"
  by (simp_all add: gateway_config_def)

text \<open>\<^verbatim>\<open>initLimiter\<close>: a bucket for a positive rate, none otherwise.\<close>

definition initLimiter :: "rate \<Rightarrow> rate option" where
  "initLimiter r = (if fst r > 0 then Some r else None)"

record gateway_service =
  gs_config :: gateway
  gs_limiter :: "rate option"
  gs_keys :: "net_env \<Rightarrow> bytes + jwks"
  gs_denylist :: "load_env \<Rightarrow> bytes + denylist option"

definition cmdVisorGateway ::
  "('a gateway_start_env_scheme) \<Rightarrow> ('b gateway_env_scheme) \<Rightarrow> instant \<Rightarrow> gateway_flags \<Rightarrow> gateway_error + gateway_service" where
  "cmdVisorGateway V G now f =
    refuse id (gateway_usage f)
   (attempt (\<lambda>e. Gs_Serve (Serve_Source e)) (LiveJWKS (sv_net V) (wf_jwks f) (wf_jwks_url f)) (\<lambda>fn.
    refuse (\<lambda>e. Gs_Serve (Serve_Ident e)) (RejectAliased (sv_ident V) (gateway_files f))
   (attempt Gs_Serve (open_audit V (ge_audit G) (wf_audit_log f)) (\<lambda>log.
    attempt Gs_Serve (denylist_Live V (wf_denylist f)) (\<lambda>dl.
    attempt Gs_Serve (open_replay V (ge_records G) now (wf_dpop_replay f)) (\<lambda>proofs.
    attempt id (gateway_backend (sv_net V) f) (\<lambda>backend.
    attempt id (gateway_NewServer (sv_ip V) (wf_listen f) (wf_tls_cert f) (wf_tls_key f)
        (gateway_config f log proofs backend)) (\<lambda>(addr, g).
      Inr \<lparr>gs_config = g, gs_limiter = initLimiter (wf_rate_limit f),
        gs_keys = (\<lambda>N. case fn N of Inl e \<Rightarrow> Inl (sv_text V e) | Inr ks \<Rightarrow> Inr ks),
        gs_denylist = (\<lambda>L. case dl L of Inl e \<Rightarrow> Inl (gv_load_text V e) | Inr d \<Rightarrow> Inr (Some d))\<rparr>))))))))"

text \<open>The counters of the gateway; the texts are those of \<^verbatim>\<open>/metrics\<close>.\<close>

definition gateway_metrics :: "gateway \<Rightarrow> sts_body http_response" where
  "gateway_metrics g =
    (let m = gw_Metrics g in
     \<lparr>rs_Status = StatusOK, rs_Header = header_Set Map.empty ''Content-Type'' ''text/plain; version=0.0.4'',
      rs_Body = Sb_Counters
        [(''aip_gateway_allowed_total'', gm_Allowed m), (''aip_gateway_denied_total'', gm_Denied m),
         (''aip_gateway_rate_limited_total'', gm_RateLimited m)]\<rparr>)"

section \<open>Running\<close>

text \<open>A call: the network and the files as they are then, the other inputs, and the request. Whether the
  bucket has a token left is an input, which counts if there is a bucket.\<close>

type_synonym gateway_call = "net_env \<times> load_env \<times> gateway_inputs \<times> http_request"

definition live_event :: "gateway_service \<Rightarrow> gateway_call \<Rightarrow> gw_event" where
  "live_event s = (\<lambda>(N, L, i, r). (i\<lparr>gi_allow := (gs_limiter s = None \<or> gi_allow i), gi_keys := Some (gs_keys s N),
    gi_denylist := Some (gs_denylist s L)\<rparr>, r))"

definition gateway_after :: "('b gateway_env_scheme) \<Rightarrow> gateway_service \<Rightarrow> gateway_call list \<Rightarrow> gateway" where
  "gateway_after G s calls = final (gw_step G) (gs_config s) (map (live_event s) calls)"

lemma handlePEP_config: "config_of (snd (handlePEP G g i r)) = config_of g"
proof -
  have c: "config_of g1 = config_of g" if "consume_proof G g i pf = (e, g1)" for pf e g1
    using consume_proof_config[of G g i pf] that by simp
  show ?thesis
  proof (cases rule: handlePEP_cases[of G g i r])
    case (unfresh chain pf status reason d m g1)
    with c show ?thesis by (simp add: writeDenyDPoP_counts(3))
  next
    case (unaudited chain pf g1)
    with c show ?thesis by (simp add: failClosed_def)
  next
    case (allowed chain pf g1 g2 h)
    have "config_of g2 = config_of g1" using allowed(4) config_of_steps(3) by (metis snd_conv)
    with allowed(5) c[OF allowed(3)] show ?thesis by simp
  qed (simp_all add: writeDeny_counts(3) writeDenyDPoP_counts(3))
qed

lemma gateway_after_config: "config_of (gateway_after G s calls) = config_of (gs_config s)"
proof -
  have "config_of (final (gw_step G) g evs) = config_of g" for g evs
    by (induction evs arbitrary: g) (simp_all add: handlePEP_config)
  then show ?thesis by (simp add: gateway_after_def)
qed
section \<open>What a request is decided under\<close>

lemma cmdVisorGateway_Inr:
  assumes "cmdVisorGateway V G now f = Inr s"
  obtains fn log proofs where "LiveJWKS (sv_net V) (wf_jwks f) (wf_jwks_url f) = Inr fn"
    "RejectAliased (sv_ident V) (gateway_files f) = None"
    "open_audit V (ge_audit G) (wf_audit_log f) = Inr log" "open_replay V (ge_records G) now (wf_dpop_replay f) = Inr proofs"
    "gw_Audit (gs_config s) = Some log" "gw_ProofReplay (gs_config s) = Some proofs"
    "gw_Audience (gs_config s) = wf_audience f" "vf_Issuer (gw_Verifier (gs_config s)) = wf_issuer f" "\<not> is_blank (wf_issuer f)"
    "gs_keys s = (\<lambda>N. case fn N of Inl e \<Rightarrow> Inl (sv_text V e) | Inr ks \<Rightarrow> Inr ks)"
    "gs_denylist s = (\<lambda>L. case denylist_LoadFile L (wf_denylist f) of Inl e \<Rightarrow> Inl (gv_load_text V e) | Inr d \<Rightarrow> Inr (Some d))"
proof -
  from assms obtain fn log dl proofs backend addr g where p: "LiveJWKS (sv_net V) (wf_jwks f) (wf_jwks_url f) = Inr fn"
    "RejectAliased (sv_ident V) (gateway_files f) = None" "open_audit V (ge_audit G) (wf_audit_log f) = Inr log"
    "denylist_Live V (wf_denylist f) = Inr dl" "open_replay V (ge_records G) now (wf_dpop_replay f) = Inr proofs"
    "gateway_NewServer (sv_ip V) (wf_listen f) (wf_tls_cert f) (wf_tls_key f) (gateway_config f log proofs backend) = Inr (addr, g)"
    "s = \<lparr>gs_config = g, gs_limiter = initLimiter (wf_rate_limit f), gs_keys = (\<lambda>N. case fn N of Inl e \<Rightarrow> Inl (sv_text V e) | Inr ks \<Rightarrow> Inr ks),
        gs_denylist = (\<lambda>L. case dl L of Inl e \<Rightarrow> Inl (gv_load_text V e) | Inr d \<Rightarrow> Inr (Some d))\<rparr>"
    by (auto simp: cmdVisorGateway_def)
  from p(4) have "dl = (\<lambda>L. denylist_LoadFile L (wf_denylist f))" by (auto simp: denylist_Live_def split: if_splits)
  moreover from p(6) have "g = initNonces (gateway_config f log proofs backend)" "\<not> is_blank (wf_issuer f)"
    by (auto simp: gateway_NewServer_def gateway_config_def Let_def split: if_splits)
  ultimately show ?thesis using p(1-3,5,7) that by (auto simp: initNonces_def gateway_config_def)
qed

text \<open>C34: The gateway decides under the files as they are. Whatever requests it has served since its start, a
  request is granted only if, at this request, the key source gives a set under which the token
  verifies, for the issuer and the audience of the command line, and the denylist file loads and names
  neither the principal nor any agent of the chain. So a key or an agent that is taken out of service in
  the files is refused from the next request on, and a file that cannot be read stops every grant.\<close>

theorem decided_under_current_files:
  assumes "cmdVisorGateway V G now f = Inr s"
    and "snd (gw_step G (gateway_after G s calls) (live_event s (N, L, i, r)))"
  shows "\<exists>fn ks dl h c. LiveJWKS (sv_net V) (wf_jwks f) (wf_jwks_url f) = Inr fn \<and> fn N = Inr ks \<and>
    denylist_LoadFile L (wf_denylist f) = Inr dl \<and> jws_Verify G (credential r) ks = Inr (h, c) \<and>
    c_iss c = wf_issuer f \<and> c_aud c = [wf_audience f] \<and> \<not> HasPrincipal (Some dl) (c_sub c) \<and>
    (\<forall>a \<in> set (ActorSubs c). \<not> HasAgent (Some dl) a)"
proof -
  obtain fn log proofs where st: "LiveJWKS (sv_net V) (wf_jwks f) (wf_jwks_url f) = Inr fn"
    "gw_Audience (gs_config s) = wf_audience f" "vf_Issuer (gw_Verifier (gs_config s)) = wf_issuer f" "\<not> is_blank (wf_issuer f)"
    "gs_keys s = (\<lambda>N. case fn N of Inl e \<Rightarrow> Inl (sv_text V e) | Inr ks \<Rightarrow> Inr ks)"
    "gs_denylist s = (\<lambda>L. case denylist_LoadFile L (wf_denylist f) of Inl e \<Rightarrow> Inl (gv_load_text V e) | Inr d \<Rightarrow> Inr (Some d))"
    by (rule cmdVisorGateway_Inr[OF assms(1)])
  let ?g = "gateway_after G s calls" and ?i = "fst (live_event s (N, L, i, r))"
  have g: "gw_Audience ?g = wf_audience f" "vf_Issuer (gw_Verifier ?g) = wf_issuer f"
    using gateway_after_config[of G s calls] st(2,3) by (simp_all add: config_of_def)
  have "granted (fst (handlePEP G ?g ?i r))" using assms(2) by (simp add: live_event_def)
  then obtain chain where id: "identified G ?g ?i r chain" by (rule grantedE)
  then have "verifier_Verify G (live_verifier ?g ?i) (credential r) (gw_Audience ?g) (gi_verify_now ?i) = Inr chain"
    by (simp add: identified_def)
  then obtain ks h c where c: "verifier_keys (Some (live_verifier ?g ?i)) = Inr ks" "jws_Verify G (credential r) ks = Inr (h, c)"
    "vf_Issuer (live_verifier ?g ?i) = [] \<or> c_iss c = vf_Issuer (live_verifier ?g ?i)"
    "c_aud c = [gw_Audience ?g]" "chain = chainFromClaims (credential r) c"
    by (rule verifier_Verify_InrD)
  have "fn N = Inr ks" using c(1) by (auto simp: verifier_keys_def live_verifier_def live_event_def st(5) split: sum.splits)
  moreover have "c_iss c = wf_issuer f" using c(3) g(2) st(4) by (auto simp: live_verifier_def)
  moreover from id have deny: "denyIdentity ?i (FromChain (ge_visor G) chain (gw_ShortName ?g)) = Inr []"
    by (simp add: identified_def)
  then obtain dl where dl: "denylist_LoadFile L (wf_denylist f) = Inr dl"
    by (auto simp: denyIdentity_def live_event_def st(6) split: sum.splits)
  moreover have "mp_Principal (FromChain (ge_visor G) chain b) = c_sub c" "mp_Hops (FromChain (ge_visor G) chain b) = c_sub c # ActorSubs c" for b
    by (simp_all add: FromChain_def Let_def c(5) chainFromClaims_def)
  then have "\<not> HasPrincipal (Some dl) (c_sub c) \<and> (\<forall>a \<in> set (ActorSubs c). \<not> HasAgent (Some dl) a)"
    using deny by (auto simp: denyIdentity_def live_event_def st(6) dl DenyChain_Nil)
  ultimately show ?thesis using st(1) c(2,4) g(1) by (auto intro!: exI)
qed
section \<open>A gateway that starts and grants\<close>

definition example_gateway_flags :: gateway_flags where
  "example_gateway_flags =
    \<lparr>wf_listen = ''127.0.0.1:8090'', wf_audience = ''gw'', wf_issuer = ''sts'', wf_jwks = [], wf_jwks_url = ''https://sts/jwks'',
     wf_backend = [], wf_identity_only = True, wf_short = False, wf_audit_log = ''/d/a'', wf_denylist = ''/d/n'',
     wf_dpop_replay = ''/l/p'', wf_tls_cert = [], wf_tls_key = [], wf_rate_limit = (15, 1)\<rparr>"

definition example_gateway_start_env :: gateway_start_env where
  "example_gateway_start_env = serve_env.extend example_serve_env (gateway_start_env.fields (\<lambda>_. []))"

lemma example_gateway_start_fields:
  "sv_net example_gateway_start_env = example_net" "sv_ident example_gateway_start_env = example_ident_fs"
  "sv_open example_gateway_start_env = (\<lambda>_. Inr [])" "sv_ip example_gateway_start_env = (\<lambda>_. None)"
  "ld_fs example_gateway_start_env = ld_fs example_serve_env" "ld_next example_gateway_start_env = ld_next example_serve_env"
  "ld_denylist example_gateway_start_env = ld_denylist example_serve_env"
  "ld_url example_gateway_start_env = ld_url example_serve_env"
  by (simp_all add: example_gateway_start_env_def serve_env.defs gateway_start_env.defs example_serve_fields(10-13))

lemma example_gateway_loads:
  "denylist_LoadFile example_gateway_start_env p = Inr example_denied" "CheckSecretFileMode example_gateway_start_env p = None"
proof -
  have "denylist_LoadFile example_gateway_start_env p = denylist_LoadFile example_serve_env p"
    unfolding denylist_LoadFile_def denylist_LoadJSON_def example_gateway_start_fields by (rule refl)
  then show "denylist_LoadFile example_gateway_start_env p = Inr example_denied" by (simp add: example_serve_loads(4))
  show "CheckSecretFileMode example_gateway_start_env p = None"
    by (simp add: CheckSecretFileMode_None secret_file_def example_gateway_start_fields example_serve_fields(1))
qed

lemma example_gateway_paths: "RejectAliased example_ident_fs (gateway_files example_gateway_flags) = None"
proof -
  have "map (canonicalPath example_ident_fs) [''/d/a'', ''/d/n'', ''/l/p''] = map Inr [''/d/a'', ''/d/n'', ''/d/p'']" by code_simp
  moreover have "if_Stat example_ident_fs p = None" if "p \<in> {''/d/a'', ''/l/p'', ''/d/n''}" for p
    using that by (auto simp: example_ident_fs_def)
  ultimately show ?thesis
    unfolding RejectAliased_None by (simp add: gateway_files_def example_gateway_flags_def filesAlias_False)
qed

lemma example_gateway_starts:
  obtains s where "cmdVisorGateway example_gateway_start_env G now example_gateway_flags = Inr s"
    "gs_config s = initNonces (gateway_config example_gateway_flags \<lparr>lg_file = Some [], lg_prevHash = GenesisPrevHash,
       lg_chainIndex = 0, lg_poisoned = False\<rparr> \<lparr>rc_seen = Map.empty, rc_file = Some []\<rparr> None)"
    "gs_keys s = (\<lambda>N. case FetchJWKS N ''https://sts/jwks'' of Inl e \<Rightarrow> Inl (sv_text example_gateway_start_env e) | Inr ks \<Rightarrow> Inr ks)"
    "gs_denylist s = (\<lambda>L. case denylist_LoadFile L ''/d/n'' of Inl e \<Rightarrow> Inl (gv_load_text example_gateway_start_env e)
       | Inr d \<Rightarrow> Inr (Some d))"
proof -
  have url: "CheckJWKSURL example_net u = None" for u
  proof -
    have "map ascii_lower ''https'' = ''https''" by code_simp
    then show ?thesis by (simp add: CheckJWKSURL_None) (simp add: example_net_def)
  qed
  have empty: "raw_lines [] = []" by (simp add: raw_lines_def)
  let ?l = "\<lparr>lg_file = Some [], lg_prevHash = GenesisPrevHash, lg_chainIndex = 0, lg_poisoned = False\<rparr>"
  let ?rc = "\<lparr>rc_seen = Map.empty, rc_file = Some []\<rparr>"
  have logs: "open_audit example_gateway_start_env (ge_audit G) p = Inr ?l"
    "p \<noteq> [] \<Longrightarrow> open_replay example_gateway_start_env (ge_records G) now p = Inr ?rc" for p
    by (simp_all add: open_audit_def open_replay_def attempt_def refuse_def example_gateway_start_fields(3) example_gateway_loads(2)
        NewLogger_def OpenReplayCache_def empty)
  have flags: "wf_dpop_replay example_gateway_flags \<noteq> []" "gateway_usage example_gateway_flags = None"
    "LiveJWKS example_net (wf_jwks example_gateway_flags) (wf_jwks_url example_gateway_flags) = Inr (\<lambda>N. FetchJWKS N ''https://sts/jwks'')"
    "gateway_backend example_net example_gateway_flags = Inr None" "wf_denylist example_gateway_flags = ''/d/n''"
    by (simp_all add: example_gateway_flags_def gateway_usage_def gateway_backend_def LiveJWKS_def url)
  have bind: "ValidateBind (\<lambda>_. None) ''127.0.0.1:8090''" "\<not> is_blank ''sts''" by code_simp+
  have none: "CheckBackend None" by (simp add: CheckBackend_def)
  have addr: "wf_listen example_gateway_flags = ''127.0.0.1:8090''" "wf_tls_cert example_gateway_flags = []"
    "wf_tls_key example_gateway_flags = []" "wf_audience example_gateway_flags = ''gw''" "wf_issuer example_gateway_flags = ''sts''"
    "wf_identity_only example_gateway_flags"
    by (simp_all add: example_gateway_flags_def)
  have srv: "gateway_NewServer (\<lambda>_. None) (wf_listen example_gateway_flags) (wf_tls_cert example_gateway_flags) (wf_tls_key example_gateway_flags)
      (gateway_config example_gateway_flags ?l ?rc None)
      = Inr (''127.0.0.1:8090'', initNonces (gateway_config example_gateway_flags ?l ?rc None))"
    unfolding gateway_NewServer_def Let_def addr gateway_config_fields by (simp add: bind none addr)
  have "denylist_Live example_gateway_start_env ''/d/n'' = Inr (\<lambda>L. denylist_LoadFile L ''/d/n'')"
    by (simp add: denylist_Live_def attempt_def example_gateway_loads(1))
  then show ?thesis
    using that[of "\<lparr>gs_config = initNonces (gateway_config example_gateway_flags ?l ?rc None),
        gs_limiter = initLimiter (wf_rate_limit example_gateway_flags),
        gs_keys = (\<lambda>N. case FetchJWKS N ''https://sts/jwks'' of Inl e \<Rightarrow> Inl (sv_text example_gateway_start_env e) | Inr ks \<Rightarrow> Inr ks),
        gs_denylist = (\<lambda>L. case denylist_LoadFile L ''/d/n'' of Inl e \<Rightarrow> Inl (gv_load_text example_gateway_start_env e)
          | Inr d \<Rightarrow> Inr (Some d))\<rparr>"] flags logs srv
    by (simp add: cmdVisorGateway_def example_gateway_start_fields(1,2,4) example_gateway_paths)
qed

text \<open>A first request without a proof, which is answered with a nonce, and the second, which uses it.\<close>

definition example_sts_net :: net_env where
  "example_sts_net = example_net\<lparr>nt_ParseJWKS := (\<lambda>b. Inr [signer_PublicJWK (example_env [example_caller]) example_signer])\<rparr>"

definition example_unproved :: http_request where
  "example_unproved = authorized (example_call Map.empty) ''DPoP'' caller_token"

definition example_gateway_call :: "bytes \<Rightarrow> http_request \<Rightarrow> gateway_call" where
  "example_gateway_call rnd r = (example_sts_net, example_load 0x180, example_gw_inputs rnd, r)"

definition example_live :: "bytes \<Rightarrow> gateway_inputs" where
  "example_live rnd = (example_gw_inputs rnd)\<lparr>
     gi_keys := Some (Inr [signer_PublicJWK (example_env [example_caller]) example_signer]),
     gi_denylist := Some (Inr (Some example_denied))\<rparr>"

lemma example_live_simps:
  "gi_allow (example_live rnd)" "gi_proof_now (example_live rnd) = 520 * second" "gi_verify_now (example_live rnd) = 520 * second"
  "gi_nonce_now (example_live rnd) = 520 * second" "gi_replay_now (example_live rnd) = 520 * second"
  "gi_audit_io (example_live rnd) = \<lparr>io_written = None, io_synced = True\<rparr>"
  "gi_replay_io (example_live rnd) = \<lparr>io_written = None, io_synced = True\<rparr>"
  "gi_nonce_rand (example_live rnd) = rnd" "gi_wall (example_live rnd) = 0"
  "gi_keys (example_live rnd) = Some (Inr [signer_PublicJWK (example_env [example_caller]) example_signer])"
  "gi_denylist (example_live rnd) = Some (Inr (Some example_denied))"
  by (simp_all add: example_live_def example_gw_inputs_def)

lemma example_fetched: "FetchJWKS example_sts_net u = Inr [signer_PublicJWK (example_env [example_caller]) example_signer]"
proof -
  have "map ascii_lower ''https'' = ''https''" by code_simp
  then have "CheckJWKSURL example_sts_net u = None"
    by (simp add: CheckJWKSURL_None) (simp add: example_sts_net_def example_net_def)
  then show ?thesis
    by (simp add: FetchJWKS_def getCapped_def requireKeys_def maxJWKSBytes_def example_sts_net_def example_net_def)
qed

lemma example_live_event:
  assumes "gs_keys s = (\<lambda>N. case FetchJWKS N ''https://sts/jwks'' of Inl e \<Rightarrow> Inl (kt e) | Inr ks \<Rightarrow> Inr ks)"
    and "gs_denylist s = (\<lambda>L. case denylist_LoadFile L ''/d/n'' of Inl e \<Rightarrow> Inl (dt e) | Inr d \<Rightarrow> Inr (Some d))"
  shows "live_event s (example_gateway_call rnd r) = (example_live rnd, r)"
proof -
  have "(example_gw_inputs rnd)\<lparr>gi_allow := gs_limiter s = None \<or> gi_allow (example_gw_inputs rnd)\<rparr> = example_gw_inputs rnd"
    by (simp add: example_gw_inputs_def)
  then show ?thesis
    by (simp add: live_event_def example_gateway_call_def assms example_fetched example_loads(3) example_live_def)
qed

text \<open>The caller is identified in any gateway of that audience and issuer.\<close>

lemma example_live_accepted:
  assumes "gw_Audience g = ''gw''" "vf_Issuer (gw_Verifier g) = ''sts''" "\<not> gw_ShortName g"
  shows "verifier_Verify example_gateway_env (live_verifier g (example_live rnd)) caller_token (gw_Audience g)
      (gi_verify_now (example_live rnd)) = Inr example_caller_chain"
    "denyIdentity (example_live rnd) (FromChain V example_caller_chain b) = Inr []"
proof -
  show "verifier_Verify example_gateway_env (live_verifier g (example_live rnd)) caller_token (gw_Audience g)
      (gi_verify_now (example_live rnd)) = Inr example_caller_chain"
    unfolding example_caller_chain_def assms(1)
  proof (rule verifier_VerifyI)
    show "verifier_keys (Some (live_verifier g (example_live rnd))) = Inr [signer_PublicJWK (example_env [example_caller]) example_signer]"
      by (simp add: verifier_keys_def live_verifier_def example_live_simps)
    show "ValidateTime example_caller (gi_verify_now (example_live rnd)) 0 = None"
      by (simp add: ValidateTime_default example_caller_def unix_def i64_def example_live_simps)
    have "\<not> is_blank ''alice''" by code_simp
    then show "\<not> is_blank (c_sub example_caller)" by (simp add: example_caller_def)
    show "vf_Issuer (live_verifier g (example_live rnd)) = [] \<or> c_iss example_caller = vf_Issuer (live_verifier g (example_live rnd))"
      using assms(2) by (simp add: live_verifier_def example_caller_def)
  qed (use example_caller_verified in \<open>simp_all add: example_caller_def\<close>)
  have "ac_Principal example_caller_chain = ''alice''" "ac_Hops example_caller_chain = [''alice'', ''agent'']"
    "ac_Actor example_caller_chain = ''agent''"
    by (simp_all add: example_caller_chain_def chainFromClaims_def example_caller_def ActorSubs_def Let_def)
  then show "denyIdentity (example_live rnd) (FromChain V example_caller_chain b) = Inr []"
    by (simp add: denyIdentity_def example_live_simps DenyChain_Nil FromChain_def Let_def)
      (simp add: HasPrincipal_def HasAgent_def dl_has_def example_denied_def)
qed

lemma example_started_config:
  assumes "gs_config s = initNonces (gateway_config example_gateway_flags l rc None)"
  shows "gw_Audience (gateway_after G s calls) = ''gw''" "vf_Issuer (gw_Verifier (gateway_after G s calls)) = ''sts''"
    "\<not> gw_ShortName (gateway_after G s calls)"
  using gateway_after_config[of G s calls]
  by (simp_all add: config_of_def assms) (simp_all add: initNonces_def gateway_config_def example_gateway_flags_def)

lemma example_unproved_credential: "credential example_unproved = caller_token" "header_Get (hr_Header example_unproved) ''DPoP'' = []"
  using AccessToken_authorized[of caller_token "''DPoP''"] example_caller_plain
  by (simp_all add: credential_def example_unproved_def authorized_def example_call_def)

text \<open>The first call: a challenge, which leaves the nonce and one record.\<close>

lemma denied_event_small: "small_event (denied_event g Gw_ReasonMissingDPoP m)"
proof -
  have "bounded_string ''identity_denied''" "bounded_string Gw_ReasonMissingDPoP" "length Gw_ReasonMissingDPoP \<le> 64"
    by (simp_all add: bounded_string_def maxEventString_def) (code_simp+)
  then show ?thesis
    by (simp add: small_event_def denied_event_def empty_event_def in_i64_def Let_def split: option.split)
qed

lemma example_live_stamp: "length (gi_stamp (example_live rnd)) \<le> 64"
  by (simp add: example_live_def example_gw_inputs_def)

lemma example_challenge:
  assumes g: "gw_Audience g = ''gw''" "vf_Issuer (gw_Verifier g) = ''sts''" "\<not> gw_ShortName g"
    and logs: "gw_Audit g = Some l" "log_open l" "gw_ProofReplay g = Some rc"
  obtains g1 l1 where "snd (handlePEP example_gateway_env g (example_live ''a'') example_unproved) = g1"
    "gw_Nonces g1 = snd (nonce_Issue 0 ''a'' (Some (live_nonces g)) (520 * second))" "gw_ProofReplay g1 = Some rc"
    "gw_Audit g1 = Some l1" "log_open l1"
proof -
  let ?i = "example_live ''a''" and ?m = "FromChain (ge_visor example_gateway_env) example_caller_chain (gw_ShortName g)"
  have cred: "credential example_unproved = caller_token" "caller_token \<noteq> []"
    using example_unproved_credential example_caller_plain by (simp_all add: plain_def)
  have "identified example_gateway_env g ?i example_unproved example_caller_chain"
    using example_live_accepted[OF g] example_caller_complete g(3) cred by (simp add: identified_def example_live_simps(1))
  then have id: "check_identity example_gateway_env g ?i example_unproved = Inr (caller_token, example_caller_chain, ?m)"
    by (simp add: check_identity_Inr cred)
  have "ConfirmJKT (ac_Claims example_caller_chain) \<noteq> []"
    using Thumbprint_nonempty[OF example_answer_proof(2) example_gateway_laws(3)] by simp
  moreover have "TrimSpace [] = []" by code_simp
  ultimately have "check_proof example_gateway_env g ?i example_unproved caller_token example_caller_chain
      = Inl (StatusUnauthorized, Gw_ReasonMissingDPoP, Gd_Dpop Dpop_ErrMissingProof)"
    using logs(3) by (simp add: check_proof_def dpop_Verify_def example_unproved_credential(2))
  then have q: "requireDPoP example_gateway_env g ?i Map.empty example_unproved caller_token example_caller_chain ?m =
      apfst Some (writeDenyDPoP example_gateway_env g ?i Map.empty StatusUnauthorized Gw_ReasonMissingDPoP
        (Gd_Dpop Dpop_ErrMissingProof) (Some ?m))" by (simp add: requireDPoP_def)
  obtain n g0 where iss: "issueNonce g ?i = (n, g0)" by fastforce
  then have g0: "gw_Nonces g0 = snd (nonce_Issue 0 ''a'' (Some (live_nonces g)) (520 * second))" "gw_ProofReplay g0 = Some rc"
    "gw_Audit g0 = Some l"
    using issueNonce_Nonces[of g ?i] issueNonce_keeps[of g ?i] logs(1,3) by (simp_all add: example_live_simps)
  obtain h where w: "writeDenyDPoP example_gateway_env g ?i Map.empty StatusUnauthorized Gw_ReasonMissingDPoP
        (Gd_Dpop Dpop_ErrMissingProof) (Some ?m) = writeDeny example_gateway_env g0 ?i h StatusUnauthorized
          Gw_ReasonMissingDPoP (Gd_Dpop Dpop_ErrMissingProof) (Some ?m)"
    using iss by (simp add: writeDenyDPoP_def Let_def)
  have step: "snd (handlePEP example_gateway_env g ?i example_unproved) =
      snd (writeDeny example_gateway_env g0 ?i h StatusUnauthorized Gw_ReasonMissingDPoP (Gd_Dpop Dpop_ErrMissingProof) (Some ?m))"
    by (cases "writeDeny example_gateway_env g0 ?i h StatusUnauthorized Gw_ReasonMissingDPoP (Gd_Dpop Dpop_ErrMissingProof) (Some ?m)")
      (simp add: handlePEP_def id q w)
  obtain l1 where "Append compact_audit l (gi_stamp ?i) \<lparr>io_written = None, io_synced = True\<rparr>
      (denied_event g0 Gw_ReasonMissingDPoP (Some ?m)) = (None, l1)" "log_open l1"
    by (rule Append_fits[OF compact_audit_bound logs(2) example_live_stamp denied_event_small])
  then have "gw_Audit (snd (writeDeny example_gateway_env g0 ?i h StatusUnauthorized Gw_ReasonMissingDPoP
      (Gd_Dpop Dpop_ErrMissingProof) (Some ?m))) = Some l1 \<and> log_open l1"
    using g0(3) by (simp add: writeDeny_def gw_record_def count_denied_def Let_def example_gateway_audit example_live_simps(6))
  with step g0(1,2) that show ?thesis by simp
qed

text \<open>The second call is granted.\<close>

lemma example_gateway_grants:
  obtains s where "cmdVisorGateway example_gateway_start_env example_gateway_env now example_gateway_flags = Inr s"
    "snd (gw_step example_gateway_env (gateway_after example_gateway_env s [example_gateway_call ''a'' example_unproved])
      (live_event s (example_gateway_call ''b'' example_sent)))"
proof -
  obtain s where s: "cmdVisorGateway example_gateway_start_env example_gateway_env now example_gateway_flags = Inr s"
    "gs_config s = initNonces (gateway_config example_gateway_flags \<lparr>lg_file = Some [], lg_prevHash = GenesisPrevHash,
       lg_chainIndex = 0, lg_poisoned = False\<rparr> \<lparr>rc_seen = Map.empty, rc_file = Some []\<rparr> None)"
    "\<And>rnd r. live_event s (example_gateway_call rnd r) = (example_live rnd, r)"
    by (rule example_gateway_starts[of example_gateway_env now]) (use example_live_event in blast)
  let ?G = example_gateway_env
  have g: "gw_Audience (gs_config s) = ''gw''" "vf_Issuer (gw_Verifier (gs_config s)) = ''sts''" "\<not> gw_ShortName (gs_config s)"
    using example_started_config[OF s(2), of ?G "[]"] by (simp_all add: gateway_after_def)
  have g0: "gw_Audit (gs_config s) = Some \<lparr>lg_file = Some [], lg_prevHash = GenesisPrevHash, lg_chainIndex = 0, lg_poisoned = False\<rparr>"
    "gw_ProofReplay (gs_config s) = Some \<lparr>rc_seen = Map.empty, rc_file = Some []\<rparr>" "live_nonces (gs_config s) = NewNonceCache"
    by (simp_all add: s(2)) (simp_all add: initNonces_def gateway_config_def live_nonces_def)
  obtain g1 l1 where g1: "snd (handlePEP ?G (gs_config s) (example_live ''a'') example_unproved) = g1"
    "gw_Nonces g1 = snd (nonce_Issue 0 ''a'' (Some (live_nonces (gs_config s))) (520 * second))"
    "gw_ProofReplay g1 = Some \<lparr>rc_seen = Map.empty, rc_file = Some []\<rparr>" "gw_Audit g1 = Some l1" "log_open l1"
    by (rule example_challenge[OF g g0(1) _ g0(2)]) (simp add: log_open_def GenesisPrevHash_def)
  have after: "gateway_after ?G s [example_gateway_call ''a'' example_unproved] = g1"
    using g1(1) by (simp add: gateway_after_def s(3))
  note c = example_started_config[OF s(2), of ?G "[example_gateway_call ''a'' example_unproved]", unfolded after]
  have iss: "issueNonce (g1\<lparr>gw_Nonces := Some NewNonceCache\<rparr>) (example_live ''a'') = (example_caller_nonce, g1)"
    using g1(2) unfolding g0(3)
    by (cases g1) (simp add: issueNonce_def initNonces_def example_live_simps Let_def nonce_Issue_def example_caller_nonce_def)
  have short: "gw_ShortName g1 = False" using c(3) by simp
  note acc = example_live_accepted[OF c] example_caller_complete
  have au: "fst (Append (ge_audit ?G) l1 (gi_stamp (example_live ''b'')) (gi_audit_io (example_live ''b'')) (allowed_event g c m)) = None" for g c m
  proof -
    obtain l2 where "Append compact_audit l1 (gi_stamp (example_live ''b'')) \<lparr>io_written = None, io_synced = True\<rparr> (allowed_event g c m) = (None, l2)"
      by (rule Append_fits[OF compact_audit_bound g1(5) example_live_stamp allowed_event_small])
    then show ?thesis by (simp add: example_gateway_audit example_live_simps(6))
  qed
  have "granted (fst (handlePEP ?G g1 (example_live ''b'') example_sent))"
    by (rule challenge_answered_granted[OF iss _ _ example_sent_proof example_caller_plain example_hop_proof_simps(1)
          example_holder_signer example_gateway_laws(1) example_gateway_laws(3) _ example_answer_proof(1) example_sent_target refl _ _ _ _ _ _ _ _ _
          _ acc(1) _ acc(2) example_answer_proof(2) g1(3) _ _ _ g1(4) au])
      (simp_all add: example_live_simps example_hop_proof_simps zero_time_def unix_def short acc)
  with s(1) that show ?thesis by (simp add: after s(3))
qed

theorem decided_under_current_files_witness:
  "\<exists>s. cmdVisorGateway example_gateway_start_env example_gateway_env 0 example_gateway_flags = Inr s \<and>
    denylist_LoadFile (example_load 0x180) ''/d/n'' = Inr example_denied \<and> \<not> HasPrincipal (Some example_denied) ''alice''"
proof -
  obtain s where s: "cmdVisorGateway example_gateway_start_env example_gateway_env 0 example_gateway_flags = Inr s"
    "snd (gw_step example_gateway_env (gateway_after example_gateway_env s [example_gateway_call ''a'' example_unproved])
      (live_event s (example_gateway_call ''b'' example_sent)))"
    by (rule example_gateway_grants)
  from decided_under_current_files[OF s(1) s(2)[unfolded example_gateway_call_def]]
  have "wf_denylist example_gateway_flags = ''/d/n'' \<and> (\<exists>dl. denylist_LoadFile (example_load 0x180) (wf_denylist example_gateway_flags) = Inr dl)"
    by (auto simp: example_gateway_flags_def)
  moreover have "\<not> HasPrincipal (Some example_denied) ''alice''" by (simp add: HasPrincipal_def dl_has_def example_denied_def)
  ultimately show ?thesis using s(1) by (auto simp: example_loads(3))
qed

end
