(* ===== verification/Gateway_Restart.thy ===== *)
theory Gateway_Restart
  imports Gateway_Start
begin

text \<open>
  Restarting the gateway: every request leaves one record in the audit log and at most one id in the log of
  proofs, the next start finds both logs good, and a proof that was granted before it is not granted
  after it. The nonces are kept in memory and are lost, so a client has to answer a new challenge.
\<close>

section \<open>One request in the logs\<close>

definition gw_reasons :: "bytes list" where
  "gw_reasons =
    [Gw_ReasonOK, Gw_ReasonMissingToken, Gw_ReasonInvalidToken, Gw_ReasonIncomplete, Gw_ReasonRateLimited,
     Gw_ReasonMissingDPoP, Gw_ReasonInvalidDPoP, Gw_ReasonReplayedDPoP, Gw_ReasonMissingCNF, Gw_ReasonDPoPUnavail,
     Gw_ReasonUseNonce, ReasonUnavailable, ReasonAgentDenied, ReasonPrincipalDenied]"

lemma gw_reasons_named: "r \<in> set gw_reasons \<Longrightarrow> boundEventString r \<noteq> []"
proof -
  have "list_all (\<lambda>r. boundEventString r \<noteq> []) gw_reasons" by code_simp
  then show "r \<in> set gw_reasons \<Longrightarrow> boundEventString r \<noteq> []" by (simp add: list_all_iff)
qed

lemma in_gw_reasons [simp]:
  "Gw_ReasonOK \<in> set gw_reasons" "Gw_ReasonMissingToken \<in> set gw_reasons" "Gw_ReasonInvalidToken \<in> set gw_reasons"
  "Gw_ReasonIncomplete \<in> set gw_reasons" "Gw_ReasonRateLimited \<in> set gw_reasons" "Gw_ReasonMissingDPoP \<in> set gw_reasons"
  "Gw_ReasonInvalidDPoP \<in> set gw_reasons" "Gw_ReasonReplayedDPoP \<in> set gw_reasons" "Gw_ReasonMissingCNF \<in> set gw_reasons"
  "Gw_ReasonDPoPUnavail \<in> set gw_reasons" "Gw_ReasonUseNonce \<in> set gw_reasons" "ReasonUnavailable \<in> set gw_reasons"
  "ReasonAgentDenied \<in> set gw_reasons" "ReasonPrincipalDenied \<in> set gw_reasons"
  by (auto simp: gw_reasons_def)

lemma gw_event_types: "boundEventString ''identity_allowed'' \<noteq> []" "boundEventString ''identity_denied'' \<noteq> []"
  by code_simp+

lemma denied_event_named: "reason \<in> set gw_reasons \<Longrightarrow> named_event (denied_event g reason m)"
  using gw_reasons_named gw_event_types by (simp add: named_event_def denied_event_def Let_def split: option.split)

lemma allowed_event_named: "named_event (allowed_event g c m)"
  using gw_reasons_named gw_event_types by (simp add: named_event_def allowed_event_def)

lemma DenyChain_reason: "DenyChain d p a hops \<in> {[], ReasonAgentDenied, ReasonPrincipalDenied}"
  by (simp add: DenyChain_def deny_hops_0)

lemma check_identity_reason: "check_identity G g i r = Inl (status, reason, d, m) \<Longrightarrow> reason \<in> set gw_reasons"
  using DenyChain_reason
  by (auto simp: check_identity_def denyIdentity_def Let_def split: if_splits sum.splits option.splits prod.splits) (metis in_gw_reasons(13,14) insertE singletonD)+

lemma check_proof_reason: "check_proof G g i r tok chain = Inl (status, reason, d) \<Longrightarrow> reason \<in> set gw_reasons"
  by (auto simp: check_proof_def Let_def split: if_splits sum.splits)

lemma consume_proof_reason: "consume_proof G g i pf = (Some (status, reason, d), g1) \<Longrightarrow> reason \<in> set gw_reasons"
  by (auto simp: consume_proof_def Let_def split: if_splits option.splits prod.splits)

definition gw_appended :: "('a gateway_env_scheme) \<Rightarrow> gateway_inputs \<Rightarrow> logger \<Rightarrow> gateway \<Rightarrow> bool" where
  "gw_appended G i l g \<longleftrightarrow>
    (\<exists>ev. named_event ev \<and> gw_Audit g =
      Some (fst (append_step (ge_audit G) l \<lparr>ao_stamp = gi_stamp i, ao_io = gi_audit_io i, ao_event = ev\<rparr>)))"

lemma gw_record_appends:
  assumes "gw_Audit g = Some l" "named_event ev"
  shows "gw_appended G i l (snd (gw_record G g i ev))"
  unfolding gw_appended_def
  by (intro exI[of _ ev]) (use assms in \<open>simp add: gw_record_def append_step_def split: prod.split\<close>)

lemma gw_appended_other [simp]:
  "gw_appended G i l (g\<lparr>gw_Metrics := x\<rparr>) = gw_appended G i l g" "gw_appended G i l (count_denied g) = gw_appended G i l g"
  by (simp_all add: gw_appended_def count_denied_def)

lemma writeDeny_appends:
  assumes "gw_Audit g = Some l" "reason \<in> set gw_reasons"
  shows "gw_appended G i l (snd (writeDeny G g i h status reason d m))"
proof -
  have "gw_appended G i l (snd (gw_record G g i (denied_event g reason m)))"
    by (rule gw_record_appends[OF assms(1) denied_event_named[OF assms(2)]])
  then show ?thesis by (auto simp: writeDeny_def failClosed_def Let_def split: prod.split bool.split)
qed

lemma writeDenyDPoP_appends:
  assumes "gw_Audit g = Some l" "reason \<in> set gw_reasons"
  shows "gw_appended G i l (snd (writeDenyDPoP G g i h status reason d m))"
proof -
  obtain n g1 where iss: "issueNonce g i = (n, g1)" by fastforce
  then have "gw_Audit g1 = Some l" using assms(1) issueNonce_keeps(2)[of g i] by simp
  with assms iss show ?thesis by (simp add: writeDenyDPoP_def Let_def writeDeny_appends)
qed

lemma requireDPoP_appends:
  assumes "requireDPoP G g i h r tok chain m = (Some resp, g1)" "gw_Audit g = Some l"
  shows "gw_appended G i l g1"
proof (cases "check_proof G g i r tok chain")
  case (Inl x)
  obtain status reason d where x: "x = (status, reason, d)" by (cases x)
  have "g1 = snd (writeDenyDPoP G g i h status reason d (Some m))" using assms(1) Inl x by (auto simp: requireDPoP_def apfst_def map_prod_def split: prod.splits)
  then show ?thesis using writeDenyDPoP_appends[OF assms(2) check_proof_reason] Inl x by simp
next
  case (Inr pf)
  obtain e g' where c: "consume_proof G g i pf = (e, g')" by fastforce
  with assms(1) Inr obtain status reason d where e: "e = Some (status, reason, d)"
    "g1 = snd (writeDenyDPoP G g' i h status reason d (Some m))"
    by (cases e) (auto simp: requireDPoP_def apfst_def map_prod_def split: prod.splits)
  have "gw_Audit g' = Some l" using consume_proof_audit(1)[of G g i pf] c assms(2) by simp
  with e(2) show ?thesis using writeDenyDPoP_appends consume_proof_reason c[unfolded e(1)] by metis
qed

lemma handlePEP_appends:
  assumes "gw_Audit g = Some l"
  shows "gw_appended G i l (snd (handlePEP G g i r))"
proof (cases "check_identity G g i r")
  case (Inl x)
  obtain status reason d m where x: "x = (status, reason, d, m)" by (cases x)
  with Inl writeDeny_appends[OF assms check_identity_reason] show ?thesis by (simp add: handlePEP_def)
next
  case (Inr x)
  obtain raw chain m where x: "x = (raw, chain, m)" by (cases x)
  obtain res g1 where q: "requireDPoP G g i Map.empty r raw chain m = (res, g1)" by fastforce
  show ?thesis
  proof (cases res)
    case (Some resp)
    with Inr x q requireDPoP_appends[of G g i Map.empty r raw chain m resp g1] assms show ?thesis by (simp add: handlePEP_def)
  next
    case None
    then have "gw_Audit g1 = Some l"
      using q assms consume_proof_audit(1)[of G g i]
      by (auto simp: requireDPoP_def apfst_def map_prod_def split: sum.splits prod.splits option.splits) (metis consume_proof_audit(1) snd_conv)
    then have a: "gw_appended G i l (snd (gw_record G g1 i (allowed_event g1 chain m)))"
      by (rule gw_record_appends[OF _ allowed_event_named])
    obtain ok g2 where rec: "gw_record G g1 i (allowed_event g1 chain m) = (ok, g2)" by fastforce
    obtain n g4 where iss: "issueNonce (g2\<lparr>gw_Metrics := (gw_Metrics g2)\<lparr>gm_Allowed := gm_Allowed (gw_Metrics g2) + 1\<rparr>\<rparr>) i = (n, g4)"
      by fastforce
    then have "gw_Audit g4 = gw_Audit g2" using issueNonce_keeps(2) by (metis gateway.select_convs(3) gateway.surjective gateway.update_convs(9) snd_conv)
    then have "gw_appended G i l g4 = gw_appended G i l g2" by (simp add: gw_appended_def)
    with Inr x q None rec iss a show ?thesis by (cases ok) (simp_all add: handlePEP_def failClosed_def Let_def)
  qed
qed

text \<open>The id that a request leaves in the cache of proofs is that of a proof that verified.\<close>

lemma handlePEP_consumes:
  assumes "gw_ProofReplay g = Some rc"
  obtains (same) "gw_ProofReplay (snd (handlePEP G g i r)) = Some rc"
  | (step) tok jkt pf where "dpop_Verify G (gi_wall i) (Some r) tok jkt (gi_proof_now i) = Inr pf"
    "gw_ProofReplay (snd (handlePEP G g i r)) = Some (fst (consume_step (ge_records G) rc (proof_use i pf)))"
proof -
  have *: "gw_ProofReplay (snd (consume_proof G g i pf)) \<in>
      {Some rc, Some (fst (consume_step (ge_records G) rc (proof_use i pf)))}" for pf
    by (cases rule: consume_proof_cases[OF assms, of i pf G]) (use assms in auto)
  show ?thesis
  proof (cases rule: handlePEP_cases[of G g i r])
    case (unfresh chain pf status reason d m g1)
    then show ?thesis using *[of pf] same step by (auto simp: check_proof_Inr)
  next
    case (unaudited chain pf g1)
    then show ?thesis using *[of pf] same step by (auto simp: failClosed_def count_denied_def check_proof_Inr)
  next
    case (allowed chain pf g1 g2 h)
    have "gw_ProofReplay g2 = gw_ProofReplay g1"
      using allowed(4) gw_record_keeps(1) by (metis snd_conv)
    with allowed show ?thesis using *[of pf] same step by (auto simp: check_proof_Inr)
  qed (use assms same in simp_all)
qed

section \<open>A run in the logs\<close>

definition gw_logs_ok :: "('a gateway_env_scheme) \<Rightarrow> int \<Rightarrow> gateway \<Rightarrow> bool" where
  "gw_logs_ok G T g \<longleftrightarrow>
    (\<exists>l rc. gw_Audit g = Some l \<and> log_agrees (ge_audit G) l \<and> head_ok l \<and>
      gw_ProofReplay g = Some rc \<and> log_holds (ge_records G) T rc)"

definition gw_audit_index :: "gateway \<Rightarrow> nat" where
  "gw_audit_index g = (case gw_Audit g of None \<Rightarrow> 0 | Some l \<Rightarrow> unat (lg_chainIndex l))"

text \<open>A request whose records are written whole or not at all and are short enough to be read again.\<close>

definition clean_request :: "('a gateway_env_scheme) \<Rightarrow> gw_event \<Rightarrow> bool" where
  "clean_request G ev \<longleftrightarrow>
    bounded_string (gi_stamp (fst ev)) \<and> whole_write (gi_audit_io (fst ev)) \<and>
    (\<forall>tok jkt pf. dpop_Verify G (gi_wall (fst ev)) (Some (snd ev)) tok jkt (gi_proof_now (fst ev)) = Inr pf \<longrightarrow>
      writes_ok (ge_records G) (proof_use (fst ev) pf))"

lemma gw_step_logs:
  assumes "event_codec (ge_audit G)" "gw_logs_ok G T g" "clean_request G ev" "gw_audit_index g + 1 < 2 ^ 64"
  shows "gw_logs_ok G T (fst (gw_step G g ev)) \<and> gw_audit_index (fst (gw_step G g ev)) \<le> gw_audit_index g + 1"
proof -
  let ?g' = "snd (handlePEP G g (fst ev) (snd ev))"
  from assms(2) obtain l rc where l: "gw_Audit g = Some l" "log_agrees (ge_audit G) l \<and> head_ok l"
    and rc: "gw_ProofReplay g = Some rc" "log_holds (ge_records G) T rc" by (auto simp: gw_logs_ok_def)
  obtain ev0 where ev0: "named_event ev0" "gw_Audit ?g' = Some (fst (append_step (ge_audit G) l
      \<lparr>ao_stamp = gi_stamp (fst ev), ao_io = gi_audit_io (fst ev), ao_event = ev0\<rparr>))"
    using handlePEP_appends[OF l(1)] unfolding gw_appended_def by blast
  define op where "op = \<lparr>ao_stamp = gi_stamp (fst ev), ao_io = gi_audit_io (fst ev), ao_event = ev0\<rparr>"
  have op: "append_ok op" using assms(3) ev0(1) by (simp add: op_def append_ok_def clean_request_def)
  have small: "unat (lg_chainIndex l) + 1 < 2 ^ 64" using assms(4) l(1) by (simp add: gw_audit_index_def)
  have "log_agrees (ge_audit G) (fst (append_step (ge_audit G) l op)) \<and> head_ok (fst (append_step (ge_audit G) l op))"
    by (rule append_step_keeps[OF assms(1) op index_no_wrap[OF small] l(2)])
  moreover have "unat (lg_chainIndex (fst (append_step (ge_audit G) l op))) \<le> unat (lg_chainIndex l) + 1"
    using append_step_index[OF assms(1) op, of l] l(2) unat_Suc_le[of "lg_chainIndex l"] by auto
  moreover obtain rc' where "gw_ProofReplay ?g' = Some rc'" "log_holds (ge_records G) T rc'"
  proof -
    consider "gw_ProofReplay ?g' = Some rc" | tok jkt pf where
      "dpop_Verify G (gi_wall (fst ev)) (Some (snd ev)) tok jkt (gi_proof_now (fst ev)) = Inr pf"
      "gw_ProofReplay ?g' = Some (fst (consume_step (ge_records G) rc (proof_use (fst ev) pf)))"
      by (rule handlePEP_consumes[OF rc(1), of G "fst ev" "snd ev"]) blast+
    then show ?thesis
    proof cases
      case 1
      with rc(2) that show ?thesis by blast
    next
      case step: (2 tok jkt pf)
      then have "writes_ok (ge_records G) (proof_use (fst ev) pf)" using assms(3) unfolding clean_request_def by blast
      with step(2) that log_holds_step[OF rc(2)] show ?thesis by blast
    qed
  qed
  ultimately show ?thesis
    using ev0(2) l(1) by (simp add: gw_logs_ok_def gw_audit_index_def op_def)
qed

lemma gw_run_logs:
  assumes "event_codec (ge_audit G)" "gw_logs_ok G T g" "list_all (clean_request G) evs"
    and "gw_audit_index g + length evs < 2 ^ 64"
  shows "gw_logs_ok G T (final (gw_step G) g evs)"
  using assms(2-4)
proof (induction evs arbitrary: g)
  case (Cons ev evs)
  have "gw_logs_ok G T (fst (gw_step G g ev)) \<and> gw_audit_index (fst (gw_step G g ev)) \<le> gw_audit_index g + 1"
    by (rule gw_step_logs[OF assms(1)]) (use Cons.prems in simp_all)
  with Cons show ?case by (simp del: gw_step_simps)
qed simp

section \<open>The next start\<close>

definition gateway_disk :: "('a serve_env_scheme) \<Rightarrow> gateway_flags \<Rightarrow> gateway \<Rightarrow> 'a serve_env_scheme" where
  "gateway_disk V f g =
    V\<lparr>sv_open := (\<lambda>p. if p = wf_audit_log f then Inr (the (lg_file (the (gw_Audit g))))
       else if p = wf_dpop_replay f then Inr (the (rc_file (the (gw_ProofReplay g)))) else sv_open V p)\<rparr>"

lemma gateway_disk_fields [simp]:
  "ld_fs (gateway_disk V f c) = ld_fs V" "ld_next (gateway_disk V f c) = ld_next V"
  "ld_denylist (gateway_disk V f c) = ld_denylist V" "ld_url (gateway_disk V f c) = ld_url V"
  "sv_text (gateway_disk V f c) = sv_text V" "sv_net (gateway_disk V f c) = sv_net V"
  "sv_ident (gateway_disk V f c) = sv_ident V" "sv_ip (gateway_disk V f c) = sv_ip V"
  by (simp_all add: gateway_disk_def)

lemma gateway_disk_loads [simp]:
  "CheckSecretFileMode (gateway_disk V f c) p = CheckSecretFileMode V p"
  "denylist_Live (gateway_disk V f c) p = denylist_Live V p"
  unfolding CheckSecretFileMode_def denylist_Live_def denylist_LoadFile_def denylist_LoadJSON_def gateway_disk_fields
  by (rule refl)+

lemma gateway_logs_differ:
  assumes "cmdVisorGateway V G now f = Inr s"
  shows "wf_audit_log f \<noteq> wf_dpop_replay f"
proof
  assume same: "wf_audit_log f = wf_dpop_replay f"
  have ne: "wf_audit_log f \<noteq> []" "RejectAliased (sv_ident V) (gateway_files f) = None"
    using assms by (auto simp: cmdVisorGateway_def gateway_usage_def split: if_splits)
  from this(2) have "filesAlias (sv_ident V) (wf_audit_log f) (wf_dpop_replay f) = Inr False"
    unfolding RejectAliased_None using same ne(1) by (simp add: gateway_files_def)
  with same ne(1) show False by (auto simp: filesAlias_def split: sum.splits if_splits)
qed

lemma gateway_disk_text [simp]: "gv_load_text (gateway_disk V f c) = gv_load_text V"
  by (simp add: gateway_disk_def)

lemma gateway_NewServer_logs:
  assumes "gateway_NewServer ip bind cert key g = Inr x" "gw_Audit g = Some l0" "gw_ProofReplay g = Some rc0"
  obtains addr g' where "gateway_NewServer ip bind cert key (g\<lparr>gw_Audit := Some l, gw_ProofReplay := Some rc\<rparr>) = Inr (addr, g')"
    "gw_Audit g' = Some l" "gw_ProofReplay g' = Some rc"
  using assms by (auto simp: gateway_NewServer_def initNonces_def Let_def split: if_splits)

lemma cmdVisorGateway_again:
  assumes "cmdVisorGateway V G now f = Inr s" "open_audit (gateway_disk V f g) (ge_audit G) (wf_audit_log f) = Inr l"
    and "open_replay (gateway_disk V f g) (ge_records G) now' (wf_dpop_replay f) = Inr rc"
  obtains s' where "cmdVisorGateway (gateway_disk V f g) G now' f = Inr s'" "gw_Audit (gs_config s') = Some l"
    "gw_ProofReplay (gs_config s') = Some rc" "live_event s' = live_event s"
proof -
  from assms(1) obtain fn log dl proofs backend addr g0 where p: "gateway_usage f = None"
    "LiveJWKS (sv_net V) (wf_jwks f) (wf_jwks_url f) = Inr fn"
    "RejectAliased (sv_ident V) (gateway_files f) = None" "denylist_Live V (wf_denylist f) = Inr dl"
    "gateway_backend (sv_net V) f = Inr backend"
    "gateway_NewServer (sv_ip V) (wf_listen f) (wf_tls_cert f) (wf_tls_key f) (gateway_config f log proofs backend) = Inr (addr, g0)"
    "s = \<lparr>gs_config = g0, gs_limiter = initLimiter (wf_rate_limit f), gs_keys = (\<lambda>N. case fn N of Inl e \<Rightarrow> Inl (sv_text V e) | Inr ks \<Rightarrow> Inr ks),
        gs_denylist = (\<lambda>L. case dl L of Inl e \<Rightarrow> Inl (gv_load_text V e) | Inr d \<Rightarrow> Inr (Some d))\<rparr>"
    by (auto simp: cmdVisorGateway_def)
  have conf: "(gateway_config f log proofs backend)\<lparr>gw_Audit := Some l, gw_ProofReplay := Some rc\<rparr> = gateway_config f l rc backend"
    "gw_Audit (gateway_config f log proofs backend) = Some log" "gw_ProofReplay (gateway_config f log proofs backend) = Some proofs"
    by (simp_all add: gateway_config_def)
  obtain addr' g' where g': "gateway_NewServer (sv_ip V) (wf_listen f) (wf_tls_cert f) (wf_tls_key f) (gateway_config f l rc backend) = Inr (addr', g')"
    "gw_Audit g' = Some l" "gw_ProofReplay g' = Some rc"
    by (rule gateway_NewServer_logs[OF p(6) conf(2,3), where l = l and rc = rc, unfolded conf(1)])
  show ?thesis
    by (rule that[of "s\<lparr>gs_config := g'\<rparr>"]) (use p(1-5,7) assms(2,3) g' in \<open>simp_all add: cmdVisorGateway_def live_event_def cong: sum.case_cong\<close>)
qed

text \<open>C35: The gateway restarts and forgets no proof. After a start on logs of whole lines and any requests whose
  log writes are not torn and whose proof ids fit a line, the next start with the same flags finds both
  logs good, the audit log goes on where it was unless a failed write had stopped the logger, and over
  the requests before and after the restart together a proof of possession is granted at most once.\<close>

theorem proof_once_across_gateway_restart:
  assumes start: "cmdVisorGateway V G now f = Inr s"
    and logs: "sv_open V (wf_audit_log f) = Inr (unlines als)" "\<forall>x \<in> set als. CHR 0x0A \<notin> set x"
      "sv_open V (wf_dpop_replay f) = Inr (unlines rls)" "\<forall>x \<in> set rls. CHR 0x0A \<notin> set x"
    and run: "event_codec (ge_audit G)" "list_all (clean_request G) (map (live_event s) xs)"
      "gw_audit_index (gs_config s) + length xs < 2 ^ 64"
    and clock: "sorted (map replay_second (map (live_event s) (xs @ ys)))" "unix now \<le> unix now'"
      "\<forall>ev \<in> set (map (live_event s) xs). replay_second ev \<le> unix now'"
      "\<forall>ev \<in> set (map (live_event s) ys). unix now' \<le> replay_second ev"
  shows "\<exists>s' l l'. cmdVisorGateway (gateway_disk V f (gateway_after G s xs)) G now' f = Inr s' \<and>
    gw_Audit (gateway_after G s xs) = Some l \<and> gw_Audit (gs_config s') = Some l' \<and> (lg_poisoned l \<or> l' = l) \<and>
    uses (proof_key G) k (map (live_event s) xs) (answers (gw_step G) (gs_config s) (map (live_event s) xs)) +
    uses (proof_key G) k (map (live_event s') ys) (answers (gw_step G) (gs_config s') (map (live_event s') ys)) \<le> 1"
proof -
  let ?g = "gateway_after G s xs"
  obtain l0 rc0 where s0: "open_audit V (ge_audit G) (wf_audit_log f) = Inr l0"
    "open_replay V (ge_records G) now (wf_dpop_replay f) = Inr rc0"
    "gw_Audit (gs_config s) = Some l0" "gw_ProofReplay (gs_config s) = Some rc0"
    by (rule cmdVisorGateway_Inr[OF start])
  have opened: "NewLogger (ge_audit G) (unlines als) = Inr l0" "OpenReplayCache (ge_records G) (unlines rls) now = Inr rc0"
    "CheckSecretFileMode V (wf_dpop_replay f) = None" "wf_dpop_replay f \<noteq> []"
    using s0(1,2) logs(1,3) by (auto simp: open_audit_def open_replay_def split: if_splits)
  have "gw_logs_ok G (unix now) (gs_config s)"
    using NewLogger_agrees[OF opened(1) logs(2)] Open_log_holds[OF opened(2) logs(4)] s0(3,4) by (simp add: gw_logs_ok_def)
  then have "gw_logs_ok G (unix now) ?g"
    unfolding gateway_after_def by (rule gw_run_logs[OF run(1) _ run(2)]) (use run(3) in simp)
  then obtain l rc where c: "gw_Audit ?g = Some l" "log_agrees (ge_audit G) l" "gw_ProofReplay ?g = Some rc"
    "log_holds (ge_records G) (unix now) rc" by (auto simp: gw_logs_ok_def)
  obtain l' where l': "NewLogger (ge_audit G) (the (lg_file l)) = Inr l'" "lg_poisoned l \<or> l' = l"
    using log_agrees_reopens[OF c(2)] by blast
  obtain rc' where rc': "OpenReplayCache (ge_records G) (the (rc_file rc)) now' = Inr rc'"
    "\<forall>k t. unix now' \<le> t \<longrightarrow> consumed rc k t \<longrightarrow> consumed rc' k t"
    using reopen[OF c(4) clock(2)] by blast
  have open_a: "open_audit (gateway_disk V f ?g) (ge_audit G) (wf_audit_log f) = Inr l'"
    using c(1) l'(1) by (simp add: open_audit_def) (simp add: gateway_disk_def)
  have open_r: "open_replay (gateway_disk V f ?g) (ge_records G) now' (wf_dpop_replay f) = Inr rc'"
    using c(3) rc'(1) opened(3,4) gateway_logs_differ[OF start] by (simp add: open_replay_def) (simp add: gateway_disk_def)
  obtain s' where s': "cmdVisorGateway (gateway_disk V f ?g) G now' f = Inr s'" "gw_Audit (gs_config s') = Some l'"
    "gw_ProofReplay (gs_config s') = Some rc'" "live_event s' = live_event s"
    by (rule cmdVisorGateway_again[OF start open_a open_r])
  have "uses (proof_key G) k (map (live_event s) xs) (answers (gw_step G) (gs_config s) (map (live_event s) xs)) +
    uses (proof_key G) k (map (live_event s) ys) (answers (gw_step G) (gs_config s') (map (live_event s) ys)) \<le> 1"
  proof (rule proof_guard.used_once_across[where ?t0.0 = "unix now'"])
    show "proof_spent (gs_config s') k t" if "unix now' \<le> t" "proof_spent (final (gw_step G) (gs_config s) (map (live_event s) xs)) k t" for t
      using that rc'(2) c(3) s'(3) by (cases k) (simp add: proof_spent_def flip: gateway_after_def)
  qed (use clock in simp_all)
  with s' c(1) l'(2) show ?thesis by auto
qed

section \<open>Instance\<close>

text \<open>A gateway challenges a call without a proof, grants the call that answers the challenge, and restarts.\<close>

lemma example_sent_presented:
  "\<exists>c. presented_proof example_gateway_env example_sent = Some c \<and> pc_JTI c = dpop_newJTI ''0123456789abcdef'' \<and> pc_IAT c = 500"
proof -
  let ?G = example_gateway_env
  have "carries ?G (example_call Map.empty) caller_token (Some example_hop_proof) example_caller_nonce example_sent"
    by (rule setProof_carries[OF example_sent_proof])
  then obtain htu where u: "OutboundURI (Some (example_call Map.empty)) = Inr htu"
    "ProveWithNonce ?G (pi_wall example_hop_proof) ''0123456789abcdef'' (Some example_holder) ''POST'' htu caller_token 500000000000
      example_caller_nonce = Inr (header_Get (hr_Header example_sent) ''DPoP'')" (is "_ = Inr ?raw")
    using example_hop_proof_simps carries_uri[of ?G] by (auto simp: carries_def example_call_method)
  then have htu: "htu = ''https://gw/mcp''" by simp
  let ?c = "proof_of ''0123456789abcdef'' ?G ''POST'' ''https://gw/mcp'' caller_token 500 example_caller_nonce"
  have "(500000000000 :: instant) \<noteq> zero_time" "unix 500000000000 = 500" by (simp_all add: zero_time_def unix_def)
  then have "?raw = signer_Sign ?G holder_signer (Marshal_proof_header ?G ''EdDSA'' dpop_Typ (PublicMembers (signer_PublicJWK ?G holder_signer)))
      (Marshal_proof_claims ?G ?c)"
    using u(2) by (simp add: ProveWithNonce_def example_holder_signer htu Let_def)
  then have "proof_carried ?G example_sent (PublicMembers (signer_PublicJWK ?G holder_signer)) ?c"
    by (intro signed_proof_carried[OF example_gateway_laws(1,4)]) simp
  from presented_carried[OF this] show ?thesis by (simp add: proof_of_def)
qed

lemma example_unproved_clean:
  assumes "live_event s (example_gateway_call rnd example_unproved) = (example_live rnd, example_unproved)"
  shows "clean_request G (live_event s (example_gateway_call rnd example_unproved))"
proof -
  have "TrimSpace [] = []" by code_simp
  then have "dpop_Verify G w (Some example_unproved) tok jkt now \<noteq> Inr pf" for w tok jkt now pf
    by (simp add: dpop_Verify_def example_unproved_credential(2))
  then show ?thesis using example_stamp
    by (simp add: clean_request_def assms) (simp add: example_live_def example_gw_inputs_def whole_write_def)
qed

lemma example_sent_clean: "clean_request example_gateway_env (example_live rnd, example_sent)"
proof -
  have "writes_ok (ge_records example_gateway_env) (proof_use (example_live rnd) pf)"
    if v: "dpop_Verify example_gateway_env w (Some example_sent) tok jkt now = Inr pf" for w tok jkt now pf
  proof -
    obtain c where "presented_proof example_gateway_env example_sent = Some c" "pc_JTI c = pr_JTI pf" "pc_IAT c = pr_IAT pf"
      using v by (rule presented_verified) blast
    with example_sent_presented have pf: "pr_JTI pf = dpop_newJTI ''0123456789abcdef''" "pr_IAT pf = 500" by auto
    have "record_ok example_records \<lparr>rr_JTI = ReplayJTI (dpop_newJTI ''0123456789abcdef''), rr_Until = 530\<rparr>"
      by (rule example_record_ok)
        (simp_all add: ReplayJTI_def dpop_newJTI_def ReplayPrefix_def hex_encode_digits max_line_def)
    then show ?thesis
      by (simp add: writes_ok_def proof_use_def pf ReplayUntil_def i64_def whole_write_def example_live_simps)
        (simp add: example_gateway_env_def dpop_env.defs)
  qed
  then show ?thesis using example_stamp
    by (simp add: clean_request_def) (simp add: example_live_def example_gw_inputs_def whole_write_def)
qed

theorem proof_once_across_gateway_restart_witness:
  "\<exists>s s'. cmdVisorGateway example_gateway_start_env example_gateway_env 0 example_gateway_flags = Inr s \<and>
    snd (gw_step example_gateway_env (gateway_after example_gateway_env s [example_gateway_call ''a'' example_unproved])
      (live_event s (example_gateway_call ''b'' example_sent))) \<and>
    cmdVisorGateway (gateway_disk example_gateway_start_env example_gateway_flags
        (gateway_after example_gateway_env s [example_gateway_call ''a'' example_unproved, example_gateway_call ''b'' example_sent]))
      example_gateway_env (520 * second) example_gateway_flags = Inr s' \<and>
    \<not> snd (gw_step example_gateway_env (gs_config s') (live_event s' (example_gateway_call ''b'' example_sent)))"
proof -
  let ?G = example_gateway_env and ?V = "example_gateway_start_env" and ?f = "example_gateway_flags"
  let ?xs = "[example_gateway_call ''a'' example_unproved, example_gateway_call ''b'' example_sent]"
    and ?ys = "[example_gateway_call ''b'' example_sent]" and ?k = "(ReplayJTI (dpop_newJTI ''0123456789abcdef''), 500)"
  obtain s where g: "cmdVisorGateway ?V ?G 0 ?f = Inr s"
    "snd (gw_step ?G (gateway_after ?G s [example_gateway_call ''a'' example_unproved]) (live_event s (example_gateway_call ''b'' example_sent)))"
    by (rule example_gateway_grants)
  obtain s0 where s0: "cmdVisorGateway ?V ?G 0 ?f = Inr s0"
    "gs_config s0 = initNonces (gateway_config ?f \<lparr>lg_file = Some [], lg_prevHash = GenesisPrevHash,
       lg_chainIndex = 0, lg_poisoned = False\<rparr> \<lparr>rc_seen = Map.empty, rc_file = Some []\<rparr> None)"
    "\<And>rnd r. live_event s0 (example_gateway_call rnd r) = (example_live rnd, r)"
    by (rule example_gateway_starts[of ?G 0]) (use example_live_event in blast)
  have s: "s0 = s" using g(1) s0(1) by simp
  note s0 = s0(2,3)[unfolded s]
  have key: "proof_key ?G (i, example_sent) = Some ?k" for i using example_sent_presented by (auto simp: proof_key_def)
  have "gw_audit_index (gs_config s) = 0"
    by (simp add: gw_audit_index_def s0(1)) (simp add: initNonces_def gateway_config_def)
  moreover have "event_codec (ge_audit ?G)" using compact_audit_codec by (simp add: example_gateway_audit)
  moreover have "sv_open ?V p = Inr (unlines [])" for p by (simp add: example_gateway_start_fields(3) unlines_def)
  moreover have "list_all (clean_request ?G) (map (live_event s) ?xs)"
    using example_unproved_clean[OF s0(2)] example_sent_clean by (simp add: s0(2))
  moreover have "replay_second (live_event s (example_gateway_call rnd r)) = 520" for rnd r
    by (simp add: s0(2) replay_second_def example_live_simps unix_def)
  ultimately obtain s' l l' where r: "cmdVisorGateway (gateway_disk ?V ?f (gateway_after ?G s ?xs)) ?G (520 * second) ?f = Inr s'"
    "uses (proof_key ?G) ?k (map (live_event s) ?xs) (answers (gw_step ?G) (gs_config s) (map (live_event s) ?xs)) +
      uses (proof_key ?G) ?k (map (live_event s') ?ys) (answers (gw_step ?G) (gs_config s') (map (live_event s') ?ys)) \<le> 1"
    using proof_once_across_gateway_restart[OF g(1), where als = "[]" and rls = "[]" and xs = ?xs and ys = ?ys and now' = "520 * second" and k = ?k]
    by (auto simp: unix_def)
  have "uses (proof_key ?G) ?k (map (live_event s) ?xs) (answers (gw_step ?G) (gs_config s) (map (live_event s) ?xs)) \<ge> 1"
    using g(2) by (simp add: s0(2) key gateway_after_def del: gw_step_simps)
  with r(2) have "\<not> snd (gw_step ?G (gs_config s') (live_event s' (example_gateway_call ''b'' example_sent)))"
    by (auto simp: key live_event_def example_gateway_call_def simp del: gw_step_simps split: if_splits)
  with g r(1) show ?thesis by blast
qed

end
