(* ===== verification/Sample_Gateway.thy ===== *)
theory Sample_Gateway
  imports Gateway_Start
begin

text \<open>
  \<^verbatim>\<open>examples/visor-gateway/main.go\<close>: the gateway as a program of its own. Its flags are those of
  \<^verbatim>\<open>visor-gateway\<close> without the two for TLS and without the rate limit, which it leaves zero; \<^verbatim>\<open>-identity-only\<close>
  is on unless there is a backend. The property is that it starts the service that the command starts, but
  for the limiter.
\<close>

definition sample_files :: "gateway_flags \<Rightarrow> named list" where
  "sample_files f =
    [\<lparr>nm_Flag = ''-audit-log'', nm_Path = wf_audit_log f\<rparr>, \<lparr>nm_Flag = ''-denylist'', nm_Path = wf_denylist f\<rparr>,
     \<lparr>nm_Flag = ''-dpop-replay'', nm_Path = wf_dpop_replay f\<rparr>, \<lparr>nm_Flag = ''-jwks'', nm_Path = wf_jwks f\<rparr>]"

definition sample_backend :: "('a net_env_scheme) \<Rightarrow> gateway_flags \<Rightarrow> gateway \<Rightarrow> gateway_error + gateway" where
  "sample_backend N f g =
    (if wf_backend f = [] then Inr g
     else (case nt_Parse N (wf_backend f) of
       None \<Rightarrow> Inl Gs_Backend
     | Some u \<Rightarrow> Inr (g\<lparr>gw_Backend := Some u, gw_IdentityOnly := False\<rparr>)))"

definition sample_main ::
  "('a gateway_start_env_scheme) \<Rightarrow> ('b gateway_env_scheme) \<Rightarrow> instant \<Rightarrow> gateway_flags \<Rightarrow> gateway_error + gateway_service" where
  "sample_main V G now f =
    refuse id (if ValidateBind (sv_ip V) (wf_listen f) then None else Some (Gs_Server ''bind''))
   (refuse id (if wf_audit_log f = [] \<or> wf_denylist f = [] \<or> wf_dpop_replay f = []
      then Some (Gs_Usage ''-audit-log, -denylist, and -dpop-replay are required'') else None)
   (attempt (\<lambda>e. Gs_Serve (Serve_Source e)) (LiveJWKS (sv_net V) (wf_jwks f) (wf_jwks_url f)) (\<lambda>fn.
    refuse (\<lambda>e. Gs_Serve (Serve_Ident e)) (RejectAliased (sv_ident V) (sample_files f))
   (attempt Gs_Serve (open_audit V (ge_audit G) (wf_audit_log f)) (\<lambda>log.
    attempt Gs_Serve (denylist_Live V (wf_denylist f)) (\<lambda>dl.
    attempt Gs_Serve (open_replay V (ge_records G) now (wf_dpop_replay f)) (\<lambda>proofs.
    attempt id (sample_backend (sv_net V) f (gateway_config f log proofs None)) (\<lambda>cfg.
    attempt id (gateway_NewServer (sv_ip V) (wf_listen f) [] [] cfg) (\<lambda>(addr, g).
      Inr \<lparr>gs_config = g, gs_limiter = initLimiter (0, 0),
        gs_keys = (\<lambda>N. case fn N of Inl e \<Rightarrow> Inl (sv_text V e) | Inr ks \<Rightarrow> Inr ks),
        gs_denylist = (\<lambda>L. case dl L of Inl e \<Rightarrow> Inl (gv_load_text V e) | Inr d \<Rightarrow> Inr (Some d))\<rparr>)))))))))"

text \<open>The flags of the command that make the same service, with a rate of the reader's choice.\<close>

definition as_command :: "rate \<Rightarrow> gateway_flags \<Rightarrow> gateway_flags" where
  "as_command rate f = f\<lparr>wf_identity_only := wf_identity_only f \<and> wf_backend f = [], wf_tls_cert := [], wf_tls_key := [],
     wf_rate_limit := rate\<rparr>"

lemma as_command_fields:
  "wf_listen (as_command rate f) = wf_listen f" "wf_jwks (as_command rate f) = wf_jwks f" "wf_jwks_url (as_command rate f) = wf_jwks_url f"
  "wf_backend (as_command rate f) = wf_backend f" "wf_audit_log (as_command rate f) = wf_audit_log f" "wf_denylist (as_command rate f) = wf_denylist f"
  "wf_dpop_replay (as_command rate f) = wf_dpop_replay f" "wf_tls_cert (as_command rate f) = []" "wf_tls_key (as_command rate f) = []"
  "wf_identity_only (as_command rate f) = (wf_identity_only f \<and> wf_backend f = [])"
  "wf_rate_limit (as_command rate f) = rate"
  by (simp_all add: as_command_def)

lemma as_command_files:
  "RejectAliased fs (gateway_files (as_command rate f)) = None \<longleftrightarrow> RejectAliased fs (sample_files f) = None"
  unfolding RejectAliased_None by (simp add: gateway_files_def sample_files_def as_command_fields)

lemma bind_empty: "\<not> ValidateBind ip []"
  by (simp add: ValidateBind_def SplitHostPort_def)

lemma server_needs:
  "gateway_NewServer ip b cert key g = Inr x \<Longrightarrow> CheckBackend (gw_Backend g) \<and> (gw_IdentityOnly g \<or> gw_Backend g \<noteq> None)"
  by (simp add: gateway_NewServer_def Let_def split: if_splits)

lemma bind_needed: "\<not> ValidateBind ip b \<Longrightarrow> b \<noteq> [] \<Longrightarrow> gateway_NewServer ip b cert key g \<noteq> Inr x"
  by (simp add: gateway_NewServer_def Let_def)

text \<open>The two ways to the server: a backend that parses and passes, or none and identity only.\<close>

lemma as_command_server:
  assumes "ValidateBind ip (wf_listen f)"
  shows "(\<exists>cfg. sample_backend N f (gateway_config f log proofs None) = Inr cfg \<and>
      gateway_NewServer ip (wf_listen f) [] [] cfg = Inr x) \<longleftrightarrow>
    (wf_backend f = [] \<longrightarrow> wf_identity_only f) \<and>
    (\<exists>b. gateway_backend N (as_command rate f) = Inr b \<and>
      gateway_NewServer ip (wf_listen f) [] [] (gateway_config (as_command rate f) log proofs b) = Inr x)"
proof (cases "wf_backend f = []")
  case True
  then have "gateway_config (as_command rate f) log proofs None = gateway_config f log proofs None"
    by (simp add: gateway_config_def as_command_def)
  with True show ?thesis
    using server_needs[of ip "wf_listen f" "[]" "[]" "gateway_config f log proofs None" x]
    by (auto simp: sample_backend_def gateway_backend_def as_command_fields gateway_config_fields)
next
  case False
  have "gateway_config (as_command rate f) log proofs (Some u) = (gateway_config f log proofs None)\<lparr>gw_Backend := Some u, gw_IdentityOnly := False\<rparr>" for u
    using False by (simp add: gateway_config_def as_command_def)
  moreover have "CheckBackend (Some u)"
    if "gateway_NewServer ip (wf_listen f) [] [] ((gateway_config f log proofs None)\<lparr>gw_Backend := Some u, gw_IdentityOnly := False\<rparr>) = Inr x" for u
    using server_needs[OF that] by simp
  ultimately show ?thesis
    using False by (cases "nt_Parse N (wf_backend f)") (auto simp: sample_backend_def gateway_backend_def as_command_fields)
qed

text \<open>Without a limit it is the same service.\<close>

lemma sample_unlimited:
  "sample_main V G now f = Inr s \<longleftrightarrow> wf_listen f \<noteq> [] \<and> cmdVisorGateway V G now (as_command (0, 0) f) = Inr s"
proof (cases "ValidateBind (sv_ip V) (wf_listen f)")
  case True
  then have "wf_listen f \<noteq> []" using bind_empty by metis
  have usage: "gateway_usage (as_command rate f) = None \<longleftrightarrow>
      \<not> (wf_audit_log f = [] \<or> wf_denylist f = [] \<or> wf_dpop_replay f = []) \<and> (wf_backend f = [] \<longrightarrow> wf_identity_only f)" for rate
    by (auto simp: gateway_usage_def as_command_fields)
  show ?thesis
    using as_command_server[OF True, where rate = "(0, 0)"] True \<open>wf_listen f \<noteq> []\<close>
    by (auto simp: sample_main_def cmdVisorGateway_def usage as_command_files as_command_fields(1-3,5-9,11)) blast+
next
  case False
  then show ?thesis
    by (auto simp: sample_main_def cmdVisorGateway_def as_command_fields bind_needed)
qed

text \<open>The rate of the command decides about the limiter and about nothing else.\<close>

lemma attempt_map: "attempt h x (\<lambda>a. map_sum id k (g a)) = map_sum id k (attempt h x g)"
  by (simp add: attempt_def split: sum.split)

lemma refuse_map: "refuse h x (map_sum id k y) = map_sum id k (refuse h x y)"
  by (simp add: refuse_def split: option.split)

lemma rate_of_command:
  "cmdVisorGateway V G now (as_command rate f) =
    map_sum id (\<lambda>s. s\<lparr>gs_limiter := initLimiter rate\<rparr>) (cmdVisorGateway V G now (as_command (0, 0) f))"
proof -
  define c where "c = as_command (0, 0) f"
  have same: "gateway_usage (as_command rate f) = gateway_usage c" "gateway_files (as_command rate f) = gateway_files c"
    "gateway_backend N (as_command rate f) = gateway_backend N c"
    "gateway_config (as_command rate f) log proofs b = gateway_config c log proofs b" for N log proofs b
    by (simp_all add: gateway_usage_def gateway_files_def gateway_backend_def gateway_config_def as_command_def c_def)
  have fields: "wf_listen c = wf_listen f" "wf_jwks c = wf_jwks f" "wf_jwks_url c = wf_jwks_url f"
    "wf_audit_log c = wf_audit_log f" "wf_denylist c = wf_denylist f" "wf_dpop_replay c = wf_dpop_replay f"
    "wf_tls_cert c = []" "wf_tls_key c = []" by (simp_all add: c_def as_command_fields)
  show ?thesis
    unfolding cmdVisorGateway_def attempt_map[symmetric] refuse_map[symmetric] c_def[symmetric] same fields as_command_fields
      split_beta map_sum.simps gateway_service.simps by (rule refl)
qed

text \<open>C31: The sample gateway is the command without its limiter. It starts exactly when it has a listen address
  and \<^verbatim>\<open>visor-gateway\<close> starts with the same files and sources, without TLS, with \<^verbatim>\<open>-identity-only\<close> given only if
  there is no backend, and with any rate limit; and then the command's service differs from its own in
  the limiter alone: the sample has none, the command one of that rate if the rate is positive.\<close>

theorem sample_gateway_is_command:
  "sample_main V G now f = Inr s \<longleftrightarrow> wf_listen f \<noteq> [] \<and> gs_limiter s = None \<and>
    cmdVisorGateway V G now (as_command rate f) = Inr (s\<lparr>gs_limiter := if fst rate > 0 then Some rate else None\<rparr>)"
proof -
  let ?c = "cmdVisorGateway V G now (as_command (0, 0) f)" and ?l = "initLimiter rate"
  have none: "gs_limiter t = None" if "?c = Inr t" for t
    using that by (auto simp: cmdVisorGateway_def as_command_fields initLimiter_def)
  have same: "t = u" if "gs_limiter t = None" "gs_limiter u = None" "t\<lparr>gs_limiter := ?l\<rparr> = u\<lparr>gs_limiter := ?l\<rparr>" for t u :: gateway_service
    using that by (cases t; cases u) simp
  have "?c = Inr s \<longleftrightarrow> gs_limiter s = None \<and> map_sum id (\<lambda>t. t\<lparr>gs_limiter := ?l\<rparr>) ?c = Inr (s\<lparr>gs_limiter := ?l\<rparr>)"
    using none same by (cases ?c) auto
  then show ?thesis by (simp add: sample_unlimited rate_of_command[of V G now rate f] flip: initLimiter_def)
qed

end
