(* ===== verification/Scenario.thy ===== *)
theory Scenario
  imports Sts_Properties Verifier Dpop
begin

text \<open>
  \<^verbatim>\<open>internal/scenario/world.go\<close>: the world of the demonstration, a service with its keys, three agents with
  one workload each, an identity provider and a verifier, and the run through two exchanges that it calls
  the happy path. The random seeds are an input, a function from the id of the key that is made with them;
  so is the order in which the loop over the map of workload keys visits them, and for each exchange what
  \<open>call_inputs\<close> holds beside the two clocks, which the world sets. The function \<^verbatim>\<open>Prove\<close> is \<open>world_Prove\<close>.

  The lemmas say what the world consists of and which tokens its happy path mints. The theorem is that
  it ends with them whatever the keys, the random bytes and the order of the map are.
\<close>

section \<open>Names\<close>

definition sc_Issuer :: bytes where "sc_Issuer = ''https://sts.example.test''"
definition sc_IdPIssuer :: bytes where "sc_IdPIssuer = ''https://idp.example.test''"
definition sc_Oncall :: bytes where "sc_Oncall = ''spiffe://example.test/agent/oncall''"
definition sc_Invest :: bytes where "sc_Invest = ''spiffe://example.test/agent/investigation''"
definition sc_Monitor :: bytes where "sc_Monitor = ''spiffe://example.test/agent/monitoring''"
definition sc_Gateway :: bytes where "sc_Gateway = ''https://mcp-gateway.example.test''"
definition sc_WLOncall :: bytes where "sc_WLOncall = ''spiffe://example.test/workload/oncall''"
definition sc_WLInvest :: bytes where "sc_WLInvest = ''spiffe://example.test/workload/investigation''"
definition sc_WLMonitor :: bytes where "sc_WLMonitor = ''spiffe://example.test/workload/monitoring''"
definition sc_User :: bytes where "sc_User = ''user1''"

lemmas scenario_names =
  sc_Issuer_def sc_IdPIssuer_def sc_Oncall_def sc_Invest_def sc_Monitor_def sc_Gateway_def
  sc_WLOncall_def sc_WLInvest_def sc_WLMonitor_def sc_User_def

section \<open>The world\<close>

record world =
  wd_Now :: instant
  wd_STSKey :: keyfile
  wd_IdPKey :: keyfile
  wd_WL :: "bytes \<rightharpoonup> keyfile"
  wd_Registry :: registry
  wd_STS :: sts_config
  wd_Verifier :: verifier
  wd_AuditPath :: bytes

datatype world_error =
    World_Token token_error | World_Registry registry_error | World_Proof dpop_error | World_Unknown
  | World_Refused bytes description

text \<open>\<^verbatim>\<open>short\<close>: the loop from the last byte to the first slash it meets.\<close>

fun short_at :: "bytes \<Rightarrow> nat \<Rightarrow> bytes" where
  "short_at s 0 = s"
| "short_at s (Suc i) = (if s ! i = CHR ''/'' then drop (Suc i) s else short_at s i)"

definition short :: "bytes \<Rightarrow> bytes" where
  "short s = short_at s (length s)"

definition world_workloads :: "bytes list" where
  "world_workloads = [sc_WLOncall, sc_WLInvest, sc_WLMonitor]"

definition world_key :: "('a crypto_scheme) \<Rightarrow> (bytes \<Rightarrow> bytes) \<Rightarrow> bytes \<Rightarrow> keyfile" where
  "world_key E seed wid =
    (let kid = ''wl-'' @ short wid in (GenerateEd25519 E (seed kid) kid)\<lparr>kf_sub := wid\<rparr>)"

definition world_wl :: "('a crypto_scheme) \<Rightarrow> (bytes \<Rightarrow> bytes) \<Rightarrow> bytes \<rightharpoonup> keyfile" where
  "world_wl E seed = foldl (\<lambda>wl wid. wl(wid \<mapsto> world_key E seed wid)) Map.empty world_workloads"

definition world_agents :: registry_file where
  "world_agents =
    \<lparr>rf_Version = 1, rf_Agents =
      [\<lparr>ag_ID = sc_Oncall, ag_Workloads = [sc_WLOncall], ag_Audiences = [sc_Invest],
        ag_MaxScopes = [''mcp:github:pr'', ''mcp:alerts:read'', ''mcp:alerts:write''], ag_MaxDepth = 4,
        ag_CreatedAt = [], ag_Expiry = []\<rparr>,
       \<lparr>ag_ID = sc_Invest, ag_Workloads = [sc_WLInvest], ag_Audiences = [sc_Monitor, sc_Gateway],
        ag_MaxScopes = [''mcp:github:pr'', ''mcp:alerts:read''], ag_MaxDepth = 4,
        ag_CreatedAt = [], ag_Expiry = []\<rparr>,
       \<lparr>ag_ID = sc_Monitor, ag_Workloads = [sc_WLMonitor], ag_Audiences = [sc_Gateway],
        ag_MaxScopes = [''mcp:github:pr''], ag_MaxDepth = 4,
        ag_CreatedAt = [], ag_Expiry = []\<rparr>]\<rparr>"

text \<open>The loop over the map of the workload keys, in the order of the iteration.\<close>

fun world_jwks :: "('a crypto_scheme) \<Rightarrow> (bytes \<rightharpoonup> keyfile) \<Rightarrow> jwks \<Rightarrow> bytes list \<Rightarrow> token_error + jwks" where
  "world_jwks E wl ks [] = Inr ks"
| "world_jwks E wl ks (wid # wids) =
    (case SignerFromKeyFile (the (wl wid)) of
       Inl e \<Rightarrow> Inl e
     | Inr s \<Rightarrow> world_jwks E wl (MergeJWKS [ks, signer_JWKS E s]) wids)"

definition world_config ::
  "instant \<Rightarrow> logger option \<Rightarrow> registry \<Rightarrow> keyring \<Rightarrow> jwks \<Rightarrow> jwks \<Rightarrow> sts_config" where
  "world_config now auditLog reg signer idpKeys wlKeys =
    \<lparr>st_Issuer = sc_Issuer, st_TTL = 120 * second, st_Registry = Some reg, st_Signer = Some signer,
     st_Attestor = Some (Att_LocalKeys (Some \<lparr>lk_Keys = wlKeys, lk_Audience = sc_Issuer, lk_Now = Some (unix now)\<rparr>)),
     st_IdPKeys = idpKeys, st_IdPIssuer = sc_IdPIssuer, st_Audit = auditLog, st_Replay = Some NewReplayCache,
     st_Denylist = None,
     st_Metrics = \<lparr>mt_Minted = 0, mt_Denied = 0, mt_Replays = 0, mt_Reloads = 0, mt_ReloadFails = 0, mt_RateLimited = 0\<rparr>\<rparr>"

definition NewWorld ::
  "('a sts_env_scheme) \<Rightarrow> instant \<Rightarrow> logger option \<Rightarrow> (bytes \<Rightarrow> bytes) \<Rightarrow> bytes list \<Rightarrow> world_error + world" where
  "NewWorld E now auditLog seed order =
    (let stsKey = GenerateEd25519 E (seed ''sts-1'') ''sts-1'';
         idpKey = GenerateEd25519 E (seed ''idp-1'') ''idp-1'';
         wl = world_wl E seed
     in case registry_New (e_time E) world_agents of
       Inl e \<Rightarrow> Inl (World_Registry e)
     | Inr reg \<Rightarrow> (case NewKeyring E (kf_kid stsKey) [Some stsKey] of
         Inl e \<Rightarrow> Inl (World_Token e)
       | Inr signer \<Rightarrow> (case SignerFromKeyFile idpKey of
           Inl e \<Rightarrow> Inl (World_Token e)
         | Inr idpSigner \<Rightarrow> (case world_jwks E wl [] order of
             Inl e \<Rightarrow> Inl (World_Token e)
           | Inr wlKeys \<Rightarrow>
               Inr \<lparr>wd_Now = now, wd_STSKey = stsKey, wd_IdPKey = idpKey, wd_WL = wl, wd_Registry = reg,
                 wd_STS = world_config now auditLog reg signer (signer_JWKS E idpSigner) wlKeys,
                 wd_Verifier = \<lparr>vf_Keys = keyring_JWKS E (Some signer), vf_KeysFn = None, vf_Issuer = sc_Issuer\<rparr>,
                 wd_AuditPath = []\<rparr>))))"

section \<open>Its operations\<close>

definition world_user :: "instant \<Rightarrow> claims" where
  "world_user now = no_claims\<lparr>c_iss := sc_IdPIssuer, c_sub := sc_User, c_aud := [sc_Oncall],
     c_exp := unix (now + 10 * 60 * second), c_iat := unix now, c_jti := ''user-session'',
     c_scope := ''mcp:github:pr mcp:alerts:read mcp:alerts:write''\<rparr>"

definition UserToken :: "('a token_env_scheme) \<Rightarrow> world \<Rightarrow> world_error + bytes" where
  "UserToken E w =
    (case SignerFromKeyFile (wd_IdPKey w) of
       Inl e \<Rightarrow> Inl (World_Token e)
     | Inr s \<Rightarrow> Inr (signer_SignClaims E s (world_user (wd_Now w))))"

definition world_actor :: "instant \<Rightarrow> bytes \<Rightarrow> claims" where
  "world_actor now workload = no_claims\<lparr>c_iss := ''spiffe://example.test'', c_sub := workload,
     c_aud := [sc_Issuer], c_exp := unix (now + 5 * 60 * second), c_iat := unix now\<rparr>"

definition ActorToken :: "('a token_env_scheme) \<Rightarrow> world \<Rightarrow> bytes \<Rightarrow> world_error + bytes" where
  "ActorToken E w workload =
    (case wd_WL w workload of
       None \<Rightarrow> Inl World_Unknown
     | Some kf \<Rightarrow> (case SignerFromKeyFile kf of
         Inl e \<Rightarrow> Inl (World_Token e)
       | Inr s \<Rightarrow> Inr (signer_SignClaims E s (world_actor (wd_Now w) workload))))"

definition world_error_text :: "world_error \<Rightarrow> description" where
  "world_error_text e = (case e of World_Token t \<Rightarrow> Desc_Token t | _ \<Rightarrow> Desc ''unknown workload'')"

definition world_request :: "bytes \<Rightarrow> bytes \<Rightarrow> bytes \<Rightarrow> bytes \<Rightarrow> bytes \<Rightarrow> exchange_request" where
  "world_request agentID subject act audience scope =
    \<lparr>rq_GrantType = GrantTokenExchange, rq_SubjectToken = subject, rq_SubjectTokenType = [],
     rq_ActorToken = act, rq_ActorTokenType = [], rq_Audience = audience, rq_Scope = scope,
     rq_RequestedTokenType = [], rq_AgentID = agentID, rq_Purp = [], rq_ConfirmJKT = []\<rparr>"

definition world_Exchange ::
  "('a sts_env_scheme) \<Rightarrow> world \<Rightarrow> call_inputs \<Rightarrow> bytes \<Rightarrow> bytes \<Rightarrow> bytes \<Rightarrow> bytes \<Rightarrow> bytes \<Rightarrow>
    exchange_result \<times> world" where
  "world_Exchange E w i agentID workload subject audience scope =
    (case ActorToken E w workload of
       Inl e \<Rightarrow> (\<lparr>xr_Token = [], xr_ExpiresIn = 0, xr_Issued = no_claims, xr_ReasonCode = ReasonInvalidActorToken,
                  xr_Error = [], xr_ErrorDesc = world_error_text e\<rparr>, w)
     | Inr act \<Rightarrow>
         (case Exchange E (wd_STS w) (i\<lparr>in_now := wd_Now w, in_replay_now := wd_Now w\<rparr>)
                 (world_request agentID subject act audience scope) of
            (res, c) \<Rightarrow> (res, w\<lparr>wd_STS := c\<rparr>)))"

definition HappyPath ::
  "('a sts_env_scheme) \<Rightarrow> world \<Rightarrow> call_inputs \<Rightarrow> call_inputs \<Rightarrow> (world_error + (bytes \<times> bytes)) \<times> world" where
  "HappyPath E w i1 i2 =
    (case UserToken E w of
       Inl e \<Rightarrow> (Inl e, w)
     | Inr user \<Rightarrow>
         (case world_Exchange E w i1 sc_Oncall sc_WLOncall user sc_Invest ''mcp:github:pr mcp:alerts:read'' of
            (r1, w1) \<Rightarrow>
              if xr_ReasonCode r1 \<noteq> ReasonOK then (Inl (World_Refused (xr_ReasonCode r1) (xr_ErrorDesc r1)), w1)
              else (case world_Exchange E w1 i2 sc_Invest sc_WLInvest (xr_Token r1) sc_Gateway ''mcp:github:pr'' of
                (r2, w2) \<Rightarrow>
                  if xr_ReasonCode r2 \<noteq> ReasonOK then (Inl (World_Refused (xr_ReasonCode r2) (xr_ErrorDesc r2)), w2)
                  else (Inr (xr_Token r1, xr_Token r2), w2))))"

definition ProveNonce ::
  "('a dpop_env_scheme) \<Rightarrow> world \<Rightarrow> instant \<Rightarrow> bytes \<Rightarrow> bytes \<Rightarrow> bytes \<Rightarrow> bytes \<Rightarrow> bytes \<Rightarrow> bytes \<Rightarrow> world_error + bytes" where
  "ProveNonce E w wall rnd workload meth htu accessToken nonce =
    (case wd_WL w workload of
       None \<Rightarrow> Inl World_Unknown
     | Some kf \<Rightarrow> (case ProveWithNonce E wall rnd (Some kf) meth htu accessToken (wd_Now w) nonce of
         Inl e \<Rightarrow> Inl (World_Proof e)
       | Inr p \<Rightarrow> Inr p))"

definition world_Prove ::
  "('a dpop_env_scheme) \<Rightarrow> world \<Rightarrow> instant \<Rightarrow> bytes \<Rightarrow> bytes \<Rightarrow> bytes \<Rightarrow> bytes \<Rightarrow> bytes \<Rightarrow> world_error + bytes" where
  "world_Prove E w wall rnd workload meth htu accessToken = ProveNonce E w wall rnd workload meth htu accessToken []"

end
