(* ===== verification/Scenario_Run.thy ===== *)
theory Scenario_Run
  imports Scenario Serve Record_Size A2a_Properties
begin

text \<open>
  The happy path of the world of \<^verbatim>\<open>internal/scenario\<close>, and the attacks of \<^verbatim>\<open>cmd/agent-identity-plane/demo.go\<close>
  on it. The claims that the world signs and mints are written out; the hypotheses are those on the
  primitives (a signature verifies, the codec reads back what it wrote for these claims) and on the audit
  log, which is open and takes what is written to it; that the records fit its lines follows from the size
  of JSON.
\<close>

section \<open>The keys of the world\<close>

definition world_signer :: "(bytes \<Rightarrow> bytes) \<Rightarrow> bytes \<Rightarrow> signer" where
  "world_signer seed wid = \<lparr>sg_seed = seed (''wl-'' @ short wid), sg_kid = ''wl-'' @ short wid, sg_sub = wid\<rparr>"

definition plain_signer :: "(bytes \<Rightarrow> bytes) \<Rightarrow> bytes \<Rightarrow> signer" where
  "plain_signer seed kid = \<lparr>sg_seed = seed kid, sg_kid = kid, sg_sub = []\<rparr>"

lemma world_kids:
  "short sc_WLOncall = ''oncall''" "short sc_WLInvest = ''investigation''" "short sc_WLMonitor = ''monitoring''"
  by code_simp+

text \<open>The primitives for the keys of the world.\<close>

definition world_laws :: "('a crypto_scheme) \<Rightarrow> (bytes \<Rightarrow> bytes) \<Rightarrow> bool" where
  "world_laws E seed \<longleftrightarrow>
    (\<forall>kid \<in> {''sts-1'', ''idp-1'', ''wl-oncall'', ''wl-investigation'', ''wl-monitoring''}.
       length (seed kid) = 32 \<and> ed25519_laws E (seed kid)) \<and> (\<forall>m. sha256_Sum E m \<noteq> [])"

lemma world_workload_kid:
  "wid \<in> set world_workloads \<Longrightarrow> ''wl-'' @ short wid \<in> {''wl-oncall'', ''wl-investigation'', ''wl-monitoring''}"
  by (auto simp: world_workloads_def world_kids)

lemma world_workload_kid_inj: "inj_on (\<lambda>wid. ''wl-'' @ short wid) (set world_workloads)"
  by (auto simp: inj_on_def world_workloads_def world_kids)

lemma world_workloads_distinct: "distinct world_workloads"
  by code_simp

lemma world_wl_eq: "world_wl E seed wid = (if wid \<in> set world_workloads then Some (world_key E seed wid) else None)"
  by (simp add: world_wl_def world_workloads_def)

lemma world_key_signs:
  assumes "world_laws E seed" "wid \<in> set world_workloads"
  shows "SignerFromKeyFile (world_key E seed wid) = Inr (world_signer seed wid)"
proof -
  have "length (seed (''wl-'' @ short wid)) = 32"
    using assms world_workload_kid[OF assms(2)] unfolding world_laws_def by blast
  then show ?thesis
    by (auto simp: world_key_def world_signer_def Let_def SignerFromKeyFile_def keyfile_PrivateKey_def GenerateEd25519_def NewSigner_def)
qed

lemma plain_key_signs:
  assumes "world_laws E seed" "kid \<in> {''sts-1'', ''idp-1''}"
  shows "SignerFromKeyFile (GenerateEd25519 E (seed kid) kid) = Inr (plain_signer seed kid)"
  using assms SignerFromKeyFile_Generate[of "seed kid" E kid] by (auto simp: world_laws_def plain_signer_def)

lemma world_laws_of:
  assumes "world_laws E seed"
  shows "wid \<in> set world_workloads \<Longrightarrow> ed25519_laws E (sg_seed (world_signer seed wid))"
    "kid \<in> {''sts-1'', ''idp-1''} \<Longrightarrow> ed25519_laws E (sg_seed (plain_signer seed kid))"
proof -
  show "ed25519_laws E (sg_seed (world_signer seed wid))" if "wid \<in> set world_workloads"
    using assms world_workload_kid[OF that] unfolding world_laws_def world_signer_def by (metis insert_iff signer.select_convs(1))
  show "ed25519_laws E (sg_seed (plain_signer seed kid))" if "kid \<in> {''sts-1'', ''idp-1''}"
    using assms that by (auto simp: world_laws_def plain_signer_def)
qed

text \<open>Whatever the order of the map, the keys of the workloads are published under different ids.\<close>

lemma world_jwks_order:
  assumes "world_laws E seed" "distinct order" "set order \<subseteq> set world_workloads" "distinct (map k_kid ks)" "[] \<notin> k_kid ` set ks"
    and "\<forall>wid \<in> set order. ''wl-'' @ short wid \<notin> k_kid ` set ks"
  shows "world_jwks E (world_wl E seed) ks order = Inr (ks @ map (\<lambda>wid. signer_PublicJWK E (world_signer seed wid)) order)"
  using assms(2-)
proof (induction order arbitrary: ks)
  case (Cons wid order)
  let ?j = "signer_PublicJWK E (world_signer seed wid)"
  have kid: "k_kid ?j = ''wl-'' @ short wid" by (simp add: signer_PublicJWK_def world_signer_def)
  have wid: "wid \<in> set world_workloads" using Cons.prems by simp
  have dis: "distinct (map k_kid (ks @ [?j]))" "[] \<notin> k_kid ` set (ks @ [?j])" using Cons.prems kid by auto
  have "MergeJWKS [ks, [?j]] = ks @ [?j]" using MergeJWKS_distinct[of "[ks, [?j]]"] dis by simp
  moreover have "\<forall>w \<in> set order. ''wl-'' @ short w \<noteq> ''wl-'' @ short wid"
    using Cons.prems(1,2) wid world_workload_kid_inj unfolding inj_on_def by (metis distinct.simps(2) list.set_intros(2) subsetD)
  then have "\<forall>w \<in> set order. ''wl-'' @ short w \<notin> k_kid ` set (ks @ [?j])" using Cons.prems(5) kid by auto
  ultimately show ?case
    using Cons.IH[of "ks @ [?j]"] Cons.prems dis world_key_signs[OF assms(1) wid] wid
    by (simp add: world_wl_eq signer_JWKS_def)
qed simp

definition world_keys :: "('a crypto_scheme) \<Rightarrow> (bytes \<Rightarrow> bytes) \<Rightarrow> bytes list \<Rightarrow> jwks" where
  "world_keys E seed order = map (\<lambda>wid. signer_PublicJWK E (world_signer seed wid)) order"

definition world_ring :: "(bytes \<Rightarrow> bytes) \<Rightarrow> keyring" where
  "world_ring seed = \<lparr>kr_activeKID = ''sts-1'', kr_byKID = Some [(''sts-1'', plain_signer seed ''sts-1'')]\<rparr>"

definition world_registry :: registry where
  "world_registry = \<lparr>rg_Version = 1, rg_byID = by_ids (rf_Agents world_agents), rg_Agents = rf_Agents world_agents\<rparr>"

lemma world_registry_New: "registry_New P world_agents = Inr world_registry"
proof -
  have "distinct (map ag_ID (rf_Agents world_agents))" by code_simp
  moreover have "list_all (\<lambda>a. \<not> is_blank (ag_ID a) \<and> strings_Contains (ag_ID a) ''://'' \<and> 1 \<le> ag_MaxDepth a \<and>
      ag_Workloads a \<noteq> [] \<and> list_all (\<lambda>w. \<not> is_blank w) (ag_Workloads a) \<and> ag_Audiences a \<noteq> [] \<and>
      ag_CreatedAt a = [] \<and> ag_Expiry a = []) (rf_Agents world_agents)" by code_simp
  then have "\<forall>a \<in> set (rf_Agents world_agents). agent_ok P a" by (auto simp: list_all_iff agent_ok_def parseTime_def)
  moreover have "rf_Version world_agents = 1" "rf_Agents world_agents \<noteq> []" by (simp_all add: world_agents_def)
  ultimately show ?thesis by (simp add: registry_New_Inr world_registry_def)
qed

lemma world_ring_New:
  assumes "world_laws E seed"
  shows "NewKeyring E ''sts-1'' [Some (GenerateEd25519 E (seed ''sts-1'') ''sts-1'')] = Inr (world_ring seed)"
proof -
  have "kf_kid (GenerateEd25519 E (seed ''sts-1'') ''sts-1'') = ''sts-1''" by (simp add: GenerateEd25519_def)
  then show ?thesis
    using plain_key_signs[OF assms, of "''sts-1''"]
    by (simp add: NewKeyring_def keyring_Replace_def replace_check_def empty_keyring_def world_ring_def)
qed

lemma world_ring_JWKS: "keyring_JWKS E (Some (world_ring seed)) = [signer_PublicJWK E (plain_signer seed ''sts-1'')]"
  by (simp add: keyring_JWKS_def world_ring_def jwksFrom_def)

section \<open>Worlds\<close>

text \<open>A log whose writes succeed: there is none, or it is open and its marshaller is no longer than JSON is.
  The records that the exchanges of the world leave in it are short enough.\<close>

definition log_ready :: "audit_env \<Rightarrow> logger option \<Rightarrow> bool" where
  "log_ready A lo \<longleftrightarrow>
    (case lo of None \<Rightarrow> True
     | Some l \<Rightarrow> log_open l \<and> json_bound A)"

definition writes_whole :: "call_inputs \<Rightarrow> bool" where
  "writes_whole i \<longleftrightarrow> in_audit_io i = \<lparr>io_written = None, io_synced = True\<rparr> \<and> length (in_stamp i) \<le> 64"

text \<open>A world that \<^verbatim>\<open>NewWorld\<close> has made, with any records in its two logs.\<close>

definition made_world :: "('a sts_env_scheme) \<Rightarrow> instant \<Rightarrow> (bytes \<Rightarrow> bytes) \<Rightarrow> bytes list \<Rightarrow> world \<Rightarrow> bool" where
  "made_world E now seed order w \<longleftrightarrow>
    wd_Now w = now \<and> wd_IdPKey w = GenerateEd25519 E (seed ''idp-1'') ''idp-1'' \<and> wd_WL w = world_wl E seed \<and>
    wd_Verifier w = \<lparr>vf_Keys = [signer_PublicJWK E (plain_signer seed ''sts-1'')], vf_KeysFn = None, vf_Issuer = sc_Issuer\<rparr> \<and>
    (\<exists>lo rc m. wd_STS w = (world_config now lo world_registry (world_ring seed)
        [signer_PublicJWK E (plain_signer seed ''idp-1'')] (world_keys E seed order))\<lparr>st_Replay := Some rc, st_Metrics := m\<rparr> \<and>
      log_ready (e_audit E) lo)"

lemma NewWorld_makes:
  assumes "world_laws E seed" "distinct order" "set order = set world_workloads" "log_ready (e_audit E) lo"
  obtains w where "NewWorld E now lo seed order = Inr w" "made_world E now seed order w" "st_Replay (wd_STS w) = Some NewReplayCache"
proof -
  have j: "world_jwks E (world_wl E seed) [] order = Inr (world_keys E seed order)"
    using world_jwks_order[OF assms(1,2), of "[]"] assms(3) by (simp add: world_keys_def)
  have kid: "kf_kid (GenerateEd25519 E (seed ''sts-1'') ''sts-1'') = ''sts-1''" by (simp add: GenerateEd25519_def)
  show ?thesis
    using that[OF _ _ _] assms(4) plain_key_signs[OF assms(1)]
    by (fastforce simp: NewWorld_def Let_def world_registry_New kid world_ring_New[OF assms(1)] j made_world_def
        signer_JWKS_def world_ring_JWKS world_config_def)
qed

section \<open>The exchanges of a world\<close>

lemma unix_later: "unix (now + k * second) = unix now + k"
  by (simp add: unix_def)

lemma signed_not_blank: "\<not> is_blank (signer_SignClaims E s c)"
proof -
  have "plain (signer_SignClaims E s c)" unfolding signer_SignClaims_def by (rule plain_compact)
  then show ?thesis using plain_trim by (auto simp: is_blank_def plain_def)
qed

text \<open>The claims of the two tokens of the happy path.\<close>

definition world_jkt :: "('a token_env_scheme) \<Rightarrow> (bytes \<Rightarrow> bytes) \<Rightarrow> bytes \<Rightarrow> bytes" where
  "world_jkt E seed wid = (case Thumbprint E (signer_PublicJWK E (world_signer seed wid)) of Inl e \<Rightarrow> [] | Inr t \<Rightarrow> t)"

definition world_first :: "instant \<Rightarrow> bytes \<Rightarrow> bytes \<Rightarrow> bytes \<Rightarrow> claims" where
  "world_first now jkt txn_rnd jti_rnd =
    \<lparr>c_iss = sc_Issuer, c_sub = sc_User, c_aud = [sc_Invest], c_exp = unix now + 120, c_nbf = unix now, c_iat = unix now,
     c_jti = newID ''jti'' jti_rnd, c_txn = newID ''txn'' txn_rnd, c_act = Some (Actor sc_Issuer sc_Oncall None),
     c_actchain = [], c_scope = ''mcp:alerts:read mcp:github:pr'', c_purp = [], c_cnf = Some \<lparr>cnf_jkt = jkt\<rparr>\<rparr>"

definition world_second :: "instant \<Rightarrow> bytes \<Rightarrow> bytes \<Rightarrow> bytes \<Rightarrow> claims" where
  "world_second now jkt txn_rnd jti_rnd =
    \<lparr>c_iss = sc_Issuer, c_sub = sc_User, c_aud = [sc_Gateway], c_exp = unix now + 120, c_nbf = unix now, c_iat = unix now,
     c_jti = newID ''jti'' jti_rnd, c_txn = newID ''txn'' txn_rnd,
     c_act = Some (Actor sc_Issuer sc_Invest (Some (Actor sc_Issuer sc_Oncall None))),
     c_actchain = [Actor sc_Issuer sc_Oncall None], c_scope = ''mcp:github:pr'', c_purp = [], c_cnf = Some \<lparr>cnf_jkt = jkt\<rparr>\<rparr>"

definition reads_back :: "('a token_env_scheme) \<Rightarrow> bytes \<Rightarrow> claims \<Rightarrow> bool" where
  "reads_back E kid c \<longleftrightarrow> codec_ok E \<lparr>h_alg = ''EdDSA'', h_typ = ''JWT'', h_kid = kid\<rparr> c"

lemma world_jkt:
  assumes "world_laws E seed" "wid \<in> set world_workloads"
  shows "Thumbprint E (signer_PublicJWK E (world_signer seed wid)) = Inr (world_jkt E seed wid)" "world_jkt E seed wid \<noteq> []"
proof -
  have "length (ed25519_Public E (sg_seed (world_signer seed wid))) = 32"
    using world_laws_of(1)[OF assms] by (simp add: ed25519_laws_def)
  then have "ed25519_Public E (sg_seed (world_signer seed wid)) \<noteq> []" by auto
  then have "\<exists>t. Thumbprint E (signer_PublicJWK E (world_signer seed wid)) = Inr t"
    by (simp add: Thumbprint_def thumbprintMembers_def signer_PublicJWK_def)
  then show t: "Thumbprint E (signer_PublicJWK E (world_signer seed wid)) = Inr (world_jkt E seed wid)"
    by (auto simp: world_jkt_def)
  show "world_jkt E seed wid \<noteq> []"
    using Thumbprint_nonempty[OF t] assms(1) by (simp add: world_laws_def)
qed

text \<open>A workload of the world is attested with its own key.\<close>

lemma world_attests:
  assumes w: "made_world E now seed order w" and laws: "world_laws E seed" "distinct order" "set order = set world_workloads"
    and wid: "wid \<in> set world_workloads" and codec: "reads_back E (''wl-'' @ short wid) (world_actor now wid)" and now: "0 \<le> unix now"
  obtains tok where "ActorToken E w wid = Inr tok" "\<not> is_blank tok"
    "Attest E (the (st_Attestor (wd_STS w))) tok
      = Inr \<lparr>wi_ID = wid, wi_Issuer = ''spiffe://example.test'', wi_JTI = [], wi_PossessedJKT = world_jkt E seed wid\<rparr>"
proof -
  let ?s = "world_signer seed wid" and ?c = "world_actor now wid"
  have tok: "ActorToken E w wid = Inr (signer_SignClaims E ?s ?c)"
    using w wid world_key_signs[OF laws(1) wid] by (simp add: ActorToken_def made_world_def world_wl_eq)
  have kid: "sg_kid (world_signer seed x) = ''wl-'' @ short x" for x by (simp add: world_signer_def)
  have "map k_kid (world_keys E seed order) = map (\<lambda>wid. ''wl-'' @ short wid) order"
    by (simp add: world_keys_def signer_PublicJWK_def kid)
  then have dis: "distinct (map k_kid (world_keys E seed order))"
    using world_workload_kid_inj laws(2,3) by (simp add: distinct_map)
  have "signer_PublicJWK E ?s \<in> set (world_keys E seed order)" using wid laws(3) by (simp add: world_keys_def)
  then have v: "VerifyKey E (signer_SignClaims E ?s ?c) (world_keys E seed order)
      = Inr (\<lparr>h_alg = ''EdDSA'', h_typ = ''JWT'', h_kid = sg_kid ?s\<rparr>, ?c, signer_PublicJWK E ?s)"
    using sign_VerifyKey[OF world_laws_of(1)[OF laws(1) wid], of ?c "world_keys E seed order"] codec dis
    by (simp add: reads_back_def kid)
  have att: "st_Attestor (wd_STS w) = Some (Att_LocalKeys (Some \<lparr>lk_Keys = world_keys E seed order, lk_Audience = sc_Issuer, lk_Now = Some (unix now)\<rparr>))"
    using w by (auto simp: made_world_def world_config_def)
  have ne: "world_keys E seed order \<noteq> []" using wid laws(3) by (auto simp: world_keys_def)
  have blank: "\<not> is_blank wid" "sc_Issuer \<noteq> []"
  proof -
    have "list_all (\<lambda>w. \<not> is_blank w) world_workloads" by code_simp
    with wid show "\<not> is_blank wid" by (simp add: list_all_iff)
  qed (simp add: sc_Issuer_def)
  have sub: "k_sub (signer_PublicJWK E ?s) = wid" by (simp add: signer_PublicJWK_def world_signer_def)
  have exp: "c_exp ?c = unix now + 300" using unix_later[of now 300] by (simp add: world_actor_def)
  have "Attest E (the (st_Attestor (wd_STS w))) (signer_SignClaims E ?s ?c)
      = Inr \<lparr>wi_ID = wid, wi_Issuer = ''spiffe://example.test'', wi_JTI = [], wi_PossessedJKT = world_jkt E seed wid\<rparr>"
    using now blank world_jkt(1)[OF laws(1) wid]
    by (simp add: att LocalKeys_Attest_def LocalKeys_keys_def v ne ValidateSubject_def sub exp)
      (simp add: world_actor_def no_claims_def)
  with tok signed_not_blank that show ?thesis by blast
qed

text \<open>What the service of the world makes of a token of the identity provider and of one of its own.\<close>

lemma world_snapshot:
  assumes "made_world E now seed order w"
  shows "st_Issuer (wd_STS w) = sc_Issuer" "sts_ttl (wd_STS w) = 120 * second" "st_Signer (wd_STS w) = Some (world_ring seed)"
    "st_IdPKeys (wd_STS w) = [signer_PublicJWK E (plain_signer seed ''idp-1'')]" "st_IdPIssuer (wd_STS w) = sc_IdPIssuer"
    "st_Registry (wd_STS w) = Some world_registry" "st_Denylist (wd_STS w) = None" "st_Attestor (wd_STS w) \<noteq> None"
    "wd_Now w = now" "wd_Verifier w = \<lparr>vf_Keys = keyring_JWKS E (Some (world_ring seed)), vf_KeysFn = None, vf_Issuer = sc_Issuer\<rparr>"
    "wd_IdPKey w = GenerateEd25519 E (seed ''idp-1'') ''idp-1''"
  using assms by (auto simp: made_world_def world_config_def sts_ttl_def world_ring_JWKS)

lemma not_under_other_kid:
  assumes "ed25519_laws E (sg_seed s)" "reads_back E (sg_kid s) c" "sg_kid s \<noteq> []" "sg_kid s \<notin> k_kid ` set keys"
  shows "\<exists>e. jws_Verify E (signer_SignClaims E s c) keys = Inl e"
proof (cases "jws_Verify E (signer_SignClaims E s c) keys")
  case (Inr r)
  then obtain h c' j where "VerifyKey E (signer_SignClaims E s c) keys = Inr (h, c', j)"
    by (auto simp: jws_Verify_def split: sum.splits)
  from signed_header[OF assms(1) _ assms(3) this] assms(2) have "j \<in> set keys" "k_kid j = sg_kid s"
    by (auto simp: reads_back_def)
  with assms(4) show ?thesis by (metis image_eqI)
qed simp

lemma plain_verifies:
  assumes "world_laws E seed" "kid \<in> {''sts-1'', ''idp-1''}" "reads_back E kid c"
  shows "jws_Verify E (signer_SignClaims E (plain_signer seed kid) c) [signer_PublicJWK E (plain_signer seed kid)]
    = Inr (\<lparr>h_alg = ''EdDSA'', h_typ = ''JWT'', h_kid = kid\<rparr>, c)"
  using sign_VerifyKey[OF world_laws_of(2)[OF assms(1,2)], of c "[signer_PublicJWK E (plain_signer seed kid)]"] assms(2,3)
  by (auto simp: jws_Verify_def reads_back_def plain_signer_def)

lemma world_subject_idp:
  assumes "made_world E now seed order w" "world_laws E seed" "reads_back E ''idp-1'' c"
  shows "verifySubject E sc_Issuer (signer_SignClaims E (plain_signer seed ''idp-1'') c) (snapshot (wd_STS w)) =
    (if c_iss c = sc_IdPIssuer then Inr (c, False) else Inl Token_ErrIssuerMismatch)"
proof -
  have "\<exists>e. jws_Verify E (signer_SignClaims E (plain_signer seed ''idp-1'') c) (keyring_JWKS E (Some (world_ring seed))) = Inl e"
    by (rule not_under_other_kid) (use assms(2,3) world_laws_of(2)[of E seed "''idp-1''"] in \<open>simp_all add: world_ring_JWKS plain_signer_def\<close>)
  moreover have "sc_IdPIssuer \<noteq> []" by (simp add: sc_IdPIssuer_def)
  ultimately show ?thesis
    using plain_verifies[OF assms(2) _ assms(3)] by (auto simp: verifySubject_def world_snapshot[OF assms(1)])
qed

lemma world_subject_sts:
  assumes "made_world E now seed order w" "world_laws E seed" "reads_back E ''sts-1'' c" "c_iss c = sc_Issuer"
  shows "verifySubject E sc_Issuer (signer_SignClaims E (plain_signer seed ''sts-1'') c) (snapshot (wd_STS w)) = Inr (c, True)"
  using plain_verifies[OF assms(2) _ assms(3)] assms(4)
  by (simp add: verifySubject_def world_snapshot[OF assms(1)] world_ring_JWKS)

text \<open>With a log whose writes succeed, an exchange answers its outcome and leaves a world of the same making.\<close>

lemma log_ready_Append:
  assumes "log_ready A (Some l)" "length st \<le> 64" "small_event ev"
  obtains l' where "Append A l st \<lparr>io_written = None, io_synced = True\<rparr> ev = (None, l')" "log_ready A (Some l')"
proof -
  have l: "log_open l" "json_bound A" using assms(1) by (simp_all add: log_ready_def)
  obtain l' where "Append A l st \<lparr>io_written = None, io_synced = True\<rparr> ev = (None, l')" "log_open l'"
    by (rule Append_fits[OF l(2,1) assms(2,3)])
  with l(2) that show ?thesis by (simp add: log_ready_def)
qed

lemma reasons_short: "r \<in> set reasons \<Longrightarrow> bounded_string r \<and> length r \<le> 64"
proof -
  have "list_all (\<lambda>r. ValidString r \<and> length r \<le> 64) reasons" by code_simp
  then show "r \<in> set reasons \<Longrightarrow> bounded_string r \<and> length r \<le> 64"
    by (auto simp: list_all_iff bounded_string_def maxEventString_def)
qed

text \<open>The chains of the world are no deeper than its agents may go.\<close>

lemma minted_depth:
  assumes "mints E c i req wl ag sub f issued raw rc"
  shows "int (Depth issued) \<le> ag_MaxDepth ag"
proof -
  have "length (ActorSubs sub) \<le> length (AppendChain sub)" using Depth_le[of sub] by (simp add: Depth_def)
  moreover have "int (length (AppendChain sub)) + 1 \<le> ag_MaxDepth ag" using assms by (simp add: mints_def subject_ok_def)
  ultimately show ?thesis using mints_ActorSubs[OF assms] by (simp add: Depth_def)
qed

lemma world_event_small:
  assumes "made_world E now seed order w" "exchange E (wd_STS w) i req = (oc, rc)"
  shows "small_event (exchange_event req oc)"
proof -
  have reason: "bounded_string (xr_ReasonCode oc)" "length (xr_ReasonCode oc) \<le> 64"
    using reasons_short[OF exchange_reason[OF assms(2)]] by simp_all
  have names: "bounded_string ''token_minted''" "bounded_string ''token_denied''"
    by (simp_all add: bounded_string_def maxEventString_def) (code_simp+)
  have depth: "int (Depth (xr_Issued oc)) \<le> 4" if ok: "xr_ReasonCode oc = ReasonOK"
    using assms(2)
  proof (cases rule: exchange_outcomes)
    case denied
    with ok show ?thesis by (simp add: is_denial_def)
  next
    case (minted wl ag sub f)
    have "registry_Get world_registry (rq_AgentID req) = Some ag"
      using minted(3) assms(1)
      by (auto simp: mints_def caller_ok_def check_caller_Inr Authorize_Inr made_world_def world_config_def registry_Get_def)
    then have "ag \<in> set (rf_Agents world_agents)" using registry_Get_loaded[OF world_registry_New] by blast
    moreover have "list_all (\<lambda>a. ag_MaxDepth a \<le> 4) (rf_Agents world_agents)" by code_simp
    ultimately have "ag_MaxDepth ag \<le> 4" by (simp add: list_all_iff)
    with minted_depth[OF minted(3)] show ?thesis by simp
  qed
  then have "xr_ReasonCode oc = ReasonOK \<Longrightarrow> in_i64 (int (Depth (xr_Issued oc)))" by (force simp: in_i64_def)
  moreover have "in_i64 0" by (simp add: in_i64_def)
  ultimately show ?thesis
    using reason names reasons_short[of ReasonOK] by (simp add: small_event_def exchange_event_def empty_event_def Let_def)
qed

lemma world_Exchange_made:
  assumes w: "made_world E now seed order w" and act: "ActorToken E w workload = Inr tok" and io: "writes_whole i"
    and x: "exchange E (wd_STS w) (i\<lparr>in_now := now, in_replay_now := now\<rparr>) (world_request agentID subject tok audience scope) = (oc, rc)"
  obtains w' where "world_Exchange E w i agentID workload subject audience scope = (exchange_result.truncate oc, w')"
    "made_world E now seed order w'" "st_Replay (wd_STS w') = rc"
proof -
  let ?i = "i\<lparr>in_now := now, in_replay_now := now\<rparr>" and ?req = "world_request agentID subject tok audience scope"
  from w obtain lo rc0 m where c: "wd_STS w = (world_config now lo world_registry (world_ring seed)
        [signer_PublicJWK E (plain_signer seed ''idp-1'')] (world_keys E seed order))\<lparr>st_Replay := Some rc0, st_Metrics := m\<rparr>"
    and lo: "log_ready (e_audit E) lo" by (auto simp: made_world_def)
  have "st_Replay (wd_STS w) = Some rc0" "st_Audit (wd_STS w) = lo" by (simp_all add: c world_config_def)
  then obtain rc1 where rc: "rc = Some rc1" using exchange_replay[OF x] by auto
  obtain lo' m' where X: "Exchange E (wd_STS w) ?i ?req = (exchange_result.truncate oc,
      (wd_STS w)\<lparr>st_Replay := rc, st_Audit := lo', st_Metrics := m'\<rparr>)" "log_ready (e_audit E) lo'"
  proof (cases lo)
    case None
    with x c that[where lo' = None and m' = "st_Metrics (wd_STS w)"] show ?thesis by (simp add: Exchange_def world_config_def log_ready_def)
  next
    case (Some l)
    obtain l' where "Append (e_audit E) l (in_stamp i) \<lparr>io_written = None, io_synced = True\<rparr> (exchange_event ?req oc) = (None, l')"
      "log_ready (e_audit E) (Some l')"
      by (rule log_ready_Append[OF lo[unfolded Some] _ world_event_small[OF w x], of "in_stamp i"]) (use io in \<open>simp add: writes_whole_def\<close>)
    with Some x c io that[where lo' = "Some l'" and m' = "count_outcome oc (st_Metrics (wd_STS w))"] show ?thesis
      by (simp add: Exchange_def world_config_def writes_whole_def)
  qed
  let ?w = "w\<lparr>wd_STS := (wd_STS w)\<lparr>st_Replay := rc, st_Audit := lo', st_Metrics := m'\<rparr>\<rparr>"
  have "wd_STS ?w = (world_config now lo' world_registry (world_ring seed)
      [signer_PublicJWK E (plain_signer seed ''idp-1'')] (world_keys E seed order))\<lparr>st_Replay := Some rc1, st_Metrics := m'\<rparr>"
    by (simp add: c rc world_config_def)
  then have "made_world E now seed order ?w" using w X(2) unfolding made_world_def by auto
  moreover have "world_Exchange E w i agentID workload subject audience scope = (exchange_result.truncate oc, ?w)"
    using X(1) act world_snapshot(9)[OF w] by (simp add: world_Exchange_def)
  ultimately show ?thesis using that[of ?w] by simp
qed

section \<open>The happy path\<close>

definition oncall_agent :: agent where "oncall_agent = rf_Agents world_agents ! 0"
definition invest_agent :: agent where "invest_agent = rf_Agents world_agents ! 1"

lemma world_authorizes:
  "Authorize P world_registry sc_Oncall sc_WLOncall sc_Invest now = Inr oncall_agent"
  "Authorize P world_registry sc_Invest sc_WLInvest sc_Gateway now = Inr invest_agent"
  by code_simp+

lemma world_scopes:
  "narrowScope ''mcp:github:pr mcp:alerts:read'' ''mcp:github:pr mcp:alerts:read mcp:alerts:write'' (ag_MaxScopes oncall_agent)
    = Some ''mcp:alerts:read mcp:github:pr''"
  "narrowScope ''mcp:github:pr'' ''mcp:alerts:read mcp:github:pr'' (ag_MaxScopes invest_agent) = Some ''mcp:github:pr''"
  by code_simp+

lemma world_depths: "ag_MaxDepth oncall_agent = 4" "ag_MaxDepth invest_agent = 4"
  by code_simp+

lemma scenario_not_blank:
  "\<not> is_blank sc_Oncall" "\<not> is_blank sc_Invest" "\<not> is_blank sc_Gateway" "\<not> is_blank sc_User"
  by code_simp+

lemma scenario_nonempty [simp]: "sc_Oncall \<noteq> []" "sc_Invest \<noteq> []" "sc_Gateway \<noteq> []" "sc_Issuer \<noteq> []" "sc_User \<noteq> []"
  by (simp_all add: scenario_names)

text \<open>One exchange of a world that meets the conditions mints.\<close>

lemma world_hop:
  assumes w: "made_world E now seed order w" and laws: "world_laws E seed" "distinct order" "set order = set world_workloads"
    and wid: "wid \<in> set world_workloads" and codec: "reads_back E (''wl-'' @ short wid) (world_actor now wid)" and now: "0 \<le> unix now"
    and io: "writes_whole i" and auth: "Authorize (e_time E) world_registry agentID wid audience now = Inr ag"
    and named: "\<not> is_blank agentID" "\<not> is_blank audience" "\<not> is_blank subject"
    and subj: "verifySubject E sc_Issuer subject (snapshot (wd_STS w)) = Inr (sub, f)"
    and ok: "\<And>act. subject_ok None (i\<lparr>in_now := now, in_replay_now := now\<rparr>) (world_request agentID subject act audience scope) ag sub f"
    and use: "if f then Consume (e_records E) (st_Replay (wd_STS w)) now (in_replay_io i) (c_jti sub) (c_exp sub) [] = (None, rc)
      else rc = st_Replay (wd_STS w)"
  obtains res w' where "world_Exchange E w i agentID wid subject audience scope = (res, w')" "xr_ReasonCode res = ReasonOK"
    "xr_Token res = signer_SignClaims E (plain_signer seed ''sts-1'') (xr_Issued res)"
    "xr_Issued res = \<lparr>c_iss = sc_Issuer, c_sub = c_sub sub, c_aud = [audience], c_exp = unix now + 120, c_nbf = unix now,
       c_iat = unix now, c_jti = newID ''jti'' (in_rand_jti i),
       c_txn = (if \<not> f \<and> c_txn sub = [] then newID ''txn'' (in_rand_txn i) else c_txn sub),
       c_act = Some (Actor sc_Issuer agentID (c_act sub)), c_actchain = AppendChain sub,
       c_scope = the (narrowScope scope (c_scope sub) (ag_MaxScopes ag)), c_purp = c_purp sub,
       c_cnf = Some \<lparr>cnf_jkt = world_jkt E seed wid\<rparr>\<rparr>"
    "made_world E now seed order w'" "st_Replay (wd_STS w') = rc"
proof -
  obtain act where act: "ActorToken E w wid = Inr act" "\<not> is_blank act"
    "Attest E (the (st_Attestor (wd_STS w))) act
      = Inr \<lparr>wi_ID = wid, wi_Issuer = ''spiffe://example.test'', wi_JTI = [], wi_PossessedJKT = world_jkt E seed wid\<rparr>"
    (is "_ = Inr ?wl") by (rule world_attests[OF w laws wid codec now])
  let ?i = "i\<lparr>in_now := now, in_replay_now := now\<rparr>" and ?req = "world_request agentID subject act audience scope"
  let ?p = "prepare ?i ?req ?wl ag sub f"
  let ?c = "minted_claims sc_Issuer (120 * second) ?i ?req ?p (world_jkt E seed wid)"
  note snap = world_snapshot[OF w]
  have caller: "caller_ok E (st_Issuer (wd_STS w)) (snapshot (wd_STS w)) ?i ?req ?wl ag"
    unfolding caller_ok_def request_error_None check_caller_Inr
    using named act auth by (simp add: snap(1-8)) (simp add: world_request_def HasAgent_def HasWorkload_def snap)
  have key: "confirm_key ?req ?p = world_jkt E seed wid"
    by (simp add: confirm_key_def prepare_def world_request_def)
  have sign: "keyring_SignClaims E (st_Signer (wd_STS w)) ?c = Inr (signer_SignClaims E (plain_signer seed ''sts-1'') ?c)"
    by (simp add: keyring_SignClaims_def snap ring_lookup_def world_ring_def)
  have "mints E (wd_STS w) ?i ?req ?wl ag sub f ?c (signer_SignClaims E (plain_signer seed ''sts-1'') ?c) rc"
    unfolding mints_def key
    using caller subj ok[of act] use sign world_jkt(2)[OF laws(1) wid]
    by (simp add: snap) (simp add: world_request_def)
  then obtain oc where oc: "exchange E (wd_STS w) ?i ?req = (oc, rc)" "xr_ReasonCode oc = ReasonOK" "xr_Issued oc = ?c"
    "xr_Token oc = signer_SignClaims E (plain_signer seed ''sts-1'') ?c" using mints_exchange by blast
  obtain w' where w': "world_Exchange E w i agentID wid subject audience scope = (exchange_result.truncate oc, w')"
    "made_world E now seed order w'" "st_Replay (wd_STS w') = rc" by (rule world_Exchange_made[OF w act(1) io oc(1)])
  have "?c = \<lparr>c_iss = sc_Issuer, c_sub = c_sub sub, c_aud = [audience], c_exp = unix now + 120, c_nbf = unix now,
       c_iat = unix now, c_jti = newID ''jti'' (in_rand_jti i),
       c_txn = (if \<not> f \<and> c_txn sub = [] then newID ''txn'' (in_rand_txn i) else c_txn sub),
       c_act = Some (Actor sc_Issuer agentID (c_act sub)), c_actchain = AppendChain sub,
       c_scope = the (narrowScope scope (c_scope sub) (ag_MaxScopes ag)), c_purp = c_purp sub,
       c_cnf = Some \<lparr>cnf_jkt = world_jkt E seed wid\<rparr>\<rparr>"
    using unix_later[of now 120] by (simp add: minted_claims_def prepare_def world_request_def NestedAct_def)
  then show ?thesis using that[OF w'(1) _ _ _ w'(2,3)] oc by simp
qed

lemma fresh_consume:
  assumes "0 \<le> unix now" "unix now < 2 ^ 62" "jti \<noteq> []"
  obtains rc where "Consume J (Some NewReplayCache) now io jti (unix now + 120) [] = (None, Some rc)"
proof -
  have "i64 (unix now + 120 + 30) = unix now + 150" using assms by (simp add: i64_def)
  then have "fst (Consume J (Some NewReplayCache) now io jti (unix now + 120) []) = None"
    "snd (Consume J (Some NewReplayCache) now io jti (unix now + 120) []) \<noteq> None"
    using assms
    by (simp_all add: Consume_def cache_Consume_def NewReplayCache_def append_log_def replayed_iff purgeLocked_def
        ReplayUntil_def Let_def)
  then show ?thesis using that by (metis not_Some_eq prod.collapse)
qed

lemma world_now_ok:
  assumes "0 \<le> unix now" "unix now < 2 ^ 62" "c_exp c = unix now + d" "0 < d" "d \<le> 1000" "c_nbf c \<le> unix now"
  shows "ValidateTime c now 0 = None"
  using assms by (simp add: ValidateTime_default i64_def)

definition happy_codec :: "('a token_env_scheme) \<Rightarrow> (bytes \<Rightarrow> bytes) \<Rightarrow> instant \<Rightarrow> call_inputs \<Rightarrow> call_inputs \<Rightarrow> bool" where
  "happy_codec E seed now i1 i2 \<longleftrightarrow>
    reads_back E ''idp-1'' (world_user now) \<and>
    reads_back E ''wl-oncall'' (world_actor now sc_WLOncall) \<and> reads_back E ''wl-investigation'' (world_actor now sc_WLInvest) \<and>
    reads_back E ''sts-1'' (world_first now (world_jkt E seed sc_WLOncall) (in_rand_txn i1) (in_rand_jti i1)) \<and>
    reads_back E ''sts-1'' (world_second now (world_jkt E seed sc_WLInvest) (in_rand_txn i1) (in_rand_jti i2))"

lemma world_user_ok:
  assumes "0 \<le> unix now" "unix now < 2 ^ 62"
  shows "subject_ok None (i\<lparr>in_now := now, in_replay_now := now\<rparr>)
    (world_request sc_Oncall subject act audience ''mcp:github:pr mcp:alerts:read'') oncall_agent (world_user now) False"
proof -
  have "ValidateTime (world_user now) now 0 = None"
    using world_now_ok[OF assms, of _ 600] unix_later[of now 600] assms by (simp add: world_user_def no_claims_def)
  then show ?thesis
    using world_scopes(1) scenario_not_blank
    by (simp add: subject_ok_def world_request_def world_depths HasPrincipal_def)
      (simp add: world_user_def no_claims_def AppendChain_def)
qed

lemma world_first_ok:
  assumes "0 \<le> unix now" "unix now < 2 ^ 62"
  shows "subject_ok None (i\<lparr>in_now := now, in_replay_now := now\<rparr>)
    (world_request sc_Invest subject act audience ''mcp:github:pr'') invest_agent (world_first now jkt r1 r2) True"
proof -
  have "ValidateTime (world_first now jkt r1 r2) now 0 = None"
    using world_now_ok[OF assms, of _ 120] by (simp add: world_first_def)
  then show ?thesis
    using world_scopes(2) scenario_not_blank
    by (simp add: subject_ok_def world_request_def world_depths HasPrincipal_def)
      (simp add: world_first_def newID_def AppendChain_def)
qed

text \<open>The claims of the hops are those of an exchange with the user token and the first of them.\<close>

lemma world_first_eq:
  "\<lparr>c_iss = sc_Issuer, c_sub = c_sub (world_user now), c_aud = [sc_Invest], c_exp = unix now + 120, c_nbf = unix now,
     c_iat = unix now, c_jti = newID ''jti'' r2,
     c_txn = (if \<not> False \<and> c_txn (world_user now) = [] then newID ''txn'' r1 else c_txn (world_user now)),
     c_act = Some (Actor sc_Issuer sc_Oncall (c_act (world_user now))), c_actchain = AppendChain (world_user now),
     c_scope = the (narrowScope ''mcp:github:pr mcp:alerts:read'' (c_scope (world_user now)) (ag_MaxScopes oncall_agent)),
     c_purp = c_purp (world_user now), c_cnf = Some \<lparr>cnf_jkt = jkt\<rparr>\<rparr> = world_first now jkt r1 r2"
  by (simp add: world_first_def world_user_def no_claims_def AppendChain_def world_scopes(1))

lemma world_second_eq:
  "\<lparr>c_iss = sc_Issuer, c_sub = c_sub (world_first now jkt r1 r2), c_aud = [sc_Gateway], c_exp = unix now + 120, c_nbf = unix now,
     c_iat = unix now, c_jti = newID ''jti'' r3,
     c_txn = (if \<not> True \<and> c_txn (world_first now jkt r1 r2) = [] then newID ''txn'' r4 else c_txn (world_first now jkt r1 r2)),
     c_act = Some (Actor sc_Issuer sc_Invest (c_act (world_first now jkt r1 r2))), c_actchain = AppendChain (world_first now jkt r1 r2),
     c_scope = the (narrowScope ''mcp:github:pr'' (c_scope (world_first now jkt r1 r2)) (ag_MaxScopes invest_agent)),
     c_purp = c_purp (world_first now jkt r1 r2), c_cnf = Some \<lparr>cnf_jkt = jkt'\<rparr>\<rparr> = world_second now jkt' r1 r3"
  by (simp add: world_first_def world_second_def AppendChain_def world_scopes(2))

lemma happy_path_runs:
  assumes laws: "world_laws E seed" "distinct order" "set order = set world_workloads" and lo: "log_ready (e_audit E) lo"
    and now: "0 \<le> unix now" "unix now < 2 ^ 62" and io: "writes_whole i1" "writes_whole i2" and codec: "happy_codec E seed now i1 i2"
  obtains w w' where "NewWorld E now lo seed order = Inr w" "made_world E now seed order w" "made_world E now seed order w'"
    "UserToken E w = Inr (signer_SignClaims E (plain_signer seed ''idp-1'') (world_user now))"
    "HappyPath E w i1 i2 =
      (Inr (signer_SignClaims E (plain_signer seed ''sts-1'') (world_first now (world_jkt E seed sc_WLOncall) (in_rand_txn i1) (in_rand_jti i1)),
            signer_SignClaims E (plain_signer seed ''sts-1'') (world_second now (world_jkt E seed sc_WLInvest) (in_rand_txn i1) (in_rand_jti i2))), w')"
proof -
  obtain w where w: "NewWorld E now lo seed order = Inr w" "made_world E now seed order w" "st_Replay (wd_STS w) = Some NewReplayCache"
    by (rule NewWorld_makes[OF laws lo])
  let ?user = "signer_SignClaims E (plain_signer seed ''idp-1'') (world_user now)"
  let ?first = "world_first now (world_jkt E seed sc_WLOncall) (in_rand_txn i1) (in_rand_jti i1)"
  let ?t1 = "signer_SignClaims E (plain_signer seed ''sts-1'') ?first"
  let ?second = "world_second now (world_jkt E seed sc_WLInvest) (in_rand_txn i1) (in_rand_jti i2)"
  have wls: "sc_WLOncall \<in> set world_workloads" "sc_WLInvest \<in> set world_workloads" by (simp_all add: world_workloads_def)
  have user: "UserToken E w = Inr ?user"
    using plain_key_signs[OF laws(1), of "''idp-1''"] by (simp add: UserToken_def world_snapshot[OF w(2)])
  have idp: "c_iss (world_user now) = sc_IdPIssuer" by (simp add: world_user_def)
  have subj: "verifySubject E sc_Issuer ?user (snapshot (wd_STS w)) = Inr (world_user now, False)"
    using world_subject_idp[OF w(2) laws(1), of "world_user now"] codec idp by (simp add: happy_codec_def)
  have act: "reads_back E (''wl-'' @ short sc_WLOncall) (world_actor now sc_WLOncall)"
    "reads_back E (''wl-'' @ short sc_WLInvest) (world_actor now sc_WLInvest)"
    using codec by (simp_all add: happy_codec_def world_kids)
  obtain r1 w1 where r1: "world_Exchange E w i1 sc_Oncall sc_WLOncall ?user sc_Invest ''mcp:github:pr mcp:alerts:read'' = (r1, w1)"
    "xr_ReasonCode r1 = ReasonOK" "xr_Token r1 = signer_SignClaims E (plain_signer seed ''sts-1'') (xr_Issued r1)"
    "xr_Issued r1 = ?first" "made_world E now seed order w1" "st_Replay (wd_STS w1) = Some NewReplayCache"
  proof (rule world_hop[OF w(2) laws wls(1) act(1) now(1) io(1) world_authorizes(1) scenario_not_blank(1,2) signed_not_blank subj
        world_user_ok[OF now], where rc = "Some NewReplayCache"])
    show "if False then Consume (e_records E) (st_Replay (wd_STS w)) now (in_replay_io i1) (c_jti (world_user now)) (c_exp (world_user now)) []
        = (None, Some NewReplayCache) else Some NewReplayCache = st_Replay (wd_STS w)" by (simp add: w(3))
  qed (rule that, simp_all only: world_first_eq)
  have subj2: "verifySubject E sc_Issuer ?t1 (snapshot (wd_STS w1)) = Inr (?first, True)"
    by (rule world_subject_sts[OF r1(5) laws(1)]) (use codec in \<open>simp_all add: happy_codec_def world_first_def\<close>)
  obtain rc where rc: "Consume (e_records E) (Some NewReplayCache) now (in_replay_io i2) (c_jti ?first) (c_exp ?first) [] = (None, Some rc)"
    using fresh_consume[OF now, of "c_jti ?first" "e_records E" "in_replay_io i2"] by (auto simp: world_first_def newID_def)
  obtain r2 w2 where r2: "world_Exchange E w1 i2 sc_Invest sc_WLInvest ?t1 sc_Gateway ''mcp:github:pr'' = (r2, w2)"
    "xr_ReasonCode r2 = ReasonOK" "xr_Token r2 = signer_SignClaims E (plain_signer seed ''sts-1'') (xr_Issued r2)"
    "xr_Issued r2 = ?second" "made_world E now seed order w2"
  proof (rule world_hop[OF r1(5) laws wls(2) act(2) now(1) io(2) world_authorizes(2) scenario_not_blank(2,3) signed_not_blank subj2
        world_first_ok[OF now], where rc = "Some rc"])
    show "if True then Consume (e_records E) (st_Replay (wd_STS w1)) now (in_replay_io i2) (c_jti ?first) (c_exp ?first) []
        = (None, Some rc) else Some rc = st_Replay (wd_STS w1)" using rc by (simp add: r1(6))
  qed (rule that, simp_all only: world_second_eq)
  have "HappyPath E w i1 i2 = (Inr (?t1, signer_SignClaims E (plain_signer seed ''sts-1'') ?second), w2)"
    using r1 r2 by (simp add: HappyPath_def user)
  with w(1,2) r2(5) user that show ?thesis by blast
qed

end
