(* ===== verification/Demo.thy ===== *)
theory Demo
  imports Scenario_Run
begin

text \<open>
  The scenario and the attacks of \<^verbatim>\<open>cmd/agent-identity-plane/demo.go\<close>: what \<^verbatim>\<open>demo\<close> reports of a world, check by
  check, up to the trace of its log; the reports on that trace and on the session with a gateway are not
  modelled. \<open>rs\<close> are the readings of each exchange.
  \<^verbatim>\<open>demo -strict\<close> succeeds if these and the remaining reports are true.
\<close>

section \<open>The command\<close>

definition demo_expired :: "instant \<Rightarrow> claims" where
  "demo_expired now = no_claims\<lparr>c_iss := sc_IdPIssuer, c_sub := sc_User, c_aud := [sc_Oncall],
     c_exp := unix (now + - 60 * 60 * second), c_iat := unix (now + - 2 * 60 * 60 * second)\<rparr>"

definition signExpiredUser :: "('a token_env_scheme) \<Rightarrow> world \<Rightarrow> world_error + bytes" where
  "signExpiredUser E w =
    (case SignerFromKeyFile (wd_IdPKey w) of
       Inl e \<Rightarrow> Inl (World_Token e)
     | Inr s \<Rightarrow> Inr (signer_SignClaims E s (demo_expired (wd_Now w))))"

text \<open>The reports on the happy path; a second one only if the principal is another.\<close>

definition demo_allow :: "('a token_env_scheme) \<Rightarrow> world \<Rightarrow> world_error + (bytes \<times> bytes) \<Rightarrow> bool list" where
  "demo_allow E w happy =
    (case happy of
       Inl e \<Rightarrow> [False]
     | Inr (oncallTok, gwTok) \<Rightarrow>
         (case verifier_Verify E (wd_Verifier w) gwTok sc_Gateway (wd_Now w) of
            Inl e \<Rightarrow> [False]
          | Inr chain \<Rightarrow> True # (if RequirePrincipal chain sc_User \<noteq> None then [False] else [])))"

text \<open>One exchange of the attacker, and whether its reason is as expected.\<close>

definition demo_try ::
  "('a sts_env_scheme) \<Rightarrow> world \<Rightarrow> call_inputs \<Rightarrow> bytes \<Rightarrow> bytes \<Rightarrow> bytes \<Rightarrow> bytes \<Rightarrow> bytes \<Rightarrow> (bytes \<Rightarrow> bool) \<Rightarrow> bool \<times> world" where
  "demo_try E w i agentID workload subject audience scope want =
    (case world_Exchange E w i agentID workload subject audience scope of
       (res, w') \<Rightarrow> (want (xr_ReasonCode res), w'))"

text \<open>The claims the attacker makes of the token of the first hop; an unreadable one leaves the zero value.\<close>

definition demo_forged :: "('a token_env_scheme) \<Rightarrow> bytes \<Rightarrow> claims" where
  "demo_forged E oncallTok =
    (case ParseUnverified E oncallTok of Inl e \<Rightarrow> no_claims | Inr (h, c, s) \<Rightarrow> c)
      \<lparr>c_act := Some (Actor [] ''spiffe://example.test/agent/forged'' None)\<rparr>"

text \<open>The reports on the attacks. \<open>None\<close> is the panic of a signer that is nil.\<close>

definition demo_attacks ::
  "('a sts_env_scheme) \<Rightarrow> world \<Rightarrow> (nat \<Rightarrow> call_inputs) \<Rightarrow> bytes \<Rightarrow> bytes \<Rightarrow> (bool list \<times> world) option" where
  "demo_attacks E w rs oncallTok gwTok =
    (let user = (case UserToken E w of Inl e \<Rightarrow> [] | Inr t \<Rightarrow> t);
         (ok1, w1) = demo_try E w (rs 0) ''spiffe://example.test/agent/rogue'' sc_WLOncall user sc_Invest []
           (\<lambda>r. r = ReasonAgentNotRegistered);
         (ok2, w2) = demo_try E w1 (rs 1) sc_Oncall sc_WLInvest user sc_Invest [] (\<lambda>r. r = ReasonAgentNotAuthorizedOnWL);
         replay = (if gwTok = [] then []
           else [case verifier_Verify E (wd_Verifier w2) gwTok ''https://evil.example'' (wd_Now w2) of Inl e \<Rightarrow> True | Inr c \<Rightarrow> False]);
         (ok3, w3) = demo_try E w2 (rs 2) sc_Oncall sc_WLOncall user sc_Invest ''mcp:github:pr secret:exfil''
           (\<lambda>r. r = ReasonScopeWidening);
         (ok4, w4) = demo_try E w3 (rs 3) sc_Oncall sc_WLOncall user sc_Gateway [] (\<lambda>r. r = ReasonAudienceNotAllowed);
         expired = (case signExpiredUser E w4 of Inl e \<Rightarrow> [] | Inr t \<Rightarrow> t);
         (ok5, w5) = demo_try E w4 (rs 4) sc_Oncall sc_WLOncall expired sc_Invest [] (\<lambda>r. r = ReasonExpired);
         reports = [ok1, ok2] @ replay @ [ok3, ok4, ok5]
     in if oncallTok = [] then Some (reports, w5)
        else (case SignerFromKeyFile (wd_IdPKey w5) of
          Inl e \<Rightarrow> None
        | Inr idp \<Rightarrow>
            (let forged = signer_SignClaims E idp (demo_forged E oncallTok);
                 (ok6, w6) = demo_try E w5 (rs 5) sc_Invest sc_WLInvest forged sc_Gateway ''mcp:github:pr'' (\<lambda>r. r \<noteq> ReasonOK)
             in Some (reports @ [ok6], w6))))"

text \<open>The demonstration: a world, its happy path, the reports.\<close>

definition demo_reports ::
  "('a sts_env_scheme) \<Rightarrow> instant \<Rightarrow> logger option \<Rightarrow> (bytes \<Rightarrow> bytes) \<Rightarrow> bytes list \<Rightarrow> (nat \<Rightarrow> call_inputs) \<Rightarrow>
    world_error + bool list option" where
  "demo_reports E now auditLog seed order rs =
    (case NewWorld E now auditLog seed order of
       Inl e \<Rightarrow> Inl e
     | Inr w \<Rightarrow>
         (case HappyPath E w (rs 0) (rs 1) of
            (happy, w') \<Rightarrow>
              (let (oncallTok, gwTok) = (case happy of Inl e \<Rightarrow> ([], []) | Inr p \<Rightarrow> p) in
               Inr (map_option (\<lambda>(attacks, w''). demo_allow E w' happy @ attacks)
                 (demo_attacks E w' (\<lambda>n. rs (n + 2)) oncallTok gwTok)))))"

section \<open>What is refused\<close>

text \<open>An exchange that its checks refuse answers the reason of the refusal.\<close>

lemma demo_try_refused:
  assumes w: "made_world E now seed order w" and act: "ActorToken E w workload = Inr tok" and io: "writes_whole i"
    and x: "exchange_checks E sc_Issuer (snapshot (wd_STS w)) (i\<lparr>in_now := now, in_replay_now := now\<rparr>)
      (world_request agentID subject tok audience scope) = Inl oc" and want: "want (xr_ReasonCode oc)"
  obtains w' where "demo_try E w i agentID workload subject audience scope want = (True, w')" "made_world E now seed order w'"
proof -
  have e: "exchange E (wd_STS w) (i\<lparr>in_now := now, in_replay_now := now\<rparr>) (world_request agentID subject tok audience scope)
      = (oc, st_Replay (wd_STS w))"
    using x by (simp add: exchange_def world_snapshot[OF w])
  obtain w' where "world_Exchange E w i agentID workload subject audience scope = (exchange_result.truncate oc, w')"
    "made_world E now seed order w'" by (rule world_Exchange_made[OF w act io e])
  then show ?thesis using that want by (simp add: demo_try_def)
qed

lemma reason_of_denial [simp]:
  "xr_ReasonCode (deny code oauth desc) = code" "xr_ReasonCode (withSubject oc sub) = xr_ReasonCode oc"
  by (simp_all add: deny_def withSubject_def)

text \<open>The reason of a refused exchange: the registry's, the subject token's, or that of the claims.\<close>

lemma world_refusal:
  assumes w: "made_world E now seed order w" and laws: "world_laws E seed" "distinct order" "set order = set world_workloads"
    and wid: "wid \<in> set world_workloads" and codec: "reads_back E (''wl-'' @ short wid) (world_actor now wid)" and now: "0 \<le> unix now"
    and io: "writes_whole i" and named: "\<not> is_blank agentID" "\<not> is_blank audience" "\<not> is_blank subject"
    and why: "\<And>act wl. case Authorize (e_time E) world_registry agentID wid audience now of
        Inl e \<Rightarrow> want (mapRegistryErr e)
      | Inr ag \<Rightarrow> (case verifySubject E sc_Issuer subject (snapshot (wd_STS w)) of
          Inl e \<Rightarrow> want ReasonInvalidSubjectToken
        | Inr (sub, f) \<Rightarrow> (\<exists>oc. check_subject None (i\<lparr>in_now := now, in_replay_now := now\<rparr>)
            (world_request agentID subject act audience scope) wl ag sub f = Inl oc \<and> want (xr_ReasonCode oc)))"
  shows "\<exists>w'. demo_try E w i agentID wid subject audience scope want = (True, w') \<and> made_world E now seed order w'"
proof -
  obtain act where act: "ActorToken E w wid = Inr act" "\<not> is_blank act"
    "Attest E (the (st_Attestor (wd_STS w))) act
      = Inr \<lparr>wi_ID = wid, wi_Issuer = ''spiffe://example.test'', wi_JTI = [], wi_PossessedJKT = world_jkt E seed wid\<rparr>"
    (is "_ = Inr ?wl") by (rule world_attests[OF w laws wid codec now])
  let ?i = "i\<lparr>in_now := now, in_replay_now := now\<rparr>" and ?req = "world_request agentID subject act audience scope"
  note snap = world_snapshot[OF w]
  have "request_error sc_Issuer (snapshot (wd_STS w)) ?req = None"
    unfolding request_error_None using named act(2) by (simp add: snap(1-8)) (simp add: world_request_def)
  moreover have req: "rq_ActorToken ?req = act" "rq_AgentID ?req = agentID" "rq_Audience ?req = audience" "rq_SubjectToken ?req = subject"
    by (simp_all add: world_request_def)
  ultimately have "\<exists>oc. exchange_checks E sc_Issuer (snapshot (wd_STS w)) ?i ?req = Inl oc \<and> want (xr_ReasonCode oc)"
    using why[of act ?wl] act(3)
    by (auto simp: exchange_checks_def Let_def check_caller_def snap HasAgent_def HasWorkload_def split: sum.splits)
  then show ?thesis using demo_try_refused[OF w act(1) io] by metis
qed

lemma demo_authorizes:
  "Authorize P world_registry ''spiffe://example.test/agent/rogue'' sc_WLOncall sc_Invest now = Inl Registry_ErrAgentNotFound"
  "Authorize P world_registry sc_Oncall sc_WLInvest sc_Invest now = Inl Registry_ErrNotAuthorized"
  "Authorize P world_registry sc_Oncall sc_WLOncall sc_Gateway now = Inl Registry_ErrAudienceNotAllowed"
  by code_simp+

lemma demo_scopes:
  "narrowScope ''mcp:github:pr secret:exfil'' ''mcp:github:pr mcp:alerts:read mcp:alerts:write'' (ag_MaxScopes oncall_agent) = None"
  by code_simp

lemma world_user_checked:
  assumes "0 \<le> unix now" "unix now < 2 ^ 62"
  shows "\<exists>oc. check_subject None (i\<lparr>in_now := now, in_replay_now := now\<rparr>)
      (world_request sc_Oncall subject act audience ''mcp:github:pr secret:exfil'') wl oncall_agent (world_user now) False = Inl oc \<and>
    xr_ReasonCode oc = ReasonScopeWidening"
proof -
  have "ValidateTime (world_user now) now 0 = None"
    using world_now_ok[OF assms, of _ 600] unix_later[of now 600] assms by (simp add: world_user_def no_claims_def)
  moreover have "ValidateSubject (world_user now) = None" "ValidateAudience (world_user now) sc_Oncall = None"
    using scenario_not_blank by (simp_all add: validate_None world_user_def)
  moreover have "c_scope (world_user now) = ''mcp:github:pr mcp:alerts:read mcp:alerts:write''" by (simp add: world_user_def)
  ultimately show ?thesis
    using demo_scopes by (simp add: check_subject_def Let_def HasPrincipal_def world_request_def)
qed

lemma demo_expired_checked:
  assumes "3600 \<le> unix now" "unix now < 2 ^ 62"
  shows "\<exists>oc. check_subject None (i\<lparr>in_now := now, in_replay_now := now\<rparr>)
      (world_request sc_Oncall subject act audience scope) wl ag (demo_expired now) False = Inl oc \<and> xr_ReasonCode oc = ReasonExpired"
proof -
  have "c_exp (demo_expired now) = unix now + - 3600"
    using unix_later[of now "- 3600"] by (simp add: demo_expired_def)
  then have "ValidateTime (demo_expired now) now 0 = Some Token_ErrExpired"
    using assms by (simp add: ValidateTime_default i64_def)
  moreover have "ValidateSubject (demo_expired now) = None"
    using scenario_not_blank by (simp add: validate_None demo_expired_def)
  ultimately show ?thesis by (simp add: check_subject_def Let_def HasPrincipal_def)
qed

section \<open>The reports\<close>

text \<open>The codec reads back what the identity provider of the world signs for the attacker.\<close>

definition demo_codec :: "('a token_env_scheme) \<Rightarrow> (bytes \<Rightarrow> bytes) \<Rightarrow> instant \<Rightarrow> call_inputs \<Rightarrow> call_inputs \<Rightarrow> bool" where
  "demo_codec E seed now i1 i2 \<longleftrightarrow> happy_codec E seed now i1 i2 \<and> reads_back E ''idp-1'' (demo_expired now) \<and>
    reads_back E ''idp-1'' ((world_first now (world_jkt E seed sc_WLOncall) (in_rand_txn i1) (in_rand_jti i1))
      \<lparr>c_act := Some (Actor [] ''spiffe://example.test/agent/forged'' None)\<rparr>)"

lemma signed_nonempty: "signer_SignClaims E s c \<noteq> []"
  using not_blank_nonempty[OF signed_not_blank] .

lemma world_gateway_chain:
  assumes w: "made_world E now seed order w" and laws: "world_laws E seed" and codec: "reads_back E ''sts-1'' (world_second now jkt r1 r2)"
    and now: "0 \<le> unix now" "unix now < 2 ^ 62"
  shows "verifier_Verify E (wd_Verifier w) (signer_SignClaims E (plain_signer seed ''sts-1'') (world_second now jkt r1 r2)) sc_Gateway now
      = Inr (chainFromClaims (signer_SignClaims E (plain_signer seed ''sts-1'') (world_second now jkt r1 r2)) (world_second now jkt r1 r2))"
    "aud \<noteq> sc_Gateway \<Longrightarrow>
      \<exists>e. verifier_Verify E (wd_Verifier w) (signer_SignClaims E (plain_signer seed ''sts-1'') (world_second now jkt r1 r2)) aud t = Inl e"
proof -
  let ?c = "world_second now jkt r1 r2" and ?v = "wd_Verifier w"
  let ?t = "signer_SignClaims E (plain_signer seed ''sts-1'') ?c"
  have keys: "verifier_keys (Some ?v) = Inr [signer_PublicJWK E (plain_signer seed ''sts-1'')]"
    by (simp add: verifier_keys_def world_snapshot[OF w] world_ring_JWKS)
  have v: "jws_Verify E ?t [signer_PublicJWK E (plain_signer seed ''sts-1'')] = Inr (\<lparr>h_alg = ''EdDSA'', h_typ = ''JWT'', h_kid = ''sts-1''\<rparr>, ?c)"
    using plain_verifies[OF laws _ codec] by simp
  show "verifier_Verify E ?v ?t sc_Gateway now = Inr (chainFromClaims ?t ?c)"
    by (rule verifier_VerifyI[OF keys v])
      (use scenario_not_blank world_now_ok[OF now, of ?c 120] in \<open>simp_all add: world_snapshot[OF w] world_second_def\<close>)
  show "\<exists>e. verifier_Verify E ?v ?t aud t = Inl e" if "aud \<noteq> sc_Gateway"
  proof (cases "verifier_Verify E ?v ?t aud t")
    case (Inr ch)
    then obtain ks h c where "verifier_keys (Some ?v) = Inr ks" "jws_Verify E ?t ks = Inr (h, c)" "c_aud c = [aud]"
      by (rule verifier_Verify_InrD) blast
    with keys v have "c_aud ?c = [aud]" by simp
    with that show ?thesis by (simp add: world_second_def)
  qed simp
qed

lemma demo_forged_claims:
  assumes "world_laws E seed" "reads_back E ''sts-1'' c"
  shows "demo_forged E (signer_SignClaims E (plain_signer seed ''sts-1'') c) = c\<lparr>c_act := Some (Actor [] ''spiffe://example.test/agent/forged'' None)\<rparr>"
proof -
  obtain j where "signed_as E (signer_SignClaims E (plain_signer seed ''sts-1'') c) [signer_PublicJWK E (plain_signer seed ''sts-1'')]
      \<lparr>h_alg = ''EdDSA'', h_typ = ''JWT'', h_kid = ''sts-1''\<rparr> c j"
    using plain_verifies[OF assms(1) _ assms(2)] unfolding jws_Verify_Inr_iff by blast
  from signed_as_ParseUnverified[OF this] show ?thesis by (auto simp: demo_forged_def)
qed

lemma demo_attacks_refused:
  assumes w: "made_world E now seed order w" and laws: "world_laws E seed" "distinct order" "set order = set world_workloads"
    and now: "3600 \<le> unix now" "unix now < 2 ^ 62" and io: "\<And>n. writes_whole (rs n)" and codec: "demo_codec E seed now i1 i2"
  shows "\<exists>w'. demo_attacks E w rs
      (signer_SignClaims E (plain_signer seed ''sts-1'') (world_first now (world_jkt E seed sc_WLOncall) (in_rand_txn i1) (in_rand_jti i1)))
      (signer_SignClaims E (plain_signer seed ''sts-1'') (world_second now (world_jkt E seed sc_WLInvest) (in_rand_txn i1) (in_rand_jti i2)))
    = Some (replicate 7 True, w')"
proof -
  let ?user = "signer_SignClaims E (plain_signer seed ''idp-1'') (world_user now)"
  let ?first = "world_first now (world_jkt E seed sc_WLOncall) (in_rand_txn i1) (in_rand_jti i1)"
  let ?forged = "?first\<lparr>c_act := Some (Actor [] ''spiffe://example.test/agent/forged'' None)\<rparr>"
  let ?exp = "signer_SignClaims E (plain_signer seed ''idp-1'') (demo_expired now)"
  have now0: "0 \<le> unix now" using now by simp
  have codec': "reads_back E ''idp-1'' (world_user now)" "reads_back E ''idp-1'' (demo_expired now)" "reads_back E ''sts-1'' ?first"
    "reads_back E ''idp-1'' ?forged" "reads_back E ''sts-1'' (world_second now (world_jkt E seed sc_WLInvest) (in_rand_txn i1) (in_rand_jti i2))"
    using codec by (simp_all add: demo_codec_def happy_codec_def)
  have wls: "sc_WLOncall \<in> set world_workloads" "sc_WLInvest \<in> set world_workloads" by (simp_all add: world_workloads_def)
  have act: "reads_back E (''wl-'' @ short sc_WLOncall) (world_actor now sc_WLOncall)"
    "reads_back E (''wl-'' @ short sc_WLInvest) (world_actor now sc_WLInvest)"
    using codec by (simp_all add: demo_codec_def happy_codec_def world_kids)
  have idp: "SignerFromKeyFile (GenerateEd25519 E (seed ''idp-1'') ''idp-1'') = Inr (plain_signer seed ''idp-1'')"
    using plain_key_signs[OF laws(1), of "''idp-1''"] by simp
  have user: "UserToken E w = Inr ?user" by (simp add: UserToken_def idp world_snapshot[OF w])
  have rogue: "\<not> is_blank ''spiffe://example.test/agent/rogue''" by code_simp
  note refuse = world_refusal[OF _ laws _ _ now0 io]
  have iss: "c_iss (world_user now) = sc_IdPIssuer" "c_iss (demo_expired now) = sc_IdPIssuer" "c_iss ?first \<noteq> sc_IdPIssuer"
    by (simp_all add: world_user_def demo_expired_def world_first_def scenario_names)
  have "\<exists>w'. demo_try E w (rs 0) ''spiffe://example.test/agent/rogue'' sc_WLOncall ?user sc_Invest []
      (\<lambda>r. r = ReasonAgentNotRegistered) = (True, w') \<and> made_world E now seed order w'"
    by (rule refuse[OF w wls(1) act(1) rogue scenario_not_blank(2) signed_not_blank])
      (simp add: demo_authorizes mapRegistryErr_def)
  then obtain w1 where w1: "demo_try E w (rs 0) ''spiffe://example.test/agent/rogue'' sc_WLOncall ?user sc_Invest []
      (\<lambda>r. r = ReasonAgentNotRegistered) = (True, w1)" "made_world E now seed order w1" by blast
  have "\<exists>w'. demo_try E w1 (rs 1) sc_Oncall sc_WLInvest ?user sc_Invest [] (\<lambda>r. r = ReasonAgentNotAuthorizedOnWL) = (True, w') \<and> made_world E now seed order w'"
    by (rule refuse[OF w1(2) wls(2) act(2) scenario_not_blank(1,2) signed_not_blank])
      (simp add: demo_authorizes mapRegistryErr_def)
  then obtain w2 where w2: "demo_try E w1 (rs 1) sc_Oncall sc_WLInvest ?user sc_Invest [] (\<lambda>r. r = ReasonAgentNotAuthorizedOnWL) = (True, w2)" "made_world E now seed order w2" by blast
  have vs: "verifySubject E sc_Issuer ?user (snapshot (wd_STS w2)) = Inr (world_user now, False)"
    using world_subject_idp[OF w2(2) laws(1) codec'(1)] iss(1) by simp
  have "\<exists>w'. demo_try E w2 (rs 2) sc_Oncall sc_WLOncall ?user sc_Invest ''mcp:github:pr secret:exfil''
      (\<lambda>r. r = ReasonScopeWidening) = (True, w') \<and> made_world E now seed order w'"
    by (rule refuse[OF w2(2) wls(1) act(1) scenario_not_blank(1,2) signed_not_blank])
      (use world_user_checked[OF now0 now(2)] in \<open>simp add: world_authorizes vs\<close>)
  then obtain w3 where w3: "demo_try E w2 (rs 2) sc_Oncall sc_WLOncall ?user sc_Invest ''mcp:github:pr secret:exfil''
      (\<lambda>r. r = ReasonScopeWidening) = (True, w3)" "made_world E now seed order w3" by blast
  have "\<exists>w'. demo_try E w3 (rs 3) sc_Oncall sc_WLOncall ?user sc_Gateway [] (\<lambda>r. r = ReasonAudienceNotAllowed) = (True, w') \<and> made_world E now seed order w'"
    by (rule refuse[OF w3(2) wls(1) act(1) scenario_not_blank(1,3) signed_not_blank])
      (simp add: demo_authorizes mapRegistryErr_def)
  then obtain w4 where w4: "demo_try E w3 (rs 3) sc_Oncall sc_WLOncall ?user sc_Gateway [] (\<lambda>r. r = ReasonAudienceNotAllowed) = (True, w4)" "made_world E now seed order w4" by blast
  have exp: "signExpiredUser E w4 = Inr ?exp" by (simp add: signExpiredUser_def idp world_snapshot[OF w4(2)])
  have "\<exists>w'. demo_try E w4 (rs 4) sc_Oncall sc_WLOncall ?exp sc_Invest [] (\<lambda>r. r = ReasonExpired) = (True, w') \<and> made_world E now seed order w'"
    by (rule refuse[OF w4(2) wls(1) act(1) scenario_not_blank(1,2) signed_not_blank])
      (use demo_expired_checked[OF now] in \<open>simp add: world_authorizes world_subject_idp[OF w4(2) laws(1) codec'(2)] iss\<close>)
  then obtain w5 where w5: "demo_try E w4 (rs 4) sc_Oncall sc_WLOncall ?exp sc_Invest [] (\<lambda>r. r = ReasonExpired) = (True, w5)" "made_world E now seed order w5" by blast
  have "\<exists>w'. demo_try E w5 (rs 5) sc_Invest sc_WLInvest (signer_SignClaims E (plain_signer seed ''idp-1'') ?forged) sc_Gateway
      ''mcp:github:pr'' (\<lambda>r. r \<noteq> ReasonOK) = (True, w') \<and> made_world E now seed order w'"
    by (rule refuse[OF w5(2) wls(2) act(2) scenario_not_blank(2,3) signed_not_blank])
      (simp add: world_authorizes world_subject_idp[OF w5(2) laws(1) codec'(4)] iss(3))
  then obtain w6 where w6: "demo_try E w5 (rs 5) sc_Invest sc_WLInvest (signer_SignClaims E (plain_signer seed ''idp-1'') ?forged) sc_Gateway
      ''mcp:github:pr'' (\<lambda>r. r \<noteq> ReasonOK) = (True, w6)" "made_world E now seed order w6" by blast
  have "''https://evil.example'' \<noteq> sc_Gateway" by (simp add: sc_Gateway_def)
  then obtain e where "verifier_Verify E (wd_Verifier w2) (signer_SignClaims E (plain_signer seed ''sts-1'')
      (world_second now (world_jkt E seed sc_WLInvest) (in_rand_txn i1) (in_rand_jti i2))) ''https://evil.example'' (wd_Now w2) = Inl e"
    using world_gateway_chain(2)[OF w2(2) laws(1) codec'(5) now0 now(2)] by blast
  then show ?thesis
    using w1(1) w2(1) w3(1) w4(1) w5(1) w6(1)
    by (simp add: demo_attacks_def Let_def user exp idp world_snapshot(11)[OF w5(2)] signed_nonempty demo_forged_claims[OF laws(1) codec'(3)] numeral_eq_Suc)
qed

section \<open>Properties\<close>

text \<open>C29: The honest run succeeds. Whatever the keys, the random bytes and the order of the key map are, with an
  audit log that is open and whose writes are whole, the two exchanges of the scenario end with a token that the verifier of
  the world accepts for the gateway and for nothing else: its principal is the user, its hops are the user and the two agents in order, its
  scope is the one asked for last, and it is bound to the key of the second workload.\<close>

theorem happy_path_succeeds:
  assumes "world_laws E seed" "distinct order" "set order = set world_workloads" "log_ready (e_audit E) auditLog"
    and "0 \<le> unix now" "unix now < 2 ^ 62" "writes_whole i1" "writes_whole i2" "happy_codec E seed now i1 i2"
  shows "\<exists>w w' oncallTok gwTok chain. NewWorld E now auditLog seed order = Inr w \<and>
    HappyPath E w i1 i2 = (Inr (oncallTok, gwTok), w') \<and>
    verifier_Verify E (wd_Verifier w') gwTok sc_Gateway (wd_Now w') = Inr chain \<and>
    ac_Principal chain = ''user1'' \<and> ac_Hops chain = [''user1'', sc_Oncall, sc_Invest] \<and> ac_Depth chain = 2 \<and>
    ac_Scope chain = ''mcp:github:pr'' \<and> ac_Txn chain = newID ''txn'' (in_rand_txn i1) \<and>
    (\<exists>kf. wd_WL w' sc_WLInvest = Some kf \<and> Thumbprint E (keyfile_PublicJWK kf) = Inr (ConfirmJKT (ac_Claims chain))) \<and>
    (\<forall>aud. aud \<noteq> sc_Gateway \<longrightarrow> (\<exists>e. verifier_Verify E (wd_Verifier w') gwTok aud (wd_Now w') = Inl e))"
proof -
  obtain w w' where w: "NewWorld E now auditLog seed order = Inr w" "made_world E now seed order w'"
    "HappyPath E w i1 i2 =
      (Inr (signer_SignClaims E (plain_signer seed ''sts-1'') (world_first now (world_jkt E seed sc_WLOncall) (in_rand_txn i1) (in_rand_jti i1)),
            signer_SignClaims E (plain_signer seed ''sts-1'') (world_second now (world_jkt E seed sc_WLInvest) (in_rand_txn i1) (in_rand_jti i2))), w')"
    by (rule happy_path_runs[OF assms]) blast
  let ?c = "world_second now (world_jkt E seed sc_WLInvest) (in_rand_txn i1) (in_rand_jti i2)"
  let ?t = "signer_SignClaims E (plain_signer seed ''sts-1'') ?c"
  have codec: "reads_back E ''sts-1'' ?c" using assms(9) by (simp add: happy_codec_def)
  note chain = world_gateway_chain[OF w(2) assms(1) codec assms(5,6)]
  have wl: "sc_WLInvest \<in> set world_workloads" by (simp add: world_workloads_def)
  have key: "wd_WL w' sc_WLInvest = Some (world_key E seed sc_WLInvest)"
    using w(2) wl by (simp add: made_world_def world_wl_eq)
  have "keyfile_PublicJWK (world_key E seed sc_WLInvest) = signer_PublicJWK E (world_signer seed sc_WLInvest)"
    by (simp add: world_key_def world_signer_def keyfile_PublicJWK_def signer_PublicJWK_def GenerateEd25519_def Let_def)
  then have "Thumbprint E (keyfile_PublicJWK (world_key E seed sc_WLInvest)) = Inr (world_jkt E seed sc_WLInvest)"
    using world_jkt(1)[OF assms(1) wl] by simp
  moreover have "ac_Principal (chainFromClaims ?t ?c) = ''user1''" "ac_Hops (chainFromClaims ?t ?c) = [''user1'', sc_Oncall, sc_Invest]"
    "ac_Depth (chainFromClaims ?t ?c) = 2" "ac_Scope (chainFromClaims ?t ?c) = ''mcp:github:pr''"
    "ac_Txn (chainFromClaims ?t ?c) = newID ''txn'' (in_rand_txn i1)"
    "ConfirmJKT (ac_Claims (chainFromClaims ?t ?c)) = world_jkt E seed sc_WLInvest"
    by (simp_all add: chainFromClaims_def Let_def world_second_def ActorSubs_def act_subs_def ConfirmJKT_def sc_User_def)
  ultimately show ?thesis
    using w(1,3) chain key world_snapshot(9)[OF w(2)]
    by (intro exI[of _ w] exI[of _ w'] exI[of _ "chainFromClaims ?t ?c"] exI[of _ ?t] exI conjI) auto
qed

text \<open>C30: The honest run and the attacks of the demonstration end as expected: the reports of \<^verbatim>\<open>demo\<close> on the
  scenario and its seven attacks, up to the trace of the log, are all true, whatever the keys, the random
  bytes and the order of the key map are, on a log that is open. An agent that is not registered,
  the workload of another agent, another audience, a wider scope, an audience that is not allowed, a user
  token that has expired and a chain forged under the key of the identity provider are all refused.\<close>

theorem demo_passes:
  assumes "world_laws E seed" "distinct order" "set order = set world_workloads" "log_ready (e_audit E) auditLog"
    and "3600 \<le> unix now" "unix now < 2 ^ 62" "\<And>n. writes_whole (rs n)" "demo_codec E seed now (rs 0) (rs 1)"
  shows "demo_reports E now auditLog seed order rs = Inr (Some (replicate 8 True))"
proof -
  have now: "0 \<le> unix now" using assms(5) by simp
  have codec: "happy_codec E seed now (rs 0) (rs 1)" using assms(8) by (simp add: demo_codec_def)
  obtain w w' where w: "NewWorld E now auditLog seed order = Inr w" "made_world E now seed order w'"
    "HappyPath E w (rs 0) (rs 1) =
      (Inr (signer_SignClaims E (plain_signer seed ''sts-1'') (world_first now (world_jkt E seed sc_WLOncall) (in_rand_txn (rs 0)) (in_rand_jti (rs 0))),
            signer_SignClaims E (plain_signer seed ''sts-1'') (world_second now (world_jkt E seed sc_WLInvest) (in_rand_txn (rs 0)) (in_rand_jti (rs 1)))), w')"
    by (rule happy_path_runs[OF assms(1-4) now assms(6) assms(7)[of 0] assms(7)[of 1] codec]) blast
  let ?c = "world_second now (world_jkt E seed sc_WLInvest) (in_rand_txn (rs 0)) (in_rand_jti (rs 1))"
  let ?t = "signer_SignClaims E (plain_signer seed ''sts-1'') ?c"
  have "reads_back E ''sts-1'' ?c" using codec by (simp add: happy_codec_def)
  then have "verifier_Verify E (wd_Verifier w') ?t sc_Gateway (wd_Now w') = Inr (chainFromClaims ?t ?c)"
    using world_gateway_chain(1)[OF w(2) assms(1) _ now assms(6)] world_snapshot(9)[OF w(2)] by simp
  moreover have "RequirePrincipal (chainFromClaims ?t ?c) sc_User = None"
    by (simp add: RequirePrincipal_def chainFromClaims_def Let_def world_second_def)
  moreover obtain w'' where "demo_attacks E w' (\<lambda>n. rs (n + 2))
      (signer_SignClaims E (plain_signer seed ''sts-1'') (world_first now (world_jkt E seed sc_WLOncall) (in_rand_txn (rs 0)) (in_rand_jti (rs 0))))
      ?t = Some (replicate 7 True, w'')"
    using demo_attacks_refused[OF w(2) assms(1-3,5,6), of "\<lambda>n. rs (n + 2)" "rs 0" "rs 1"] assms(7,8) by blast
  ultimately show ?thesis
    using w(1,3) by (simp add: demo_reports_def demo_allow_def numeral_eq_Suc)
qed

section \<open>Instance\<close>

definition example_seed :: "bytes \<Rightarrow> bytes" where
  "example_seed kid = take 32 (kid @ replicate 32 CHR ''0'')"

text \<open>A codec for the claims that are signed; the thumbprints do not depend on it.\<close>

definition example_jkt_of :: "bytes \<Rightarrow> bytes" where
  "example_jkt_of wid = world_jkt (example_env []) example_seed wid"

definition example_world_cs :: "claims list" where
  "example_world_cs =
    [world_user (500000 * second), world_actor (500000 * second) sc_WLOncall, world_actor (500000 * second) sc_WLInvest,
     world_first (500000 * second) (example_jkt_of sc_WLOncall) ''0123456789abcdef'' ''fedcba9876543210'',
     world_second (500000 * second) (example_jkt_of sc_WLInvest) ''0123456789abcdef'' ''fedcba9876543210'',
     demo_expired (500000 * second),
     (world_first (500000 * second) (example_jkt_of sc_WLOncall) ''0123456789abcdef'' ''fedcba9876543210'')
       \<lparr>c_act := Some (Actor [] ''spiffe://example.test/agent/forged'' None)\<rparr>]"

definition example_world_env :: sts_env where
  "example_world_env = (example_sts_env example_world_cs)\<lparr>e_audit := compact_audit\<rparr>"

lemma example_world_jkt: "world_jkt example_world_env example_seed wid = example_jkt_of wid"
proof -
  have "Thumbprint example_world_env (signer_PublicJWK example_world_env s) = Thumbprint (example_env []) (signer_PublicJWK (example_env []) s)" for s
    by (simp add: Thumbprint_def signer_PublicJWK_def example_world_env_def example_sts_env_def token_env.defs example_env_def split: sum.split)
  then show ?thesis by (simp add: world_jkt_def example_jkt_of_def)
qed

lemma example_world_laws: "world_laws example_world_env example_seed"
proof -
  have "ed25519_laws example_world_env seed" for seed
    using example_ed25519[of example_world_cs seed]
    by (simp add: ed25519_laws_def example_world_env_def example_sts_env_def token_env.defs)
  moreover have "length (example_seed kid) = 32" for kid by (simp add: example_seed_def)
  moreover have "sha256_Sum example_world_env m \<noteq> []" for m
    by (simp add: example_world_env_def example_sts_env_def token_env.defs example_env_def)
  ultimately show ?thesis by (simp add: world_laws_def)
qed

lemma example_world_reads: "c \<in> set example_world_cs \<Longrightarrow> reads_back example_world_env kid c"
  using example_codec[of c example_world_cs kid]
  by (simp add: reads_back_def codec_ok_def example_world_env_def example_sts_env_def token_env.defs)

lemma example_world_codec: "demo_codec example_world_env example_seed (500000 * second) example_inputs example_inputs"
  unfolding demo_codec_def happy_codec_def example_world_jkt
  by (intro conjI; rule example_world_reads; unfold example_world_cs_def list.set example_inputs_def call_inputs.select_convs; blast)

lemma example_world_log: "log_ready (e_audit example_world_env) (Some example_logger)"
  using compact_audit_bound
  by (simp add: log_ready_def log_open_def example_world_env_def) (simp add: example_logger_def GenesisPrevHash_def)

lemma example_writes_whole: "writes_whole example_inputs"
  by (simp add: writes_whole_def example_inputs_def)

theorem happy_path_succeeds_witness:
  "\<exists>w w' oncallTok gwTok. NewWorld example_world_env (500000 * second) (Some example_logger) example_seed
      [sc_WLMonitor, sc_WLOncall, sc_WLInvest] = Inr w \<and>
    HappyPath example_world_env w example_inputs example_inputs = (Inr (oncallTok, gwTok), w')"
proof -
  have "distinct [sc_WLMonitor, sc_WLOncall, sc_WLInvest]" by code_simp
  moreover have "set [sc_WLMonitor, sc_WLOncall, sc_WLInvest] = set world_workloads" by (auto simp: world_workloads_def)
  moreover have "happy_codec example_world_env example_seed (500000 * second) example_inputs example_inputs"
    using example_world_codec by (simp add: demo_codec_def)
  moreover have "0 \<le> unix (500000 * second)" "unix (500000 * second) < 2 ^ 62" by (simp_all add: unix_def)
  ultimately have "\<exists>w w' oncallTok gwTok chain. NewWorld example_world_env (500000 * second) (Some example_logger) example_seed
      [sc_WLMonitor, sc_WLOncall, sc_WLInvest] = Inr w \<and>
    HappyPath example_world_env w example_inputs example_inputs = (Inr (oncallTok, gwTok), w') \<and>
    verifier_Verify example_world_env (wd_Verifier w') gwTok sc_Gateway (wd_Now w') = Inr chain"
    using happy_path_succeeds[OF example_world_laws _ _ example_world_log _ _ example_writes_whole example_writes_whole] by metis
  then show ?thesis by metis
qed

theorem demo_passes_witness:
  "demo_reports example_world_env (500000 * second) (Some example_logger) example_seed
     [sc_WLMonitor, sc_WLOncall, sc_WLInvest] (\<lambda>n. example_inputs) = Inr (Some (replicate 8 True))"
proof -
  have "distinct [sc_WLMonitor, sc_WLOncall, sc_WLInvest]" by code_simp
  moreover have "set [sc_WLMonitor, sc_WLOncall, sc_WLInvest] = set world_workloads" by (auto simp: world_workloads_def)
  ultimately show ?thesis
    using demo_passes[OF example_world_laws _ _ example_world_log _ _ example_writes_whole example_world_codec]
    by (simp add: unix_def)
qed

end
