(* ===== verification/Commands.thy ===== *)
theory Commands
  imports Key_Tools Verifier Trace
begin

text \<open>
  \<^verbatim>\<open>cmd/agent-identity-plane/main.go\<close>: which command the arguments choose, and the commands that are
  written there, \<^verbatim>\<open>registry lint\<close>, \<^verbatim>\<open>token inspect\<close> and \<^verbatim>\<open>token verify\<close>, with \<^verbatim>\<open>trace.go\<close>. A command is the
  function from its arguments and the files to its error or to what it prints; the JSON text of a printed
  chain or header is left out, the value is kept.
\<close>

section \<open>Choosing a command\<close>

datatype command_error =
    Cm_Usage | Cm_Flag bytes | Cm_NoValue bytes | Cm_Unknown bytes | Cm_IO bytes | Cm_Lint "registry_error list"
  | Cm_Token token_error | Cm_Tool tool_error | Cm_Verify verifier_error | Cm_Trace trace_error
  | Cm_NoJTI bytes | Cm_NoTxn bytes | Cm_NoRecords

datatype subcommand =
    Sub_serve | Sub_visor_gateway | Sub_visor_session | Sub_registry_lint | Sub_token_inspect | Sub_token_verify
  | Sub_token_mint | Sub_trace | Sub_keys_generate | Sub_keys_jwks | Sub_demo

datatype chosen = Choose_Nothing | Choose_Help | Choose_Version | Choose_Error command_error | Choose_Run subcommand "bytes list"

text \<open>The arguments are those after the name of the program. Without any the exit code is 2.\<close>

definition main_choice :: "bytes list \<Rightarrow> chosen" where
  "main_choice args =
    (case args of
       [] \<Rightarrow> Choose_Nothing
     | cmd # rest \<Rightarrow>
         if cmd = ''serve'' then Choose_Run Sub_serve rest
         else if cmd = ''visor-gateway'' then Choose_Run Sub_visor_gateway rest
         else if cmd = ''visor-session'' then Choose_Run Sub_visor_session rest
         else if cmd = ''registry'' then
           (case rest of [] \<Rightarrow> Choose_Error Cm_Usage
            | s # r \<Rightarrow> if s \<noteq> ''lint'' then Choose_Error Cm_Usage else Choose_Run Sub_registry_lint r)
         else if cmd = ''token'' then
           (case rest of [] \<Rightarrow> Choose_Error Cm_Usage
            | s # r \<Rightarrow> if s = ''inspect'' then Choose_Run Sub_token_inspect r
                else if s = ''verify'' then Choose_Run Sub_token_verify r
                else if s = ''mint'' then Choose_Run Sub_token_mint r
                else Choose_Error (Cm_Unknown s))
         else if cmd = ''trace'' then Choose_Run Sub_trace rest
         else if cmd = ''keys'' then
           (case rest of [] \<Rightarrow> Choose_Error Cm_Usage
            | s # r \<Rightarrow> if s = ''generate'' then Choose_Run Sub_keys_generate r
                else if s = ''jwks'' then Choose_Run Sub_keys_jwks r
                else Choose_Error (Cm_Unknown s))
         else if cmd = ''demo'' then Choose_Run Sub_demo rest
         else if cmd \<in> {''version'', ''-version'', ''--version''} then Choose_Version
         else if cmd \<in> {''-h'', ''-help'', ''--help'', ''help''} then Choose_Help
         else Choose_Error (Cm_Unknown cmd))"

definition main_exit :: "(subcommand \<Rightarrow> bytes list \<Rightarrow> bool) \<Rightarrow> bytes list \<Rightarrow> int" where
  "main_exit runs args =
    (case main_choice args of
       Choose_Nothing \<Rightarrow> 2
     | Choose_Error e \<Rightarrow> 1
     | Choose_Run c rest \<Rightarrow> if runs c rest then 0 else 1
     | _ \<Rightarrow> 0)"

section \<open>registry lint\<close>

definition registry_Lint :: "('a load_env_scheme) \<Rightarrow> bytes \<Rightarrow> registry_error list" where
  "registry_Lint L raw = (case registry_LoadJSON L raw of Inr r \<Rightarrow> [] | Inl e \<Rightarrow> [e])"

definition cmdRegistryLint :: "('a load_env_scheme) \<Rightarrow> bytes list \<Rightarrow> command_error + bytes" where
  "cmdRegistryLint L args =
    (case args of
       [path] \<Rightarrow> (case fs_ReadFile (ld_fs L path) of
           Inl e \<Rightarrow> Inl (Cm_IO e)
         | Inr b \<Rightarrow> (let issues = registry_Lint L b in if issues \<noteq> [] then Inl (Cm_Lint issues) else Inr ''ok''))
     | _ \<Rightarrow> Inl Cm_Usage)"

section \<open>token inspect and token verify\<close>

definition tokenArg :: "('a load_env_scheme) \<Rightarrow> bytes list \<Rightarrow> command_error + bytes" where
  "tokenArg L args =
    (case args of
       [tok] \<Rightarrow> Inr tok
     | [] \<Rightarrow> (case fs_ReadFile (ld_fs L ''/dev/stdin'') of Inl e \<Rightarrow> Inl (Cm_IO e) | Inr b \<Rightarrow> Inr (TrimSpace b))
     | _ \<Rightarrow> Inl Cm_Usage)"

definition cmdTokenInspect :: "('a token_env_scheme) \<Rightarrow> ('b load_env_scheme) \<Rightarrow> bytes list \<Rightarrow> command_error + (header \<times> claims)" where
  "cmdTokenInspect E L args =
    (case tokenArg L args of
       Inl e \<Rightarrow> Inl e
     | Inr raw \<Rightarrow> (case ParseUnverified E raw of Inl e \<Rightarrow> Inl (Cm_Token e) | Inr (h, c, s) \<Rightarrow> Inr (h, c)))"

record verify_flags =
  vq_jwks :: bytes
  vq_aud :: bytes
  vq_iss :: bytes
  vq_raw :: bytes

fun parse_verify :: "verify_flags \<Rightarrow> bytes list \<Rightarrow> command_error + verify_flags" where
  "parse_verify f [] = Inr f"
| "parse_verify f (a # args) =
    (if a = ''-jwks'' then (case args of [] \<Rightarrow> Inl (Cm_NoValue a) | v # rest \<Rightarrow> parse_verify (f\<lparr>vq_jwks := v\<rparr>) rest)
     else if a = ''-aud'' then (case args of [] \<Rightarrow> Inl (Cm_NoValue a) | v # rest \<Rightarrow> parse_verify (f\<lparr>vq_aud := v\<rparr>) rest)
     else if a = ''-iss'' then (case args of [] \<Rightarrow> Inl (Cm_NoValue a) | v # rest \<Rightarrow> parse_verify (f\<lparr>vq_iss := v\<rparr>) rest)
     else if prefix ''-'' a then Inl (Cm_Flag a)
     else parse_verify (f\<lparr>vq_raw := a\<rparr>) args)"

definition cmdTokenVerify ::
  "('a token_env_scheme) \<Rightarrow> ('b tool_env_scheme) \<Rightarrow> instant \<Rightarrow> bytes list \<Rightarrow> command_error + actor_chain" where
  "cmdTokenVerify E L now args =
    (case parse_verify \<lparr>vq_jwks = [], vq_aud = [], vq_iss = [], vq_raw = []\<rparr> args of
       Inl e \<Rightarrow> Inl e
     | Inr f \<Rightarrow>
         if vq_raw f = [] \<or> vq_jwks f = [] \<or> vq_aud f = [] then Inl Cm_Usage
         else (case fs_ReadFile (ld_fs L (vq_jwks f)) of
           Inl e \<Rightarrow> Inl (Cm_IO e)
         | Inr b \<Rightarrow> (case ParseJWKS L b of
             Inl e \<Rightarrow> Inl (Cm_Tool e)
           | Inr ks \<Rightarrow> (case verifier_Verify E \<lparr>vf_Keys = ks, vf_KeysFn = None, vf_Issuer = vq_iss f\<rparr> (vq_raw f) (vq_aud f) now of
               Inl (e, ch) \<Rightarrow> Inl (Cm_Verify e)
             | Inr c \<Rightarrow> Inr c))))"

section \<open>trace\<close>

record trace_flags =
  tf_txn :: bytes
  tf_jti :: bytes
  tf_audit :: bytes
  tf_visor :: bytes

definition cmdTrace :: "('a trace_env_scheme) \<Rightarrow> (bytes \<Rightarrow> bytes + bytes) \<Rightarrow> trace_flags \<Rightarrow> command_error + bytes" where
  "cmdTrace T fs f =
    (if tf_audit f = [] \<or> tf_txn f = [] \<and> tf_jti f = [] then Inl Cm_Usage
     else (case trace T fs \<lparr>tq_Txn = tf_txn f, tq_JTI = tf_jti f\<rparr> [tf_audit f] [tf_visor f] of
       Inl e \<Rightarrow> Inl (Cm_Trace e)
     | Inr recs \<Rightarrow>
         if recs = [] then
           (if tf_jti f \<noteq> [] \<and> tf_txn f = [] then Inl (Cm_NoJTI (tf_jti f))
            else if tf_txn f \<noteq> [] then Inl (Cm_NoTxn (tf_txn f))
            else Inl Cm_NoRecords)
         else Inr (FormatTrace T recs)))"

section \<open>What the commands say of a token and a log\<close>

text \<open>A printed chain is of a token that verifies, now, for that audience under a key of the file; the claims
  in it are those that \<^verbatim>\<open>token inspect\<close> prints of the token.\<close>

lemma token_verify_prints_verified:
  assumes "cmdTokenVerify E L now args = Inr ch"
  shows "\<exists>f ks h c. parse_verify \<lparr>vq_jwks = [], vq_aud = [], vq_iss = [], vq_raw = []\<rparr> args = Inr f \<and>
    jws_Verify E (vq_raw f) ks = Inr (h, c) \<and> (\<exists>b. fs_ReadFile (ld_fs L (vq_jwks f)) = Inr b \<and> ParseJWKS L b = Inr ks) \<and>
    c_aud c = [vq_aud f] \<and> (vq_iss f = [] \<or> c_iss c = vq_iss f) \<and> ValidateTime c now 0 = None \<and>
    ac_Claims ch = c \<and> cmdTokenInspect E L [vq_raw f] = Inr (h, c)"
proof -
  from assms obtain f b ks where f: "parse_verify \<lparr>vq_jwks = [], vq_aud = [], vq_iss = [], vq_raw = []\<rparr> args = Inr f"
    "fs_ReadFile (ld_fs L (vq_jwks f)) = Inr b" "ParseJWKS L b = Inr ks"
    "verifier_Verify E \<lparr>vf_Keys = ks, vf_KeysFn = None, vf_Issuer = vq_iss f\<rparr> (vq_raw f) (vq_aud f) now = Inr ch"
    by (auto simp: cmdTokenVerify_def split: sum.splits if_splits)
  from f(4) obtain ks' h c where v: "verifier_keys (Some \<lparr>vf_Keys = ks, vf_KeysFn = None, vf_Issuer = vq_iss f\<rparr>) = Inr ks'"
    "jws_Verify E (vq_raw f) ks' = Inr (h, c)" "vq_iss f = [] \<or> c_iss c = vq_iss f" "c_aud c = [vq_aud f]"
    "ValidateTime c now 0 = None" "ch = chainFromClaims (vq_raw f) c"
    by (rule verifier_Verify_InrD) auto
  have ks: "ks' = ks" using v(1) by (simp add: verifier_keys_def)
  obtain j where "signed_as E (vq_raw f) ks h c j" using v(2) ks by (auto simp: jws_Verify_Inr_iff)
  then obtain s where "ParseUnverified E (vq_raw f) = Inr (h, c, s)" using signed_as_ParseUnverified by blast
  then have "cmdTokenInspect E L [vq_raw f] = Inr (h, c)" by (simp add: cmdTokenInspect_def tokenArg_def)
  moreover have "ac_Claims ch = c" by (simp add: v(6) chainFromClaims_def Let_def)
  ultimately show ?thesis using f v ks by blast
qed

lemma registry_lint_ok:
  "cmdRegistryLint L [path] = Inr out \<longleftrightarrow> out = ''ok'' \<and> (\<exists>r. registry_LoadFile L path = Inr r)"
  by (auto simp: cmdRegistryLint_def registry_Lint_def registry_LoadFile_def Let_def split: sum.splits)

lemma no_records_unreachable: "cmdTrace T fs f \<noteq> Inl Cm_NoRecords"
  by (auto simp: cmdTrace_def split: sum.splits)

end
