(* ===== verification/Encodings.thy ===== *)
theory Encodings
  imports Jws Replay
begin

text \<open>
  Encodings of \<^verbatim>\<open>internal/token\<close> that other programs read and write: the public RSA and P-256 keys of
  \<^verbatim>\<open>jws.go\<close> with \<^verbatim>\<open>math/big\<close>'s \<^verbatim>\<open>Bytes\<close> written out, and the JSON value of an audience in \<^verbatim>\<open>claims.go\<close>. Also the
  end of a replay cache, \<^verbatim>\<open>Close\<close>.
\<close>

section \<open>Public keys\<close>

text \<open>The big-endian bytes of a number without leading zeros; none for zero.\<close>

fun big_Bytes :: "nat \<Rightarrow> bytes" where
  "big_Bytes n = (if n = 0 then [] else big_Bytes (n div 256) @ [char_of (n mod 256)])"

declare big_Bytes.simps [simp del]

definition pad32 :: "bytes \<Rightarrow> bytes" where
  "pad32 b = (if length b \<ge> 32 then b else replicate (32 - length b) (char_of (0 :: nat)) @ b)"

definition RSAPublicJWK :: "nat \<Rightarrow> int \<Rightarrow> bytes \<Rightarrow> jwk" where
  "RSAPublicJWK n e kid =
    \<lparr>k_kid = kid, k_kty = ''RSA'', k_use = ''sig'', k_alg = ''RS256'', k_crv = [], k_x = [], k_y = [],
     k_n = B64Encode (big_Bytes n), k_e = B64Encode (big_Bytes (nat \<bar>e\<bar>)), k_sub = []\<rparr>"

definition ECDSAPublicJWK :: "nat \<Rightarrow> nat \<Rightarrow> bytes \<Rightarrow> jwk" where
  "ECDSAPublicJWK x y kid =
    \<lparr>k_kid = kid, k_kty = ''EC'', k_use = ''sig'', k_alg = ''ES256'', k_crv = ''P-256'',
     k_x = B64Encode (pad32 (big_Bytes x)), k_y = B64Encode (pad32 (big_Bytes y)), k_n = [], k_e = [], k_sub = []\<rparr>"

section \<open>Audiences\<close>

text \<open>What a JSON text of an audience is: null, a string, an array of strings, or anything else.\<close>

datatype aud_json = Aud_Null | Aud_String bytes | Aud_Array "bytes list" | Aud_Other

definition aud_MarshalJSON :: "audience \<Rightarrow> aud_json" where
  "aud_MarshalJSON a = (case a of [s] \<Rightarrow> Aud_String s | _ \<Rightarrow> Aud_Array a)"

definition aud_UnmarshalJSON :: "aud_json \<Rightarrow> audience option" where
  "aud_UnmarshalJSON j =
    (case j of
       Aud_Null \<Rightarrow> Some []
     | Aud_String s \<Rightarrow> Some (if s = [] then [] else [s])
     | Aud_Array ss \<Rightarrow> Some ss
     | Aud_Other \<Rightarrow> None)"

section \<open>The end of a replay cache\<close>

text \<open>The error of closing the file, if there is a file, and the cache without it.\<close>

definition replay_Close :: "bytes option \<Rightarrow> replay_cache option \<Rightarrow> bytes option \<times> replay_cache option" where
  "replay_Close err c =
    (case c of
       None \<Rightarrow> (None, None)
     | Some rc \<Rightarrow> if rc_file rc = None then (None, Some rc) else (err, Some (rc\<lparr>rc_file := None\<rparr>)))"

section \<open>Round trips\<close>

lemma SetBytes_append: "SetBytes (b @ [c]) = SetBytes b * 256 + of_char c"
  by (simp add: SetBytes_def)

lemma SetBytes_big_Bytes: "SetBytes (big_Bytes n) = n"
proof (induction n rule: big_Bytes.induct)
  case (1 n)
  then show ?case by (subst big_Bytes.simps) (simp add: SetBytes_append, simp add: SetBytes_def)
qed

lemma SetBytes_pad: "SetBytes (replicate k (char_of (0 :: nat)) @ b) = SetBytes b"
  by (induction k) (simp_all add: SetBytes_def)

lemma SetBytes_pad32 [simp]: "SetBytes (pad32 b) = SetBytes b"
  by (simp add: pad32_def SetBytes_pad)

text \<open>The keys that the package publishes are read back as the same keys; an exponent below three is not.\<close>

lemma published_keys_read_back:
  "in_i64 e \<Longrightarrow> 0 \<le> e \<Longrightarrow>
    jwk_rsaPub (RSAPublicJWK n e kid) = (if e < 3 then Inl Token_ErrInvalidKey else Inr (n, e))"
  "jwk_ecdsaP256 E (ECDSAPublicJWK x y kid) = (if p256_IsOnCurve E x y then Inr (x, y) else Inl Token_ErrInvalidKey)"
  by (simp_all add: jwk_rsaPub_def RSAPublicJWK_def jwk_ecdsaP256_def ECDSAPublicJWK_def SetBytes_big_Bytes Let_def
      in_i64_def i64_def)

text \<open>An audience survives its JSON unless it is the single empty name, which no token is accepted for.\<close>

lemma audience_read_back: "aud_UnmarshalJSON (aud_MarshalJSON a) = Some a \<longleftrightarrow> a \<noteq> [[]]"
  by (auto simp: aud_UnmarshalJSON_def aud_MarshalJSON_def split: list.split)

end
