(* ===== verification/Spec2Isabelle.thy ===== *)
theory Spec2Isabelle
  imports Resource Session_Properties Trace_Properties Identfile Mint Visor_Command Gateway_Restart
    Sample_Gateway Demo Commands Encodings
begin

text \<open>
  The agent identity plane: a security token service (STS) that exchanges a user's token along a chain of
  software agents, and the programs around it. This is a model of its Go sources with the theorems that
  make it correct.

  \<^bold>\<open>The program.\<close> An identity provider gives a user a token for a first agent. An agent that is to act further
  posts that token to the STS with an actor token that proves its workload. The STS attests the workload,
  authorizes the agent, narrows the scope, consumes the subject token if it is one of its own, and mints a
  token for one audience with the chain of agents so far, bound to a key of the workload. A resource verifies
  such a token alone, or stands behind the gateway, which also asks for a proof of possession with a nonce,
  looks at a denylist and records its decision. The visor session asks a gateway for the mapping of a token
  and replaces itself with a program that runs under that identity. Every service writes a hash-chained audit
  log and a log of consumed ids, both of which it reads again at its next start.

  \<^bold>\<open>The parts.\<close> Paths are under \<^verbatim>\<open>src/\<close>; a Go function keeps its name, with a prefix where the name is taken or
  is a method of several types.

  \<^item> \<open>Prelude\<close>, \<open>Go_Strings\<close>, \<open>Utf8\<close>, \<open>Base64\<close>, \<open>Form\<close>, \<open>Http\<close>, \<open>Lines\<close>: what the program uses of the standard
    library: byte strings, signed 64-bit integers with their wrap-around, instants, white space and scopes as
    \<^verbatim>\<open>strings\<close> sees them, UTF-8, base64, forms, canonical headers, and the lines of an append-only file.
  \<^item> \<open>Guards\<close>: the interface of a guard that lets a key be used once, as two locales. The replay cache, the nonce
    cache, the exchange, the token endpoint and the gateway interpret them; single use over every run of
    operations is proved once.
  \<^item> \<open>Claims\<close>, \<open>Scopes\<close>, \<open>Jws\<close>, \<open>Encodings\<close>, \<open>Keyring\<close>: \<^verbatim>\<open>internal/token\<close>. Claims and actor chains, time, scope
    sets, compact signatures with key selection and algorithm match, published keys, the JSON value of an
    audience, the ring of signing keys and the rules for replacing it.
  \<^item> \<open>Registry\<close>, \<open>Denylist\<close>, \<open>Attest\<close>: \<^verbatim>\<open>internal/registry\<close>, \<^verbatim>\<open>internal/denylist\<close>, \<^verbatim>\<open>internal/attest\<close>. The three attestors
    share the locale of \<open>Attest\<close>, the contract that an identity is vouched for by a key of a trusted set.
  \<^item> \<open>Replay\<close>, \<open>Audit_Log\<close>: \<^verbatim>\<open>internal/sts/replay.go\<close> and \<^verbatim>\<open>internal/audit/logger.go\<close>, in memory and on disk.
  \<^item> \<open>Sts\<close>, \<open>Sts_Properties\<close>, \<open>Exchange_Theorems\<close>, \<open>Delegation\<close>: \<^verbatim>\<open>internal/sts/sts.go\<close>. \<open>Exchange\<close> is the whole
    operation on the configuration: checks, consumption, minting, audit record, counters. The third theory
    states what one exchange guarantees, the last what holds along chains of them.
  \<^item> \<open>Sts_Http\<close>, \<open>Token_Endpoint\<close>, \<open>Posting\<close>, \<open>Remote_Exchange\<close>: \<^verbatim>\<open>internal/sts/http.go\<close>, and the client of
    \<^verbatim>\<open>internal/a2a\<close> against it: a posted exchange refines the local one.
  \<^item> \<open>Dpop\<close>, \<open>Nonce\<close>, \<open>Verifier\<close>, \<open>Resource\<close>, \<open>Parameters\<close>: \<^verbatim>\<open>internal/dpop\<close> and \<^verbatim>\<open>internal/verify\<close>; a minted token at
    a resource. \<open>Parameters\<close> shows that an operation reads the fields of its own environment only.
  \<^item> \<open>A2a\<close>, \<open>A2a_Properties\<close>: the middleware and the tripper of \<^verbatim>\<open>internal/a2a\<close>.
  \<^item> \<open>Visor_Adapter\<close>, \<open>Gateway\<close>, \<open>Gateway_Properties\<close>: \<^verbatim>\<open>internal/visoradapter\<close> and \<^verbatim>\<open>internal/gateway\<close>. \<open>handlePEP\<close> is the
    handler of one request with every early return; the properties say exactly when it grants, and what runs
    of requests keep.
  \<^item> \<open>Visor_Session\<close>, \<open>Session_Properties\<close>, \<open>Visor_Command\<close>: \<^verbatim>\<open>internal/visorsession\<close> and \<^verbatim>\<open>visor-session\<close>: the fetch, the
    comparison of mapping and token, the command line, and the system calls that replace the process.
  \<^item> \<open>Loading\<close>, \<open>Reload\<close>, \<open>Serve\<close>, \<open>Serve_Restart\<close>: loaders of documents and secret files, \<^verbatim>\<open>internal/sts/reload.go\<close>,
    and \<^verbatim>\<open>serve\<close> from its parsed flags through any run of requests and reloads to its next start.
  \<^item> \<open>Gateway_Start\<close>, \<open>Gateway_Restart\<close>, \<open>Sample_Gateway\<close>: the same for \<^verbatim>\<open>visor-gateway\<close>, whose keys and denylist are read
    again at every request, and the program of \<^verbatim>\<open>examples/visor-gateway\<close>, which is shown to start the service
    of the command but for the rate limit, which only the command configures.
  \<^item> \<open>Identfile\<close>, \<open>Key_Tools\<close>, \<open>Mint\<close>, \<open>Trace\<close>, \<open>Trace_Properties\<close>, \<open>Commands\<close>: \<^verbatim>\<open>internal/identfile\<close>, the key commands and
    the writer of secret files, \<^verbatim>\<open>token mint\<close>, \<^verbatim>\<open>internal/audit/trace.go\<close>, and the other commands of \<^verbatim>\<open>main.go\<close>.
  \<^item> \<open>Scenario\<close>, \<open>Scenario_Run\<close>, \<open>Demo\<close>: \<^verbatim>\<open>internal/scenario\<close> and the reports of \<^verbatim>\<open>demo\<close> on it up to the trace, the
    composition of all of the above from fresh keys to a token at the gateway. \<open>Record_Size\<close> bounds the JSON of an
    event by its fields, from which the records of the scenario are shown to fit the log, and has a codec that
    meets the bound.

  \<^bold>\<open>How the code is read.\<close> A struct is a record, an error a constructor of the error datatype of its package, a
  function that may fail returns a sum, or an option where only the failure counts. State is passed
  explicitly: an operation maps a configuration to its answer and the next configuration. A nil pointer is
  \<open>None\<close>. What the code reads from outside (clock, random bytes, the result of a write, the answer of a source of
  keys) is an input of the call, and runs are lists of such calls; as the code takes its lock around each
  operation on a cache or a log, interleavings of requests are orders of these operations, and the token
  endpoint and the gateway are modelled in the order in which one request performs them. What is not under
  \<^verbatim>\<open>src/\<close> is a parameter in an environment record: the signature primitives and SHA-256, the JSON codecs,
  \<^verbatim>\<open>url.Parse\<close>, \<^verbatim>\<open>time.Parse\<close>, media types, the HTTP client, what files hold. The hypotheses on them
  are those of their documentation: a signature verifies under its key, a codec reads back the value at hand
  that it wrote (JSON text is UTF-8, so never all values), and JSON text is no longer than its fields allow.
  Each property with hypotheses has a witness at a concrete environment.

  \<^bold>\<open>What is shown.\<close> Only an attested workload of a registered agent gets a token, for an allowed audience, within the
  scopes of the agent and of the subject token; subject, transaction and chain are kept along every
  delegation, and each token has one holder. Subject tokens, proofs and nonces are good once, over every run
  and across restarts of the service and of the gateway where no proof id outgrows a line of the log (a longer
  one is recorded and stops the next start, which is shown too). An answer that grants is recorded first. A granted
  request carries a valid token with a proof by its key and is decided under the denylist and the keys of that
  moment. An honest client is served: a minted token verifies, a challenge that is answered is granted, the
  scenario of the repository runs to its end, and a service finds the logs it wrote, under the same bound. A
  reload or a change of keys happens as a whole or not at all. Identity files named without \<^verbatim>\<open>..\<close>
  are different files on disk; with \<^verbatim>\<open>..\<close> behind a link they may be one file, which is shown as well. A
  trace shows verified records, whatever other logs say. The visor runs under the identity of the token and without the token.

  \<^bold>\<open>Bounds and termination.\<close> Integers that the code computes in 64 bits wrap (\<open>i64\<close>, words in the chain index); the
  theorems about lifetimes and indices carry the bounds under which nothing wraps. A request body is read up
  to \<open>maxTokenBody\<close>, a mapping up to \<open>maxMappingBytes\<close>, a log line up to \<open>max_line\<close>, one MiB, as the scanner does.
  The resolution of a path counts the links it has followed up to \<open>maxSymlinkHops\<close>, 256, as the code does, which
  with the length of the path is the measure of its recursion. The loops over digits
  (\<open>decimal\<close>, \<open>big_Bytes\<close>) and text are functions with their termination. The loop that writes to a pipe may run for ever: it is a partial function, and that it
  returns is a theorem for a kernel that in the end takes some bytes or reports an error other than an
  interruption. No fuel is used.

  \<^bold>\<open>Not modelled.\<close> The token buckets compute in \<^verbatim>\<open>float64\<close> on the wall clock, so whether a request is let through
  is an input; how a limiter is configured and whether there is one is modelled. The
  \<^verbatim>\<open>flag\<close> package is left out, commands with it start from their parsed flags; flag loops that are written
  out are modelled. The mux of \<^verbatim>\<open>net/http\<close>, listening, TLS, signals and shutdown are I/O around the handlers. Printed text is kept as a value where it is JSON; usage text and the lines of \<^verbatim>\<open>demo\<close> are not
  modelled, nor are the last checks of \<^verbatim>\<open>demo\<close>, a trace of its own log and a session over a test server. A
  disk of files (\<open>on_disk\<close>, \<open>gateway_disk\<close>) takes different path strings as different files, which the check of
  identity files gives for paths without \<^verbatim>\<open>..\<close> only. In a run of exchanges or of the token endpoint alone the
  attestor keeps its reading of the clock and the keys; in the runs of \<^verbatim>\<open>serve\<close> it reads them at each request.
  Context values of \<^verbatim>\<open>internal/a2a\<close> are arguments. The builds for other systems only refuse.
\<close>

end
